(* ===== verification/Prelude.thy ===== *)
theory Prelude
  imports Main "HOL-Library.Word" "HOL-Library.Signed_Division" "HOL-Library.Monad_Syntax"
begin

text \<open>
  Shared ground of the development: the machine types of \<^verbatim>\<open>lib/mytype.h\<close>, little-endian
  views of objects in memory, bounded copies between buffers (where \<open>None\<close> stands for an access
  outside an object, that is, undefined behaviour), C's truncating division, and the lemma
  collections the component theories feed to the simplifier.
\<close>

unbundle bit_operations_syntax

named_theorems byte_simps \<open>numeric readings of byte operations\<close>
named_theorems buf_simps \<open>bounded buffer accesses\<close>
named_theorems wf_intros \<open>well-formedness facts, used as introduction rules\<close>

section \<open>Machine types\<close>

type_synonym u8 = "8 word"
type_synonym u16 = "16 word"
type_synonym u32 = "32 word"
type_synonym ul64 = "64 word"
type_synonym l64 = "64 word"
type_synonym bytes = "u8 list"

section \<open>Little-endian views\<close>

text \<open>
  The target is little-endian: the bytes of an unsigned object, in address order, are the digits
  to base 256 of its value, least significant first.
\<close>

fun le_val :: "bytes \<Rightarrow> nat" where
  "le_val [] = 0"
| "le_val (b # bs) = unat b + 256 * le_val bs"

fun le_bytes :: "nat \<Rightarrow> nat \<Rightarrow> bytes" where
  "le_bytes 0 v = []"
| "le_bytes (Suc n) v = word_of_nat v # le_bytes n (v div 256)"

lemma length_le_bytes [simp]: "length (le_bytes n v) = n"
  by (induction n arbitrary: v) auto

lemma unat_byte_lt [simp]: "unat (b :: u8) < 256"
  using unsigned_less [of b, where ?'a = nat] by simp

lemma unat_byte_of_nat [simp]: "unat (word_of_nat v :: u8) = v mod 256"
  by (simp add: unat_of_nat)

lemma byte_of_unat_add [simp]: "word_of_nat (unat b + 256 * m) = (b :: u8)"
  by (simp add: word_eq_iff_unsigned [where ?'a = nat] unat_of_nat del: of_nat_add of_nat_mult)

lemma le_val_bound: "le_val bs < 256 ^ length bs"
proof (induction bs)
  case Nil
  then show ?case by simp
next
  case (Cons b bs)
  then have "256 * le_val bs + 256 \<le> 256 * 256 ^ length bs" by arith
  then have "unat b + 256 * le_val bs < 256 * 256 ^ length bs"
    using unat_byte_lt [of b] by linarith
  then show ?case by simp
qed

lemma le_val_le_bytes: "le_val (le_bytes n v) = v mod 256 ^ n"
  by (induction n arbitrary: v) (simp_all add: mod_mult2_eq)

lemma le_val_div [simp]: "(unat (b :: u8) + 256 * m) div 256 = m"
  by simp

lemma le_bytes_le_val: "length bs = n \<Longrightarrow> le_bytes n (le_val bs) = bs"
  by (induction bs arbitrary: n) (auto simp del: of_nat_add of_nat_mult)

lemma le_bytes_append: "le_bytes (m + n) v = le_bytes m v @ le_bytes n (v div 256 ^ m)"
  by (induction m arbitrary: v) (simp_all add: div_mult2_eq)

lemma take_le_bytes: "m \<le> n \<Longrightarrow> take m (le_bytes n v) = le_bytes m v"
  using le_bytes_append [of m "n - m" v] by simp

lemma le_val_append: "le_val (xs @ ys) = le_val xs + 256 ^ length xs * le_val ys"
  by (induction xs) (simp_all add: algebra_simps)

section \<open>Buffers\<close>

text \<open>
  \<open>memcpy_at off src dst\<close> is \<^verbatim>\<open>memcpy(dst + off, src, n)\<close> for an object \<open>dst\<close> of
  \<open>length dst\<close> bytes; a copy past its end is undefined behaviour, \<open>None\<close>.
  \<open>rd\<close> and \<open>wr\<close> are the single accesses \<^verbatim>\<open>p[i]\<close> and \<^verbatim>\<open>p[i] = v\<close>.
\<close>

definition memcpy_at :: "nat \<Rightarrow> 'a list \<Rightarrow> 'a list \<Rightarrow> 'a list option" where
  "memcpy_at off src dst =
     (if off + length src \<le> length dst
      then Some (take off dst @ src @ drop (off + length src) dst) else None)"

definition rd :: "'a list \<Rightarrow> nat \<Rightarrow> 'a option" where
  "rd buf i = (if i < length buf then Some (buf ! i) else None)"

definition wr :: "'a list \<Rightarrow> nat \<Rightarrow> 'a \<Rightarrow> 'a list option" where
  "wr buf i v = (if i < length buf then Some (buf[i := v]) else None)"

definition rd_range :: "'a list \<Rightarrow> nat \<Rightarrow> nat \<Rightarrow> 'a list option" where
  "rd_range buf off n = (if off + n \<le> length buf then Some (take n (drop off buf)) else None)"

lemma memcpy_at_Some_iff:
  "memcpy_at off src dst = Some r \<longleftrightarrow>
     off + length src \<le> length dst \<and> r = take off dst @ src @ drop (off + length src) dst"
  by (auto simp: memcpy_at_def)

lemma memcpy_at_length [buf_simps]: "memcpy_at off src dst = Some r \<Longrightarrow> length r = length dst"
  by (auto simp: memcpy_at_def split: if_splits)

lemma memcpy_at_None_iff: "memcpy_at off src dst = None \<longleftrightarrow> length dst < off + length src"
  by (auto simp: memcpy_at_def)

lemma memcpy_at_read:
  "memcpy_at off src dst = Some r \<Longrightarrow> take (length src) (drop off r) = src"
  by (auto simp: memcpy_at_def split: if_splits)

lemma memcpy_at_prefix:
  "memcpy_at off src dst = Some r \<Longrightarrow> take off r = take off dst"
  by (auto simp: memcpy_at_def split: if_splits)

lemma rd_lt [buf_simps]: "i < length buf \<Longrightarrow> rd buf i = Some (buf ! i)"
  by (simp add: rd_def)

lemma wr_lt [buf_simps]: "i < length buf \<Longrightarrow> wr buf i v = Some (buf[i := v])"
  by (simp add: wr_def)

lemma wr_length: "wr buf i v = Some r \<Longrightarrow> length r = length buf"
  by (auto simp: wr_def split: if_splits)

lemma rd_range_length: "rd_range buf off n = Some r \<Longrightarrow> length r = n"
  by (auto simp: rd_range_def split: if_splits)

section \<open>Lists\<close>

lemma nth_append_cons: "(xs @ y # ys) ! length xs = y"
  by simp

lemma foldl_map: "foldl f a (map g xs) = foldl (\<lambda>s x. f s (g x)) a xs"
  by (induction xs arbitrary: a) auto

lemma take_drop_split: "i < length xs \<Longrightarrow> xs = take i xs @ xs ! i # drop (Suc i) xs"
  by (simp add: id_take_nth_drop)

section \<open>C integers\<close>

text \<open>
  C's \<^verbatim>\<open>/\<close> and \<^verbatim>\<open>%\<close> truncate towards zero (\<open>sdiv\<close> and \<open>smod\<close> of the library);
  on non-negative operands they agree with \<open>div\<close> and \<open>mod\<close>.
\<close>

lemma sdiv_nonneg [simp]: "0 \<le> a \<Longrightarrow> 0 < b \<Longrightarrow> (a :: int) sdiv b = a div b"
  by (cases "a = 0") (simp_all add: signed_divide_int_def)

lemma smod_nonneg [simp]: "0 \<le> a \<Longrightarrow> 0 < b \<Longrightarrow> (a :: int) smod b = a mod b"
  by (cases "a = 0") (simp_all add: signed_modulo_int_def)

text \<open>The truncation of an \<open>int\<close> value to 32 bits, as an assignment to a C \<^verbatim>\<open>int\<close> makes it.\<close>

definition to_int32 :: "int \<Rightarrow> int" where
  "to_int32 x = sint (word_of_int x :: u32)"

lemma to_int32_id: "- (2 ^ 31) \<le> x \<Longrightarrow> x < 2 ^ 31 \<Longrightarrow> to_int32 x = x"
  by (simp add: to_int32_def signed_of_int signed_take_bit_int_eq_self)

section \<open>Words\<close>

lemma xor_cancel_right [simp]: "a XOR k = b XOR k \<longleftrightarrow> a = (b :: 'a :: len word)"
  by (metis xor.assoc xor_self_eq xor.right_neutral)

lemma xor_cancel_left [simp]: "k XOR a = k XOR b \<longleftrightarrow> a = (b :: 'a :: len word)"
  by (metis xor.commute xor_cancel_right)

lemma unat_hi_nibble [byte_simps]: "unat (drop_bit 4 (b :: u8)) = unat b div 16"
  by (simp add: drop_bit_eq_div unat_div_distrib)

lemma unat_lo_nibble [byte_simps]: "unat ((b :: u8) AND 15) = unat b mod 16"
proof -
  have "b AND 15 = take_bit 4 b"
    by (simp add: take_bit_eq_mask mask_eq_exp_minus_1)
  then show ?thesis
    by (simp add: take_bit_eq_mod unat_mod_distrib)
qed

lemma hi_nibble_lt: "unat (drop_bit 4 (b :: u8)) < 16"
  by (simp add: byte_simps less_mult_imp_div_less)

lemma lo_nibble_lt: "unat ((b :: u8) AND 15) < 16"
  by (simp add: byte_simps)

text \<open>A signed 64-bit value and its unsigned reading.\<close>

lemma sint_l64: "sint (w :: l64) = (if bit w 63 then int (unat w) - 2 ^ 64 else int (unat w))"
proof -
  have "sint w = take_bit 64 (uint w) - 2 ^ 64 * of_bool (bit (uint w) 63)"
    using signed_take_bit_eq_take_bit_minus [of 63 "uint w"] by (simp add: sint_uint)
  moreover have "take_bit 64 (uint w) = uint w"
    using uint_bounded [of w] by (simp add: take_bit_int_eq_self)
  moreover have "bit (uint w) 63 = bit w 63"
    by (simp add: bit_uint_iff)
  ultimately show ?thesis by simp
qed

lemma sint_l64_nonneg: "0 \<le> sint (w :: l64) \<Longrightarrow> sint w = int (unat w)"
proof -
  assume "0 \<le> sint w"
  moreover have "uint w < 2 ^ 64" using uint_bounded [of w] by simp
  ultimately show ?thesis by (simp add: sint_l64 split: if_splits)
qed

lemma sint_l64_of_nat: "n < 2 ^ 63 \<Longrightarrow> sint (word_of_nat n :: l64) = int n"
proof -
  assume "n < 2 ^ 63"
  then have u: "uint (word_of_nat n :: l64) = int n"
    by (simp add: unsigned_of_nat take_bit_nat_eq_self)
  then show ?thesis
    using \<open>n < 2 ^ 63\<close> by (simp add: sint_uint signed_take_bit_int_eq_self)
qed

end
