(* ===== verification/Lib_Checksum.thy ===== *)
theory Lib_Checksum
  imports Prelude
begin

text \<open>
  The two checksums of \<^verbatim>\<open>lib/lib.cpp\<close>: \<^verbatim>\<open>crc_calculate\<close> (CRC-16, polynomial
  \<^verbatim>\<open>0xA001\<close>, which closes every frame of the centre protocol) and \<^verbatim>\<open>crc8\<close> (polynomial
  \<^verbatim>\<open>0x07\<close>, which guards the accumulated rain stored in the database). The locale
  \<open>checksum\<close> is what both promise: the step is injective in the state and in the byte, so
  messages that differ in one byte never collide. Both CRCs interpret it.
\<close>

section \<open>The interface of a byte-wise checksum\<close>

locale checksum =
  fixes step :: "'c \<Rightarrow> 'b \<Rightarrow> 'c"
  assumes step_inj_state: "step c b = step c' b \<Longrightarrow> c = c'"
    and step_inj_byte: "step c b = step c b' \<Longrightarrow> b = b'"
begin

lemma fold_inj_state: "foldl step c bs = foldl step c' bs \<Longrightarrow> c = c'"
  by (induction bs arbitrary: c c') (auto dest: step_inj_state)

lemma detects_one:
  "b \<noteq> b' \<Longrightarrow> foldl step c (xs @ b # ys) \<noteq> foldl step c (xs @ b' # ys)"
  by (auto dest!: fold_inj_state step_inj_byte)

lemma last_byte_determined:
  "foldl step c (xs @ [b]) = foldl step c (xs @ [b']) \<longleftrightarrow> b = b'"
  by (auto dest: step_inj_byte)

end

section \<open>CRC-16\<close>

definition crc16_bit :: "u16 \<Rightarrow> u16" where
  "crc16_bit c = (if c AND 1 \<noteq> 0 then drop_bit 1 c XOR 0xA001 else drop_bit 1 c)"

definition crc16_byte :: "u16 \<Rightarrow> u8 \<Rightarrow> u16" where
  "crc16_byte c b = (crc16_bit ^^ 8) (c XOR ucast b)"

text \<open>The loop counter and its bound \<^verbatim>\<open>check_len\<close> are \<^verbatim>\<open>u8\<close>: the length argument is
  truncated to its low byte before the loop.\<close>

definition crc_calculate :: "bytes \<Rightarrow> int \<Rightarrow> u16" where
  "crc_calculate check_buffer len =
     (let check_len = (word_of_int len :: u8)
      in foldl crc16_byte 0xFFFF (take (unat check_len) check_buffer))"

text \<open>The reference: the CRC of a whole message, with no truncated length.\<close>

definition crc16 :: "bytes \<Rightarrow> u16" where
  "crc16 bs = foldl crc16_byte 0xFFFF bs"

lemma and_one_ne_0: "(c :: 'a :: len word) AND 1 \<noteq> 0 \<longleftrightarrow> bit c 0"
  by (simp add: and_one_eq bit_0 mod_2_eq_odd)

lemma drop_bit_inj:
  assumes "drop_bit 1 (a :: 'a :: len word) = drop_bit 1 b" and "bit a 0 = bit b 0"
  shows "a = b"
proof (rule bit_word_eqI)
  fix n assume "n < LENGTH('a)"
  show "bit a n = bit b n"
  proof (cases n)
    case 0
    with assms(2) show ?thesis by simp
  next
    case (Suc m)
    have "bit (drop_bit 1 a) m = bit (drop_bit 1 b) m"
      using assms(1) by simp
    with Suc show ?thesis by (simp add: bit_simps)
  qed
qed

lemma crc16_bit_alt: "crc16_bit c = drop_bit 1 c XOR (if bit c 0 then 0xA001 else 0)"
  by (simp add: crc16_bit_def and_one_ne_0)

lemma crc16_bit_top: "bit (crc16_bit c) 15 = bit c 0"
  by (simp add: crc16_bit_alt bit_simps not_bit_length [where ?'a = 16, simplified])

lemma crc16_bit_xor: "crc16_bit (a XOR b) = crc16_bit a XOR crc16_bit b"
  by (simp add: crc16_bit_alt drop_bit_xor bit_simps ac_simps)

lemma crc16_bit_inj: "crc16_bit a = crc16_bit b \<Longrightarrow> a = b"
proof -
  assume eq: "crc16_bit a = crc16_bit b"
  then have b0: "bit a 0 = bit b 0"
    using crc16_bit_top by metis
  with eq have "drop_bit 1 a = drop_bit 1 b"
    by (simp only: crc16_bit_alt xor_cancel_right)
  with b0 show "a = b" by (simp add: drop_bit_inj)
qed

lemma crc16_bits_inj: "(crc16_bit ^^ n) a = (crc16_bit ^^ n) b \<Longrightarrow> a = b"
  by (induction n arbitrary: a b) (auto dest: crc16_bit_inj)

lemma crc16_bits_xor: "(crc16_bit ^^ n) (a XOR b) = (crc16_bit ^^ n) a XOR (crc16_bit ^^ n) b"
  by (induction n) (simp_all add: crc16_bit_xor)

lemma crc16_bit_even: "\<not> bit c 0 \<Longrightarrow> crc16_bit c = drop_bit 1 c"
  by (simp add: crc16_bit_alt)

lemma crc16_bits_high:
 "n \<le> 8 \<Longrightarrow> (crc16_bit ^^ n) (push_bit 8 (ucast (b :: u8))) = push_bit (8 - n) (ucast b)"
proof (induction n)
  case 0
  then show ?case by simp
next
  case (Suc n)
  then have IH: "(crc16_bit ^^ n) (push_bit 8 (ucast b)) = push_bit (8 - n) (ucast b)" by simp
  have "crc16_bit (push_bit (8 - n) (ucast b)) = drop_bit 1 (push_bit (8 - n) (ucast b))"
    using Suc.prems by (intro crc16_bit_even) (simp add: bit_simps)
  also have "... = push_bit (8 - Suc n) (ucast b)"
    using Suc.prems
    by (intro bit_word_eqI) (auto simp: bit_simps Suc_diff_le dest: bit_imp_le_length)
  finally show ?case using IH by simp
qed


lemma byte_u16_inj: "(ucast b :: u16) = ucast b' \<longleftrightarrow> b = (b' :: u8)"
proof
  assume "(ucast b :: u16) = ucast b'"
  then have "unat (ucast b :: u16) = unat (ucast b' :: u16)" by simp
  then show "b = b'"
    using unat_byte_lt [of b] unat_byte_lt [of b']
    by (simp add: unsigned_ucast_eq word_eq_iff_unsigned [where ?'a = nat] take_bit_eq_mod)
qed simp

lemma crc16_two_bytes:
  "crc16_byte (crc16_byte c b1) b2 =
     (crc16_bit ^^ 16) ((c XOR ucast b1) XOR push_bit 8 (ucast b2))"
proof -
  have high: "(crc16_bit ^^ 8) (push_bit 8 (ucast b2)) = ucast b2"
    using crc16_bits_high [of 8 b2] by simp
  have "(crc16_bit ^^ 8) (c XOR ucast b1) XOR ucast b2 =
      (crc16_bit ^^ 8) ((c XOR ucast b1) XOR push_bit 8 (ucast b2))"
    by (rule sym, rule trans [OF crc16_bits_xor]) (simp only: high)
  moreover have "(crc16_bit ^^ 8) ((crc16_bit ^^ 8) x) = (crc16_bit ^^ 16) x" for x
    using funpow_add [of 8 8 crc16_bit] by (simp add: fun_eq_iff)
  ultimately show ?thesis
    by (simp only: crc16_byte_def)
qed

interpretation crc16: checksum crc16_byte
  unfolding crc16_byte_def
  by unfold_locales (drule crc16_bits_inj, simp add: byte_u16_inj)+

section \<open>CRC-8\<close>

definition crc8_bit :: "u8 \<Rightarrow> u8" where
  "crc8_bit crc = (if crc AND 0x80 \<noteq> 0 then push_bit 1 crc XOR 0x07 else push_bit 1 crc)"

definition crc8_byte :: "u8 \<Rightarrow> u8 \<Rightarrow> u8" where
  "crc8_byte crc b = (crc8_bit ^^ 8) (crc XOR b)"

definition crc8 :: "bytes \<Rightarrow> nat \<Rightarrow> u8" where
  "crc8 data n = foldl crc8_byte 0 (take n data)"

lemma and_128_ne_0: "(c :: u8) AND 0x80 \<noteq> 0 \<longleftrightarrow> bit c 7"
proof -
  have "(0x80 :: u8) = 2 ^ 7" by simp
  then have "c AND 0x80 = push_bit 7 (of_bool (bit c 7))"
    by (intro bit_word_eqI) (auto simp only: bit_and_iff bit_exp_iff bit_push_bit_iff bit_of_bool_iff diff_is_0_eq dest: le_antisym)
  then show ?thesis by auto
qed

lemma crc8_bit_alt: "crc8_bit c = push_bit 1 c XOR (if bit c 7 then 7 else 0)"
  by (simp add: crc8_bit_def and_128_ne_0)

lemma crc8_bit_low: "bit (crc8_bit c) 0 = bit c 7"
  unfolding crc8_bit_alt bit_xor_iff bit_push_bit_iff by (simp add: bit_simps)

lemma push_bit_inj:
  assumes "push_bit 1 (a :: u8) = push_bit 1 b" and "bit a 7 = bit b 7"
  shows "a = b"
proof (rule bit_word_eqI)
  fix n assume n: "n < LENGTH(8)"
  show "bit a n = bit b n"
  proof (cases "n = 7")
    case False
    have "bit (push_bit 1 a) (Suc n) = bit (push_bit 1 b) (Suc n)"
      using assms(1) by simp
    with False n show ?thesis unfolding bit_push_bit_iff by simp
  qed (use assms in simp)
qed

lemma crc8_bit_inj: "crc8_bit a = crc8_bit b \<Longrightarrow> a = b"
proof -
  assume eq: "crc8_bit a = crc8_bit b"
  then have b7: "bit a 7 = bit b 7"
    using crc8_bit_low by metis
  with eq have "push_bit 1 a = push_bit 1 b"
    by (simp only: crc8_bit_alt xor_cancel_right)
  with b7 show "a = b" by (simp add: push_bit_inj)
qed

lemma crc8_bits_inj: "(crc8_bit ^^ n) a = (crc8_bit ^^ n) b \<Longrightarrow> a = b"
  by (induction n arbitrary: a b) (auto dest: crc8_bit_inj)

interpretation crc8: checksum crc8_byte
  unfolding crc8_byte_def by unfold_locales (drule crc8_bits_inj, simp)+

section \<open>What the CRCs detect\<close>

lemma crc_calculate_crc16: "crc_calculate buf len = crc16 (take (nat (len mod 256)) buf)"
proof -
  have "unat (word_of_int len :: u8) = nat (len mod 256)"
    by (simp add: unsigned_of_int take_bit_eq_mod)
  then show ?thesis by (simp add: crc_calculate_def crc16_def)
qed

lemma crc_calculate_short:
  "0 \<le> len \<Longrightarrow> len < 256 \<Longrightarrow> crc_calculate buf len = crc16 (take (nat len) buf)"
  by (simp add: crc_calculate_crc16)

lemma crc16_snoc: "crc16 (xs @ [b]) = crc16_byte (crc16 xs) b"
  by (simp add: crc16_def)

lemma crc16_pair_inj:
  assumes "crc16_byte (crc16_byte c b1) b2 = crc16_byte (crc16_byte c d1) d2"
  shows "b1 = d1 \<and> b2 = d2"
proof -
  have eq: "(ucast b1 :: u16) XOR push_bit 8 (ucast b2) = ucast d1 XOR push_bit 8 (ucast d2)"
    using assms unfolding crc16_two_bytes xor.assoc by (auto dest: crc16_bits_inj)
  have lo: "bit b1 n = bit d1 n" if "n < 8" for n
    using arg_cong [OF eq, of "\<lambda>w. bit w n"] that by (simp add: bit_simps)
  have hi: "bit b2 n = bit d2 n" if "n < 8" for n
    using arg_cong [OF eq, of "\<lambda>w. bit w (n + 8)"] that
    by (auto simp: bit_simps dest: bit_imp_le_length)
  show ?thesis
    by (auto intro!: bit_word_eqI simp: lo hi)
qed

lemma crc16_detects_pair:
  assumes "(b1, b2) \<noteq> (d1, d2)"
  shows "crc16 (xs @ b1 # b2 # ys) \<noteq> crc16 (xs @ d1 # d2 # ys)"
proof
  assume "crc16 (xs @ b1 # b2 # ys) = crc16 (xs @ d1 # d2 # ys)"
  then have "foldl crc16_byte (crc16_byte (crc16_byte (crc16 xs) b1) b2) ys =
      foldl crc16_byte (crc16_byte (crc16_byte (crc16 xs) d1) d2) ys"
    by (simp add: crc16_def)
  then have "b1 = d1 \<and> b2 = d2"
    by (rule crc16_pair_inj [OF crc16.fold_inj_state])
  with assms show False by simp
qed

lemma crc8_detects_one:
  "b \<noteq> d \<Longrightarrow> crc8 (xs @ b # ys) (length xs + Suc (length ys)) \<noteq>
     crc8 (xs @ d # ys) (length xs + Suc (length ys))"
  unfolding crc8_def using crc8.detects_one [of b d 0 xs ys] by simp

end
