(* ===== verification/Lib_Bytes.thy ===== *)
theory Lib_Bytes
  imports Prelude
begin

text \<open>
  The byte-order and BCD conversions of \<^verbatim>\<open>lib/lib.cpp\<close> (lines 42 to 114 and 165 to 269):
  \<^verbatim>\<open>bytehex2bcd\<close>, \<^verbatim>\<open>little2big\<close> (the macro \<^verbatim>\<open>blreverse\<close>), \<^verbatim>\<open>hex2bcd\<close>,
  \<^verbatim>\<open>bcd2hex\<close>, \<^verbatim>\<open>bigbcd2hex\<close>, \<^verbatim>\<open>hex2bigbcd\<close>, \<^verbatim>\<open>inverse\<close>, \<^verbatim>\<open>inverseto\<close>,
  \<^verbatim>\<open>str2hexarray\<close>, \<^verbatim>\<open>hexarray2str\<close> and \<^verbatim>\<open>is_zero\<close>. Loops over a buffer are
  recursions over bounds-checked accesses; what they compute is then stated over lists.
  The locale \<open>codec\<close> is the contract of an encoder and its decoder.
\<close>

section \<open>The interface of an encoder and its decoder\<close>

locale codec =
  fixes enc :: "'a \<Rightarrow> 'b" and dec :: "'b \<Rightarrow> 'a" and ok :: "'a \<Rightarrow> bool"
  assumes dec_enc: "ok x \<Longrightarrow> dec (enc x) = x"
begin

lemma enc_inj: "ok x \<Longrightarrow> ok y \<Longrightarrow> enc x = enc y \<Longrightarrow> x = y"
  by (metis dec_enc)

lemma enc_eq_iff: "ok x \<Longrightarrow> ok y \<Longrightarrow> enc x = enc y \<longleftrightarrow> x = y"
  using enc_inj by blast

lemma dec_onto: "ok x \<Longrightarrow> \<exists>y. dec y = x"
  using dec_enc by blast

end

section \<open>Characters and bytes\<close>

definition byte_of :: "char \<Rightarrow> u8" where
  "byte_of c = word_of_nat (of_char c)"

definition char_of_byte :: "u8 \<Rightarrow> char" where
  "char_of_byte b = char_of (unat b)"

definition bytes_of :: "string \<Rightarrow> bytes" where
  "bytes_of s = map byte_of s"

definition string_of_bytes :: "bytes \<Rightarrow> string" where
  "string_of_bytes bs = map char_of_byte bs"

lemma char_of_byte_of [simp]: "char_of_byte (byte_of c) = c"
  by (simp add: char_of_byte_def byte_of_def)

lemma byte_of_char_of_byte [simp]: "byte_of (char_of_byte b) = b"
  by (simp add: char_of_byte_def byte_of_def)

lemma string_of_bytes_of [simp]: "string_of_bytes (bytes_of s) = s"
  by (simp add: string_of_bytes_def bytes_of_def comp_def)

lemma bytes_of_string_of_bytes [simp]: "bytes_of (string_of_bytes s) = s"
  by (simp add: string_of_bytes_def bytes_of_def comp_def)

lemma length_bytes_of [simp]: "length (bytes_of s) = length s"
  by (simp add: bytes_of_def)

lemma length_string_of_bytes [simp]: "length (string_of_bytes s) = length s"
  by (simp add: string_of_bytes_def)

text \<open>The C string in a buffer: the characters before its first zero byte.\<close>

definition c_str :: "bytes \<Rightarrow> string" where
  "c_str buf = string_of_bytes (takeWhile (\<lambda>b. b \<noteq> 0) buf)"

lemma c_str_bytes_of:
  "0 \<notin> set (bytes_of s) \<Longrightarrow> c_str (bytes_of s @ 0 # rest) = s"
  by (simp add: c_str_def takeWhile_append takeWhile_eq_all_conv)

section \<open>Decimal digits\<close>

text \<open>\<open>bcd_val n d\<close> is the number whose \<open>n\<close> low nibbles are the \<open>n\<close> low decimal digits
  of \<open>d\<close>; \<open>bcd_byte\<close> is the value that the code gives to one packed byte.\<close>

fun bcd_val :: "nat \<Rightarrow> nat \<Rightarrow> nat" where
  "bcd_val 0 d = 0"
| "bcd_val (Suc n) d = d mod 10 + 16 * bcd_val n (d div 10)"

definition bcd_byte :: "u8 \<Rightarrow> nat" where
  "bcd_byte b = unat (drop_bit 4 b) * 10 + unat (b AND 0x0F)"

lemma bcd_byte_nibbles: "bcd_byte b = unat b div 16 * 10 + unat b mod 16"
  by (simp add: bcd_byte_def byte_simps)

lemma bcd_byte_le: "bcd_byte b \<le> 165"
proof -
  have "unat b div 16 < 16" "unat b mod 16 < 16"
    using unat_byte_lt [of b] by (simp_all add: less_mult_imp_div_less)
  then show ?thesis by (simp add: bcd_byte_nibbles)
qed

lemma bcd_val_bound: "bcd_val n d < 16 ^ n"
proof (induction n arbitrary: d)
  case 0
  then show ?case by simp
next
  case (Suc n)
  from Suc [of "d div 10"] have "bcd_val n (d div 10) + 1 \<le> 16 ^ n" by simp
  then have "16 * (bcd_val n (d div 10) + 1) \<le> 16 * 16 ^ n" by (rule mult_le_mono2)
  moreover have "d mod 10 < 16" by (rule less_trans [of _ 10]) simp_all
  ultimately show ?case by simp
qed

lemma bcd_byte_pack:
  assumes "a < 100"
  shows "bcd_byte (word_of_nat (bcd_val 2 a)) = a"
proof -
  have "bcd_val 2 a = a mod 10 + 16 * (a div 10 mod 10)"
    by (simp add: numeral_2_eq_2)
  moreover have "a div 10 mod 10 = a div 10" using assms by simp
  moreover have "a mod 10 + 16 * (a div 10) < 256" using assms by linarith
  ultimately have v: "unat (word_of_nat (bcd_val 2 a) :: u8) = a mod 10 + 16 * (a div 10)"
    by (simp del: of_nat_add of_nat_mult)
  have "(a mod 10 + 16 * (a div 10)) div 16 = a div 10"
    by (simp add: div_eq_0_iff [THEN iffD2] less_trans [of _ 10])
  moreover have "(a mod 10 + 16 * (a div 10)) mod 16 = a mod 10"
    by (simp add: less_trans [of _ 10])
  ultimately show ?thesis
    unfolding bcd_byte_nibbles v by simp
qed

definition bytehex2bcd :: "u8 \<Rightarrow> u16" where
  "bytehex2bcd hex =
     (let r = (word_of_nat (unat hex div 100) :: u16);
          r = push_bit 4 r;
          r = r OR word_of_nat ((unat hex mod 100) div 10);
          r = push_bit 4 r
      in r OR word_of_nat (unat hex mod 10))"

text \<open>A disjunction with a value below the cleared low bits is an addition.\<close>

lemma push_or_val:
  fixes r :: "'a :: len word"
  assumes "unat r * 2 ^ n + m < 2 ^ LENGTH('a)" and "m < 2 ^ n"
  shows "unat (push_bit n r OR word_of_nat m) = unat r * 2 ^ n + m"
proof -
  have "push_bit n (word_of_nat (unat r) :: 'a word) = word_of_nat (unat r * 2 ^ n)"
    by (simp add: push_bit_eq_mult)
  moreover have "(word_of_nat (unat r * 2 ^ n) OR word_of_nat m :: 'a word) =
      word_of_nat ((unat r * 2 ^ n) OR m)"
    by (simp only: of_nat_or_eq)
  moreover have "(unat r * 2 ^ n) OR m = unat r * 2 ^ n + m"
  proof -
    have low: "bit m k \<Longrightarrow> k < n" for k
      using assms(2) by (metis bit_take_bit_iff take_bit_nat_eq_self)
    then have "push_bit n (unat r) AND m = 0"
      by (intro bit_eqI) (auto simp: bit_simps dest: low)
    then show ?thesis
      using disjunctive_add_eq_or [of "push_bit n (unat r)" m] by (simp add: push_bit_eq_mult)
  qed
  ultimately have "push_bit n r OR word_of_nat m = (word_of_nat (unat r * 2 ^ n + m) :: 'a word)"
    by simp
  then show ?thesis
    using assms(1) by (simp add: unat_of_nat del: of_nat_add of_nat_mult)
qed


lemma bytehex2bcd_val: "unat (bytehex2bcd hex) = bcd_val 3 (unat hex)"
proof -
  let ?h = "unat hex"
  have h: "?h < 256" by simp
  then have q: "?h div 100 \<le> 2" by linarith
  have m: "?h mod 100 div 10 < 10" by (simp add: less_mult_imp_div_less)
  have d: "?h mod 10 < 10" by simp
  have gen: "(a * 16 + b) * 16 + c < 65536 \<and> c < 16" if "a \<le> 2" "b < 10" "c < 10" for a b c :: nat
    using that by auto
  from q have r1: "unat (word_of_nat (?h div 100) :: u16) = ?h div 100"
    by (simp add: unat_of_nat)
  have r2: "unat (push_bit 4 (word_of_nat (?h div 100)) OR word_of_nat (?h mod 100 div 10) :: u16)
      = ?h div 100 * 16 + ?h mod 100 div 10" (is "unat ?r2 = _")
  proof -
    have "?h div 100 * 16 + ?h mod 100 div 10 < 65536" "?h mod 100 div 10 < 16"
      using q m d by linarith+
    then show ?thesis
      using push_or_val [of "word_of_nat (?h div 100) :: u16" 4 "?h mod 100 div 10"] by (simp add: r1)
  qed
  have "unat (push_bit 4 ?r2 OR word_of_nat (?h mod 10)) = unat ?r2 * 16 + ?h mod 10"
  proof -
    have "(?h div 100 * 16 + ?h mod 100 div 10) * 16 + ?h mod 10 < 65536" "?h mod 10 < 16"
      using gen [OF q m d] by simp_all
    then show ?thesis
      using push_or_val [of ?r2 4 "?h mod 10"] unfolding r2 by simp
  qed
  moreover have "?h div 10 mod 10 = ?h mod 100 div 10"
    using mod_mult2_eq [of ?h 10 10] by simp
  moreover have "?h div 10 div 10 mod 10 = ?h div 100"
    using q by (simp add: div_mult2_eq [symmetric])
  ultimately show ?thesis
    unfolding bytehex2bcd_def Let_def r2 by (simp add: numeral_3_eq_3)
qed

section \<open>Copies that reverse\<close>

text \<open>\<open>little2big_loop\<close> is the loop: \<open>pos\<close> is the distance \<^verbatim>\<open>big\<close> has advanced and the
  last argument is \<^verbatim>\<open>size\<close>.\<close>

fun little2big_loop :: "bytes \<Rightarrow> bytes \<Rightarrow> nat \<Rightarrow> nat \<Rightarrow> bytes option" where
  "little2big_loop little big pos 0 = Some big"
| "little2big_loop little big pos (Suc n) = do {
     b \<leftarrow> rd little n;
     big' \<leftarrow> wr big pos b;
     little2big_loop little big' (Suc pos) n }"

definition little2big :: "bytes \<Rightarrow> bytes \<Rightarrow> int \<Rightarrow> (bytes \<times> int) option" where
  "little2big little big len = do {
     big' \<leftarrow> little2big_loop little big 0 (nat len);
     Some (big', len) }"

lemma little2big_loop_rev:
  "n \<le> length little \<Longrightarrow> pos + n \<le> length big \<Longrightarrow>
     little2big_loop little big pos n =
       Some (take pos big @ rev (take n little) @ drop (pos + n) big)"
proof (induction n arbitrary: big pos)
  case 0
  then show ?case by simp
next
  case (Suc n)
  have t: "take (Suc pos) (big[pos := b]) = take pos big @ [b]" for b
    using Suc.prems by (simp add: take_Suc_conv_app_nth list_update_append)
  have r: "rev (take (Suc n) little) = little ! n # rev (take n little)"
    using Suc.prems by (simp add: take_Suc_conv_app_nth)
  show ?case
    using Suc.prems Suc.IH [of "Suc pos" "big[pos := little ! n]"]
    by (simp add: buf_simps t r)
qed

lemma little2big_rev:
  "nat len \<le> length little \<Longrightarrow> nat len \<le> length big \<Longrightarrow>
     little2big little big len = Some (rev (take (nat len) little) @ drop (nat len) big, len)"
  by (simp add: little2big_def little2big_loop_rev)

lemma little2big_loop_oob:
  "length little < n \<Longrightarrow> little2big_loop little big pos n = None"
  by (cases n) (simp_all add: rd_def)

function inverse_loop :: "bytes \<Rightarrow> nat \<Rightarrow> nat \<Rightarrow> bytes option" where
  "inverse_loop data len i =
     (if i < len div 2
      then do {
        tmp \<leftarrow> rd data i;
        b \<leftarrow> rd data (len - 1 - i);
        data1 \<leftarrow> wr data i b;
        data2 \<leftarrow> wr data1 (len - 1 - i) tmp;
        inverse_loop data2 len (Suc i) }
      else Some data)"
  by auto
termination by (relation "measure (\<lambda>(data, len, i). len div 2 - i)") auto

declare inverse_loop.simps [simp del]

definition inverse_buf :: "bytes \<Rightarrow> int \<Rightarrow> bytes option" where
  "inverse_buf data len = inverse_loop data (nat len) 0"

lemma inverse_loop_nth:
  "len \<le> length data \<Longrightarrow> i \<le> len div 2 \<Longrightarrow>
     \<exists>r. inverse_loop data len i = Some r \<and> length r = length data \<and>
       (\<forall>j < length data. r ! j = (if i \<le> j \<and> j < len - i then data ! (len - 1 - j) else data ! j))"
proof (induction data len i rule: inverse_loop.induct)
  case (1 data len i)
  show ?case
  proof (cases "i < len div 2")
    case False
    with 1 have "i = len div 2" by simp
    then show ?thesis
      by (subst inverse_loop.simps) (auto intro!: arg_cong [where f = "\<lambda>k. data ! k"])
  next
    case True
    let ?d = "data[i := data ! (len - 1 - i), len - 1 - i := data ! i]"
    from True 1 have a: "i < length data" "len - 1 - i < length data" by auto
    have "\<exists>r. inverse_loop ?d len (Suc i) = Some r \<and> length r = length ?d \<and>
       (\<forall>j < length ?d. r ! j = (if Suc i \<le> j \<and> j < len - Suc i then ?d ! (len - 1 - j) else ?d ! j))"
      by (rule "1.IH" [of "data ! i" "data ! (len - 1 - i)" "data[i := data ! (len - 1 - i)]"])
        (use True 1 a in \<open>auto simp: buf_simps\<close>)
    then obtain r where r: "inverse_loop ?d len (Suc i) = Some r" "length r = length data"
      and nth: "\<And>j. j < length data \<Longrightarrow>
        r ! j = (if Suc i \<le> j \<and> j < len - Suc i then ?d ! (len - 1 - j) else ?d ! j)"
      by auto
    have "inverse_loop data len i = Some r"
      using True a r by (subst inverse_loop.simps) (simp add: buf_simps)
    moreover have "r ! j = (if i \<le> j \<and> j < len - i then data ! (len - 1 - j) else data ! j)"
      if j: "j < length data" for j
    proof -
      consider "j = i" | "j = len - 1 - i" "j \<noteq> i" | "j \<noteq> i" "j \<noteq> len - 1 - i" by blast
      then show ?thesis
      proof cases
        case 1
        with True a nth [OF j] show ?thesis by (auto simp: nth_list_update)
      next
        case 2
        with True a nth [OF j] show ?thesis by (auto simp: nth_list_update)
      next
        case 3
        with True a j nth [OF j] show ?thesis by (auto simp: nth_list_update)
      qed
    qed
    ultimately show ?thesis using r by blast
  qed
qed

lemma inverse_buf_rev:
  assumes "nat len \<le> length data"
  shows "inverse_buf data len = Some (rev (take (nat len) data) @ drop (nat len) data)"
proof -
  obtain r where r: "inverse_loop data (nat len) 0 = Some r" "length r = length data"
    and nth: "\<And>j. j < length data \<Longrightarrow>
      r ! j = (if j < nat len then data ! (nat len - 1 - j) else data ! j)"
    using inverse_loop_nth [of "nat len" data 0] assms by auto
  have "r = rev (take (nat len) data) @ drop (nat len) data"
    using assms by (intro nth_equalityI) (auto simp: r nth nth_append rev_nth)
  with r show ?thesis by (simp add: inverse_buf_def)
qed

fun inverseto_loop :: "bytes \<Rightarrow> bytes \<Rightarrow> nat \<Rightarrow> nat \<Rightarrow> bytes option" where
  "inverseto_loop data out i 0 = Some out"
| "inverseto_loop data out i (Suc k) = do {
     b \<leftarrow> rd data k;
     out' \<leftarrow> wr out i b;
     inverseto_loop data out' (Suc i) k }"

definition inverseto :: "bytes \<Rightarrow> bytes \<Rightarrow> int \<Rightarrow> bytes option" where
  "inverseto data out len = inverseto_loop data out 0 (nat len)"

lemma inverseto_loop_eq: "inverseto_loop data out i k = little2big_loop data out i k"
  by (induction k arbitrary: out i) simp_all

lemma inverseto_rev:
  "nat len \<le> length data \<Longrightarrow> nat len \<le> length out \<Longrightarrow>
     inverseto data out len = Some (rev (take (nat len) data) @ drop (nat len) out)"
  by (simp add: inverseto_def inverseto_loop_eq little2big_loop_rev)

section \<open>BCD conversions\<close>

text \<open>\<open>hex2bcd_loop k i d r\<close> is the loop of \<^verbatim>\<open>hex2bcd\<close> with \<open>k\<close> turns left.\<close>

fun hex2bcd_loop :: "nat \<Rightarrow> nat \<Rightarrow> ul64 \<Rightarrow> ul64 \<Rightarrow> ul64" where
  "hex2bcd_loop 0 i d r = r"
| "hex2bcd_loop (Suc k) i d r =
     hex2bcd_loop k (Suc i) (d div 10) (r OR push_bit (4 * i) (d mod 10))"

text \<open>The test \<^verbatim>\<open>bytes > sizeof(d)\<close> compares unsigned values, so a negative count is also
  clamped to eight.\<close>

definition hex2bcd :: "bytes \<Rightarrow> int \<Rightarrow> ul64 option" where
  "hex2bcd hex n =
     (let m = (if n < 0 \<or> n > 8 then 8 else nat n) in do {
       src \<leftarrow> rd_range hex 0 m;
       Some (hex2bcd_loop 16 0 (word_of_nat (le_val src)) 0) })"

definition bcd_step :: "ul64 \<Rightarrow> u8 \<Rightarrow> ul64" where
  "bcd_step r b = r * 100 + word_of_nat (bcd_byte b)"

definition bcd2hex :: "bytes \<Rightarrow> int \<Rightarrow> ul64 option" where
  "bcd2hex d n = do {
     src \<leftarrow> rd_range d 0 (nat n);
     Some (foldl bcd_step 0 (rev src)) }"

definition bigbcd2hex :: "bytes \<Rightarrow> int \<Rightarrow> ul64 option" where
  "bigbcd2hex d n = do {
     src \<leftarrow> rd_range d 0 (nat n);
     Some (foldl bcd_step 0 src) }"

definition hex2bigbcd :: "bytes \<Rightarrow> int \<Rightarrow> (bytes \<times> int) option" where
  "hex2bigbcd d n = do {
     dd \<leftarrow> hex2bcd d n;
     (d', r) \<leftarrow> little2big (le_bytes 8 (unat dd)) d n;
     Some (d', n) }"

text \<open>The references: the number a big-endian sequence of packed bytes stands for, and the
  packed bytes of a number.\<close>

definition bcd_num :: "bytes \<Rightarrow> nat" where
  "bcd_num bs = foldl (\<lambda>r b. r * 100 + bcd_byte b) 0 bs"

fun bcd_bytes :: "nat \<Rightarrow> nat \<Rightarrow> bytes" where
  "bcd_bytes 0 v = []"
| "bcd_bytes (Suc n) v = bcd_bytes n (v div 100) @ [word_of_nat (bcd_val 2 (v mod 100))]"

lemma length_bcd_bytes [simp]: "length (bcd_bytes n v) = n"
  by (induction n arbitrary: v) simp_all

lemma bcd_num_snoc: "bcd_num (bs @ [b]) = bcd_num bs * 100 + bcd_byte b"
  by (simp add: bcd_num_def)

lemma bcd_num_bytes: "bcd_num (bcd_bytes n v) = v mod 100 ^ n"
proof (induction n arbitrary: v)
  case 0
  then show ?case by (simp add: bcd_num_def)
next
  case (Suc n)
  then show ?case by (simp add: bcd_num_snoc bcd_byte_pack mod_mult2_eq)
qed

lemma foldl_bcd_step: "foldl bcd_step 0 bs = word_of_nat (bcd_num bs)"
proof -
  have "foldl bcd_step (word_of_nat a) bs =
      word_of_nat (foldl (\<lambda>r b. r * 100 + bcd_byte b) a bs)" for a
  proof (induction bs arbitrary: a)
    case Nil
    then show ?case by simp
  next
    case (Cons b bs)
    have "bcd_step (word_of_nat a) b = word_of_nat (a * 100 + bcd_byte b)"
      by (simp add: bcd_step_def)
    with Cons show ?case by (simp del: of_nat_add of_nat_mult)
  qed
  from this [of 0] show ?thesis by (simp add: bcd_num_def)
qed

lemma bigbcd2hex_num:
  "nat n \<le> length d \<Longrightarrow> bigbcd2hex d n = Some (word_of_nat (bcd_num (take (nat n) d)))"
  by (simp add: bigbcd2hex_def rd_range_def foldl_bcd_step)

lemma bcd2hex_num:
  "nat n \<le> length d \<Longrightarrow> bcd2hex d n = Some (word_of_nat (bcd_num (rev (take (nat n) d))))"
  by (simp add: bcd2hex_def rd_range_def foldl_bcd_step)

lemma bigbcd2hex_bcd_bytes:
  "v < 100 ^ n \<Longrightarrow> bigbcd2hex (bcd_bytes n v @ rest) (int n) = Some (word_of_nat v)"
  by (simp add: bigbcd2hex_num bcd_num_bytes)

lemma hex2bcd_loop_val:
  "unat r < 16 ^ i \<Longrightarrow> i + k \<le> 16 \<Longrightarrow>
     unat (hex2bcd_loop k i d r) = unat r + 16 ^ i * bcd_val k (unat d)"
proof (induction k arbitrary: i d r)
  case 0
  then show ?case by simp
next
  case (Suc k)
  let ?x = "d mod 10"
  have x: "unat ?x = unat d mod 10" and dd: "unat (d div 10) = unat d div 10"
    by (simp_all add: unat_mod_distrib unat_div_distrib)
  have p: "(2 :: nat) ^ (4 * i) = 16 ^ i" by (simp add: power_mult)
  have "unat ?x < 16" unfolding x by (rule less_trans [of _ 10]) simp_all
  then have "(unat ?x + 1) * 16 ^ i \<le> 16 * 16 ^ i" by (intro mult_le_mono1) simp
  then have "unat ?x * 16 ^ i + unat r < 16 ^ Suc i"
    using Suc.prems(1) unfolding add_mult_distrib power_Suc by linarith
  moreover have "(16 :: nat) ^ Suc i \<le> 16 ^ 16"
    using Suc.prems(2) by (intro power_increasing) simp_all
  ultimately have lt: "unat ?x * 16 ^ i + unat r < 2 ^ 64"
    and lt': "unat ?x * 16 ^ i + unat r < 16 ^ Suc i" by simp_all
  have "push_bit (4 * i) ?x OR word_of_nat (unat r) = r OR push_bit (4 * i) ?x"
    by (simp add: or.commute)
  then have step: "unat (r OR push_bit (4 * i) ?x) = unat ?x * 16 ^ i + unat r"
    using push_or_val [of ?x "4 * i" "unat r"] lt Suc.prems(1) by (simp add: p)
  have "unat (hex2bcd_loop k (Suc i) (d div 10) (r OR push_bit (4 * i) ?x)) =
      unat ?x * 16 ^ i + unat r + 16 ^ Suc i * bcd_val k (unat d div 10)"
    using Suc.IH [of "r OR push_bit (4 * i) ?x" "Suc i" "d div 10"] Suc.prems(2) lt'
    unfolding step dd by simp
  then show ?case by (simp add: x algebra_simps)
qed

lemma hex2bcd_val:
  assumes "n \<le> 8" and "n \<le> length hex"
  shows "\<exists>r. hex2bcd hex (int n) = Some r \<and> unat r = bcd_val 16 (le_val (take n hex))"
proof -
  have "le_val (take n hex) < 256 ^ n"
    using le_val_bound [of "take n hex"] assms(2) by simp
  also have "(256 :: nat) ^ n \<le> 256 ^ 8" using assms(1) by (intro power_increasing) simp_all
  finally have "unat (word_of_nat (le_val (take n hex)) :: ul64) = le_val (take n hex)"
    by (simp add: unat_of_nat)
  then show ?thesis
    using assms hex2bcd_loop_val [of 0 0 16 "word_of_nat (le_val (take n hex))"]
    by (simp add: hex2bcd_def rd_range_def)
qed

lemma bcd_val_two: "bcd_val (Suc (Suc n)) d = bcd_val 2 (d mod 100) + 256 * bcd_val n (d div 100)"
proof -
  have "d mod 100 mod 10 = d mod 10" by (simp add: mod_mod_cancel)
  moreover have "d mod 100 div 10 mod 10 = d div 10 mod 10"
    using mod_mult2_eq [of d 10 10] by simp
  moreover have "d div 10 div 10 = d div 100" by (simp add: div_mult2_eq [symmetric])
  ultimately show ?thesis by (simp add: numeral_2_eq_2)
qed

lemma bcd_val_2_lt: "a < 100 \<Longrightarrow> bcd_val 2 a < 256"
  using bcd_val_bound [of 2 a] by simp

lemma le_bytes_bcd_val: "le_bytes n (bcd_val (2 * n) v) = rev (bcd_bytes n v)"
proof (induction n arbitrary: v)
  case 0
  then show ?case by simp
next
  case (Suc n)
  have s: "bcd_val (2 * Suc n) v = bcd_val 2 (v mod 100) + 256 * bcd_val (2 * n) (v div 100)"
    using bcd_val_two [of "2 * n" v] by simp
  have "bcd_val 2 (v mod 100) < 256" by (rule bcd_val_2_lt) simp
  then have q: "bcd_val (2 * Suc n) v div 256 = bcd_val (2 * n) (v div 100)"
    unfolding s by simp
  have "(word_of_nat (256 * m) :: u8) = 0" for m
    by (simp add: word_eq_iff_unsigned [where ?'a = nat] del: of_nat_mult)
  then have "(word_of_nat (bcd_val (2 * Suc n) v) :: u8) = word_of_nat (bcd_val 2 (v mod 100))"
    unfolding s by (simp del: of_nat_mult add: of_nat_add)
  with Suc q show ?case by (simp del: bcd_val.simps mult_Suc_right)
qed

text \<open>\<^verbatim>\<open>hex2bcd\<close> and \<^verbatim>\<open>bcd2hex\<close> invert each other on sixteen decimal digits.\<close>

lemma bcd2hex_hex2bcd:
  assumes "n \<le> 8" and "length hex = n" and "le_val hex < 10 ^ 16"
  shows "\<exists>r. hex2bcd hex (int n) = Some r \<and>
    bcd2hex (le_bytes 8 (unat r)) 8 = Some (word_of_nat (le_val hex))"
proof -
  obtain r where r: "hex2bcd hex (int n) = Some r" "unat r = bcd_val 16 (le_val hex)"
    using hex2bcd_val [of n hex] assms by auto
  have "bcd_num (rev (le_bytes 8 (unat r))) = le_val hex"
    using le_bytes_bcd_val [of 8 "le_val hex"] assms(3)
    by (simp add: r bcd_num_bytes)
  with r show ?thesis by (simp add: bcd2hex_num)
qed

lemma hex2bigbcd_bytes:
  assumes "n \<le> 8" and "n \<le> length d"
  shows "hex2bigbcd d (int n) =
    Some (bcd_bytes n (le_val (take n d)) @ drop n d, int n)"
proof -
  obtain r where r: "hex2bcd d (int n) = Some r" "unat r = bcd_val 16 (le_val (take n d))"
    using hex2bcd_val [OF assms] by auto
  let ?v = "le_val (take n d)"
  have "le_bytes 8 (unat r) = rev (bcd_bytes 8 ?v)"
    using le_bytes_bcd_val [of 8 ?v] r by simp
  then have t: "take n (le_bytes 8 (unat r)) = take n (rev (bcd_bytes 8 ?v))" by simp
  have "take n (rev (bcd_bytes m v)) = rev (bcd_bytes n v)" if "n \<le> m" for m v
    using that
  proof (induction n arbitrary: m v)
    case 0
    then show ?case by simp
  next
    case (Suc n)
    then obtain k where "m = Suc k" "n \<le> k" by (cases m) auto
    with Suc.IH [of k "v div 100"] show ?case by simp
  qed
  with assms(1) t have "rev (take n (le_bytes 8 (unat r))) = bcd_bytes n ?v" by simp
  with r assms show ?thesis
    by (simp add: hex2bigbcd_def little2big_rev)
qed

section \<open>Hexadecimal text\<close>

definition hex_digit :: "u8 \<Rightarrow> u8" where
  "hex_digit c = (if c < 65 then c - 48 else c + 10 - 65)"

definition hex_pair :: "u8 \<Rightarrow> u8 \<Rightarrow> u8" where
  "hex_pair h l = (push_bit 4 (hex_digit h) AND 0xF0) OR (hex_digit l AND 0x0F)"

fun str2hexarray_loop :: "bytes \<Rightarrow> bytes \<Rightarrow> nat \<Rightarrow> nat \<Rightarrow> bytes option" where
  "str2hexarray_loop str out i 0 = Some out"
| "str2hexarray_loop str out i (Suc k) = do {
     h \<leftarrow> rd str (i * 2);
     l \<leftarrow> rd str (i * 2 + 1);
     out' \<leftarrow> wr out i (hex_pair h l);
     str2hexarray_loop str out' (Suc i) k }"

definition str2hexarray :: "bytes \<Rightarrow> int \<Rightarrow> bytes \<Rightarrow> int \<Rightarrow> (bytes \<times> int) option" where
  "str2hexarray str slen dataout outsize =
     (let s = (if outsize > slen sdiv 2 then slen sdiv 2 else outsize) in do {
       out' \<leftarrow> str2hexarray_loop str dataout 0 (nat s);
       Some (out', s) })"

definition hex_char :: "nat \<Rightarrow> u8" where
  "hex_char n = byte_of (''0123456789ABCDEF'' ! n)"

text \<open>The output pointer of \<^verbatim>\<open>hexarray2str\<close> is a position \<open>off\<close> inside the object
  \<open>str\<close>: its callers append to a line.\<close>

fun hexarray2str_loop :: "bytes \<Rightarrow> bytes \<Rightarrow> nat \<Rightarrow> nat \<Rightarrow> nat \<Rightarrow> bytes option" where
  "hexarray2str_loop buf str off i 0 = Some str"
| "hexarray2str_loop buf str off i (Suc k) = do {
     b \<leftarrow> rd buf i;
     str1 \<leftarrow> wr str (off + i * 2) (hex_char (unat (drop_bit 4 b AND 0x0F)));
     str2 \<leftarrow> wr str1 (off + i * 2 + 1) (hex_char (unat (b AND 0x0F)));
     hexarray2str_loop buf str2 off (Suc i) k }"

definition hexarray2str :: "bytes \<Rightarrow> int \<Rightarrow> bytes \<Rightarrow> nat \<Rightarrow> int \<Rightarrow> (bytes \<times> int) option" where
  "hexarray2str buf n str off slen =
     (let s = (if n > slen sdiv 2 then slen sdiv 2 else n) in do {
       str' \<leftarrow> hexarray2str_loop buf str off 0 (nat s);
       Some (str', s * 2) })"

text \<open>The references: upper-case hexadecimal text and its reading.\<close>

fun hex_text :: "bytes \<Rightarrow> bytes" where
  "hex_text [] = []"
| "hex_text (b # bs) = hex_char (unat b div 16) # hex_char (unat b mod 16) # hex_text bs"

fun unhex :: "bytes \<Rightarrow> bytes" where
  "unhex (h # l # cs) = hex_pair h l # unhex cs"
| "unhex cs = []"

lemma length_hex_text [simp]: "length (hex_text bs) = 2 * length bs"
  by (induction bs) simp_all

lemma hex_text_append: "hex_text (xs @ ys) = hex_text xs @ hex_text ys"
  by (induction xs) simp_all

lemma nat_less_16_cases:
  "(n :: nat) < 16 \<Longrightarrow> n \<in> {0, 1, 2, 3, 4, 5, 6, 7, 8, 9, 10, 11, 12, 13, 14, 15}"
  by (auto simp: numeral_eq_Suc less_Suc_eq)

lemma hex_digit_char: "n < 16 \<Longrightarrow> hex_digit (hex_char n) = word_of_nat n"
  by (drule nat_less_16_cases)
    (elim insertE emptyE; simp add: hex_char_def hex_digit_def byte_of_def)

lemma hex_pair_char: "hex_pair (hex_char (unat b div 16)) (hex_char (unat b mod 16)) = b"
proof -
  have h: "unat b div 16 < 16" using unat_byte_lt [of b] by (simp add: less_mult_imp_div_less)
  have hi: "(word_of_nat (unat b div 16) :: u8) = drop_bit 4 b"
    using h by (simp add: word_eq_iff_unsigned [where ?'a = nat] byte_simps)
  have lo: "(word_of_nat (unat b mod 16) :: u8) = b AND 15"
    by (simp add: word_eq_iff_unsigned [where ?'a = nat] byte_simps less_trans [of _ 16])
  have "(push_bit 4 (drop_bit 4 b) AND 0xF0) OR (b AND 15 AND 15) = b"
  proof (rule bit_word_eqI)
    fix n assume n: "n < LENGTH(8)"
    have f: "(0xF0 :: u8) = NOT (mask 4)" and m: "(15 :: u8) = mask 4"
      by (simp_all add: mask_eq_exp_minus_1)
    show "bit ((push_bit 4 (drop_bit 4 b) AND 0xF0) OR (b AND 15 AND 15)) n = bit b n"
      unfolding f m using n by (cases "n < 4") (simp_all add: bit_simps)
  qed
  with h show ?thesis
    by (simp add: hex_pair_def hex_digit_char hi lo)
qed

lemma unhex_hex_text [simp]: "unhex (hex_text bs) = bs"
  by (induction bs) (simp_all add: hex_pair_char)

lemma unhex_append: "even (length xs) \<Longrightarrow> unhex (xs @ ys) = unhex xs @ unhex ys"
  by (induction xs rule: unhex.induct) simp_all

lemma length_unhex: "length (unhex cs) = length cs div 2"
  by (induction cs rule: unhex.induct) simp_all

lemma nth_unhex:
  "2 * i + 1 < length cs \<Longrightarrow> unhex cs ! i = hex_pair (cs ! (2 * i)) (cs ! (2 * i + 1))"
  by (induction cs arbitrary: i rule: unhex.induct) (auto simp: nth_Cons split: nat.splits)

lemma str2hexarray_loop_nth:
  "2 * (i + k) \<le> length str \<Longrightarrow> i + k \<le> length out \<Longrightarrow>
     \<exists>r. str2hexarray_loop str out i k = Some r \<and> length r = length out \<and>
       (\<forall>j < length out. r ! j = (if i \<le> j \<and> j < i + k then unhex str ! j else out ! j))"
proof (induction k arbitrary: i out)
  case 0
  then show ?case by auto
next
  case (Suc k)
  let ?o = "out[i := hex_pair (str ! (i * 2)) (str ! (i * 2 + 1))]"
  have u: "hex_pair (str ! (i * 2)) (str ! (i * 2 + 1)) = unhex str ! i"
    using Suc.prems nth_unhex [of i str] by (simp add: mult.commute)
  obtain r where r: "str2hexarray_loop str ?o (Suc i) k = Some r" "length r = length out"
    "\<forall>j < length out. r ! j = (if Suc i \<le> j \<and> j < Suc i + k then unhex str ! j else ?o ! j)"
    using Suc.IH [of "Suc i" ?o] Suc.prems by auto
  have "str2hexarray_loop str out i (Suc k) = Some r"
    using Suc.prems r by (simp add: buf_simps)
  moreover have "\<forall>j < length out. r ! j = (if i \<le> j \<and> j < i + Suc k then unhex str ! j else out ! j)"
    using r(3) Suc.prems u by (auto simp: nth_list_update not_less_eq_eq dest: le_antisym)
  ultimately show ?case using r by blast
qed

lemma str2hexarray_unhex:
  assumes "n \<le> length out" and "2 * n \<le> length str" and "length str < 2 * n + 2"
  shows "str2hexarray str (int (length str)) out (int (length out)) =
    Some (unhex str @ drop n out, int n)"
proof -
  have d: "int (length str) sdiv 2 = int n" using assms(2, 3) by simp
  obtain r where r: "str2hexarray_loop str out 0 n = Some r" "length r = length out"
    "\<forall>j < length out. r ! j = (if j < n then unhex str ! j else out ! j)"
    using str2hexarray_loop_nth [of 0 n str out] assms by auto
  have "length (unhex str) = n" using assms(2, 3) by (simp add: length_unhex)
  then have "r = unhex str @ drop n out"
    using assms(1) by (intro nth_equalityI) (auto simp: r nth_append)
  moreover have "(if int (length out) > int n then int n else int (length out)) = int n"
    using assms(1) by simp
  ultimately show ?thesis using r(1) unfolding str2hexarray_def d Let_def by simp
qed

lemma hexarray2str_loop_text:
  "i + k \<le> length buf \<Longrightarrow> off + 2 * (i + k) \<le> length str \<Longrightarrow>
     hexarray2str_loop buf str off i k =
       Some (take (off + 2 * i) str @ hex_text (take k (drop i buf)) @ drop (off + 2 * (i + k)) str)"
proof (induction k arbitrary: i str)
  case 0
  then show ?case by simp
next
  case (Suc k)
  let ?c = "hex_char (unat (buf ! i) div 16)" and ?d = "hex_char (unat (buf ! i) mod 16)"
  let ?s = "str[off + i * 2 := ?c, off + i * 2 + 1 := ?d]"
  have n: "unat (drop_bit 4 (buf ! i) AND 15) = unat (buf ! i) div 16"
    "unat (buf ! i AND 15) = unat (buf ! i) mod 16"
    using hi_nibble_lt [of "buf ! i"] by (simp_all add: byte_simps)
  have h: "hex_text (take (Suc k) (drop i buf)) = ?c # ?d # hex_text (take k (drop (Suc i) buf))"
    using Suc.prems by (simp add: Cons_nth_drop_Suc [symmetric])
  have t: "take (off + 2 * Suc i) ?s = take (off + 2 * i) str @ [?c, ?d]"
    using Suc.prems by (intro nth_equalityI) (auto simp: nth_append nth_list_update less_Suc_eq mult.commute)
  show ?case
    using Suc.prems Suc.IH [of "Suc i" ?s] unfolding h t
    by (simp add: buf_simps n mult.commute)
qed

lemma hexarray2str_text:
  assumes "n \<le> length buf" and "off + 2 * n \<le> length str" and "2 * int n \<le> slen"
  shows "hexarray2str buf (int n) str off slen =
    Some (take off str @ hex_text (take n buf) @ drop (off + 2 * n) str, 2 * int n)"
proof -
  have "\<not> int n > slen sdiv 2" using assms(3) by simp
  then show ?thesis
    using hexarray2str_loop_text [of 0 n buf off str] assms
    by (simp add: hexarray2str_def)
qed

section \<open>Unset values\<close>

text \<open>\<^verbatim>\<open>is_zero\<close> tests for all bits set, the value of an unwritten hexadecimal item.\<close>

fun is_zero_loop :: "bytes \<Rightarrow> nat \<Rightarrow> nat \<Rightarrow> bool option" where
  "is_zero_loop d i 0 = Some True"
| "is_zero_loop d i (Suc k) = do {
     b \<leftarrow> rd d i;
     if b \<noteq> 0xFF then Some False else is_zero_loop d (Suc i) k }"

definition is_zero_buf :: "bytes \<Rightarrow> int \<Rightarrow> bool option" where
  "is_zero_buf d len = is_zero_loop d 0 (nat len)"

lemma is_zero_loop_iff:
  "i + k \<le> length d \<Longrightarrow> is_zero_loop d i k = Some (\<forall>b \<in> set (take k (drop i d)). b = 0xFF)"
proof (induction k arbitrary: i)
  case 0
  then show ?case by simp
next
  case (Suc k)
  have "take (Suc k) (drop i d) = d ! i # take k (drop (Suc i) d)"
    using Suc.prems by (simp add: Cons_nth_drop_Suc [symmetric])
  with Suc show ?case by (simp add: buf_simps)
qed

lemma is_zero_buf_iff:
  "nat len \<le> length d \<Longrightarrow> is_zero_buf d len = Some (\<forall>b \<in> set (take (nat len) d). b = 0xFF)"
  by (simp add: is_zero_buf_def is_zero_loop_iff)

section \<open>The codecs of the library\<close>

interpretation le: codec "le_bytes n" le_val "\<lambda>v. v < 256 ^ n" for n
  by unfold_locales (simp add: le_val_le_bytes)

interpretation bcd: codec "bcd_bytes n" bcd_num "\<lambda>v. v < 100 ^ n" for n
  by unfold_locales (simp add: bcd_num_bytes)

interpretation hex: codec hex_text unhex "\<lambda>_. True"
  by unfold_locales simp

interpretation chars: codec bytes_of string_of_bytes "\<lambda>_. True"
  by unfold_locales simp

end
