(* ===== verification/Packet.thy ===== *)
theory Packet
  imports Lib_Checksum Lib_Bytes
begin

text \<open>
  The frames of the centre protocol, \<^verbatim>\<open>app/up/packet/upacket.h\<close> and \<^verbatim>\<open>upacket.cpp\<close>: the
  encoder of a frame, and the decoder, a state machine fed byte by byte whose cache is a packed
  structure of 1073 bytes (\<^verbatim>\<open>UDPacket\<close>), read and written both as fields and as raw bytes.
\<close>

section \<open>Codes\<close>

datatype STX = STX_STX | STX_SYN

fun stx_code :: "STX \<Rightarrow> u8" where
  "stx_code STX_STX = 0x02"
| "stx_code STX_SYN = 0x16"

datatype ETX = ETX_NULL | ETX_ETX | ETX_ETB | ETX_ENQ | ETX_EOT | ETX_ACK | ETX_NAK | ETX_ESC

fun etx_code :: "ETX \<Rightarrow> u8" where
  "etx_code ETX_NULL = 0x00"
| "etx_code ETX_ETX = 0x03"
| "etx_code ETX_ETB = 0x17"
| "etx_code ETX_ENQ = 0x05"
| "etx_code ETX_EOT = 0x04"
| "etx_code ETX_ACK = 0x06"
| "etx_code ETX_NAK = 0x15"
| "etx_code ETX_ESC = 0x1B"

datatype UPCMD = UPCMD_2FH_LianluWeichiBao | UPCMD_30H_CeshiBao | UPCMD_31H_JunyunShiduanBao
  | UPCMD_32H_DingshiBao | UPCMD_33H_JiabaoBao | UPCMD_34H_XiaoshiBao | UPCMD_35H | UPCMD_36H
  | UPCMD_37H_shishi | UPCMD_38H | UPCMD_39H | UPCMD_3AH_zhidingids | UPCMD_40H_setparams
  | UPCMD_41H_getparams | UPCMD_42H_setruntimes | UPCMD_43H_getruntimes | UPCMD_44H
  | UPCMD_45H_getVersion | UPCMD_46H | UPCMD_47H_initmemory | UPCMD_48H_factorysetting | UPCMD_49H
  | UPCMD_4AH_settime | UPCMD_4BH | UPCMD_4CH | UPCMD_4DH | UPCMD_4EH | UPCMD_4FH | UPCMD_50H
  | UPCMD_51H

fun upcmd_code :: "UPCMD \<Rightarrow> u8" where
  "upcmd_code UPCMD_2FH_LianluWeichiBao = 0x2F"
| "upcmd_code UPCMD_30H_CeshiBao = 0x30"
| "upcmd_code UPCMD_31H_JunyunShiduanBao = 0x31"
| "upcmd_code UPCMD_32H_DingshiBao = 0x32"
| "upcmd_code UPCMD_33H_JiabaoBao = 0x33"
| "upcmd_code UPCMD_34H_XiaoshiBao = 0x34"
| "upcmd_code UPCMD_35H = 0x35"
| "upcmd_code UPCMD_36H = 0x36"
| "upcmd_code UPCMD_37H_shishi = 0x37"
| "upcmd_code UPCMD_38H = 0x38"
| "upcmd_code UPCMD_39H = 0x39"
| "upcmd_code UPCMD_3AH_zhidingids = 0x3A"
| "upcmd_code UPCMD_40H_setparams = 0x40"
| "upcmd_code UPCMD_41H_getparams = 0x41"
| "upcmd_code UPCMD_42H_setruntimes = 0x42"
| "upcmd_code UPCMD_43H_getruntimes = 0x43"
| "upcmd_code UPCMD_44H = 0x44"
| "upcmd_code UPCMD_45H_getVersion = 0x45"
| "upcmd_code UPCMD_46H = 0x46"
| "upcmd_code UPCMD_47H_initmemory = 0x47"
| "upcmd_code UPCMD_48H_factorysetting = 0x48"
| "upcmd_code UPCMD_49H = 0x49"
| "upcmd_code UPCMD_4AH_settime = 0x4A"
| "upcmd_code UPCMD_4BH = 0x4B"
| "upcmd_code UPCMD_4CH = 0x4C"
| "upcmd_code UPCMD_4DH = 0x4D"
| "upcmd_code UPCMD_4EH = 0x4E"
| "upcmd_code UPCMD_4FH = 0x4F"
| "upcmd_code UPCMD_50H = 0x50"
| "upcmd_code UPCMD_51H = 0x51"

lemma upcmd_code_inj: "upcmd_code a = upcmd_code b \<Longrightarrow> a = b"
  by (cases a; cases b; simp)

text \<open>The commands ordered by their codes.\<close>

instantiation UPCMD :: linorder
begin

definition less_eq_UPCMD :: "UPCMD \<Rightarrow> UPCMD \<Rightarrow> bool" where
  "less_eq_UPCMD a b \<longleftrightarrow> upcmd_code a \<le> upcmd_code b"

definition less_UPCMD :: "UPCMD \<Rightarrow> UPCMD \<Rightarrow> bool" where
  "less_UPCMD a b \<longleftrightarrow> upcmd_code a < upcmd_code b"

instance
  by standard (auto simp: less_eq_UPCMD_def less_UPCMD_def intro: upcmd_code_inj)

end

definition upcmds :: "UPCMD list" where
  "upcmds = [UPCMD_2FH_LianluWeichiBao, UPCMD_30H_CeshiBao, UPCMD_31H_JunyunShiduanBao,
    UPCMD_32H_DingshiBao, UPCMD_33H_JiabaoBao, UPCMD_34H_XiaoshiBao, UPCMD_35H, UPCMD_36H,
    UPCMD_37H_shishi, UPCMD_38H, UPCMD_39H, UPCMD_3AH_zhidingids, UPCMD_40H_setparams,
    UPCMD_41H_getparams, UPCMD_42H_setruntimes, UPCMD_43H_getruntimes, UPCMD_44H,
    UPCMD_45H_getVersion, UPCMD_46H, UPCMD_47H_initmemory, UPCMD_48H_factorysetting, UPCMD_49H,
    UPCMD_4AH_settime, UPCMD_4BH, UPCMD_4CH, UPCMD_4DH, UPCMD_4EH, UPCMD_4FH, UPCMD_50H, UPCMD_51H]"

text \<open>\<^verbatim>\<open>cmd_to_string\<close> names a command; the name is represented by the command.\<close>

definition cmd_to_string :: "int \<Rightarrow> UPCMD option" where
  "cmd_to_string cmd = find (\<lambda>c. int (unat (upcmd_code c)) = cmd) upcmds"

section \<open>The encoder\<close>

definition PDSIZE :: int where
  "PDSIZE = 1024"

record UUPacket =
  up_start :: u16
  up_remote :: u8
  up_local :: bytes
  up_passwd :: bytes
  up_cmd :: u8
  up_len :: u16
  up_stx :: u8
  up_data :: bytes
  up_packetlen :: int

text \<open>The packed structure in memory, up to its data.\<close>

definition uu_bytes :: "UUPacket \<Rightarrow> bytes" where
  "uu_bytes p = le_bytes 2 (unat (up_start p)) @ [up_remote p] @ up_local p @ up_passwd p
     @ [up_cmd p] @ le_bytes 2 (unat (up_len p)) @ [up_stx p] @ up_data p"

text \<open>The length field: its high byte is stored first, with the direction in its top bit.\<close>

definition len_word :: "bool \<Rightarrow> u16 \<Rightarrow> u16" where
  "len_word up len =
     (if up then 0 else 0x0080) OR push_bit 8 (len AND 0xFF) OR (drop_bit 8 len AND 0xFF)"

text \<open>A null data pointer is \<open>None\<close>. The length is capped, the two copies are not.\<close>

definition upacket_encode ::
    "UUPacket \<Rightarrow> bool \<Rightarrow> u8 \<Rightarrow> ul64 \<Rightarrow> u16 \<Rightarrow> u8 \<Rightarrow> bytes option \<Rightarrow> bytes option \<Rightarrow> STX \<Rightarrow> ETX
       \<Rightarrow> (UUPacket \<times> int) option" where
  "upacket_encode packet up remote local passwd cmd data1 data2 stx etx =
     (let d1 = (case data1 of Some d \<Rightarrow> d | None \<Rightarrow> []);
          d2 = (case data2 of Some d \<Rightarrow> d | None \<Rightarrow> []);
          len0 = int (length d1 + length d2);
          len = (if len0 > PDSIZE - 3 then PDSIZE else len0);
          lw = len_word up (word_of_int len)
      in do {
        loc \<leftarrow> inverseto (le_bytes 8 (unat local)) (up_local packet) 5;
        pw \<leftarrow> inverseto (le_bytes 2 (unat passwd)) (up_passwd packet) 2;
        b1 \<leftarrow> memcpy_at 0 d1 (up_data packet);
        b2 \<leftarrow> memcpy_at (length d1) d2 b1;
        b3 \<leftarrow> wr b2 (nat len) (etx_code etx);
        let p = packet\<lparr>up_start := 0x7E7E, up_stx := stx_code stx, up_remote := remote,
                  up_local := loc, up_passwd := pw, up_cmd := cmd, up_len := lw, up_data := b3\<rparr>;
        let crc = crc_calculate (uu_bytes p) (len + 15);
        b4 \<leftarrow> wr b3 (nat (len + 1)) (ucast (drop_bit 8 crc));
        b5 \<leftarrow> wr b4 (nat (len + 2)) (ucast crc);
        Some (p\<lparr>up_data := b5, up_packetlen := len + 17\<rparr>, len + 17) })"

text \<open>The three bytes in front of the data of a multi-packet report: the number of packets and
  the number of this one, twelve bits each.\<close>

definition m3_word :: "int \<Rightarrow> int \<Rightarrow> u32" where
  "m3_word packets sn =
     (push_bit 12 (word_of_int packets) AND 0xFFF000) OR (word_of_int sn AND 0xFFF)"

definition upacket_encodehex ::
    "l64 \<Rightarrow> l64 \<Rightarrow> UUPacket \<Rightarrow> bool \<Rightarrow> u8 \<Rightarrow> u8 \<Rightarrow> bytes \<Rightarrow> STX \<Rightarrow> ETX \<Rightarrow> (UUPacket \<times> int) option"
  where
  "upacket_encodehex local_val passwd_val packet up remote cmd d stx etx =
     upacket_encode packet up remote local_val (ucast passwd_val) cmd None (Some d) stx etx"

definition upacket_encodehex_m3 ::
    "l64 \<Rightarrow> l64 \<Rightarrow> UUPacket \<Rightarrow> bool \<Rightarrow> u8 \<Rightarrow> u8 \<Rightarrow> int \<Rightarrow> int \<Rightarrow> bytes \<Rightarrow> STX \<Rightarrow> ETX
       \<Rightarrow> (UUPacket \<times> int) option" where
  "upacket_encodehex_m3 local_val passwd_val packet up remote cmd packets sn d stx etx =
     upacket_encode packet up remote local_val (ucast passwd_val) cmd
       (Some (take 3 (le_bytes 4 (unat (m3_word packets sn))))) (Some d) stx etx"

section \<open>The decoder\<close>

text \<open>The offsets of the packed \<^verbatim>\<open>UDPacket\<close>.\<close>

definition ud_size :: nat where "ud_size = 1073"
definition off_packetlen :: nat where "off_packetlen = 1058"
definition off_etx :: nat where "off_etx = 1062"
definition off_rlocal :: nat where "off_rlocal = 1063"
definition off_rpasswd :: nat where "off_rpasswd = 1071"

record UDpacketCache =
  ud_state :: int
  ud_len :: nat
  ud_p :: bytes

definition ud_cmd :: "bytes \<Rightarrow> u8" where "ud_cmd p = p ! 10"
definition ud_remote :: "bytes \<Rightarrow> u8" where "ud_remote p = p ! 7"
definition ud_local :: "bytes \<Rightarrow> bytes" where "ud_local p = take 5 (drop 2 p)"
definition ud_passwd :: "bytes \<Rightarrow> bytes" where "ud_passwd p = take 2 (drop 8 p)"
definition ud_stx :: "bytes \<Rightarrow> u8" where "ud_stx p = p ! 13"
definition ud_data :: "bytes \<Rightarrow> bytes" where "ud_data p = take 1044 (drop 14 p)"
definition ud_packetlen :: "bytes \<Rightarrow> nat" where "ud_packetlen p = le_val (take 4 (drop off_packetlen p))"
definition ud_etx :: "bytes \<Rightarrow> u8" where "ud_etx p = p ! off_etx"

text \<open>\<open>dlen_field\<close> is \<^verbatim>\<open>ud->p.len\<close> with its bytes swapped.\<close>

definition dlen_field :: "bytes \<Rightarrow> nat" where
  "dlen_field p = 256 * unat (p ! 11) + unat (p ! 12)"

definition put_bytes :: "nat \<Rightarrow> bytes \<Rightarrow> bytes \<Rightarrow> bytes" where
  "put_bytes off src dst = take off dst @ src @ drop (off + length src) dst"

definition decode_reset :: "UDpacketCache \<Rightarrow> UDpacketCache" where
  "decode_reset ud = \<lparr>ud_state = 0, ud_len = 0, ud_p = replicate ud_size 0\<rparr>"

text \<open>Accepting a frame: the fields behind the data are filled from the bytes received.\<close>

definition accept_frame :: "UDpacketCache \<Rightarrow> UDpacketCache" where
  "accept_frame ud =
     (let p1 = put_bytes off_packetlen (le_bytes 4 (ud_len ud)) (ud_p ud);
          p2 = p1[off_etx := p1 ! (ud_len ud - 3)];
          p3 = put_bytes off_rlocal (rev (take 5 (drop 2 p2))) p2;
          p4 = put_bytes off_rpasswd (rev (take 2 (drop 8 p3))) p3
      in \<lparr>ud_state = 0, ud_len = 0, ud_p = p4\<rparr>)"

datatype decoded = More | DropInput | Packet

definition decode_error :: "UDpacketCache \<Rightarrow> UDpacketCache \<times> decoded" where
  "decode_error ud = (ud\<lparr>ud_len := 0, ud_state := 0\<rparr>, More)"

text \<open>The switch, on the byte just stored.\<close>

definition decode_switch :: "UDpacketCache \<Rightarrow> u8 \<Rightarrow> UDpacketCache \<times> decoded" where
  "decode_switch ud b =
     (let s = ud_state ud; n = ud_len ud
      in if s = 0 then
           (if b = 0x7E then (if n = 2 then (ud\<lparr>ud_state := 1\<rparr>, More) else (ud\<lparr>ud_state := 0\<rparr>, More))
            else decode_error ud)
         else if s = 1 then (if n = 7 then (ud\<lparr>ud_state := 2\<rparr>, More) else (ud, More))
         else if s = 2 then (ud\<lparr>ud_state := 3\<rparr>, More)
         else if s = 3 then (if n = 10 then (ud\<lparr>ud_state := 4\<rparr>, More) else (ud, More))
         else if s = 4 \<or> s = 5 \<or> s = 6 \<or> s = 7 then (ud\<lparr>ud_state := s + 1\<rparr>, More)
         else if s = 8 then
           (let dlen = dlen_field (ud_p ud)
            in if dlen div 2 ^ 15 mod 2 \<noteq> 1 then (ud, DropInput)
               else if n < dlen mod 2 ^ 12 + 14 + 1 + 2 then (ud, More)
               else
                 let crc = push_bit 8 (ucast (ud_p ud ! (n - 2)) :: u16) OR ucast (ud_p ud ! (n - 1))
                 in if crc_calculate (ud_p ud) (int n - 2) = crc
                    then (accept_frame ud, Packet) else decode_error ud)
         else decode_error ud)"

text \<open>One byte: a full cache is emptied first, and the byte is then taken.\<close>

definition decode_byte :: "UDpacketCache \<Rightarrow> u8 \<Rightarrow> UDpacketCache \<times> decoded" where
  "decode_byte ud b =
     (let ud0 = (if ud_len ud \<ge> ud_size then ud\<lparr>ud_len := 0, ud_state := 0\<rparr> else ud);
          ud1 = ud0\<lparr>ud_p := (ud_p ud0)[ud_len ud0 := b], ud_len := ud_len ud0 + 1\<rparr>
      in decode_switch ud1 b)"

fun decode_bytes :: "UDpacketCache \<Rightarrow> bytes \<Rightarrow> UDpacketCache \<times> bool" where
  "decode_bytes ud [] = (ud, False)"
| "decode_bytes ud (b # bs) =
     (case decode_byte ud b of
        (ud', More) \<Rightarrow> decode_bytes ud' bs
      | (ud', DropInput) \<Rightarrow> (ud', False)
      | (ud', Packet) \<Rightarrow> (ud', True))"

text \<open>The result says whether \<^verbatim>\<open>&ud->p\<close> is returned, or \<^verbatim>\<open>NULL\<close>.\<close>

definition upacket_decode :: "UDpacketCache \<Rightarrow> bytes \<Rightarrow> bool \<Rightarrow> UDpacketCache \<times> bool" where
  "upacket_decode ud datain reset =
     (if reset then (decode_reset ud, False) else decode_bytes ud datain)"

section \<open>Frames and the decoder\<close>

text \<open>A frame the decoder should accept: two start bytes, the direction bit, the stated length and
  the checksum.\<close>

definition frame_ok :: "bytes \<Rightarrow> bool" where
  "frame_ok f \<longleftrightarrow> 17 \<le> length f \<and> length f \<le> ud_size \<and> f ! 0 = 0x7E \<and> f ! 1 = 0x7E \<and>
     dlen_field f div 2 ^ 15 mod 2 = 1 \<and> length f = dlen_field f mod 2 ^ 12 + 17 \<and>
     crc_calculate f (int (length f) - 2) =
       push_bit 8 (ucast (f ! (length f - 2)) :: u16) OR ucast (f ! (length f - 1))"

text \<open>The state of the decoder after \<open>k\<close> bytes of a frame \<open>f\<close>.\<close>

definition phase :: "nat \<Rightarrow> int" where
  "phase k = (if k < 2 then 0 else if k < 7 then 1 else if k = 7 then 2 else if k < 10 then 3
     else if k < 14 then int k - 6 else 8)"

definition mid_state :: "bytes \<Rightarrow> bytes \<Rightarrow> nat \<Rightarrow> UDpacketCache" where
  "mid_state f q k = \<lparr>ud_state = phase k, ud_len = k, ud_p = take k f @ drop k q\<rparr>"

lemma dlen_field_append: "13 \<le> length f \<Longrightarrow> dlen_field (f @ q) = dlen_field f"
  by (simp add: dlen_field_def nth_append)

lemma dlen_field_take: "13 \<le> k \<Longrightarrow> k \<le> length f \<Longrightarrow> dlen_field (take k f @ q) = dlen_field f"
  using dlen_field_append [of "take k f" q] by (simp add: dlen_field_def)

lemma store_byte:
  assumes "k < length f" "length f \<le> ud_size" "length q = ud_size"
  shows "(take k f @ drop k q)[k := f ! k] = take (Suc k) f @ drop (Suc k) q"
proof -
  have "drop k q = q ! k # drop (Suc k) q" using assms by (simp add: Cons_nth_drop_Suc)
  then show ?thesis using assms by (simp add: list_update_append take_Suc_conv_app_nth)
qed

lemma decode_byte_mid:
  assumes "frame_ok f" "length q = ud_size" "k < length f"
  shows "decode_byte (mid_state f q k) (f ! k) =
    decode_switch \<lparr>ud_state = phase k, ud_len = Suc k, ud_p = take (Suc k) f @ drop (Suc k) q\<rparr> (f ! k)"
  using assms store_byte [of k f q] by (simp add: decode_byte_def mid_state_def frame_ok_def)

lemma decode_step:
  assumes "frame_ok f" "length q = ud_size" "Suc k < length f"
  shows "decode_byte (mid_state f q k) (f ! k) = (mid_state f q (Suc k), More)"
proof -
  have k: "k < length f" using assms(3) by simp
  note byte = decode_byte_mid [OF assms(1,2) k]
  consider "k = 0" | "k = 1" | "2 \<le> k" "k < 6" | "k = 6" | "k = 7" | "k = 8" | "k = 9"
    | "14 \<le> k" | "10 \<le> k" "k < 14" by linarith
  then show ?thesis
  proof cases
    case 1
    then show ?thesis using assms(1) unfolding byte by (simp add: decode_switch_def mid_state_def phase_def frame_ok_def)
  next
    case 2
    then show ?thesis using assms(1) unfolding byte by (simp add: decode_switch_def mid_state_def phase_def frame_ok_def)
  next
    case 8
    have "dlen_field (take (Suc k) f @ drop (Suc k) q) = dlen_field f"
      using 8 assms(3) by (simp add: dlen_field_take)
    then show ?thesis
      using assms(1,3) 8 unfolding byte by (simp add: decode_switch_def mid_state_def phase_def frame_ok_def)
  next
    case 9
    then consider "k = 10" | "k = 11" | "k = 12" | "k = 13" by linarith
    then show ?thesis
      by cases (use byte in \<open>simp_all add: decode_switch_def mid_state_def phase_def\<close>)
  qed (use byte in \<open>simp_all add: decode_switch_def mid_state_def phase_def\<close>)
qed

lemma crc_prefix:
  assumes "int (length xs) \<ge> n mod 256"
  shows "crc_calculate (xs @ ys) n = crc_calculate xs n"
  using assms by (simp add: crc_calculate_crc16 nat_le_iff)

lemma decode_last:
  assumes "frame_ok f" "length q = ud_size"
    and len: "n = length f"
  shows "decode_byte (mid_state f q (n - 1)) (f ! (n - 1)) =
    (accept_frame \<lparr>ud_state = 8, ud_len = n, ud_p = f @ drop n q\<rparr>, Packet)"
proof -
  let ?p = "f @ drop n q"
  have n: "17 \<le> n" "n \<le> ud_size" using assms by (simp_all add: frame_ok_def)
  then have k: "n - 1 < length f" "Suc (n - 1) = n" "take n f = f" by (simp_all add: len)
  have d: "dlen_field ?p = dlen_field f"
    using n by (simp add: dlen_field_append len)
  have dir: "dlen_field f div 2 ^ 15 mod 2 = 1" and fit: "\<not> n < dlen_field f mod 2 ^ 12 + 14 + 1 + 2"
    using assms(1) by (simp_all add: frame_ok_def len)
  have "(int n - 2) mod 256 \<le> int n - 2" using n by (intro zmod_le_nonneg_dividend) simp
  then have "crc_calculate ?p (int n - 2) = crc_calculate f (int n - 2)"
    by (intro crc_prefix) (simp add: len)
  moreover have "?p ! (n - 2) = f ! (n - 2)" "?p ! (n - 1) = f ! (n - 1)"
    using n by (auto simp: nth_append len)
  moreover have "crc_calculate f (int n - 2) = push_bit 8 (ucast (f ! (n - 2)) :: u16) OR ucast (f ! (n - 1))"
    using assms(1) unfolding frame_ok_def len by blast
  ultimately have crc: "crc_calculate ?p (int n - 2) =
      push_bit 8 (ucast (?p ! (n - 2)) :: u16) OR ucast (?p ! (n - 1))"
    by (simp only:)
  have "phase (n - 1) = 8" using n by (simp add: phase_def)
  then have "decode_byte (mid_state f q (n - 1)) (f ! (n - 1)) =
      decode_switch \<lparr>ud_state = 8, ud_len = n, ud_p = ?p\<rparr> (f ! (n - 1))"
    using decode_byte_mid [OF assms(1,2) k(1)] unfolding k(2,3) by (simp only:)
  also have "... = (accept_frame \<lparr>ud_state = 8, ud_len = n, ud_p = ?p\<rparr>, Packet)"
    unfolding decode_switch_def Let_def UDpacketCache.simps d
    using dir fit crc by (simp only: rel_simps if_True if_False simp_thms not_True_eq_False)
  finally show ?thesis .
qed

lemma decode_bytes_mid:
  assumes "frame_ok f" "length q = ud_size" "k < length f"
  shows "decode_bytes (mid_state f q k) (drop k f @ rest) =
    (accept_frame \<lparr>ud_state = 8, ud_len = length f, ud_p = f @ drop (length f) q\<rparr>, True)"
  using assms(3)
proof (induction "length f - k" arbitrary: k)
  case 0
  then show ?case by simp
next
  case (Suc m)
  have d: "drop k f = f ! k # drop (Suc k) f" using Suc.prems by (simp add: Cons_nth_drop_Suc)
  show ?case
  proof (cases "Suc k < length f")
    case True
    with Suc.hyps(1) [of "Suc k"] Suc.hyps(2) decode_step [OF assms(1,2) True] show ?thesis
      by (simp add: d)
  next
    case False
    with Suc.prems have "k = length f - 1" by simp
    with decode_last [OF assms(1,2) refl] show ?thesis unfolding d by simp
  qed
qed

text \<open>From its start state the decoder accepts every such frame, whatever the cache held and
  whatever follows.\<close>

lemma decode_accepts:
  assumes "frame_ok f" "ud_len ud = 0" "ud_state ud = 0" "length (ud_p ud) = ud_size"
  shows "decode_bytes ud (f @ rest) =
    (accept_frame \<lparr>ud_state = 8, ud_len = length f, ud_p = f @ drop (length f) (ud_p ud)\<rparr>, True)"
proof -
  have "ud = mid_state f (ud_p ud) 0"
    using assms(2,3) by (cases ud) (simp add: mid_state_def phase_def)
  moreover have "0 < length f" using assms(1) by (simp add: frame_ok_def)
  ultimately show ?thesis using decode_bytes_mid [OF assms(1,4), of 0 rest] by simp
qed

section \<open>What the encoder writes\<close>

lemma le_bytes_2: "le_bytes 2 (unat (w :: u16)) = [ucast w, ucast (drop_bit 8 w)]"
proof -
  have "(word_of_nat (unat w) :: u8) = ucast w"
    by (simp add: word_eq_iff_unsigned [where ?'a = nat] unsigned_ucast_eq take_bit_eq_mod)
  moreover have "(word_of_nat (unat w div 256) :: u8) = ucast (drop_bit 8 w)"
    by (simp add: word_eq_iff_unsigned [where ?'a = nat] unsigned_ucast_eq take_bit_eq_mod
        drop_bit_eq_div unat_div_distrib)
  ultimately show ?thesis by (simp add: numeral_2_eq_2)
qed

definition len_bytes :: "bool \<Rightarrow> nat \<Rightarrow> bytes" where
  "len_bytes up n = [if up then word_of_nat (n div 256) else push_bit 7 1 OR word_of_nat (n div 256), word_of_nat n]"

lemma len_word_bytes: "n < 2 ^ 15 \<Longrightarrow> le_bytes 2 (unat (len_word up (word_of_nat n))) = len_bytes up n"
proof -
  assume n: "n < 2 ^ 15"
  let ?L = "word_of_nat n :: u16"
  have L: "unat ?L = n" using n by (simp add: unat_of_nat)
  have hi: "(ucast (drop_bit 8 ?L AND 0xFF) :: u8) = word_of_nat (n div 256)"
  proof -
    have "drop_bit 8 ?L AND 0xFF = take_bit 8 (drop_bit 8 ?L)"
      by (simp add: take_bit_eq_mask mask_eq_exp_minus_1)
    then show ?thesis
      using n by (simp add: word_eq_iff_unsigned [where ?'a = nat] unsigned_ucast_eq take_bit_eq_mod
          drop_bit_eq_div unat_div_distrib unat_mod_distrib L)
  qed
  have lo: "(ucast ?L :: u8) = word_of_nat n"
    using n by (simp add: word_eq_iff_unsigned [where ?'a = nat] unsigned_ucast_eq take_bit_eq_mod L)
  have k: "(0xFF :: u16) = mask 8" "(0x0080 :: u16) = push_bit 7 1"
    by (simp_all add: mask_eq_exp_minus_1)
  have "(ucast (len_word up ?L) :: u8) =
      (if up then 0 else push_bit 7 1) OR ucast (drop_bit 8 ?L AND 0xFF)"
    unfolding len_word_def k by (rule bit_word_eqI) (auto simp: bit_simps)
  moreover have "(ucast (drop_bit 8 (len_word up ?L)) :: u8) = ucast ?L"
  proof -
    have "drop_bit 8 (len_word up ?L) =
        drop_bit 8 (push_bit 8 (?L AND mask 8)) OR drop_bit 8 (drop_bit 8 ?L AND mask 8)"
      unfolding len_word_def by (cases up) (simp_all add: drop_bit_or mask_eq_exp_minus_1)
    then show ?thesis
      by (simp only:) (rule bit_word_eqI, auto simp: bit_simps dest: bit_imp_le_length)
  qed
  ultimately show ?thesis
    by (simp only: le_bytes_2 hi lo len_bytes_def if_distrib) simp
qed

text \<open>The frame as a list of bytes.\<close>

definition frame_body :: "bool \<Rightarrow> u8 \<Rightarrow> ul64 \<Rightarrow> u16 \<Rightarrow> u8 \<Rightarrow> bytes \<Rightarrow> STX \<Rightarrow> ETX \<Rightarrow> bytes" where
  "frame_body up remote local passwd cmd d stx etx =
     [0x7E, 0x7E, remote] @ rev (take 5 (le_bytes 8 (unat local))) @ rev (le_bytes 2 (unat passwd))
       @ [cmd] @ len_bytes up (length d) @ [stx_code stx] @ d @ [etx_code etx]"

definition frame_of :: "bool \<Rightarrow> u8 \<Rightarrow> ul64 \<Rightarrow> u16 \<Rightarrow> u8 \<Rightarrow> bytes \<Rightarrow> STX \<Rightarrow> ETX \<Rightarrow> bytes" where
  "frame_of up remote local passwd cmd d stx etx =
     (let f = frame_body up remote local passwd cmd d stx etx; c = crc_calculate f (int (length f))
      in f @ [ucast (drop_bit 8 c), ucast c])"

lemma length_frame_body: "length (frame_body up remote local passwd cmd d stx etx) = length d + 15"
  by (simp add: frame_body_def len_bytes_def)

definition uu_wf :: "UUPacket \<Rightarrow> bool" where
  "uu_wf p \<longleftrightarrow> length (up_local p) = 5 \<and> length (up_passwd p) = 2 \<and> length (up_data p) = 1044"

lemma memcpy_at_twice:
  assumes "length a + length b \<le> length buf"
  shows "memcpy_at 0 a buf = Some (a @ drop (length a) buf)"
    "memcpy_at (length a) b (a @ drop (length a) buf) = Some (a @ b @ drop (length a + length b) buf)"
  using assms by (simp_all add: memcpy_at_def add.commute)

lemma upacket_encode_frame:
  assumes "uu_wf p" and "length d1 + length d2 \<le> 1021"
    and n_def: "n = length d1 + length d2"
  shows "\<exists>p'. upacket_encode p up remote local passwd cmd (Some d1) (Some d2) stx etx = Some (p', int n + 17) \<and>
    uu_wf p' \<and> up_packetlen p' = int n + 17 \<and> take (n + 17) (uu_bytes p') = frame_of up remote local passwd cmd (d1 @ d2) stx etx"
proof -
  let ?buf = "up_data p"
  have b: "length ?buf = 1044" using assms(1) by (simp add: uu_wf_def)
  define loc where "loc = rev (take 5 (le_bytes 8 (unat local)))"
  define pw where "pw = rev (le_bytes 2 (unat passwd))"
  have l: "inverseto (le_bytes 8 (unat local)) (up_local p) 5 = Some loc" "length loc = 5"
    using assms(1) by (simp_all add: inverseto_rev loc_def uu_wf_def)
  have w: "inverseto (le_bytes 2 (unat passwd)) (up_passwd p) 2 = Some pw" "length pw = 2"
    using assms(1) by (simp_all add: inverseto_rev pw_def uu_wf_def)
  define tl1 where "tl1 = drop (Suc n) ?buf"
  have c12: "memcpy_at 0 d1 ?buf = Some (d1 @ drop (length d1) ?buf)"
    "memcpy_at (length d1) d2 (d1 @ drop (length d1) ?buf) = Some (d1 @ d2 @ drop n ?buf)"
    using assms(2) b memcpy_at_twice [of d1 d2 ?buf] by (simp_all add: n_def)
  have dn: "drop n ?buf = ?buf ! n # tl1"
    using assms(2) b by (simp add: n_def tl1_def Cons_nth_drop_Suc)
  have w3: "wr (d1 @ d2 @ drop n ?buf) n (etx_code etx) = Some (d1 @ d2 @ etx_code etx # tl1)"
    unfolding dn by (simp add: wr_def list_update_append n_def)
  obtain t0 t1 tl3 where tl1: "tl1 = t0 # t1 # tl3"
  proof -
    have "length tl1 \<ge> 2" using assms(2) b by (simp add: tl1_def n_def)
    then show thesis using that by (cases tl1; cases "tl tl1") auto
  qed
  let ?lw = "len_word up (word_of_int (int n))"
  define q where "q = p\<lparr>up_start := 0x7E7E, up_stx := stx_code stx, up_remote := remote,
    up_local := loc, up_passwd := pw, up_cmd := cmd, up_len := ?lw,
    up_data := d1 @ d2 @ etx_code etx # tl1\<rparr>"
  let ?body = "frame_body up remote local passwd cmd (d1 @ d2) stx etx"
  have lw: "le_bytes 2 (unat ?lw) = len_bytes up n"
  proof -
    have "n < 2 ^ 15" using assms(2) n_def by simp
    then show ?thesis using len_word_bytes [of n up] by simp
  qed
  have start: "le_bytes 2 (unat (0x7E7E :: u16)) = [0x7E, 0x7E]"
    unfolding le_bytes_2 by simp
  have q_bytes: "uu_bytes (q\<lparr>up_data := d1 @ d2 @ etx_code etx # t\<rparr>) = ?body @ t" for t
  proof -
    have "length (d1 @ d2) = n" using n_def by simp
    then show ?thesis
      using lw start unfolding uu_bytes_def frame_body_def q_def loc_def pw_def by simp
  qed
  define c where "c = crc_calculate (uu_bytes q) (int n + 15)"
  have c: "c = crc_calculate ?body (int n + 15)"
  proof -
    have "uu_bytes q = ?body @ tl1" using q_bytes [of tl1] by (simp add: q_def)
    moreover have "(int n + 15) mod 256 \<le> int (length ?body)"
      by (simp add: length_frame_body n_def zmod_le_nonneg_dividend)
    ultimately show ?thesis unfolding c_def by (simp add: crc_prefix)
  qed
  have w4: "wr (d1 @ d2 @ etx_code etx # tl1) (Suc n) x = Some (d1 @ d2 @ etx_code etx # x # t1 # tl3)" for x
    unfolding tl1 by (simp add: wr_def list_update_append n_def)
  have w5: "wr (d1 @ d2 @ etx_code etx # x # t1 # tl3) (Suc (Suc n)) y =
      Some (d1 @ d2 @ etx_code etx # x # y # tl3)" for x y
    by (simp add: wr_def list_update_append n_def)
  define p' where "p' = q\<lparr>up_data := d1 @ d2 @ etx_code etx # ucast (drop_bit 8 c) # ucast c # tl3,
    up_packetlen := int n + 17\<rparr>"
  have cap: "\<not> int n > PDSIZE - 3" using assms(2) by (simp add: PDSIZE_def n_def)
  have "upacket_encode p up remote local passwd cmd (Some d1) (Some d2) stx etx = Some (p', int n + 17)"
  proof -
    have len0: "int (length d1 + length d2) = int n" by (simp add: n_def)
    have nn: "nat (int n) = n" "nat (int n + 1) = Suc n" "nat (int n + 2) = Suc (Suc n)"
      by simp_all
    show ?thesis
      unfolding upacket_encode_def option.case len0 Let_def if_not_P [OF cap] l(1) w(1) nn c12 w3
        bind.bind_lunit c_def [unfolded q_def, symmetric] w4 w5 p'_def q_def ..
  qed
  moreover have "uu_wf p'"
    using assms(2) b l(2) w(2) arg_cong [OF tl1, of length]
    by (simp add: p'_def q_def uu_wf_def tl1_def n_def)
  moreover have "up_packetlen p' = int n + 17" by (simp add: p'_def)
  moreover have "take (n + 17) (uu_bytes p') = frame_of up remote local passwd cmd (d1 @ d2) stx etx"
  proof -
    have "uu_bytes p' = uu_bytes (q\<lparr>up_data := d1 @ d2 @ etx_code etx # ucast (drop_bit 8 c) # ucast c # tl3\<rparr>)"
      by (simp add: p'_def uu_bytes_def)
    then have "uu_bytes p' = (?body @ [ucast (drop_bit 8 c), ucast c]) @ tl3"
      using q_bytes [of "ucast (drop_bit 8 c) # ucast c # tl3"] by simp
    moreover have "length (?body @ [ucast (drop_bit 8 c), ucast c]) = n + 17"
      by (simp add: length_frame_body n_def)
    ultimately have "take (n + 17) (uu_bytes p') = ?body @ [ucast (drop_bit 8 c), ucast c]"
      by (metis append_eq_conv_conj)
    then show ?thesis
      by (simp add: frame_of_def Let_def c length_frame_body n_def ac_simps)
  qed
  ultimately show ?thesis by blast
qed

text \<open>A downlink frame that the encoder writes is one the decoder accepts.\<close>

lemma frame_of_ok:
  assumes "length d \<le> 1021"
  shows "frame_ok (frame_of False remote local passwd cmd d stx etx)"
proof -
  let ?body = "frame_body False remote local passwd cmd d stx etx"
  let ?f = "frame_of False remote local passwd cmd d stx etx"
  define c where "c = crc_calculate ?body (int (length ?body))"
  have f: "?f = ?body @ [ucast (drop_bit 8 c), ucast c]" by (simp add: frame_of_def c_def Let_def)
  have lb: "length ?body = length d + 15" by (rule length_frame_body)
  define hd1 where "hd1 = rev (take 5 (le_bytes 8 (unat local)))"
  define hd2 where "hd2 = rev (le_bytes 2 (unat passwd))"
  have h: "length hd1 = 5" "length hd2 = 2" by (simp_all add: hd1_def hd2_def)
  have body: "?body = ([0x7E, 0x7E, remote] @ hd1 @ hd2 @ [cmd]) @ len_bytes False (length d)
      @ [stx_code stx] @ d @ [etx_code etx]"
    by (simp add: frame_body_def hd1_def hd2_def)
  have l11: "length ([0x7E, 0x7E, remote] @ hd1 @ hd2 @ [cmd]) = 11" using h by simp
  have "?f ! 11 = len_bytes False (length d) ! 0" "?f ! 12 = len_bytes False (length d) ! 1"
    unfolding f body using h by (simp_all add: nth_append len_bytes_def)
  moreover have "unat (len_bytes False (length d) ! 0) = 128 + length d div 256"
    "unat (len_bytes False (length d) ! 1) = length d mod 256"
    using assms push_or_val [of "1 :: u8" 7 "length d div 256"] by (simp_all add: len_bytes_def)
  ultimately have dl: "dlen_field ?f = 2 ^ 15 + length d"
    by (simp add: dlen_field_def)
  have "?f ! 0 = 0x7E" "?f ! 1 = 0x7E" unfolding f body by simp_all
  moreover have "length ?f = length d + 17" using lb by (simp add: f)
  moreover have "crc_calculate ?f (int (length ?f) - 2) = c"
  proof -
    have "int (length ?f) - 2 = int (length ?body)" by (simp add: f)
    moreover have "int (length ?body) mod 256 \<le> int (length ?body)"
      by (simp add: zmod_le_nonneg_dividend)
    ultimately show ?thesis unfolding f c_def by (simp only: crc_prefix)
  qed
  moreover have "?f ! (length ?f - 2) = ucast (drop_bit 8 c)" "?f ! (length ?f - 1) = ucast c"
    by (simp_all add: f nth_append)
  moreover have "push_bit 8 (ucast (ucast (drop_bit 8 c) :: u8) :: u16) OR ucast (ucast c :: u8) = c"
    by (rule bit_word_eqI) (auto simp: bit_simps)
  moreover have "(2 ^ 15 + length d) div 2 ^ 15 mod 2 = 1" "(2 ^ 15 + length d) mod 2 ^ 12 = length d"
  proof -
    have "length d div 32768 = 0" "length d mod 4096 = length d" using assms by simp_all
    moreover have "(32768 + length d) mod 4096 = length d mod 4096"
      using mod_add_left_eq [of 32768 4096 "length d"] by simp
    ultimately show "(2 ^ 15 + length d) div 2 ^ 15 mod 2 = 1" "(2 ^ 15 + length d) mod 2 ^ 12 = length d"
      by simp_all
  qed
  ultimately show ?thesis
    using assms unfolding frame_ok_def ud_size_def dl by simp
qed

section \<open>The decoder stays in its cache and accepts only frames\<close>

definition dec_inv :: "UDpacketCache \<Rightarrow> bool" where
  "dec_inv ud \<longleftrightarrow>
     (let s = ud_state ud; n = ud_len ud; p = ud_p ud
      in length p = ud_size \<and> n \<le> ud_size \<and>
         (s = 0 \<and> n \<le> 1 \<and> (n = 1 \<longrightarrow> p ! 0 = 0x7E) \<or>
          p ! 0 = 0x7E \<and> p ! 1 = 0x7E \<and>
          (s = 1 \<and> 2 \<le> n \<and> n \<le> 6 \<or> s = 2 \<and> n = 7 \<or> s = 3 \<and> 8 \<le> n \<and> n \<le> 9 \<or>
           4 \<le> s \<and> s \<le> 7 \<and> int n = s + 6 \<or>
           s = 8 \<and> 14 \<le> n \<and> (dlen_field p div 2 ^ 15 mod 2 = 1 \<longrightarrow> n < dlen_field p mod 2 ^ 12 + 17))))"

lemma dec_inv_reset: "dec_inv (decode_reset ud)"
  by (simp add: dec_inv_def decode_reset_def)

lemma dec_inv_error:
  "length (ud_p ud) = ud_size \<Longrightarrow> dec_inv (fst (decode_error ud))"
  by (simp add: dec_inv_def decode_error_def)

lemma length_accept_frame:
  "length (ud_p ud) = ud_size \<Longrightarrow> length (ud_p (accept_frame ud)) = ud_size"
  by (simp add: accept_frame_def put_bytes_def Let_def ud_size_def off_packetlen_def off_etx_def
      off_rlocal_def off_rpasswd_def)

lemma dec_inv_accept: "length (ud_p ud) = ud_size \<Longrightarrow> dec_inv (accept_frame ud)"
  using length_accept_frame [of ud] by (simp add: dec_inv_def accept_frame_def Let_def)

lemma frame_ok_take:
  assumes "length p = ud_size" "p ! 0 = 0x7E" "p ! 1 = 0x7E" "17 \<le> n" "n \<le> ud_size"
    and "dlen_field p div 2 ^ 15 mod 2 = 1" "n = dlen_field p mod 2 ^ 12 + 17"
    and "crc_calculate p (int n - 2) = push_bit 8 (ucast (p ! (n - 2)) :: u16) OR ucast (p ! (n - 1))"
  shows "frame_ok (take n p)"
proof -
  have l: "length (take n p) = n" using assms by simp
  have d: "dlen_field (take n p) = dlen_field p" using assms(4) by (simp add: dlen_field_def)
  have "(int n - 2) mod 256 \<le> int n - 2" using assms(4) by (intro zmod_le_nonneg_dividend) simp
  then have "crc_calculate (take n p @ drop n p) (int n - 2) = crc_calculate (take n p) (int n - 2)"
    by (intro crc_prefix) (unfold l, linarith)
  then have "crc_calculate (take n p) (int n - 2) = crc_calculate p (int n - 2)" by simp
  moreover have "take n p ! 0 = p ! 0" "take n p ! 1 = p ! 1" "take n p ! (n - 2) = p ! (n - 2)"
    "take n p ! (n - 1) = p ! (n - 1)"
    using assms(4) by simp_all
  ultimately show ?thesis
    using assms unfolding frame_ok_def l d by metis
qed

lemma decode_switch_inv:
  assumes "length p = ud_size" "n < ud_size" "p ! n = b"
    and "s = 0 \<and> n \<le> 1 \<and> (n = 1 \<longrightarrow> p ! 0 = 0x7E) \<or>
      p ! 0 = 0x7E \<and> p ! 1 = 0x7E \<and>
      (s = 1 \<and> 2 \<le> n \<and> n \<le> 6 \<or> s = 2 \<and> n = 7 \<or> s = 3 \<and> 8 \<le> n \<and> n \<le> 9 \<or>
       4 \<le> s \<and> s \<le> 7 \<and> int n = s + 6 \<or>
       s = 8 \<and> 14 \<le> n \<and> (dlen_field p div 2 ^ 15 mod 2 = 1 \<longrightarrow> n < dlen_field p mod 2 ^ 12 + 17))"
    and sw: "decode_switch \<lparr>ud_state = s, ud_len = Suc n, ud_p = p\<rparr> b = (ud', r)"
  shows "dec_inv ud' \<and> (r = Packet \<longrightarrow> (\<exists>q m. length q = ud_size \<and> frame_ok (take m q) \<and> m \<le> ud_size \<and>
    ud' = accept_frame \<lparr>ud_state = 8, ud_len = m, ud_p = q\<rparr>))"
proof -
  consider (s0) "s = 0" "n \<le> 1" "n = 1 \<longrightarrow> p ! 0 = 0x7E"
    | (mid) "p ! 0 = 0x7E" "p ! 1 = 0x7E" "s = 1 \<and> 2 \<le> n \<and> n \<le> 6 \<or> s = 2 \<and> n = 7 \<or> s = 3 \<and> 8 \<le> n \<and> n \<le> 9"
    | (hdr) "p ! 0 = 0x7E" "p ! 1 = 0x7E" "4 \<le> s" "s \<le> 7" "int n = s + 6"
    | (body) "p ! 0 = 0x7E" "p ! 1 = 0x7E" "s = 8" "14 \<le> n"
        "dlen_field p div 2 ^ 15 mod 2 = 1 \<longrightarrow> n < dlen_field p mod 2 ^ 12 + 17"
    using assms(4) by blast
  then show ?thesis
  proof cases
    case s0
    then have "n = 0 \<or> n = 1" by auto
    then show ?thesis
      using sw assms(1-3) s0
      by (elim disjE) (auto simp: decode_switch_def decode_error_def dec_inv_def ud_size_def split: if_splits)
  next
    case mid
    then show ?thesis
      using sw assms(1,2)
      by (elim disjE conjE) (auto simp: decode_switch_def dec_inv_def ud_size_def split: if_splits)
  next
    case hdr
    have "ud' = \<lparr>ud_state = s + 1, ud_len = Suc n, ud_p = p\<rparr> \<and> r = More"
    proof -
      from hdr(3,4) consider "s = 4" | "s = 5" | "s = 6" | "s = 7" by linarith
      then show ?thesis by cases (use sw in \<open>simp_all add: decode_switch_def\<close>)
    qed
    moreover have "4 \<le> s + 1 \<and> s + 1 \<le> 7 \<or> s + 1 = 8 \<and> 14 \<le> Suc n \<and> Suc n < 17"
      using hdr(3-5) by linarith
    ultimately show ?thesis
      using hdr assms(1,2) by (auto simp: dec_inv_def)
  next
    case body
    let ?u = "\<lparr>ud_state = 8, ud_len = Suc n, ud_p = p\<rparr>"
    consider (up) "dlen_field p div 2 ^ 15 mod 2 \<noteq> 1" "ud' = ?u" "r = DropInput"
      | (more) "dlen_field p div 2 ^ 15 mod 2 = 1" "Suc n < dlen_field p mod 2 ^ 12 + 14 + 1 + 2" "ud' = ?u" "r = More"
      | (got) "dlen_field p div 2 ^ 15 mod 2 = 1" "\<not> Suc n < dlen_field p mod 2 ^ 12 + 14 + 1 + 2"
          "crc_calculate p (int (Suc n) - 2) =
             push_bit 8 (ucast (p ! (Suc n - 2)) :: u16) OR ucast (p ! (Suc n - 1))"
          "ud' = accept_frame ?u" "r = Packet"
      | (bad) "(ud', r) = decode_error ?u"
      using sw body(3) unfolding decode_switch_def Let_def UDpacketCache.simps
      by (auto split: if_splits simp del: One_nat_def)
    then show ?thesis
    proof cases
      case up
      then show ?thesis using body assms(1,2) by (auto simp: dec_inv_def)
    next
      case more
      then show ?thesis using body assms(1,2) by (auto simp: dec_inv_def)
    next
      case got
      have n: "Suc n = dlen_field p mod 2 ^ 12 + 17" using got(1,2) body(5) by linarith
      have "frame_ok (take (Suc n) p)"
        by (rule frame_ok_take [OF assms(1) body(1,2) _ _ got(1) n got(3)])
          (use n assms(2) in \<open>simp_all\<close>)
      then show ?thesis
        using got(4,5) assms(1,2) dec_inv_accept [of ?u]
        by (intro conjI impI exI [of _ p] exI [of _ "Suc n"]) simp_all
    next
      case bad
      then have "ud' = fst (decode_error ?u)" "r = snd (decode_error ?u)" by (metis fst_conv, metis snd_conv)
      then show ?thesis using assms(1) dec_inv_error [of ?u] by (simp add: decode_error_def)
    qed
  qed
qed

text \<open>Every byte keeps the cache in bounds and in step with its state, and a packet is returned
  only for a frame with start bytes, direction, length and checksum in order.\<close>

lemma decode_byte_inv:
  assumes "dec_inv ud" and "decode_byte ud b = (ud', r)"
  shows "dec_inv ud' \<and> (r = Packet \<longrightarrow> (\<exists>q m. length q = ud_size \<and> frame_ok (take m q) \<and> m \<le> ud_size \<and>
    ud' = accept_frame \<lparr>ud_state = 8, ud_len = m, ud_p = q\<rparr>))"
proof -
  define u0 where "u0 = (if ud_len ud \<ge> ud_size then ud\<lparr>ud_len := 0, ud_state := 0\<rparr> else ud)"
  obtain s n p where u0: "u0 = \<lparr>ud_state = s, ud_len = n, ud_p = p\<rparr>" by (cases u0) auto
  have inv0: "dec_inv u0" using assms(1) by (auto simp: u0_def dec_inv_def Let_def)
  have n: "n < ud_size" using u0 by (cases ud) (auto simp: u0_def ud_size_def split: if_splits)
  have p: "length p = ud_size" using inv0 u0 by (simp add: dec_inv_def)
  let ?p = "p[n := b]"
  have sw: "decode_switch \<lparr>ud_state = s, ud_len = Suc n, ud_p = ?p\<rparr> b = (ud', r)"
    using assms(2) unfolding decode_byte_def u0_def [symmetric] Let_def u0 by simp
  have upd: "?p ! i = p ! i" if "i < n" for i using that by simp
  have dl: "dlen_field ?p = dlen_field p" if "14 \<le> n" using that by (simp add: dlen_field_def)
  have pre: "s = 0 \<and> n \<le> 1 \<and> (n = 1 \<longrightarrow> ?p ! 0 = 0x7E) \<or>
      ?p ! 0 = 0x7E \<and> ?p ! 1 = 0x7E \<and>
      (s = 1 \<and> 2 \<le> n \<and> n \<le> 6 \<or> s = 2 \<and> n = 7 \<or> s = 3 \<and> 8 \<le> n \<and> n \<le> 9 \<or>
       4 \<le> s \<and> s \<le> 7 \<and> int n = s + 6 \<or>
       s = 8 \<and> 14 \<le> n \<and> (dlen_field ?p div 2 ^ 15 mod 2 = 1 \<longrightarrow> n < dlen_field ?p mod 2 ^ 12 + 17))"
    using inv0 dl unfolding u0 dec_inv_def Let_def UDpacketCache.simps
    by (elim conjE disjE) (simp_all)
  show ?thesis
    by (rule decode_switch_inv [OF _ n _ pre sw]) (use p n in simp_all)
qed

lemma decode_bytes_inv:
  assumes "dec_inv ud" and "decode_bytes ud bs = (ud', r)"
  shows "dec_inv ud' \<and> (r \<longrightarrow> (\<exists>q m. length q = ud_size \<and> frame_ok (take m q) \<and> m \<le> ud_size \<and>
    ud' = accept_frame \<lparr>ud_state = 8, ud_len = m, ud_p = q\<rparr>))"
  using assms
proof (induction bs arbitrary: ud)
  case (Cons b bs)
  obtain u1 r1 where u1: "decode_byte ud b = (u1, r1)" by fastforce
  note inv = decode_byte_inv [OF Cons.prems(1) u1]
  show ?case
  proof (cases r1)
    case More
    with Cons u1 inv show ?thesis by simp
  next
    case DropInput
    with Cons.prems u1 inv show ?thesis by simp
  next
    case Packet
    with Cons.prems u1 inv show ?thesis by simp
  qed
qed simp

text \<open>Behind byte 256 the checksum sees only the first \<open>(n - 2) mod 256\<close> bytes: a frame stays
  acceptable under any change of the others.\<close>

lemma frame_ok_unprotected:
  assumes "frame_ok (h @ d @ t)" and "258 \<le> length (h @ d @ t)" and "length t = 2" and "length d = length d'"
    and "length h = 13 + k" and "(length (h @ d @ t) - 2) mod 256 \<le> length h"
  shows "frame_ok (h @ d' @ t)"
proof -
  let ?f = "h @ d @ t" and ?g = "h @ d' @ t"
  let ?n = "length ?f"
  have n: "length ?g = ?n" using assms(4) by simp
  have dl: "dlen_field ?g = dlen_field ?f" using assms(5) dlen_field_append [of h] by simp
  have "int ((?n - 2) mod 256) = (int ?n - 2) mod 256"
    using assms(2) by (simp only: zmod_int of_nat_diff)  simp
  then have m: "(int ?n - 2) mod 256 \<le> int (length h)" using assms(6) by linarith
  have crc: "crc_calculate ?g (int ?n - 2) = crc_calculate ?f (int ?n - 2)"
    using crc_prefix [OF m, of "d' @ t"] crc_prefix [OF m, of "d @ t"] by (simp only:)
  have tail: "?g ! (?n - 2) = ?f ! (?n - 2)" "?g ! (?n - 1) = ?f ! (?n - 1)"
    using assms(3,4) by (auto simp: nth_append)
  have head: "?g ! 0 = ?f ! 0" "?g ! 1 = ?f ! 1"
    using assms(5) by (auto simp: nth_append)
  show ?thesis
    using assms(1) unfolding frame_ok_def n dl crc tail head .
qed

end
