(* ===== verification/Calendar.thy ===== *)
theory Calendar
  imports Lib_Bytes
begin

text \<open>
  The time functions of \<^verbatim>\<open>lib/lib.cpp\<close>: \<^verbatim>\<open>TimeSet\<close>, \<^verbatim>\<open>get_cur_time\<close>, \<^verbatim>\<open>get_time\<close>,
  \<^verbatim>\<open>time2string\<close>, \<^verbatim>\<open>string2time\<close>, \<^verbatim>\<open>is_diff_hour\<close>, \<^verbatim>\<open>Cycle_Check\<close> and
  \<^verbatim>\<open>TimeOffset5Min\<close>. \<^verbatim>\<open>localtime\<close> and \<^verbatim>\<open>mktime\<close> of the C library are defined for a time zone
  without daylight saving, whose offset from UTC in seconds is the argument \<open>tz\<close>; a time is an
  \<open>int\<close>. A calendar round trip is then a theorem.
\<close>

section \<open>The calendar of the C library\<close>

record tm =
  tm_year :: int
  tm_mon :: int
  tm_mday :: int
  tm_hour :: int
  tm_min :: int
  tm_sec :: int

definition leap :: "int \<Rightarrow> bool" where
  "leap y \<longleftrightarrow> y mod 4 = 0 \<and> y mod 100 \<noteq> 0 \<or> y mod 400 = 0"

definition ylen :: "int \<Rightarrow> int" where
  "ylen y = (if leap y then 366 else 365)"

definition mlens :: "int \<Rightarrow> int list" where
  "mlens y = [31, if leap y then 29 else 28, 31, 30, 31, 30, 31, 31, 30, 31, 30, 31]"

text \<open>The days before a year, counted from 1970, and before a month of a year.\<close>

definition leaps :: "int \<Rightarrow> int" where
  "leaps y = y div 4 - y div 100 + y div 400"

definition days_before_year :: "int \<Rightarrow> int" where
  "days_before_year y = 365 * (y - 1970) + (leaps (y - 1) - leaps 1969)"

definition days_before_month :: "int \<Rightarrow> int \<Rightarrow> int" where
  "days_before_month y m = sum_list (take (nat m) (mlens y))"

lemma ylen_bounds: "365 \<le> ylen y" "ylen y \<le> 366"
  by (simp_all add: ylen_def)

function year_loop :: "int \<Rightarrow> int \<Rightarrow> int \<times> int" where
  "year_loop y d =
     (if d < 0 then year_loop (y - 1) (d + ylen (y - 1))
      else if d < ylen y then (y, d)
      else year_loop (y + 1) (d - ylen y))"
  by auto
termination
proof (relation "measure (\<lambda>(y, d). if d < 0 then nat (- d) + 400 else nat d)")
  fix y d :: int
  assume "d < 0"
  with ylen_bounds [of "y - 1"]
  show "((y - 1, d + ylen (y - 1)), y, d) \<in> measure (\<lambda>(y, d). if d < 0 then nat (- d) + 400 else nat d)"
    by auto
next
  fix y d :: int
  assume "\<not> d < 0" "\<not> d < ylen y"
  with ylen_bounds [of y]
  show "((y + 1, d - ylen y), y, d) \<in> measure (\<lambda>(y, d). if d < 0 then nat (- d) + 400 else nat d)"
    by auto
qed simp

declare year_loop.simps [simp del]

fun month_loop :: "int \<Rightarrow> int list \<Rightarrow> int \<Rightarrow> int \<times> int" where
  "month_loop m [] d = (m, d)"
| "month_loop m (l # ls) d = (if d < l then (m, d) else month_loop (m + 1) ls (d - l))"

definition localtime :: "int \<Rightarrow> int \<Rightarrow> tm" where
  "localtime tz t =
     (let s = t + tz; sec = s mod 86400;
          (y, yd) = year_loop 1970 (s div 86400);
          (m, md) = month_loop 0 (mlens y) yd
      in \<lparr>tm_year = y - 1900, tm_mon = m, tm_mday = md + 1,
          tm_hour = sec div 3600, tm_min = sec div 60 mod 60, tm_sec = sec mod 60\<rparr>)"

text \<open>\<^verbatim>\<open>mktime\<close> normalises a month out of range; the other fields enter linearly.\<close>

definition mktime :: "int \<Rightarrow> tm \<Rightarrow> int" where
  "mktime tz p =
     (let y = tm_year p + 1900 + tm_mon p div 12; m = tm_mon p mod 12
      in (days_before_year y + days_before_month y m + tm_mday p - 1) * 86400
         + tm_hour p * 3600 + tm_min p * 60 + tm_sec p - tz)"

lemma leaps_step: "leaps y - leaps (y - 1) = (if leap y then 1 else 0)"
proof -
  have s: "y div k - (y - 1) div k = (if y mod k = 0 then 1 else 0)" if "k > 1" for k :: int
  proof (cases "y mod k = 0")
    case True
    then obtain q where q: "y = k * q" by (metis dvd_def mod_0_imp_dvd)
    have "(k * q - 1) div k = q - 1"
    proof (rule int_div_pos_eq)
      show "k * q - 1 = k * (q - 1) + (k - 1)" by (simp add: algebra_simps)
    qed (use that in simp_all)
    then show ?thesis using True q that by simp
  next
    case False
    have "(y - 1) div k = y div k"
    proof (rule int_div_pos_eq)
      show "y - 1 = k * (y div k) + (y mod k - 1)" by simp
      show "0 \<le> y mod k - 1" using False that pos_mod_sign [of k y] by linarith
      show "y mod k - 1 < k" using that pos_mod_bound [of k y] by linarith
    qed
    with False show ?thesis by simp
  qed
  have "y mod 400 mod 100 = y mod 100" "y mod 100 mod 4 = y mod 4"
    by (simp_all add: mod_mod_cancel)
  then have m: "y mod 400 = 0 \<longrightarrow> y mod 100 = 0" "y mod 100 = 0 \<longrightarrow> y mod 4 = 0"
    by auto
  have gen: "(a4 - a100 + a400) - (b4 - b100 + b400) = (if m4 \<and> \<not> m100 \<or> m400 then 1 else 0)"
    if "a4 - b4 = (if m4 then 1 else 0)" "a100 - b100 = (if m100 then 1 else 0)"
      "a400 - b400 = (if m400 then 1 else 0)" "m400 \<longrightarrow> m100" "m100 \<longrightarrow> m4"
    for a4 a100 a400 b4 b100 b400 :: int and m4 m100 m400
    using that by (auto split: if_splits)
  show ?thesis
    unfolding leaps_def leap_def
    by (rule gen [OF s s s m]) simp_all
qed

lemma days_before_year_step: "days_before_year (y + 1) = days_before_year y + ylen y"
  using leaps_step [of y] by (auto simp: days_before_year_def ylen_def)

lemma year_loop_days:
  "year_loop y d = (y', d') \<Longrightarrow>
     days_before_year y' + d' = days_before_year y + d \<and> 0 \<le> d' \<and> d' < ylen y'"
proof (induction y d arbitrary: y' d' rule: year_loop.induct)
  case (1 y d)
  consider "d < 0" | "0 \<le> d" "d < ylen y" | "0 \<le> d" "\<not> d < ylen y" by linarith
  then show ?case
  proof cases
    case 1
    with "1.prems" have "year_loop (y - 1) (d + ylen (y - 1)) = (y', d')"
      by (subst (asm) year_loop.simps) simp
    with "1.IH"(1) [OF 1, of y' d'] days_before_year_step [of "y - 1"] show ?thesis by simp
  next
    case 2
    with "1.prems" show ?thesis by (subst (asm) year_loop.simps) simp
  next
    case 3
    with "1.prems" have "year_loop (y + 1) (d - ylen y) = (y', d')"
      by (subst (asm) year_loop.simps) simp
    with "1.IH"(2) [of y' d'] 3 days_before_year_step [of y] show ?thesis by simp
  qed
qed

lemma sum_mlens: "sum_list (mlens y) = ylen y"
  by (simp add: mlens_def ylen_def)

lemma month_loop_days:
  assumes "0 \<le> d" "d < sum_list ls"
  shows "\<exists>k < length ls. month_loop m ls d = (m + int k, d - sum_list (take k ls)) \<and>
    0 \<le> d - sum_list (take k ls) \<and> d - sum_list (take k ls) < ls ! k"
  using assms
proof (induction ls arbitrary: m d)
  case (Cons l ls)
  show ?case
  proof (cases "d < l")
    case True
    with Cons.prems show ?thesis by (intro exI [of _ 0]) simp
  next
    case False
    with Cons.prems have "0 \<le> d - l" "d - l < sum_list ls" by simp_all
    from Cons.IH [OF this, of "m + 1"] obtain k where "k < length ls"
      "month_loop (m + 1) ls (d - l) = (m + 1 + int k, d - l - sum_list (take k ls))"
      "0 \<le> d - l - sum_list (take k ls)" "d - l - sum_list (take k ls) < ls ! k"
      by blast
    with False show ?thesis by (intro exI [of _ "Suc k"]) (simp add: algebra_simps)
  qed
qed simp

text \<open>What \<^verbatim>\<open>localtime\<close> yields, and that \<^verbatim>\<open>mktime\<close> inverts it.\<close>

lemma localtime_fields:
  obtains y k d where "localtime tz t = \<lparr>tm_year = y - 1900, tm_mon = int k, tm_mday = d + 1,
      tm_hour = (t + tz) mod 86400 div 3600, tm_min = (t + tz) mod 86400 div 60 mod 60,
      tm_sec = (t + tz) mod 86400 mod 60\<rparr>"
    "k < 12" "0 \<le> d" "d < mlens y ! k"
    "days_before_year y + days_before_month y (int k) + d = (t + tz) div 86400"
proof -
  obtain y yd where y: "year_loop 1970 ((t + tz) div 86400) = (y, yd)" by fastforce
  from year_loop_days [OF y] have yd: "days_before_year y + yd = (t + tz) div 86400" "0 \<le> yd" "yd < ylen y"
    by (simp_all add: days_before_year_def)
  obtain k where k: "k < length (mlens y)" "month_loop 0 (mlens y) yd = (int k, yd - sum_list (take k (mlens y)))"
    "0 \<le> yd - sum_list (take k (mlens y))" "yd - sum_list (take k (mlens y)) < mlens y ! k"
    using month_loop_days [of yd "mlens y" 0] yd sum_mlens by auto
  show thesis
    by (rule that [of y k "yd - sum_list (take k (mlens y))"])
      (use y yd k in \<open>simp_all add: localtime_def Let_def days_before_month_def mlens_def\<close>)
qed

lemma mlens_le: "k < 12 \<Longrightarrow> mlens y ! k \<le> 31"
  by (auto simp: mlens_def numeral_eq_Suc less_Suc_eq)

lemma localtime_bounds:
  shows "0 \<le> tm_mon (localtime tz t)" "tm_mon (localtime tz t) < 12"
    "1 \<le> tm_mday (localtime tz t)" "tm_mday (localtime tz t) \<le> 31"
    "0 \<le> tm_hour (localtime tz t)" "tm_hour (localtime tz t) < 24"
    "0 \<le> tm_min (localtime tz t)" "tm_min (localtime tz t) < 60"
    "0 \<le> tm_sec (localtime tz t)" "tm_sec (localtime tz t) < 60"
proof -
  obtain y k d where l: "localtime tz t = \<lparr>tm_year = y - 1900, tm_mon = int k, tm_mday = d + 1,
      tm_hour = (t + tz) mod 86400 div 3600, tm_min = (t + tz) mod 86400 div 60 mod 60,
      tm_sec = (t + tz) mod 86400 mod 60\<rparr>" "k < 12" "0 \<le> d" "d < mlens y ! k"
    by (rule localtime_fields)
  moreover have "0 \<le> (t + tz) mod 86400" "(t + tz) mod 86400 < 86400" by simp_all
  then have "(t + tz) mod 86400 div 3600 < 24" "0 \<le> (t + tz) mod 86400 div 3600"
    by (simp_all add: div_less_iff_less_mult pos_imp_zdiv_nonneg_iff)
  ultimately show "0 \<le> tm_mon (localtime tz t)" "tm_mon (localtime tz t) < 12"
    "1 \<le> tm_mday (localtime tz t)" "tm_mday (localtime tz t) \<le> 31"
    "0 \<le> tm_hour (localtime tz t)" "tm_hour (localtime tz t) < 24"
    "0 \<le> tm_min (localtime tz t)" "tm_min (localtime tz t) < 60"
    "0 \<le> tm_sec (localtime tz t)" "tm_sec (localtime tz t) < 60"
    using mlens_le [of k y] by (simp_all del: of_nat_less_iff)
qed

lemma day_seconds:
  fixes s :: int
  shows "s mod 86400 div 3600 * 3600 + s mod 86400 div 60 mod 60 * 60 + s mod 86400 mod 60 = s mod 86400"
proof -
  have "r div 3600 * 3600 + r div 60 mod 60 * 60 + r mod 60 = r" for r :: int
  proof -
    have "r div 3600 = r div 60 div 60" by (simp add: zdiv_zmult2_eq)
    moreover define q where "q = r div 60"
    ultimately show ?thesis using div_mult_mod_eq [of q 60] div_mult_mod_eq [of r 60]
      unfolding q_def by (simp only:)
  qed
  then show ?thesis by blast
qed

lemma mktime_localtime [simp]: "mktime tz (localtime tz t) = t"
proof -
  obtain y k d where l: "localtime tz t = \<lparr>tm_year = y - 1900, tm_mon = int k, tm_mday = d + 1,
      tm_hour = (t + tz) mod 86400 div 3600, tm_min = (t + tz) mod 86400 div 60 mod 60,
      tm_sec = (t + tz) mod 86400 mod 60\<rparr>" "k < 12"
    "days_before_year y + days_before_month y (int k) + d = (t + tz) div 86400"
    by (rule localtime_fields)
  define h where "h = (t + tz) mod 86400 div 3600"
  define mi where "mi = (t + tz) mod 86400 div 60 mod 60"
  define se where "se = (t + tz) mod 86400 mod 60"
  have sum: "h * 3600 + mi * 60 + se = (t + tz) mod 86400"
    unfolding h_def mi_def se_def by (rule day_seconds)
  have dz: "int k div 12 = 0" "int k mod 12 = int k" using l(2) by simp_all
  have "mktime tz (localtime tz t) =
      (days_before_year y + days_before_month y (int k) + d) * 86400 + (h * 3600 + mi * 60 + se) - tz"
    unfolding l(1) h_def [symmetric] mi_def [symmetric] se_def [symmetric] mktime_def Let_def
    by (simp add: dz)
  also have "... = (t + tz) div 86400 * 86400 + (t + tz) mod 86400 - tz"
    unfolding l(3) sum ..
  finally show ?thesis by simp
qed

section \<open>Times as text\<close>

definition digit_char :: "nat \<Rightarrow> char" where
  "digit_char n = ''0123456789'' ! n"

fun to_dec :: "nat \<Rightarrow> string" where
  "to_dec n = (if n < 10 then [digit_char n] else to_dec (n div 10) @ [digit_char (n mod 10)])"

declare to_dec.simps [simp del]

definition pad2 :: "int \<Rightarrow> string" where
  "pad2 v = [digit_char (nat v div 10 mod 10), digit_char (nat v mod 10)]"

definition pad3 :: "int \<Rightarrow> string" where
  "pad3 v = [digit_char (nat v div 100 mod 10), digit_char (nat v div 10 mod 10), digit_char (nat v mod 10)]"

definition show_year :: "int \<Rightarrow> string" where
  "show_year y = (if y < 0 then ''-'' @ to_dec (nat (- y)) else to_dec (nat y))"

text \<open>The format \<^verbatim>\<open>%F %T\<close>, which is also \<^verbatim>\<open>%Y-%m-%d %H:%M:%S\<close>.\<close>

definition time2string :: "int \<Rightarrow> int \<Rightarrow> string" where
  "time2string tz t =
     (let p = localtime tz t
      in show_year (tm_year p + 1900) @ ''-'' @ pad2 (tm_mon p + 1) @ ''-'' @ pad2 (tm_mday p) @ '' ''
         @ pad2 (tm_hour p) @ '':'' @ pad2 (tm_min p) @ '':'' @ pad2 (tm_sec p))"

text \<open>\<^verbatim>\<open>strftime\<close> into twenty bytes: a longer text leaves the buffer unspecified.\<close>

definition get_time :: "int \<Rightarrow> int \<Rightarrow> string option" where
  "get_time tz t = (let s = time2string tz t in if length s < 20 then Some s else None)"

definition get_cur_time :: "int \<Rightarrow> int \<Rightarrow> int \<Rightarrow> string option" where
  "get_cur_time tz sec usec = do {
     s \<leftarrow> get_time tz sec;
     Some (''['' @ s @ ''.'' @ pad3 (usec sdiv 1000) @ '']'') }"

definition is_digit :: "char \<Rightarrow> bool" where
  "is_digit c = (c \<in> set ''0123456789'')"

definition dec_num :: "string \<Rightarrow> nat" where
  "dec_num ds = foldl (\<lambda>v c. v * 10 + (of_char c - 48)) 0 ds"

definition is_space :: "char \<Rightarrow> bool" where
  "is_space c = (c \<in> set [CHR '' '', CHR 0x09, CHR 0x0A, CHR 0x0B, CHR 0x0C, CHR 0x0D])"

text \<open>The conversion \<^verbatim>\<open>%d\<close> of \<^verbatim>\<open>sscanf\<close>: white space, a sign, at least one digit, clamped to
  the range of \<^verbatim>\<open>long\<close> on the target, 32 bits.\<close>

definition scan_d :: "string \<Rightarrow> (int \<times> string) option" where
  "scan_d s =
     (let s1 = dropWhile is_space s;
          neg = (take 1 s1 = ''-'');
          s2 = (if take 1 s1 = ''-'' \<or> take 1 s1 = ''+'' then drop 1 s1 else s1);
          ds = takeWhile is_digit s2;
          v = int (dec_num ds)
      in if ds = [] then None
         else Some (if neg then max (- (2 ^ 31)) (- v) else min (2 ^ 31 - 1) v, dropWhile is_digit s2))"

definition scan_c :: "char \<Rightarrow> string \<Rightarrow> string option" where
  "scan_c c s = (case s of [] \<Rightarrow> None | x # xs \<Rightarrow> if x = c then Some xs else None)"

text \<open>A text that does not match leaves variables unset, \<open>None\<close>.\<close>

definition string2time :: "int \<Rightarrow> string \<Rightarrow> int option" where
  "string2time tz str = do {
     (year, s) \<leftarrow> scan_d str; s \<leftarrow> scan_c CHR ''-'' s;
     (month, s) \<leftarrow> scan_d s; s \<leftarrow> scan_c CHR ''-'' s;
     (day, s) \<leftarrow> scan_d s; let s = dropWhile is_space s;
     (hour, s) \<leftarrow> scan_d s; s \<leftarrow> scan_c CHR '':'' s;
     (minute, s) \<leftarrow> scan_d s; s \<leftarrow> scan_c CHR '':'' s;
     (second, s) \<leftarrow> scan_d s;
     Some (mktime tz \<lparr>tm_year = year - 1900, tm_mon = month - 1, tm_mday = day, tm_hour = hour,
       tm_min = minute, tm_sec = second\<rparr>) }"

text \<open>\<^verbatim>\<open>TimeSet\<close>: the new value of the clock.\<close>

definition TimeSet :: "int \<Rightarrow> int \<Rightarrow> int \<Rightarrow> int \<Rightarrow> int \<Rightarrow> int \<Rightarrow> int \<Rightarrow> int" where
  "TimeSet tz year month day hour minu sec =
     mktime tz \<lparr>tm_year = year - 1900, tm_mon = month - 1, tm_mday = day, tm_hour = hour,
       tm_min = minu, tm_sec = sec\<rparr>"

definition TimeSet_str :: "int \<Rightarrow> string \<Rightarrow> int option" where
  "TimeSet_str tz str = do {
     t \<leftarrow> string2time tz str;
     let p = localtime tz t;
     Some (TimeSet tz (tm_year p + 1900) (tm_mon p + 1) (tm_mday p) (tm_hour p) (tm_min p) (tm_sec p)) }"

lemma nat_less_10_cases: "(n :: nat) < 10 \<Longrightarrow> n \<in> {0, 1, 2, 3, 4, 5, 6, 7, 8, 9}"
  by (auto simp: numeral_eq_Suc less_Suc_eq)

lemma digit_char_cases:
  assumes "n < 10"
  shows "is_digit (digit_char n)" "of_char (digit_char n) - 48 = n" "\<not> is_space (digit_char n)"
    "digit_char n \<noteq> CHR ''-''" "digit_char n \<noteq> CHR ''+''"
  using nat_less_10_cases [OF assms] by (auto simp: digit_char_def is_digit_def is_space_def)

lemma dec_num_snoc: "dec_num (ds @ [c]) = dec_num ds * 10 + (of_char c - 48)"
  by (simp add: dec_num_def)

lemma to_dec_digits: "dec_num (to_dec n) = n \<and> list_all is_digit (to_dec n) \<and> to_dec n \<noteq> []"
proof (induction n rule: to_dec.induct)
  case (1 n)
  then show ?case
    by (subst (1 2 3) to_dec.simps) (simp add: dec_num_snoc digit_char_cases dec_num_def [of "[_]"] dec_num_def [of "[]"])
qed

lemma pad2_digits:
  assumes "0 \<le> v" "v < 100"
  shows "dec_num (pad2 v) = nat v" "list_all is_digit (pad2 v)" "pad2 v \<noteq> []"
proof -
  have "nat v div 10 < 10" using assms by (simp add: less_mult_imp_div_less)
  then show "dec_num (pad2 v) = nat v" "list_all is_digit (pad2 v)" "pad2 v \<noteq> []"
    by (simp_all add: pad2_def dec_num_def digit_char_cases)
qed

lemma scan_d_digits:
  assumes "list_all is_digit ds" "ds \<noteq> []" "dec_num ds < 2 ^ 31" "rest = [] \<or> \<not> is_digit (hd rest)"
  shows "scan_d (ds @ rest) = Some (int (dec_num ds), rest)"
proof -
  have tw: "takeWhile is_digit (ds @ rest) = ds" "dropWhile is_digit (ds @ rest) = rest"
    using assms(1,4) by (cases rest; auto simp: list_all_iff takeWhile_append dropWhile_append)+
  obtain c cs where c: "ds = c # cs" "is_digit c" using assms(1,2) by (cases ds) auto
  then have "\<not> is_space c" "c \<noteq> CHR ''-''" "c \<noteq> CHR ''+''"
    by (auto simp: is_digit_def is_space_def)
  with c have "dropWhile is_space (ds @ rest) = ds @ rest" "take 1 (ds @ rest) \<noteq> ''-''" "take 1 (ds @ rest) \<noteq> ''+''"
    by auto
  then show ?thesis
    using assms(2,3) tw by (simp add: scan_d_def)
qed

lemma tm_eta:
  "\<lparr>tm_year = tm_year p, tm_mon = tm_mon p, tm_mday = tm_mday p, tm_hour = tm_hour p,
     tm_min = tm_min p, tm_sec = tm_sec p\<rparr> = p"
  by (cases p) simp

text \<open>Reading back the text of a time gives the time.\<close>

lemma string2time_time2string:
  assumes "0 \<le> tm_year (localtime tz t) + 1900" "tm_year (localtime tz t) + 1900 < 2 ^ 31"
  shows "string2time tz (time2string tz t) = Some t"
proof -
  let ?p = "localtime tz t"
  note b = localtime_bounds [of tz t]
  have year: "scan_d (show_year y @ CHR ''-'' # r) = Some (y, CHR ''-'' # r)"
    if "0 \<le> y" "y < 2 ^ 31" for y r
    using scan_d_digits [of "to_dec (nat y)" "CHR ''-'' # r"] that to_dec_digits [of "nat y"]
    by (simp add: show_year_def is_digit_def)
  have two: "scan_d (pad2 v @ c # r) = Some (v, c # r)"
    if "0 \<le> v" "v < 100" "c \<in> set ''-: ''" for v c r
    using scan_d_digits [of "pad2 v" "c # r"] pad2_digits [OF that(1,2)] that by (auto simp: is_digit_def)
  have last: "scan_d (pad2 v) = Some (v, [])" if "0 \<le> v" "v < 100" for v
    using scan_d_digits [of "pad2 v" "[]"] pad2_digits [OF that] that by simp
  have sp: "dropWhile is_space (pad2 v @ r) = pad2 v @ r" if "0 \<le> v" "v < 100" for v r
  proof -
    have "nat v div 10 < 10" using that by (simp add: less_mult_imp_div_less)
    then show ?thesis by (simp add: pad2_def digit_char_cases)
  qed
  have blank: "is_space CHR '' ''" by (simp add: is_space_def)
  have "string2time tz (time2string tz t) = Some (mktime tz ?p)"
    using b assms unfolding string2time_def time2string_def Let_def append.assoc
    by (simp add: year two last sp blank scan_c_def tm_eta)
  then show ?thesis by simp
qed

lemma TimeSet_localtime:
  "TimeSet tz (tm_year (localtime tz t) + 1900) (tm_mon (localtime tz t) + 1) (tm_mday (localtime tz t))
     (tm_hour (localtime tz t)) (tm_min (localtime tz t)) (tm_sec (localtime tz t)) = t"
  by (simp add: TimeSet_def tm_eta)

section \<open>Hours and periods\<close>

definition is_diff_hour :: "int \<Rightarrow> int \<Rightarrow> bool" where
  "is_diff_hour t1 t2 \<longleftrightarrow> t1 - t1 smod 3600 \<noteq> t2 - t2 smod 3600"

definition Cycle_Check :: "int \<Rightarrow> int \<Rightarrow> int \<Rightarrow> int \<Rightarrow> bool" where
  "Cycle_Check tz now cycle_seconds delays =
     (if cycle_seconds = 0 then False
      else
        let p = localtime tz now;
            temp = tm_hour p * 3600 + tm_min p * 60 + tm_sec p - delays;
            temp = (if temp < 0 then - ((- temp) smod cycle_seconds) else temp smod cycle_seconds)
        in temp = 0)"

definition TimeOffset5Min :: "int \<Rightarrow> int \<Rightarrow> int" where
  "TimeOffset5Min tz t = tm_min (localtime tz t) sdiv 5"

lemma is_diff_hour_iff: "0 \<le> t1 \<Longrightarrow> 0 \<le> t2 \<Longrightarrow> is_diff_hour t1 t2 \<longleftrightarrow> t1 div 3600 \<noteq> t2 div 3600"
proof -
  have "t - t mod 3600 = t div 3600 * 3600" for t :: int
    by (simp add: minus_mod_eq_div_mult)
  then show "0 \<le> t1 \<Longrightarrow> 0 \<le> t2 \<Longrightarrow> is_diff_hour t1 t2 \<longleftrightarrow> t1 div 3600 \<noteq> t2 div 3600"
    by (simp add: is_diff_hour_def)
qed

lemma localtime_seconds:
  "tm_hour (localtime tz t) * 3600 + tm_min (localtime tz t) * 60 + tm_sec (localtime tz t)
     = (t + tz) mod 86400"
proof -
  obtain y k d where "localtime tz t = \<lparr>tm_year = y - 1900, tm_mon = int k, tm_mday = d + 1,
      tm_hour = (t + tz) mod 86400 div 3600, tm_min = (t + tz) mod 86400 div 60 mod 60,
      tm_sec = (t + tz) mod 86400 mod 60\<rparr>"
    by (rule localtime_fields)
  then show ?thesis using day_seconds [of "t + tz"] by (simp only: tm.simps)
qed

text \<open>The check holds exactly when the delayed second of the day is a multiple of the period.\<close>

lemma Cycle_Check_iff:
  assumes "0 < c"
  shows "Cycle_Check tz now c delays \<longleftrightarrow> c dvd ((now + tz) mod 86400 - delays)"
proof -
  let ?x = "(now + tz) mod 86400 - delays"
  have "(- ?x) smod c = (- ?x) mod c" if "?x < 0" using that assms by simp
  moreover have "?x smod c = ?x mod c" if "\<not> ?x < 0" using that assms by simp
  moreover have "(- ?x) mod c = 0 \<longleftrightarrow> c dvd ?x" by (metis dvd_minus_iff mod_eq_0_iff_dvd)
  ultimately show ?thesis
    using assms unfolding Cycle_Check_def Let_def localtime_seconds by (simp add: mod_eq_0_iff_dvd)
qed

lemma TimeOffset5Min_bounds: "0 \<le> TimeOffset5Min tz t \<and> TimeOffset5Min tz t \<le> 11"
proof -
  have "0 \<le> m \<Longrightarrow> m < 60 \<Longrightarrow> 0 \<le> m div 5 \<and> m div 5 \<le> 11" for m :: int by presburger
  then show ?thesis using localtime_bounds(7,8) [of tz t] by (simp add: TimeOffset5Min_def)
qed

lemma small_multiple: "(c :: int) dvd x \<Longrightarrow> \<bar>x\<bar> < c \<Longrightarrow> x = 0"
  using dvd_imp_le_int [of x c] by auto

text \<open>With a period that divides the day, each run of one period holds exactly one instant at
  which the check passes.\<close>

lemma Cycle_Check_once:
  assumes "0 < c" and "c dvd 86400"
  shows "\<exists>!t. t0 \<le> t \<and> t < t0 + c \<and> Cycle_Check tz t c delays"
proof -
  have iff: "Cycle_Check tz t c delays \<longleftrightarrow> (t + tz - delays) mod c = 0" for t
  proof -
    have "((t + tz) mod 86400 - delays) mod c = (t + tz - delays) mod c"
      using assms(2) by (metis mod_diff_left_eq mod_mod_cancel)
    then show ?thesis using Cycle_Check_iff [OF assms(1)] by (simp add: dvd_eq_mod_eq_0)
  qed
  let ?r = "(t0 + tz - delays) mod c"
  have r: "0 \<le> ?r" "?r < c" using assms(1) by simp_all
  show ?thesis
  proof (cases "?r = 0")
    case True
    have "t = t0" if "t0 \<le> t" "t < t0 + c" "(t + tz - delays) mod c = 0" for t
    proof -
      have "c dvd (t + tz - delays) - (t0 + tz - delays)"
        using that(3) True by (simp only: mod_eq_0_iff_dvd dvd_diff)
      moreover have "(t + tz - delays) - (t0 + tz - delays) = t - t0" by simp
      ultimately have "c dvd t - t0" by metis
      with small_multiple [of c "t - t0"] that(1,2) show ?thesis by simp
    qed
    with True assms(1) show ?thesis unfolding iff by (intro ex1I [of _ t0]) auto
  next
    case False
    let ?t = "t0 + (c - ?r)"
    have "c dvd (?t + tz - delays)"
    proof -
      have "?t + tz - delays = (t0 + tz - delays) - ?r + c" by simp
      moreover have "c dvd (t0 + tz - delays) - ?r" by (simp add: minus_mod_eq_mult_div)
      then have "c dvd (t0 + tz - delays) - ?r + c" by simp
      ultimately show ?thesis by (simp only:)
    qed
    then have hit: "(?t + tz - delays) mod c = 0" by (simp add: mod_eq_0_iff_dvd)
    have "t = ?t" if "t0 \<le> t" "t < t0 + c" "(t + tz - delays) mod c = 0" for t
    proof -
      have "c dvd (t + tz - delays) - (?t + tz - delays)"
        using that(3) hit by (simp only: mod_eq_0_iff_dvd dvd_diff)
      moreover have "(t + tz - delays) - (?t + tz - delays) = t - ?t" by simp
      ultimately have "c dvd t - ?t" by metis
      moreover have "\<bar>t - ?t\<bar> < c" using that(1,2) r False by linarith
      ultimately have "t - ?t = 0" by (rule small_multiple)
      then show ?thesis by simp
    qed
    with hit r False show ?thesis unfolding iff by (intro ex1I [of _ ?t]) auto
  qed
qed

end
