(* ===== verification/Tcp_Client.thy ===== *)
theory Tcp_Client
  imports Lib_Bytes
begin

text \<open>
  The TCP client of \<^verbatim>\<open>dev/tcp_client.cpp\<close>: its connection state machine, the queue of one frame
  that \<^verbatim>\<open>senddata\<close> fills, and the receive buffer that the packet thread hands on. One run of
  \<^verbatim>\<open>tcp_state_function\<close>, of the body of the packet thread and of \<^verbatim>\<open>senddata\<close> is one step; the
  results of the system calls of a step are the fields of the record \<open>sys\<close>. \<open>None\<close> is an
  access outside a buffer.
\<close>

section \<open>State\<close>

datatype TCP_STEP = TCP_STEP_NULL | TCP_STEP_OPEN | TCP_STEP_CONNECT | TCP_STEP_OPEN_ERROR
  | TCP_STEP_OPEN_OK | TCP_STEP_SEND | TCP_STEP_RESEND | TCP_STEP_SEND_OK | TCP_STEP_SEND_ERROR
  | TCP_STEP_RECV_WAIT | TCP_STEP_RECV_GET_OK | TCP_STEP_RECV_TIMEOUT

record tcp_client =
  tc_pfd :: int
  tc_ppfd :: int
  tc_ppfd_get :: bool
  tc_keep :: bool
  tc_step :: TCP_STEP
  tc_lstep :: TCP_STEP
  tc_socketfd :: int
  tc_opened :: bool
  tc_connect_ms_max :: int
  tc_send_ms_max :: int
  tc_recv_ms_max :: int
  tc_connect_timeout :: ul64
  tc_send_timeout :: ul64
  tc_recv_timeout :: ul64
  tc_target :: "string \<times> int"
  tc_setip :: bytes
  tc_setport :: int
  tc_sendbuffer :: bytes
  tc_sendlen :: int
  tc_sendreconnect :: int
  tc_recvbuffer :: bytes
  tc_recvwannlen :: int
  tc_recvlen :: int
  tc_reconnect :: int

text \<open>The global object \<^verbatim>\<open>client\<close> before its first use: static storage is zero, the rest are the
  initialisers of the class.\<close>

definition new_tcp_client :: tcp_client where
  "new_tcp_client = \<lparr>tc_pfd = 0, tc_ppfd = 0, tc_ppfd_get = False, tc_keep = True,
     tc_step = TCP_STEP_NULL, tc_lstep = TCP_STEP_NULL, tc_socketfd = 0, tc_opened = False,
     tc_connect_ms_max = 1000, tc_send_ms_max = 2000, tc_recv_ms_max = 5000,
     tc_connect_timeout = 0, tc_send_timeout = 0, tc_recv_timeout = 0,
     tc_target = ([], 0), tc_setip = replicate 20 0, tc_setport = 0,
     tc_sendbuffer = replicate 1024 0, tc_sendlen = 0, tc_sendreconnect = 0,
     tc_recvbuffer = replicate 1024 0, tc_recvwannlen = 0, tc_recvlen = 0, tc_reconnect = 0\<rparr>"

text \<open>What the system calls of one step return: the clock, the new socket (\<open>-1\<close> for an error),
  whether \<^verbatim>\<open>connect\<close> succeeds, whether the kernel reports an established connection, the result
  of \<^verbatim>\<open>send\<close>, and the bytes that have arrived (\<open>[]\<close> for none or an error).\<close>

record sys =
  sys_now :: int
  sys_socket :: int
  sys_connect :: bool
  sys_established :: bool
  sys_send :: int
  sys_recv :: bytes

text \<open>\<^verbatim>\<open>get_ms_clock\<close> is a 32-bit \<^verbatim>\<open>long\<close>; deadlines are stored and compared as unsigned 64-bit
  values.\<close>

definition ms_now :: "int \<Rightarrow> ul64" where
  "ms_now now = word_of_int now"

definition ms_after :: "int \<Rightarrow> int \<Rightarrow> ul64" where
  "ms_after now d = word_of_int (to_int32 (now + d))"

section \<open>Operations\<close>

definition tcp_client_isdisconnect_byserver :: "sys \<Rightarrow> bool" where
  "tcp_client_isdisconnect_byserver e \<longleftrightarrow> \<not> sys_established e"

definition tcp_config :: "tcp_client \<Rightarrow> string \<Rightarrow> int \<Rightarrow> (tcp_client \<times> int) option" where
  "tcp_config c ip port = do {
     let n = (if length ip < 20 then length ip else 20);
     buf \<leftarrow> memcpy_at 0 (take n (bytes_of ip)) (tc_setip c);
     buf' \<leftarrow> wr buf 19 0;
     Some (c\<lparr>tc_target := (ip, port mod 2 ^ 16), tc_setip := buf', tc_setport := port\<rparr>, 0) }"

text \<open>\<open>t1\<close> and \<open>t2\<close> are the threads that \<^verbatim>\<open>pthread_create\<close> makes, \<open>None\<close> for a failure.\<close>

definition tcp_start :: "tcp_client \<Rightarrow> int option \<Rightarrow> int option \<Rightarrow> tcp_client \<times> int" where
  "tcp_start c t1 t2 =
     (case t1 of
        None \<Rightarrow> (c, -1)
      | Some p \<Rightarrow>
          (let c1 = c\<lparr>tc_pfd := p\<rparr>
           in case t2 of
                None \<Rightarrow> (c1, -1)
              | Some q \<Rightarrow> (c1\<lparr>tc_ppfd := q, tc_step := TCP_STEP_OPEN\<rparr>, p)))"

definition tcp_quit :: "tcp_client \<Rightarrow> tcp_client \<times> int" where
  "tcp_quit c = (c\<lparr>tc_pfd := 0, tc_socketfd := 0\<rparr>, 0)"

definition tcp_keepalive :: "tcp_client \<Rightarrow> bool \<Rightarrow> tcp_client \<times> int" where
  "tcp_keepalive c k = (c\<lparr>tc_keep := k\<rparr>, (if k then 1 else 0))"

text \<open>The deadline \<^verbatim>\<open>recv_timeout\<close> is unsigned, so its test for a negative value never holds.
  A negative length compares as a huge one.\<close>

definition senddata :: "tcp_client \<Rightarrow> bytes \<Rightarrow> int \<Rightarrow> int \<Rightarrow> int \<Rightarrow> int \<Rightarrow> (tcp_client \<times> int) option" where
  "senddata c buffer len to_txms to_rxms recv_wann = do {
     let len = (if len < 0 \<or> len > 1024 then 1024 else len);
     src \<leftarrow> rd_range buffer 0 (nat len);
     sb \<leftarrow> memcpy_at 0 src (tc_sendbuffer c);
     let c1 = c\<lparr>tc_sendbuffer := sb, tc_sendlen := len, tc_recv_ms_max := to_rxms\<rparr>;
     let c2 = (if to_txms \<noteq> 0 then c1\<lparr>tc_send_ms_max := to_txms\<rparr> else c1);
     let c3 = c2\<lparr>tc_recvlen := 0, tc_recvwannlen := recv_wann\<rparr>;
     Some (if tc_step c3 = TCP_STEP_RECV_WAIT then c3\<lparr>tc_step := TCP_STEP_SEND\<rparr> else c3, len) }"

definition tcp_is_send_end :: "tcp_client \<Rightarrow> bool" where
  "tcp_is_send_end c \<longleftrightarrow> \<not> tc_sendlen c > 0"

section \<open>The state machine\<close>

text \<open>One definition per state; each returns the client and the bytes handed to \<^verbatim>\<open>send\<close>.\<close>

definition st_null :: "tcp_client \<Rightarrow> tcp_client" where
  "st_null c =
     (let c1 = c\<lparr>tc_opened := False\<rparr>
      in if tc_socketfd c1 > 0 then c1\<lparr>tc_socketfd := 0\<rparr> else c1)"

definition st_open :: "sys \<Rightarrow> tcp_client \<Rightarrow> tcp_client" where
  "st_open e c =
     (let c1 = c\<lparr>tc_opened := False, tc_socketfd := sys_socket e\<rparr>
      in if sys_socket e = -1 then c1\<lparr>tc_step := TCP_STEP_OPEN_ERROR\<rparr>
         else c1\<lparr>tc_step := TCP_STEP_CONNECT,
                tc_connect_timeout := ms_after (sys_now e) (tc_connect_ms_max c1)\<rparr>)"

definition st_connect :: "sys \<Rightarrow> tcp_client \<Rightarrow> tcp_client" where
  "st_connect e c =
     (if \<not> sys_connect e
      then (if ms_now (sys_now e) > tc_connect_timeout c then c\<lparr>tc_step := TCP_STEP_OPEN_ERROR\<rparr> else c)
      else c\<lparr>tc_step := TCP_STEP_OPEN_OK\<rparr>)"

definition st_open_ok :: "sys \<Rightarrow> tcp_client \<Rightarrow> tcp_client" where
  "st_open_ok e c = c\<lparr>tc_opened := True, tc_send_timeout := ms_after (sys_now e) (tc_send_ms_max c),
     tc_step := TCP_STEP_SEND\<rparr>"

definition st_open_error :: "tcp_client \<Rightarrow> tcp_client" where
  "st_open_error c = c\<lparr>tc_reconnect := tc_reconnect c + 1, tc_step := TCP_STEP_OPEN\<rparr>"

definition st_send :: "sys \<Rightarrow> tcp_client \<Rightarrow> (tcp_client \<times> bytes) option" where
  "st_send e c =
     (if tcp_client_isdisconnect_byserver e then Some (c\<lparr>tc_step := TCP_STEP_SEND_ERROR\<rparr>, [])
      else if tc_sendlen c = 0
      then (let c1 = (if tc_recv_timeout c = 0 \<and> \<not> tc_keep c
                      then c\<lparr>tc_recv_timeout := ms_after (sys_now e) (tc_recv_ms_max c)\<rparr> else c)
            in Some (c1\<lparr>tc_step := TCP_STEP_RECV_WAIT\<rparr>, []))
      else if tc_sendlen c > 0 \<and> sys_send e = -1
      then (if ms_now (sys_now e) > tc_send_timeout c
            then (let c1 = c\<lparr>tc_sendreconnect := tc_sendreconnect c + 1\<rparr>;
                      c2 = (if tc_sendreconnect c1 > 2 then c1\<lparr>tc_sendlen := 0\<rparr> else c1)
                  in Some (c2\<lparr>tc_step := TCP_STEP_SEND_ERROR\<rparr>, []))
            else Some (c, []))
      else do {
        out \<leftarrow> rd_range (tc_sendbuffer c) 0 (nat (tc_sendlen c));
        Some (c\<lparr>tc_recv_timeout := ms_after (sys_now e) (tc_recv_ms_max c), tc_recvlen := 0,
               tc_step := TCP_STEP_RECV_WAIT, tc_sendlen := 0, tc_opened := True\<rparr>,
              take (nat (sys_send e)) out) })"

definition recv_idle :: "sys \<Rightarrow> tcp_client \<Rightarrow> tcp_client" where
  "recv_idle e c =
     (if ms_now (sys_now e) > tc_recv_timeout c
      then (let c1 = (if \<not> tc_keep c then c\<lparr>tc_step := TCP_STEP_RECV_TIMEOUT\<rparr> else c)
            in c1\<lparr>tc_recvlen := 0, tc_recv_timeout := ms_after (sys_now e) (tc_recv_ms_max c1)\<rparr>)
      else c)"

definition recv_store :: "sys \<Rightarrow> bytes \<Rightarrow> tcp_client \<Rightarrow> tcp_client option" where
  "recv_store e got c = do {
     rb \<leftarrow> memcpy_at (nat (tc_recvlen c)) got (tc_recvbuffer c);
     let c1 = c\<lparr>tc_recvbuffer := rb, tc_recv_timeout := ms_after (sys_now e) (tc_recv_ms_max c),
                tc_recvlen := tc_recvlen c + int (length got), tc_ppfd_get := True\<rparr>;
     if tc_recvlen c1 \<ge> tc_recvwannlen c1
     then do {
       rb' \<leftarrow> wr (tc_recvbuffer c1) (nat (tc_recvlen c1)) 0;
       Some (c1\<lparr>tc_recvbuffer := rb'\<rparr>) }
     else Some c1 }"

definition st_recv_wait :: "sys \<Rightarrow> tcp_client \<Rightarrow> tcp_client option" where
  "st_recv_wait e c =
     (if tc_sendlen c > 0
      then Some (c\<lparr>tc_sendreconnect := 0, tc_step := TCP_STEP_SEND,
                  tc_send_timeout := ms_after (sys_now e) (tc_send_ms_max c)\<rparr>)
      else if tcp_client_isdisconnect_byserver e then Some (c\<lparr>tc_step := TCP_STEP_SEND_ERROR\<rparr>)
      else
        let c1 = (if tc_recvwannlen c = 0 \<and> tc_recvlen c = 0 then c\<lparr>tc_recvwannlen := 1024\<rparr> else c);
            got = take (nat (tc_recvwannlen c1 - tc_recvlen c1)) (sys_recv e)
        in if got = [] then Some (recv_idle e c1) else recv_store e got c1)"

definition st_lost :: "tcp_client \<Rightarrow> tcp_client" where
  "st_lost c =
     (let c1 = c\<lparr>tc_socketfd := 0, tc_opened := False\<rparr>;
          c2 = (if tc_reconnect c1 < 65535 then c1\<lparr>tc_reconnect := tc_reconnect c1 + 1\<rparr> else c1)
      in if tc_keep c2 \<or> tc_sendlen c2 > 0 then c2\<lparr>tc_step := TCP_STEP_OPEN\<rparr>
         else c2\<lparr>tc_step := TCP_STEP_NULL\<rparr>)"

definition tcp_state_function :: "sys \<Rightarrow> tcp_client \<Rightarrow> (tcp_client \<times> bytes) option" where
  "tcp_state_function e c =
     (let c = c\<lparr>tc_lstep := tc_step c\<rparr>
      in case tc_step c of
           TCP_STEP_NULL \<Rightarrow> Some (st_null c, [])
         | TCP_STEP_OPEN \<Rightarrow> Some (st_open e c, [])
         | TCP_STEP_CONNECT \<Rightarrow> Some (st_connect e c, [])
         | TCP_STEP_OPEN_OK \<Rightarrow> Some (st_open_ok e c, [])
         | TCP_STEP_OPEN_ERROR \<Rightarrow> Some (st_open_error c, [])
         | TCP_STEP_SEND \<Rightarrow> st_send e c
         | TCP_STEP_RECV_WAIT \<Rightarrow> map_option (\<lambda>c'. (c', [])) (st_recv_wait e c)
         | TCP_STEP_RECV_GET_OK \<Rightarrow> Some (c, [])
         | TCP_STEP_SEND_ERROR \<Rightarrow> Some (st_lost c, [])
         | TCP_STEP_RECV_TIMEOUT \<Rightarrow> Some (st_lost c, [])
         | _ \<Rightarrow> Some (c\<lparr>tc_step := TCP_STEP_NULL\<rparr>, []))"

text \<open>The packet thread hands \<^verbatim>\<open>recvlen\<close> bytes to the callback; \<open>answered\<close> says that the callback
  returned something.\<close>

definition packet_thread :: "int \<Rightarrow> bool \<Rightarrow> tcp_client \<Rightarrow> (tcp_client \<times> bytes option) option" where
  "packet_thread now answered c =
     (if \<not> tc_ppfd_get c then Some (c, None)
      else do {
        chunk \<leftarrow> rd_range (tc_recvbuffer c) 0 (nat (tc_recvlen c));
        let c1 = c\<lparr>tc_ppfd_get := False\<rparr>;
        let c2 = (if answered then c1\<lparr>tc_recv_timeout := ms_after now (tc_recv_ms_max c1)\<rparr> else c1);
        Some (c2\<lparr>tc_recvlen := 0\<rparr>, Some chunk) })"

definition tcp_device_open :: "tcp_client \<Rightarrow> bool" where
  "tcp_device_open c = tc_opened c"

section \<open>The buffers stay in bounds\<close>

definition tcp_live_steps :: "TCP_STEP set" where
  "tcp_live_steps = {TCP_STEP_NULL, TCP_STEP_OPEN, TCP_STEP_CONNECT, TCP_STEP_OPEN_ERROR,
     TCP_STEP_OPEN_OK, TCP_STEP_SEND, TCP_STEP_SEND_ERROR, TCP_STEP_RECV_WAIT, TCP_STEP_RECV_TIMEOUT}"

definition tcp_inv :: "tcp_client \<Rightarrow> bool" where
  "tcp_inv c \<longleftrightarrow> length (tc_sendbuffer c) = 1024 \<and> length (tc_recvbuffer c) = 1024
     \<and> length (tc_setip c) = 20
     \<and> 0 \<le> tc_sendlen c \<and> tc_sendlen c \<le> 1024
     \<and> 0 \<le> tc_recvlen c \<and> tc_recvlen c \<le> tc_recvwannlen c \<and> tc_recvwannlen c \<le> 1024
     \<and> tc_step c \<in> tcp_live_steps"

lemmas tcp_st_defs = st_null_def st_open_def st_connect_def st_open_ok_def st_open_error_def
  st_send_def st_recv_wait_def st_lost_def

lemma tcp_inv_new: "tcp_inv new_tcp_client"
  by (simp add: tcp_inv_def new_tcp_client_def tcp_live_steps_def)

lemma tcp_inv_lstep [simp]: "tcp_inv (c\<lparr>tc_lstep := l\<rparr>) = tcp_inv c"
  by (simp add: tcp_inv_def)

lemma st_send_ok:
  assumes "tcp_inv c"
  shows "case st_send e c of None \<Rightarrow> False | Some (c', out) \<Rightarrow> tcp_inv c'"
proof -
  have "rd_range (tc_sendbuffer c) 0 (nat (tc_sendlen c)) = Some (take (nat (tc_sendlen c)) (tc_sendbuffer c))"
    using assms nat_mono [of "tc_sendlen c" 1024] by (auto simp: rd_range_def tcp_inv_def)
  then show ?thesis
    using assms by (simp add: tcp_inv_def tcp_live_steps_def st_send_def Let_def)
qed

lemma recv_idle_inv: "tcp_inv c \<Longrightarrow> tcp_inv (recv_idle e c)"
  by (auto simp: tcp_inv_def recv_idle_def tcp_live_steps_def)

lemma recv_store_ok:
  assumes "tcp_inv c" "tc_recvlen c + int (length got) \<le> tc_recvwannlen c"
  shows "case recv_store e got c of
      None \<Rightarrow> tc_recvlen c + int (length got) = 1024
    | Some c' \<Rightarrow> tcp_inv c' \<and> tc_recvlen c + int (length got) < 1024"
proof -
  define n where "n = tc_recvlen c + int (length got)"
  have i: "length (tc_recvbuffer c) = 1024" "0 \<le> tc_recvlen c" "tc_recvwannlen c \<le> 1024"
    using assms(1) by (simp_all add: tcp_inv_def)
  have n: "n \<le> tc_recvwannlen c" "nat (tc_recvlen c) + length got = nat n" "0 \<le> n"
    using assms(2) i by (simp_all add: n_def)
  have "nat n \<le> 1024" using n i by linarith
  then obtain rb where rb: "memcpy_at (nat (tc_recvlen c)) got (tc_recvbuffer c) = Some rb"
    using n i by (simp add: memcpy_at_def)
  have lrb: "length rb = 1024" using memcpy_at_length [OF rb] i by simp
  have "recv_store e got c = (let c1 = c\<lparr>tc_recvbuffer := rb,
      tc_recv_timeout := ms_after (sys_now e) (tc_recv_ms_max c), tc_recvlen := n, tc_ppfd_get := True\<rparr>
      in if n = tc_recvwannlen c
         then (if n < 1024 then Some (c1\<lparr>tc_recvbuffer := rb[nat n := 0]\<rparr>) else None) else Some c1)"
    using n rb lrb i by (auto simp: recv_store_def Let_def wr_def simp flip: n_def)
  then show ?thesis
    using assms(1) n i lrb by (auto simp: tcp_inv_def Let_def simp flip: n_def)
qed

lemma st_recv_wait_ok:
  assumes "tcp_inv c"
  shows "case st_recv_wait e c of
      None \<Rightarrow> tc_sendlen c = 0 \<and> sys_established e
        \<and> tc_recvlen c + int (length (sys_recv e)) \<ge> 1024
    | Some c' \<Rightarrow> tcp_inv c'"
proof -
  define d where "d = (if tc_recvwannlen c = 0 \<and> tc_recvlen c = 0 then c\<lparr>tc_recvwannlen := 1024\<rparr> else c)"
  have i: "tcp_inv d" using assms by (auto simp: tcp_inv_def d_def)
  define got where "got = take (nat (tc_recvwannlen d - tc_recvlen d)) (sys_recv e)"
  have fit: "tc_recvlen d + int (length got) \<le> tc_recvwannlen d"
    using i by (auto simp: tcp_inv_def got_def)
  have r: "tc_recvlen d = tc_recvlen c" "length got \<le> length (sys_recv e)"
    by (simp_all add: d_def got_def)
  have w: "st_recv_wait e c =
     (if tc_sendlen c > 0
      then Some (c\<lparr>tc_sendreconnect := 0, tc_step := TCP_STEP_SEND,
                  tc_send_timeout := ms_after (sys_now e) (tc_send_ms_max c)\<rparr>)
      else if tcp_client_isdisconnect_byserver e then Some (c\<lparr>tc_step := TCP_STEP_SEND_ERROR\<rparr>)
      else if got = [] then Some (recv_idle e d) else recv_store e got d)"
    by (simp only: st_recv_wait_def Let_def got_def d_def)
  have "0 \<le> tc_sendlen c" using assms by (simp add: tcp_inv_def)
  then show ?thesis
    using w i assms recv_idle_inv [OF i, of e] recv_store_ok [OF i fit, of e] r
    by (cases "recv_store e got d") (auto simp: tcp_client_isdisconnect_byserver_def tcp_inv_def tcp_live_steps_def)
qed

lemma tcp_state_function_ok:
  assumes "tcp_inv c"
  shows "case tcp_state_function e c of
      None \<Rightarrow> tc_step c = TCP_STEP_RECV_WAIT \<and> tc_sendlen c = 0 \<and> sys_established e
        \<and> tc_recvlen c + int (length (sys_recv e)) \<ge> 1024
    | Some (c', out) \<Rightarrow> tcp_inv c'"
proof (cases "tc_step c")
  case TCP_STEP_SEND
  have "tcp_inv (c\<lparr>tc_lstep := tc_step c\<rparr>)" using assms by simp
  with TCP_STEP_SEND show ?thesis
    using st_send_ok [of "c\<lparr>tc_lstep := tc_step c\<rparr>" e]
    by (auto simp: tcp_state_function_def split: option.splits)
next
  case TCP_STEP_RECV_WAIT
  with assms st_recv_wait_ok [of "c\<lparr>tc_lstep := tc_step c\<rparr>" e] show ?thesis
    by (auto simp: tcp_state_function_def split: option.splits)
qed (use assms in \<open>auto simp: tcp_state_function_def Let_def tcp_st_defs tcp_inv_def tcp_live_steps_def\<close>)

text \<open>A read of 1024 bytes writes the terminating zero behind the buffer.\<close>

lemma tcp_full_read_overruns:
  assumes "tcp_inv c" "tc_step c = TCP_STEP_RECV_WAIT" "tc_sendlen c = 0" "tc_recvlen c = 0"
    "tc_recvwannlen c = 1024" "sys_established e" "length (sys_recv e) \<ge> 1024"
  shows "tcp_state_function e c = None"
proof -
  let ?d = "c\<lparr>tc_lstep := tc_step c\<rparr>"
  let ?got = "take 1024 (sys_recv e)"
  have g: "?got \<noteq> []" "length ?got = 1024" using assms(7) by auto
  have "st_recv_wait e ?d = recv_store e ?got ?d"
    using assms g by (simp add: st_recv_wait_def tcp_client_isdisconnect_byserver_def)
  moreover have "recv_store e ?got ?d = None"
    using recv_store_ok [of ?d ?got e] assms g by (cases "recv_store e ?got ?d") auto
  ultimately show ?thesis using assms(2) by (simp add: tcp_state_function_def)
qed

lemma senddata_inv:
  assumes "tcp_inv c" "0 \<le> recv_wann" "recv_wann \<le> 1024"
    "senddata c buffer len to_tx to_rx recv_wann = Some (c', n)"
  shows "tcp_inv c'"
proof -
  define l where "l = (if len < 0 \<or> len > 1024 then 1024 else len)"
  have l: "0 \<le> l" "l \<le> 1024" by (auto simp: l_def)
  have d: "senddata c buffer len to_tx to_rx recv_wann = do {
     src \<leftarrow> rd_range buffer 0 (nat l);
     sb \<leftarrow> memcpy_at 0 src (tc_sendbuffer c);
     let c1 = c\<lparr>tc_sendbuffer := sb, tc_sendlen := l, tc_recv_ms_max := to_rx\<rparr>;
     let c2 = (if to_tx \<noteq> 0 then c1\<lparr>tc_send_ms_max := to_tx\<rparr> else c1);
     let c3 = c2\<lparr>tc_recvlen := 0, tc_recvwannlen := recv_wann\<rparr>;
     Some (if tc_step c3 = TCP_STEP_RECV_WAIT then c3\<lparr>tc_step := TCP_STEP_SEND\<rparr> else c3, l) }"
    by (simp only: senddata_def Let_def l_def)
  obtain src sb where sb: "rd_range buffer 0 (nat l) = Some src" "memcpy_at 0 src (tc_sendbuffer c) = Some sb"
    using assms(4) unfolding d by (auto split: bind_splits)
  have "length sb = 1024" using memcpy_at_length [OF sb(2)] assms(1) by (simp add: tcp_inv_def)
  with assms l sb show ?thesis
    unfolding d by (auto simp: Let_def tcp_inv_def tcp_live_steps_def split: if_splits)
qed

lemma packet_thread_inv:
  assumes "tcp_inv c"
  shows "\<exists>c' ch. packet_thread now answered c = Some (c', ch) \<and> tcp_inv c'"
proof -
  have "rd_range (tc_recvbuffer c) 0 (nat (tc_recvlen c)) = Some (take (nat (tc_recvlen c)) (tc_recvbuffer c))"
    using assms nat_mono [of "tc_recvlen c" 1024] by (auto simp: tcp_inv_def rd_range_def)
  then show ?thesis
    using assms by (cases "tc_ppfd_get c"; cases answered) (simp_all add: packet_thread_def tcp_inv_def)
qed

section \<open>Delivery\<close>

text \<open>Runs of the state function, with the bytes they send.\<close>

fun tcp_ticks :: "sys list \<Rightarrow> tcp_client \<Rightarrow> (tcp_client \<times> bytes) option" where
  "tcp_ticks [] c = Some (c, [])"
| "tcp_ticks (e # es) c = do {
     (c1, out) \<leftarrow> tcp_state_function e c;
     (c2, outs) \<leftarrow> tcp_ticks es c1;
     Some (c2, out @ outs) }"

definition tcp_frame :: "tcp_client \<Rightarrow> bytes" where
  "tcp_frame c = take (nat (tc_sendlen c)) (tc_sendbuffer c)"

text \<open>System calls that succeed; \<^verbatim>\<open>send\<close> takes the whole frame.\<close>

definition good_sys :: "sys \<Rightarrow> bool" where
  "good_sys e \<longleftrightarrow> sys_socket e > 0 \<and> sys_connect e \<and> sys_established e \<and> sys_send e \<ge> 1024"

text \<open>How many good ticks separate a state from the end of sending.\<close>

fun ticks_to_send :: "TCP_STEP \<Rightarrow> nat option" where
  "ticks_to_send TCP_STEP_SEND = Some 1"
| "ticks_to_send TCP_STEP_OPEN_OK = Some 2"
| "ticks_to_send TCP_STEP_RECV_WAIT = Some 2"
| "ticks_to_send TCP_STEP_CONNECT = Some 3"
| "ticks_to_send TCP_STEP_OPEN = Some 4"
| "ticks_to_send TCP_STEP_OPEN_ERROR = Some 5"
| "ticks_to_send TCP_STEP_SEND_ERROR = Some 5"
| "ticks_to_send TCP_STEP_RECV_TIMEOUT = Some 5"
| "ticks_to_send _ = None"

text \<open>One good tick brings the frame one state nearer, unchanged, or sends it.\<close>

lemma good_tick:
  assumes "tcp_inv c" "0 < tc_sendlen c" "good_sys e" "ticks_to_send (tc_step c) = Some (Suc n)"
  shows "\<exists>c' out. tcp_state_function e c = Some (c', out) \<and> tcp_inv c' \<and>
    (if n = 0 then out = tcp_frame c \<and> tcp_is_send_end c'
     else out = [] \<and> tcp_frame c' = tcp_frame c \<and> 0 < tc_sendlen c' \<and> ticks_to_send (tc_step c') = Some n)"
proof -
  have ok: "\<exists>c' out. tcp_state_function e c = Some (c', out) \<and> tcp_inv c'"
    using tcp_state_function_ok [OF assms(1), of e] assms(2)
    by (auto split: option.splits)
  then obtain c' out where s: "tcp_state_function e c = Some (c', out)" and i: "tcp_inv c'" by blast
  have b: "length (tc_sendbuffer c) = 1024" "tc_sendlen c \<le> 1024" using assms(1) by (simp_all add: tcp_inv_def)
  have "if n = 0 then out = tcp_frame c \<and> tcp_is_send_end c'
     else out = [] \<and> tcp_frame c' = tcp_frame c \<and> 0 < tc_sendlen c' \<and> ticks_to_send (tc_step c') = Some n"
  proof (cases "tc_step c")
    case TCP_STEP_SEND
    have "rd_range (tc_sendbuffer c) 0 (nat (tc_sendlen c)) = Some (tcp_frame c)"
      using b nat_mono [of "tc_sendlen c" 1024] by (auto simp: rd_range_def tcp_frame_def)
    moreover have "take (nat (sys_send e)) (tcp_frame c) = tcp_frame c"
      using b assms(3) nat_mono [of "tc_sendlen c" "sys_send e"]
      by (simp add: tcp_frame_def good_sys_def min_absorb2)
    ultimately have "out = tcp_frame c \<and> tcp_is_send_end c' \<and> n = 0" using TCP_STEP_SEND s assms
      by (auto simp: tcp_state_function_def Let_def st_send_def good_sys_def
          tcp_client_isdisconnect_byserver_def tcp_is_send_end_def)
    then show ?thesis by simp
  qed (use s assms in \<open>auto simp: tcp_state_function_def Let_def tcp_st_defs good_sys_def tcp_frame_def
      split: if_splits\<close>)
  with s i show ?thesis by blast
qed

lemma tcp_delivers:
  assumes "tcp_inv c" "0 < tc_sendlen c" "ticks_to_send (tc_step c) = Some n" "length es = n"
    "list_all good_sys es"
  shows "\<exists>c'. tcp_ticks es c = Some (c', tcp_frame c) \<and> tcp_is_send_end c' \<and> tcp_inv c'"
  using assms
proof (induction es arbitrary: c n)
  case Nil
  then show ?case by (cases "tc_step c") auto
next
  case (Cons e es)
  then obtain m where n: "n = Suc m" by auto
  have t: "ticks_to_send (tc_step c) = Some (Suc m)" using Cons.prems(3) n by simp
  from Cons.prems(5) have "good_sys e" by simp
  from good_tick [OF Cons.prems(1,2) this t] obtain c1 out where
    s: "tcp_state_function e c = Some (c1, out)" "tcp_inv c1"
    and r: "if m = 0 then out = tcp_frame c \<and> tcp_is_send_end c1
      else out = [] \<and> tcp_frame c1 = tcp_frame c \<and> 0 < tc_sendlen c1 \<and> ticks_to_send (tc_step c1) = Some m"
    by blast
  show ?case
  proof (cases m)
    case 0
    then have "es = []" using Cons.prems(4) n by simp
    with 0 s r show ?thesis by simp
  next
    case (Suc k)
    then have "\<exists>c'. tcp_ticks es c1 = Some (c', tcp_frame c1) \<and> tcp_is_send_end c' \<and> tcp_inv c'"
      using r s(2) Cons.prems(4,5) n by (intro Cons.IH [of c1 m]) auto
    with s r Suc show ?thesis by auto
  qed
qed

text \<open>In the idle state nothing is ever sent.\<close>

lemma tcp_null_stuck:
  "tc_step c = TCP_STEP_NULL \<Longrightarrow> tcp_ticks es c = Some (c', out) \<Longrightarrow>
    out = [] \<and> tc_step c' = TCP_STEP_NULL \<and> tcp_frame c' = tcp_frame c"
proof (induction es arbitrary: c out)
  case (Cons e es)
  obtain c1 where c1: "tcp_state_function e c = Some (c1, [])" "tc_step c1 = TCP_STEP_NULL"
    "tcp_frame c1 = tcp_frame c"
    using Cons.prems(1) by (auto simp: tcp_state_function_def Let_def st_null_def tcp_frame_def)
  with Cons.prems(2) obtain out' where "tcp_ticks es c1 = Some (c', out')" "out = out'"
    by (auto split: bind_splits)
  with Cons.IH [OF c1(2)] c1(3) show ?case by simp
qed simp

end
