(* ===== verification/Serial_Port.thy ===== *)
theory Serial_Port
  imports Lib_Bytes
begin

text \<open>
  The serial port of \<^verbatim>\<open>dev/serialport.cpp\<close>: opening and configuring the line, the read thread
  with its packet timeout, and sending. The terminal settings are the fields of \<^verbatim>\<open>termios\<close>
  that the code sets; the results of system calls are arguments.
\<close>

section \<open>Line settings\<close>

record termios =
  c_speed :: int
  c_clocal :: bool
  c_cread :: bool
  c_crtscts :: bool
  c_ixon :: bool
  c_csize :: int
  c_parenb :: bool
  c_parodd :: bool
  c_inpck :: bool
  c_cstopb :: bool
  c_opost :: bool
  c_raw :: bool
  c_vtime :: nat
  c_vmin :: nat

definition uart0_speeds :: "int list" where
  "uart0_speeds = [115200, 19200, 9600, 4800, 2400, 1200, 300]"

definition set_flow :: "int \<Rightarrow> termios \<Rightarrow> termios option" where
  "set_flow flow_ctrl opt =
     (if flow_ctrl = 0 then Some (opt\<lparr>c_crtscts := False\<rparr>)
      else if flow_ctrl = 1 then Some (opt\<lparr>c_crtscts := True\<rparr>)
      else if flow_ctrl = 2 then Some (opt\<lparr>c_ixon := True\<rparr>)
      else None)"

definition set_databits :: "int \<Rightarrow> termios \<Rightarrow> termios option" where
  "set_databits databits opt =
     (if databits = 7 \<or> databits = 8 then Some (opt\<lparr>c_csize := databits\<rparr>) else None)"

definition set_parity :: "int \<Rightarrow> termios \<Rightarrow> termios option" where
  "set_parity parity opt =
     (if parity = 0 then Some (opt\<lparr>c_parenb := False, c_inpck := False\<rparr>)
      else if parity = 1 then Some (opt\<lparr>c_parenb := True, c_parodd := True, c_inpck := True\<rparr>)
      else if parity = 2 then Some (opt\<lparr>c_parenb := True, c_parodd := False, c_inpck := True\<rparr>)
      else if parity = 3 then Some (opt\<lparr>c_parenb := False, c_cstopb := False\<rparr>)
      else None)"

definition set_stopbits :: "int \<Rightarrow> termios \<Rightarrow> termios option" where
  "set_stopbits stopbits opt =
     (if stopbits = 1 then Some (opt\<lparr>c_cstopb := False\<rparr>)
      else if stopbits = 2 then Some (opt\<lparr>c_cstopb := True\<rparr>)
      else None)"

text \<open>\<open>line\<close> is what \<^verbatim>\<open>tcgetattr\<close> reads, \<open>None\<close> when it fails; \<open>set_ok\<close> is whether \<^verbatim>\<open>tcsetattr\<close>
  succeeds. The result is the new line and the return value.\<close>

definition UART0_Set ::
    "termios option \<Rightarrow> bool \<Rightarrow> int \<Rightarrow> int \<Rightarrow> int \<Rightarrow> int \<Rightarrow> int \<Rightarrow> termios option \<times> int" where
  "UART0_Set line set_ok speed flow_ctrl databits stopbits parity =
     (case line of
        None \<Rightarrow> (line, -1)
      | Some opt \<Rightarrow>
          let opt1 = (if speed \<in> set uart0_speeds then opt\<lparr>c_speed := speed\<rparr> else opt);
              opt2 = opt1\<lparr>c_clocal := True, c_cread := True\<rparr>;
              r = do {
                opt3 \<leftarrow> set_flow flow_ctrl opt2;
                opt4 \<leftarrow> set_databits databits opt3;
                opt5 \<leftarrow> set_parity parity opt4;
                opt6 \<leftarrow> set_stopbits stopbits opt5;
                Some (opt6\<lparr>c_opost := False, c_raw := True, c_vtime := 1, c_vmin := 1\<rparr>) }
          in case r of
               None \<Rightarrow> (line, -1)
             | Some opt' \<Rightarrow> if set_ok then (Some opt', 0) else (line, -1))"

text \<open>The result of \<^verbatim>\<open>UART0_Set\<close> is not looked at.\<close>

definition uart_init_select :: "int \<Rightarrow> termios option \<Rightarrow> bool \<Rightarrow> int \<Rightarrow> termios option \<times> int" where
  "uart_init_select fd line set_ok baudrate =
     (if fd = -1 then (line, -1) else (fst (UART0_Set line set_ok baudrate 0 8 1 0), fd))"

section \<open>The port\<close>

record SerialPort =
  sp_thread_id :: int
  sp_COM :: string
  sp_baudrate :: int
  sp_frame_timeout_us :: int
  sp_fd :: int
  sp_rec_len_temp :: int
  sp_receive_timeout :: int
  sp_packet_timeout :: int
  sp_temp_ptr :: nat
  sp_data_len :: int
  sp_buffer :: bytes

definition sp_buffer_size :: nat where
  "sp_buffer_size = 218"

definition new_SerialPort :: SerialPort where
  "new_SerialPort = \<lparr>sp_thread_id = -1, sp_COM = [], sp_baudrate = 9600, sp_frame_timeout_us = 20000,
     sp_fd = -1, sp_rec_len_temp = 0, sp_receive_timeout = 0, sp_packet_timeout = 50,
     sp_temp_ptr = 0, sp_data_len = 0, sp_buffer = replicate sp_buffer_size 0\<rparr>"

text \<open>Every iteration of the loop over the table ends in a return.\<close>

fun change_speed_loop :: "int \<Rightarrow> bool \<Rightarrow> int list \<Rightarrow> termios \<Rightarrow> termios \<times> int" where
  "change_speed_loop speed set_ok [] line = (line, -1)"
| "change_speed_loop speed set_ok (x # xs) line =
     (if speed = x
      then (if set_ok then (line\<lparr>c_speed := x\<rparr>, 0) else (line, -2))
      else (line, 0))"

definition change_speed_names :: "int list" where
  "change_speed_names = [38400, 19200, 9600, 4800, 2400, 1200, 300, 38400, 19200, 9600, 4800, 2400, 1200, 300]"

definition change_speed :: "int \<Rightarrow> bool \<Rightarrow> termios \<Rightarrow> termios \<times> int" where
  "change_speed speed set_ok line = change_speed_loop speed set_ok change_speed_names line"

text \<open>Which of the two direction switches a port uses, and what the switch writes to it.\<close>

definition sp_ctrl :: "SerialPort \<Rightarrow> int \<Rightarrow> bool \<Rightarrow> bool \<Rightarrow> (string \<times> u8) option \<times> int" where
  "sp_ctrl s v open_ok write_ok =
     (let io = (if sp_COM s = ''/dev/ttyRS2'' then ''/dev/rs485Ctrl2'' else ''/dev/rs485Ctrl1'')
      in if \<not> open_ok then (None, -1)
         else if \<not> write_ok then (None, -1)
         else (Some (io, word_of_int v), 0))"

definition sp_set_packet_process :: "SerialPort \<Rightarrow> int \<Rightarrow> SerialPort \<times> int" where
  "sp_set_packet_process s frame_timeout = (s\<lparr>sp_frame_timeout_us := frame_timeout\<rparr>, 1)"

text \<open>\<open>thr\<close> is the new thread, \<open>None\<close> when it cannot be made.\<close>

definition sp_start ::
    "SerialPort \<Rightarrow> string \<Rightarrow> int \<Rightarrow> int \<Rightarrow> termios option \<Rightarrow> bool \<Rightarrow> int option \<Rightarrow> SerialPort \<times> termios option \<times> int"
  where
  "sp_start s com b fd line set_ok thr =
     (let s1 = s\<lparr>sp_baudrate := b, sp_COM := com\<rparr>;
          (line', f) = uart_init_select fd line set_ok (sp_baudrate s1);
          s2 = s1\<lparr>sp_fd := f\<rparr>
      in case thr of
           None \<Rightarrow> (s2, line', 0)
         | Some t \<Rightarrow> (s2\<lparr>sp_thread_id := t\<rparr>, line', f))"

definition sp_quit :: "SerialPort \<Rightarrow> SerialPort \<times> int" where
  "sp_quit s =
     (let s1 = s\<lparr>sp_fd := 0\<rparr>
      in (if sp_thread_id s1 \<noteq> 0 then s1\<lparr>sp_thread_id := 0\<rparr> else s1, 0))"

text \<open>\<^verbatim>\<open>send\<close> switches the line to sending and back around one \<^verbatim>\<open>write\<close>, whose result \<open>n\<close> it
  returns; the bytes written are the first \<open>n\<close>.\<close>

definition sp_send :: "SerialPort \<Rightarrow> bytes \<Rightarrow> int \<Rightarrow> bytes \<times> int" where
  "sp_send s dat n = (take (nat n) dat, n)"

definition sp_is_send_end :: "SerialPort \<Rightarrow> bool" where
  "sp_is_send_end s \<longleftrightarrow> True"

text \<open>One iteration of the read thread; \<open>got\<close> is what \<^verbatim>\<open>read\<close> stored. The result is the data handed
  to the packet callback.\<close>

definition serial_read :: "int \<Rightarrow> bytes \<Rightarrow> SerialPort \<Rightarrow> (SerialPort \<times> bytes option) option" where
  "serial_read now arrived s =
     (let got = take (sp_buffer_size - sp_temp_ptr s) arrived
      in if got = [] then Some (s\<lparr>sp_rec_len_temp := 0\<rparr>, None)
         else do {
           buf \<leftarrow> memcpy_at (sp_temp_ptr s) got (sp_buffer s);
           let s1 = s\<lparr>sp_buffer := buf, sp_rec_len_temp := int (length got)\<rparr>;
           let s2 = (if sp_temp_ptr s1 = 0
                     then s1\<lparr>sp_receive_timeout := now + sp_packet_timeout s1\<rparr>
                     else if sp_receive_timeout s1 < now
                     then s1\<lparr>sp_temp_ptr := 0, sp_rec_len_temp := 0, sp_data_len := 7,
                            sp_receive_timeout := now + sp_packet_timeout s1\<rparr>
                     else s1);
           let s3 = s2\<lparr>sp_temp_ptr := sp_temp_ptr s2 + nat (sp_rec_len_temp s2)\<rparr>;
           if sp_temp_ptr s3 \<noteq> 0
           then do {
             chunk \<leftarrow> rd_range (sp_buffer s3) 0 (sp_temp_ptr s3);
             Some (s3\<lparr>sp_temp_ptr := 0\<rparr>, Some chunk) }
           else Some (s3\<lparr>sp_temp_ptr := 0\<rparr>, None) })"

section \<open>Properties\<close>

definition sp_inv :: "SerialPort \<Rightarrow> bool" where
  "sp_inv s \<longleftrightarrow> length (sp_buffer s) = sp_buffer_size \<and> sp_temp_ptr s = 0"

lemma sp_inv_new: "sp_inv new_SerialPort"
  by (simp add: sp_inv_def new_SerialPort_def)

text \<open>Every read is handed on as it came, up to the size of the buffer: the branches for a partly
  filled buffer are never taken.\<close>

lemma serial_read_chunk:
  assumes "sp_inv s"
  shows "\<exists>s'. serial_read now arrived s =
      Some (s', if arrived = [] then None else Some (take sp_buffer_size arrived)) \<and> sp_inv s'"
proof -
  define got where "got = take sp_buffer_size arrived"
  have g: "length got \<le> sp_buffer_size" "(got = []) = (arrived = [])"
    by (auto simp: got_def sp_buffer_size_def)
  have i: "length (sp_buffer s) = sp_buffer_size" "sp_temp_ptr s = 0" using assms by (simp_all add: sp_inv_def)
  then show ?thesis
    using g by (auto simp: serial_read_def Let_def memcpy_at_def rd_range_def sp_inv_def simp flip: got_def)
qed

text \<open>Only the first rate of the table can be set, and the text that the device configuration
  passes as a number never is it.\<close>

lemma change_speed_first:
  "change_speed speed set_ok line =
     (if speed = 38400 then (if set_ok then (line\<lparr>c_speed := 38400\<rparr>, 0) else (line, -2)) else (line, 0))"
  by (simp add: change_speed_def change_speed_names_def)

lemma text_is_no_rate:
  assumes "length cs \<ge> 4" "cs ! 0 \<noteq> 0"
  shows "int (le_val (take 4 cs)) \<noteq> 38400"
proof
  obtain b bs where cs: "cs = b # bs" using assms by (cases cs) auto
  have nz: "unat b \<noteq> 0" using assms(2) cs by (simp add: unat_eq_zero)
  assume "int (le_val (take 4 cs)) = 38400"
  then have "le_val (take 4 cs) = 38400" by simp
  then have "unat b + 256 * le_val (take 3 bs) = 38400" by (simp add: cs)
  then have "(unat b + 256 * le_val (take 3 bs)) mod 256 = 38400 mod 256" by simp
  then have "unat b mod 256 = 0" by simp
  with nz show False by simp
qed

lemma UART0_Set_standard:
  "UART0_Set (Some opt) True speed 0 8 1 0 =
     (Some ((if speed \<in> set uart0_speeds then opt\<lparr>c_speed := speed\<rparr> else opt)
       \<lparr>c_clocal := True, c_cread := True, c_crtscts := False, c_csize := 8, c_parenb := False,
        c_inpck := False, c_cstopb := False, c_opost := False, c_raw := True, c_vtime := 1, c_vmin := 1\<rparr>), 0)"
  by (simp add: UART0_Set_def set_flow_def set_databits_def set_parity_def set_stopbits_def Let_def)

end
