(* ===== verification/Mx_Device.thy ===== *)
theory Mx_Device
  imports Calendar Tcp_Client Serial_Port
begin

text \<open>
  The device interface of \<^verbatim>\<open>dev/mxdevice.h\<close> and its two implementations in
  \<^verbatim>\<open>dev/mxdevice.cpp\<close>. The class with its virtual methods becomes a record of functions over
  the state of the device; what the protocol above needs from a device is the locale
  \<open>frame_link\<close>, which the TCP client and the serial port are shown to satisfy.
\<close>

section \<open>The interface\<close>

datatype DeviceState = DS_NULL | DS_INITED | DS_CONNECTING | DS_OPEN | DS_WAIT | DS_CLOSE | DS_ERROR

record 'd MxDevice =
  mx_send :: "'d \<Rightarrow> bytes \<Rightarrow> int \<Rightarrow> int \<Rightarrow> int \<Rightarrow> ('d \<times> bytes) option"
  mx_is_send_end :: "'d \<Rightarrow> bool"

text \<open>The state of a device with the events of its threads, \<open>link_run\<close>: the bytes that go out.\<close>

fun link_run :: "('e \<Rightarrow> 'd \<Rightarrow> ('d \<times> bytes) option) \<Rightarrow> 'e list \<Rightarrow> 'd \<Rightarrow> ('d \<times> bytes) option" where
  "link_run work [] d = Some (d, [])"
| "link_run work (e # es) d = do {
     (d1, out) \<leftarrow> work e d;
     (d2, outs) \<leftarrow> link_run work es d1;
     Some (d2, out @ outs) }"

locale frame_link =
  fixes submit :: "'d \<Rightarrow> bytes \<Rightarrow> ('d \<times> bytes) option"
    and work :: "'e \<Rightarrow> 'd \<Rightarrow> ('d \<times> bytes) option"
    and send_end :: "'d \<Rightarrow> bool"
    and pending :: "'d \<Rightarrow> bytes"
    and ok :: "'d \<Rightarrow> bool"
  assumes submit_ok: "ok d \<Longrightarrow> frame \<noteq> [] \<Longrightarrow> length frame \<le> 1024 \<Longrightarrow>
      \<exists>d' out. submit d frame = Some (d', out) \<and> ok d' \<and>
        (out = [] \<and> pending d' = frame \<or> take (length out) frame = out \<and> pending d' = [])"
    and work_ok: "ok d \<Longrightarrow> work e d = Some (d', out) \<Longrightarrow>
      ok d' \<and> (out = [] \<and> pending d' = pending d \<or> take (length out) (pending d) = out \<and> pending d' = [])"
    and send_end_iff: "ok d \<Longrightarrow> send_end d \<longleftrightarrow> pending d = []"
begin

lemma run_pending:
  assumes "ok d" "link_run work es d = Some (d', out)"
  shows "ok d' \<and> (out = [] \<and> pending d' = pending d \<or> take (length out) (pending d) = out \<and> pending d' = [])"
  using assms
proof (induction es arbitrary: d out)
  case Nil
  then show ?case by simp
next
  case (Cons e es)
  then obtain d1 o1 o2 where s: "work e d = Some (d1, o1)" "link_run work es d1 = Some (d', o2)" "out = o1 @ o2"
    by (auto split: bind_splits)
  note w = work_ok [OF Cons.prems(1) s(1)]
  from Cons.IH [OF _ s(2)] w have "ok d'"
    and r: "o2 = [] \<and> pending d' = pending d1 \<or> take (length o2) (pending d1) = o2 \<and> pending d' = []" by auto
  with w s(3) show ?case by auto
qed

text \<open>After a frame is submitted, whatever the threads do, what goes out is a prefix of that one
  frame, and while the device has not finished nothing has gone out.\<close>

lemma submit_run:
  assumes "ok d" "frame \<noteq> []" "length frame \<le> 1024" "submit d frame = Some (d1, o1)"
    "link_run work es d1 = Some (d2, o2)"
  shows "ok d2" "take (length (o1 @ o2)) frame = o1 @ o2" "\<not> send_end d2 \<Longrightarrow> o1 @ o2 = []"
proof -
  from submit_ok [OF assms(1-3)] assms(4) have i: "ok d1"
    and f: "o1 = [] \<and> pending d1 = frame \<or> take (length o1) frame = o1 \<and> pending d1 = []" by auto
  note r = run_pending [OF i assms(5)]
  show "ok d2" using r by simp
  show "take (length (o1 @ o2)) frame = o1 @ o2" using r f by auto
  show "o1 @ o2 = []" if "\<not> send_end d2" using r f that send_end_iff [of d2] by auto
qed

end

section \<open>The TCP client as a device\<close>

datatype tcp_event = Tick sys | Deliver int bool

definition tcp_work :: "tcp_event \<Rightarrow> tcp_client \<Rightarrow> (tcp_client \<times> bytes) option" where
  "tcp_work ev c =
     (case ev of
        Tick e \<Rightarrow> tcp_state_function e c
      | Deliver now answered \<Rightarrow> map_option (\<lambda>(c', ch). (c', [])) (packet_thread now answered c))"

text \<open>\<^verbatim>\<open>MxDeviceTcpClient::send\<close>; the frame is the packet structure, of which \<^verbatim>\<open>len\<close> bytes count.\<close>

definition mxtcp_send :: "tcp_client \<Rightarrow> bytes \<Rightarrow> int \<Rightarrow> int \<Rightarrow> int \<Rightarrow> (tcp_client \<times> bytes) option" where
  "mxtcp_send c buffer len sms rms = map_option (\<lambda>(c', n). (c', [])) (senddata c buffer len sms rms 1024)"

definition mxtcp :: "tcp_client MxDevice" where
  "mxtcp = \<lparr>mx_send = mxtcp_send, mx_is_send_end = tcp_is_send_end\<rparr>"

text \<open>The address text: four numbers and a port. A number that is missing leaves a variable
  unset, except the port; a text over twenty characters does not fit the array.\<close>

definition show_int :: "int \<Rightarrow> string" where
  "show_int v = (if v < 0 then ''-'' @ to_dec (nat (- v)) else to_dec (nat v))"

definition mxtcp_config :: "tcp_client \<Rightarrow> string \<Rightarrow> (tcp_client \<times> int) option" where
  "mxtcp_config c arg = do {
     (ip1, s) \<leftarrow> scan_d arg; s \<leftarrow> scan_c CHR ''.'' s;
     (ip2, s) \<leftarrow> scan_d s; s \<leftarrow> scan_c CHR ''.'' s;
     (ip3, s) \<leftarrow> scan_d s; s \<leftarrow> scan_c CHR ''.'' s;
     (ip4, s) \<leftarrow> scan_d s;
     let port = (case do { s \<leftarrow> scan_c CHR '':'' s; scan_d s } of Some (p, s) \<Rightarrow> p | None \<Rightarrow> 0);
     let ip = show_int ip1 @ ''.'' @ show_int ip2 @ ''.'' @ show_int ip3 @ ''.'' @ show_int ip4;
     if length ip < 20 then tcp_config c ip port else None }"

definition mxtcp_open :: "tcp_client \<Rightarrow> int option \<Rightarrow> int option \<Rightarrow> tcp_client \<times> int" where
  "mxtcp_open c t1 t2 = tcp_start c t1 t2"

definition mxtcp_close :: "tcp_client \<Rightarrow> tcp_client \<times> int" where
  "mxtcp_close c = tcp_quit c"

definition mxtcp_keepalive :: "tcp_client \<Rightarrow> bool \<Rightarrow> tcp_client \<times> int" where
  "mxtcp_keepalive c k = tcp_keepalive c k"

definition mxtcp_is_keepalive :: "tcp_client \<Rightarrow> bool" where
  "mxtcp_is_keepalive c = tc_keep c"

definition mxtcp_is_open :: "tcp_client \<Rightarrow> bool" where
  "mxtcp_is_open c = tc_opened c"

definition mxtcp_device_state :: "tcp_client \<Rightarrow> DeviceState" where
  "mxtcp_device_state c =
     (case tc_step c of
        TCP_STEP_NULL \<Rightarrow> DS_NULL
      | TCP_STEP_OPEN \<Rightarrow> DS_CONNECTING
      | TCP_STEP_CONNECT \<Rightarrow> DS_CONNECTING
      | TCP_STEP_OPEN_OK \<Rightarrow> DS_OPEN
      | TCP_STEP_SEND \<Rightarrow> DS_OPEN
      | TCP_STEP_SEND_OK \<Rightarrow> DS_OPEN
      | TCP_STEP_RECV_WAIT \<Rightarrow> DS_OPEN
      | TCP_STEP_RECV_GET_OK \<Rightarrow> DS_OPEN
      | TCP_STEP_OPEN_ERROR \<Rightarrow> DS_WAIT
      | TCP_STEP_RESEND \<Rightarrow> DS_WAIT
      | TCP_STEP_SEND_ERROR \<Rightarrow> DS_WAIT
      | TCP_STEP_RECV_TIMEOUT \<Rightarrow> DS_WAIT)"

lemma tcp_frame_length: "tcp_inv c \<Longrightarrow> length (tcp_frame c) = nat (tc_sendlen c)"
  using nat_mono [of "tc_sendlen c" 1024] by (auto simp: tcp_frame_def tcp_inv_def)

lemma tcp_frame_empty: "tcp_inv c \<Longrightarrow> tcp_frame c = [] \<longleftrightarrow> tc_sendlen c = 0"
  using tcp_frame_length [of c] by (auto simp: tcp_inv_def)

lemma tcp_tick_frame:
  assumes "tcp_inv c" "tcp_state_function e c = Some (c', out)"
  shows "out = [] \<and> tcp_frame c' = tcp_frame c \<or> take (length out) (tcp_frame c) = out \<and> tcp_frame c' = []"
proof (cases "tc_step c")
  case TCP_STEP_SEND
  have "rd_range (tc_sendbuffer c) 0 (nat (tc_sendlen c)) = Some (tcp_frame c)"
    using assms(1) nat_mono [of "tc_sendlen c" 1024] by (auto simp: rd_range_def tcp_frame_def tcp_inv_def)
  moreover have "take (length (take n xs)) xs = take n xs" for n and xs :: bytes
    by (simp add: min_def)
  moreover have "0 \<le> tc_sendlen c" using assms(1) by (simp add: tcp_inv_def)
  ultimately show ?thesis using TCP_STEP_SEND assms(2)
    by (auto simp: tcp_state_function_def Let_def st_send_def tcp_frame_def simp del: take_take length_take split: if_splits)
next
  case TCP_STEP_RECV_WAIT
  with assms have "st_recv_wait e (c\<lparr>tc_lstep := TCP_STEP_RECV_WAIT\<rparr>) = Some c' \<and> out = []"
    by (auto simp: tcp_state_function_def)
  then have "tcp_frame c' = tcp_frame c \<and> out = []"
    by (auto simp: st_recv_wait_def Let_def tcp_frame_def recv_idle_def recv_store_def
        split: if_splits bind_splits)
  then show ?thesis by simp
qed (use assms in \<open>auto simp: tcp_state_function_def Let_def tcp_st_defs tcp_frame_def split: if_splits\<close>)

lemma senddata_frame:
  assumes "tcp_inv c" "frame \<noteq> []" "length frame \<le> 1024"
  shows "\<exists>c'. mxtcp_send c frame (int (length frame)) sms rms = Some (c', []) \<and> tcp_inv c' \<and> tcp_frame c' = frame"
proof -
  have len: "length (tc_sendbuffer c) = 1024" using assms(1) by (simp add: tcp_inv_def)
  have "\<exists>c' n. senddata c frame (int (length frame)) sms rms 1024 = Some (c', n) \<and> tcp_frame c' = frame"
    using assms(3) len
    by (auto simp: senddata_def Let_def rd_range_def memcpy_at_def tcp_frame_def)
  then obtain c' n where s: "senddata c frame (int (length frame)) sms rms 1024 = Some (c', n)" "tcp_frame c' = frame"
    by blast
  with senddata_inv [OF assms(1) _ _ s(1)] show ?thesis by (simp add: mxtcp_send_def)
qed

interpretation tcp_link: frame_link "\<lambda>c f. mx_send mxtcp c f (int (length f)) sms rms" tcp_work
    "mx_is_send_end mxtcp" tcp_frame tcp_inv
  for sms rms
proof unfold_locales
  fix d :: tcp_client and frame :: bytes
  assume "tcp_inv d" "frame \<noteq> []" "length frame \<le> 1024"
  from senddata_frame [OF this, of sms rms] show "\<exists>d' out. mx_send mxtcp d frame (int (length frame)) sms rms = Some (d', out) \<and>
      tcp_inv d' \<and> (out = [] \<and> tcp_frame d' = frame \<or> take (length out) frame = out \<and> tcp_frame d' = [])"
    by (auto simp: mxtcp_def)
next
  fix d e d' out
  assume a: "tcp_inv d" "tcp_work e d = Some (d', out)"
  show "tcp_inv d' \<and> (out = [] \<and> tcp_frame d' = tcp_frame d \<or>
      take (length out) (tcp_frame d) = out \<and> tcp_frame d' = [])"
  proof (cases e)
    case (Tick s)
    with a have s: "tcp_state_function s d = Some (d', out)" by (simp add: tcp_work_def)
    with tcp_state_function_ok [OF a(1), of s] tcp_tick_frame [OF a(1) s] show ?thesis by simp
  next
    case (Deliver now answered)
    with a obtain ch where p: "packet_thread now answered d = Some (d', ch)" "out = []"
      by (auto simp: tcp_work_def)
    with packet_thread_inv [OF a(1), of now answered] have "tcp_inv d'" by simp
    moreover have "tcp_frame d' = tcp_frame d"
      using p(1) by (auto simp: packet_thread_def tcp_frame_def Let_def split: if_splits bind_splits)
    ultimately show ?thesis using p(2) by simp
  qed
next
  fix d
  assume "tcp_inv d"
  then show "mx_is_send_end mxtcp d \<longleftrightarrow> tcp_frame d = []"
    using tcp_frame_empty [of d] by (auto simp: mxtcp_def tcp_is_send_end_def tcp_inv_def)
qed

section \<open>The serial port as a device\<close>

text \<open>\<open>wrote\<close> is how many bytes of a frame \<^verbatim>\<open>write\<close> takes.\<close>

definition mxserial_send ::
    "(bytes \<Rightarrow> int) \<Rightarrow> SerialPort \<Rightarrow> bytes \<Rightarrow> int \<Rightarrow> int \<Rightarrow> int \<Rightarrow> (SerialPort \<times> bytes) option" where
  "mxserial_send wrote s buffer len sms rms = do {
     dat \<leftarrow> rd_range buffer 0 (nat len);
     Some (s, fst (sp_send s dat (wrote dat))) }"

definition mxserial :: "(bytes \<Rightarrow> int) \<Rightarrow> SerialPort MxDevice" where
  "mxserial wrote = \<lparr>mx_send = mxserial_send wrote, mx_is_send_end = sp_is_send_end\<rparr>"

definition serial_work :: "int \<times> bytes \<Rightarrow> SerialPort \<Rightarrow> (SerialPort \<times> bytes) option" where
  "serial_work ev s = map_option (\<lambda>(s', ch). (s', [])) (serial_read (fst ev) (snd ev) s)"

text \<open>The rate is read twice from its text: as a decimal number, and as the four characters
  themselves taken for an \<^verbatim>\<open>int\<close>.\<close>

definition mxserial_config :: "SerialPort \<Rightarrow> string \<Rightarrow> bool \<Rightarrow> termios \<Rightarrow> (SerialPort \<times> termios \<times> int) option" where
  "mxserial_config s arg set_ok line = do {
     let speed = (case scan_d arg of Some (v, r) \<Rightarrow> v | None \<Rightarrow> 0);
     b \<leftarrow> rd_range (bytes_of arg @ [0]) 0 4;
     let (line', r) = change_speed (sint (word_of_nat (le_val b) :: u32)) set_ok line;
     Some (s\<lparr>sp_baudrate := speed\<rparr>, line', r) }"

definition mxserial_open ::
    "SerialPort \<Rightarrow> string \<Rightarrow> int \<Rightarrow> termios option \<Rightarrow> bool \<Rightarrow> int option \<Rightarrow> SerialPort \<times> termios option \<times> int" where
  "mxserial_open s arg fd line set_ok thr =
     sp_start (fst (sp_set_packet_process s 20000)) arg (sp_baudrate s) fd line set_ok thr"

text \<open>\<^verbatim>\<open>is_open\<close> looks at the \<^verbatim>\<open>fd\<close> of the device, which no code sets, not at that of the
  port.\<close>

definition mxserial_is_open :: "int \<Rightarrow> bool" where
  "mxserial_is_open dev_fd \<longleftrightarrow> dev_fd > 0"

definition mxserial_device_state :: "int \<Rightarrow> DeviceState" where
  "mxserial_device_state dev_fd = (if mxserial_is_open dev_fd then DS_OPEN else DS_CLOSE)"

interpretation serial_link: frame_link "\<lambda>s f. mx_send (mxserial wrote) s f (int (length f)) sms rms" serial_work
    "mx_is_send_end (mxserial wrote)" "\<lambda>_. []" sp_inv
  for wrote sms rms
proof unfold_locales
  fix d e d' out
  assume a: "sp_inv d" "serial_work e d = Some (d', out)"
  from serial_read_chunk [OF a(1), of "fst e" "snd e"] a(2)
  show "sp_inv d' \<and> (out = [] \<and> [] = [] \<or> take (length out) [] = out \<and> [] = [])"
    by (auto simp: serial_work_def)
next
  fix d :: SerialPort and frame :: bytes
  assume "sp_inv d" "frame \<noteq> []" "length frame \<le> 1024"
  then show "\<exists>d' out. mx_send (mxserial wrote) d frame (int (length frame)) sms rms = Some (d', out) \<and>
      sp_inv d' \<and> (out = [] \<and> [] = frame \<or> take (length out) frame = out \<and> [] = [])"
    by (auto simp: mxserial_def mxserial_send_def rd_range_def sp_send_def min_def)
qed (simp add: mxserial_def sp_is_send_end_def)

text \<open>Configuring a serial port never changes the rate of its line.\<close>

lemma mxserial_config_rate:
  assumes "mxserial_config s arg set_ok line = Some (s', line', r)" "0 \<notin> set (bytes_of arg)"
  shows "line' = line \<and> r = 0"
proof -
  from assms(1) obtain b where b: "rd_range (bytes_of arg @ [0]) 0 4 = Some b"
    and l: "(line', r) = change_speed (sint (word_of_nat (le_val b) :: u32)) set_ok line"
    by (auto simp: mxserial_config_def Let_def split: bind_splits prod.splits)
  from b have n: "4 \<le> length (bytes_of arg @ [0])" "b = take 4 (bytes_of arg @ [0])"
    by (auto simp: rd_range_def split: if_splits)
  then have "(bytes_of arg @ [0]) ! 0 \<noteq> 0"
    using assms(2) by (cases "bytes_of arg") auto
  with n have ne: "int (le_val b) \<noteq> 38400" using text_is_no_rate [of "bytes_of arg @ [0]"] by (simp only: not_False_eq_True simp_thms)
  have "length b = 4" using n by simp
  then have lt: "le_val b < 2 ^ 32" using le_val_bound [of b] by simp
  have "sint (word_of_nat (le_val b) :: u32) \<noteq> 38400"
  proof
    assume s: "sint (word_of_nat (le_val b) :: u32) = 38400"
    have "(word_of_nat (le_val b) :: u32) = word_of_int (sint (word_of_nat (le_val b) :: u32))" by simp
    then have "(word_of_nat (le_val b) :: u32) = word_of_nat 38400" unfolding s by simp
    then have "unat (word_of_nat (le_val b) :: u32) = unat (word_of_nat 38400 :: u32)" by (rule arg_cong)
    then show False using lt ne by (simp add: unat_of_nat)
  qed
  with l show ?thesis by (simp add: change_speed_first)
qed

end
