(* ===== verification/Lib_Text.thy ===== *)
theory Lib_Text
  imports Lib_Bytes
begin

text \<open>
  Text handling of \<^verbatim>\<open>lib/lib.cpp\<close>: \<^verbatim>\<open>split\<close> and \<^verbatim>\<open>list_merge\<close> (lines 891 to 919),
  \<^verbatim>\<open>tostring16\<close> (186 to 191), the centre address format of \<^verbatim>\<open>ipstring2hex\<close> and
  \<^verbatim>\<open>hex2ipstring\<close> (811 to 853) and the directory creation \<^verbatim>\<open>mk_all_dir\<close> (745 to 807).
  \<^verbatim>\<open>split\<close> may run for ever (an empty pattern), so its loop is a \<open>partial_function\<close>
  with \<open>None\<close> for a run that does not return.
\<close>

section \<open>Splitting and joining\<close>

text \<open>\<open>str_find s pat i\<close> is \<^verbatim>\<open>s.find(pat, i)\<close>, \<open>None\<close> being \<^verbatim>\<open>npos\<close>.\<close>

function str_find :: "string \<Rightarrow> string \<Rightarrow> nat \<Rightarrow> nat option" where
  "str_find s pat i =
     (if i + length pat > length s then None
      else if take (length pat) (drop i s) = pat then Some i
      else str_find s pat (Suc i))"
  by auto
termination by (relation "measure (\<lambda>(s, pat, i). Suc (length s) - i)") auto

declare str_find.simps [simp del]

partial_function (option) split_loop ::
    "string \<Rightarrow> string \<Rightarrow> nat \<Rightarrow> string list \<Rightarrow> string list option" where
  "split_loop pat s i result =
     (if i < length s
      then (case str_find s pat i of
              None \<Rightarrow> split_loop pat s (Suc i) result
            | Some pos \<Rightarrow>
                (if pos < length s
                 then (let piece = take (pos - i) (drop i s)
                       in split_loop pat s (pos + length pat)
                            (if piece \<noteq> [] then result @ [piece] else result))
                 else split_loop pat s (Suc i) result))
      else Some result)"

definition split_str :: "string \<Rightarrow> string \<Rightarrow> string list option" where
  "split_str str pat = split_loop pat (str @ pat) 0 []"

definition list_merge :: "string list \<Rightarrow> string \<Rightarrow> string" where
  "list_merge list pat = concat (map (\<lambda>x. x @ pat) list)"

lemma str_find_bound: "str_find s pat i = Some pos \<Longrightarrow> i \<le> pos \<and> pos + length pat \<le> length s"
proof (induction s pat i rule: str_find.induct)
  case (1 s pat i)
  show ?case
  proof (cases "i + length pat > length s \<or> take (length pat) (drop i s) = pat")
    case True
    with "1.prems" show ?thesis by (subst (asm) str_find.simps) (auto split: if_splits)
  next
    case False
    then have "str_find s pat (Suc i) = Some pos"
      using "1.prems" by (subst (asm) str_find.simps) (auto split: if_splits)
    with "1.IH" False show ?thesis by fastforce
  qed
qed

text \<open>With a non-empty pattern every turn moves the index forward: \<open>split\<close> returns.\<close>

lemma split_loop_total: "pat \<noteq> [] \<Longrightarrow> \<exists>r. split_loop pat s i result = Some r"
proof (induction "length s - i" arbitrary: i result rule: less_induct)
  case less
  show ?case
  proof (cases "i < length s")
    case False
    then show ?thesis by (subst split_loop.simps) simp
  next
    case True
    have next1: "\<exists>r. split_loop pat s (Suc i) result = Some r"
      using less True by simp
    show ?thesis
    proof (cases "str_find s pat i")
      case None
      with next1 True show ?thesis by (subst split_loop.simps) simp
    next
      case (Some pos)
      then have "i \<le> pos" using str_find_bound by blast
      then have "i < pos + length pat" using less.prems by (simp add: le_less_trans trans_less_add1)
      then have "\<exists>r. split_loop pat s (pos + length pat) res = Some r" for res
        using less.hyps [of "pos + length pat"] less.prems True by auto
      with Some next1 True show ?thesis by (subst split_loop.simps) (simp add: Let_def)
    qed
  qed
qed

text \<open>With an empty pattern the index never moves.\<close>

lemma split_loop_empty_pattern:
  "split_loop pat s i result = Some r \<Longrightarrow> pat = [] \<Longrightarrow> \<not> i < length s"
proof (induction rule: split_loop.raw_induct [rotated 1, consumes 1])
  case (1 split pat s i result r)
  have f: "str_find s [] i = Some i" if "i < length s"
    using that by (subst str_find.simps) simp
  show ?case
  proof
    assume i: "i < length s"
    with 1(2) 1(3) f have "split [] s i result = Some r"
      by (simp add: Let_def)
    with 1(1) i show False by blast
  qed
qed

lemma split_empty_pattern_diverges: "s \<noteq> [] \<Longrightarrow> split_str s [] = None"
  using split_loop_empty_pattern [of "[]" s 0 "[]"]
  by (cases "split_str s []") (auto simp: split_str_def)

text \<open>A separator of one character: the next piece ends at its first occurrence.\<close>

lemma str_find_char:
  "c \<notin> set w \<Longrightarrow> str_find (pre @ w @ c # post) [c] (length pre) = Some (length pre + length w)"
proof (induction w arbitrary: pre)
  case Nil
  then show ?case by (subst str_find.simps) simp
next
  case (Cons x w)
  have "str_find ((pre @ [x]) @ w @ c # post) [c] (length (pre @ [x])) =
      Some (length (pre @ [x]) + length w)"
    using Cons.prems by (intro Cons.IH) simp
  then show ?case using Cons.prems by (subst str_find.simps) auto
qed

lemma split_loop_word:
  assumes "c \<notin> set w"
  shows "split_loop [c] (pre @ w @ c # post) (length pre) result =
    split_loop [c] ((pre @ w @ [c]) @ post) (length (pre @ w @ [c]))
      (if w \<noteq> [] then result @ [w] else result)"
  by (subst split_loop.simps) (simp add: str_find_char [OF assms] Let_def)

lemma split_loop_words:
  "\<forall>w \<in> set ws. c \<notin> set w \<Longrightarrow>
     split_loop [c] (pre @ list_merge ws [c]) (length pre) result =
       Some (result @ filter (\<lambda>w. w \<noteq> []) ws)"
proof (induction ws arbitrary: pre result)
  case Nil
  then show ?case by (subst split_loop.simps) (simp add: list_merge_def)
next
  case (Cons w ws)
  have m: "list_merge (w # ws) [c] = w @ c # list_merge ws [c]" by (simp add: list_merge_def)
  show ?case
    using Cons.prems Cons.IH [of "pre @ w @ [c]"] unfolding m
    by (simp add: split_loop_word)
qed

text \<open>\<open>split\<close> of the joined text, without the separator that \<open>split\<close> itself appends.\<close>

lemma split_merge_open:
  assumes "\<forall>w \<in> set ws. c \<notin> set w" and "c \<notin> set v"
  shows "split_str (list_merge ws [c] @ v) [c] = Some (filter (\<lambda>w. w \<noteq> []) (ws @ [v]))"
proof -
  have "list_merge ws [c] @ v @ [c] = list_merge (ws @ [v]) [c]"
    by (simp add: list_merge_def)
  then show ?thesis
    using split_loop_words [of "ws @ [v]" c "[]" "[]"] assms by (simp add: split_str_def)
qed

lemma split_merge:
  assumes "\<forall>w \<in> set ws. c \<notin> set w \<and> w \<noteq> []"
  shows "split_str (list_merge ws [c]) [c] = Some ws"
  using split_merge_open [of ws c "[]"] assms by (simp add: filter_id_conv)

section \<open>Hexadecimal numbers as text\<close>

definition hex_lower :: "nat \<Rightarrow> char" where
  "hex_lower n = ''0123456789abcdef'' ! n"

fun to_hex :: "nat \<Rightarrow> string" where
  "to_hex n = (if n < 16 then [hex_lower n] else to_hex (n div 16) @ [hex_lower (n mod 16)])"

declare to_hex.simps [simp del]

text \<open>\<^verbatim>\<open>stream << std::hex << v\<close> prints the bits of a signed value as unsigned.\<close>

definition tostring16 :: "l64 \<Rightarrow> string" where
  "tostring16 v = to_hex (unat v)"

definition hex_chars :: string where
  "hex_chars = ''0123456789abcdefABCDEF''"

definition hex_of_char :: "char \<Rightarrow> nat" where
  "hex_of_char c = (let n = of_char c :: nat in
     if n < 58 then n - 48 else if n < 71 then n - 55 else n - 87)"

definition hex_num :: "string \<Rightarrow> nat" where
  "hex_num ds = foldl (\<lambda>v c. v * 16 + hex_of_char c) 0 ds"

text \<open>The conversion \<^verbatim>\<open>%x\<close> of \<^verbatim>\<open>sscanf\<close>: white space, a sign, a prefix \<^verbatim>\<open>0x\<close> and at
  least one digit; the number is clamped to an \<^verbatim>\<open>unsigned long\<close> of the target, 32 bits.\<close>

definition scan_x :: "string \<Rightarrow> (u32 \<times> string) option" where
  "scan_x s =
     (let s1 = dropWhile (\<lambda>c. c \<in> set [CHR '' '', CHR 0x09, CHR 0x0A, CHR 0x0B, CHR 0x0C, CHR 0x0D]) s;
          neg = (take 1 s1 = ''-'');
          s2 = (if take 1 s1 = ''-'' \<or> take 1 s1 = ''+'' then drop 1 s1 else s1);
          s3 = (if take 2 s2 = ''0x'' \<or> take 2 s2 = ''0X'' then drop 2 s2 else s2);
          ds = takeWhile (\<lambda>c. c \<in> set hex_chars) s3;
          v = (word_of_nat (min (2 ^ 32 - 1) (hex_num ds)) :: u32)
      in if ds = [] then None
         else Some (if neg then - v else v, dropWhile (\<lambda>c. c \<in> set hex_chars) s3))"

definition scan_lit :: "char \<Rightarrow> string \<Rightarrow> string option" where
  "scan_lit c s = (case s of [] \<Rightarrow> None | x # xs \<Rightarrow> if x = c then Some xs else None)"

section \<open>The address of a centre\<close>

text \<open>Four groups of twelve bits and a port of twenty-four bits, packed behind the byte 2.\<close>

definition ip_pack :: "u32 \<Rightarrow> u32 \<Rightarrow> u32 \<Rightarrow> u32 \<Rightarrow> u32 \<Rightarrow> bytes" where
  "ip_pack ip1 ip2 ip3 ip4 port =
     [2,
      ucast (drop_bit 4 ip1),
      ucast (push_bit 4 ip1) OR ucast (drop_bit 8 ip2 AND 0x0F),
      ucast (ip2 AND 0xFF),
      ucast (drop_bit 4 ip3),
      ucast (push_bit 4 ip3) OR ucast (drop_bit 8 ip4 AND 0x0F),
      ucast (ip4 AND 0xFF),
      ucast (0xFF AND drop_bit 16 port),
      ucast (0xFF AND drop_bit 8 port),
      ucast (0xFF AND port)] @ replicate 10 0"

text \<open>A text that does not match leaves the variables of \<^verbatim>\<open>sscanf\<close> unset, \<open>None\<close>;
  \<^verbatim>\<open>memcpy(hexout, tmp, 20)\<close> writes twenty bytes whatever the size of the destination.\<close>

definition ipstring2hex :: "string \<Rightarrow> bytes \<Rightarrow> bytes option" where
  "ipstring2hex str hexout = do {
     (ip1, s) \<leftarrow> scan_x str; s \<leftarrow> scan_lit CHR ''.'' s;
     (ip2, s) \<leftarrow> scan_x s; s \<leftarrow> scan_lit CHR ''.'' s;
     (ip3, s) \<leftarrow> scan_x s; s \<leftarrow> scan_lit CHR ''.'' s;
     (ip4, s) \<leftarrow> scan_x s; s \<leftarrow> scan_lit CHR '':'' s;
     (port, s) \<leftarrow> scan_x s;
     memcpy_at 0 (ip_pack ip1 ip2 ip3 ip4 port) hexout }"

definition hex2ipstring :: "bytes \<Rightarrow> string option" where
  "hex2ipstring tmp = do {
     t1 \<leftarrow> rd tmp 1; t2 \<leftarrow> rd tmp 2; t3 \<leftarrow> rd tmp 3; t4 \<leftarrow> rd tmp 4; t5 \<leftarrow> rd tmp 5;
     t6 \<leftarrow> rd tmp 6; t7 \<leftarrow> rd tmp 7; t8 \<leftarrow> rd tmp 8; t9 \<leftarrow> rd tmp 9;
     let ip1 = push_bit 4 (ucast t1 :: u32) OR ucast (drop_bit 4 t2);
         ip2 = push_bit 8 (ucast (t2 AND 0x0F) :: u32) OR ucast t3;
         ip3 = push_bit 4 (ucast t4 :: u32) OR ucast (drop_bit 4 t5);
         ip4 = push_bit 8 (ucast (t5 AND 0x0F) :: u32) OR ucast t6;
         port = push_bit 8 (push_bit 8 (ucast t7 :: u32) OR ucast t8) OR ucast t9
     in Some (to_hex (unat ip1) @ ''.'' @ to_hex (unat ip2) @ ''.'' @ to_hex (unat ip3) @ ''.''
              @ to_hex (unat ip4) @ '':'' @ to_hex (unat port)) }"

lemma hex_lower_cases:
  assumes "n < 16"
  shows "hex_lower n \<in> set hex_chars" "hex_of_char (hex_lower n) = n"
    "hex_lower n \<noteq> CHR ''x''" "hex_lower n \<noteq> CHR ''X''" "hex_lower n \<noteq> CHR ''-''"
    "hex_lower n \<noteq> CHR ''+''"
    "hex_lower n \<notin> set [CHR '' '', CHR 0x09, CHR 0x0A, CHR 0x0B, CHR 0x0C, CHR 0x0D]"
  using nat_less_16_cases [OF assms]
  by (auto simp: hex_lower_def hex_chars_def hex_of_char_def)

lemma hex_num_to_hex [simp]: "hex_num (to_hex n) = n"
proof (induction n rule: to_hex.induct)
  case (1 n)
  show ?case
  proof (cases "n < 16")
    case True
    then show ?thesis
      by (subst to_hex.simps) (simp add: hex_num_def hex_lower_cases)
  next
    case False
    with 1 have "hex_num (to_hex (n div 16)) = n div 16" by simp
    with False show ?thesis
      by (subst to_hex.simps) (simp add: hex_num_def hex_lower_cases)
  qed
qed

lemma to_hex_set: "set (to_hex n) \<subseteq> hex_lower ` {..<16}"
proof (induction n rule: to_hex.induct)
  case (1 n)
  then show ?case by (subst to_hex.simps) auto
qed

lemma to_hex_chars: "c \<in> set (to_hex n) \<Longrightarrow> c \<in> set hex_chars"
  using to_hex_set [of n] hex_lower_cases(1) by auto

lemma to_hex_no_x: "CHR ''x'' \<notin> set (to_hex n)" "CHR ''X'' \<notin> set (to_hex n)"
  using to_hex_set [of n] hex_lower_cases(3,4) by fastforce+

lemma to_hex_Cons: "\<exists>c cs. to_hex n = c # cs \<and> (\<exists>k < 16. c = hex_lower k)"
proof -
  have "to_hex n \<noteq> []" by (subst to_hex.simps) simp
  then obtain c cs where "to_hex n = c # cs" by (cases "to_hex n") auto
  with to_hex_set [of n] show ?thesis by auto
qed

lemma scan_x_to_hex:
  assumes "n < 2 ^ 32" and "rest = [] \<or> hd rest \<in> {CHR ''.'', CHR '':''}"
  shows "scan_x (to_hex n @ rest) = Some (word_of_nat n, rest)"
proof -
  obtain c cs k where c: "to_hex n = c # cs" "c = hex_lower k" "k < 16"
    using to_hex_Cons by blast
  have x: "take 2 (to_hex n @ rest) \<noteq> ''0x'' \<and> take 2 (to_hex n @ rest) \<noteq> ''0X''"
  proof (cases cs)
    case Nil
    with c assms(2) show ?thesis by (cases rest) auto
  next
    case (Cons d ds)
    with c to_hex_no_x [of n] show ?thesis by auto
  qed
  have nh: "\<not> hd rest \<in> set hex_chars" if "rest \<noteq> []"
    using assms(2) that by (auto simp: hex_chars_def)
  have tw: "takeWhile (\<lambda>c. c \<in> set hex_chars) (to_hex n @ rest) = to_hex n"
    using nh to_hex_chars [of _ n] by (cases rest) (auto simp: takeWhile_append)
  have dw: "dropWhile (\<lambda>c. c \<in> set hex_chars) (to_hex n @ rest) = rest"
    using nh to_hex_chars [of _ n] by (cases rest) (auto simp: dropWhile_append)
  have ws: "dropWhile (\<lambda>c. c \<in> set [CHR '' '', CHR 0x09, CHR 0x0A, CHR 0x0B, CHR 0x0C, CHR 0x0D])
      (to_hex n @ rest) = to_hex n @ rest"
    using c hex_lower_cases(7) [of k] by auto
  have sgn: "take 1 (to_hex n @ rest) \<noteq> ''-''" "take 1 (to_hex n @ rest) \<noteq> ''+''"
    using c hex_lower_cases(5,6) [of k] by auto
  have "min (2 ^ 32 - 1) n = n" using assms(1) by simp
  moreover have "to_hex n \<noteq> []" using c by simp
  ultimately show ?thesis
    using x sgn unfolding scan_x_def Let_def ws by (simp add: tw dw)
qed

lemma to_hex_not_empty [simp]: "to_hex n \<noteq> []"
  using to_hex_Cons [of n] by auto

lemma ip_pair:
  fixes a b :: u32
  assumes "unat a < 2 ^ 12" and "unat b < 2 ^ 12"
  defines "m \<equiv> (ucast (push_bit 4 a) :: u8) OR ucast (drop_bit 8 b AND 0x0F)"
  shows "push_bit 4 (ucast (ucast (drop_bit 4 a) :: u8) :: u32) OR ucast (drop_bit 4 m) = a"
    and "push_bit 8 (ucast (m AND 0x0F) :: u32) OR ucast (ucast (b AND 0xFF) :: u8) = b"
proof -
  have bits: "bit x n \<Longrightarrow> n < 12" if "unat x < 2 ^ 12" for x :: u32 and n
  proof -
    have "take_bit 12 x = x"
      using that by (simp add: word_eq_iff_unsigned [where ?'a = nat] take_bit_eq_mod unat_mod_distrib)
    then show "bit x n \<Longrightarrow> n < 12" by (metis bit_take_bit_iff)
  qed
  have k: "(0x0F :: u32) = mask 4" "(0x0F :: u8) = mask 4" "(0xFF :: u32) = mask 8"
    by (simp_all add: mask_eq_exp_minus_1)
  show "push_bit 4 (ucast (ucast (drop_bit 4 a) :: u8) :: u32) OR ucast (drop_bit 4 m) = a"
    unfolding m_def k
    by (rule bit_word_eqI) (auto simp: bit_simps not_le less_diff_conv2 dest: bits [OF assms(1)])
  show "push_bit 8 (ucast (m AND 0x0F) :: u32) OR ucast (ucast (b AND 0xFF) :: u8) = b"
    unfolding m_def k
    by (rule bit_word_eqI) (auto simp: bit_simps not_le less_diff_conv2 dest: bits [OF assms(2)])
qed


lemma port_bytes:
  fixes p :: u32
  assumes "unat p < 2 ^ 24"
  shows "push_bit 8 (push_bit 8 (ucast (ucast (0xFF AND drop_bit 16 p) :: u8) :: u32) OR
      ucast (ucast (0xFF AND drop_bit 8 p) :: u8)) OR ucast (ucast (0xFF AND p) :: u8) = p"
proof -
  have t: "take_bit 24 p = p"
    using assms by (simp add: word_eq_iff_unsigned [where ?'a = nat] take_bit_eq_mod unat_mod_distrib)
  have bits: "bit p n \<Longrightarrow> n < 24" for n by (metis t bit_take_bit_iff)
  have k: "(0xFF :: u32) = mask 8" by (simp add: mask_eq_exp_minus_1)
  show ?thesis
    unfolding k
    by (rule bit_word_eqI, rename_tac n, case_tac "n < 8"; case_tac "n < 16")
      (auto simp: bit_simps not_le less_diff_conv2 dest: bits)
qed

definition ip_text :: "nat \<Rightarrow> nat \<Rightarrow> nat \<Rightarrow> nat \<Rightarrow> nat \<Rightarrow> string" where
  "ip_text a b c d p = to_hex a @ ''.'' @ to_hex b @ ''.'' @ to_hex c @ ''.'' @ to_hex d @ '':'' @ to_hex p"

lemma ipstring2hex_text:
  assumes "a < 2 ^ 12" "b < 2 ^ 12" "c < 2 ^ 12" "d < 2 ^ 12" "p < 2 ^ 24"
  shows "ipstring2hex (ip_text a b c d p) out =
    memcpy_at 0 (ip_pack (word_of_nat a) (word_of_nat b) (word_of_nat c) (word_of_nat d) (word_of_nat p)) out"
  using assms scan_x_to_hex [of p "[]"]
  by (simp add: ipstring2hex_def ip_text_def scan_x_to_hex scan_lit_def)

lemma length_ip_pack [simp]: "length (ip_pack a b c d p) = 20"
  by (simp add: ip_pack_def)

text \<open>The copy always takes twenty bytes: into a shorter object it runs past its end.\<close>

lemma ipstring2hex_short: "length out < 20 \<Longrightarrow> ipstring2hex str out = None"
  by (auto simp: ipstring2hex_def memcpy_at_def split: bind_splits)

lemma hex2ipstring_Cons:
  "hex2ipstring (t0 # t1 # t2 # t3 # t4 # t5 # t6 # t7 # t8 # t9 # rest) =
     Some (to_hex (unat (push_bit 4 (ucast t1 :: u32) OR ucast (drop_bit 4 t2))) @ ''.''
       @ to_hex (unat (push_bit 8 (ucast (t2 AND 0x0F) :: u32) OR ucast t3)) @ ''.''
       @ to_hex (unat (push_bit 4 (ucast t4 :: u32) OR ucast (drop_bit 4 t5))) @ ''.''
       @ to_hex (unat (push_bit 8 (ucast (t5 AND 0x0F) :: u32) OR ucast t6)) @ '':''
       @ to_hex (unat (push_bit 8 (push_bit 8 (ucast t7 :: u32) OR ucast t8) OR ucast t9)))"
  by (simp add: hex2ipstring_def rd_def)

lemma hex2ipstring_pack:
  assumes "a < 2 ^ 12" "b < 2 ^ 12" "c < 2 ^ 12" "d < 2 ^ 12" "p < 2 ^ 24"
  shows "hex2ipstring (ip_pack (word_of_nat a) (word_of_nat b) (word_of_nat c) (word_of_nat d)
      (word_of_nat p) @ rest) = Some (ip_text a b c d p)"
proof -
  have u: "unat (word_of_nat n :: u32) = n" if "n < 2 ^ 24" for n
    using that by (simp add: unat_of_nat)
  have lt: "a < 2 ^ 24" "b < 2 ^ 24" "c < 2 ^ 24" "d < 2 ^ 24" using assms by simp_all
  have pr: "push_bit 4 (ucast (ucast (drop_bit 4 (word_of_nat x :: u32)) :: u8) :: u32) OR
        ucast (drop_bit 4 ((ucast (push_bit 4 (word_of_nat x :: u32)) :: u8) OR
          ucast (drop_bit 8 (word_of_nat y :: u32) AND 0x0F))) = word_of_nat x"
      "push_bit 8 (ucast (((ucast (push_bit 4 (word_of_nat x :: u32)) :: u8) OR
          ucast (drop_bit 8 (word_of_nat y :: u32) AND 0x0F)) AND 0x0F) :: u32) OR
        ucast (ucast ((word_of_nat y :: u32) AND 0xFF) :: u8) = word_of_nat y"
    if "x < 2 ^ 12" "y < 2 ^ 12" for x y
  proof -
    have lx: "unat (word_of_nat x :: u32) < 2 ^ 12" and ly: "unat (word_of_nat y :: u32) < 2 ^ 12"
      using that u [of x] u [of y] by simp_all
    show "push_bit 4 (ucast (ucast (drop_bit 4 (word_of_nat x :: u32)) :: u8) :: u32) OR
        ucast (drop_bit 4 ((ucast (push_bit 4 (word_of_nat x :: u32)) :: u8) OR
          ucast (drop_bit 8 (word_of_nat y :: u32) AND 0x0F))) = word_of_nat x"
      and "push_bit 8 (ucast (((ucast (push_bit 4 (word_of_nat x :: u32)) :: u8) OR
          ucast (drop_bit 8 (word_of_nat y :: u32) AND 0x0F)) AND 0x0F) :: u32) OR
        ucast (ucast ((word_of_nat y :: u32) AND 0xFF) :: u8) = word_of_nat y"
      by (rule ip_pair [OF lx ly])+
  qed
  have po: "push_bit 8 (push_bit 8 (ucast (ucast (0xFF AND drop_bit 16 (word_of_nat p :: u32)) :: u8) :: u32) OR
      ucast (ucast (0xFF AND drop_bit 8 (word_of_nat p :: u32)) :: u8)) OR
      ucast (ucast (0xFF AND (word_of_nat p :: u32)) :: u8) = word_of_nat p"
    using port_bytes [of "word_of_nat p"] assms(5) by (simp only: u)
  show ?thesis
    unfolding ip_pack_def append_Cons hex2ipstring_Cons ip_text_def
    by (simp only: pr [OF assms(1,2)] pr [OF assms(3,4)] po u lt assms(5))
qed

text \<open>Setting an address from its text and showing it again gives the text back.\<close>

lemma ipstring_roundtrip:
  assumes "a < 2 ^ 12" "b < 2 ^ 12" "c < 2 ^ 12" "d < 2 ^ 12" "p < 2 ^ 24" and "20 \<le> length out"
  shows "\<exists>h. ipstring2hex (ip_text a b c d p) out = Some h \<and> hex2ipstring h = Some (ip_text a b c d p)"
  using hex2ipstring_pack [OF assms(1-5), of "drop 20 out"] assms
  by (simp add: ipstring2hex_text memcpy_at_def)

section \<open>Directories\<close>

text \<open>The file system is the set of the directories that exist; whether a \<^verbatim>\<open>mkdir\<close> call
  succeeds is the parameter \<open>ok\<close>. \<open>mk_all_loop\<close> is the loop of \<^verbatim>\<open>mk_all_dir\<close>, with
  \<open>p\<close> the distance from \<^verbatim>\<open>dir\<close> to \<^verbatim>\<open>pDir\<close>; a prefix of 512 characters or more does not fit
  the zero-terminated \<^verbatim>\<open>buffer\<close>.\<close>

definition mk_dir :: "(string \<Rightarrow> bool) \<Rightarrow> string \<Rightarrow> string set \<Rightarrow> int \<times> string set" where
  "mk_dir ok dir fs =
     (if dir \<in> fs then (0, fs) else if ok dir then (1, insert dir fs) else (-1, fs))"

function mk_all_loop ::
    "(string \<Rightarrow> bool) \<Rightarrow> string \<Rightarrow> nat \<Rightarrow> string set \<Rightarrow> int \<Rightarrow> (int \<times> string set) option" where
  "mk_all_loop ok dir p fs mkcount =
     (case str_find dir ''/'' p of
        Some q \<Rightarrow>
          if q \<noteq> 0 then
            if q \<ge> 512 then None
            else (let (ret, fs') = mk_dir ok (take q dir) fs
                  in if ret < 0 then Some (-1, fs')
                     else mk_all_loop ok dir (Suc q) fs' (if ret > 0 then mkcount + 1 else mkcount))
          else mk_all_loop ok dir (Suc q) fs mkcount
      | None \<Rightarrow>
          if p = 0 then Some (-1, fs)
          else (let (ret, fs') = mk_dir ok dir fs
                in Some (if ret > 0 then mkcount + 1 else mkcount, fs')))"
  by auto
termination
  by (relation "measure (\<lambda>(ok, dir, p, fs, n). Suc (length dir) - p)")
    (auto dest!: str_find_bound)

declare mk_all_loop.simps [simp del]

definition mk_all_dir :: "(string \<Rightarrow> bool) \<Rightarrow> string \<Rightarrow> string set \<Rightarrow> (int \<times> string set) option" where
  "mk_all_dir ok dir fs = mk_all_loop ok dir 0 fs 0"

lemma str_find_slash:
  "str_find s [c] i = r \<Longrightarrow>
     (case r of
        None \<Rightarrow> (\<forall>j. i \<le> j \<and> j < length s \<longrightarrow> s ! j \<noteq> c)
      | Some q \<Rightarrow> i \<le> q \<and> q < length s \<and> s ! q = c \<and> (\<forall>j. i \<le> j \<and> j < q \<longrightarrow> s ! j \<noteq> c))"
proof (induction s "[c]" i arbitrary: r rule: str_find.induct)
  case (1 s i)
  consider "i + 1 > length s" | "i < length s" "s ! i = c" | "i < length s" "s ! i \<noteq> c"
    by linarith
  then show ?case
  proof cases
    case 1
    with "1.prems" show ?thesis by (subst (asm) str_find.simps) auto
  next
    case 2
    then have "take 1 (drop i s) = [c]" by (simp add: take_Suc_conv_app_nth hd_drop_conv_nth take_Suc)
    with 2 "1.prems" show ?thesis by (subst (asm) str_find.simps) auto
  next
    case 3
    then have t: "take (length [c]) (drop i s) \<noteq> [c]"
      by (simp add: hd_drop_conv_nth take_Suc)
    with 3 "1.prems" have "str_find s [c] (Suc i) = r"
      by (subst (asm) str_find.simps) auto
    with "1.hyps" [of r] t 3(1)
    have "case r of
        None \<Rightarrow> (\<forall>j. Suc i \<le> j \<and> j < length s \<longrightarrow> s ! j \<noteq> c)
      | Some q \<Rightarrow> Suc i \<le> q \<and> q < length s \<and> s ! q = c \<and> (\<forall>j. Suc i \<le> j \<and> j < q \<longrightarrow> s ! j \<noteq> c)"
      by simp
    with 3(2) show ?thesis by (auto split: option.splits) (metis Suc_leI le_neq_implies_less)+
  qed
qed

lemma mk_dir_ok:
  assumes "mk_dir (\<lambda>_. True) d fs = (ret, fs')" and "finite fs"
  shows "d \<in> fs'" "fs \<subseteq> fs'" "finite fs'" "\<not> ret < 0"
    "(if ret > 0 then 1 else 0) = int (card fs') - int (card fs)"
  using assms by (auto simp: mk_dir_def split: if_splits)

lemma mk_all_loop_ok:
  assumes "length dir \<le> 512" and "p \<le> length dir" and "finite fs"
    and "p > 0 \<or> CHR ''/'' \<in> set dir"
  shows "\<exists>cnt fs'. mk_all_loop (\<lambda>_. True) dir p fs n = Some (cnt, fs') \<and> finite fs' \<and> fs \<subseteq> fs' \<and>
    dir \<in> fs' \<and> (\<forall>q. p \<le> q \<and> 0 < q \<and> q < length dir \<and> dir ! q = CHR ''/'' \<longrightarrow> take q dir \<in> fs') \<and>
    cnt = n + int (card fs') - int (card fs)"
  using assms
proof (induction "\<lambda>_ :: string. True" dir p fs n rule: mk_all_loop.induct)
  case (1 dir p fs n)
  show ?case
  proof (cases "str_find dir ''/'' p")
    case None
    then have nb: "\<forall>j. p \<le> j \<and> j < length dir \<longrightarrow> dir ! j \<noteq> CHR ''/''"
      using str_find_slash [OF None] by simp
    with "1.prems" have p: "p \<noteq> 0" by (auto simp: in_set_conv_nth)
    obtain ret fs' where d: "mk_dir (\<lambda>_. True) dir fs = (ret, fs')" by fastforce
    show ?thesis
      using mk_dir_ok [OF d "1.prems"(3)] nb p None d
      by (subst mk_all_loop.simps) auto
  next
    case (Some q)
    have q: "p \<le> q" "q < length dir" "dir ! q = CHR ''/''"
      "\<forall>j. p \<le> j \<and> j < q \<longrightarrow> dir ! j \<noteq> CHR ''/''"
      using str_find_slash [OF Some] by auto
    show ?thesis
    proof (cases "q = 0")
      case True
      have "mk_all_loop (\<lambda>_. True) dir p fs n = mk_all_loop (\<lambda>_. True) dir (Suc q) fs n"
        using Some True by (subst mk_all_loop.simps) simp
      with "1.hyps"(2) [OF Some] True "1.prems" q show ?thesis
        by (fastforce simp: Suc_le_eq)
    next
      case False
      obtain ret fs1 where d: "mk_dir (\<lambda>_. True) (take q dir) fs = (ret, fs1)" by fastforce
      note f = mk_dir_ok [OF d "1.prems"(3)]
      let ?n = "if ret > 0 then n + 1 else n"
      have e: "mk_all_loop (\<lambda>_. True) dir p fs n = mk_all_loop (\<lambda>_. True) dir (Suc q) fs1 ?n"
        using Some False q(2) "1.prems"(1) f(4) by (subst mk_all_loop.simps) (simp add: d)
      obtain cnt fs' where r: "mk_all_loop (\<lambda>_. True) dir (Suc q) fs1 ?n = Some (cnt, fs')"
        "finite fs'" "fs1 \<subseteq> fs'" "dir \<in> fs'"
        "\<forall>j. Suc q \<le> j \<and> 0 < j \<and> j < length dir \<and> dir ! j = CHR ''/'' \<longrightarrow> take j dir \<in> fs'"
        "cnt = ?n + int (card fs') - int (card fs1)"
        using "1.hyps"(1) [OF Some False _ d [symmetric] refl] "1.prems" q f by auto
      have "take j dir \<in> fs'" if "p \<le> j" "0 < j" "j < length dir" "dir ! j = CHR ''/''" for j
      proof (cases "j = q")
        case True
        with f(1) r(3) show ?thesis by auto
      next
        case False
        with that q(4) r(5) show ?thesis by (metis Suc_leI linorder_neqE_nat)
      qed
      with e r f show ?thesis by (auto split: if_splits)
    qed
  qed
qed

lemma mk_all_dir_creates:
  assumes "length dir \<le> 512" and "CHR ''/'' \<in> set dir" and "finite fs"
  shows "\<exists>cnt fs'. mk_all_dir (\<lambda>_. True) dir fs = Some (cnt, fs') \<and> fs \<subseteq> fs' \<and> dir \<in> fs' \<and>
    (\<forall>q. 0 < q \<and> q < length dir \<and> dir ! q = CHR ''/'' \<longrightarrow> take q dir \<in> fs') \<and>
    cnt = int (card fs') - int (card fs)"
  using mk_all_loop_ok [of dir 0 fs 0] assms by (auto simp: mk_all_dir_def)

lemma mk_all_dir_no_slash: "CHR ''/'' \<notin> set dir \<Longrightarrow> mk_all_dir ok dir fs = Some (-1, fs)"
proof -
  assume "CHR ''/'' \<notin> set dir"
  then have "str_find dir ''/'' 0 = None"
    using str_find_slash [where s = dir and c = "CHR ''/''" and i = 0, OF refl] by (auto split: option.splits dest: nth_mem)
  then show ?thesis by (simp add: mk_all_dir_def mk_all_loop.simps)
qed

end
