(* ===== verification/DataItem.thy ===== *)
theory DataItem
  imports Lib_Text
begin

text \<open>
  One data item of \<^verbatim>\<open>data/DataClass.hpp\<close> (lines 21 to 466): its configuration, its value in
  one of the eight formats, and the report codec of the centre protocol, \<^verbatim>\<open>toreport\<close> and
  \<^verbatim>\<open>fromreport\<close>. A heap buffer of the item is \<open>Some\<close> of its bytes, a null pointer
  \<open>None\<close>. A function that fills an output pointer returns the bytes it writes from there on and
  its C result; an access outside an object makes the whole result \<open>None\<close>. The comment of a
  configuration is only printed and is left out.
\<close>

section \<open>Data\<close>

datatype DataFormat = DF_BCD | DF_HEXNum | DF_HEX | DF_CHAR | DF_STRING | DF_JPG
  | DF_StringVector | DF_HHmm

datatype DataClassConfigType = Type_Dev | Type_Param | Type_Runtime | Type_Personalset | Type_AppData

record DataClassItemConfig =
  cfg_id :: u16
  cfg_name :: string
  cfg_len :: int
  cfg_fl :: int
  cfg_format :: DataFormat

record DataClassItem =
  config :: DataClassItemConfig
  it_val :: l64
  it_hex :: "bytes option"
  it_chars :: "bytes option"
  it_str :: string
  it_list :: "string list"
  it_HH :: u8
  it_mm :: u8

definition DATA_INVALID_VALUE :: l64 where
  "DATA_INVALID_VALUE = 0x7FFFFFFFFFFFFFFF"

definition DEVICE_DATA_VALUE_NULL :: l64 where
  "DEVICE_DATA_VALUE_NULL = 0x7AAAAAAAAAAAAAAA"

abbreviation it_id :: "DataClassItem \<Rightarrow> u16" where
  "it_id it \<equiv> cfg_id (config it)"

abbreviation it_format :: "DataClassItem \<Rightarrow> DataFormat" where
  "it_format it \<equiv> cfg_format (config it)"

section \<open>Lengths and the unset value\<close>

definition it_len :: "DataClassItem \<Rightarrow> int" where
  "it_len it = (cfg_len (config it) + 1) sdiv 2"

definition reportlen :: "DataClassItem \<Rightarrow> u8" where
  "reportlen it = word_of_int (push_bit 3 (it_len it) OR cfg_fl (config it))"

definition negreportlen :: "DataClassItem \<Rightarrow> u8" where
  "negreportlen it = word_of_int (push_bit 3 (it_len it + 1) OR cfg_fl (config it))"

definition it_Value :: "DataClassItem \<Rightarrow> l64" where
  "it_Value it = (if it_val it = DATA_INVALID_VALUE then 0 else it_val it)"

text \<open>\<open>fill n v buf\<close> is \<^verbatim>\<open>memset(buf, v, n)\<close>.\<close>

definition fill :: "int \<Rightarrow> u8 \<Rightarrow> bytes \<Rightarrow> bytes option" where
  "fill n v buf = memcpy_at 0 (replicate (nat n) v) buf"

definition it_clear :: "DataClassItem \<Rightarrow> DataClassItem option" where
  "it_clear it =
     (if it_len it = 0 then Some it
      else case it_format it of
        DF_HHmm \<Rightarrow> Some (it\<lparr>it_HH := 0xFF, it_mm := 0xFF\<rparr>)
      | DF_HEXNum \<Rightarrow> Some (it\<lparr>it_val := DATA_INVALID_VALUE\<rparr>)
      | DF_BCD \<Rightarrow> Some (it\<lparr>it_val := DATA_INVALID_VALUE\<rparr>)
      | DF_HEX \<Rightarrow> do {
          h \<leftarrow> it_hex it;
          h' \<leftarrow> fill (it_len it) 0xFF h;
          Some (it\<lparr>it_hex := Some h'\<rparr>) }
      | DF_CHAR \<Rightarrow> do {
          c \<leftarrow> it_chars it;
          c' \<leftarrow> fill (it_len it) 0 c;
          Some (it\<lparr>it_chars := Some c'\<rparr>) }
      | _ \<Rightarrow> Some (it\<lparr>it_list := []\<rparr>))"

definition it_isZero :: "DataClassItem \<Rightarrow> bool option" where
  "it_isZero it =
     (if it_len it = 0 then Some True
      else case it_format it of
        DF_HHmm \<Rightarrow> Some (it_HH it = 0xFF \<and> it_mm it = 0xFF)
      | DF_HEXNum \<Rightarrow> Some (it_val it = DATA_INVALID_VALUE)
      | DF_BCD \<Rightarrow> Some (it_val it = DATA_INVALID_VALUE)
      | DF_HEX \<Rightarrow> do { h \<leftarrow> it_hex it; is_zero_buf h (it_len it) }
      | DF_STRING \<Rightarrow> Some (it_str it = [])
      | DF_StringVector \<Rightarrow> Some (it_list it = [])
      | _ \<Rightarrow> do { c \<leftarrow> it_chars it; b \<leftarrow> rd c 0; Some (b = 0) })"

text \<open>The loop of the \<^verbatim>\<open>DF_HEX\<close> case of \<^verbatim>\<open>isValue0\<close>.\<close>

fun all_null_loop :: "bytes \<Rightarrow> nat \<Rightarrow> nat \<Rightarrow> bool option" where
  "all_null_loop d i 0 = Some True"
| "all_null_loop d i (Suc k) = do {
     b \<leftarrow> rd d i;
     if b \<noteq> 0 then Some False else all_null_loop d (Suc i) k }"

definition it_isValue0 :: "DataClassItem \<Rightarrow> bool option" where
  "it_isValue0 it =
     (if it_len it = 0 then Some True
      else case it_format it of
        DF_HHmm \<Rightarrow> Some (it_HH it = 0 \<and> it_mm it = 0)
      | DF_HEXNum \<Rightarrow> Some (it_val it = 0)
      | DF_BCD \<Rightarrow> Some (it_val it = 0)
      | DF_HEX \<Rightarrow> do { h \<leftarrow> it_hex it; all_null_loop h 0 (nat (it_len it)) }
      | _ \<Rightarrow> do { c \<leftarrow> it_chars it; b \<leftarrow> rd c 0; Some (b = 0) })"

section \<open>Writing a report\<close>

text \<open>\<open>bcd_out n v\<close> are the \<open>n\<close> bytes that the loop of the \<^verbatim>\<open>DF_BCD\<close> case stores, the
  last byte first.\<close>

fun bcd_out :: "nat \<Rightarrow> nat \<Rightarrow> bytes" where
  "bcd_out 0 vv = []"
| "bcd_out (Suc n) vv =
     (let a = vv mod 100
      in bcd_out n (vv div 100) @ [word_of_nat ((a mod 10) OR push_bit 4 (a div 10))])"

definition put_text :: "string \<Rightarrow> int \<Rightarrow> bytes \<times> int" where
  "put_text t len =
     (let s = (if int (length t) > len then len else int (length t))
      in (take (nat s) (bytes_of t) @ replicate (nat (len - s)) 0, s))"

text \<open>Negating the least \<^verbatim>\<open>long\<close> overflows, which C leaves undefined.\<close>

definition to_report :: "DataClassItem \<Rightarrow> (bytes \<times> int) option" where
  "to_report it =
     (case it_format it of
        DF_BCD \<Rightarrow>
          (let v = sint (it_val it)
           in if v = - (2 ^ 63) then None
              else Some (bcd_out (nat (it_len it)) (nat \<bar>v\<bar>), it_len it))
      | DF_HEXNum \<Rightarrow> do {
          w \<leftarrow> rd_range (le_bytes 8 (unat (it_val it))) 0 (nat (it_len it));
          w' \<leftarrow> inverse_buf w (it_len it);
          Some (w', it_len it) }
      | DF_HEX \<Rightarrow> do {
          h \<leftarrow> it_hex it;
          w \<leftarrow> rd_range h 0 (nat (it_len it));
          Some (w, it_len it) }
      | DF_CHAR \<Rightarrow> do {
          c \<leftarrow> it_chars it;
          w \<leftarrow> rd_range c 0 (nat (it_len it));
          Some (w, it_len it) }
      | DF_STRING \<Rightarrow> Some (put_text (it_str it) (it_len it))
      | DF_StringVector \<Rightarrow> Some (put_text (list_merge (it_list it) '' '') (it_len it))
      | DF_HHmm \<Rightarrow> do {
          h \<leftarrow> hex2bcd [it_HH it] 1;
          m \<leftarrow> hex2bcd [it_mm it] 1;
          Some ([ucast h, ucast m], it_len it) }
      | DF_JPG \<Rightarrow> Some ([], 0))"

definition toreport :: "DataClassItem \<Rightarrow> (bytes \<times> int) option" where
  "toreport it =
     (if cfg_len (config it) \<le> 0 then Some ([], 0)
      else
        let pre = (if it_id it > 0xFF00 then [0xFF] else []);
            idb = ucast (it_id it);
            sz = int (length pre) + it_len it + 2
        in do {
          zero \<leftarrow> it_isZero it;
          if zero
          then Some (pre @ [idb, reportlen it] @ replicate (nat (it_len it)) 0xFF, sz)
          else case it_format it of
            DF_BCD \<Rightarrow>
              if sint (it_val it) < 0
              then do {
                (w, r) \<leftarrow> to_report it;
                Some (pre @ [idb, negreportlen it, 0xFF] @ w, sz + 1) }
              else do {
                (w, r) \<leftarrow> to_report it;
                Some (pre @ [idb, reportlen it] @ w, sz) }
          | DF_STRING \<Rightarrow> do { (w, r) \<leftarrow> to_report it; Some (pre @ [idb, reportlen it] @ w, r) }
          | DF_StringVector \<Rightarrow> do { (w, r) \<leftarrow> to_report it; Some (pre @ [idb, reportlen it] @ w, r) }
          | DF_JPG \<Rightarrow> Some (pre @ [idb, reportlen it], sz)
          | _ \<Rightarrow> do { (w, r) \<leftarrow> to_report it; Some (pre @ [idb, reportlen it] @ w, sz) } })"

text \<open>The overload that returns text: the report in a zeroed buffer of 1024 bytes, as
  hexadecimal digits in a zeroed buffer of 2048.\<close>

definition toreport_text :: "DataClassItem \<Rightarrow> string option" where
  "toreport_text it = do {
     (w, n) \<leftarrow> toreport it;
     buf \<leftarrow> memcpy_at 0 w (replicate 1024 0);
     (str, r) \<leftarrow> hexarray2str buf n (replicate 2048 0) 0 2048;
     Some (c_str str) }"

section \<open>Reading a report\<close>

definition hexnum_load :: "l64 \<Rightarrow> bytes \<Rightarrow> int \<Rightarrow> l64 option" where
  "hexnum_load old src n = do {
     w \<leftarrow> memcpy_at 0 src (le_bytes 8 (unat old));
     w' \<leftarrow> inverse_buf w n;
     Some (word_of_nat (le_val w')) }"

text \<open>\<open>copy_to p src\<close> is \<^verbatim>\<open>memcpy(p, src, n)\<close>; a copy of no bytes to a null pointer does
  nothing.\<close>

definition copy_to :: "bytes option \<Rightarrow> bytes \<Rightarrow> bytes option option" where
  "copy_to p src =
     (if src = [] then Some p
      else do { h \<leftarrow> p; h' \<leftarrow> memcpy_at 0 src h; Some (Some h') })"

text \<open>\<open>load_item\<close> is the switch, on the bytes behind the optional \<^verbatim>\<open>0xFF\<close>; \<open>jump\<close> is the
  length the report states and \<open>clamped\<close> that length cut to the length of the item.\<close>

definition load_item :: "DataClassItem \<Rightarrow> bytes \<Rightarrow> int \<Rightarrow> int \<Rightarrow> (DataClassItem \<times> int) option" where
  "load_item it rb jump clamped =
     (case it_format it of
         DF_BCD \<Rightarrow>
           if jump > it_len it
           then do {
             s \<leftarrow> rd rb 2;
             v \<leftarrow> (if s = 0xFF then bigbcd2hex (drop 3 rb) (jump - 1)
                   else bigbcd2hex (drop 2 rb) (it_len it));
             Some (it\<lparr>it_val := v\<rparr>, jump) }
           else do {
             v \<leftarrow> bigbcd2hex (drop 2 rb) jump;
             Some (it\<lparr>it_val := v\<rparr>, jump) }
       | DF_HEXNum \<Rightarrow> do {
           src \<leftarrow> rd_range rb 2 (nat clamped);
           v \<leftarrow> hexnum_load (it_val it) src clamped;
           Some (it\<lparr>it_val := v\<rparr>, jump) }
       | DF_HEX \<Rightarrow> do {
           src \<leftarrow> rd_range rb 2 (nat clamped);
           h' \<leftarrow> copy_to (it_hex it) src;
           Some (it\<lparr>it_hex := h'\<rparr>, jump) }
       | DF_CHAR \<Rightarrow> do {
           src \<leftarrow> rd_range rb 2 (nat clamped);
           c \<leftarrow> it_chars it;
           c1 \<leftarrow> memcpy_at 0 src c;
           c2 \<leftarrow> wr c1 (nat clamped) 0;
           Some (it\<lparr>it_chars := Some c2\<rparr>, jump) }
       | DF_STRING \<Rightarrow>
           if it_len it = 0 then Some (it, jump)
           else do {
             src \<leftarrow> rd_range rb 2 (nat clamped);
             Some (it\<lparr>it_str := c_str src\<rparr>, jump) }
       | DF_HHmm \<Rightarrow> do {
           h \<leftarrow> rd rb 2;
           m \<leftarrow> rd rb 3;
           Some (it\<lparr>it_HH := h, it_mm := m\<rparr>, jump) }
       | DF_StringVector \<Rightarrow>
           if it_len it = 0 then Some (it, jump)
           else do {
             src \<leftarrow> rd_range rb 2 (nat clamped);
             l \<leftarrow> split_str (c_str src) '' '';
             Some (it\<lparr>it_list := l\<rparr>, jump) }
       | DF_JPG \<Rightarrow> Some (it, jump))"

definition load_report :: "DataClassItem \<Rightarrow> bytes \<Rightarrow> (DataClassItem \<times> int) option" where
  "load_report it rb = do {
     b1 \<leftarrow> rd rb 1;
     let jump = int (unat (drop_bit 3 b1));
     load_item it rb jump (if it_len it < jump then it_len it else jump) }"

definition fromreport :: "DataClassItem \<Rightarrow> bytes \<Rightarrow> (DataClassItem \<times> int) option" where
  "fromreport it bs = do {
     b0 \<leftarrow> rd bs 0;
     load_report it (if b0 = 0xFF then drop 1 bs else bs) }"

text \<open>The overload that reads text.\<close>

definition fromreport_text :: "DataClassItem \<Rightarrow> string \<Rightarrow> (DataClassItem \<times> int) option" where
  "fromreport_text it s = do {
     (buf, r) \<leftarrow> str2hexarray (bytes_of s) (int (length s)) (replicate 1024 0) 1024;
     fromreport it buf }"

section \<open>The length byte\<close>

text \<open>A configuration the length byte can carry: at most 31 bytes, a scale below 8, and an
  identifier that fits the one byte (or the byte after \<^verbatim>\<open>0xFF\<close>) the report gives it.\<close>

definition cfg_ok :: "DataClassItemConfig \<Rightarrow> bool" where
  "cfg_ok c \<longleftrightarrow> 0 < cfg_len c \<and> cfg_len c \<le> 62 \<and> 0 \<le> cfg_fl c \<and> cfg_fl c < 8 \<and>
     (cfg_id c < 0xFF \<or> 0xFF00 < cfg_id c)"

lemma cfg_ok_len:
  assumes "cfg_ok (config it)"
  shows "0 < it_len it" "it_len it \<le> 31" "it_len it \<noteq> 0"
proof -
  have "it_len it = (cfg_len (config it) + 1) div 2"
    using assms by (simp add: it_len_def cfg_ok_def)
  with assms show "0 < it_len it" "it_len it \<le> 31" "it_len it \<noteq> 0"
    by (auto simp: cfg_ok_def)
qed

lemma int_push_or:
  assumes "0 \<le> f" and "f < (8 :: int)"
  shows "push_bit 3 l OR f = 8 * l + f"
proof -
  have low: "bit f k \<Longrightarrow> k < 3" for k
  proof -
    have "take_bit 3 f = f" using assms by (simp add: take_bit_int_eq_self)
    then show "bit f k \<Longrightarrow> k < 3" by (metis bit_take_bit_iff)
  qed
  then have "push_bit 3 l AND f = 0"
    by (intro bit_eqI) (auto simp: bit_simps dest: low)
  then have "push_bit 3 l + f = push_bit 3 l OR f" by (rule disjunctive_add_eq_or)
  then show ?thesis by (simp add: push_bit_eq_mult)
qed

lemma length_byte:
  assumes "0 \<le> l" "l \<le> 31" "0 \<le> f" "f < 8"
  shows "unat (drop_bit 3 (word_of_int (push_bit 3 l OR f) :: u8)) = nat l"
proof -
  have "unat (word_of_int (8 * l + f) :: u8) = nat (8 * l + f)"
    using assms by (simp add: unsigned_of_int take_bit_int_eq_self del: of_int_add of_int_mult)
  moreover have "nat (8 * l + f) div 8 = nat l"
    using assms by (simp add: nat_div_distrib [symmetric] zdiv_int [symmetric] nat_eq_iff2)
  ultimately show ?thesis
    using assms by (simp add: int_push_or drop_bit_eq_div unat_div_distrib del: of_int_add of_int_mult)
qed

lemma reportlen_shift:
  "cfg_ok (config it) \<Longrightarrow> int (unat (drop_bit 3 (reportlen it))) = it_len it"
  using cfg_ok_len [of it] by (simp add: reportlen_def length_byte cfg_ok_def)

lemma negreportlen_shift:
  "cfg_ok (config it) \<Longrightarrow> it_len it < 31 \<Longrightarrow>
     int (unat (drop_bit 3 (negreportlen it))) = it_len it + 1"
  using cfg_ok_len [of it] by (simp add: negreportlen_def length_byte cfg_ok_def)

section \<open>What a report holds\<close>

definition rpt_prefix :: "DataClassItem \<Rightarrow> bytes" where
  "rpt_prefix it = (if it_id it > 0xFF00 then [0xFF] else [])"

definition rpt_id :: "DataClassItem \<Rightarrow> u8" where
  "rpt_id it = ucast (it_id it)"

lemma rpt_strip:
  assumes "cfg_ok (config it)"
  shows "rd (rpt_prefix it @ rpt_id it # xs) 0 = Some b0 \<Longrightarrow>
    (if b0 = 0xFF then drop 1 (rpt_prefix it @ rpt_id it # xs) else rpt_prefix it @ rpt_id it # xs)
      = rpt_id it # xs"
proof (cases "it_id it > 0xFF00")
  case True
  then show "rd (rpt_prefix it @ rpt_id it # xs) 0 = Some b0 \<Longrightarrow> ?thesis"
    by (auto simp: rpt_prefix_def rd_def)
next
  case False
  with assms have "it_id it < 0xFF" by (simp add: cfg_ok_def)
  then have lt: "unat (it_id it) < 255" by (simp add: word_less_nat_alt)
  then have "unat (rpt_id it) = unat (it_id it)"
    by (simp add: rpt_id_def unsigned_ucast_eq take_bit_eq_mod)
  with lt have "rpt_id it \<noteq> 0xFF" by (auto simp: word_eq_iff_unsigned [where ?'a = nat])
  with False show "rd (rpt_prefix it @ rpt_id it # xs) 0 = Some b0 \<Longrightarrow> ?thesis"
    by (auto simp: rpt_prefix_def rd_def)
qed

lemma rpt_rd0: "\<exists>b0. rd (rpt_prefix it @ rpt_id it # xs) 0 = Some b0"
  by (simp add: rd_def)

lemma bcd_out_bytes: "bcd_out n v = bcd_bytes n v"
proof (induction n arbitrary: v)
  case 0
  then show ?case by simp
next
  case (Suc n)
  have "(a mod 10) OR push_bit 4 (a div 10) = bcd_val 2 a" if "a < 100" for a :: nat
  proof -
    have "(a mod 10 :: nat) AND push_bit 4 (a div 10) = 0"
    proof (intro bit_eqI)
      fix k
      have "take_bit 4 (a mod 10) = a mod 10"
        by (simp add: take_bit_nat_eq_self less_trans [of _ 10])
      then have "bit (a mod 10) k \<Longrightarrow> k < 4" by (metis bit_take_bit_iff)
      then show "bit ((a mod 10) AND push_bit 4 (a div 10)) k = bit 0 k"
        by (auto simp: bit_simps)
    qed
    then have "(a mod 10) OR push_bit 4 (a div 10) = (a mod 10) + push_bit 4 (a div 10)"
      by (rule disjunctive_add_eq_or [symmetric])
    moreover have "bcd_val 2 a = a mod 10 + 16 * (a div 10)"
      using that by (simp add: numeral_2_eq_2)
    ultimately show ?thesis by (simp add: push_bit_eq_mult)
  qed
  with Suc show ?case by (simp add: Let_def)
qed

text \<open>The report of a BCD item: prefix, identifier, length byte, then the digits, behind
  \<^verbatim>\<open>0xFF\<close> when the value is negative.\<close>

lemma toreport_bcd:
  assumes "cfg_ok (config it)" and "it_format it = DF_BCD"
    and "0 \<le> sint (it_val it)" and "it_val it \<noteq> DATA_INVALID_VALUE"
  defines "w \<equiv> rpt_prefix it @ rpt_id it # reportlen it # bcd_bytes (nat (it_len it)) (unat (it_val it))"
  shows "toreport it = Some (w, int (length w))"
proof -
  have ne: "sint (it_val it) \<noteq> - 9223372036854775808" using assms(3) by auto
  show ?thesis
    using assms(1-4) cfg_ok_len [OF assms(1)] sint_l64_nonneg [OF assms(3)] ne
    by (auto simp: w_def toreport_def cfg_ok_def it_isZero_def to_report_def rpt_prefix_def
      rpt_id_def bcd_out_bytes Let_def)
qed

lemma toreport_bcd_neg:
  assumes "cfg_ok (config it)" and "it_format it = DF_BCD"
    and "- (2 ^ 63) < sint (it_val it)" and "sint (it_val it) < 0"
  defines "w \<equiv> rpt_prefix it @ rpt_id it # negreportlen it # 0xFF #
    bcd_bytes (nat (it_len it)) (nat (- sint (it_val it)))"
  shows "toreport it = Some (w, int (length w))"
proof -
  have "it_val it \<noteq> DATA_INVALID_VALUE"
    using assms(4) by (auto simp: DATA_INVALID_VALUE_def)
  then show ?thesis
    using assms(1-4) cfg_ok_len [OF assms(1)]
    by (auto simp: w_def toreport_def cfg_ok_def it_isZero_def to_report_def rpt_prefix_def
      rpt_id_def bcd_out_bytes Let_def)
qed

lemma fromreport_rpt:
  assumes "cfg_ok (config it)"
  shows "fromreport it' (rpt_prefix it @ rpt_id it # xs) = load_report it' (rpt_id it # xs)"
proof -
  obtain b0 where "rd (rpt_prefix it @ rpt_id it # xs) 0 = Some b0"
    using rpt_rd0 by blast
  with rpt_strip [OF assms this] show ?thesis by (simp add: fromreport_def)
qed

lemma load_bcd:
  assumes "it_format it = DF_BCD" and "int (unat (drop_bit 3 lb)) = it_len it"
  shows "load_report it (i # lb # bcd_bytes (nat (it_len it)) v @ rest) =
    Some (it\<lparr>it_val := word_of_nat (v mod 100 ^ nat (it_len it))\<rparr>, it_len it)"
  using assms
  by (simp add: load_report_def load_item_def rd_def bigbcd2hex_num bcd_num_bytes Let_def)

lemma load_bcd_neg:
  assumes "it_format it = DF_BCD" and "int (unat (drop_bit 3 lb)) = it_len it + 1"
  shows "load_report it (i # lb # 0xFF # bcd_bytes (nat (it_len it)) v @ rest) =
    Some (it\<lparr>it_val := word_of_nat (v mod 100 ^ nat (it_len it))\<rparr>, it_len it + 1)"
  using assms
  by (simp add: load_report_def load_item_def rd_def bigbcd2hex_num bcd_num_bytes Let_def)

text \<open>A non-negative BCD value that fits its length survives the trip, whatever value the item
  held before.\<close>

lemma bcd_roundtrip:
  assumes "cfg_ok (config it)" and "it_format it = DF_BCD"
    and "0 \<le> sint (it_val it)" and "sint (it_val it) < 100 ^ nat (it_len it)"
    and "it_val it \<noteq> DATA_INVALID_VALUE" and "config it' = config it"
  shows "\<exists>w. toreport it = Some (w, int (length w)) \<and>
    fromreport it' (w @ rest) = Some (it'\<lparr>it_val := it_val it\<rparr>, it_len it)"
proof -
  have l: "it_len it' = it_len it" "it_format it' = DF_BCD" using assms by (simp_all add: it_len_def)
  have "int (unat (it_val it)) < int (100 ^ nat (it_len it))"
    using assms(3,4) sint_l64_nonneg by simp
  then have "unat (it_val it) mod 100 ^ nat (it_len it) = unat (it_val it)"
    by (simp only: of_nat_less_iff mod_less)
  then show ?thesis
    using toreport_bcd [OF assms(1,2,3,5)] fromreport_rpt [OF assms(1), of it']
      load_bcd [OF l(2), of "reportlen it" "rpt_id it" "unat (it_val it)" rest]
      reportlen_shift [OF assms(1)] l cfg_ok_len [OF assms(1)]
    by simp
qed

text \<open>The sign of a negative value is written but never read back.\<close>

lemma bcd_sign_lost:
  assumes "cfg_ok (config it)" and "it_format it = DF_BCD" and "it_len it < 31"
    and "- (100 ^ nat (it_len it)) < sint (it_val it)" and "- (2 ^ 63) < sint (it_val it)"
    and "sint (it_val it) < 0" and "config it' = config it"
  shows "\<exists>w it''. toreport it = Some (w, int (length w)) \<and>
    fromreport it' (w @ rest) = Some (it'', it_len it + 1) \<and>
    sint (it_val it'') = - sint (it_val it)"
proof -
  let ?v = "nat (- sint (it_val it))"
  have l: "it_len it' = it_len it" "it_format it' = DF_BCD" using assms by (simp_all add: it_len_def)
  have "int ?v < int (100 ^ nat (it_len it))" using assms(4,6) by simp
  then have m: "?v mod 100 ^ nat (it_len it) = ?v" by (simp only: of_nat_less_iff mod_less)
  have "?v < 2 ^ 63" using assms(5,6) by simp
  then have "sint (word_of_nat ?v :: l64) = int ?v" by (rule sint_l64_of_nat)
  then show ?thesis
    using toreport_bcd_neg [OF assms(1,2,5,6)] fromreport_rpt [OF assms(1), of it'] m
      load_bcd_neg [OF l(2), of "negreportlen it" "rpt_id it" ?v rest] assms(6)
      negreportlen_shift [OF assms(1,3)] l cfg_ok_len [OF assms(1)]
    by simp
qed

section \<open>Well-formed items and memory safety\<close>

text \<open>\<open>alloc_size\<close> is the size \<^verbatim>\<open>DataClassInit\<close> gives the buffer of an item. A well-formed
  item owns that buffer, and a number item fits the eight bytes of its value.\<close>

definition alloc_size :: "DataClassItemConfig \<Rightarrow> int" where
  "alloc_size c = (cfg_fl c + cfg_len c + 1) sdiv 2"

definition wf_cfg :: "DataClassItemConfig \<Rightarrow> bool" where
  "wf_cfg c \<longleftrightarrow> 0 \<le> cfg_len c \<and> 0 \<le> cfg_fl c \<and>
     (cfg_format c = DF_HEXNum \<longrightarrow> cfg_len c \<le> 16) \<and> (cfg_format c = DF_JPG \<longrightarrow> cfg_len c = 0)"

definition wf_item :: "DataClassItem \<Rightarrow> bool" where
  "wf_item it \<longleftrightarrow> wf_cfg (config it) \<and>
     (it_format it = DF_HEX \<and> alloc_size (config it) > 0 \<longrightarrow>
        (\<exists>h. it_hex it = Some h \<and> int (length h) = alloc_size (config it))) \<and>
     (it_format it = DF_CHAR \<and> alloc_size (config it) > 0 \<longrightarrow>
        (\<exists>c. it_chars it = Some c \<and> int (length c) = alloc_size (config it) + 2))"

lemma wf_len:
  assumes "wf_cfg (config it)"
  shows "0 \<le> it_len it" "it_len it \<le> alloc_size (config it)"
    "it_format it = DF_HEXNum \<Longrightarrow> it_len it \<le> 8"
    "it_format it = DF_JPG \<Longrightarrow> it_len it = 0"
    "it_len it = 0 \<longleftrightarrow> cfg_len (config it) = 0"
    "alloc_size (config it) \<ge> 0"
  using assms unfolding wf_cfg_def it_len_def alloc_size_def by auto

lemma it_isZero_safe:
  assumes "wf_item it"
  shows "\<exists>z. it_isZero it = Some z"
proof -
  have wf: "wf_cfg (config it)" using assms by (simp add: wf_item_def)
  note l = wf_len [OF wf]
  show ?thesis
  proof (cases "it_len it = 0")
    case True
    then show ?thesis by (auto simp: it_isZero_def)
  next
    case False
    with l(1,2) have pos: "alloc_size (config it) > 0" by simp
    show ?thesis
    proof (cases "it_format it")
      case DF_HEX
      with assms pos obtain h where "it_hex it = Some h" "int (length h) = alloc_size (config it)"
        by (auto simp: wf_item_def)
      with DF_HEX False l(1,2) show ?thesis by (simp add: it_isZero_def is_zero_buf_iff nat_le_iff)
    next
      case DF_CHAR
      with assms pos obtain c where "it_chars it = Some c" "int (length c) = alloc_size (config it) + 2"
        by (auto simp: wf_item_def)
      with DF_CHAR False l(1,2) show ?thesis by (cases c) (simp_all add: it_isZero_def rd_def)
    next
      case DF_JPG
      with l False show ?thesis by simp
    qed (use False in \<open>simp_all add: it_isZero_def\<close>)
  qed
qed

lemma to_report_safe:
  assumes "wf_item it" and "cfg_len (config it) > 0" and "sint (it_val it) \<noteq> - (2 ^ 63)"
  shows "\<exists>w r. to_report it = Some (w, r)"
proof -
  have wf: "wf_cfg (config it)" using assms by (simp add: wf_item_def)
  note l = wf_len [OF wf]
  have "it_len it \<noteq> 0" using l(5) assms(2) by simp
  with l(1,2) have pos: "alloc_size (config it) > 0" by linarith
  show ?thesis
  proof (cases "it_format it")
    case DF_HEX
    with assms pos obtain h where "it_hex it = Some h" "int (length h) = alloc_size (config it)"
      by (auto simp: wf_item_def)
    with DF_HEX l(1,2) show ?thesis by (simp add: to_report_def rd_range_def nat_le_iff)
  next
    case DF_CHAR
    with assms pos obtain c where "it_chars it = Some c" "int (length c) = alloc_size (config it) + 2"
      by (auto simp: wf_item_def)
    with DF_CHAR l(1,2) show ?thesis by (simp add: to_report_def rd_range_def nat_le_iff)
  next
    case DF_HEXNum
    with l(1,3) show ?thesis
      by (simp add: to_report_def rd_range_def inverse_buf_rev nat_le_iff)
  next
    case DF_HHmm
    obtain a where "hex2bcd [it_HH it] 1 = Some a" using hex2bcd_val [of 1 "[it_HH it]"] by auto
    moreover obtain b where "hex2bcd [it_mm it] 1 = Some b" using hex2bcd_val [of 1 "[it_mm it]"] by auto
    ultimately show ?thesis using DF_HHmm by (simp add: to_report_def)
  qed (use assms in \<open>auto simp: to_report_def put_text_def Let_def\<close>)
qed

text \<open>Writing a report of a well-formed item never leaves an object.\<close>

lemma toreport_safe:
  assumes "wf_item it" and "sint (it_val it) \<noteq> - (2 ^ 63)"
  shows "\<exists>w n. toreport it = Some (w, n)"
proof (cases "cfg_len (config it) \<le> 0")
  case True
  then show ?thesis by (simp add: toreport_def)
next
  case False
  obtain z where "it_isZero it = Some z" using it_isZero_safe [OF assms(1)] by blast
  moreover obtain w r where "to_report it = Some (w, r)"
    using to_report_safe [OF assms(1) _ assms(2)] False by auto
  ultimately show ?thesis
    using False by (cases "it_format it"; simp add: toreport_def Let_def)
qed

lemma memcpy_at_0_le: "length src \<le> length dst \<Longrightarrow> \<exists>r. memcpy_at 0 src dst = Some r \<and> length r = length dst"
  by (simp add: memcpy_at_def)

lemma load_item_safe:
  assumes "wf_item it" and "34 \<le> length rb" and j: "0 \<le> j" "j \<le> 31"
    and c: "c = (if it_len it < j then it_len it else j)"
    and ch: "it_format it = DF_CHAR \<Longrightarrow> alloc_size (config it) > 0"
  shows "\<exists>it'. load_item it rb j c = Some (it', j) \<and> wf_item it' \<and> config it' = config it"
proof -
  have wf: "wf_cfg (config it)" using assms by (simp add: wf_item_def)
  note l = wf_len [OF wf]
  have c: "nat c \<le> 31" "c \<le> it_len it" "0 \<le> c" using j c l(1) by auto
  define src where "src = take (nat c) (drop 2 rb)"
  have src: "rd_range rb 2 (nat c) = Some src" and lsrc: "length src = nat c"
    using c assms(2) by (simp_all add: rd_range_def src_def)
  have rds: "rd rb 2 = Some (rb ! 2)" "rd rb 3 = Some (rb ! 3)"
    using assms(2) by (simp_all add: rd_def)
  show ?thesis
  proof (cases "it_format it")
    case DF_BCD
    have "nat (j - 1) \<le> length (drop 3 rb)" "nat j \<le> length (drop 2 rb)"
      "j > it_len it \<Longrightarrow> nat (it_len it) \<le> length (drop 2 rb)"
      using j assms(2) l(1) by simp_all
    then have "\<exists>v. bigbcd2hex (drop 3 rb) (j - 1) = Some v" "\<exists>v. bigbcd2hex (drop 2 rb) j = Some v"
      "j > it_len it \<Longrightarrow> \<exists>v. bigbcd2hex (drop 2 rb) (it_len it) = Some v"
      using bigbcd2hex_num by blast+
    then show ?thesis
      using DF_BCD assms(1) rds by (cases "rb ! 2 = 0xFF"; cases "j > it_len it")
        (auto simp: wf_item_def load_item_def)
  next
    case DF_HEXNum
    with l(3) c have "nat c \<le> 8" by simp
    then obtain w where "memcpy_at 0 src (le_bytes 8 (unat (it_val it))) = Some w" "length w = 8"
      using memcpy_at_0_le [of src "le_bytes 8 (unat (it_val it))"] lsrc by auto
    with \<open>nat c \<le> 8\<close> have "\<exists>v. hexnum_load (it_val it) src c = Some v"
      by (simp add: hexnum_load_def inverse_buf_rev)
    then show ?thesis using DF_HEXNum src assms(1) by (auto simp: wf_item_def load_item_def)
  next
    case DF_HEX
    show ?thesis
    proof (cases "nat c = 0")
      case True
      with lsrc have "src = []" by simp
      then show ?thesis using DF_HEX src assms(1) by (simp add: copy_to_def load_item_def wf_item_def)
    next
      case False
      with c l have "alloc_size (config it) > 0" by linarith
      with DF_HEX assms obtain h where h: "it_hex it = Some h" "int (length h) = alloc_size (config it)"
        by (auto simp: wf_item_def)
      moreover have "nat c \<le> length h" using c l(2) h by linarith
      then obtain h' where "memcpy_at 0 src h = Some h'" "length h' = length h"
        using memcpy_at_0_le [of src h] lsrc by auto
      ultimately show ?thesis
        using DF_HEX src assms(1) by (auto simp: wf_item_def copy_to_def load_item_def)
    qed
  next
    case DF_CHAR
    with assms(1) ch obtain h where h: "it_chars it = Some h" "int (length h) = alloc_size (config it) + 2"
      by (auto simp: wf_item_def)
    have le: "nat c < length h" using c l(2) h by linarith
    then obtain h' where "memcpy_at 0 src h = Some h'" "length h' = length h"
      using memcpy_at_0_le [of src h] lsrc by auto
    then show ?thesis
      using DF_CHAR src assms(1) h le by (auto simp: wf_item_def wr_def load_item_def)
  next
    case DF_StringVector
    obtain ls where "split_str (c_str src) '' '' = Some ls"
      using split_loop_total [of "'' ''"] unfolding split_str_def by blast
    then show ?thesis using DF_StringVector src assms(1) by (auto simp: wf_item_def load_item_def)
  qed (use src rds assms(1) in \<open>auto simp: load_item_def wf_item_def\<close>)
qed

text \<open>Reading any report into a well-formed item never leaves an object, once the source has the
  34 bytes a length byte can ask for, and keeps the item well formed.\<close>

lemma load_report_safe:
  assumes "wf_item it" and "34 \<le> length rb"
    and "it_format it = DF_CHAR \<Longrightarrow> alloc_size (config it) > 0"
  shows "\<exists>it' j. load_report it rb = Some (it', j) \<and> wf_item it' \<and> config it' = config it \<and>
    0 \<le> j \<and> j \<le> 31"
proof -
  define j where "j = int (unat (drop_bit 3 (rb ! 1)))"
  have "unat (rb ! 1) div 8 \<le> 31" using unat_byte_lt [of "rb ! 1"] by linarith
  then have j: "0 \<le> j" "j \<le> 31"
    by (simp_all add: j_def drop_bit_eq_div unat_div_distrib del: of_nat_unat)
  have "rd rb 1 = Some (rb ! 1)" using assms(2) by (simp add: rd_def)
  then have "load_report it rb = load_item it rb j (if it_len it < j then it_len it else j)"
    unfolding load_report_def j_def by (simp add: Let_def)
  with load_item_safe [OF assms(1,2) j refl assms(3)] j show ?thesis by auto
qed

lemma fromreport_safe:
  assumes "wf_item it" and "35 \<le> length bs"
    and "it_format it = DF_CHAR \<Longrightarrow> alloc_size (config it) > 0"
  shows "\<exists>it' j. fromreport it bs = Some (it', j) \<and> wf_item it' \<and> config it' = config it \<and>
    0 \<le> j \<and> j \<le> 31"
proof (cases "bs ! 0 = 0xFF")
  case True
  then show ?thesis
    using load_report_safe [of it "drop 1 bs"] assms by (cases bs) (simp_all add: fromreport_def rd_def)
next
  case False
  then show ?thesis
    using load_report_safe [of it bs] assms by (cases bs) (simp_all add: fromreport_def rd_def)
qed

text \<open>A character item of length 0 has no buffer, yet its terminator is stored.\<close>

lemma load_char_null:
  assumes "it_format it = DF_CHAR" and "it_chars it = None"
  shows "load_report it rb = None"
  using assms by (auto simp: load_report_def load_item_def Let_def split: bind_splits)

end
