(* ===== verification/DataConfig.thy ===== *)
theory DataConfig
  imports DataItem
begin

text \<open>
  The five item tables of \<^verbatim>\<open>data/DataClassItemConfig.cpp\<close>, row for row: identifier, name,
  integer digits, fraction digits and format (the comment of a row is left out). The macro
  \<^verbatim>\<open>N(a, b)\<close> gives both lengths, \<^verbatim>\<open>C(a)\<close> the length of a text item.
\<close>

definition cfg :: "u16 \<Rightarrow> string \<Rightarrow> int \<Rightarrow> int \<Rightarrow> DataFormat \<Rightarrow> DataClassItemConfig" where
  "cfg i n l f fmt = \<lparr>cfg_id = i, cfg_name = n, cfg_len = l, cfg_fl = f, cfg_format = fmt\<rparr>"

definition devdata_config_items :: "DataClassItemConfig list" where
  "devdata_config_items = [
     cfg 0xF0 ''TT'' 0 0 DF_HEX,
     cfg 0xF1 ''ST'' 0 0 DF_HEX,
     cfg 0xF2 ''RGZS'' 0 0 DF_CHAR,
     cfg 0xF3 ''PIC'' 0 0 DF_JPG,
     cfg 0xF4 ''DRP'' 24 0 DF_HEX,
     cfg 0xF5 ''DRZ1'' 48 0 DF_HEX,
     cfg 0xF6 ''DRZ2'' 48 0 DF_HEX,
     cfg 0xF7 ''DRZ3'' 48 0 DF_HEX,
     cfg 0xF8 ''DRZ4'' 48 0 DF_HEX,
     cfg 0xF9 ''DRZ5'' 48 0 DF_HEX,
     cfg 0xFA ''DRZ6'' 48 0 DF_HEX,
     cfg 0xFB ''DRZ7'' 48 0 DF_HEX,
     cfg 0xFC ''DRZ8'' 48 0 DF_HEX,
     cfg 0xFD ''DATA'' 0 0 DF_HEX,
     cfg 0x01 ''AC'' 8 2 DF_BCD,
     cfg 0x02 ''AI'' 3 1 DF_BCD,
     cfg 0x03 ''C'' 3 1 DF_BCD,
     cfg 0x04 ''DRxnn'' 6 0 DF_HEX,
     cfg 0x05 ''DT'' 4 0 DF_HHmm,
     cfg 0x06 ''ED'' 5 1 DF_BCD,
     cfg 0x07 ''EJ'' 5 1 DF_BCD,
     cfg 0x08 ''FL'' 5 0 DF_BCD,
     cfg 0x09 ''GH'' 5 2 DF_BCD,
     cfg 0x0A ''GN'' 3 0 DF_BCD,
     cfg 0x0B ''GS'' 1 0 DF_BCD,
     cfg 0x0C ''GT'' 3 0 DF_BCD,
     cfg 0x0D ''GTP'' 3 1 DF_BCD,
     cfg 0x0E ''H'' 6 2 DF_BCD,
     cfg 0x0F ''HW'' 5 2 DF_BCD,
     cfg 0x10 ''M10'' 4 1 DF_BCD,
     cfg 0x11 ''M20'' 4 1 DF_BCD,
     cfg 0x12 ''M30'' 4 1 DF_BCD,
     cfg 0x13 ''M40'' 4 1 DF_BCD,
     cfg 0x14 ''M50'' 4 1 DF_BCD,
     cfg 0x15 ''M60'' 4 1 DF_BCD,
     cfg 0x16 ''M80'' 4 1 DF_BCD,
     cfg 0x17 ''M100'' 4 1 DF_BCD,
     cfg 0x18 ''MST'' 4 1 DF_BCD,
     cfg 0x19 ''NS'' 2 0 DF_BCD,
     cfg 0x1A ''P1'' 5 1 DF_BCD,
     cfg 0x1B ''P2'' 5 1 DF_BCD,
     cfg 0x1C ''P3'' 5 1 DF_BCD,
     cfg 0x1D ''P6'' 5 1 DF_BCD,
     cfg 0x1E ''P12'' 5 1 DF_BCD,
     cfg 0x1F ''PD'' 5 1 DF_BCD,
     cfg 0x20 ''PJ'' 5 1 DF_BCD,
     cfg 0x21 ''PN01'' 5 1 DF_BCD,
     cfg 0x22 ''PN05'' 5 1 DF_BCD,
     cfg 0x23 ''PN10'' 5 1 DF_BCD,
     cfg 0x24 ''PN30'' 5 1 DF_BCD,
     cfg 0x25 ''PR'' 5 1 DF_BCD,
     cfg 0x26 ''PT'' 6 1 DF_BCD,
     cfg 0x27 ''Q'' 9 3 DF_BCD,
     cfg 0x28 ''Q1'' 9 3 DF_BCD,
     cfg 0x29 ''Q2'' 9 3 DF_BCD,
     cfg 0x2A ''Q3'' 9 3 DF_BCD,
     cfg 0x2B ''Q4'' 9 3 DF_BCD,
     cfg 0x2C ''Q5'' 9 3 DF_BCD,
     cfg 0x2D ''Q6'' 9 3 DF_BCD,
     cfg 0x2E ''Q7'' 9 3 DF_BCD,
     cfg 0x2F ''Q8'' 9 3 DF_BCD,
     cfg 0x30 ''QA'' 9 3 DF_BCD,
     cfg 0x31 ''QZ'' 9 3 DF_BCD,
     cfg 0x32 ''SW'' 11 3 DF_BCD,
     cfg 0x33 ''UC'' 2 0 DF_BCD,
     cfg 0x34 ''UE'' 2 0 DF_BCD,
     cfg 0x35 ''US'' 4 1 DF_BCD,
     cfg 0x36 ''VA'' 5 3 DF_BCD,
     cfg 0x37 ''VJ'' 5 3 DF_BCD,
     cfg 0x38 ''VT'' 4 2 DF_BCD,
     cfg 0x39 ''Z'' 7 3 DF_BCD,
     cfg 0x3A ''ZB'' 7 3 DF_BCD,
     cfg 0x3B ''ZU'' 7 3 DF_BCD,
     cfg 0x3C ''Z1'' 7 3 DF_BCD,
     cfg 0x3D ''Z2'' 7 3 DF_BCD,
     cfg 0x3E ''Z3'' 7 3 DF_BCD,
     cfg 0x3F ''Z4'' 7 3 DF_BCD,
     cfg 0x40 ''Z5'' 7 3 DF_BCD,
     cfg 0x41 ''Z6'' 7 3 DF_BCD,
     cfg 0x42 ''Z7'' 7 3 DF_BCD,
     cfg 0x43 ''Z8'' 7 3 DF_BCD,
     cfg 0x44 ''SQ'' 9 3 DF_BCD,
     cfg 0x45 ''ZT'' 8 0 DF_HEX,
     cfg 0x46 ''pH'' 4 2 DF_BCD,
     cfg 0x47 ''DO'' 4 1 DF_BCD,
     cfg 0x48 ''COND'' 5 0 DF_BCD,
     cfg 0x49 ''TURB'' 3 0 DF_BCD,
     cfg 0x4A ''CODMN'' 4 1 DF_BCD,
     cfg 0x4B ''REDOX'' 5 1 DF_BCD,
     cfg 0x4C ''NH4N'' 6 2 DF_BCD,
     cfg 0x4D ''TP'' 5 3 DF_BCD,
     cfg 0x4E ''TN'' 5 2 DF_BCD,
     cfg 0x4F ''TOC'' 4 2 DF_BCD,
     cfg 0x50 ''CU'' 7 4 DF_BCD,
     cfg 0x51 ''ZN'' 6 4 DF_BCD,
     cfg 0x52 ''SE'' 7 5 DF_BCD,
     cfg 0x53 ''AS'' 7 5 DF_BCD,
     cfg 0x54 ''THG'' 7 5 DF_BCD,
     cfg 0x55 ''CD'' 7 5 DF_BCD,
     cfg 0x56 ''PB'' 7 5 DF_BCD,
     cfg 0x57 ''CHLA'' 4 2 DF_BCD,
     cfg 0x58 ''WP1'' 5 2 DF_BCD,
     cfg 0x59 ''WP2'' 5 2 DF_BCD,
     cfg 0x5A ''WP3'' 5 2 DF_BCD,
     cfg 0x5B ''WP4'' 5 2 DF_BCD,
     cfg 0x5C ''WP5'' 5 2 DF_BCD,
     cfg 0x5D ''WP6'' 5 2 DF_BCD,
     cfg 0x5E ''WP7'' 5 2 DF_BCD,
     cfg 0x5F ''WP8'' 5 2 DF_BCD,
     cfg 0x60 ''SYL1'' 11 3 DF_BCD,
     cfg 0x61 ''SYL2'' 11 3 DF_BCD,
     cfg 0x62 ''SYL3'' 11 3 DF_BCD,
     cfg 0x63 ''SYL4'' 11 3 DF_BCD,
     cfg 0x64 ''SYL5'' 11 3 DF_BCD,
     cfg 0x65 ''SYL6'' 11 3 DF_BCD,
     cfg 0x66 ''SYL7'' 11 3 DF_BCD,
     cfg 0x67 ''SYL8'' 11 3 DF_BCD,
     cfg 0x68 ''SBL1'' 10 2 DF_BCD,
     cfg 0x69 ''SBL2'' 10 2 DF_BCD,
     cfg 0x6A ''SBL3'' 10 2 DF_BCD,
     cfg 0x6B ''SBL4'' 10 2 DF_BCD,
     cfg 0x6C ''SBL5'' 10 2 DF_BCD,
     cfg 0x6D ''SBL6'' 10 2 DF_BCD,
     cfg 0x6E ''SBL7'' 10 2 DF_BCD,
     cfg 0x6F ''SBL8'' 10 2 DF_BCD,
     cfg 0x70 ''VTA'' 4 1 DF_BCD,
     cfg 0x71 ''VTB'' 4 1 DF_BCD,
     cfg 0x72 ''VTC'' 4 1 DF_BCD,
     cfg 0x73 ''VIA'' 4 1 DF_BCD,
     cfg 0x74 ''VIB'' 4 1 DF_BCD,
     cfg 0x75 ''VIC'' 4 1 DF_BCD,
     cfg 0xFFA1 ''QC1'' 10 0 DF_BCD,
     cfg 0xFFA2 ''QC2'' 10 0 DF_BCD,
     cfg 0xFFA3 ''QC3'' 10 0 DF_BCD,
     cfg 0xFFA4 ''QC4'' 10 0 DF_BCD,
     cfg 0xFFA5 ''QC5'' 10 0 DF_BCD,
     cfg 0xFFA6 ''QC6'' 10 0 DF_BCD,
     cfg 0xFFA7 ''QC7'' 10 0 DF_BCD,
     cfg 0xFFA8 ''QC8'' 10 0 DF_BCD]"

definition param_config_items :: "DataClassItemConfig list" where
  "param_config_items = [
     cfg 0x01 ''center'' 8 0 DF_HEX,
     cfg 0x02 ''terminalNo'' 10 0 DF_HEXNum,
     cfg 0x03 ''passwd'' 4 0 DF_HEXNum,
     cfg 0x04 ''remote1'' 20 0 DF_HEX,
     cfg 0x05 ''remotebak1'' 20 0 DF_HEX,
     cfg 0x06 ''remote2'' 20 0 DF_HEX,
     cfg 0x07 ''remotebak2'' 20 0 DF_HEX,
     cfg 0x08 ''remote3'' 20 0 DF_HEX,
     cfg 0x09 ''remotebak3'' 20 0 DF_HEX,
     cfg 0x0A ''remote4'' 20 0 DF_HEX,
     cfg 0x0B ''remotebak4'' 20 0 DF_HEX,
     cfg 0x0C ''model'' 2 0 DF_HEX,
     cfg 0x0D ''yaosu'' 16 0 DF_HEX,
     cfg 0x0E ''relays'' 1 0 DF_HEX,
     cfg 0x0F ''identify'' 1 0 DF_HEX,
     cfg 0xFF01 ''terminalType'' 2 0 DF_BCD]"

definition runtime_config_items :: "DataClassItemConfig list" where
  "runtime_config_items = [
     cfg 0x20 ''DingShiInterval'' 2 0 DF_BCD,
     cfg 0x21 ''JiaBaoInterval'' 2 0 DF_BCD,
     cfg 0x22 ''RainDayStartTime'' 2 0 DF_BCD,
     cfg 0x23 ''SampleInterval'' 4 0 DF_BCD,
     cfg 0x24 ''WaterSaveInterval'' 2 0 DF_BCD,
     cfg 0x25 ''RainResolution'' 2 1 DF_BCD,
     cfg 0x26 ''WaterLevelResolution'' 2 1 DF_BCD,
     cfg 0x27 ''RainAlarm'' 2 0 DF_BCD,
     cfg 0x28 ''WaterLevelBase1'' 7 3 DF_BCD,
     cfg 0x29 ''WaterLevelBase2'' 7 3 DF_BCD,
     cfg 0x2A ''WaterLevelBase3'' 7 3 DF_BCD,
     cfg 0x2B ''WaterLevelBase4'' 7 3 DF_BCD,
     cfg 0x2C ''WaterLevelBase5'' 7 3 DF_BCD,
     cfg 0x2D ''WaterLevelBase6'' 7 3 DF_BCD,
     cfg 0x2E ''WaterLevelBase7'' 7 3 DF_BCD,
     cfg 0x2F ''WaterLevelBase8'' 7 3 DF_BCD,
     cfg 0x30 ''WaterLevelFix1'' 5 3 DF_BCD,
     cfg 0x31 ''WaterLevelFix2'' 5 3 DF_BCD,
     cfg 0x32 ''WaterLevelFix3'' 5 3 DF_BCD,
     cfg 0x33 ''WaterLevelFix4'' 5 3 DF_BCD,
     cfg 0x34 ''WaterLevelFix5'' 5 3 DF_BCD,
     cfg 0x35 ''WaterLevelFix6'' 5 3 DF_BCD,
     cfg 0x36 ''WaterLevelFix7'' 5 3 DF_BCD,
     cfg 0x37 ''WaterLevelFix8'' 5 3 DF_BCD,
     cfg 0x38 ''WaterLevelAlarm1'' 4 2 DF_BCD,
     cfg 0x39 ''WaterLevelAlarm2'' 4 2 DF_BCD,
     cfg 0x3A ''WaterLevelAlarm3'' 4 2 DF_BCD,
     cfg 0x3B ''WaterLevelAlarm4'' 4 2 DF_BCD,
     cfg 0x3C ''WaterLevelAlarm5'' 4 2 DF_BCD,
     cfg 0x3D ''WaterLevelAlarm6'' 4 2 DF_BCD,
     cfg 0x3E ''WaterLevelAlarm7'' 4 2 DF_BCD,
     cfg 0x3F ''WaterLevelAlarm8'' 4 2 DF_BCD,
     cfg 0x40 ''WaterLevelAlarmUp'' 3 2 DF_BCD,
     cfg 0x41 ''WaterLevelAlarmDown'' 3 2 DF_BCD,
     cfg 0x42 ''FlowAlarm'' 6 3 DF_BCD,
     cfg 0x43 ''H43'' 5 3 DF_BCD,
     cfg 0x44 ''H44'' 3 2 DF_BCD,
     cfg 0x45 ''H45'' 6 0 DF_BCD,
     cfg 0x46 ''H46'' 4 0 DF_BCD,
     cfg 0x47 ''H47'' 4 2 DF_BCD,
     cfg 0x48 ''H48'' 2 1 DF_BCD,
     cfg 0x49 ''H49'' 4 2 DF_BCD,
     cfg 0x4A ''H4A'' 4 2 DF_BCD,
     cfg 0x4B ''H4B'' 4 2 DF_BCD,
     cfg 0x4C ''H4C'' 4 2 DF_BCD,
     cfg 0x4D ''H4D'' 4 2 DF_BCD,
     cfg 0x4E ''H4E'' 4 2 DF_BCD,
     cfg 0x4F ''H4F'' 4 2 DF_BCD,
     cfg 0x50 ''H50'' 4 2 DF_BCD,
     cfg 0x51 ''H51'' 4 2 DF_BCD,
     cfg 0x52 ''H52'' 4 2 DF_BCD,
     cfg 0x53 ''H53'' 4 2 DF_BCD,
     cfg 0x54 ''H54'' 4 2 DF_BCD,
     cfg 0x55 ''H55'' 4 2 DF_BCD,
     cfg 0x56 ''H56'' 4 2 DF_BCD,
     cfg 0x57 ''H57'' 4 2 DF_BCD,
     cfg 0x58 ''H58'' 4 2 DF_BCD,
     cfg 0x59 ''H59'' 8 2 DF_BCD,
     cfg 0x5A ''H5A'' 8 2 DF_BCD,
     cfg 0x5B ''H5B'' 8 2 DF_BCD,
     cfg 0x5C ''H5C'' 8 2 DF_BCD,
     cfg 0x5D ''H5D'' 8 2 DF_BCD,
     cfg 0x5E ''H5E'' 8 2 DF_BCD,
     cfg 0x5F ''H5F'' 8 2 DF_BCD,
     cfg 0x60 ''H60'' 8 2 DF_BCD,
     cfg 0x61 ''H61'' 8 2 DF_BCD,
     cfg 0x62 ''H62'' 8 2 DF_BCD,
     cfg 0x63 ''H63'' 8 2 DF_BCD,
     cfg 0x64 ''H64'' 8 2 DF_BCD,
     cfg 0x65 ''H65'' 8 2 DF_BCD,
     cfg 0x66 ''H66'' 8 2 DF_BCD,
     cfg 0x67 ''H67'' 8 2 DF_BCD,
     cfg 0x68 ''H68'' 8 2 DF_BCD,
     cfg 0x69 ''H69'' 3 1 DF_BCD,
     cfg 0x6A ''H6A'' 3 1 DF_BCD,
     cfg 0x6B ''H6B'' 2 1 DF_BCD,
     cfg 0x6C ''H6C'' 2 1 DF_BCD,
     cfg 0x6D ''H6D'' 4 1 DF_BCD,
     cfg 0x6E ''H6E'' 4 1 DF_BCD,
     cfg 0x6F ''H6F'' 4 1 DF_BCD,
     cfg 0x70 ''H70'' 4 1 DF_BCD,
     cfg 0x71 ''H71'' 5 0 DF_BCD,
     cfg 0x72 ''H72'' 5 0 DF_BCD,
     cfg 0x73 ''H73'' 5 1 DF_BCD,
     cfg 0x74 ''H74'' 5 1 DF_BCD,
     cfg 0x75 ''H75'' 3 0 DF_BCD,
     cfg 0x76 ''H76'' 3 0 DF_BCD,
     cfg 0x77 ''H77'' 6 2 DF_BCD,
     cfg 0x78 ''H78'' 6 2 DF_BCD,
     cfg 0x79 ''H79'' 5 2 DF_BCD,
     cfg 0x7A ''H7A'' 5 2 DF_BCD,
     cfg 0x7B ''H7B'' 7 4 DF_BCD,
     cfg 0x7C ''H7C'' 7 4 DF_BCD,
     cfg 0x7D ''H7D'' 6 4 DF_BCD,
     cfg 0x7E ''H7E'' 6 4 DF_BCD,
     cfg 0x7F ''H7F'' 5 2 DF_BCD,
     cfg 0x80 ''H80'' 5 2 DF_BCD,
     cfg 0x81 ''H81'' 7 5 DF_BCD,
     cfg 0x82 ''H82'' 7 5 DF_BCD,
     cfg 0x83 ''H83'' 7 5 DF_BCD,
     cfg 0x84 ''H84'' 7 5 DF_BCD,
     cfg 0x85 ''H85'' 7 5 DF_BCD,
     cfg 0x86 ''H86'' 7 5 DF_BCD,
     cfg 0x87 ''H87'' 7 5 DF_BCD,
     cfg 0x88 ''H88'' 7 5 DF_BCD,
     cfg 0x89 ''H89'' 4 2 DF_BCD,
     cfg 0x8A ''H8A'' 4 2 DF_BCD,
     cfg 0x8B ''H8B'' 4 2 DF_BCD,
     cfg 0x8C ''H8C'' 4 2 DF_BCD,
     cfg 0x8D ''H8D'' 11 3 DF_BCD,
     cfg 0x8E ''H8E'' 11 3 DF_BCD,
     cfg 0x8F ''H8F'' 11 3 DF_BCD,
     cfg 0x90 ''H90'' 11 3 DF_BCD,
     cfg 0x91 ''H91'' 11 3 DF_BCD,
     cfg 0x92 ''H92'' 11 3 DF_BCD,
     cfg 0x93 ''H93'' 11 3 DF_BCD,
     cfg 0x94 ''H94'' 11 3 DF_BCD,
     cfg 0x95 ''H95'' 11 3 DF_BCD,
     cfg 0x96 ''H96'' 11 3 DF_BCD,
     cfg 0x97 ''H97'' 0 0 DF_BCD,
     cfg 0x98 ''H98'' 0 0 DF_BCD,
     cfg 0x99 ''H99'' 11 3 DF_BCD,
     cfg 0x9A ''H9A'' 11 3 DF_BCD,
     cfg 0x9B ''H9B'' 11 3 DF_BCD,
     cfg 0x9C ''H9C'' 11 3 DF_BCD,
     cfg 0x9D ''H9D'' 11 3 DF_BCD,
     cfg 0x9E ''H9E'' 11 3 DF_BCD,
     cfg 0x9F ''H9F'' 11 3 DF_BCD,
     cfg 0xA0 ''HA0'' 11 3 DF_BCD,
     cfg 0xA1 ''HA1'' 11 3 DF_BCD,
     cfg 0xA2 ''HA2'' 11 3 DF_BCD,
     cfg 0xA3 ''HA3'' 11 3 DF_BCD,
     cfg 0xA4 ''HA4'' 11 3 DF_BCD,
     cfg 0xA5 ''HA5'' 11 3 DF_BCD,
     cfg 0xA6 ''HA6'' 11 3 DF_BCD,
     cfg 0xA7 ''HA7'' 11 3 DF_BCD,
     cfg 0xA8 ''HA8'' 11 3 DF_BCD,
     cfg 0xFF01 ''heartBreak'' 4 0 DF_BCD]"

definition personalset_config_items_1 :: "DataClassItemConfig list" where
  "personalset_config_items_1 = [
     cfg 0x01 ''AC'' 8 2 DF_BCD,
     cfg 0x02 ''AD'' 3 1 DF_BCD,
     cfg 0x03 ''ADM'' 3 1 DF_BCD,
     cfg 0x04 ''ADN'' 3 1 DF_BCD,
     cfg 0x05 ''AI'' 3 1 DF_BCD,
     cfg 0x06 ''AS'' 1 0 DF_CHAR,
     cfg 0x07 ''C'' 3 1 DF_BCD,
     cfg 0x08 ''CD'' 3 1 DF_BCD,
     cfg 0x09 ''DRxnn'' 5 0 DF_CHAR,
     cfg 0x0A ''DT'' 4 0 DF_HHmm,
     cfg 0x0B ''ED'' 6 1 DF_BCD,
     cfg 0x0C ''EM'' 6 1 DF_BCD,
     cfg 0x0D ''ES'' 1 0 DF_CHAR,
     cfg 0x0E ''EX'' 6 1 DF_BCD,
     cfg 0x0F ''FDT'' 16 0 DF_BCD,
     cfg 0x10 ''FDZ'' 16 0 DF_BCD,
     cfg 0x11 ''FL'' 5 0 DF_BCD,
     cfg 0x12 ''FST'' 16 0 DF_BCD,
     cfg 0x13 ''FTD'' 16 0 DF_BCD,
     cfg 0x14 ''GH'' 5 2 DF_BCD,
     cfg 0x15 ''GN'' 3 0 DF_BCD,
     cfg 0x16 ''GS'' 1 0 DF_CHAR,
     cfg 0x17 ''GT'' 3 0 DF_BCD,
     cfg 0x18 ''H'' 7 3 DF_BCD,
     cfg 0x19 ''HD'' 7 3 DF_BCD,
     cfg 0x1A ''HM'' 7 3 DF_BCD,
     cfg 0x1B ''HMM'' 7 3 DF_BCD,
     cfg 0x1C ''HMN'' 7 3 DF_BCD,
     cfg 0x1D ''HS'' 1 0 DF_CHAR,
     cfg 0x1E ''HW'' 5 2 DF_BCD,
     cfg 0x1F ''HX'' 7 3 DF_BCD,
     cfg 0x20 ''HXM'' 7 3 DF_BCD,
     cfg 0x21 ''HXN'' 7 3 DF_BCD,
     cfg 0x22 ''IAT'' 4 1 DF_BCD,
     cfg 0x23 ''IBL'' 2 1 DF_BCD,
     cfg 0x24 ''IBR'' 2 1 DF_BCD,
     cfg 0x25 ''IBT'' 4 1 DF_BCD,
     cfg 0x26 ''ICD'' 3 1 DF_BCD,
     cfg 0x27 ''ICP'' 1 0 DF_CHAR,
     cfg 0x28 ''IDD'' 3 1 DF_BCD,
     cfg 0x29 ''IDH'' 3 1 DF_BCD,
     cfg 0x2A ''IDI'' 1 0 DF_CHAR,
     cfg 0x2B ''IDP'' 1 0 DF_CHAR,
     cfg 0x2C ''IDT'' 1 0 DF_CHAR,
     cfg 0x2D ''IDU'' 1 0 DF_CHAR,
     cfg 0x2E ''IDW'' 7 3 DF_BCD,
     cfg 0x2F ''IDZ'' 7 3 DF_BCD,
     cfg 0x30 ''IFD'' 3 1 DF_BCD,
     cfg 0x31 ''IFP'' 1 0 DF_CHAR,
     cfg 0x32 ''IFQ'' 1 0 DF_CHAR,
     cfg 0x33 ''IGD'' 3 1 DF_BCD,
     cfg 0x34 ''IGP'' 1 0 DF_CHAR,
     cfg 0x35 ''IGQ'' 1 0 DF_CHAR,
     cfg 0x36 ''IP'' 2 0 DF_CHAR,
     cfg 0x37 ''IPD'' 3 1 DF_BCD,
     cfg 0x38 ''IPP'' 1 0 DF_CHAR,
     cfg 0x39 ''IPW'' 2 1 DF_BCD,
     cfg 0x3A ''IRA'' 4 0 DF_BCD,
     cfg 0x3B ''IRD'' 1 0 DF_BCD,
     cfg 0x3C ''IRQ'' 9 3 DF_BCD,
     cfg 0x3D ''IRQD'' 9 3 DF_BCD,
     cfg 0x3E ''IRT'' 4 1 DF_BCD,
     cfg 0x3F ''IRV'' 3 1 DF_BCD,
     cfg 0x40 ''ISH'' 3 0 DF_BCD,
     cfg 0x41 ''IST'' 4 1 DF_BCD,
     cfg 0x42 ''M10'' 4 1 DF_BCD,
     cfg 0x43 ''M20'' 4 1 DF_BCD,
     cfg 0x44 ''M30'' 4 1 DF_BCD,
     cfg 0x45 ''M40'' 4 1 DF_BCD,
     cfg 0x46 ''M60'' 4 1 DF_BCD,
     cfg 0x47 ''M80'' 4 1 DF_BCD,
     cfg 0x48 ''M100'' 4 1 DF_BCD,
     cfg 0x49 ''MA'' 4 1 DF_BCD,
     cfg 0x4A ''MG'' 1 0 DF_CHAR,
     cfg 0x4B ''MK'' 1 0 DF_CHAR,
     cfg 0x4C ''MM'' 1 0 DF_CHAR,
     cfg 0x4D ''MS'' 1 0 DF_CHAR,
     cfg 0x4E ''NPD'' 2 0 DF_BCD,
     cfg 0x4F ''NPM'' 2 0 DF_BCD,
     cfg 0x50 ''NPX'' 2 0 DF_BCD,
     cfg 0x51 ''NRD'' 2 0 DF_BCD,
     cfg 0x52 ''NRM'' 2 0 DF_BCD,
     cfg 0x53 ''NRX'' 2 0 DF_BCD,
     cfg 0x54 ''NS'' 2 0 DF_BCD,
     cfg 0x55 ''P1'' 5 1 DF_BCD,
     cfg 0x56 ''P2'' 5 1 DF_BCD,
     cfg 0x57 ''P3'' 5 1 DF_BCD,
     cfg 0x58 ''P6'' 5 1 DF_BCD,
     cfg 0x59 ''P12'' 5 1 DF_BCD,
     cfg 0x5A ''PD'' 5 1 DF_BCD,
     cfg 0x5B ''PHD'' 3 0 DF_BCD,
     cfg 0x5C ''PHT'' 4 0 DF_HHmm,
     cfg 0x5D ''PM'' 5 1 DF_BCD,
     cfg 0x5E ''PN01'' 5 1 DF_BCD,
     cfg 0x5F ''PN05'' 5 1 DF_BCD,
     cfg 0x60 ''PN10'' 5 1 DF_BCD,
     cfg 0x61 ''PN30'' 5 1 DF_BCD,
     cfg 0x62 ''PR'' 5 1 DF_BCD,
     cfg 0x63 ''PSD'' 3 2 DF_BCD,
     cfg 0x64 ''PSH'' 3 0 DF_BCD,
     cfg 0x65 ''PX'' 5 1 DF_BCD,
     cfg 0x66 ''Q'' 9 3 DF_BCD]"

definition personalset_config_items_2 :: "DataClassItemConfig list" where
  "personalset_config_items_2 = [
     cfg 0x67 ''QA'' 9 3 DF_BCD,
     cfg 0x68 ''QAD'' 9 3 DF_BCD,
     cfg 0x69 ''QAM'' 9 3 DF_BCD,
     cfg 0x6A ''QAMM'' 9 3 DF_BCD,
     cfg 0x6B ''QAMN'' 9 3 DF_BCD,
     cfg 0x6C ''QAX'' 9 3 DF_BCD,
     cfg 0x6D ''QAXM'' 9 3 DF_BCD,
     cfg 0x6E ''QAXN'' 9 3 DF_BCD,
     cfg 0x6F ''QD'' 9 3 DF_BCD,
     cfg 0x70 ''QI'' 9 3 DF_BCD,
     cfg 0x71 ''QID'' 9 3 DF_BCD,
     cfg 0x72 ''QIM'' 9 3 DF_BCD,
     cfg 0x73 ''QIMM'' 9 3 DF_BCD,
     cfg 0x74 ''QIMN'' 9 3 DF_BCD,
     cfg 0x75 ''QIX'' 9 3 DF_BCD,
     cfg 0x76 ''QIXM'' 9 3 DF_BCD,
     cfg 0x77 ''QIXN'' 9 3 DF_BCD,
     cfg 0x78 ''QM'' 9 3 DF_BCD,
     cfg 0x79 ''QMM'' 9 3 DF_BCD,
     cfg 0x7A ''QMN'' 9 3 DF_BCD,
     cfg 0x7B ''QS'' 9 3 DF_BCD,
     cfg 0x7C ''QX'' 9 3 DF_BCD,
     cfg 0x7D ''QXM'' 9 3 DF_BCD,
     cfg 0x7E ''QXN'' 9 3 DF_BCD,
     cfg 0x7F ''QZ'' 9 3 DF_BCD,
     cfg 0x80 ''RW'' 9 3 DF_BCD,
     cfg 0x81 ''RWD'' 9 3 DF_BCD,
     cfg 0x82 ''RWM'' 9 3 DF_BCD,
     cfg 0x83 ''RWX'' 9 3 DF_BCD,
     cfg 0x84 ''SD'' 9 3 DF_BCD,
     cfg 0x85 ''SDS'' 1 0 DF_CHAR,
     cfg 0x86 ''SM'' 1 0 DF_CHAR,
     cfg 0x87 ''SMS'' 1 0 DF_CHAR,
     cfg 0x88 ''SQ'' 9 3 DF_BCD,
     cfg 0x89 ''SQS'' 1 0 DF_CHAR,
     cfg 0x8A ''ST'' 8 0 DF_CHAR,
     cfg 0x8B ''SW'' 11 3 DF_BCD,
     cfg 0x8C ''SWD'' 11 3 DF_BCD,
     cfg 0x8D ''SWM'' 11 3 DF_BCD,
     cfg 0x8E ''SWX'' 11 3 DF_BCD,
     cfg 0x8F ''TEM'' 8 0 DF_CHAR,
     cfg 0x90 ''TM'' 8 0 DF_CHAR,
     cfg 0x91 ''TT'' 8 0 DF_CHAR,
     cfg 0x92 ''UC'' 2 0 DF_CHAR,
     cfg 0x93 ''UE'' 2 0 DF_BCD,
     cfg 0x94 ''UEM'' 2 0 DF_BCD,
     cfg 0x95 ''US'' 4 1 DF_BCD,
     cfg 0x96 ''USM'' 4 1 DF_BCD,
     cfg 0x97 ''VA'' 5 3 DF_BCD,
     cfg 0x98 ''VM'' 5 3 DF_BCD,
     cfg 0x99 ''VS'' 1 0 DF_CHAR,
     cfg 0x9A ''W'' 9 3 DF_BCD,
     cfg 0x9B ''WD'' 9 3 DF_BCD,
     cfg 0x9C ''WM'' 9 3 DF_BCD,
     cfg 0x9D ''WMM'' 9 3 DF_BCD,
     cfg 0x9E ''WMN'' 9 3 DF_BCD,
     cfg 0x9F ''WPD'' 11 3 DF_BCD,
     cfg 0xA0 ''WPM'' 11 3 DF_BCD,
     cfg 0xA1 ''WPX'' 11 3 DF_BCD,
     cfg 0xA2 ''WRD'' 11 3 DF_BCD,
     cfg 0xA3 ''WRM'' 11 3 DF_BCD,
     cfg 0xA4 ''WRX'' 11 3 DF_BCD,
     cfg 0xA5 ''WS'' 1 0 DF_CHAR,
     cfg 0xA6 ''WX'' 9 3 DF_BCD,
     cfg 0xA7 ''WXM'' 9 3 DF_BCD,
     cfg 0xA8 ''WXN'' 9 3 DF_BCD,
     cfg 0xA9 ''Z'' 7 3 DF_BCD,
     cfg 0xAA ''ZB'' 7 3 DF_BCD,
     cfg 0xAB ''ZBD'' 7 3 DF_BCD,
     cfg 0xAC ''ZBM'' 7 3 DF_BCD,
     cfg 0xAD ''ZBMM'' 7 3 DF_BCD,
     cfg 0xAE ''ZBMN'' 7 3 DF_BCD,
     cfg 0xAF ''ZBX'' 7 3 DF_BCD,
     cfg 0xB0 ''ZBXM'' 7 3 DF_BCD,
     cfg 0xB1 ''ZBXN'' 7 3 DF_BCD,
     cfg 0xB2 ''ZD'' 7 3 DF_BCD,
     cfg 0xB3 ''ZH'' 7 3 DF_BCD,
     cfg 0xB4 ''ZHD'' 7 3 DF_BCD,
     cfg 0xB5 ''ZHH'' 7 3 DF_BCD,
     cfg 0xB6 ''ZHL'' 7 3 DF_BCD,
     cfg 0xB7 ''ZHM'' 7 3 DF_BCD,
     cfg 0xB8 ''ZHX'' 7 3 DF_BCD,
     cfg 0xB9 ''ZL'' 7 3 DF_BCD,
     cfg 0xBA ''ZLD'' 7 3 DF_BCD,
     cfg 0xBB ''ZLH'' 7 3 DF_BCD,
     cfg 0xBC ''ZLL'' 7 3 DF_BCD,
     cfg 0xBD ''ZLM'' 7 3 DF_BCD,
     cfg 0xBE ''ZLX'' 7 3 DF_BCD,
     cfg 0xBF ''ZM'' 7 3 DF_BCD,
     cfg 0xC0 ''ZMM'' 7 3 DF_BCD,
     cfg 0xC1 ''ZMN'' 7 3 DF_BCD,
     cfg 0xC2 ''ZS'' 7 3 DF_BCD,
     cfg 0xC3 ''ZU'' 7 3 DF_BCD,
     cfg 0xC4 ''ZUD'' 7 3 DF_BCD,
     cfg 0xC5 ''ZUM'' 7 3 DF_BCD,
     cfg 0xC6 ''ZUMM'' 7 3 DF_BCD,
     cfg 0xC7 ''ZUMN'' 7 3 DF_BCD,
     cfg 0xC8 ''ZUX'' 7 3 DF_BCD,
     cfg 0xC9 ''ZUXM'' 7 3 DF_BCD,
     cfg 0xCA ''ZUXN'' 7 3 DF_BCD,
     cfg 0xCB ''ZX'' 7 3 DF_BCD,
     cfg 0xCC ''ZXM'' 7 3 DF_BCD,
     cfg 0xCD ''ZXN'' 7 3 DF_BCD]"

definition personalset_config_items :: "DataClassItemConfig list" where
  "personalset_config_items = personalset_config_items_1 @ personalset_config_items_2"

definition appdata_config_items :: "DataClassItemConfig list" where
  "appdata_config_items = [
     cfg 0x01 ''version'' 50 0 DF_CHAR,
     cfg 0x02 ''flowAlarmFlags'' 16 0 DF_HEX,
     cfg 0x03 ''waterlevelAlarmFlags'' 16 0 DF_HEX,
     cfg 0x04 ''waterlevelUpAlarmFlags'' 16 0 DF_HEX,
     cfg 0x05 ''waterlevelDownAlarmFlags'' 16 0 DF_HEX,
     cfg 0x06 ''rainAlarmFlags'' 4 0 DF_BCD,
     cfg 0x07 ''rainIncFlag'' 4 0 DF_BCD,
     cfg 0x08 ''rainAcc'' 6 1 DF_BCD,
     cfg 0x09 ''jia'' 200 0 DF_StringVector]"

section \<open>The tables are fit for the report codec\<close>

text \<open>A row the report codec carries faithfully: it passes \<open>wf_cfg\<close>, its length fits the length
  byte, a day time takes two bytes and its identifier is not the escape byte.\<close>

definition row_ok :: "DataClassItemConfig \<Rightarrow> bool" where
  "row_ok c \<longleftrightarrow> wf_cfg c \<and> cfg_len c \<le> 62 \<and> cfg_fl c < 8 \<and>
     (cfg_format c = DF_HHmm \<longrightarrow> cfg_len c = 4) \<and> (cfg_id c < 0xFF \<or> 0xFF00 < cfg_id c)"

lemmas row_simps = row_ok_def wf_cfg_def cfg_def

text \<open>Strictly increasing identifiers, checked along the table.\<close>

fun ids_increase :: "DataClassItemConfig list \<Rightarrow> bool" where
  "ids_increase (c # d # cs) \<longleftrightarrow> cfg_id c < cfg_id d \<and> ids_increase (d # cs)"
| "ids_increase cs \<longleftrightarrow> True"

lemma ids_increase_distinct: "ids_increase cs \<Longrightarrow> distinct (map cfg_id cs)"
proof -
  have "ids_increase cs \<Longrightarrow> sorted_wrt (<) (map cfg_id cs)"
  proof (induction cs rule: ids_increase.induct)
    case (1 c d cs)
    then show ?case by (auto dest: order.strict_trans)
  qed simp_all
  then show "ids_increase cs \<Longrightarrow> distinct (map cfg_id cs)"
    by (simp add: strict_sorted_iff)
qed

lemma devdata_rows: "list_all row_ok devdata_config_items"
  by (simp add: devdata_config_items_def row_simps)

lemma param_rows: "list_all row_ok param_config_items"
  by (simp add: param_config_items_def row_simps)

lemma runtime_rows: "list_all row_ok runtime_config_items"
  by (simp add: runtime_config_items_def row_simps)

lemma personalset_rows: "list_all row_ok personalset_config_items"
  by (simp add: personalset_config_items_def personalset_config_items_1_def
      personalset_config_items_2_def row_simps)

text \<open>The one row of the application table that the length byte cannot carry is the list of
  report flags, of 200 digits; the table is never sent.\<close>

lemma appdata_rows:
  "list_all (\<lambda>c. cfg_id c \<noteq> 9 \<longrightarrow> row_ok c) appdata_config_items"
  "list_all wf_cfg appdata_config_items"
  by (simp_all add: appdata_config_items_def row_simps)

lemma param_ids: "ids_increase param_config_items"
  by (simp add: param_config_items_def cfg_def)

lemma runtime_ids: "ids_increase runtime_config_items"
  by (simp add: runtime_config_items_def cfg_def)

lemma personalset_ids: "ids_increase personalset_config_items"
  by (simp add: personalset_config_items_def personalset_config_items_1_def
      personalset_config_items_2_def cfg_def)

lemma appdata_ids: "ids_increase appdata_config_items"
  by (simp add: appdata_config_items_def cfg_def)

lemma distinct_two_ranges:
  assumes "ids_increase a" "ids_increase b" "list_all P a" "list_all (\<lambda>c. \<not> P c) b"
    and P: "\<And>c d. P c \<Longrightarrow> cfg_id c = cfg_id d \<Longrightarrow> P d"
  shows "distinct (map cfg_id (a @ b))"
proof -
  have "cfg_id x \<noteq> cfg_id y" if "x \<in> set a" "y \<in> set b" for x y
    using that assms(3,4) P [of x y] by (auto simp: list_all_iff)
  then show ?thesis
    using ids_increase_distinct [OF assms(1)] ids_increase_distinct [OF assms(2)]
    by (auto simp: distinct_append)
qed

lemma devdata_ids: "distinct (map cfg_id devdata_config_items)"
proof -
  let ?P = "\<lambda>c. 0xF0 \<le> cfg_id c \<and> cfg_id c \<le> 0xFD"
  have "ids_increase (take 14 devdata_config_items)" "ids_increase (drop 14 devdata_config_items)"
    by (simp_all add: devdata_config_items_def cfg_def)
  moreover have "list_all ?P (take 14 devdata_config_items)"
    by (simp add: devdata_config_items_def cfg_def)
  moreover have "list_all (\<lambda>c. \<not> ?P c) (drop 14 devdata_config_items)"
    by (simp add: devdata_config_items_def cfg_def word_le_nat_alt)
  ultimately have "distinct (map cfg_id (take 14 devdata_config_items @ drop 14 devdata_config_items))"
    by (rule distinct_two_ranges [where P = ?P]) simp_all
  then show ?thesis by (simp only: append_take_drop_id)
qed

end
