(* ===== verification/Lib_Regex.thy ===== *)
theory Lib_Regex
  imports Lib_Text
begin

text \<open>
  The search for all matches of a regular expression, \<^verbatim>\<open>rx_serach\<close> of \<^verbatim>\<open>lib/lib.cpp\<close> (lines
  338 to 589), with the growing match table it fills. \<^verbatim>\<open>regexec\<close> is the argument \<open>exec\<close>: it
  maps the rest of the input to a match with the offsets of its groups, to no match, or to an
  error. The only pattern of the program is \<^verbatim>\<open>[-0-9a-fA-F]+\<close>, for which \<open>exec_run\<close> is what
  \<^verbatim>\<open>regexec\<close> finds. Whether \<^verbatim>\<open>malloc\<close> succeeds is the argument \<open>mem_ok\<close>.
\<close>

section \<open>The match table\<close>

datatype rx_result = RX_MATCH "(int \<times> int) list" | RX_NOMATCH | RX_ERROR

record search_match =
  groupcnt :: nat
  capacity :: nat
  matchcnt :: nat
  pmatch :: "(int \<times> int) list option"

definition null_match :: search_match where
  "null_match = \<lparr>groupcnt = 0, capacity = 0, matchcnt = 0, pmatch = None\<rparr>"

text \<open>The size of a \<^verbatim>\<open>regmatch_t\<close>: two offsets of four bytes.\<close>

definition sizeof_regmatch :: nat where
  "sizeof_regmatch = 8"

definition rx_search_match_init :: "(nat \<Rightarrow> bool) \<Rightarrow> nat \<Rightarrow> int \<times> search_match" where
  "rx_search_match_init mem_ok gc =
     (let sm = \<lparr>groupcnt = gc, capacity = 16, matchcnt = 0, pmatch = None\<rparr>;
          n = sizeof_regmatch * gc * 16
      in if \<not> mem_ok n then (-1, sm)
         else (0, sm\<lparr>pmatch := Some (replicate (gc * 16) (0, 0))\<rparr>))"

text \<open>\<open>rx_search_match_ensure\<close> returns the index of the free slot, or no slot. The second
  \<^verbatim>\<open>memset\<close> starts \<open>oldsize\<close> elements, not bytes, into the new buffer: unless it clears
  nothing it runs past the end.\<close>

definition rx_search_match_ensure ::
    "(nat \<Rightarrow> bool) \<Rightarrow> search_match \<Rightarrow> nat \<Rightarrow> (nat option \<times> search_match) option" where
  "rx_search_match_ensure mem_ok sm freecnt =
     (case pmatch sm of
        None \<Rightarrow> Some (None, sm)
      | Some buf \<Rightarrow>
          if capacity sm > 0 \<and> matchcnt sm \<ge> capacity sm then Some (None, sm)
          else if freecnt > (2 ^ 31 - 1) div 64 then Some (None, sm)
          else if freecnt \<le> capacity sm - matchcnt sm
          then Some (Some (matchcnt sm * groupcnt sm), sm)
          else
            let newcapacity = (freecnt + matchcnt sm + 16 - 1) div 16 * 16;
                newsize = newcapacity * groupcnt sm * sizeof_regmatch;
                oldsize = matchcnt sm * groupcnt sm * sizeof_regmatch;
                expsize = (newcapacity - matchcnt sm) * groupcnt sm * sizeof_regmatch
            in if \<not> mem_ok newsize then Some (None, null_match)
               else if oldsize * sizeof_regmatch + expsize > newsize then None
               else Some (Some (matchcnt sm * groupcnt sm),
                 sm\<lparr>capacity := newcapacity,
                    pmatch := Some (take (newcapacity * groupcnt sm)
                      (buf @ replicate (newcapacity * groupcnt sm) (0, 0)))\<rparr>))"

definition rx_search_match_uninit :: "search_match \<Rightarrow> search_match" where
  "rx_search_match_uninit sm = null_match"

section \<open>The search\<close>

definition put_match :: "nat \<Rightarrow> (int \<times> int) list \<Rightarrow> search_match \<Rightarrow> search_match" where
  "put_match slot gs sm =
     sm\<lparr>matchcnt := matchcnt sm + 1,
        pmatch := map_option (\<lambda>buf. take slot buf @ gs @ drop (slot + length gs) buf) (pmatch sm)\<rparr>"

text \<open>The loop; its result is the last status and the table. A search that does not end, or
  leaves a buffer, is \<open>None\<close>.\<close>

partial_function (option) rx_loop ::
    "(nat \<Rightarrow> bool) \<Rightarrow> (nat \<Rightarrow> string \<Rightarrow> rx_result) \<Rightarrow> string \<Rightarrow> nat \<Rightarrow> search_match
       \<Rightarrow> (rx_result option \<times> search_match) option" where
  "rx_loop mem_ok exec input offset sm =
     (case rx_search_match_ensure mem_ok sm 1 of
        None \<Rightarrow> None
      | Some (slot, sm') \<Rightarrow>
        (case slot of
           None \<Rightarrow> Some (None, sm')
         | Some s \<Rightarrow>
           (case exec (groupcnt sm') (drop offset input) of
              RX_NOMATCH \<Rightarrow> Some (Some RX_NOMATCH, sm')
            | RX_ERROR \<Rightarrow> Some (Some RX_ERROR, sm')
            | RX_MATCH gs \<Rightarrow>
                rx_loop mem_ok exec input (offset + nat (snd (hd gs)))
                  (put_match s (map (\<lambda>(so, eo). (so + int offset, eo + int offset)) gs) sm'))))"

definition rx_serach ::
    "(nat \<Rightarrow> bool) \<Rightarrow> (nat \<Rightarrow> string \<Rightarrow> rx_result) \<Rightarrow> nat \<Rightarrow> string \<Rightarrow> nat
       \<Rightarrow> (int \<times> search_match) option" where
  "rx_serach mem_ok exec re_nsub input gc =
     (let gc' = (if gc = 0 then re_nsub + 1 else gc);
          (c, sm) = rx_search_match_init mem_ok gc'
      in if c \<noteq> 0 then Some (c, sm)
         else do {
           (r, sm') \<leftarrow> rx_loop mem_ok exec input 0 sm;
           Some (if r \<noteq> Some RX_NOMATCH then (-1, rx_search_match_uninit sm')
                 else (int (matchcnt sm'), sm')) })"

section \<open>The pattern of the program\<close>

definition log_chars :: string where
  "log_chars = ''-0123456789abcdefABCDEF''"

definition is_log_char :: "char \<Rightarrow> bool" where
  "is_log_char c = (c \<in> set log_chars)"

text \<open>The leftmost longest match of \<^verbatim>\<open>[-0-9a-fA-F]+\<close>, one group.\<close>

definition exec_run :: "nat \<Rightarrow> string \<Rightarrow> rx_result" where
  "exec_run gc s =
     (let n = length (takeWhile (\<lambda>c. \<not> is_log_char c) s);
          m = length (takeWhile is_log_char (drop n s))
      in if m = 0 then RX_NOMATCH else RX_MATCH [(int n, int (n + m))])"

text \<open>A line of the log: runs of pattern characters, each closed by a comma.\<close>

definition log_line :: "string list \<Rightarrow> string" where
  "log_line rs = list_merge rs '',''"

definition run_ok :: "string \<Rightarrow> bool" where
  "run_ok r \<longleftrightarrow> r \<noteq> [] \<and> list_all is_log_char r"

lemma comma_not_log [simp]: "\<not> is_log_char CHR '',''"
  by (simp add: is_log_char_def log_chars_def)

lemma takeWhile_run:
  "run_ok r \<Longrightarrow> takeWhile is_log_char (r @ CHR '','' # s) = r"
  by (auto simp: run_ok_def takeWhile_append list_all_iff)

lemma exec_run_first:
  "run_ok r \<Longrightarrow> exec_run gc (r @ CHR '','' # s) = RX_MATCH [(0, int (length r))]"
proof -
  assume r: "run_ok r"
  then obtain c cs where "r = c # cs" "is_log_char c" by (cases r) (auto simp: run_ok_def)
  then have "takeWhile (\<lambda>c. \<not> is_log_char c) (r @ CHR '','' # s) = []" by simp
  with r show ?thesis by (simp add: exec_run_def takeWhile_run run_ok_def)
qed

lemma exec_run_next:
  "run_ok r \<Longrightarrow> exec_run gc (CHR '','' # r @ CHR '','' # s) = RX_MATCH [(1, int (Suc (length r)))]"
proof -
  assume r: "run_ok r"
  then obtain c cs where "r = c # cs" "is_log_char c" by (cases r) (auto simp: run_ok_def)
  then have "takeWhile (\<lambda>c. \<not> is_log_char c) (CHR '','' # r @ CHR '','' # s) = '',''" by simp
  with r show ?thesis by (simp add: exec_run_def takeWhile_run run_ok_def)
qed

lemma exec_run_end: "exec_run gc '','' = RX_NOMATCH" "exec_run gc [] = RX_NOMATCH"
  by (simp_all add: exec_run_def)

text \<open>The offsets of the runs of a line, the first run starting at \<open>off\<close>.\<close>

fun run_spans :: "nat \<Rightarrow> string list \<Rightarrow> (int \<times> int) list" where
  "run_spans off [] = []"
| "run_spans off (r # rs) = (int off, int (off + length r)) # run_spans (off + length r + 1) rs"

lemma length_run_spans [simp]: "length (run_spans off rs) = length rs"
  by (induction rs arbitrary: off) simp_all

definition table :: "(int \<times> int) list \<Rightarrow> search_match" where
  "table ps = \<lparr>groupcnt = 1, capacity = 16, matchcnt = length ps,
     pmatch = Some (ps @ replicate (16 - length ps) (0, 0))\<rparr>"

lemma ensure_table:
  "length ps < 16 \<Longrightarrow> rx_search_match_ensure ok (table ps) (Suc 0) = Some (Some (length ps), table ps)"
  "length ps = 16 \<Longrightarrow> rx_search_match_ensure ok (table ps) (Suc 0) = Some (None, table ps)"
  by (simp_all add: rx_search_match_ensure_def table_def Suc_le_eq)

lemma put_match_table:
  "length ps < 16 \<Longrightarrow> put_match (length ps) [p] (table ps) = table (ps @ [p])"
proof -
  assume "length ps < 16"
  then have "drop (Suc (length ps)) (ps @ replicate (16 - length ps) (0 :: int, 0 :: int)) =
      replicate (16 - Suc (length ps)) (0, 0)"
    by simp
  then show ?thesis by (simp add: put_match_def table_def)
qed

lemma groupcnt_table [simp]: "groupcnt (table ps) = 1"
  by (simp add: table_def)

definition run_tail :: "string list \<Rightarrow> string" where
  "run_tail rs = concat (map (\<lambda>r. CHR '','' # r) rs) @ '',''"

lemma run_tail_Cons: "run_tail (r # rs) = CHR '','' # r @ run_tail rs"
  by (simp add: run_tail_def)

lemma run_tail_comma: "\<exists>s. run_tail rs = CHR '','' # s"
  by (cases rs) (simp_all add: run_tail_def)

lemma log_line_tail: "log_line (r # rs) = r @ run_tail rs"
proof -
  have "list_merge xs '','' @ s = (if xs = [] then s else hd xs @ run_tail (tl xs) @ s)" for xs s
  proof (induction xs)
    case (Cons x xs)
    then show ?case by (cases xs) (simp_all add: list_merge_def run_tail_def)
  qed (simp add: list_merge_def)
  from this [of "r # rs" "[]"] show ?thesis by (simp add: log_line_def)
qed

lemma rx_loop_tail:
  assumes "\<forall>r \<in> set rs. run_ok r" and "length ps \<le> 16" and "drop off input = run_tail rs"
  shows "\<exists>sm. rx_loop ok exec_run input off (table ps) =
    Some (if length ps + length rs < 16
      then (Some RX_NOMATCH, table (ps @ run_spans (off + 1) rs)) else (None, sm))"
  using assms
proof (induction rs arbitrary: ps off)
  case Nil
  then show ?case
    by (cases "length ps = 16"; subst rx_loop.simps)
      (simp_all add: ensure_table run_tail_def exec_run_end)
next
  case (Cons r rs)
  show ?case
  proof (cases "length ps = 16")
    case True
    then show ?thesis by (subst rx_loop.simps) (simp add: ensure_table)
  next
    case False
    with Cons.prems(2) have lt: "length ps < 16" by simp
    obtain s where s: "run_tail rs = CHR '','' # s" using run_tail_comma by blast
    have d: "drop off input = CHR '','' # r @ CHR '','' # s"
      using Cons.prems(3) by (simp add: run_tail_Cons s)
    then have d2: "drop (off + Suc (length r)) input = run_tail rs"
      using drop_drop [of "Suc (length r)" off input] by (simp add: s add.commute)
    let ?p = "(int (off + 1), int (off + 1 + length r))"
    have "\<exists>sm. rx_loop ok exec_run input (off + Suc (length r)) (table (ps @ [?p])) =
      Some (if length (ps @ [?p]) + length rs < 16
        then (Some RX_NOMATCH, table ((ps @ [?p]) @ run_spans (off + Suc (length r) + 1) rs))
        else (None, sm))"
      using Cons.prems lt d2 by (intro Cons.IH) simp_all
    moreover have "exec_run 1 (drop off input) = RX_MATCH [(1, int (Suc (length r)))]"
      using Cons.prems(1) exec_run_next [of r 1 s] by (simp add: d)
    then have "rx_loop ok exec_run input off (table ps) =
        rx_loop ok exec_run input (off + Suc (length r)) (table (ps @ [?p]))"
      using lt put_match_table [OF lt, of ?p]
      by (subst rx_loop.simps) (simp add: ensure_table algebra_simps nat_add_distrib)
    moreover have "(length (ps @ [?p]) + length rs < 16) = (length ps + length (r # rs) < 16)"
      by simp
    moreover have "(ps @ [?p]) @ run_spans (off + Suc (length r) + 1) rs = ps @ run_spans (off + 1) (r # rs)"
      by (simp add: algebra_simps)
    ultimately show ?thesis by (simp only:)
  qed
qed

text \<open>All runs of a line are found when there are at most fifteen. The sixteenth match fills
  the table, the next call of \<^verbatim>\<open>ensure\<close> refuses a full table instead of growing it, and the whole
  search fails.\<close>

lemma rx_serach_log_line:
  assumes "\<forall>r \<in> set rs. run_ok r"
  shows "rx_serach (\<lambda>_. True) exec_run 0 (log_line rs) 0 =
    Some (if length rs < 16 then (int (length rs), table (run_spans 0 rs)) else (-1, null_match))"
proof -
  have init: "rx_search_match_init (\<lambda>_. True) 1 = (0, table [])"
    by (simp add: rx_search_match_init_def table_def)
  show ?thesis
  proof (cases rs)
    case Nil
    have "rx_loop (\<lambda>_. True) exec_run [] 0 (table []) = Some (Some RX_NOMATCH, table [])"
      by (subst rx_loop.simps) (simp add: ensure_table exec_run_end)
    with Nil init show ?thesis
      by (simp add: rx_serach_def log_line_def list_merge_def) (simp add: table_def)
  next
    case (Cons r rs')
    obtain s where s: "run_tail rs' = CHR '','' # s" using run_tail_comma by blast
    have line: "log_line rs = r @ run_tail rs'" using Cons log_line_tail by simp
    let ?p = "(0, int (length r))"
    have "exec_run 1 (log_line rs) = RX_MATCH [?p]"
      unfolding line s using assms Cons exec_run_first [of r 1 s] by simp
    then have step: "rx_loop (\<lambda>_. True) exec_run (log_line rs) 0 (table []) =
        rx_loop (\<lambda>_. True) exec_run (log_line rs) (length r) (table [?p])"
      using put_match_table [of "[]" ?p] by (subst rx_loop.simps) (simp add: ensure_table)
    obtain sm where "rx_loop (\<lambda>_. True) exec_run (log_line rs) (length r) (table [?p]) =
      Some (if length [?p] + length rs' < 16
        then (Some RX_NOMATCH, table ([?p] @ run_spans (length r + 1) rs')) else (None, sm))"
    proof -
      have "drop (length r) (log_line rs) = run_tail rs'" unfolding line by simp
      with rx_loop_tail [of rs' "[?p]" "length r" "log_line rs" "\<lambda>_. True"] assms Cons that
      show ?thesis by auto
    qed
    with step init Cons show ?thesis
      by (simp add: rx_serach_def rx_search_match_uninit_def) (simp add: table_def)
  qed
qed

end
