(* ===== verification/Store.thy ===== *)
theory Store
  imports Prelude
begin

text \<open>
  The contract of a store addressed by places: what a lookup returns after an update, and what
  a run of updates at distinct places leaves behind. The tables of items and the tables of the
  data base both keep it.
\<close>

text \<open>\<open>update_at\<close> reads a place, computes its new content and writes it back; \<open>run_updates\<close> does
  so for a list of places in order. Any of the three may fail.\<close>

definition update_at ::
    "('s \<Rightarrow> 'p \<Rightarrow> 'v option) \<Rightarrow> ('s \<Rightarrow> 'p \<Rightarrow> 'v \<Rightarrow> 's option) \<Rightarrow> 'p \<Rightarrow> ('v \<Rightarrow> 'v option) \<Rightarrow> 's \<Rightarrow> 's option"
  where
  "update_at get put p f s = do { v \<leftarrow> get s p; w \<leftarrow> f v; put s p w }"

fun run_updates ::
    "('s \<Rightarrow> 'p \<Rightarrow> 'v option) \<Rightarrow> ('s \<Rightarrow> 'p \<Rightarrow> 'v \<Rightarrow> 's option) \<Rightarrow> ('p \<times> ('v \<Rightarrow> 'v option)) list \<Rightarrow> 's \<Rightarrow> 's option"
  where
  "run_updates get put [] s = Some s"
| "run_updates get put ((p, f) # us) s = do { s' \<leftarrow> update_at get put p f s; run_updates get put us s' }"

locale store =
  fixes get :: "'s \<Rightarrow> 'p \<Rightarrow> 'v option" and put :: "'s \<Rightarrow> 'p \<Rightarrow> 'v \<Rightarrow> 's option"
  assumes put_present: "get s p = Some v \<Longrightarrow> \<exists>s'. put s p w = Some s'"
    and get_put: "put s p w = Some s' \<Longrightarrow> get s' q = (if q = p then Some w else get s q)"
begin

lemma update_at_get:
  assumes "get s p = Some v" and "f v = Some w"
  shows "\<exists>s'. update_at get put p f s = Some s' \<and> (\<forall>q. get s' q = (if q = p then Some w else get s q))"
  using put_present [OF assms(1), of w] assms by (auto simp: update_at_def get_put)

lemma run_updates_get:
  assumes "distinct (map fst us)"
    and "\<And>p f. (p, f) \<in> set us \<Longrightarrow> \<exists>v. get s p = Some v \<and> f v = Some (g p)"
  shows "\<exists>s'. run_updates get put us s = Some s' \<and>
    (\<forall>q. get s' q = (if q \<in> fst ` set us then Some (g q) else get s q))"
  using assms
proof (induction us arbitrary: s)
  case Nil
  then show ?case by simp
next
  case (Cons u us)
  obtain p f where u: "u = (p, f)" by fastforce
  with Cons.prems(2) obtain v where "get s p = Some v" "f v = Some (g p)" by auto
  then obtain s1 where s1: "update_at get put p f s = Some s1"
    "\<And>q. get s1 q = (if q = p then Some (g p) else get s q)"
    using update_at_get by blast
  have "\<exists>v. get s1 q = Some v \<and> h v = Some (g q)" if "(q, h) \<in> set us" for q h
  proof -
    have "q \<noteq> p" using Cons.prems(1) that u by (force simp: image_iff)
    with Cons.prems(2) [of q h] that s1(2) show ?thesis by simp
  qed
  then obtain s' where "run_updates get put us s1 = Some s'"
    "\<forall>q. get s' q = (if q \<in> fst ` set us then Some (g q) else get s1 q)"
    using Cons.IH [of s1] Cons.prems(1) by auto
  with s1 u show ?case by auto
qed

lemma run_updates_frame:
  "run_updates get put us s = Some s' \<Longrightarrow> q \<notin> fst ` set us \<Longrightarrow> get s' q = get s q"
proof (induction us arbitrary: s)
  case (Cons u us)
  obtain p f where u: "u = (p, f)" by fastforce
  with Cons.prems(1) obtain v w s1 where "put s p w = Some s1" "run_updates get put us s1 = Some s'"
    by (auto simp: update_at_def split: bind_splits)
  with Cons u show ?case by (auto simp: get_put)
qed simp

end

end
