(* ===== verification/DataClass.thy ===== *)
theory DataClass
  imports DataConfig Lib_Regex Store
begin

text \<open>
  The container of items, \<^verbatim>\<open>class DataClass\<close> of \<^verbatim>\<open>data/DataClass.hpp\<close> (lines 483 to 761), and
  the two functions behind the tables in \<^verbatim>\<open>DataClassItemConfig.cpp\<close>. The pointers of
  \<^verbatim>\<open>int_items\<close> and \<^verbatim>\<open>str_items\<close> are positions in \<^verbatim>\<open>items\<close>; a reference that \<^verbatim>\<open>operator[]\<close>
  returns is a \<open>place\<close>, and using a position behind the end of \<^verbatim>\<open>items\<close> is undefined, \<open>None\<close>.
  Addresses of heap buffers (stored in \<^verbatim>\<open>val\<close> of the items that own one) are the argument
  \<open>addr\<close>.
\<close>

section \<open>State\<close>

record DataClass =
  dc_type :: DataClassConfigType
  dc_name :: string
  dc_items :: "DataClassItem list"
  int_items :: "u32 \<Rightarrow> nat option"
  str_items :: "string \<Rightarrow> nat option"
  nitem :: DataClassItem

datatype place = PItem nat | PNull

definition blank_item :: "DataClassItemConfig \<Rightarrow> DataClassItem" where
  "blank_item c = \<lparr>config = c, it_val = DATA_INVALID_VALUE, it_hex = None, it_chars = None,
     it_str = [], it_list = [], it_HH = 0, it_mm = 0\<rparr>"

definition null_item :: DataClassItem where
  "null_item = blank_item (cfg 0 ''NULL'' 0 0 DF_BCD)"

definition empty_class :: DataClass where
  "empty_class = \<lparr>dc_type = Type_Dev, dc_name = [], dc_items = [], int_items = (\<lambda>_. None),
     str_items = (\<lambda>_. None), nitem = null_item\<rparr>"

section \<open>Construction\<close>

definition init_item :: "l64 \<Rightarrow> DataClassItemConfig \<Rightarrow> DataClassItem" where
  "init_item a c =
     (let item = blank_item c; n = alloc_size c
      in case cfg_format c of
        DF_STRING \<Rightarrow> item\<lparr>it_str := []\<rparr>
      | DF_StringVector \<Rightarrow> item\<lparr>it_list := []\<rparr>
      | DF_BCD \<Rightarrow> item
      | DF_CHAR \<Rightarrow>
          if n > 0 then item\<lparr>it_chars := Some (replicate (nat (n + 2)) 0), it_val := a\<rparr> else item
      | DF_HEX \<Rightarrow>
          if n > 0 then item\<lparr>it_hex := Some (replicate (nat n) 0xFF), it_val := a\<rparr> else item
      | DF_HHmm \<Rightarrow> item\<lparr>it_val := 0, it_HH := 0, it_mm := 0\<rparr>
      | _ \<Rightarrow> item)"

definition push_item :: "DataClass \<Rightarrow> DataClassItem \<Rightarrow> DataClass" where
  "push_item d it =
     d\<lparr>dc_items := dc_items d @ [it],
       int_items := (int_items d)(ucast (it_id it) \<mapsto> length (dc_items d)),
       str_items := (str_items d)(cfg_name (config it) \<mapsto> length (dc_items d))\<rparr>"

fun DataClassInit :: "(nat \<Rightarrow> l64) \<Rightarrow> DataClassItemConfig list \<Rightarrow> DataClass \<Rightarrow> DataClass" where
  "DataClassInit addr [] d = d"
| "DataClassInit addr (c # cs) d =
     DataClassInit addr cs (push_item d (init_item (addr (length (dc_items d))) c))"

definition config_items_of :: "DataClassConfigType \<Rightarrow> DataClassItemConfig list" where
  "config_items_of t =
     (case t of
        Type_Dev \<Rightarrow> devdata_config_items
      | Type_Param \<Rightarrow> param_config_items
      | Type_Personalset \<Rightarrow> personalset_config_items
      | Type_Runtime \<Rightarrow> runtime_config_items
      | Type_AppData \<Rightarrow> appdata_config_items)"

definition new_DataClass :: "(nat \<Rightarrow> l64) \<Rightarrow> DataClassConfigType \<Rightarrow> string \<Rightarrow> DataClass" where
  "new_DataClass addr t n =
     (DataClassInit addr (config_items_of t) (empty_class\<lparr>dc_type := t\<rparr>))\<lparr>dc_name := n\<rparr>"

section \<open>Access\<close>

definition at_id :: "DataClass \<Rightarrow> u32 \<Rightarrow> place" where
  "at_id d nn =
     (let n = (ucast nn :: u16)
      in case int_items d (ucast n) of None \<Rightarrow> PNull | Some i \<Rightarrow> PItem i)"

definition at_name :: "DataClass \<Rightarrow> string \<Rightarrow> place" where
  "at_name d n = (case str_items d n of None \<Rightarrow> PNull | Some i \<Rightarrow> PItem i)"

text \<open>The comparison of the index is unsigned: a negative one is out of range.\<close>

definition at_index :: "DataClass \<Rightarrow> int \<Rightarrow> place" where
  "at_index d i = (if i < 0 \<or> i \<ge> int (length (dc_items d)) then PNull else PItem (nat i))"

definition get_place :: "DataClass \<Rightarrow> place \<Rightarrow> DataClassItem option" where
  "get_place d p = (case p of PItem i \<Rightarrow> rd (dc_items d) i | PNull \<Rightarrow> Some (nitem d))"

definition put_place :: "DataClass \<Rightarrow> place \<Rightarrow> DataClassItem \<Rightarrow> DataClass option" where
  "put_place d p it =
     (case p of
        PItem i \<Rightarrow> map_option (\<lambda>its. d\<lparr>dc_items := its\<rparr>) (wr (dc_items d) i it)
      | PNull \<Rightarrow> Some (d\<lparr>nitem := it\<rparr>))"

definition at_u16 :: "DataClass \<Rightarrow> u16 \<Rightarrow> place" where
  "at_u16 d n = at_id d (ucast n)"

section \<open>Whole-table operations\<close>

text \<open>The loop empties the vector at its first turn; the maps keep their pointers.\<close>

definition clearAll :: "DataClass \<Rightarrow> DataClass" where
  "clearAll d = d\<lparr>dc_items := []\<rparr>"

fun reportall_loop :: "DataClassItem list \<Rightarrow> bytes \<Rightarrow> nat \<Rightarrow> int \<Rightarrow> (bytes \<times> int) option" where
  "reportall_loop [] out base sz = Some (out, sz)"
| "reportall_loop (it # its) out base sz = do {
     z \<leftarrow> it_isZero it;
     if z then reportall_loop its out base sz
     else do {
       (w, n) \<leftarrow> toreport it;
       out' \<leftarrow> memcpy_at (base + nat sz) w out;
       reportall_loop its out' base (sz + n) } }"

definition reportall :: "DataClass \<Rightarrow> bytes \<Rightarrow> nat \<Rightarrow> (bytes \<times> int) option" where
  "reportall d out base = reportall_loop (dc_items d) out base 0"

definition item_fromreport :: "DataClass \<Rightarrow> place \<Rightarrow> bytes \<Rightarrow> (DataClass \<times> int) option" where
  "item_fromreport d p bs = do {
     it \<leftarrow> get_place d p;
     (it', j) \<leftarrow> fromreport it bs;
     d' \<leftarrow> put_place d p it';
     Some (d', j) }"

text \<open>The identifier is the byte at the offset alone: behind an escape byte \<^verbatim>\<open>0xFF\<close> no item is
  found.\<close>

function dc_fromreport_loop :: "DataClass \<Rightarrow> bytes \<Rightarrow> int \<Rightarrow> int \<Rightarrow> (DataClass \<times> int) option" where
  "dc_fromreport_loop d bs n offset =
     (if 0 \<le> offset \<and> offset < n
      then (case rd bs (nat offset) of
              None \<Rightarrow> None
            | Some b \<Rightarrow>
              (case item_fromreport d (at_id d (ucast b)) (drop (nat offset) bs) of
                 None \<Rightarrow> None
               | Some (d', j) \<Rightarrow>
                   if j < 0 then None else dc_fromreport_loop d' bs n (offset + 2 + j)))
      else Some (d, offset))"
  by auto
termination by (relation "measure (\<lambda>(d, bs, n, offset). nat (n - offset))") auto

definition dc_fromreport :: "DataClass \<Rightarrow> bytes \<Rightarrow> int \<Rightarrow> (DataClass \<times> int) option" where
  "dc_fromreport d bs n = dc_fromreport_loop d bs n 0"

section \<open>The log line\<close>

fun tolog_loop ::
    "DataClassItem list \<Rightarrow> bytes \<Rightarrow> bytes \<Rightarrow> int \<Rightarrow> int \<Rightarrow> (bytes \<times> int) option" where
  "tolog_loop [] bytesout outstr outsize offset = Some (outstr, offset)"
| "tolog_loop (it # its) bytesout outstr outsize offset = do {
     z \<leftarrow> it_isZero it;
     if z then tolog_loop its bytesout outstr outsize offset
     else do {
       (w, n) \<leftarrow> toreport it;
       bytesout' \<leftarrow> memcpy_at 0 w bytesout;
       (out1, r) \<leftarrow> hexarray2str bytesout' n outstr (nat offset) (outsize - offset);
       out2 \<leftarrow> wr out1 (nat (offset + r)) (byte_of CHR '','');
       tolog_loop its bytesout' out2 outsize (offset + r + 1) } }"

definition tolog_buf :: "DataClass \<Rightarrow> bytes \<Rightarrow> int \<Rightarrow> (bytes \<times> int) option" where
  "tolog_buf d outstr outsize = do {
     out0 \<leftarrow> memcpy_at 0 (replicate (nat outsize) 0) outstr;
     (out1, offset) \<leftarrow> tolog_loop (dc_items d) (replicate 1024 0) out0 outsize 0;
     out2 \<leftarrow> wr out1 (nat offset) 0;
     Some (out2, offset) }"

definition tolog :: "DataClass \<Rightarrow> string option" where
  "tolog d = do {
     (buf, n) \<leftarrow> tolog_buf d (replicate 2048 0) 2048;
     Some (c_str buf) }"

text \<open>\<open>junk i\<close> is what the uninitialised array \<^verbatim>\<open>bytes[500]\<close> holds at the \<open>i\<close>-th match.\<close>

definition log_entry :: "(nat \<Rightarrow> bytes) \<Rightarrow> string \<Rightarrow> nat \<Rightarrow> int \<times> int \<Rightarrow> DataClass \<Rightarrow> DataClass option" where
  "log_entry junk line i m d =
     (let n = snd m - fst m;
          sub = take (nat n) (drop (nat (fst m)) line)
      in if n \<ge> 1000 then None
         else do {
           (bs, r) \<leftarrow> str2hexarray (bytes_of sub) n (junk i) 500;
           b0 \<leftarrow> rd bs 0;
           b1 \<leftarrow> rd bs 1;
           let sid = (if b0 = 0xFF then 0xFF00 OR ucast b1 else ucast b0 :: u16);
           (d', j) \<leftarrow> item_fromreport d (at_u16 d sid) bs;
           Some d' })"

fun log_entries ::
    "(nat \<Rightarrow> bytes) \<Rightarrow> string \<Rightarrow> nat \<Rightarrow> (int \<times> int) list \<Rightarrow> DataClass \<Rightarrow> DataClass option" where
  "log_entries junk line i [] d = Some d"
| "log_entries junk line i (m # ms) d = do {
     d' \<leftarrow> log_entry junk line i m d;
     log_entries junk line (Suc i) ms d' }"

definition fromlog :: "(nat \<Rightarrow> bool) \<Rightarrow> (nat \<Rightarrow> bytes) \<Rightarrow> string \<Rightarrow> DataClass \<Rightarrow> DataClass option" where
  "fromlog mem_ok junk line d = do {
     (c, sm) \<leftarrow> rx_serach mem_ok exec_run 0 line 0;
     if c > 0
     then do {
       ms \<leftarrow> pmatch sm;
       log_entries junk line 0 (take (nat c * groupcnt sm) ms) d }
     else Some d }"

section \<open>The application data\<close>

definition init_app_item :: "DataClassItem \<Rightarrow> DataClassItem option" where
  "init_app_item it =
     (case it_format it of
        DF_BCD \<Rightarrow> Some (it\<lparr>it_val := 0\<rparr>)
      | DF_HEX \<Rightarrow> do {
          h \<leftarrow> it_hex it;
          h' \<leftarrow> fill (it_len it) 0 h;
          Some (it\<lparr>it_hex := Some h'\<rparr>) }
      | _ \<Rightarrow> Some it)"

fun mapM_option :: "('a \<Rightarrow> 'b option) \<Rightarrow> 'a list \<Rightarrow> 'b list option" where
  "mapM_option f [] = Some []"
| "mapM_option f (x # xs) = do { y \<leftarrow> f x; ys \<leftarrow> mapM_option f xs; Some (y # ys) }"

definition init_appdata :: "DataClass \<Rightarrow> DataClass option" where
  "init_appdata A = do {
     its \<leftarrow> mapM_option init_app_item (dc_items A);
     Some (A\<lparr>dc_items := its\<rparr>) }"

definition jia_add_flags :: "DataClass \<Rightarrow> string \<Rightarrow> DataClass option" where
  "jia_add_flags A n = do {
     it \<leftarrow> get_place A (at_name A ''jia'');
     if n \<in> set (it_list it) then Some A
     else put_place A (at_name A ''jia'') (it\<lparr>it_list := it_list it @ [n]\<rparr>) }"


section \<open>The table as a store\<close>

interpretation items: store get_place put_place
proof
  fix s p v w
  assume "get_place s p = Some v"
  then show "\<exists>s'. put_place s p w = Some s'"
    by (auto simp: get_place_def put_place_def rd_def wr_def split: place.splits if_splits)
next
  fix s p w s' q
  assume "put_place s p w = Some s'"
  then show "get_place s' q = (if q = p then Some w else get_place s q)"
    by (auto simp: get_place_def put_place_def rd_def wr_def nth_list_update split: place.splits if_splits)
qed

text \<open>The maps point at the items of their keys.\<close>

definition dc_wf :: "DataClass \<Rightarrow> bool" where
  "dc_wf d \<longleftrightarrow>
     (\<forall>i < length (dc_items d). int_items d (ucast (it_id (dc_items d ! i))) = Some i) \<and>
     (\<forall>k i. int_items d k = Some i \<longrightarrow> i < length (dc_items d) \<and> ucast (it_id (dc_items d ! i)) = k)"

lemma ucast_u16_u32: "(ucast (a :: u16) :: u32) = ucast b \<longleftrightarrow> a = b"
proof
  assume "(ucast a :: u32) = ucast b"
  then have "unat (ucast a :: u32) = unat (ucast b :: u32)" by simp
  then show "a = b"
    using unsigned_less [of a, where ?'a = nat] unsigned_less [of b, where ?'a = nat]
    by (simp add: unsigned_ucast_eq take_bit_nat_eq_self word_eq_iff_unsigned [where ?'a = nat])
qed simp

lemma ucast_u32_u16 [simp]: "(ucast (ucast (a :: u16) :: u32) :: u16) = a"
  by (rule bit_word_eqI) (auto simp: bit_simps)

lemma config_init_item [simp]: "config (init_item a c) = c"
  by (simp add: init_item_def blank_item_def Let_def split: DataFormat.splits)

lemma DataClassInit_items:
  "map config (dc_items (DataClassInit addr cs d)) = map config (dc_items d) @ cs"
  by (induction cs arbitrary: d) (simp_all add: push_item_def)

lemma dc_wf_push:
  assumes "dc_wf d" and "it_id it \<notin> set (map it_id (dc_items d))"
  shows "dc_wf (push_item d it)"
proof -
  let ?d = "push_item d it" and ?n = "length (dc_items d)"
  have l: "length (dc_items ?d) = Suc ?n" by (simp add: push_item_def)
  have "int_items ?d (ucast (it_id (dc_items ?d ! i))) = Some i" if "i < Suc ?n" for i
  proof (cases "i = ?n")
    case True
    then show ?thesis by (simp add: push_item_def)
  next
    case False
    with that have i: "i < ?n" by simp
    then have "it_id (dc_items d ! i) \<in> set (map it_id (dc_items d))" by simp
    then have "it_id (dc_items d ! i) \<noteq> it_id it" using assms(2) by metis
    with i assms(1) show ?thesis by (simp add: push_item_def nth_append ucast_u16_u32 dc_wf_def)
  qed
  moreover have "i < Suc ?n \<and> ucast (it_id (dc_items ?d ! i)) = k" if "int_items ?d k = Some i" for k i
    using that assms(1) by (fastforce simp: push_item_def nth_append dc_wf_def split: if_splits)
  ultimately show ?thesis by (simp add: dc_wf_def l)
qed

lemma dc_wf_Init:
  assumes "dc_wf d" and "distinct (map it_id (dc_items d) @ map cfg_id cs)"
  shows "dc_wf (DataClassInit addr cs d)"
  using assms
proof (induction cs arbitrary: d)
  case (Cons c cs)
  then show ?case
    by (simp del: set_map) (rule Cons.IH, rule dc_wf_push, auto simp: push_item_def)
qed simp

lemma dc_wf_empty: "dc_wf (empty_class\<lparr>dc_type := t\<rparr>)"
  by (simp add: dc_wf_def empty_class_def)

lemma config_ids_distinct: "distinct (map cfg_id (config_items_of t))"
  by (cases t) (simp_all add: config_items_of_def devdata_ids ids_increase_distinct param_ids
      runtime_ids personalset_ids appdata_ids)

lemma new_DataClass_wf: "dc_wf (new_DataClass addr t n)"
proof -
  have "dc_wf (DataClassInit addr (config_items_of t) (empty_class\<lparr>dc_type := t\<rparr>))"
    by (rule dc_wf_Init [OF dc_wf_empty]) (simp add: empty_class_def config_ids_distinct)
  then show ?thesis by (simp add: new_DataClass_def dc_wf_def)
qed

lemma at_u16_item:
  assumes "dc_wf d" and "i < length (dc_items d)"
  shows "at_u16 d (it_id (dc_items d ! i)) = PItem i"
  using assms by (simp add: dc_wf_def at_u16_def at_id_def)

lemma get_place_item: "i < length (dc_items d) \<Longrightarrow> get_place d (PItem i) = Some (dc_items d ! i)"
  by (simp add: get_place_def rd_def)

text \<open>Every item of every table built by a constructor is well formed.\<close>

lemma init_item_wf: "wf_cfg c \<Longrightarrow> wf_item (init_item a c)"
  using wf_len(6) [of "blank_item c"]
  by (simp add: wf_item_def init_item_def blank_item_def Let_def split: DataFormat.splits)

lemma config_items_wf: "list_all wf_cfg (config_items_of t)"
  using devdata_rows param_rows runtime_rows personalset_rows appdata_rows(2)
  by (cases t) (auto simp: config_items_of_def row_ok_def list_all_iff)

lemma DataClassInit_wf_items:
  "list_all wf_item (dc_items d) \<Longrightarrow> list_all wf_cfg cs \<Longrightarrow> list_all wf_item (dc_items (DataClassInit addr cs d))"
  by (induction cs arbitrary: d) (simp_all add: push_item_def init_item_wf)

lemma new_DataClass_wf_items: "list_all wf_item (dc_items (new_DataClass addr t n))"
  using DataClassInit_wf_items [of "empty_class\<lparr>dc_type := t\<rparr>" "config_items_of t" addr] config_items_wf
  by (simp add: new_DataClass_def empty_class_def)

lemma clearAll_dangles:
  assumes "dc_wf d" and "i < length (dc_items d)"
  shows "get_place (clearAll d) (at_u16 (clearAll d) (it_id (dc_items d ! i))) = None"
  using assms by (simp add: dc_wf_def at_u16_def at_id_def clearAll_def get_place_def rd_def)

end
