(* ===== verification/Header.thy ===== *)
theory Header
  imports Calendar DataClass Packet
begin

text \<open>
  The body of a report: the header of \<^verbatim>\<open>app/up/packet/header.cpp\<close> with its global counters, the
  template class \<^verbatim>\<open>ZhengWen\<close> that appends the reports of the named items, the reports of
  \<^verbatim>\<open>app/up/report/report.cpp\<close>, and the station classes of \<^verbatim>\<open>DataClass.hpp\<close> (lines 771 to
  855). The current time is the argument \<open>now\<close>; texts for the log are left out.
\<close>

section \<open>Global counters\<close>

record HeaderState =
  hs_remote :: u8
  hs_liushui :: int
  hs_observetime :: int

definition get_current_remote :: "HeaderState \<Rightarrow> u8" where
  "get_current_remote st = hs_remote st"

definition set_current_remote :: "HeaderState \<Rightarrow> u8 \<Rightarrow> u8 \<times> HeaderState" where
  "set_current_remote st r = (r, st\<lparr>hs_remote := r\<rparr>)"

definition get_current_liushui :: "HeaderState \<Rightarrow> int" where
  "get_current_liushui st = hs_liushui st"

definition set_current_liushui :: "HeaderState \<Rightarrow> int \<Rightarrow> int \<times> HeaderState" where
  "set_current_liushui st liu = (liu, st\<lparr>hs_liushui := liu\<rparr>)"

definition get_observetime_time :: "HeaderState \<Rightarrow> int \<times> HeaderState" where
  "get_observetime_time st =
     (let t = hs_observetime st - hs_observetime st smod 60 in (t, st\<lparr>hs_observetime := t\<rparr>))"

definition set_observetime_time :: "HeaderState \<Rightarrow> int \<Rightarrow> HeaderState" where
  "set_observetime_time st t = st\<lparr>hs_observetime := t\<rparr>"

section \<open>The time code\<close>

definition bcd_push :: "ul64 \<Rightarrow> int \<Rightarrow> ul64" where
  "bcd_push result v = push_bit 8 result OR (ucast (bytehex2bcd (word_of_int v)) AND 0xFF)"

definition get_time_bcd :: "int \<Rightarrow> int \<Rightarrow> ul64" where
  "get_time_bcd tz tt =
     (let t = localtime tz tt;
          r = bcd_push 0 ((tm_year t + 1900) smod 100);
          r = bcd_push r (tm_mon t + 1);
          r = bcd_push r (tm_mday t);
          r = bcd_push r (tm_hour t);
          r = bcd_push r (tm_min t)
      in bcd_push r (tm_sec t))"

section \<open>The header\<close>

record Header =
  h_liushui :: u16
  h_sendtime :: int
  h_local :: ul64
  h_type :: u8
  h_observetime :: int

definition new_Header :: "DataClass \<Rightarrow> int \<Rightarrow> HeaderState \<Rightarrow> (Header \<times> HeaderState) option" where
  "new_Header param now st = do {
     loc \<leftarrow> get_place param (at_id param 0x02);
     let (ob, st') = get_observetime_time st;
     ty \<leftarrow> get_place param (at_name param ''terminalType'');
     Some (\<lparr>h_liushui = word_of_int (get_current_liushui st), h_sendtime = now,
       h_local = it_val loc, h_type = ucast (it_val ty), h_observetime = ob\<rparr>, st') }"

definition ST_mark :: u8 where "ST_mark = 0xF1"
definition TT_mark :: u8 where "TT_mark = 0xF0"

text \<open>\<open>blreverse src n\<close> is what \<^verbatim>\<open>blreverse\<close> and \<^verbatim>\<open>inverseto\<close> store: \<open>n\<close> bytes of \<open>src\<close>, last
  first (\<open>little2big_rev\<close>, \<open>inverseto_rev\<close>).\<close>

definition blreverse :: "bytes \<Rightarrow> nat \<Rightarrow> bytes" where
  "blreverse src n = rev (take n src)"

definition Header_to_array_front3 :: "int \<Rightarrow> Header \<Rightarrow> bytes" where
  "Header_to_array_front3 tz h =
     blreverse (le_bytes 2 (unat (h_liushui h))) 2
     @ blreverse (le_bytes 8 (unat (get_time_bcd tz (h_sendtime h)))) 6
     @ [ST_mark, ST_mark]
     @ blreverse (le_bytes 8 (unat (h_local h))) 5"

definition Header_to_array :: "int \<Rightarrow> Header \<Rightarrow> bytes" where
  "Header_to_array tz h =
     blreverse (le_bytes 2 (unat (h_liushui h))) 2
     @ blreverse (le_bytes 8 (unat (get_time_bcd tz (h_sendtime h)))) 6
     @ [ST_mark, ST_mark]
     @ blreverse (le_bytes 8 (unat (h_local h))) 5
     @ [h_type h]
     @ [TT_mark, TT_mark]
     @ blreverse (drop 1 (le_bytes 8 (unat (get_time_bcd tz (h_observetime h))))) 5"

section \<open>The report body\<close>

text \<open>\<open>look\<close> is \<^verbatim>\<open>operator[]\<close> on the type of the names. The array \<^verbatim>\<open>cache\<close> keeps the bytes of
  earlier items.\<close>

record 'n ZhengWen =
  zw_names :: "'n list"
  zw_header :: Header

definition zw_init :: "'n ZhengWen \<Rightarrow> 'n list \<Rightarrow> 'n ZhengWen" where
  "zw_init z items = z\<lparr>zw_names := items\<rparr>"

definition zw_init_at :: "'n ZhengWen \<Rightarrow> 'n list \<Rightarrow> int \<Rightarrow> 'n ZhengWen" where
  "zw_init_at z items obtime = (zw_init z items)\<lparr>zw_header := (zw_header z)\<lparr>h_observetime := obtime\<rparr>\<rparr>"

fun zw_loop ::
    "(DataClass \<Rightarrow> 'n \<Rightarrow> place) \<Rightarrow> DataClass \<Rightarrow> 'n list \<Rightarrow> bytes \<Rightarrow> bytes \<Rightarrow> nat \<Rightarrow> (bytes \<times> nat) option"
  where
  "zw_loop look pdata [] cache out pos = Some (out, pos)"
| "zw_loop look pdata (n # ns) cache out pos = do {
     it \<leftarrow> get_place pdata (look pdata n);
     (w, ilen) \<leftarrow> toreport it;
     cache' \<leftarrow> memcpy_at 0 w cache;
     if ilen > 0
     then do {
       src \<leftarrow> rd_range cache' 0 (nat ilen);
       out' \<leftarrow> memcpy_at pos src out;
       zw_loop look pdata ns cache' out' (pos + nat ilen) }
     else zw_loop look pdata ns cache' out pos }"

definition zw_to_array ::
    "int \<Rightarrow> (DataClass \<Rightarrow> 'n \<Rightarrow> place) \<Rightarrow> DataClass \<Rightarrow> 'n ZhengWen \<Rightarrow> bytes \<Rightarrow> bytes \<Rightarrow> nat
       \<Rightarrow> (bytes \<times> int) option" where
  "zw_to_array tz look pdata z cache out base = do {
     let h = Header_to_array tz (zw_header z);
     out1 \<leftarrow> memcpy_at base h out;
     (out2, pos) \<leftarrow> zw_loop look pdata (zw_names z) cache out1 (base + length h);
     Some (out2, int pos - int base) }"

definition zw_to_all ::
    "int \<Rightarrow> DataClass \<Rightarrow> 'n ZhengWen \<Rightarrow> bytes \<Rightarrow> nat \<Rightarrow> (bytes \<times> int) option" where
  "zw_to_all tz pdata z out base = do {
     let h = Header_to_array tz (zw_header z);
     out1 \<leftarrow> memcpy_at base h out;
     (out2, n) \<leftarrow> reportall pdata out1 (base + length h);
     Some (out2, int (length h) + n) }"

section \<open>The reports\<close>

definition get_lianlu_report :: "int \<Rightarrow> Header \<Rightarrow> bytes \<Rightarrow> (bytes \<times> int) option" where
  "get_lianlu_report tz h out = do {
     buffer \<leftarrow> memcpy_at 0 (Header_to_array_front3 tz h) (replicate 20 0);
     src \<leftarrow> rd_range buffer 0 8;
     out' \<leftarrow> memcpy_at 0 src out;
     Some (out', 8) }"

definition get_ceshi_report :: "int \<Rightarrow> DataClass \<Rightarrow> Header \<Rightarrow> bytes \<Rightarrow> bytes \<Rightarrow> (bytes \<times> int) option" where
  "get_ceshi_report tz devdata h cache out =
     zw_to_array tz at_name devdata
       (zw_init \<lparr>zw_names = [], zw_header = h\<rparr> [''PJ'', ''PT'', ''Z'', ''VT'']) cache out 0"

definition get_junyunshiduan_report ::
    "int \<Rightarrow> DataClass \<Rightarrow> Header \<Rightarrow> bytes \<Rightarrow> bytes \<Rightarrow> (bytes \<times> int) option" where
  "get_junyunshiduan_report tz devdata h cache out = do {
     let z = \<lparr>zw_names = [], zw_header = h\<lparr>h_observetime := 0\<rparr>\<rparr>;
     out1 \<leftarrow> memcpy_at 0 (blreverse (le_bytes 4 0) 3) out;
     (out2, n) \<leftarrow> zw_to_array tz at_name devdata
       (zw_init z [''DRP'', ''DRZ1'', ''DRZ2'', ''DRZ3'', ''DRZ4'', ''DRZ5'', ''DRZ6'', ''DRZ7'', ''DRZ8''])
       cache out1 3;
     Some (out2, 3 + n) }"

definition get_rengong_report :: "int \<Rightarrow> DataClass \<Rightarrow> Header \<Rightarrow> bytes \<Rightarrow> bytes \<Rightarrow> (bytes \<times> int) option" where
  "get_rengong_report tz pdata h cache out =
     zw_to_array tz at_name pdata \<lparr>zw_names = [], zw_header = h\<rparr> cache out 0"

text \<open>The picture report copies its header to \<^verbatim>\<open>imagedata\<close>, which is \<^verbatim>\<open>NULL\<close> and which no
  code sets.\<close>

definition get_tupian_report :: "int \<Rightarrow> Header \<Rightarrow> bytes option \<Rightarrow> (bytes \<times> int) option" where
  "get_tupian_report tz h imagedata = do {
     header \<leftarrow> memcpy_at 0 (Header_to_array tz h) (replicate 30 0);
     let n = length (Header_to_array tz h);
     img \<leftarrow> imagedata;
     src \<leftarrow> rd_range header 0 n;
     img1 \<leftarrow> memcpy_at 0 src img;
     img2 \<leftarrow> memcpy_at n [0xF3, 0xF3] img1;
     Some (img2, int n + 2 + 30000) }"

section \<open>Station classes and alarm word\<close>

text \<open>Number, code and letter of a station class (its name and description are texts for the
  log).\<close>

definition station_sets :: "(int \<times> u8 \<times> char) list" where
  "station_sets = [(1, 0x50, CHR ''P''), (2, 0x48, CHR ''H''), (3, 0x4B, CHR ''K''), (4, 0x5A, CHR ''Z''),
     (5, 0x44, CHR ''D''), (6, 0x54, CHR ''T''), (7, 0x4D, CHR ''M''), (8, 0x47, CHR ''G''),
     (9, 0x51, CHR ''Q''), (10, 0x49, CHR ''I''), (11, 0x4F, CHR ''O'')]"

definition getCode :: "u8 \<Rightarrow> int \<times> u8 \<times> char" where
  "getCode code =
     (case find (\<lambda>(sn, c, a). c = code) station_sets of None \<Rightarrow> (0, 0, CHR ''N'') | Some s \<Rightarrow> s)"

definition StateWarn_load :: "bytes \<Rightarrow> u32 option" where
  "StateWarn_load b = map_option (\<lambda>w. word_of_nat (le_val w)) (rd_range b 0 4)"

section \<open>What a header says\<close>

lemma bcd_val_3: "v < 100 \<Longrightarrow> bcd_val 3 v = bcd_val 2 v"
  by (simp add: numeral_3_eq_3 numeral_2_eq_2)

lemma bcd_push_val:
  assumes "0 \<le> v" "v < 100" "unat r < 2 ^ 56"
  shows "unat (bcd_push r v) = unat r * 256 + bcd_val 2 (nat v)"
proof -
  have u: "unat (word_of_int v :: u8) = nat v"
    using assms(1,2) by (simp add: unsigned_of_int take_bit_int_eq_self)
  have lt: "bcd_val 2 (nat v) < 256" using assms by (intro bcd_val_2_lt) simp
  let ?b = "bytehex2bcd (word_of_int v)"
  have b: "unat ?b = bcd_val 2 (nat v)"
    using assms by (simp add: bytehex2bcd_val u bcd_val_3)
  have "(ucast ?b AND 0xFF :: ul64) = take_bit 8 (ucast ?b)"
    by (simp add: take_bit_eq_mask mask_eq_exp_minus_1)
  then have m: "(ucast ?b AND 0xFF :: ul64) = word_of_nat (bcd_val 2 (nat v))"
    using lt b by (simp add: word_eq_iff_unsigned [where ?'a = nat] take_bit_eq_mod unat_mod_distrib
        unsigned_ucast_eq unat_of_nat)
  show ?thesis
    unfolding bcd_push_def m using push_or_val [of r 8 "bcd_val 2 (nat v)"] lt assms(3) by simp
qed

text \<open>The two-digit fields of a time.\<close>

definition time_fields :: "int \<Rightarrow> int \<Rightarrow> nat list" where
  "time_fields tz t =
     (let p = localtime tz t
      in map nat [(tm_year p + 1900) mod 100, tm_mon p + 1, tm_mday p, tm_hour p, tm_min p, tm_sec p])"

lemma le_bytes_Suc_push: "b < 256 \<Longrightarrow> le_bytes (Suc n) (a * 256 + b) = word_of_nat b # le_bytes n a"
  by (simp del: of_nat_add of_nat_mult)
    (simp add: word_eq_iff_unsigned [where ?'a = nat] del: of_nat_add of_nat_mult)

lemma get_time_bcd_bytes:
  assumes "0 \<le> tm_year (localtime tz t) + 1900"
  shows "le_bytes 8 (unat (get_time_bcd tz t)) =
    rev (map (\<lambda>v. word_of_nat (bcd_val 2 v)) (time_fields tz t)) @ [0, 0]"
proof -
  let ?p = "localtime tz t"
  note b = localtime_bounds [of tz t]
  let ?y = "(tm_year ?p + 1900) mod 100"
  have y: "(tm_year ?p + 1900) smod 100 = ?y" using assms by simp
  have yb: "0 \<le> ?y" "?y < 100" by simp_all
  have lt: "bcd_val 2 (nat v) < 256" if "0 \<le> v" "v < 100" for v
    using that by (intro bcd_val_2_lt) simp
  define r1 where "r1 = bcd_push 0 ?y"
  define r2 where "r2 = bcd_push r1 (tm_mon ?p + 1)"
  define r3 where "r3 = bcd_push r2 (tm_mday ?p)"
  define r4 where "r4 = bcd_push r3 (tm_hour ?p)"
  define r5 where "r5 = bcd_push r4 (tm_min ?p)"
  define r6 where "r6 = bcd_push r5 (tm_sec ?p)"
  have u1: "unat r1 = bcd_val 2 (nat ?y)" using bcd_push_val [OF yb, of 0] by (simp add: r1_def)
  have b1: "unat r1 < 2 ^ 8" using u1 lt [OF yb] by simp
  have u2: "unat r2 = unat r1 * 256 + bcd_val 2 (nat (tm_mon ?p + 1))"
    unfolding r2_def using b b1 by (intro bcd_push_val) simp_all
  have b2: "unat r2 < 2 ^ 16" using u2 b1 lt [of "tm_mon ?p + 1"] b by simp
  have u3: "unat r3 = unat r2 * 256 + bcd_val 2 (nat (tm_mday ?p))"
    unfolding r3_def using b b2 by (intro bcd_push_val) simp_all
  have b3: "unat r3 < 2 ^ 24" using u3 b2 lt [of "tm_mday ?p"] b by simp
  have u4: "unat r4 = unat r3 * 256 + bcd_val 2 (nat (tm_hour ?p))"
    unfolding r4_def using b b3 by (intro bcd_push_val) simp_all
  have b4: "unat r4 < 2 ^ 32" using u4 b3 lt [of "tm_hour ?p"] b by simp
  have u5: "unat r5 = unat r4 * 256 + bcd_val 2 (nat (tm_min ?p))"
    unfolding r5_def using b b4 by (intro bcd_push_val) simp_all
  have b5: "unat r5 < 2 ^ 40" using u5 b4 lt [of "tm_min ?p"] b by simp
  have u6: "unat r6 = unat r5 * 256 + bcd_val 2 (nat (tm_sec ?p))"
    unfolding r6_def using b b5 by (intro bcd_push_val) simp_all
  have g: "get_time_bcd tz t = r6"
    by (simp add: get_time_bcd_def Let_def y r1_def r2_def r3_def r4_def r5_def r6_def)
  have l: "le_bytes (Suc n) (a * 256 + bcd_val 2 (nat v)) = word_of_nat (bcd_val 2 (nat v)) # le_bytes n a"
    if "0 \<le> v" "v < 100" for n a v
    using le_bytes_Suc_push [OF lt [OF that]] .
  have r: "0 \<le> tm_sec ?p" "tm_sec ?p < 100" "0 \<le> tm_min ?p" "tm_min ?p < 100"
    "0 \<le> tm_hour ?p" "tm_hour ?p < 100" "0 \<le> tm_mday ?p" "tm_mday ?p < 100"
    "0 \<le> tm_mon ?p + 1" "tm_mon ?p + 1 < 100" using b by simp_all
  note ls = l [OF r(1,2)] l [OF r(3,4)] l [OF r(5,6)] l [OF r(7,8)] l [OF r(9,10)]
  have z: "le_bytes (Suc 2) (bcd_val 2 (nat ?y)) = word_of_nat (bcd_val 2 (nat ?y)) # [0, 0]"
  proof -
    have "le_bytes 2 0 = [0, 0]" unfolding numeral_2_eq_2 by simp
    then show ?thesis
      using le_bytes_Suc_push [OF lt [OF yb], of 2 0] by (simp only: mult_zero_left add_0)
  qed
  have "le_bytes 8 (unat r6) = le_bytes (Suc (Suc (Suc (Suc (Suc (Suc 2)))))) (unat r6)"
  proof -
    have "(8 :: nat) = Suc (Suc (Suc (Suc (Suc (Suc 2)))))" by simp
    then show ?thesis by (simp only:)
  qed
  also have "... = [word_of_nat (bcd_val 2 (nat (tm_sec ?p))), word_of_nat (bcd_val 2 (nat (tm_min ?p))),
      word_of_nat (bcd_val 2 (nat (tm_hour ?p))), word_of_nat (bcd_val 2 (nat (tm_mday ?p))),
      word_of_nat (bcd_val 2 (nat (tm_mon ?p + 1))), word_of_nat (bcd_val 2 (nat ?y)), 0, 0]"
    unfolding u6 u5 u4 u3 u2 u1 by (simp only: ls z)
  finally show ?thesis unfolding g by (simp add: time_fields_def Let_def)
qed

lemma length_Header [simp]: "length (Header_to_array tz h) = 23" "length (Header_to_array_front3 tz h) = 15"
  by (simp_all add: Header_to_array_def Header_to_array_front3_def blreverse_def)

text \<open>Reading the packed digits of the send time gives its fields, and between 2000 and 2099 the
  time itself.\<close>

lemma time_fields_bounds:
  "list_all (\<lambda>v. v < 100) (time_fields tz t)" "length (time_fields tz t) = 6"
  using localtime_bounds [of tz t] by (simp_all add: time_fields_def Let_def nat_less_iff)

lemma header_sendtime:
  assumes "0 \<le> tm_year (localtime tz (h_sendtime h)) + 1900"
  shows "map bcd_byte (take 6 (drop 2 (Header_to_array tz h))) = time_fields tz (h_sendtime h)"
proof -
  have "take 6 (drop 2 (Header_to_array tz h)) = rev (take 6 (le_bytes 8 (unat (get_time_bcd tz (h_sendtime h)))))"
    by (simp add: Header_to_array_def blreverse_def)
  also have "... = map (\<lambda>v. word_of_nat (bcd_val 2 v)) (time_fields tz (h_sendtime h))"
    using time_fields_bounds(2) [of tz "h_sendtime h"] by (simp add: get_time_bcd_bytes [OF assms])
  finally show ?thesis
    using time_fields_bounds(1) [of tz "h_sendtime h"] by (simp add: list_all_iff bcd_byte_pack map_idI)
qed

lemma time_fields_time:
  assumes "2000 \<le> tm_year (localtime tz t) + 1900" "tm_year (localtime tz t) + 1900 < 2100"
  defines "f \<equiv> \<lambda>i. int (time_fields tz t ! i)"
  shows "TimeSet tz (2000 + f 0) (f 1) (f 2) (f 3) (f 4) (f 5) = t"
proof -
  note b = localtime_bounds [of tz t]
  have "(tm_year (localtime tz t) + 1900) mod 100 = tm_year (localtime tz t) + 1900 - 2000"
  proof -
    have "x mod 100 = x - 2000" if "2000 \<le> x" "x < 2100" for x :: int
    proof -
      have "(x - 2000 + 20 * 100) mod 100 = (x - 2000) mod 100" by (rule mod_mult_self1)
      then show ?thesis using that by simp
    qed
    then show ?thesis using assms(1,2) by blast
  qed
  then have "2000 + f 0 = tm_year (localtime tz t) + 1900" "f 1 = tm_mon (localtime tz t) + 1"
    "f 2 = tm_mday (localtime tz t)" "f 3 = tm_hour (localtime tz t)" "f 4 = tm_min (localtime tz t)"
    "f 5 = tm_sec (localtime tz t)"
    using b assms(1) by (simp_all add: f_def time_fields_def Let_def numeral_eq_Suc)
  then show ?thesis using TimeSet_localtime [of tz t] by (simp only:)
qed

section \<open>What a report body says\<close>

text \<open>The reports of the named items in order, the empty ones skipped.\<close>

fun zw_reports :: "(DataClass \<Rightarrow> 'n \<Rightarrow> place) \<Rightarrow> DataClass \<Rightarrow> 'n list \<Rightarrow> bytes list option" where
  "zw_reports look pdata [] = Some []"
| "zw_reports look pdata (n # ns) = do {
     it \<leftarrow> get_place pdata (look pdata n);
     (w, ilen) \<leftarrow> toreport it;
     ws \<leftarrow> zw_reports look pdata ns;
     if ilen = int (length w) \<and> length w \<le> 1024 then Some (w # ws) else None }"

lemma zw_loop_reports:
  assumes "zw_reports look pdata ns = Some ws" "length cache = 1024"
    and "pos + length (concat ws) \<le> length out"
  shows "zw_loop look pdata ns cache out pos =
    Some (take pos out @ concat ws @ drop (pos + length (concat ws)) out, pos + length (concat ws))"
  using assms
proof (induction ns arbitrary: ws cache out pos)
  case Nil
  then show ?case by simp
next
  case (Cons n ns)
  from Cons.prems(1) obtain it w ws' where it: "get_place pdata (look pdata n) = Some it"
    "toreport it = Some (w, int (length w))" "zw_reports look pdata ns = Some ws'"
    "length w \<le> 1024" "ws = w # ws'"
    by (auto split: bind_splits if_splits)
  let ?cache = "w @ drop (length w) cache"
  have c: "memcpy_at 0 w cache = Some ?cache" "length ?cache = 1024"
    using it(4) Cons.prems(2) by (simp_all add: memcpy_at_def)
  have fit: "pos + length w + length (concat ws') \<le> length out" using Cons.prems(3) it(5) by simp
  let ?out = "take pos out @ w @ drop (pos + length w) out"
  have "zw_loop look pdata ns ?cache ?out (pos + length w) =
      Some (take (pos + length w) ?out @ concat ws' @ drop (pos + length w + length (concat ws')) ?out,
        pos + length w + length (concat ws'))"
    using Cons.IH [OF it(3) c(2), of "pos + length w" ?out] fit by simp
  moreover have "zw_loop look pdata (n # ns) cache out pos = zw_loop look pdata ns ?cache ?out (pos + length w)"
  proof (cases "w = []")
    case True
    with it c(1) show ?thesis by simp
  next
    case False
    have "memcpy_at pos w out = Some ?out" using fit by (simp add: memcpy_at_def)
    with it c(1) False show ?thesis by (simp add: rd_range_def)
  qed
  ultimately show ?case using fit it(5) by (simp add: ac_simps)
qed

lemma zw_to_array_reports:
  assumes "zw_reports look pdata (zw_names z) = Some ws" "length cache = 1024"
    and "23 + length (concat ws) \<le> length out"
    and body_def: "body = Header_to_array tz (zw_header z) @ concat ws"
  shows "zw_to_array tz look pdata z cache out 0 = Some (body @ drop (length body) out, int (length body))"
proof -
  let ?h = "Header_to_array tz (zw_header z)"
  have m: "memcpy_at 0 ?h out = Some (?h @ drop 23 out)" using assms(3) by (simp add: memcpy_at_def)
  have "zw_loop look pdata (zw_names z) cache (?h @ drop 23 out) 23 =
      Some (?h @ concat ws @ drop (23 + length (concat ws)) out, 23 + length (concat ws))"
    using zw_loop_reports [OF assms(1,2), of 23 "?h @ drop 23 out"] assms(3) by (simp add: add.commute)
  with m show ?thesis by (simp add: zw_to_array_def body_def Let_def add.commute)
qed

end
