(* ===== verification/Send_Mode.thy ===== *)
theory Send_Mode
  imports Packet Mx_Device Header
begin

text \<open>
  The transmission protocol of \<^verbatim>\<open>app/up/sendmode.cpp\<close>: splitting a report into packets, the
  receive callback with its decoder, and the four ways of sending. The device is any record of
  the interface \<open>MxDevice\<close>. The device's own threads run while the program sleeps: \<open>env n d\<close>
  is what happens to the device \<open>d\<close> during the \<open>n\<close>-th sleep, with the chunks it hands to the
  receive callback. Station address and password are the values of items \<^verbatim>\<open>0x02\<close> and \<^verbatim>\<open>0x03\<close>.
  \<open>None\<close> is an access outside a buffer or, for \<open>m3_await\<close>, a wait that never ends.
\<close>

section \<open>State\<close>

datatype MXType = M1 | M2 | M3 | M4

record 'd SendMode =
  sm_dev :: 'd
  sm_sleeps :: nat
  sm_sent :: "bytes list"
  sm_type :: MXType
  sm_data :: bytes
  sm_len :: int
  sm_psize :: int
  sm_packet_count :: int
  sm_cmd :: int
  sm_remote :: u8
  sm_packet_flag :: bool
  sm_up :: UUPacket
  sm_down :: UDpacketCache
  sm_packet :: UDpacketCache
  sm_center :: bool
  sm_get_packet :: bool
  sm_utimeout :: ul64
  sm_etx :: u8
  sm_seial_number :: u16

type_synonym 'd env = "nat \<Rightarrow> 'd \<Rightarrow> ('d \<times> bytes list) option"

definition empty_cache :: UDpacketCache where
  "empty_cache = \<lparr>ud_state = 0, ud_len = 0, ud_p = replicate ud_size 0\<rparr>"

definition empty_packet :: UUPacket where
  "empty_packet = \<lparr>up_start = 0, up_remote = 0, up_local = replicate 5 0, up_passwd = replicate 2 0,
     up_cmd = 0, up_len = 0, up_stx = 0, up_data = replicate 1044 0, up_packetlen = 0\<rparr>"

definition new_SendMode :: "'d \<Rightarrow> 'd SendMode" where
  "new_SendMode d = \<lparr>sm_dev = d, sm_sleeps = 0, sm_sent = [], sm_type = M1, sm_data = [], sm_len = 0,
     sm_psize = 0, sm_packet_count = 0, sm_cmd = 0, sm_remote = 0, sm_packet_flag = False,
     sm_up = empty_packet, sm_down = empty_cache, sm_packet = empty_cache, sm_center = False,
     sm_get_packet = False, sm_utimeout = 0, sm_etx = 0, sm_seial_number = 1\<rparr>"

section \<open>Receiving\<close>

text \<open>\<^verbatim>\<open>down_packet_process\<close> of \<^verbatim>\<open>thread_up.cpp\<close>, the callback behind \<^verbatim>\<open>center\<close>.\<close>

definition down_packet_process :: "'d SendMode \<Rightarrow> 'd SendMode" where
  "down_packet_process s = s\<lparr>sm_packet_flag := True, sm_etx := ud_etx (ud_p (sm_packet s))\<rparr>"

text \<open>The conversion of a received packet: \<^verbatim>\<open>len\<close>, \<^verbatim>\<open>local\<close> and \<^verbatim>\<open>passwd\<close> are turned round.\<close>

definition rev_at :: "nat \<Rightarrow> nat \<Rightarrow> bytes \<Rightarrow> bytes" where
  "rev_at off n p = put_bytes off (rev (take n (drop off p))) p"

definition to_host :: "UDpacketCache \<Rightarrow> UDpacketCache" where
  "to_host ud = ud\<lparr>ud_p := rev_at 8 2 (rev_at 2 5 (rev_at 11 2 (ud_p ud)))\<rparr>"

definition up_packet_process :: "'d SendMode \<Rightarrow> bytes \<Rightarrow> 'd SendMode" where
  "up_packet_process s chunk =
     (let (down, got) = upacket_decode (sm_down s) chunk False;
          s1 = s\<lparr>sm_down := down\<rparr>;
          s2 = (if got
                then (let r = s1\<lparr>sm_get_packet := True, sm_packet := to_host (sm_down s1)\<rparr>
                      in if sm_center r then down_packet_process r else r)
                else s1)
      in s2\<lparr>sm_down := fst (upacket_decode (sm_down s2) [] True)\<rparr>)"

text \<open>One sleep.\<close>

definition pause :: "'d env \<Rightarrow> 'd SendMode \<Rightarrow> 'd SendMode option" where
  "pause env s = do {
     (d, chunks) \<leftarrow> env (sm_sleeps s) (sm_dev s);
     Some (foldl up_packet_process (s\<lparr>sm_dev := d, sm_sleeps := Suc (sm_sleeps s)\<rparr>) chunks) }"

section \<open>Sending\<close>

definition get_sn_size :: "'d SendMode \<Rightarrow> int \<Rightarrow> int" where
  "get_sn_size s sn =
     (if sn = 0 then 0
      else if sn = sm_packet_count s then sm_len s - (sn - 1) * sm_psize s
      else sm_psize s)"

text \<open>\<open>n\<close> bytes of the report from \<open>off\<close>.\<close>

definition data_at :: "'d SendMode \<Rightarrow> int \<Rightarrow> int \<Rightarrow> bytes option" where
  "data_at s off n =
     (if n = 0 then Some []
      else if off < 0 \<or> n < 0 then None
      else rd_range (sm_data s) (nat off) (nat n))"

text \<open>Handing the packet structure to the device.\<close>

definition dev_send :: "'d MxDevice \<Rightarrow> int \<Rightarrow> 'd SendMode \<Rightarrow> 'd SendMode option" where
  "dev_send mx ms s = do {
     (d, out) \<leftarrow> mx_send mx (sm_dev s) (uu_bytes (sm_up s)) (up_packetlen (sm_up s)) ms ms;
     Some (s\<lparr>sm_dev := d,
            sm_sent := sm_sent s @ [take (nat (up_packetlen (sm_up s))) (uu_bytes (sm_up s))]\<rparr>) }"

text \<open>Waiting for the device to finish, polled every \<open>d\<close> milliseconds (a positive constant).\<close>

function send_end_loop ::
    "'d MxDevice \<Rightarrow> 'd env \<Rightarrow> int \<Rightarrow> int \<Rightarrow> int \<Rightarrow> 'd SendMode \<Rightarrow> ('d SendMode \<times> bool) option" where
  "send_end_loop mx env d ms t s =
     (if t < ms \<and> 0 < d
      then do {
        s1 \<leftarrow> pause env s;
        if mx_is_send_end mx (sm_dev s1) then Some (s1, True)
        else send_end_loop mx env d ms (t + d) s1 }
      else Some (s, False))"
  by auto
termination by (relation "measure (\<lambda>(mx, env, d, ms, t, s). nat (ms - t))") auto

declare send_end_loop.simps [simp del]

definition m3_send ::
    "'d MxDevice \<Rightarrow> 'd env \<Rightarrow> l64 \<Rightarrow> l64 \<Rightarrow> int \<Rightarrow> int \<Rightarrow> 'd SendMode \<Rightarrow> ('d SendMode \<times> int) option" where
  "m3_send mx env loc pw sn ms s = do {
     let nowlen = get_sn_size s sn;
     d \<leftarrow> data_at s ((sn - 1) * sm_psize s) nowlen;
     let s1 = s\<lparr>sm_get_packet := False\<rparr>;
     (up, dlen) \<leftarrow> upacket_encodehex_m3 loc pw (sm_up s1) True (sm_remote s1) (word_of_int (sm_cmd s1))
       (sm_packet_count s1) sn d
       (if sm_packet_count s1 = 1 then STX_STX else STX_SYN)
       (if sn = sm_packet_count s1 then ETX_ETX else ETX_ETB);
     s2 \<leftarrow> dev_send mx ms (s1\<lparr>sm_up := up\<rparr>);
     s3 \<leftarrow> pause env s2;
     (s4, r) \<leftarrow> send_end_loop mx env 10 ms 0 s3;
     Some (s4, if mx_is_send_end mx (sm_dev s4) then 0 else -1) }"

definition sm_init :: "MXType \<Rightarrow> u8 \<Rightarrow> int \<Rightarrow> bytes \<Rightarrow> int \<Rightarrow> int \<Rightarrow> 'd SendMode \<Rightarrow> 'd SendMode" where
  "sm_init ty rem cm dat n size_per_packet s =
     (let s1 = s\<lparr>sm_type := ty, sm_data := dat, sm_psize := size_per_packet, sm_cmd := cm, sm_remote := rem\<rparr>;
          n' = (if n + 16 > PDSIZE then PDSIZE - 16 else n);
          s2 = s1\<lparr>sm_len := n'\<rparr>
      in if n' \<le> 0 then s2
         else
           let pc = n' sdiv size_per_packet + (if n' smod size_per_packet = 0 then 0 else 1)
           in s2\<lparr>sm_packet_count := (if pc = 0 then 1 else pc)\<rparr>)"

section \<open>Waiting\<close>

subsection \<open>M1: send, no answer\<close>

definition wait_m1 ::
    "'d MxDevice \<Rightarrow> 'd env \<Rightarrow> l64 \<Rightarrow> l64 \<Rightarrow> int \<Rightarrow> 'd SendMode \<Rightarrow> ('d SendMode \<times> int) option" where
  "wait_m1 mx env loc pw ms s = do {
     d \<leftarrow> data_at s 0 (sm_len s);
     (up, dlen) \<leftarrow> upacket_encodehex loc pw (sm_up s) True (sm_remote s) (word_of_int (sm_cmd s)) d
       STX_STX ETX_ETX;
     s1 \<leftarrow> dev_send mx ms (s\<lparr>sm_up := up\<rparr>);
     (s2, r) \<leftarrow> send_end_loop mx env 1 ms 0 s1;
     Some (s2, if r then 0 else -1) }"

subsection \<open>M2 and M4: one answer for each packet, three attempts\<close>

function reply_loop :: "'d env \<Rightarrow> int \<Rightarrow> int \<Rightarrow> 'd SendMode \<Rightarrow> 'd SendMode option" where
  "reply_loop env ms t s =
     (if t \<le> ms
      then do {
        s1 \<leftarrow> pause env s;
        if sm_get_packet s1 then Some s1 else reply_loop env ms (t + 10) s1 }
      else Some s)"
  by auto
termination by (relation "measure (\<lambda>(env, ms, t, s). nat (ms - t + 1))") auto

declare reply_loop.simps [simp del]

text \<open>The attempts of one packet end in a return from \<^verbatim>\<open>wait\<close> or go on to the next packet.\<close>

datatype attempt = Return int | Next_Packet

fun m2_retry ::
    "'d MxDevice \<Rightarrow> 'd env \<Rightarrow> int \<Rightarrow> nat \<Rightarrow> 'd SendMode \<Rightarrow> ('d SendMode \<times> attempt) option" where
  "m2_retry mx env ms 0 s = Some (s, Next_Packet)"
| "m2_retry mx env ms (Suc retry) s = do {
     s1 \<leftarrow> dev_send mx ms (s\<lparr>sm_get_packet := False\<rparr>);
     s2 \<leftarrow> reply_loop env ms 0 s1;
     if sm_get_packet s2 \<and> int (unat (ud_cmd (ud_p (sm_packet s2)))) = sm_cmd s2
     then (if sm_etx s2 = etx_code ETX_EOT \<or> sm_etx s2 = etx_code ETX_ESC
           then Some (s2, Return 0) else Some (s2, Next_Packet))
     else if retry = 0 then Some (s2, Return (-1))
     else m2_retry mx env ms retry s2 }"

fun m2_loop ::
    "'d MxDevice \<Rightarrow> 'd env \<Rightarrow> l64 \<Rightarrow> l64 \<Rightarrow> int \<Rightarrow> nat \<Rightarrow> int \<Rightarrow> 'd SendMode \<Rightarrow> ('d SendMode \<times> int) option"
  where
  "m2_loop mx env loc pw ms 0 c s = Some (s, 0)"
| "m2_loop mx env loc pw ms (Suc k) c s = do {
     let nowsize = get_sn_size s (c + 1);
     d \<leftarrow> data_at s (c * sm_psize s) nowsize;
     let s1 = s\<lparr>sm_get_packet := False\<rparr>;
     (up, dlen) \<leftarrow> upacket_encodehex loc pw (sm_up s1) True (sm_remote s1) (word_of_int (sm_cmd s1)) d
       (if sm_packet_count s1 = 1 then STX_STX else STX_SYN)
       (if c = sm_packet_count s1 - 1 then ETX_ETX else ETX_ETB);
     (s2, a) \<leftarrow> m2_retry mx env ms 3 (s1\<lparr>sm_up := up\<rparr>);
     case a of
       Return r \<Rightarrow> Some (s2, r)
     | Next_Packet \<Rightarrow> m2_loop mx env loc pw ms k (c + 1) s2 }"

definition wait_m2 ::
    "'d MxDevice \<Rightarrow> 'd env \<Rightarrow> l64 \<Rightarrow> l64 \<Rightarrow> int \<Rightarrow> 'd SendMode \<Rightarrow> ('d SendMode \<times> int) option" where
  "wait_m2 mx env loc pw ms s = m2_loop mx env loc pw ms (nat (sm_packet_count s)) 0 s"

subsection \<open>M3: all packets, then one answer\<close>

fun m3_all ::
    "'d MxDevice \<Rightarrow> 'd env \<Rightarrow> l64 \<Rightarrow> l64 \<Rightarrow> int \<Rightarrow> nat \<Rightarrow> int \<Rightarrow> 'd SendMode \<Rightarrow> ('d SendMode \<times> bool) option"
  where
  "m3_all mx env loc pw ms 0 c s = Some (s, True)"
| "m3_all mx env loc pw ms (Suc k) c s = do {
     (s1, r) \<leftarrow> m3_send mx env loc pw (c + 1) ms s;
     if r < 0 then Some (s1, False) else m3_all mx env loc pw ms k (c + 1) s1 }"

text \<open>The comparison that should recognise \<^verbatim>\<open>EOT\<close> compares the macro \<^verbatim>\<open>EOF\<close>, which is \<open>-1\<close>.
  Every request to send a packet again restarts the wait.\<close>

partial_function (option) m3_await ::
    "'d MxDevice \<Rightarrow> 'd env \<Rightarrow> l64 \<Rightarrow> l64 \<Rightarrow> int \<Rightarrow> int \<Rightarrow> 'd SendMode \<Rightarrow> ('d SendMode \<times> int) option" where
  "m3_await mx env loc pw ms t s =
     (if t < ms
      then do {
        s1 \<leftarrow> pause env s;
        (if sm_get_packet s1
         then (let p = ud_p (sm_packet s1); eot = ud_etx p
               in if (-1 :: int) = int (unat (etx_code ETX_EOT)) then Some (s1, 0)
                  else if eot = etx_code ETX_ESC then Some (s1, 0)
                  else if eot = etx_code ETX_NAK \<and> int (unat (ud_cmd p)) = sm_cmd s1
                  then do {
                    let w = le_val (rev (take 3 (ud_data p)));
                    (s2, r) \<leftarrow> m3_send mx env loc pw (int (w mod 2 ^ 12)) ms s1;
                    m3_await mx env loc pw ms 0 s2 }
                  else m3_await mx env loc pw ms (t + 1) s1)
         else m3_await mx env loc pw ms (t + 1) s1) }
      else Some (s, -2))"

definition wait_m3 ::
    "'d MxDevice \<Rightarrow> 'd env \<Rightarrow> l64 \<Rightarrow> l64 \<Rightarrow> int \<Rightarrow> 'd SendMode \<Rightarrow> ('d SendMode \<times> int) option" where
  "wait_m3 mx env loc pw ms s = do {
     (s1, ok) \<leftarrow> m3_all mx env loc pw ms (nat (sm_packet_count s)) 0 s;
     if ok then m3_await mx env loc pw ms 0 s1 else Some (s1, -1) }"

definition sm_wait ::
    "'d MxDevice \<Rightarrow> 'd env \<Rightarrow> l64 \<Rightarrow> l64 \<Rightarrow> int \<Rightarrow> 'd SendMode \<Rightarrow> ('d SendMode \<times> int) option" where
  "sm_wait mx env loc pw ms s =
     (if sm_len s \<le> 0 then Some (s, 0)
      else case sm_type s of
             M1 \<Rightarrow> wait_m1 mx env loc pw ms s
           | M2 \<Rightarrow> wait_m2 mx env loc pw ms s
           | M4 \<Rightarrow> wait_m2 mx env loc pw ms s
           | M3 \<Rightarrow> wait_m3 mx env loc pw ms s)"

end
