(* ===== verification/Send_Laws.thy ===== *)
theory Send_Laws
  imports Send_Mode
begin

text \<open>
  What the transmission protocol guarantees: the packets of a report are its parts in order, the
  receive callback looks at each chunk alone, sending without an answer transmits one frame, and
  sending with answers ends after at most three attempts for a packet, with a matching answer
  whenever it succeeds.
\<close>

section \<open>Splitting a report\<close>

lemma concat_pieces: "concat (map (\<lambda>i. take p (drop (i * p) xs)) [0..<k]) = take (k * p) xs"
proof (induction k)
  case 0
  then show ?case by simp
next
  case (Suc k)
  have "take (k * p) xs @ take p (drop (k * p) xs) = take (k * p + p) xs" by (simp add: take_add)
  with Suc show ?case by (simp add: add.commute)
qed

definition sm_piece :: "'d SendMode \<Rightarrow> nat \<Rightarrow> bytes" where
  "sm_piece s c = take (nat (get_sn_size s (int c + 1))) (drop (c * nat (sm_psize s)) (sm_data s))"

lemma sm_init_fields:
  assumes "0 < n" "0 < p"
    and s'_def: "s' = sm_init ty rem cm dat n p s" and L_def: "L = min n 1008"
  shows "sm_len s' = L" "sm_psize s' = p" "sm_data s' = dat" "sm_cmd s' = cm" "sm_remote s' = rem"
    "sm_type s' = ty" "sm_packet_count s' = (L + p - 1) div p" "0 < L" "0 < sm_packet_count s'"
proof -
  have L: "(if n + 16 > PDSIZE then PDSIZE - 16 else n) = L"
    by (simp add: PDSIZE_def L_def)
  show pos: "0 < L" using assms(1) by (simp add: L_def)
  have c: "(L + p - 1) div p = L div p + (if L mod p = 0 then 0 else 1)"
  proof -
    have e: "L + p - 1 = L div p * p + (L mod p + p - 1)" by simp
    have "(L mod p + p - 1) div p = (if L mod p = 0 then 0 else 1)"
    proof (cases "L mod p = 0")
      case True
      then show ?thesis using assms(2) by simp
    next
      case False
      moreover have "0 \<le> L mod p" "L mod p < p" using assms(2) by simp_all
      ultimately have z: "(L mod p - 1) div p = 0" by (intro div_pos_pos_trivial) linarith+
      have "(L mod p - 1 + p) div p = (L mod p - 1) div p + 1" using assms(2) by (intro div_add_self2) simp
      with False z show ?thesis by (simp add: algebra_simps)
    qed
    then show ?thesis
      using assms(2) div_mult_self3 [of p "L div p" "L mod p + p - 1"] unfolding e by (simp add: algebra_simps)
  qed
  have "L div p + (if L mod p = 0 then 0 else 1) \<noteq> 0"
  proof
    assume z: "L div p + (if L mod p = 0 then 0 else 1) = 0"
    moreover have "0 \<le> L div p" using pos assms(2) by (simp add: pos_imp_zdiv_nonneg_iff)
    ultimately have "L div p = 0" "L mod p = 0" by (auto split: if_splits)
    then have "L = 0" using div_mult_mod_eq [of L p] by simp
    then show False using pos by simp
  qed
  then have nz: "L mod p = 0 \<Longrightarrow> L div p \<noteq> 0" by simp
  have "0 \<le> L div p" using pos assms(2) by (simp add: pos_imp_zdiv_nonneg_iff)
  then show "0 < sm_packet_count s'" "sm_packet_count s' = (L + p - 1) div p"
    using nz pos assms(2) unfolding s'_def sm_init_def L c by (auto simp: Let_def order.strict_iff_order)
  show "sm_len s' = L" "sm_psize s' = p" "sm_data s' = dat" "sm_cmd s' = cm" "sm_remote s' = rem" "sm_type s' = ty"
    using pos unfolding s'_def sm_init_def L by (simp_all add: Let_def)
qed

lemma sn_sizes:
  assumes "0 < n" "0 < p" "1 \<le> sn" "sn \<le> sm_packet_count (sm_init ty rem cm dat n p s)"
  shows "0 < get_sn_size (sm_init ty rem cm dat n p s) sn"
    "get_sn_size (sm_init ty rem cm dat n p s) sn \<le> p"
proof -
  let ?s = "sm_init ty rem cm dat n p s" and ?L = "min n 1008"
  note f = sm_init_fields [OF assms(1,2) refl [of "sm_init ty rem cm dat n p s"] refl]
  have pc: "sm_packet_count ?s = (?L + p - 1) div p" by (rule f(7))
  have "(sm_packet_count ?s - 1) * p < ?L" "?L \<le> sm_packet_count ?s * p"
  proof -
    have d: "(?L + p - 1) div p * p + (?L + p - 1) mod p = ?L + p - 1" by simp
    have m: "0 \<le> (?L + p - 1) mod p" "(?L + p - 1) mod p < p" using assms(2) by simp_all
    show "(sm_packet_count ?s - 1) * p < ?L" using d m unfolding pc left_diff_distrib mult_1 by linarith
    show "?L \<le> sm_packet_count ?s * p" using d m unfolding pc by linarith
  qed
  then show "0 < get_sn_size ?s sn" "get_sn_size ?s sn \<le> p"
    using assms(2,3) f(1,2) by (auto simp: get_sn_size_def left_diff_distrib)
qed

lemma pieces_concat:
  assumes "0 < n" "0 < p" and "s' = sm_init ty rem cm dat n p s"
  shows "concat (map (sm_piece s') [0..<nat (sm_packet_count s')]) = take (nat (min n 1008)) dat"
proof -
  let ?L = "min n 1008"
  note f = sm_init_fields [OF assms(1,2,3) refl]
  define k where "k = nat (sm_packet_count s') - 1"
  have k: "nat (sm_packet_count s') = Suc k" "sm_packet_count s' = int k + 1" using f(9) by (simp_all add: k_def)
  have init: "map (sm_piece s') [0..<k] = map (\<lambda>i. take (nat p) (drop (i * nat p) dat)) [0..<k]"
    using k f(2,3) by (intro map_cong) (auto simp: sm_piece_def get_sn_size_def)
  have last: "sm_piece s' k = take (nat (?L - int k * p)) (drop (k * nat p) dat)"
    using k f by (simp add: sm_piece_def get_sn_size_def)
  have "int k * p < ?L"
    using sn_sizes(1) [OF assms(1,2), of "int k + 1" ty rem cm dat s] k f(1,2)
    unfolding assms(3) [symmetric] by (simp add: get_sn_size_def)
  then have "nat ?L = k * nat p + nat (?L - int k * p)" using assms(1,2)
    by (cases "0 \<le> ?L") (simp_all add: nat_eq_iff nat_mult_distrib)
  then have "take (k * nat p) dat @ take (nat (?L - int k * p)) (drop (k * nat p) dat) = take (nat ?L) dat"
    by (simp add: take_add)
  then show ?thesis unfolding k(1) upt_Suc_append [OF le0] map_append concat_append init concat_pieces
    by (simp add: last)
qed

section \<open>Receiving\<close>

lemma up_packet_process_reset:
  "sm_down (up_packet_process s chunk) = decode_reset (sm_down s)"
  by (auto simp: up_packet_process_def upacket_decode_def decode_reset_def Let_def down_packet_process_def
      split: prod.splits)

lemma foldl_process_reset:
  "chunks \<noteq> [] \<Longrightarrow> sm_down (foldl up_packet_process s chunks) = empty_cache"
proof (induction chunks rule: rev_induct)
  case (snoc c cs)
  show ?case by (simp add: up_packet_process_reset decode_reset_def empty_cache_def)
qed simp

lemma decode_switch_packet: "decode_switch ud b = (ud', Packet) \<Longrightarrow> 17 \<le> ud_len ud"
  by (auto simp: decode_switch_def decode_error_def Let_def split: if_splits)

lemma decode_switch_len: "decode_switch ud b = (ud', r) \<Longrightarrow> ud_len ud' \<le> ud_len ud"
  by (auto simp: decode_switch_def decode_error_def Let_def accept_frame_def split: if_splits)

lemma decode_short:
  "ud_len ud + length bs < 17 \<Longrightarrow> \<not> snd (decode_bytes ud bs)"
proof (induction bs arbitrary: ud)
  case (Cons b bs)
  obtain u r where u: "decode_byte ud b = (u, r)" by fastforce
  from Cons.prems have l: "ud_len ud < ud_size" by (simp add: ud_size_def)
  with u have sw: "decode_switch (ud\<lparr>ud_p := (ud_p ud)[ud_len ud := b], ud_len := ud_len ud + 1\<rparr>) b = (u, r)"
    by (simp add: decode_byte_def)
  have "ud_len u \<le> ud_len ud + 1" "r \<noteq> Packet"
    using decode_switch_len [OF sw] decode_switch_packet [of _ b u] sw Cons.prems by fastforce+
  with Cons u show ?case by (cases r) auto
qed simp

text \<open>A chunk shorter than the shortest frame never completes a packet: whatever came before it is
  forgotten.\<close>

lemma short_chunk_lost:
  assumes "sm_down s = empty_cache" "length chunk < 17"
  shows "sm_get_packet (up_packet_process s chunk) = sm_get_packet s"
    "sm_packet (up_packet_process s chunk) = sm_packet s"
    "sm_down (up_packet_process s chunk) = empty_cache"
proof -
  have "\<not> snd (decode_bytes (sm_down s) chunk)"
    by (rule decode_short) (use assms in \<open>simp add: empty_cache_def\<close>)
  then show "sm_get_packet (up_packet_process s chunk) = sm_get_packet s"
    "sm_packet (up_packet_process s chunk) = sm_packet s"
    by (auto simp: up_packet_process_def upacket_decode_def Let_def split: prod.splits)
  show "sm_down (up_packet_process s chunk) = empty_cache"
    by (simp add: up_packet_process_reset decode_reset_def empty_cache_def)
qed

lemma short_chunks_lost:
  assumes "sm_down s = empty_cache" "\<forall>c\<in>set chunks. length c < 17"
  shows "sm_get_packet (foldl up_packet_process s chunks) = sm_get_packet s"
  using assms
proof (induction chunks arbitrary: s)
  case (Cons c cs)
  then show ?case using short_chunk_lost [of s c] by simp
qed simp

text \<open>A whole frame in one chunk is taken.\<close>

lemma frame_chunk_taken:
  assumes "sm_down s = empty_cache" "frame_ok f"
  shows "sm_get_packet (up_packet_process s (f @ rest))"
    "sm_packet (up_packet_process s (f @ rest)) =
      to_host (accept_frame \<lparr>ud_state = 8, ud_len = length f, ud_p = f @ replicate (ud_size - length f) 0\<rparr>)"
  using decode_accepts [OF assms(2), of empty_cache rest] assms(1)
  by (auto simp: up_packet_process_def upacket_decode_def Let_def empty_cache_def down_packet_process_def)

section \<open>What a pause leaves alone\<close>

text \<open>The settings of a transmission and the frames handed over.\<close>

definition sm_same :: "'d SendMode \<Rightarrow> 'd SendMode \<Rightarrow> bool" where
  "sm_same s s' \<longleftrightarrow> sm_type s' = sm_type s \<and> sm_data s' = sm_data s \<and> sm_len s' = sm_len s
     \<and> sm_psize s' = sm_psize s \<and> sm_packet_count s' = sm_packet_count s \<and> sm_cmd s' = sm_cmd s
     \<and> sm_remote s' = sm_remote s \<and> sm_up s' = sm_up s \<and> sm_center s' = sm_center s"

lemma sm_same_refl [simp]: "sm_same s s"
  by (simp add: sm_same_def)

lemma sm_same_trans: "sm_same a b \<Longrightarrow> sm_same b c \<Longrightarrow> sm_same a c"
  by (simp add: sm_same_def)

lemma up_packet_process_same:
  "sm_same s (up_packet_process s chunk) \<and> sm_sent (up_packet_process s chunk) = sm_sent s"
  by (auto simp: up_packet_process_def sm_same_def down_packet_process_def Let_def split: prod.splits)

lemma foldl_process_same:
  "sm_same s (foldl up_packet_process s chunks) \<and> sm_sent (foldl up_packet_process s chunks) = sm_sent s"
proof (induction chunks rule: rev_induct)
  case (snoc c cs)
  then show ?case using up_packet_process_same sm_same_trans by fastforce
qed simp

lemma pause_same:
  assumes "pause env s = Some s'"
  shows "sm_same s s' \<and> sm_sent s' = sm_sent s"
proof -
  from assms obtain d chunks where
    "s' = foldl up_packet_process (s\<lparr>sm_dev := d, sm_sleeps := Suc (sm_sleeps s)\<rparr>) chunks"
    by (auto simp: pause_def split: bind_splits)
  then show ?thesis
    using foldl_process_same [of "s\<lparr>sm_dev := d, sm_sleeps := Suc (sm_sleeps s)\<rparr>" chunks]
    by (simp add: sm_same_def)
qed

lemma dev_send_sent:
  "dev_send mx ms s = Some s' \<Longrightarrow> sm_same s s' \<and> sm_get_packet s' = sm_get_packet s \<and>
    sm_sent s' = sm_sent s @ [take (nat (up_packetlen (sm_up s))) (uu_bytes (sm_up s))]"
  by (auto simp: dev_send_def sm_same_def split: bind_splits)

section \<open>Waiting\<close>

lemma send_end_loop_same:
  "send_end_loop mx env d ms t s = Some (s', r) \<Longrightarrow> sm_same s s' \<and> sm_sent s' = sm_sent s \<and>
    (r \<longrightarrow> mx_is_send_end mx (sm_dev s'))"
proof (induction mx env d ms t s rule: send_end_loop.induct)
  case (1 mx env d ms t s)
  show ?case
  proof (cases "t < ms \<and> 0 < d")
    case True
    with 1(2) obtain s1 where s1: "pause env s = Some s1"
      by (subst (asm) send_end_loop.simps) (auto split: bind_splits)
    note p = pause_same [OF s1]
    show ?thesis
    proof (cases "mx_is_send_end mx (sm_dev s1)")
      case True
      with 1(2) s1 \<open>t < ms \<and> 0 < d\<close> p show ?thesis by (subst (asm) send_end_loop.simps) simp
    next
      case False
      with 1(2) s1 \<open>t < ms \<and> 0 < d\<close> have "send_end_loop mx env d ms (t + d) s1 = Some (s', r)"
        by (subst (asm) send_end_loop.simps) simp
      from 1(1) [OF True s1 False this] p show ?thesis using sm_same_trans by fastforce
    qed
  next
    case False
    with 1(2) show ?thesis by (subst (asm) send_end_loop.simps) auto
  qed
qed

lemma reply_loop_same:
  "reply_loop env ms t s = Some s' \<Longrightarrow> sm_same s s' \<and> sm_sent s' = sm_sent s"
proof (induction env ms t s rule: reply_loop.induct)
  case (1 env ms t s)
  show ?case
  proof (cases "t \<le> ms")
    case True
    with 1(2) obtain s1 where s1: "pause env s = Some s1"
      by (subst (asm) reply_loop.simps) (auto split: bind_splits)
    note p = pause_same [OF s1]
    show ?thesis
    proof (cases "sm_get_packet s1")
      case True
      with 1(2) s1 \<open>t \<le> ms\<close> p show ?thesis by (subst (asm) reply_loop.simps) simp
    next
      case False
      with 1(2) s1 \<open>t \<le> ms\<close> have "reply_loop env ms (t + 10) s1 = Some s'"
        by (subst (asm) reply_loop.simps) simp
      from 1(1) [OF True s1 False this] p show ?thesis using sm_same_trans by fastforce
    qed
  next
    case False
    with 1(2) show ?thesis by (subst (asm) reply_loop.simps) simp
  qed
qed

text \<open>The frame that the next \<open>dev_send\<close> hands over.\<close>

definition cur_frame :: "'d SendMode \<Rightarrow> bytes" where
  "cur_frame s = take (nat (up_packetlen (sm_up s))) (uu_bytes (sm_up s))"

lemma cur_frame_same: "sm_same s s' \<Longrightarrow> cur_frame s' = cur_frame s"
  by (simp add: cur_frame_def sm_same_def)

definition answered :: "'d SendMode \<Rightarrow> bool" where
  "answered s \<longleftrightarrow> sm_get_packet s \<and> int (unat (ud_cmd (ud_p (sm_packet s)))) = sm_cmd s"

text \<open>The end mark of an answer that ends the whole transmission.\<close>

definition end_mark :: "'d SendMode \<Rightarrow> bool" where
  "end_mark s \<longleftrightarrow> sm_etx s = etx_code ETX_EOT \<or> sm_etx s = etx_code ETX_ESC"

lemma m2_retry_result:
  "m2_retry mx env ms k s = Some (s', a) \<Longrightarrow> 0 < k \<Longrightarrow>
    sm_same s s' \<and> (\<exists>n. 1 \<le> n \<and> n \<le> k \<and> sm_sent s' = sm_sent s @ replicate n (cur_frame s) \<and>
      (if a = Return (-1) then n = k \<and> \<not> answered s' else a \<in> {Return 0, Next_Packet} \<and> answered s') \<and>
      (a = Return 0 \<longrightarrow> end_mark s'))"
proof (induction k arbitrary: s)
  case (Suc k)
  then obtain s1 s2 where s1: "dev_send mx ms (s\<lparr>sm_get_packet := False\<rparr>) = Some s1"
    and s2: "reply_loop env ms 0 s1 = Some s2"
    by (auto split: bind_splits)
  note d = dev_send_sent [OF s1] and r = reply_loop_same [OF s2]
  have same: "sm_same s s2" using d r by (simp add: sm_same_def)
  have sent: "sm_sent s2 = sm_sent s @ [cur_frame s]" using d r by (simp add: cur_frame_def)
  show ?case
  proof (cases "answered s2")
    case True
    with Suc.prems s1 s2 have "s' = s2" "a \<in> {Return 0, Next_Packet}" "a = Return 0 \<longrightarrow> end_mark s2"
      by (auto simp: answered_def end_mark_def split: if_splits)
    with True same sent show ?thesis by (auto intro!: exI [of _ "1 :: nat"])
  next
    case False
    then have n: "\<not> (sm_get_packet s2 \<and> int (unat (ud_cmd (ud_p (sm_packet s2)))) = sm_cmd s2)"
      by (simp add: answered_def)
    show ?thesis
    proof (cases "k = 0")
      case True
      with Suc.prems s1 s2 n have "s' = s2" "a = Return (-1)" by auto
      with True False same sent show ?thesis by (auto intro!: exI [of _ "1 :: nat"])
    next
      case kpos: False
      with Suc.prems s1 s2 n have "m2_retry mx env ms k s2 = Some (s', a)" by (auto split: if_splits)
      from Suc.IH [OF this] kpos obtain m where m: "sm_same s2 s'" "1 \<le> m" "m \<le> k"
        "sm_sent s' = sm_sent s2 @ replicate m (cur_frame s2)"
        "if a = Return (-1) then m = k \<and> \<not> answered s' else a \<in> {Return 0, Next_Packet} \<and> answered s'"
        "a = Return 0 \<longrightarrow> end_mark s'"
        by auto
      have "sm_sent s' = sm_sent s @ replicate (Suc m) (cur_frame s)"
        using m(4) sent cur_frame_same [OF same] by simp
      with m same show ?thesis
        by (intro conjI exI [of _ "Suc m"]) (auto simp: sm_same_def split: if_splits)
    qed
  qed
qed simp

section \<open>Sending one frame\<close>

lemma upacket_encodehex_frame:
  assumes "uu_wf p" "length d \<le> 1021"
  shows "\<exists>p'. upacket_encodehex loc pw p up remote cmd d stx etx = Some (p', int (length d) + 17) \<and>
    uu_wf p' \<and> up_packetlen p' = int (length d) + 17 \<and>
    take (length d + 17) (uu_bytes p') = frame_of up remote loc (ucast pw) cmd d stx etx"
proof -
  have "upacket_encode p up remote loc (ucast pw) cmd None (Some d) stx etx =
      upacket_encode p up remote loc (ucast pw) cmd (Some []) (Some d) stx etx"
    by (simp add: upacket_encode_def)
  then show ?thesis
    using upacket_encode_frame [OF assms(1), of "[]" d "length d"] assms(2)
    by (simp add: upacket_encodehex_def)
qed

text \<open>The frame of the packet with index \<open>i\<close>: its part of the report between the marks of a single, a
  middle or the last packet.\<close>

definition packet_frame :: "l64 \<Rightarrow> l64 \<Rightarrow> 'd SendMode \<Rightarrow> nat \<Rightarrow> bytes" where
  "packet_frame loc pw s i =
     frame_of True (sm_remote s) loc (ucast pw) (word_of_int (sm_cmd s)) (sm_piece s i)
       (if sm_packet_count s = 1 then STX_STX else STX_SYN)
       (if int i = sm_packet_count s - 1 then ETX_ETX else ETX_ETB)"

lemma packet_frame_same:
  "sm_same (s\<lparr>sm_get_packet := b, sm_up := u\<rparr>) s' \<Longrightarrow> packet_frame loc pw s' i = packet_frame loc pw s i"
  by (simp add: packet_frame_def sm_same_def sm_piece_def get_sn_size_def)

text \<open>A report that \<^verbatim>\<open>init\<close> has cut: every packet has bytes, inside the report.\<close>

definition cut_ok :: "'d SendMode \<Rightarrow> bool" where
  "cut_ok s \<longleftrightarrow> 0 < sm_psize s \<and> sm_len s \<le> 1008 \<and> (sm_packet_count s - 1) * sm_psize s < sm_len s"

lemma cut_ok_same: "cut_ok s \<Longrightarrow> sm_same (s\<lparr>sm_get_packet := b, sm_up := u\<rparr>) s' \<Longrightarrow> cut_ok s'"
  by (simp add: cut_ok_def sm_same_def)

lemma cut_ok_init:
  assumes "0 < n" "0 < p"
  shows "cut_ok (sm_init ty rem cm dat n p s)"
proof -
  let ?s = "sm_init ty rem cm dat n p s"
  note f = sm_init_fields [OF assms refl [of ?s] refl]
  have "0 < get_sn_size ?s (sm_packet_count ?s)"
    by (rule sn_sizes(1) [OF assms]) (use f(9) in simp_all)
  then show ?thesis using f assms by (simp add: cut_ok_def get_sn_size_def)
qed

lemma cut_sizes:
  assumes "cut_ok s" "0 \<le> c" "c < sm_packet_count s"
  shows "0 < get_sn_size s (c + 1)" "c * sm_psize s + get_sn_size s (c + 1) \<le> sm_len s" "0 \<le> c * sm_psize s"
proof -
  have p: "0 < sm_psize s" "(sm_packet_count s - 1) * sm_psize s < sm_len s"
    using assms(1) by (simp_all add: cut_ok_def)
  have "c * sm_psize s \<le> (sm_packet_count s - 1) * sm_psize s"
    using p assms(3) by (intro mult_right_mono) simp_all
  moreover have "c < sm_packet_count s - 1 \<Longrightarrow> (c + 1) * sm_psize s \<le> (sm_packet_count s - 1) * sm_psize s"
    using p by (intro mult_right_mono) simp_all
  ultimately show "0 < get_sn_size s (c + 1)" "c * sm_psize s + get_sn_size s (c + 1) \<le> sm_len s"
    using p assms(2,3) by (auto simp: get_sn_size_def algebra_simps)
  show "0 \<le> c * sm_psize s" using p assms(2) by simp
qed

text \<open>The packet with index \<open>c\<close>, encoded.\<close>

lemma m2_encode:
  assumes "cut_ok s" "uu_wf (sm_up s)" "int c < sm_packet_count s"
    and d: "data_at s (int c * sm_psize s) (get_sn_size s (int c + 1)) = Some d"
    and e: "upacket_encodehex loc pw (sm_up s) True (sm_remote s) (word_of_int (sm_cmd s)) d
      (if sm_packet_count s = 1 then STX_STX else STX_SYN)
      (if int c = sm_packet_count s - 1 then ETX_ETX else ETX_ETB) = Some (up, dlen)"
  shows "uu_wf up" "take (nat (up_packetlen up)) (uu_bytes up) = packet_frame loc pw s c"
proof -
  let ?n = "get_sn_size s (int c + 1)"
  note n = cut_sizes [OF assms(1) _ assms(3)]
  have "nat (int c * sm_psize s) = c * nat (sm_psize s)"
    using assms(1) by (simp add: cut_ok_def nat_mult_distrib)
  then have dp: "d = sm_piece s c" and "length d \<le> nat ?n"
    using d n by (auto simp: data_at_def rd_range_def sm_piece_def split: if_splits)
  then have "length d \<le> 1021" using n assms(1) unfolding cut_ok_def by linarith
  from upacket_encodehex_frame [OF assms(2) this, of loc pw True "sm_remote s" "word_of_int (sm_cmd s)"] e
  have u: "uu_wf up" "up_packetlen up = int (length d) + 17" "take (length d + 17) (uu_bytes up) = packet_frame loc pw s c"
    unfolding packet_frame_def dp [symmetric] by (metis option.inject prod.inject)+
  have "nat (int (length d) + 17) = length d + 17" by simp
  then show "uu_wf up" "take (nat (up_packetlen up)) (uu_bytes up) = packet_frame loc pw s c"
    using u by simp_all
qed

text \<open>What is handed to the device when the packets from \<open>c\<close> on are sent as often as \<open>reps\<close> says.\<close>

fun sent_from :: "l64 \<Rightarrow> l64 \<Rightarrow> 'd SendMode \<Rightarrow> nat \<Rightarrow> nat list \<Rightarrow> bytes list" where
  "sent_from loc pw s c [] = []"
| "sent_from loc pw s c (n # reps) = replicate n (packet_frame loc pw s c) @ sent_from loc pw s (Suc c) reps"

lemma sent_from_same:
  "sm_same (s\<lparr>sm_get_packet := b, sm_up := u\<rparr>) s' \<Longrightarrow> sent_from loc pw s' c reps = sent_from loc pw s c reps"
  by (induction reps arbitrary: c) (simp_all add: packet_frame_same)

text \<open>A report sent with answers: the outcome, and what is handed to the device, how often.\<close>

lemma m2_loop_result:
  "m2_loop mx env loc pw ms k (int c) s = Some (s', r) \<Longrightarrow> cut_ok s \<Longrightarrow> uu_wf (sm_up s) \<Longrightarrow>
    int c + int k = sm_packet_count s \<Longrightarrow> 0 < k \<Longrightarrow>
    \<exists>reps. reps \<noteq> [] \<and> length reps \<le> k \<and> set reps \<subseteq> {1..3} \<and> sm_sent s' = sm_sent s @ sent_from loc pw s c reps \<and>
      (r = 0 \<and> answered s' \<and> (length reps = k \<or> end_mark s') \<or> r = -1 \<and> \<not> answered s' \<and> List.last reps = 3)"
proof (induction k arbitrary: c s)
  case (Suc k)
  from Suc.prems(1) obtain d up dlen s2 a where
    d: "data_at s (int c * sm_psize s) (get_sn_size s (int c + 1)) = Some d"
    and e: "upacket_encodehex loc pw (sm_up s) True (sm_remote s) (word_of_int (sm_cmd s)) d
      (if sm_packet_count s = 1 then STX_STX else STX_SYN)
      (if int c = sm_packet_count s - 1 then ETX_ETX else ETX_ETB) = Some (up, dlen)"
    and x: "m2_retry mx env ms 3 (s\<lparr>sm_get_packet := False, sm_up := up\<rparr>) = Some (s2, a)"
    and y: "(case a of Return r \<Rightarrow> Some (s2, r) | Next_Packet \<Rightarrow> m2_loop mx env loc pw ms k (int c + 1) s2) = Some (s', r)"
    by (auto simp: Let_def split: bind_splits)
  note u = m2_encode [OF Suc.prems(2,3) _ d e]
  have lt: "int c < sm_packet_count s" using Suc.prems(4) by simp
  from m2_retry_result [OF x] obtain n where n: "sm_same (s\<lparr>sm_get_packet := False, sm_up := up\<rparr>) s2"
    "1 \<le> n" "n \<le> 3" "sm_sent s2 = sm_sent s @ replicate n (packet_frame loc pw s c)"
    "if a = Return (-1) then n = 3 \<and> \<not> answered s2 else a \<in> {Return 0, Next_Packet} \<and> answered s2"
    "a = Return 0 \<longrightarrow> end_mark s2"
    using u(2) [OF lt] by (auto simp: cur_frame_def)
  show ?case
  proof (cases "a = Next_Packet \<and> 0 < k")
    case False
    then have "s' = s2" "r = -1 \<longleftrightarrow> a = Return (-1)" "r \<in> {0, -1}" "a = Next_Packet \<Longrightarrow> k = 0"
      using y n(5) by (auto split: attempt.splits if_splits)
    then show ?thesis
      using n by (intro exI [of _ "[n]"]) (auto split: if_splits)
  next
    case True
    with y have l: "m2_loop mx env loc pw ms k (int (Suc c)) s2 = Some (s', r)" by (simp add: add.commute)
    have "sm_up s2 = up" "sm_packet_count s2 = sm_packet_count s" using n(1) by (simp_all add: sm_same_def)
    then obtain reps where "reps \<noteq> []" "length reps \<le> k" "set reps \<subseteq> {1..3}"
      "sm_sent s' = sm_sent s2 @ sent_from loc pw s2 (Suc c) reps"
      "r = 0 \<and> answered s' \<and> (length reps = k \<or> end_mark s') \<or> r = -1 \<and> \<not> answered s' \<and> List.last reps = 3"
      using Suc.IH [OF l cut_ok_same [OF Suc.prems(2) n(1)]] u(1) [OF lt] Suc.prems(4) True by auto
    then show ?thesis
      using n(2-4) sent_from_same [OF n(1)] by (intro exI [of _ "n # reps"]) auto
  qed
qed simp

text \<open>Sending without an answer hands over exactly one frame, that of the whole report.\<close>

lemma wait_m1_frame:
  assumes "uu_wf (sm_up s)" "0 \<le> sm_len s" "sm_len s \<le> 1008" "sm_len s \<le> int (length (sm_data s))"
    and w: "wait_m1 mx env loc pw ms s = Some (s', r)"
  shows "sm_sent s' = sm_sent s @ [frame_of True (sm_remote s) loc (ucast pw) (word_of_int (sm_cmd s))
      (take (nat (sm_len s)) (sm_data s)) STX_STX ETX_ETX]"
    "r \<in> {0, -1}" "r = 0 \<Longrightarrow> mx_is_send_end mx (sm_dev s')"
proof -
  define d where "d = take (nat (sm_len s)) (sm_data s)"
  have d: "data_at s 0 (sm_len s) = Some d" "length d = nat (sm_len s)"
    using assms(2,4) by (auto simp: data_at_def rd_range_def d_def)
  have "length d \<le> 1021" using d(2) assms(3) by simp
  then obtain p' where p': "upacket_encodehex loc pw (sm_up s) True (sm_remote s) (word_of_int (sm_cmd s)) d STX_STX ETX_ETX
      = Some (p', int (length d) + 17)" "up_packetlen p' = int (length d) + 17"
    "take (length d + 17) (uu_bytes p') = frame_of True (sm_remote s) loc (ucast pw) (word_of_int (sm_cmd s)) d STX_STX ETX_ETX"
    using upacket_encodehex_frame [OF assms(1)] by blast
  from w d(1) p'(1) obtain s1 b where s1: "dev_send mx ms (s\<lparr>sm_up := p'\<rparr>) = Some s1"
    and s2: "send_end_loop mx env 1 ms 0 s1 = Some (s', b)" and r: "r = (if b then 0 else -1)"
    by (auto simp: wait_m1_def split: bind_splits)
  note e = send_end_loop_same [OF s2] and v = dev_send_sent [OF s1]
  have "nat (int (length d) + 17) = length d + 17" by simp
  then have "sm_sent s1 = sm_sent s @ [frame_of True (sm_remote s) loc (ucast pw) (word_of_int (sm_cmd s)) d STX_STX ETX_ETX]"
    using v p'(2,3) by simp
  with e show "sm_sent s' = sm_sent s @ [frame_of True (sm_remote s) loc (ucast pw) (word_of_int (sm_cmd s))
      (take (nat (sm_len s)) (sm_data s)) STX_STX ETX_ETX]" by (simp add: d_def)
  show "r \<in> {0, -1}" using r by simp
  show "r = 0 \<Longrightarrow> mx_is_send_end mx (sm_dev s')" using e r by (auto split: if_splits)
qed

section \<open>Waiting ends\<close>

text \<open>A device and its threads that never run out of their buffers.\<close>

definition dev_total :: "'d MxDevice \<Rightarrow> 'd env \<Rightarrow> bool" where
  "dev_total mx env \<longleftrightarrow> (\<forall>n d. env n d \<noteq> None) \<and>
     (\<forall>d buf n ms. length buf = 1058 \<longrightarrow> mx_send mx d buf n ms ms \<noteq> None)"

lemma pause_total: "dev_total mx env \<Longrightarrow> \<exists>s'. pause env s = Some s'"
proof -
  assume "dev_total mx env"
  then have "env (sm_sleeps s) (sm_dev s) \<noteq> None" unfolding dev_total_def by blast
  then show ?thesis by (auto simp: pause_def)
qed

lemma send_end_loop_total: "dev_total mx env \<Longrightarrow> send_end_loop mx env d ms t s \<noteq> None"
proof (induction mx env d ms t s rule: send_end_loop.induct)
  case (1 mx env d ms t s)
  obtain s1 where s1: "pause env s = Some s1" using pause_total [OF 1(2)] by blast
  with 1 show ?case by (subst send_end_loop.simps) auto
qed

lemma reply_loop_total: "dev_total mx env \<Longrightarrow> reply_loop env ms t s \<noteq> None"
proof (induction env ms t s rule: reply_loop.induct)
  case (1 env ms t s)
  obtain s1 where s1: "pause env s = Some s1" using pause_total [OF 1(2)] by blast
  with 1 show ?case by (subst reply_loop.simps) auto
qed

lemma uu_bytes_length: "uu_wf p \<Longrightarrow> length (uu_bytes p) = 1058"
  by (simp add: uu_wf_def uu_bytes_def)

lemma dev_send_total: "dev_total mx env \<Longrightarrow> uu_wf (sm_up s) \<Longrightarrow> \<exists>s'. dev_send mx ms s = Some s'"
proof -
  assume "dev_total mx env" "uu_wf (sm_up s)"
  then have "mx_send mx (sm_dev s) (uu_bytes (sm_up s)) (up_packetlen (sm_up s)) ms ms \<noteq> None"
    using uu_bytes_length [of "sm_up s"] unfolding dev_total_def by blast
  then show ?thesis by (auto simp: dev_send_def)
qed

lemma m2_retry_total:
  "dev_total mx env \<Longrightarrow> uu_wf (sm_up s) \<Longrightarrow> m2_retry mx env ms k s \<noteq> None"
proof (induction k arbitrary: s)
  case (Suc k)
  obtain s1 where s1: "dev_send mx ms (s\<lparr>sm_get_packet := False\<rparr>) = Some s1"
    using dev_send_total [OF Suc.prems(1), of "s\<lparr>sm_get_packet := False\<rparr>"] Suc.prems(2) by auto
  obtain s2 where s2: "reply_loop env ms 0 s1 = Some s2" using reply_loop_total [OF Suc.prems(1)] by fastforce
  have "uu_wf (sm_up s2)"
    using dev_send_sent [OF s1] reply_loop_same [OF s2] Suc.prems(2) by (simp add: sm_same_def)
  with Suc.IH [OF Suc.prems(1), of s2] s1 s2 show ?case by auto
qed simp

lemma m2_loop_total:
  assumes "dev_total mx env"
  shows "uu_wf (sm_up s) \<Longrightarrow> 0 \<le> c \<Longrightarrow> c + int k = sm_packet_count s \<Longrightarrow> 0 < sm_psize s \<Longrightarrow>
    sm_len s \<le> 1008 \<Longrightarrow> sm_len s \<le> int (length (sm_data s)) \<Longrightarrow>
    (sm_packet_count s - 1) * sm_psize s < sm_len s \<Longrightarrow>
    m2_loop mx env loc pw ms k c s \<noteq> None"
proof (induction k arbitrary: c s)
  case (Suc k)
  let ?n = "get_sn_size s (c + 1)"
  have cb: "c \<le> sm_packet_count s - 1" using Suc.prems(3) by simp
  then have "c * sm_psize s \<le> (sm_packet_count s - 1) * sm_psize s"
    using Suc.prems(4) by (intro mult_right_mono) simp_all
  moreover have "c < sm_packet_count s - 1 \<Longrightarrow> (c + 1) * sm_psize s \<le> (sm_packet_count s - 1) * sm_psize s"
    using Suc.prems(4) by (intro mult_right_mono) simp_all
  ultimately have n: "0 < ?n" "c * sm_psize s + ?n \<le> sm_len s"
    using Suc.prems cb by (auto simp: get_sn_size_def algebra_simps)
  have off: "0 \<le> c * sm_psize s" using Suc.prems(2,4) by simp
  define d where "d = take (nat ?n) (drop (nat (c * sm_psize s)) (sm_data s))"
  have d: "data_at s (c * sm_psize s) ?n = Some d"
    using n off Suc.prems(6) by (auto simp: data_at_def rd_range_def d_def simp flip: nat_add_distrib)
  have "length d \<le> nat ?n" by (simp add: d_def)
  then have "length d \<le> 1021" using n off Suc.prems(5) by linarith
  then obtain p' where p': "upacket_encodehex loc pw (sm_up s) True (sm_remote s) (word_of_int (sm_cmd s)) d
      (if sm_packet_count s = 1 then STX_STX else STX_SYN)
      (if c = sm_packet_count s - 1 then ETX_ETX else ETX_ETB) = Some (p', int (length d) + 17)" "uu_wf p'"
    using upacket_encodehex_frame [OF Suc.prems(1)] by blast
  let ?t = "s\<lparr>sm_get_packet := False, sm_up := p'\<rparr>"
  obtain s2 a where x: "m2_retry mx env ms 3 ?t = Some (s2, a)"
    using m2_retry_total [OF assms, of ?t] p'(2) by fastforce
  have same: "sm_same ?t s2" using m2_retry_result [OF x] by simp
  have "m2_loop mx env loc pw ms k (c + 1) s2 \<noteq> None"
    by (rule Suc.IH) (use same p'(2) Suc.prems in \<open>simp_all add: sm_same_def\<close>)
  with d p'(1) x show ?case by (cases a) (auto simp: Let_def)
qed simp

lemma wait_m2_total:
  assumes "dev_total mx env" "uu_wf (sm_up s)" "0 < n" "0 < p" "n \<le> int (length dat)"
  shows "wait_m2 mx env loc pw ms (sm_init ty rem cm dat n p s) \<noteq> None"
proof -
  let ?s = "sm_init ty rem cm dat n p s"
  note f = sm_init_fields [OF assms(3,4) refl [of ?s] refl]
  have up: "sm_up ?s = sm_up s" by (simp add: sm_init_def Let_def)
  have "0 < get_sn_size ?s (sm_packet_count ?s)"
    by (rule sn_sizes(1) [OF assms(3,4)]) (use f(9) in simp_all)
  then have last: "(sm_packet_count ?s - 1) * sm_psize ?s < sm_len ?s"
    using f(9) by (simp add: get_sn_size_def)
  show ?thesis unfolding wait_m2_def
    by (rule m2_loop_total [OF assms(1)]) (use f up assms last in simp_all)
qed

text \<open>Nothing but \<^verbatim>\<open>ESC\<close> ends a multi-packet report with success.\<close>

lemma m3_await_result:
  assumes "m3_await mx env loc pw ms t s = Some q"
  shows "snd q = -2 \<or> snd q = 0 \<and> sm_get_packet (fst q) \<and> ud_etx (ud_p (sm_packet (fst q))) = etx_code ETX_ESC"
  by (rule m3_await.raw_induct
      [where P = "\<lambda>mx env loc pw ms t s q. snd q = -2 \<or> snd q = 0 \<and> sm_get_packet (fst q) \<and>
          ud_etx (ud_p (sm_packet (fst q))) = etx_code ETX_ESC", OF _ assms])
    (auto simp: Let_def split: if_splits bind_splits; blast)

end
