(* ===== verification/Packet_Spec.thy ===== *)
theory Packet_Spec
  imports Packet
begin

text \<open>
  The downlink frame of the centre as a list of bytes, and what the decoder of
  \<^verbatim>\<open>upacket.cpp\<close> makes of it: every field comes out as it was put in.
\<close>

section \<open>Frames with any address block\<close>

text \<open>\<open>a\<close> are the eight bytes of addresses and password between the start and the command.\<close>

definition block_body :: "bytes \<Rightarrow> u8 \<Rightarrow> bytes \<Rightarrow> STX \<Rightarrow> ETX \<Rightarrow> bytes" where
  "block_body a cmd d stx etx =
     [0x7E, 0x7E] @ a @ [cmd] @ len_bytes False (length d) @ [stx_code stx] @ d @ [etx_code etx]"

definition block_frame :: "bytes \<Rightarrow> u8 \<Rightarrow> bytes \<Rightarrow> STX \<Rightarrow> ETX \<Rightarrow> bytes" where
  "block_frame a cmd d stx etx =
     (let f = block_body a cmd d stx etx; c = crc_calculate f (int (length f))
      in f @ [ucast (drop_bit 8 c), ucast c])"

definition down_frame :: "bytes \<Rightarrow> u8 \<Rightarrow> bytes \<Rightarrow> u8 \<Rightarrow> bytes \<Rightarrow> STX \<Rightarrow> ETX \<Rightarrow> bytes" where
  "down_frame loc remote pw cmd d stx etx = block_frame (rev loc @ [remote] @ rev pw) cmd d stx etx"

lemma length_len_bytes [simp]: "length (len_bytes up n) = 2"
  by (simp add: len_bytes_def)

lemma length_block_body: "length a = 8 \<Longrightarrow> length (block_body a cmd d stx etx) = length d + 15"
  by (simp add: block_body_def)

lemma length_block_frame: "length a = 8 \<Longrightarrow> length (block_frame a cmd d stx etx) = length d + 17"
  by (simp add: block_frame_def Let_def length_block_body)

text \<open>The bytes of a frame by position.\<close>

lemma block_frame_nth:
  assumes "length a = 8"
  shows "block_frame a cmd d stx etx ! 0 = 0x7E" "block_frame a cmd d stx etx ! 1 = 0x7E"
    "take 8 (drop 2 (block_frame a cmd d stx etx)) = a" "block_frame a cmd d stx etx ! 10 = cmd"
    "block_frame a cmd d stx etx ! 11 = len_bytes False (length d) ! 0"
    "block_frame a cmd d stx etx ! 12 = len_bytes False (length d) ! 1"
    "block_frame a cmd d stx etx ! 13 = stx_code stx"
    "take (length d) (drop 14 (block_frame a cmd d stx etx)) = d"
    "block_frame a cmd d stx etx ! (length d + 14) = etx_code etx"
proof -
  obtain l0 l1 where l: "len_bytes False (length d) = [l0, l1]" by (simp add: len_bytes_def)
  obtain c :: u16 where f: "block_frame a cmd d stx etx =
      0x7E # 0x7E # a @ cmd # l0 # l1 # stx_code stx # d @ etx_code etx # [ucast (drop_bit 8 c), ucast c]"
  proof -
    define c where "c = crc_calculate (block_body a cmd d stx etx) (int (length (block_body a cmd d stx etx)))"
    have "block_frame a cmd d stx etx = block_body a cmd d stx etx @ [ucast (drop_bit 8 c), ucast c]"
      by (simp add: block_frame_def c_def Let_def)
    then show thesis by (intro that [of c]) (simp add: block_body_def l)
  qed
  show "block_frame a cmd d stx etx ! 0 = 0x7E" "block_frame a cmd d stx etx ! 1 = 0x7E"
    "take 8 (drop 2 (block_frame a cmd d stx etx)) = a" "block_frame a cmd d stx etx ! 10 = cmd"
    "block_frame a cmd d stx etx ! 11 = len_bytes False (length d) ! 0"
    "block_frame a cmd d stx etx ! 12 = len_bytes False (length d) ! 1"
    "block_frame a cmd d stx etx ! 13 = stx_code stx"
    "take (length d) (drop 14 (block_frame a cmd d stx etx)) = d"
    "block_frame a cmd d stx etx ! (length d + 14) = etx_code etx"
    unfolding f l by (simp_all add: assms nth_append nth_Cons' drop_Cons')
qed

lemma block_frame_ok:
  assumes "length a = 8" "length d \<le> 1056"
  shows "frame_ok (block_frame a cmd d stx etx)"
proof -
  let ?f = "block_frame a cmd d stx etx" and ?body = "block_body a cmd d stx etx"
  define c where "c = crc_calculate ?body (int (length ?body))"
  note n = block_frame_nth [OF assms(1), where cmd = cmd and d = d and stx = stx and etx = etx]
  have f: "?f = ?body @ [ucast (drop_bit 8 c), ucast c]" by (simp add: block_frame_def c_def Let_def)
  have lf: "length ?f = length d + 17" by (rule length_block_frame [OF assms(1)])
  have lb: "length ?body = length d + 15" by (rule length_block_body [OF assms(1)])
  have "unat (len_bytes False (length d) ! 0) = 128 + length d div 256"
    "unat (len_bytes False (length d) ! 1) = length d mod 256"
    using assms push_or_val [of "1 :: u8" 7 "length d div 256"] by (simp_all add: len_bytes_def)
  then have dl: "dlen_field ?f = 2 ^ 15 + length d"
    unfolding dlen_field_def n by simp
  have "crc_calculate ?f (int (length ?f) - 2) = c"
  proof -
    have "int (length ?f) - 2 = int (length ?body)" by (simp add: f)
    moreover have "int (length ?body) mod 256 \<le> int (length ?body)"
      by (simp add: zmod_le_nonneg_dividend)
    ultimately show ?thesis unfolding f c_def by (simp only: crc_prefix)
  qed
  moreover have "?f ! (length ?f - 2) = ucast (drop_bit 8 c)" "?f ! (length ?f - 1) = ucast c"
    by (simp_all add: f nth_append)
  moreover have "push_bit 8 (ucast (ucast (drop_bit 8 c) :: u8) :: u16) OR ucast (ucast c :: u8) = c"
    by (rule bit_word_eqI) (auto simp: bit_simps)
  moreover have "(2 ^ 15 + length d) div 2 ^ 15 mod 2 = 1" "(2 ^ 15 + length d) mod 2 ^ 12 = length d"
  proof -
    have "length d div 32768 = 0" "length d mod 4096 = length d" using assms by simp_all
    moreover have "(32768 + length d) mod 4096 = length d mod 4096"
      using mod_add_left_eq [of 32768 4096 "length d"] by simp
    ultimately show "(2 ^ 15 + length d) div 2 ^ 15 mod 2 = 1" "(2 ^ 15 + length d) mod 2 ^ 12 = length d"
      by simp_all
  qed
  ultimately show ?thesis
    using assms n(1,2) unfolding frame_ok_def ud_size_def dl lf by simp
qed

section \<open>The fields of an accepted frame\<close>

lemma put_bytes_low: "i < off \<Longrightarrow> off \<le> length dst \<Longrightarrow> put_bytes off src dst ! i = dst ! i"
  by (simp add: put_bytes_def nth_append)

lemma put_bytes_high:
  "off + length src \<le> i \<Longrightarrow> i < length dst \<Longrightarrow> put_bytes off src dst ! i = dst ! i"
proof -
  assume a: "off + length src \<le> i" "i < length dst"
  then have "\<not> i < off" "\<not> i - off < length src" "min (length dst) off = off" "off + length src + (i - (off + length src)) = i"
    by auto
  with a show ?thesis by (simp add: put_bytes_def nth_append)
qed

lemma put_bytes_get: "off \<le> length dst \<Longrightarrow> take (length src) (drop off (put_bytes off src dst)) = src"
  by (simp add: put_bytes_def)

lemma length_put_bytes: "off + length src \<le> length dst \<Longrightarrow> length (put_bytes off src dst) = length dst"
  by (simp add: put_bytes_def)

text \<open>Accepting leaves the bytes in front of offset 1058 alone and fills the four fields behind
  them.\<close>

lemma accept_frame_fields:
  assumes "length p = ud_size" "3 \<le> n" "n \<le> off_packetlen"
    and q: "q = ud_p (accept_frame \<lparr>ud_state = s, ud_len = n, ud_p = p\<rparr>)"
  shows "i < off_packetlen \<Longrightarrow> q ! i = p ! i" "ud_packetlen q = n" "ud_etx q = p ! (n - 3)"
    "take 5 (drop off_rlocal q) = rev (take 5 (drop 2 p))" "take 2 (drop off_rpasswd q) = rev (take 2 (drop 8 p))"
proof -
  define p1 where "p1 = put_bytes off_packetlen (le_bytes 4 n) p"
  define p2 where "p2 = p1[off_etx := p1 ! (n - 3)]"
  define p3 where "p3 = put_bytes off_rlocal (rev (take 5 (drop 2 p2))) p2"
  have q': "q = put_bytes off_rpasswd (rev (take 2 (drop 8 p3))) p3"
    by (simp add: q accept_frame_def Let_def p1_def p2_def p3_def)
  note offs = off_packetlen_def off_etx_def off_rlocal_def off_rpasswd_def ud_size_def
  have l1: "length p1 = ud_size" unfolding p1_def using assms by (subst length_put_bytes) (simp_all add: offs)
  have l2: "length p2 = ud_size" by (simp add: p2_def l1)
  have s5: "length (rev (take 5 (drop 2 p2))) = 5" using l2 by (simp add: ud_size_def)
  have l3: "length p3 = ud_size" unfolding p3_def using l2 s5 by (subst length_put_bytes) (simp_all add: offs)
  have s2: "length (rev (take 2 (drop 8 p3))) = 2" using l3 by (simp add: ud_size_def)
  have l4: "length q = ud_size" unfolding q' using l3 s2 by (subst length_put_bytes) (simp_all add: offs)
  have n1: "p1 ! i = p ! i" if "i < off_packetlen \<or> off_packetlen + 4 \<le> i \<and> i < ud_size" for i
    unfolding p1_def using that assms put_bytes_low [of i off_packetlen p] put_bytes_high [of off_packetlen "le_bytes 4 n" i p]
    by (auto simp: offs)
  have n2: "p2 ! i = p1 ! i" if "i \<noteq> off_etx" for i using that by (simp add: p2_def)
  have n3: "p3 ! i = p2 ! i" if "i < off_rlocal \<or> off_rlocal + 5 \<le> i \<and> i < ud_size" for i
    unfolding p3_def using that l2 s5 put_bytes_low [of i off_rlocal p2] put_bytes_high [of off_rlocal "rev (take 5 (drop 2 p2))" i p2]
    by (auto simp: offs)
  have n4: "q ! i = p3 ! i" if "i < off_rpasswd" for i
    unfolding q' using that l3 put_bytes_low [of i off_rpasswd p3] by (simp add: offs)
  have low: "q ! i = p ! i" if "i < off_packetlen" for i
    using that n1 [of i] n2 [of i] n3 [of i] n4 [of i] by (simp add: offs)
  then show "i < off_packetlen \<Longrightarrow> q ! i = p ! i" .
  have seg: "take k (drop o1 a) = take k (drop o1 b)"
    if "length a = ud_size" "length b = ud_size" "o1 + k \<le> ud_size" "\<And>i. o1 \<le> i \<Longrightarrow> i < o1 + k \<Longrightarrow> a ! i = b ! i"
    for a b :: bytes and o1 k
    using that by (intro nth_equalityI) simp_all
  have "take 4 (drop off_packetlen q) = take 4 (drop off_packetlen p1)"
    by (rule seg [OF l4 l1]) (use n2 n3 n4 in \<open>auto simp: offs\<close>)
  also have "... = le_bytes 4 n"
    using put_bytes_get [of off_packetlen p "le_bytes 4 n"] assms by (simp add: p1_def offs)
  finally show "ud_packetlen q = n"
    using assms(3) by (simp add: ud_packetlen_def le_val_le_bytes off_packetlen_def)
  have "ud_etx q = p2 ! off_etx" using n3 [of off_etx] n4 [of off_etx] by (simp add: ud_etx_def offs)
  also have "... = p1 ! (n - 3)" using l1 by (simp add: p2_def offs)
  also have "... = p ! (n - 3)" by (rule n1) (use assms(2,3) in \<open>unfold offs, linarith\<close>)
  finally show "ud_etx q = p ! (n - 3)" .
  have "take 5 (drop off_rlocal q) = take 5 (drop off_rlocal p3)"
    by (rule seg [OF l4 l3]) (use n4 in \<open>auto simp: offs\<close>)
  also have "... = rev (take 5 (drop 2 p2))"
    using put_bytes_get [of off_rlocal p2 "rev (take 5 (drop 2 p2))"] l2 s5 by (simp add: p3_def offs)
  also have "take 5 (drop 2 p2) = take 5 (drop 2 p)"
    by (rule seg [OF l2 assms(1)]) (use n1 n2 in \<open>auto simp: offs\<close>)
  finally show "take 5 (drop off_rlocal q) = rev (take 5 (drop 2 p))" .
  have "take 2 (drop off_rpasswd q) = rev (take 2 (drop 8 p3))"
    using put_bytes_get [of off_rpasswd p3 "rev (take 2 (drop 8 p3))"] l3 s2 unfolding q' by (simp add: offs)
  also have "take 2 (drop 8 p3) = take 2 (drop 8 p)"
    by (rule seg [OF l3 assms(1)]) (use n1 n2 n3 in \<open>auto simp: offs\<close>)
  finally show "take 2 (drop off_rpasswd q) = rev (take 2 (drop 8 p))" .
qed

text \<open>A centre frame fed to an empty decoder, with anything behind it.\<close>

lemma decode_block_frame:
  assumes "length a = 8" "length d \<le> 1041" "length q = ud_size"
  shows "\<exists>ud'. decode_bytes \<lparr>ud_state = 0, ud_len = 0, ud_p = q\<rparr> (block_frame a cmd d stx etx @ rest) = (ud', True) \<and>
    ud_cmd (ud_p ud') = cmd \<and> take 8 (drop 2 (ud_p ud')) = a \<and> ud_stx (ud_p ud') = stx_code stx \<and>
    take (length d) (ud_data (ud_p ud')) = d \<and> ud_etx (ud_p ud') = etx_code etx \<and>
    ud_packetlen (ud_p ud') = length d + 17 \<and>
    take 5 (drop off_rlocal (ud_p ud')) = rev (take 5 a) \<and> take 2 (drop off_rpasswd (ud_p ud')) = rev (drop 6 a)"
proof -
  let ?f = "block_frame a cmd d stx etx"
  let ?p = "?f @ drop (length ?f) q"
  have lf: "length ?f = length d + 17" by (rule length_block_frame [OF assms(1)])
  have ok: "frame_ok ?f" using block_frame_ok [OF assms(1)] assms(2) by simp
  define ud' where "ud' = accept_frame \<lparr>ud_state = 8, ud_len = length ?f, ud_p = ?p\<rparr>"
  have dec: "decode_bytes \<lparr>ud_state = 0, ud_len = 0, ud_p = q\<rparr> (?f @ rest) = (ud', True)"
    using decode_accepts [OF ok, of "\<lparr>ud_state = 0, ud_len = 0, ud_p = q\<rparr>" rest] assms(3) by (simp add: ud'_def)
  have lp: "length ?p = ud_size" using assms lf by (simp add: ud_size_def)
  note fl = accept_frame_fields [OF lp, of "length ?f" "ud_p ud'" 8]
  have pre: "3 \<le> length ?f" "length ?f \<le> off_packetlen" "ud_p ud' = ud_p (accept_frame \<lparr>ud_state = 8, ud_len = length ?f, ud_p = ?p\<rparr>)"
    using lf assms(2) by (simp_all add: off_packetlen_def ud'_def)
  note fl = fl [OF pre]
  have lq: "length (ud_p ud') = ud_size"
    using length_accept_frame [of "\<lparr>ud_state = 8, ud_len = length ?f, ud_p = ?p\<rparr>"] lp by (simp add: ud'_def)
  have nth: "ud_p ud' ! i = ?f ! i" if "i < length ?f" for i
    using fl(1) [of i] that pre(2) by (simp add: nth_append)
  have seg: "take k (drop o1 (ud_p ud')) = take k (drop o1 ?f)" if "o1 + k \<le> length ?f" for o1 k
    using that nth lq lf assms(2) by (intro nth_equalityI) (simp_all add: ud_size_def)
  note bn = block_frame_nth [OF assms(1), where cmd = cmd and d = d and stx = stx and etx = etx]
  have a5: "take 5 (drop 2 ?f) = take 5 a" and a2: "take 2 (drop 8 ?f) = drop 6 a"
  proof -
    have "take 5 (drop 2 ?f) = take 5 (take 8 (drop 2 ?f))" by (simp add: min_def)
    then show "take 5 (drop 2 ?f) = take 5 a" unfolding bn(3) .
    have "take 2 (drop 8 ?f) = drop 6 (take 8 (drop 2 ?f))" by (simp add: drop_take)
    then show "take 2 (drop 8 ?f) = drop 6 a" unfolding bn(3) .
  qed
  have "ud_cmd (ud_p ud') = cmd" using nth [of 10] bn(4) lf by (simp add: ud_cmd_def)
  moreover have "ud_stx (ud_p ud') = stx_code stx" using nth [of 13] bn(7) lf by (simp add: ud_stx_def)
  moreover have "take 8 (drop 2 (ud_p ud')) = a" using seg [of 2 8] bn(3) lf by simp
  moreover have "take (length d) (ud_data (ud_p ud')) = d"
    using seg [of 14 "length d"] bn(8) lf assms(2) by (simp add: ud_data_def min_def)
  moreover have "ud_etx (ud_p ud') = etx_code etx"
    using fl(3) bn(9) lf by (simp add: nth_append add.commute)
  moreover have "take 5 (drop off_rlocal (ud_p ud')) = rev (take 5 a)"
  proof -
    have "take 5 (drop 2 ?p) = take 5 (drop 2 ?f)" using lf by simp
    then show ?thesis unfolding fl(4) a5 by simp
  qed
  moreover have "take 2 (drop off_rpasswd (ud_p ud')) = rev (drop 6 a)"
  proof -
    have "take 2 (drop 8 ?p) = take 2 (drop 8 ?f)" using lf by simp
    then show ?thesis unfolding fl(5) a2 by simp
  qed
  ultimately show ?thesis using dec fl(2) lf by auto
qed

end
