(* ===== verification/Link_Laws.thy ===== *)
theory Link_Laws
  imports Send_Laws Packet_Spec
begin

text \<open>
  The TCP client under every interleaving of its operations, as an inductive set of reachable
  states, and what becomes of a report frame that is handed to it.
\<close>

section \<open>Reachable clients\<close>

inductive tcp_reach :: "tcp_client \<Rightarrow> bool" where
  start: "tcp_reach new_tcp_client"
| config: "tcp_reach c \<Longrightarrow> mxtcp_config c arg = Some (c', r) \<Longrightarrow> tcp_reach c'"
| open_: "tcp_reach c \<Longrightarrow> tcp_reach (fst (mxtcp_open c t1 t2))"
| close: "tcp_reach c \<Longrightarrow> tcp_reach (fst (mxtcp_close c))"
| keep: "tcp_reach c \<Longrightarrow> tcp_reach (fst (mxtcp_keepalive c k))"
| send: "tcp_reach c \<Longrightarrow> mxtcp_send c buffer len sms rms = Some (c', out) \<Longrightarrow> tcp_reach c'"
| work: "tcp_reach c \<Longrightarrow> tcp_work ev c = Some (c', out) \<Longrightarrow> tcp_reach c'"

lemma tcp_config_inv:
  assumes "tcp_inv c" "tcp_config c ip port = Some (c', r)"
  shows "tcp_inv c'"
proof -
  from assms(2) obtain b b' where m: "memcpy_at 0 (take (if length ip < 20 then length ip else 20) (bytes_of ip)) (tc_setip c) = Some b"
    and "wr b 19 0 = Some b'" "c' = c\<lparr>tc_target := (ip, port mod 2 ^ 16), tc_setip := b', tc_setport := port\<rparr>"
    by (auto simp: tcp_config_def Let_def split: bind_splits)
  with assms(1) memcpy_at_length [OF m] show ?thesis by (auto simp: tcp_inv_def wr_def split: if_splits)
qed

lemma mxtcp_config_inv:
  assumes "tcp_inv c" "mxtcp_config c arg = Some (c', r)"
  shows "tcp_inv c'"
  using assms(2) tcp_config_inv [OF assms(1)]
  by (auto simp: mxtcp_config_def Let_def split: bind_splits if_splits)

lemma tcp_start_inv: "tcp_inv c \<Longrightarrow> tcp_inv (fst (tcp_start c t1 t2))"
  by (auto simp: tcp_start_def tcp_inv_def Let_def tcp_live_steps_def split: option.splits)

lemma tcp_quit_inv: "tcp_inv c \<Longrightarrow> tcp_inv (fst (tcp_quit c))"
  by (simp add: tcp_quit_def tcp_inv_def)

lemma tcp_keepalive_inv: "tcp_inv c \<Longrightarrow> tcp_inv (fst (tcp_keepalive c k))"
  by (simp add: tcp_keepalive_def tcp_inv_def)

lemma mxtcp_send_inv:
  assumes "tcp_inv c" "mxtcp_send c buffer len sms rms = Some (c', out)"
  shows "tcp_inv c'"
  using assms senddata_inv [OF assms(1), of 1024 buffer len sms rms] by (auto simp: mxtcp_send_def)

lemma tcp_reach_inv: "tcp_reach c \<Longrightarrow> tcp_inv c"
proof (induction rule: tcp_reach.induct)
  case start
  show ?case by (rule tcp_inv_new)
next
  case (config c arg c' r)
  then show ?case using mxtcp_config_inv by blast
next
  case (open_ c t1 t2)
  then show ?case by (simp add: mxtcp_open_def tcp_start_inv)
next
  case (close c)
  then show ?case by (simp add: mxtcp_close_def tcp_quit_inv)
next
  case (keep c k)
  then show ?case by (simp add: mxtcp_keepalive_def tcp_keepalive_inv)
next
  case (send c buffer len sms rms c' out)
  then show ?case using mxtcp_send_inv by blast
next
  case (work c ev c' out)
  then show ?case using tcp_link.work_ok by blast
qed

section \<open>A frame longer than the send buffer\<close>

text \<open>The report with the most data that \<^verbatim>\<open>SendMode::init\<close> lets through makes a frame of 1025
  bytes; the client sends 1024 of them, and the last byte of the checksum stays behind.\<close>

lemma mxtcp_send_cut:
  assumes "tcp_inv c" "1024 < len" "1024 \<le> length buffer"
  shows "\<exists>c'. mxtcp_send c buffer len sms rms = Some (c', []) \<and> tcp_frame c' = take 1024 buffer"
proof -
  have "length (tc_sendbuffer c) = 1024" using assms(1) by (simp add: tcp_inv_def)
  then show ?thesis
    using assms(2,3) by (auto simp: mxtcp_send_def senddata_def Let_def rd_range_def memcpy_at_def tcp_frame_def)
qed

lemma length_uu_bytes: "uu_wf p \<Longrightarrow> length (uu_bytes p) = 1058"
  by (simp add: uu_wf_def uu_bytes_def)

lemma long_report_cut:
  assumes "uu_wf p" "1008 \<le> length d" "length d \<le> 1021" "tcp_inv c"
    and f_def: "f = frame_of up remote loc (ucast pw) cmd d stx etx"
  shows "\<exists>p' c'. upacket_encodehex loc pw p up remote cmd d stx etx = Some (p', int (length f)) \<and>
    mxtcp_send c (uu_bytes p') (up_packetlen p') sms rms = Some (c', []) \<and>
    tcp_frame c' = take 1024 f \<and> length (tcp_frame c') < length f"
proof -
  obtain p' where p': "upacket_encodehex loc pw p up remote cmd d stx etx = Some (p', int (length d) + 17)"
    "uu_wf p'" "up_packetlen p' = int (length d) + 17" "take (length d + 17) (uu_bytes p') = f"
    using upacket_encodehex_frame [OF assms(1,3)] unfolding f_def by blast
  have lf: "length f = length d + 17"
    unfolding p'(4) [symmetric] using length_uu_bytes [OF p'(2)] assms(3) by simp
  have "1024 < up_packetlen p'" "1024 \<le> length (uu_bytes p')"
    using p'(3) assms(2) length_uu_bytes [OF p'(2)] by simp_all
  from mxtcp_send_cut [OF assms(4) this] obtain c' where
    c': "mxtcp_send c (uu_bytes p') (up_packetlen p') sms rms = Some (c', [])"
      "tcp_frame c' = take 1024 (uu_bytes p')" by blast
  have "take 1024 (uu_bytes p') = take 1024 f"
    unfolding p'(4) [symmetric] using assms(2) by (simp add: min_def)
  then show ?thesis using p'(1) c' lf assms(2) by auto
qed

section \<open>M1 always ends\<close>

lemma wait_m1_total:
  assumes "dev_total mx env" "uu_wf (sm_up s)" "0 \<le> sm_len s" "sm_len s \<le> 1008" "sm_len s \<le> int (length (sm_data s))"
  shows "wait_m1 mx env loc pw ms s \<noteq> None"
proof -
  define d where "d = take (nat (sm_len s)) (sm_data s)"
  have d: "data_at s 0 (sm_len s) = Some d" using assms(3-5) by (auto simp: data_at_def rd_range_def d_def)
  have "length d \<le> 1021" using assms(3-5) by (simp add: d_def nat_le_iff)
  from upacket_encodehex_frame [OF assms(2) this] obtain p' dl where
    p': "upacket_encodehex loc pw (sm_up s) True (sm_remote s) (word_of_int (sm_cmd s)) d STX_STX ETX_ETX = Some (p', dl)"
    "uu_wf p'" by blast
  obtain s1 where s1: "dev_send mx ms (s\<lparr>sm_up := p'\<rparr>) = Some s1"
    using dev_send_total [OF assms(1), of "s\<lparr>sm_up := p'\<rparr>"] p'(2) by auto
  with send_end_loop_total [OF assms(1), of 1 ms 0 s1] d p'(1) show ?thesis
    by (auto simp: wait_m1_def)
qed

end
