(* ===== verification/Report_Link.thy ===== *)
theory Report_Link
  imports Link_Laws
begin

text \<open>
  A report sent over a TCP link: the protocol of \<^verbatim>\<open>app/up/sendmode.cpp\<close> on top of the client of
  \<^verbatim>\<open>dev/tcp_client.cpp\<close>. While the protocol sleeps the two threads of the client run, and what
  they send is kept as the bytes on the wire; the law relates the result the protocol returns to those bytes.
\<close>

section \<open>The client with its wire\<close>

text \<open>The events of a sleep, \<^verbatim>\<open>tcp_receive_send_thread\<close> and \<^verbatim>\<open>tcp_receive_packet_thread\<close>:
  the bytes that leave and the chunks handed to the callback.\<close>

definition tcp_turn :: "tcp_event \<Rightarrow> tcp_client \<Rightarrow> (tcp_client \<times> bytes \<times> bytes list) option" where
  "tcp_turn ev c =
     (case ev of
        Tick e \<Rightarrow> map_option (\<lambda>(c', out). (c', out, [])) (tcp_state_function e c)
      | Deliver now a \<Rightarrow>
          map_option (\<lambda>(c', ch). (c', [], case ch of None \<Rightarrow> [] | Some b \<Rightarrow> [b])) (packet_thread now a c))"

fun tcp_turns :: "tcp_event list \<Rightarrow> tcp_client \<Rightarrow> (tcp_client \<times> bytes \<times> bytes list) option" where
  "tcp_turns [] c = Some (c, [], [])"
| "tcp_turns (e # es) c = do {
     (c1, o1, k1) \<leftarrow> tcp_turn e c;
     (c2, o2, k2) \<leftarrow> tcp_turns es c1;
     Some (c2, o1 @ o2, k1 @ k2) }"

definition tcp_wire :: "(tcp_client \<times> bytes) MxDevice" where
  "tcp_wire = \<lparr>mx_send = (\<lambda>(c, w) b n sms rms. map_option (\<lambda>(c', out). ((c', w @ out), out)) (mx_send mxtcp c b n sms rms)),
     mx_is_send_end = (\<lambda>(c, w). mx_is_send_end mxtcp c)\<rparr>"

definition tcp_env :: "(nat \<Rightarrow> tcp_event list) \<Rightarrow> (tcp_client \<times> bytes) env" where
  "tcp_env evs n = (\<lambda>(c, w). map_option (\<lambda>(c', out, ks). ((c', w @ out), ks)) (tcp_turns (evs n) c))"

lemma tcp_turn_work: "tcp_turn ev c = Some (c', out, ks) \<Longrightarrow> tcp_work ev c = Some (c', out)"
  by (auto simp: tcp_turn_def tcp_work_def split: tcp_event.splits)

lemma tcp_turns_run: "tcp_turns evs c = Some (c', out, ks) \<Longrightarrow> link_run tcp_work evs c = Some (c', out)"
  by (induction evs arbitrary: c out ks) (fastforce split: bind_splits dest: tcp_turn_work)+

section \<open>Where a frame is\<close>

text \<open>\<open>frame_at f w\<close>: the frame \<open>f\<close> was handed over when \<open>w\<close> was on the wire; either it still waits and nothing has
  left, or the client is done with it and a part of it, from its start, has left.\<close>

definition frame_at :: "bytes \<Rightarrow> bytes \<Rightarrow> tcp_client \<times> bytes \<Rightarrow> bool" where
  "frame_at f w d \<longleftrightarrow> tcp_inv (fst d) \<and>
     (snd d = w \<and> tcp_frame (fst d) = f \<or> (\<exists>out. snd d = w @ out \<and> take (length out) f = out \<and> tcp_frame (fst d) = []))"

lemma frame_at_turns:
  assumes "frame_at f w (c, x)" and "tcp_turns evs c = Some (c', out, ks)"
  shows "frame_at f w (c', x @ out)"
  using tcp_link.run_pending [OF _ tcp_turns_run [OF assms(2)]] assms(1)
  by (fastforce simp: frame_at_def)

text \<open>With sockets that take all they are given, the whole frame leaves.\<close>

definition whole_send :: "tcp_event \<Rightarrow> bool" where
  "whole_send ev \<longleftrightarrow> (case ev of Tick e \<Rightarrow> 1024 \<le> sys_send e | Deliver n a \<Rightarrow> True)"

definition whole_at :: "bytes \<Rightarrow> bytes \<Rightarrow> tcp_client \<times> bytes \<Rightarrow> bool" where
  "whole_at f w d \<longleftrightarrow> tcp_inv (fst d) \<and> (snd d = w \<and> tcp_frame (fst d) = f \<or> snd d = w @ f \<and> tcp_frame (fst d) = [])"

text \<open>Only the state that sends touches the frame.\<close>

lemma tcp_tick_waits:
  assumes "tcp_state_function e c = Some (c', out)" and "tc_step c \<noteq> TCP_STEP_SEND"
  shows "out = [] \<and> tcp_frame c' = tcp_frame c"
proof (cases "tc_step c")
  case TCP_STEP_RECV_WAIT
  with assms have "st_recv_wait e (c\<lparr>tc_lstep := TCP_STEP_RECV_WAIT\<rparr>) = Some c' \<and> out = []"
    by (auto simp: tcp_state_function_def)
  then show ?thesis
    by (auto simp: st_recv_wait_def Let_def tcp_frame_def recv_idle_def recv_store_def split: if_splits bind_splits)
qed (use assms in \<open>auto simp: tcp_state_function_def Let_def tcp_st_defs tcp_frame_def split: if_splits\<close>)

lemma tcp_turn_whole:
  assumes "tcp_inv c" and "tcp_turn ev c = Some (c', out, ks)" and "whole_send ev"
  shows "out = [] \<and> tcp_frame c' = tcp_frame c \<or> out = tcp_frame c \<and> tcp_frame c' = []"
proof -
  have w: "tcp_work ev c = Some (c', out)" by (rule tcp_turn_work [OF assms(2)])
  show ?thesis
  proof (cases ev)
    case (Deliver n a)
    then show ?thesis using w
      by (auto simp: tcp_work_def packet_thread_def tcp_frame_def Let_def split: if_splits bind_splits)
  next
    case (Tick e)
    then have t: "tcp_state_function e c = Some (c', out)" "1024 \<le> sys_send e" using w assms(3) by (simp_all add: tcp_work_def whole_send_def)
    show ?thesis
    proof (cases "tc_step c = TCP_STEP_SEND")
      case False
      then show ?thesis using tcp_tick_waits [OF t(1)] by simp
    next
      case True
      have r: "rd_range (tc_sendbuffer c) 0 (nat (tc_sendlen c)) = Some (tcp_frame c)"
        using assms(1) nat_mono [of "tc_sendlen c" 1024] by (auto simp: rd_range_def tcp_frame_def tcp_inv_def)
      have "length (tcp_frame c) \<le> nat (sys_send e)"
        using tcp_frame_length [OF assms(1)] assms(1) t(2) nat_mono [of "tc_sendlen c" "sys_send e"] by (simp add: tcp_inv_def)
      then have "take (nat (sys_send e)) (tcp_frame c) = tcp_frame c" by simp
      moreover have "tcp_frame (d\<lparr>tc_sendlen := 0\<rparr>) = []" for d by (simp add: tcp_frame_def)
      ultimately show ?thesis using True t r
        by (auto simp: tcp_state_function_def Let_def st_send_def tcp_frame_def simp del: take_take split: if_splits)
    qed
  qed
qed

lemma whole_at_turns:
  assumes "whole_at f w (c, x)" and "tcp_turns evs c = Some (c', out, ks)" and "\<forall>ev\<in>set evs. whole_send ev"
  shows "whole_at f w (c', x @ out)"
  using assms
proof (induction evs arbitrary: c x out ks)
  case Nil
  then show ?case by simp
next
  case (Cons e es)
  then obtain c1 o1 k1 o2 k2 where s: "tcp_turn e c = Some (c1, o1, k1)" "tcp_turns es c1 = Some (c', o2, k2)" "out = o1 @ o2"
    by (auto split: bind_splits)
  have i: "tcp_inv c" using Cons.prems(1) by (simp add: whole_at_def)
  have "tcp_inv c1" using tcp_link.work_ok [OF i tcp_turn_work [OF s(1)]] by simp
  then have "whole_at f w (c1, x @ o1)"
    using tcp_turn_whole [OF i s(1)] Cons.prems(1,3) by (auto simp: whole_at_def)
  from Cons.IH [OF this s(2)] Cons.prems(3) s(3) show ?case by simp
qed

section \<open>The protocol over the link\<close>

lemma process_dev: "sm_dev (foldl up_packet_process s ks) = sm_dev s"
  by (induction ks rule: rev_induct)
    (auto simp: up_packet_process_def down_packet_process_def Let_def split: prod.splits)

lemma pause_dev: "pause env s = Some s' \<Longrightarrow> \<exists>ks. env (sm_sleeps s) (sm_dev s) = Some (sm_dev s', ks)"
  by (auto simp: pause_def process_dev split: bind_splits)

lemma send_end_dev:
  assumes "send_end_loop mx env d ms t s = Some (s', r)" and "P (sm_dev s)"
    and "\<And>n x x' ks. env n x = Some (x', ks) \<Longrightarrow> P x \<Longrightarrow> P x'"
  shows "P (sm_dev s') \<and> (r \<and> mx_is_send_end mx (sm_dev s') \<or> \<not> r \<and> (s' = s \<or> \<not> mx_is_send_end mx (sm_dev s')))"
  using assms
proof (induction mx env d ms t s rule: send_end_loop.induct)
  case (1 mx env d ms t s)
  show ?case
  proof (cases "t < ms \<and> 0 < d")
    case False
    with 1(2,3) show ?thesis by (subst (asm) send_end_loop.simps) auto
  next
    case True
    with 1(2) obtain s1 where s1: "pause env s = Some s1"
      by (subst (asm) send_end_loop.simps) (auto split: bind_splits)
    have p: "P (sm_dev s1)" using pause_dev [OF s1] 1(3,4) by blast
    show ?thesis
    proof (cases "mx_is_send_end mx (sm_dev s1)")
      case sent: True
      with 1(2) s1 True p show ?thesis by (subst (asm) send_end_loop.simps) simp
    next
      case False
      with 1(2) s1 True have "send_end_loop mx env d ms (t + d) s1 = Some (s', r)"
        by (subst (asm) send_end_loop.simps) simp
      note l = this
      have "P (sm_dev s') \<and> (r \<and> mx_is_send_end mx (sm_dev s') \<or> \<not> r \<and> (s' = s1 \<or> \<not> mx_is_send_end mx (sm_dev s')))"
        by (rule 1(1) [OF True s1 False l p]) (rule 1(4))
      with False show ?thesis by auto
    qed
  qed
qed

text \<open>The whole report: what is handed over, and where it is when the protocol returns.\<close>

lemma tcp_handed:
  assumes "tcp_inv c" and "0 < n" and "n \<le> 1024" and "nat n \<le> length buffer"
  shows "\<exists>c'. mxtcp_send c buffer n sms rms = Some (c', []) \<and> tcp_inv c' \<and> tcp_frame c' = take (nat n) buffer \<and>
    tc_step c' = (if tc_step c = TCP_STEP_RECV_WAIT then TCP_STEP_SEND else tc_step c)"
proof -
  have len: "length (tc_sendbuffer c) = 1024" using assms(1) by (simp add: tcp_inv_def)
  then have "\<exists>c' m. senddata c buffer n sms rms 1024 = Some (c', m) \<and> tcp_frame c' = take (nat n) buffer \<and>
    tc_step c' = (if tc_step c = TCP_STEP_RECV_WAIT then TCP_STEP_SEND else tc_step c)"
    using assms by (auto simp: senddata_def Let_def rd_range_def memcpy_at_def tcp_frame_def)
  then obtain c' m where s: "senddata c buffer n sms rms 1024 = Some (c', m)" "tcp_frame c' = take (nat n) buffer"
    "tc_step c' = (if tc_step c = TCP_STEP_RECV_WAIT then TCP_STEP_SEND else tc_step c)" by blast
  with senddata_inv [OF assms(1) _ _ s(1)] assms show ?thesis by (auto simp: mxtcp_send_def)
qed

lemma m1_handed:
  assumes "uu_wf (sm_up s)" and "0 \<le> sm_len s" and "sm_len s \<le> 1007" and "sm_len s \<le> int (length (sm_data s))"
    and "sm_dev s = (c, w)" and "tcp_inv c"
    and f: "f = frame_of True (sm_remote s) loc (ucast pw) (word_of_int (sm_cmd s)) (take (nat (sm_len s)) (sm_data s)) STX_STX ETX_ETX"
  shows "\<exists>c1 s1. wait_m1 tcp_wire env loc pw ms s =
      do { (s2, b) \<leftarrow> send_end_loop tcp_wire env 1 ms 0 s1; Some (s2, if b then 0 else -1) } \<and>
    sm_dev s1 = (c1, w) \<and> sm_sleeps s1 = sm_sleeps s \<and> tcp_inv c1 \<and> tcp_frame c1 = f \<and> \<not> tcp_is_send_end c1 \<and>
    tc_step c1 = (if tc_step c = TCP_STEP_RECV_WAIT then TCP_STEP_SEND else tc_step c)"
proof -
  define d where "d = take (nat (sm_len s)) (sm_data s)"
  have d: "data_at s 0 (sm_len s) = Some d" "length d = nat (sm_len s)"
    using assms(2,4) by (auto simp: data_at_def rd_range_def d_def)
  have "length d \<le> 1021" using d(2) assms(3) by simp
  then obtain p' where p': "upacket_encodehex loc pw (sm_up s) True (sm_remote s) (word_of_int (sm_cmd s)) d STX_STX ETX_ETX
      = Some (p', int (length d) + 17)" "uu_wf p'" "up_packetlen p' = int (length d) + 17"
    "take (length d + 17) (uu_bytes p') = f"
    using upacket_encodehex_frame [OF assms(1)] unfolding f d_def by blast
  have lf: "length f = length d + 17"
    unfolding p'(4) [symmetric] using length_uu_bytes [OF p'(2)] d(2) assms(3) by simp
  have n: "0 < up_packetlen p'" "up_packetlen p' \<le> 1024" "nat (up_packetlen p') \<le> length (uu_bytes p')"
    "nat (up_packetlen p') = length d + 17"
    using p'(3) d(2) assms(2,3) length_uu_bytes [OF p'(2)] by simp_all
  from tcp_handed [OF assms(6) n(1-3)] obtain c1 where
    c1: "mxtcp_send c (uu_bytes p') (up_packetlen p') ms ms = Some (c1, [])" "tcp_inv c1" "tcp_frame c1 = f"
      "tc_step c1 = (if tc_step c = TCP_STEP_RECV_WAIT then TCP_STEP_SEND else tc_step c)"
    unfolding n(4) p'(4) by blast
  have "\<not> tcp_is_send_end c1"
    using tcp_link.send_end_iff [OF c1(2)] c1(3) lf by (auto simp: mxtcp_def)
  moreover define s1 where "s1 = s\<lparr>sm_up := p', sm_dev := (c1, w),
    sm_sent := sm_sent s @ [take (nat (up_packetlen p')) (uu_bytes p')]\<rparr>"
  moreover have "dev_send tcp_wire ms (s\<lparr>sm_up := p'\<rparr>) = Some s1"
    using c1(1) assms(5) by (simp add: dev_send_def tcp_wire_def mxtcp_def s1_def)
  ultimately show ?thesis using d(1) p'(1) c1(2-4)
    by (intro exI [of _ c1] exI [of _ s1]) (simp add: wait_m1_def)
qed

lemma wire_end [simp]: "mx_is_send_end tcp_wire x = tcp_is_send_end (fst x)"
  by (cases x) (simp add: tcp_wire_def mxtcp_def)

lemma report_placed:
  assumes "uu_wf (sm_up s)" and "0 \<le> sm_len s" and "sm_len s \<le> 1007" and "sm_len s \<le> int (length (sm_data s))"
    and "sm_dev s = (c, w)" and "tcp_inv c"
    and "wait_m1 tcp_wire (tcp_env evs) loc pw ms s = Some (s', r)"
    and f: "f = frame_of True (sm_remote s) loc (ucast pw) (word_of_int (sm_cmd s)) (take (nat (sm_len s)) (sm_data s)) STX_STX ETX_ETX"
    and P: "\<And>d. tcp_inv d \<Longrightarrow> tcp_frame d = f \<Longrightarrow> P (d, w)"
    and step: "\<And>n x x' ks. tcp_env evs n x = Some (x', ks) \<Longrightarrow> P x \<Longrightarrow> P x'"
  shows "P (sm_dev s') \<and> (r = 0 \<and> tcp_is_send_end (fst (sm_dev s')) \<or> r = -1 \<and> \<not> tcp_is_send_end (fst (sm_dev s')))"
proof -
  obtain c1 s1 where
    w1: "wait_m1 tcp_wire (tcp_env evs) loc pw ms s =
      do { (s2, b) \<leftarrow> send_end_loop tcp_wire (tcp_env evs) 1 ms 0 s1; Some (s2, if b then 0 else -1) }"
    and c1: "sm_dev s1 = (c1, w)" "tcp_inv c1" "tcp_frame c1 = f" "\<not> tcp_is_send_end c1"
    using m1_handed [where env = "tcp_env evs" and ms = ms, OF assms(1-6) f] by blast
  from assms(7) w1 obtain b where
    b: "send_end_loop tcp_wire (tcp_env evs) 1 ms 0 s1 = Some (s', b)" "r = (if b then 0 else -1)"
    by (auto split: bind_splits)
  have "P (sm_dev s1)" using P [OF c1(2,3)] c1(1) by simp
  from send_end_dev [where P = P, OF b(1) this step] b(2) c1(1,4) show ?thesis by auto
qed

text \<open>Over a link that works the report is sent in the first sleep.\<close>

lemma turns_of_ticks: "tcp_ticks es c = Some (c', out) \<Longrightarrow> tcp_turns (map Tick es) c = Some (c', out, [])"
  by (induction es arbitrary: c out) (fastforce simp: tcp_turn_def split: bind_splits)+

lemma report_sent:
  assumes "uu_wf (sm_up s)" and "0 \<le> sm_len s" and "sm_len s \<le> 1007" and "sm_len s \<le> int (length (sm_data s))"
    and "sm_dev s = (c, w)" and "tcp_inv c"
    and "ticks_to_send (tc_step c) = Some n" and "tc_step c \<noteq> TCP_STEP_RECV_WAIT" and "length es = n"
    and "list_all good_sys es" and "evs (sm_sleeps s) = map Tick es" and "0 < ms"
  shows "\<exists>s'. wait_m1 tcp_wire (tcp_env evs) loc pw ms s = Some (s', 0)"
proof -
  obtain c1 s1 where
    w1: "wait_m1 tcp_wire (tcp_env evs) loc pw ms s =
      do { (s2, b) \<leftarrow> send_end_loop tcp_wire (tcp_env evs) 1 ms 0 s1; Some (s2, if b then 0 else -1) }"
    and c1: "sm_dev s1 = (c1, w)" "sm_sleeps s1 = sm_sleeps s" "tcp_inv c1" "\<not> tcp_is_send_end c1"
      "tc_step c1 = tc_step c"
    using m1_handed [where env = "tcp_env evs" and ms = ms and loc = loc and pw = pw, OF assms(1-6) refl] assms(8) by auto
  have "0 < tc_sendlen c1" using c1(3,4) by (simp add: tcp_is_send_end_def tcp_inv_def)
  from tcp_delivers [OF c1(3) this _ assms(9,10)] c1(5) assms(7) obtain c2 where
    c2: "tcp_ticks es c1 = Some (c2, tcp_frame c1)" "tcp_is_send_end c2" by auto
  have "tcp_env evs (sm_sleeps s1) (sm_dev s1) = Some ((c2, w @ tcp_frame c1), [])"
    using turns_of_ticks [OF c2(1)] c1(1,2) assms(11) by (simp add: tcp_env_def)
  then obtain s2 where "pause (tcp_env evs) s1 = Some s2" "sm_dev s2 = (c2, w @ tcp_frame c1)"
    by (auto simp: pause_def)
  then show ?thesis using w1 c2(2) assms(12) by (subst (asm) send_end_loop.simps) simp
qed

text \<open>The result of the protocol and the wire: a report is sent at most once and in order; \<open>-1\<close> says that it
  has not left, and it still waits in the client; \<open>0\<close> says that the client is done with it, and
  with sockets that take all they are given that it has left as a whole.\<close>

lemma report_on_wire:
  assumes "uu_wf (sm_up s)" and "0 \<le> sm_len s" and "sm_len s \<le> 1007" and "sm_len s \<le> int (length (sm_data s))"
    and "sm_dev s = (c, w)" and "tcp_inv c"
    and "wait_m1 tcp_wire (tcp_env evs) loc pw ms s = Some (s', r)"
    and f: "f = frame_of True (sm_remote s) loc (ucast pw) (word_of_int (sm_cmd s)) (take (nat (sm_len s)) (sm_data s)) STX_STX ETX_ETX"
  shows "\<exists>out c'. sm_dev s' = (c', w @ out) \<and> take (length out) f = out \<and>
    (r = 0 \<and> tcp_frame c' = [] \<or> r = -1 \<and> out = [] \<and> tcp_frame c' = f \<and> tcp_inv c')"
proof -
  note p = report_placed [OF assms(1-8), where P = "frame_at f w"]
  have "frame_at f w (sm_dev s') \<and> (r = 0 \<and> tcp_is_send_end (fst (sm_dev s')) \<or> r = -1 \<and> \<not> tcp_is_send_end (fst (sm_dev s')))"
  proof (rule p)
    show "frame_at f w (d, w)" if "tcp_inv d" "tcp_frame d = f" for d using that by (simp add: frame_at_def)
    show "frame_at f w x'" if "tcp_env evs n x = Some (x', ks)" "frame_at f w x" for n x x' ks
      using that by (cases x) (auto simp: tcp_env_def intro: frame_at_turns)
  qed
  then show ?thesis using tcp_link.send_end_iff [of "fst (sm_dev s')"]
    by (cases "sm_dev s'") (auto simp: frame_at_def mxtcp_def)
qed

lemma report_whole:
  assumes "uu_wf (sm_up s)" and "0 \<le> sm_len s" and "sm_len s \<le> 1007" and "sm_len s \<le> int (length (sm_data s))"
    and "sm_dev s = (c, w)" and "tcp_inv c"
    and "wait_m1 tcp_wire (tcp_env evs) loc pw ms s = Some (s', 0)"
    and f: "f = frame_of True (sm_remote s) loc (ucast pw) (word_of_int (sm_cmd s)) (take (nat (sm_len s)) (sm_data s)) STX_STX ETX_ETX"
    and w: "\<forall>n. \<forall>ev\<in>set (evs n). whole_send ev"
  shows "snd (sm_dev s') = w @ f"
proof -
  note p = report_placed [OF assms(1-8), where P = "whole_at f w"]
  have "whole_at f w (sm_dev s') \<and> (0 = (0 :: int) \<and> tcp_is_send_end (fst (sm_dev s')) \<or> 0 = (-1 :: int) \<and> \<not> tcp_is_send_end (fst (sm_dev s')))"
  proof (rule p)
    show "whole_at f w (d, w)" if "tcp_inv d" "tcp_frame d = f" for d using that by (simp add: whole_at_def)
    show "whole_at f w x'" if "tcp_env evs n x = Some (x', ks)" "whole_at f w x" for n x x' ks
      using that w by (cases x) (auto simp: tcp_env_def intro: whole_at_turns)
  qed
  moreover have "f \<noteq> []" unfolding f by (simp add: frame_of_def Let_def)
  ultimately show ?thesis using tcp_link.send_end_iff [of "fst (sm_dev s')"]
    by (cases "sm_dev s'") (auto simp: whole_at_def mxtcp_def)
qed

text \<open>A report given up by the protocol leaves all the same when the link comes back: the ticks that the
  client needs put the whole frame on the wire.\<close>

lemma report_late:
  assumes "tcp_inv c" and "tcp_frame c \<noteq> []" and "ticks_to_send (tc_step c) = Some n" and "length events = n"
    and "list_all good_sys events"
  shows "\<exists>c'. tcp_ticks events c = Some (c', tcp_frame c) \<and> tcp_is_send_end c'"
proof -
  have "0 < tc_sendlen c" using tcp_frame_empty [OF assms(1)] assms(1,2) by (simp add: tcp_inv_def)
  from tcp_delivers [OF assms(1) this assms(3-5)] show ?thesis by blast
qed

end
