(* ===== verification/Settings.thy ===== *)
theory Settings
  imports DataClass Calendar
begin

text \<open>
  The settings of \<^verbatim>\<open>data/rtu_setting.hpp\<close> and their exchange with the parameter and runtime
  tables, \<^verbatim>\<open>app/dataprocess/data_save.cpp\<close> lines 155 to 192 and 229 to 312. The file of
  the settings is the subject of the theory \<open>Json_Bind\<close>. \<open>None\<close> is an access outside an
  object.
\<close>

section \<open>The settings\<close>

record rtu_ftp =
  ftp_enable :: int
  ftp_ip :: string
  ftp_user :: string
  ftp_password :: string
  ftp_downdir :: string
  ftp_serverdir :: string
  ftp_interval :: int

record rtu_485 =
  rs_factorType :: string
  rs_port :: string
  rs_baud :: int
  rs_brandName :: string
  rs_requestCmd :: string
  rs_resultDataFilter :: string
  rs_dataType :: string
  rs_dataFormatter :: string
  rs_err_cnt :: int

record rtu_setting =
  rtu_dirty :: bool
  rtu_logsmax_5min :: int
  rtu_terminalNo :: string
  rtu_terminalType :: int
  rtu_model :: string
  rtu_passwd :: string
  rtu_center :: "int list"
  rtu_remote :: "string list"
  rtu_bdSerialPort :: string
  rtu_bdBaud :: int
  rtu_shishi :: "string list"
  rtu_dingshi :: "string list"
  rtu_xiaoshi :: "string list"
  rtu_jiabao :: "(string \<times> string list) list"
  rtu_rs485 :: "rtu_485 list"
  rtu_ftp_set :: rtu_ftp
  rtu_runtime :: "(string \<times> l64) list"
  rtu_personalset :: "(string \<times> string) list"

text \<open>A \<^verbatim>\<open>std::map\<close> from texts is the list of its entries in the order of the keys, compared
  byte by byte.\<close>

fun text_less :: "string \<Rightarrow> string \<Rightarrow> bool" where
  "text_less [] [] = False"
| "text_less [] (b # bs) = True"
| "text_less (a # as) [] = False"
| "text_less (a # as) (b # bs) =
     (byte_of a < byte_of b \<or> byte_of a = byte_of b \<and> text_less as bs)"

fun map_put :: "string \<Rightarrow> 'v \<Rightarrow> (string \<times> 'v) list \<Rightarrow> (string \<times> 'v) list" where
  "map_put k v [] = [(k, v)]"
| "map_put k v ((j, w) # m) =
     (if k = j then (k, v) # m else if text_less k j then (k, v) # (j, w) # m else (j, w) # map_put k v m)"

lemma map_of_map_put: "sorted_wrt text_less (map fst m) \<Longrightarrow> map_of (map_put k v m) = (map_of m)(k \<mapsto> v)"
  by (induction m) (auto simp: fun_eq_iff)

text \<open>\<^verbatim>\<open>strtoull(s, &stop, 16)\<close>: white space, a sign, a prefix \<^verbatim>\<open>0x\<close> before a digit, then digits;
  the value is clamped.\<close>

definition strtoull16 :: "string \<Rightarrow> ul64" where
  "strtoull16 s =
     (let s1 = dropWhile is_space s;
          neg = (take 1 s1 = ''-'');
          s2 = (if take 1 s1 = ''-'' \<or> take 1 s1 = ''+'' then drop 1 s1 else s1);
          s3 = (if (take 2 s2 = ''0x'' \<or> take 2 s2 = ''0X'') \<and> takeWhile (\<lambda>c. c \<in> set hex_chars) (drop 2 s2) \<noteq> []
                then drop 2 s2 else s2);
          ds = takeWhile (\<lambda>c. c \<in> set hex_chars) s3;
          n = hex_num ds
      in if n \<ge> 2 ^ 64 then - 1
         else if neg then - word_of_nat n else word_of_nat n)"

section \<open>Recovery at start\<close>

definition modify_item :: "DataClass \<Rightarrow> place \<Rightarrow> (DataClassItem \<Rightarrow> DataClassItem option) \<Rightarrow> DataClass option" where
  "modify_item d p f = update_at get_place put_place p f d"

definition set_val :: "l64 \<Rightarrow> DataClassItem \<Rightarrow> DataClassItem option" where
  "set_val v it = Some (it\<lparr>it_val := v\<rparr>)"

definition set_hex :: "nat \<Rightarrow> u8 \<Rightarrow> DataClassItem \<Rightarrow> DataClassItem option" where
  "set_hex i b it = do {
     h \<leftarrow> it_hex it;
     h' \<leftarrow> wr h i b;
     Some (it\<lparr>it_hex := Some h'\<rparr>) }"

definition get_hex :: "DataClass \<Rightarrow> place \<Rightarrow> nat \<Rightarrow> u8 option" where
  "get_hex d p i = do { it \<leftarrow> get_place d p; h \<leftarrow> it_hex it; rd h i }"

fun recover_center :: "int list \<Rightarrow> nat \<Rightarrow> DataClass \<Rightarrow> DataClass option" where
  "recover_center [] i param = Some param"
| "recover_center (c # cs) i param =
     (if i < 4
      then do {
        param' \<leftarrow> modify_item param (at_id param 0x01) (set_hex i (word_of_int c));
        recover_center cs (Suc i) param' }
      else Some param)"

text \<open>The twenty bytes of an address go to an array sized for the item.\<close>

fun recover_remote :: "bytes \<Rightarrow> string list \<Rightarrow> nat \<Rightarrow> DataClass \<Rightarrow> DataClass option" where
  "recover_remote stack [] i param = Some param"
| "recover_remote stack (r # rs) i param =
     (if i < 8
      then do {
        buffer \<leftarrow> ipstring2hex r stack;
        src \<leftarrow> rd_range buffer 0 20;
        param' \<leftarrow> modify_item param (at_id param (0x04 + word_of_nat i))
          (\<lambda>it. do { h \<leftarrow> it_hex it; h' \<leftarrow> memcpy_at 0 src h; Some (it\<lparr>it_hex := Some h'\<rparr>) });
        recover_remote stack rs (Suc i) param' }
      else Some param)"

text \<open>\<open>stack\<close> is what the forty bytes of the local array hold on entry.\<close>

definition param_recovery :: "bytes \<Rightarrow> rtu_setting \<Rightarrow> DataClass \<Rightarrow> DataClass option" where
  "param_recovery stack rtu param = do {
     p1 \<leftarrow> modify_item param (at_id param 0x02) (set_val (strtoull16 (rtu_terminalNo rtu)));
     p2 \<leftarrow> modify_item p1 (at_id p1 0x03) (set_val (strtoull16 (rtu_passwd rtu)));
     p3 \<leftarrow> recover_center (rtu_center rtu) 0 p2;
     p4 \<leftarrow> recover_remote stack (rtu_remote rtu) 0 p3;
     p5 \<leftarrow> (if rtu_model rtu = ''normal'' then modify_item p4 (at_id p4 0x0C) (set_hex 0 0x02) else Some p4);
     modify_item p5 (at_name p5 ''terminalType'') (set_val (word_of_int (rtu_terminalType rtu))) }"

fun runtime_recover_loop :: "(string \<times> l64) list \<Rightarrow> DataClass \<Rightarrow> DataClass option" where
  "runtime_recover_loop [] runtime = Some runtime"
| "runtime_recover_loop ((n, v) # es) runtime = do {
     r \<leftarrow> modify_item runtime (at_name runtime n) (set_val v);
     runtime_recover_loop es r }"

definition runtime_recovery :: "rtu_setting \<Rightarrow> DataClass \<Rightarrow> DataClass option" where
  "runtime_recovery rtu runtime = runtime_recover_loop (rtu_runtime rtu) runtime"

section \<open>Saving to the settings\<close>

definition to_text :: "l64 \<Rightarrow> string" where
  "to_text v = (if sint v < 0 then ''-'' @ to_dec (nat (- sint v)) else to_dec (nat (sint v)))"

fun save_center_loop :: "int list \<Rightarrow> nat \<Rightarrow> bytes \<Rightarrow> bytes option" where
  "save_center_loop [] i cc = Some cc"
| "save_center_loop (c # cs) i cc = do {
     cc' \<leftarrow> wr cc i (word_of_int c);
     save_center_loop cs (Suc i) cc' }"

definition save_center :: "DataClass \<Rightarrow> rtu_setting \<Rightarrow> rtu_setting option" where
  "save_center param pr = do {
     cc \<leftarrow> save_center_loop (rtu_center pr) 0 (replicate 4 0xFF);
     it \<leftarrow> get_place param (at_id param 0x01);
     h \<leftarrow> it_hex it;
     h4 \<leftarrow> rd_range h 0 4;
     Some (if cc \<noteq> h4 then pr\<lparr>rtu_dirty := True, rtu_center := map (\<lambda>b. int (unat b)) h4\<rparr> else pr) }"

text \<open>The addresses, until the first unset one; an address behind the last known one is written
  past the end of the vector.\<close>

fun save_remote :: "DataClass \<Rightarrow> nat \<Rightarrow> nat \<Rightarrow> rtu_setting \<Rightarrow> rtu_setting option" where
  "save_remote param i 0 pr = Some pr"
| "save_remote param i (Suc k) pr = do {
     it \<leftarrow> get_place param (at_id param (0x04 + word_of_nat i));
     h \<leftarrow> it_hex it;
     b \<leftarrow> rd h 0;
     if b = 0xFF then Some pr
     else do {
       t \<leftarrow> hex2ipstring h;
       pr' \<leftarrow> (if i + 1 > length (rtu_remote pr) \<or> rtu_remote pr ! i \<noteq> t
               then do {
                 rs \<leftarrow> wr (rtu_remote pr) i t;
                 Some (pr\<lparr>rtu_dirty := True, rtu_remote := rs\<rparr>) }
               else Some pr);
       save_remote param (Suc i) k pr' } }"

definition param_save :: "DataClass \<Rightarrow> rtu_setting \<Rightarrow> rtu_setting option" where
  "param_save param pr = do {
     no \<leftarrow> get_place param (at_id param 0x02);
     pw \<leftarrow> get_place param (at_id param 0x03);
     let pr1 = (if strtoull16 (rtu_terminalNo pr) \<noteq> it_val no
                then pr\<lparr>rtu_terminalNo := to_text (it_val no), rtu_dirty := True\<rparr> else pr);
     let pr2 = (if it_val pw \<noteq> strtoull16 (rtu_passwd pr1)
                then pr1\<lparr>rtu_passwd := tostring16 (it_val pw), rtu_dirty := True\<rparr> else pr1);
     pr3 \<leftarrow> save_center param pr2;
     pr4 \<leftarrow> save_remote param 0 8 pr3;
     m \<leftarrow> get_hex param (at_id param 0x0C) 0;
     let pr5 = (if m = 0x02 then pr4\<lparr>rtu_model := ''normal''\<rparr> else pr4);
     tt \<leftarrow> get_place param (at_name param ''terminalType'');
     Some (pr5\<lparr>rtu_terminalType := to_int32 (sint (it_val tt))\<rparr>) }"

fun runtime_save_loop :: "DataClassItem list \<Rightarrow> rtu_setting \<Rightarrow> rtu_setting option" where
  "runtime_save_loop [] pr = Some pr"
| "runtime_save_loop (p # ps) pr = do {
     z \<leftarrow> it_isZero p;
     let n = cfg_name (config p);
     runtime_save_loop ps
       (if \<not> z \<and> map_of (rtu_runtime pr) n \<noteq> Some (it_val p)
        then pr\<lparr>rtu_runtime := map_put n (it_val p) (rtu_runtime pr), rtu_dirty := True\<rparr> else pr) }"

definition runtime_save :: "DataClass \<Rightarrow> rtu_setting \<Rightarrow> rtu_setting option" where
  "runtime_save runtime pr = runtime_save_loop (dc_items runtime) pr"

text \<open>\<^verbatim>\<open>data_save_if_need\<close>: the settings and the file.\<close>

definition data_save_if_need :: "rtu_setting \<Rightarrow> rtu_setting \<Rightarrow> rtu_setting \<times> rtu_setting" where
  "data_save_if_need rtu file = (if rtu_dirty rtu then (rtu\<lparr>rtu_dirty := False\<rparr>, rtu) else (rtu, file))"

section \<open>Texts of numbers\<close>

lemma is_space_hex: "c \<in> set hex_chars \<Longrightarrow> \<not> is_space c \<and> c \<noteq> CHR ''-'' \<and> c \<noteq> CHR ''+''"
  by (auto simp: hex_chars_def is_space_def)

lemma strtoull16_digits:
  assumes "ds \<noteq> []" "set ds \<subseteq> set hex_chars" "hex_num ds < 2 ^ 64"
  shows "strtoull16 ds = word_of_nat (hex_num ds)"
proof -
  obtain c cs where ds: "ds = c # cs" using assms(1) by (cases ds) auto
  have c: "\<not> is_space c" "c \<noteq> CHR ''-''" "c \<noteq> CHR ''+''"
    using assms(2) is_space_hex [of c] by (simp_all add: ds)
  have nox: "CHR ''x'' \<notin> set ds" "CHR ''X'' \<notin> set ds"
    using assms(2) by (auto simp: hex_chars_def)
  then have "take 2 ds \<noteq> ''0x''" "take 2 ds \<noteq> ''0X''"
    using set_take_subset [of 2 ds] by (metis list.set_intros(1,2) subsetD)+
  moreover have tw: "takeWhile (\<lambda>c. c \<in> set hex_chars) ds = ds"
    using assms(2) by (auto simp: takeWhile_eq_all_conv)
  moreover have "dropWhile is_space ds = ds" "take 1 ds \<noteq> ''-''" "take 1 ds \<noteq> ''+''"
    using c by (simp_all add: ds)
  ultimately show ?thesis
    using assms(1,3) by (simp add: strtoull16_def Let_def tw del: takeWhile_eq_all_conv)
qed

text \<open>The password text is read back as the value it was made from.\<close>

lemma strtoull16_tostring16: "strtoull16 (tostring16 v) = v"
proof -
  have "unat v < 2 ^ 64" using unsigned_less [of v, where ?'a = nat] by simp
  then show ?thesis
    using strtoull16_digits [of "to_hex (unat v)"] to_hex_chars by (auto simp: tostring16_def)
qed

lemma digit_char_hex: "n < 10 \<Longrightarrow> digit_char n = hex_lower n"
  using nat_less_10_cases [of n] by (auto simp: digit_char_def hex_lower_def)

lemma to_dec_hex:
  "set (to_dec n) \<subseteq> set hex_chars \<and> to_dec n \<noteq> [] \<and>
    hex_num (to_dec n) = (if n < 10 then n else hex_num (to_dec (n div 10)) * 16 + n mod 10)"
proof (induction n rule: to_dec.induct)
  case (1 n)
  show ?case
  proof (cases "n < 10")
    case True
    then show ?thesis
      using hex_lower_cases(1,2) [of n] by (subst (1 2 3) to_dec.simps) (simp add: digit_char_hex hex_num_def)
  next
    case False
    have m: "n mod 10 < 10" by simp
    then show ?thesis
      using 1 False hex_lower_cases(1,2) [of "n mod 10"]
      by (subst (1 2 3) to_dec.simps) (simp add: digit_char_hex hex_num_def)
  qed
qed

lemma hex_num_to_dec_ge: "n \<le> hex_num (to_dec n)"
proof (induction n rule: less_induct)
  case (less n)
  show ?case
  proof (cases "n < 10")
    case True
    then show ?thesis using to_dec_hex [of n] by simp
  next
    case False
    then have "n div 10 \<le> hex_num (to_dec (n div 10))" by (intro less) simp
    moreover have "n = n div 10 * 10 + n mod 10" by simp
    moreover have "hex_num (to_dec n) = hex_num (to_dec (n div 10)) * 16 + n mod 10"
      using to_dec_hex [of n] False by simp
    ultimately show ?thesis by linarith
  qed
qed

lemma hex_num_to_dec_gt: "10 \<le> n \<Longrightarrow> n < hex_num (to_dec n)"
proof -
  assume n: "10 \<le> n"
  have "n div 10 \<le> hex_num (to_dec (n div 10))" by (rule hex_num_to_dec_ge)
  moreover have "n = n div 10 * 10 + n mod 10" by simp
  moreover have "hex_num (to_dec n) = hex_num (to_dec (n div 10)) * 16 + n mod 10"
    using to_dec_hex [of n] n by simp
  moreover have "1 \<le> n div 10" using n by simp
  ultimately show ?thesis by linarith
qed

lemma hex_num_to_dec_lt: "n < 10 ^ k \<Longrightarrow> 0 < k \<Longrightarrow> hex_num (to_dec n) < 16 ^ k"
proof (induction k arbitrary: n)
  case (Suc k)
  show ?case
  proof (cases "n < 10")
    case True
    have "1 * 16 \<le> (16 :: nat) ^ k * 16" by (intro mult_right_mono) simp_all
    moreover have "hex_num (to_dec n) < 16" using True to_dec_hex [of n] by simp
    ultimately show ?thesis unfolding power_Suc2 by linarith
  next
    case False
    then have "k \<noteq> 0" using Suc.prems(1) by (cases k) auto
    moreover have "n div 10 < 10 ^ k" using Suc.prems(1) by (simp add: div_less_iff_less_mult mult.commute)
    ultimately have "hex_num (to_dec (n div 10)) < 16 ^ k" using Suc.IH by simp
    then have "hex_num (to_dec (n div 10)) * 16 + 16 \<le> 16 ^ Suc k" by simp
    moreover have "n mod 10 < 16" using mod_less_divisor [of 10 n] by linarith
    moreover have "hex_num (to_dec n) = hex_num (to_dec (n div 10)) * 16 + n mod 10"
      using to_dec_hex [of n] False by simp
    ultimately show ?thesis by linarith
  qed
qed simp

text \<open>The station number is written in decimal and read in hexadecimal: of the numbers that a
  five-byte item holds only those below ten survive.\<close>

lemma terminalNo_text:
  assumes "unat v < 2 ^ 40"
  shows "strtoull16 (to_text v) = v \<longleftrightarrow> unat v < 10"
proof -
  have s: "sint v = int (unat v)" using sint_l64_of_nat [of "unat v"] assms by simp
  then have t: "to_text v = to_dec (unat v)" by (simp add: to_text_def)
  have "unat v < 10 ^ 13" using assms by simp
  then have lt: "hex_num (to_dec (unat v)) < 16 ^ 13" by (rule hex_num_to_dec_lt) simp
  then have r: "strtoull16 (to_text v) = word_of_nat (hex_num (to_dec (unat v)))"
    unfolding t using to_dec_hex [of "unat v"] by (intro strtoull16_digits) auto
  have "unat (word_of_nat (hex_num (to_dec (unat v))) :: ul64) = hex_num (to_dec (unat v))"
    using lt by (simp add: unat_of_nat)
  then have "strtoull16 (to_text v) = v \<longleftrightarrow> hex_num (to_dec (unat v)) = unat v"
    unfolding r by (metis unsigned_word_eqI)
  also have "... \<longleftrightarrow> unat v < 10"
    using hex_num_to_dec_gt [of "unat v"] to_dec_hex [of "unat v"] by (cases "unat v < 10") auto
  finally show ?thesis .
qed

section \<open>Accesses outside their objects\<close>

lemma recover_remote_overrun:
  assumes "get_place param (at_id param (0x04 + word_of_nat i)) = Some it" "it_hex it = Some h" "length h < 20" "i < 8"
  shows "recover_remote stack (r # rs) i param = None"
  using assms by (auto simp: modify_item_def update_at_def memcpy_at_def rd_range_def split: bind_splits)

lemma save_center_five:
  assumes "5 \<le> length (rtu_center pr)"
  shows "save_center param pr = None"
proof -
  have "save_center_loop cs i cc = None" if "length cc = 4" "5 \<le> i + length cs" "i \<le> 4" for cs i cc
    using that
  proof (induction cs arbitrary: i cc)
    case (Cons c cs)
    show ?case
    proof (cases "i = 4")
      case True
      with Cons.prems show ?thesis by (simp add: wr_def)
    next
      case False
      with Cons.prems Cons.IH [of "cc[i := word_of_int c]" "Suc i"] show ?thesis by (simp add: wr_def)
    qed
  qed simp
  from this [of "replicate 4 0xFF" 0 "rtu_center pr"] assms show ?thesis by (simp add: save_center_def)
qed

text \<open>Saving an address that the settings do not have yet.\<close>

lemma save_remote_new:
  assumes "get_place param (at_id param (0x04 + word_of_nat i)) = Some it" "it_hex it = Some h"
    "rd h 0 = Some b" "b \<noteq> 0xFF" "length (rtu_remote pr) \<le> i"
  shows "save_remote param i (Suc k) pr = None"
  using assms by (auto simp: wr_def split: bind_splits)

section \<open>Runtime values through the settings\<close>

lemma text_less_irrefl: "\<not> text_less a a"
  by (induction a) auto

lemma text_less_trans: "text_less a b \<Longrightarrow> text_less b c \<Longrightarrow> text_less a c"
proof (induction a b arbitrary: c rule: text_less.induct)
  case (4 a as b bs)
  then show ?case by (cases c) auto
next
  case (2 b bs)
  then show ?case by (cases c) auto
qed auto

lemma byte_of_inj: "byte_of a = byte_of b \<Longrightarrow> a = b"
  using string_of_bytes_of [of "[a]"] string_of_bytes_of [of "[b]"] by (simp add: bytes_of_def)

lemma text_less_total: "a \<noteq> b \<Longrightarrow> text_less a b \<or> text_less b a"
proof (induction a b rule: text_less.induct)
  case (4 a as b bs)
  then show ?case using byte_of_inj [of a b] by (cases "byte_of a" "byte_of b" rule: linorder_cases) auto
qed auto

lemma map_put_keys: "set (map fst (map_put k v m)) = insert k (set (map fst m))"
  by (induction k v m rule: map_put.induct) auto

lemma map_put_sorted: "sorted_wrt text_less (map fst m) \<Longrightarrow> sorted_wrt text_less (map fst (map_put k v m))"
proof (induction m)
  case (Cons e m)
  obtain j w where e: "e = (j, w)" by fastforce
  have keys: "fst ` set (map_put k v m) = insert k (fst ` set m)" using map_put_keys [of k v m] by simp
  have lt: "\<forall>x \<in> fst ` set m. text_less j x" using Cons.prems e by simp
  consider "k = j" | "k \<noteq> j" "text_less k j" | "k \<noteq> j" "\<not> text_less k j" by blast
  then show ?case
  proof cases
    case 2
    then have "\<forall>x \<in> fst ` set m. text_less k x" using lt text_less_trans by blast
    with 2 e Cons.prems show ?thesis by simp
  next
    case 3
    then have "text_less j k" using text_less_total by blast
    then have "\<forall>x \<in> fst ` set (map_put k v m). text_less j x" using lt keys by simp
    with 3 e Cons show ?thesis by simp
  qed (use e Cons.prems in simp)
qed simp

definition names_wf :: "DataClass \<Rightarrow> bool" where
  "names_wf d \<longleftrightarrow> distinct (map (\<lambda>it. cfg_name (config it)) (dc_items d)) \<and>
     (\<forall>i < length (dc_items d). str_items d (cfg_name (config (dc_items d ! i))) = Some i) \<and>
     (\<forall>n i. str_items d n = Some i \<longrightarrow> i < length (dc_items d) \<and> cfg_name (config (dc_items d ! i)) = n)"

lemma push_names_wf:
  assumes "names_wf d" "cfg_name (config it) \<notin> set (map (\<lambda>it. cfg_name (config it)) (dc_items d))"
  shows "names_wf (push_item d it)"
proof -
  let ?d = "push_item d it" and ?n = "length (dc_items d)"
  have l: "length (dc_items ?d) = Suc ?n" by (simp add: push_item_def)
  have "str_items ?d (cfg_name (config (dc_items ?d ! i))) = Some i" if "i < Suc ?n" for i
  proof (cases "i = ?n")
    case False
    with that have i: "i < ?n" by simp
    then have "cfg_name (config (dc_items d ! i)) \<in> set (map (\<lambda>it. cfg_name (config it)) (dc_items d))" by auto
    then have "cfg_name (config (dc_items d ! i)) \<noteq> cfg_name (config it)" using assms(2) by metis
    with i assms(1) show ?thesis by (simp add: push_item_def nth_append names_wf_def)
  qed (simp add: push_item_def)
  moreover have "i < Suc ?n \<and> cfg_name (config (dc_items ?d ! i)) = n" if "str_items ?d n = Some i" for n i
    using that assms(1) by (fastforce simp: push_item_def nth_append names_wf_def split: if_splits)
  moreover have "distinct (map (\<lambda>it. cfg_name (config it)) (dc_items ?d))"
    using assms by (simp add: push_item_def names_wf_def)
  ultimately show ?thesis by (simp add: names_wf_def l)
qed

lemma names_wf_Init:
  assumes "names_wf d" and "distinct (map (\<lambda>it. cfg_name (config it)) (dc_items d) @ map cfg_name cs)"
  shows "names_wf (DataClassInit addr cs d)"
  using assms
proof (induction cs arbitrary: d)
  case (Cons c cs)
  then show ?case
    by (simp del: set_map) (rule Cons.IH, rule push_names_wf, auto simp: push_item_def)
qed simp

lemma runtime_names: "distinct (map cfg_name runtime_config_items)"
  by (simp add: runtime_config_items_def cfg_def)

lemma runtime_names_wf: "names_wf (new_DataClass addr Type_Runtime n)"
proof -
  have "names_wf (DataClassInit addr runtime_config_items (empty_class\<lparr>dc_type := Type_Runtime\<rparr>))"
    by (rule names_wf_Init) (simp_all add: names_wf_def empty_class_def runtime_names)
  then show ?thesis by (simp add: new_DataClass_def names_wf_def config_items_of_def)
qed

lemma runtime_save_loop_keys:
  "runtime_save_loop ps pr = Some pr' \<Longrightarrow> sorted_wrt text_less (map fst (rtu_runtime pr)) \<Longrightarrow>
    sorted_wrt text_less (map fst (rtu_runtime pr')) \<and>
    (\<forall>n. n \<notin> set (map (\<lambda>p. cfg_name (config p)) ps) \<longrightarrow> map_of (rtu_runtime pr') n = map_of (rtu_runtime pr) n)"
proof (induction ps arbitrary: pr)
  case (Cons p ps)
  let ?n = "cfg_name (config p)"
  from Cons.prems(1) obtain z where z: "it_isZero p = Some z" by (auto split: bind_splits)
  define q where "q = (if \<not> z \<and> map_of (rtu_runtime pr) ?n \<noteq> Some (it_val p)
      then pr\<lparr>rtu_runtime := map_put ?n (it_val p) (rtu_runtime pr), rtu_dirty := True\<rparr> else pr)"
  have r: "runtime_save_loop ps q = Some pr'" using Cons.prems(1) z by (simp add: q_def Let_def)
  have s: "sorted_wrt text_less (map fst (rtu_runtime q))"
    using Cons.prems(2) by (simp add: q_def map_put_sorted)
  have "map_of (rtu_runtime q) n = map_of (rtu_runtime pr) n" if "n \<noteq> ?n" for n
    using that map_of_map_put [OF Cons.prems(2)] by (simp add: q_def)
  with Cons.IH [OF r s] show ?case by simp
qed simp

lemma runtime_save_loop_vals:
  assumes "runtime_save_loop ps pr = Some pr'" "sorted_wrt text_less (map fst (rtu_runtime pr))"
    "distinct (map (\<lambda>p. cfg_name (config p)) ps)" "p \<in> set ps" "it_isZero p = Some False"
  shows "map_of (rtu_runtime pr') (cfg_name (config p)) = Some (it_val p)"
  using assms
proof (induction ps arbitrary: pr)
  case (Cons p' ps)
  let ?n = "cfg_name (config p')"
  from Cons.prems(1) obtain z where z: "it_isZero p' = Some z" by (auto split: bind_splits)
  define q where "q = (if \<not> z \<and> map_of (rtu_runtime pr) ?n \<noteq> Some (it_val p')
      then pr\<lparr>rtu_runtime := map_put ?n (it_val p') (rtu_runtime pr), rtu_dirty := True\<rparr> else pr)"
  have r: "runtime_save_loop ps q = Some pr'" using Cons.prems(1) z by (simp add: q_def Let_def)
  have s: "sorted_wrt text_less (map fst (rtu_runtime q))"
    using Cons.prems(2) by (simp add: q_def map_put_sorted)
  show ?case
  proof (cases "p \<in> set ps")
    case True
    with Cons.IH [OF r s] Cons.prems(3,5) show ?thesis by simp
  next
    case False
    then have p: "p = p'" using Cons.prems(4) by simp
    have "map_of (rtu_runtime q) ?n = Some (it_val p')"
      using Cons.prems(5) z p map_of_map_put [OF Cons.prems(2)] by (simp add: q_def)
    moreover have "?n \<notin> set (map (\<lambda>p. cfg_name (config p)) ps)" using Cons.prems(3) by simp
    ultimately show ?thesis using runtime_save_loop_keys [OF r s] p by metis
  qed
qed simp

text \<open>Reading the entries back: an item with an entry gets its value, the others keep theirs.\<close>

lemma runtime_recover_vals:
  assumes "names_wf rt" "distinct (map fst es)"
  shows "\<exists>rt'. runtime_recover_loop es rt = Some rt' \<and> names_wf rt' \<and>
    map config (dc_items rt') = map config (dc_items rt) \<and>
    (\<forall>i < length (dc_items rt). it_val (dc_items rt' ! i) =
      (case map_of es (cfg_name (config (dc_items rt ! i))) of Some v \<Rightarrow> v | None \<Rightarrow> it_val (dc_items rt ! i)))"
  using assms
proof (induction es arbitrary: rt)
  case (Cons e es)
  obtain n v where e: "e = (n, v)" by fastforce
  have d: "distinct (map fst es)" "map_of es n = None" using Cons.prems(2) e by (auto simp: map_of_eq_None_iff)
  show ?case
  proof (cases "str_items rt n")
    case None
    define r where "r = rt\<lparr>nitem := (nitem rt)\<lparr>it_val := v\<rparr>\<rparr>"
    have m: "modify_item rt (at_name rt n) (set_val v) = Some r"
      using None by (simp add: modify_item_def update_at_def at_name_def get_place_def put_place_def set_val_def r_def)
    have w: "names_wf r" "dc_items r = dc_items rt" using Cons.prems(1) by (simp_all add: names_wf_def r_def)
    have "cfg_name (config (dc_items rt ! i)) \<noteq> n" if "i < length (dc_items rt)" for i
      using that None Cons.prems(1) unfolding names_wf_def by (metis option.distinct(1))
    then have ne: "map_of (e # es) (cfg_name (config (dc_items rt ! i))) = map_of es (cfg_name (config (dc_items rt ! i)))"
      if "i < length (dc_items rt)" for i using that e by simp
    have "runtime_recover_loop (e # es) rt = runtime_recover_loop es r" using m e by simp
    with Cons.IH [OF w(1) d(1)] ne show ?thesis unfolding w(2) by auto
  next
    case (Some k)
    then have k: "k < length (dc_items rt)" "cfg_name (config (dc_items rt ! k)) = n"
      using Cons.prems(1) by (simp_all add: names_wf_def)
    define it where "it = (dc_items rt ! k)\<lparr>it_val := v\<rparr>"
    define r where "r = rt\<lparr>dc_items := (dc_items rt)[k := it]\<rparr>"
    have m: "modify_item rt (at_name rt n) (set_val v) = Some r"
      using Some k(1) by (simp add: modify_item_def update_at_def at_name_def get_place_def put_place_def
          set_val_def r_def rd_def wr_def it_def)
    have c: "map config (dc_items r) = map config (dc_items rt)"
      using k(1) by (intro nth_equalityI) (auto simp: r_def it_def nth_list_update)
    have cn: "map (\<lambda>it. cfg_name (config it)) (dc_items r) = map (\<lambda>it. cfg_name (config it)) (dc_items rt)"
      using arg_cong [OF c, of "map cfg_name"] by (simp only: map_map comp_def)
    have cfgs: "config (dc_items r ! i) = config (dc_items rt ! i)" if "i < length (dc_items rt)" for i
      using that k(1) by (cases "i = k") (simp_all add: r_def it_def)
    have l: "length (dc_items r) = length (dc_items rt)" by (simp add: r_def)
    have w: "names_wf r"
    proof -
      have "str_items r = str_items rt" by (simp add: r_def)
      with Cons.prems(1) cfgs show ?thesis unfolding names_wf_def cn l by auto
    qed
    obtain rt' where rt': "runtime_recover_loop es r = Some rt'" "names_wf rt'"
      "map config (dc_items rt') = map config (dc_items r)"
      "\<And>i. i < length (dc_items r) \<Longrightarrow> it_val (dc_items rt' ! i) =
        (case map_of es (cfg_name (config (dc_items r ! i))) of Some v \<Rightarrow> v | None \<Rightarrow> it_val (dc_items r ! i))"
      using Cons.IH [OF w d(1)] by blast
    have inj: "i = k" if "i < length (dc_items rt)" "cfg_name (config (dc_items rt ! i)) = n" for i
    proof -
      have "str_items rt (cfg_name (config (dc_items rt ! i))) = Some i"
        using Cons.prems(1) that(1) by (simp add: names_wf_def)
      with that(2) Some show ?thesis by simp
    qed
    have "it_val (dc_items rt' ! i) = (case map_of (e # es) (cfg_name (config (dc_items rt ! i))) of
        Some v \<Rightarrow> v | None \<Rightarrow> it_val (dc_items rt ! i))" if i: "i < length (dc_items rt)" for i
    proof (cases "i = k")
      case True
      then have "it_val (dc_items r ! i) = v" using k(1) by (simp add: r_def it_def)
      with True rt'(4) [of i] i l k cfgs [OF i] e d(2) show ?thesis by simp
    next
      case False
      then have "dc_items r ! i = dc_items rt ! i" by (simp add: r_def)
      moreover have "cfg_name (config (dc_items rt ! i)) \<noteq> n" using inj [OF i] False by blast
      ultimately show ?thesis using rt'(4) [of i] i l e by (simp split: option.splits)
    qed
    with m rt' c e show ?thesis by auto
  qed
qed simp

lemma sorted_keys_distinct: "sorted_wrt text_less ks \<Longrightarrow> distinct ks"
  using text_less_irrefl by (induction ks) auto

end
