(* ===== verification/Table_Laws.thy ===== *)
theory Table_Laws
  imports Settings
begin

text \<open>
  Tables in use. The operations of the program change the items of a table and never its maps or
  its configuration: \<open>table_ok t d\<close> says that \<open>d\<close> is still a table of type \<open>t\<close>, and under it
  every configured identifier has its item, at a place of its own.
\<close>

section \<open>The maps of a table\<close>

definition same_frame :: "DataClass \<Rightarrow> DataClass \<Rightarrow> bool" where
  "same_frame d d' \<longleftrightarrow> dc_type d' = dc_type d \<and> int_items d' = int_items d \<and> str_items d' = str_items d \<and>
     map config (dc_items d') = map config (dc_items d) \<and> config (nitem d') = config (nitem d)"

lemma same_frame_refl [simp]: "same_frame d d"
  by (simp add: same_frame_def)

lemma same_frame_trans: "same_frame a b \<Longrightarrow> same_frame b c \<Longrightarrow> same_frame a c"
  by (simp add: same_frame_def)

lemma same_frame_at:
  assumes "same_frame d d'"
  shows "at_id d' i = at_id d i" "at_u16 d' j = at_u16 d j" "at_name d' n = at_name d n"
  using assms by (simp_all add: same_frame_def at_id_def at_u16_def at_name_def)

text \<open>A function on items that keeps the configuration and well-formedness.\<close>

definition keeps :: "(DataClassItem \<Rightarrow> DataClassItem option) \<Rightarrow> bool" where
  "keeps f \<longleftrightarrow> (\<forall>it it'. f it = Some it' \<longrightarrow> config it' = config it \<and> (wf_item it \<longrightarrow> wf_item it'))"

lemma keeps_set_val [wf_intros]: "keeps (set_val v)"
  by (auto simp: keeps_def set_val_def wf_item_def)

lemma keeps_set_hex [wf_intros]: "keeps (set_hex i b)"
  by (auto simp: keeps_def set_hex_def wf_item_def wr_def split: bind_splits if_splits)

lemma fill_length: "fill n v h = Some h' \<Longrightarrow> length h' = length h"
  unfolding fill_def by (rule memcpy_at_length)

lemma keeps_clear [wf_intros]: "keeps it_clear"
  using fill_length
  by (fastforce simp: keeps_def it_clear_def wf_item_def Let_def split: bind_splits if_splits DataFormat.splits)

lemma modify_item_frame:
  assumes "modify_item d p f = Some d'" "keeps f"
  shows "same_frame d d'" "q \<noteq> p \<Longrightarrow> get_place d' q = get_place d q"
    "\<exists>it it'. get_place d p = Some it \<and> f it = Some it' \<and> get_place d' p = Some it'"
    "list_all wf_item (dc_items d) \<Longrightarrow> list_all wf_item (dc_items d')"
proof -
  from assms(1) obtain it it' where i: "get_place d p = Some it" "f it = Some it'" "put_place d p it' = Some d'"
    by (auto simp: modify_item_def update_at_def split: bind_splits)
  note g = items.get_put [OF i(3)]
  have c: "config it' = config it" using assms(2) i(2) by (auto simp: keeps_def)
  have "map config ((dc_items d)[k := it']) = map config (dc_items d)" if "rd (dc_items d) k = Some it" for k
    using that c by (intro nth_equalityI) (auto simp: rd_def nth_list_update split: if_splits)
  then show "same_frame d d'" using i c
    by (auto simp: same_frame_def put_place_def get_place_def wr_def split: place.splits if_splits)
  show "q \<noteq> p \<Longrightarrow> get_place d' q = get_place d q" using g by simp
  show "\<exists>it it'. get_place d p = Some it \<and> f it = Some it' \<and> get_place d' p = Some it'" using i g by auto
  show "list_all wf_item (dc_items d) \<Longrightarrow> list_all wf_item (dc_items d')"
  proof (cases p)
    case (PItem k)
    assume l: "list_all wf_item (dc_items d)"
    from PItem i(1) have "k < length (dc_items d)" "it = dc_items d ! k"
      by (auto simp: get_place_def rd_def split: if_splits)
    with l have "wf_item it" by (simp add: list_all_length)
    then have "wf_item it'" using assms(2) i(2) by (auto simp: keeps_def)
    with PItem i(3) l show ?thesis
      by (auto simp: put_place_def wr_def list_all_length nth_list_update split: if_splits)
  qed (use i in \<open>auto simp: put_place_def\<close>)
qed

section \<open>Tables of a type\<close>

definition table_ok :: "DataClassConfigType \<Rightarrow> DataClass \<Rightarrow> bool" where
  "table_ok t d \<longleftrightarrow> dc_type d = t \<and> dc_wf d \<and> map config (dc_items d) = config_items_of t \<and>
     list_all wf_item (dc_items d)"

lemma Init_type: "dc_type (DataClassInit addr cs d) = dc_type d"
  by (induction cs arbitrary: d) (simp_all add: push_item_def)

lemma table_ok_new: "table_ok t (new_DataClass addr t n)"
  using new_DataClass_wf [of addr t n] new_DataClass_wf_items [of addr t n]
    DataClassInit_items [of addr "config_items_of t" "empty_class\<lparr>dc_type := t\<rparr>"]
  by (simp add: table_ok_def new_DataClass_def Init_type) (simp add: empty_class_def)

lemma dc_wf_frame:
  assumes "same_frame d d'" "dc_wf d"
  shows "dc_wf d'"
proof -
  have m: "map config (dc_items d') = map config (dc_items d)" "int_items d' = int_items d"
    using assms(1) by (simp_all add: same_frame_def)
  then have l: "length (dc_items d') = length (dc_items d)" by (metis length_map)
  have "config (dc_items d' ! i) = config (dc_items d ! i)" if "i < length (dc_items d)" for i
    using that m l by (metis nth_map)
  then show ?thesis using assms(2) m(2) l by (simp add: dc_wf_def)
qed

lemma table_ok_modify:
  assumes "table_ok t d" "modify_item d p f = Some d'" "keeps f"
  shows "table_ok t d'"
  using modify_item_frame [OF assms(2,3)] assms(1) dc_wf_frame [of d d']
  by (simp add: table_ok_def same_frame_def)

text \<open>Every configured identifier has a place, and different identifiers have different places.\<close>

lemma table_ok_item:
  assumes "table_ok t d" "i < length (config_items_of t)"
  shows "at_u16 d (cfg_id (config_items_of t ! i)) = PItem i"
    "get_place d (PItem i) = Some (dc_items d ! i)"
    "config (dc_items d ! i) = config_items_of t ! i" "wf_item (dc_items d ! i)"
proof -
  have m: "map config (dc_items d) = config_items_of t" and w: "dc_wf d" and l: "list_all wf_item (dc_items d)"
    using assms(1) by (simp_all add: table_ok_def)
  from m have n: "length (dc_items d) = length (config_items_of t)" by (metis length_map)
  with assms(2) show g: "get_place d (PItem i) = Some (dc_items d ! i)" by (simp add: get_place_item)
  show c: "config (dc_items d ! i) = config_items_of t ! i" using m n assms(2) by (metis nth_map)
  show "at_u16 d (cfg_id (config_items_of t ! i)) = PItem i"
    using at_u16_item [OF w, of i] n assms(2) c by simp
  show "wf_item (dc_items d ! i)" using l n assms(2) by (simp add: list_all_length)
qed

definition row_of :: "DataClassConfigType \<Rightarrow> u16 \<Rightarrow> DataClassItemConfig option" where
  "row_of t i = find (\<lambda>c. cfg_id c = i) (config_items_of t)"

lemma table_ok_id:
  assumes "table_ok t d" "row_of t i = Some c"
  shows "\<exists>k it. at_u16 d i = PItem k \<and> get_place d (at_u16 d i) = Some it \<and> config it = c \<and> wf_item it"
proof -
  from assms(2) obtain k where k: "k < length (config_items_of t)" "config_items_of t ! k = c" "cfg_id c = i"
    by (auto simp: row_of_def find_Some_iff)
  with table_ok_item [OF assms(1) k(1)] show ?thesis by auto
qed

lemma place_inj:
  assumes "dc_wf d" "at_u16 d a = PItem k" "at_u16 d b = PItem k"
  shows "a = b"
proof -
  have "int_items d (ucast a) = Some k" "int_items d (ucast b) = Some k"
    using assms(2,3) by (auto simp: at_u16_def at_id_def split: option.splits)
  then have "(ucast (it_id (dc_items d ! k)) :: u32) = ucast a" "(ucast (it_id (dc_items d ! k)) :: u32) = ucast b"
    using assms(1) unfolding dc_wf_def by blast+
  then have "(ucast a :: u32) = ucast b" by simp
  then show ?thesis by (simp add: ucast_u16_u32)
qed

lemma other_place:
  assumes "table_ok t d" "row_of t a = Some c" "a \<noteq> b"
  shows "at_u16 d a \<noteq> at_u16 d b"
  using table_ok_id [OF assms(1,2)] place_inj [of d a _ b] assms(1,3) by (auto simp: table_ok_def)

text \<open>Access by an identifier written as a number of 32 bits.\<close>

lemma at_id_u16: "at_id d n = at_u16 d (ucast n)"
  by (simp add: at_id_def at_u16_def)

text \<open>The value of an item.\<close>

definition val_of :: "DataClass \<Rightarrow> u16 \<Rightarrow> l64 option" where
  "val_of d i = map_option it_val (get_place d (at_u16 d i))"

definition hex_of :: "DataClass \<Rightarrow> u16 \<Rightarrow> bytes option" where
  "hex_of d i = do { it \<leftarrow> get_place d (at_u16 d i); it_hex it }"

lemma set_val_at:
  assumes "table_ok t d" "row_of t i = Some c"
  shows "\<exists>d'. modify_item d (at_u16 d i) (set_val v) = Some d' \<and> table_ok t d' \<and> same_frame d d' \<and>
    val_of d' i = Some v \<and> (\<forall>j. j \<noteq> i \<longrightarrow> val_of d' j = val_of d j) \<and> (\<forall>j. hex_of d' j = hex_of d j)"
proof -
  obtain it where it: "get_place d (at_u16 d i) = Some it" using table_ok_id [OF assms] by blast
  from items.update_at_get [OF this, of "set_val v"] obtain d' where m: "modify_item d (at_u16 d i) (set_val v) = Some d'"
    by (auto simp: set_val_def modify_item_def)
  note f = modify_item_frame [OF m keeps_set_val]
  have a: "at_u16 d' j = at_u16 d j" for j using same_frame_at [OF f(1)] by simp
  have gi: "get_place d' (at_u16 d i) = Some (it\<lparr>it_val := v\<rparr>)"
    using f(3) it by (auto simp: set_val_def)
  have gj: "get_place d' (at_u16 d j) = get_place d (at_u16 d j)" if "j \<noteq> i" for j
    using f(2) other_place [OF assms, of j] that by auto
  have "hex_of d' j = hex_of d j" for j
    using gi gj [of j] it by (cases "j = i") (simp_all add: hex_of_def a)
  with gi gj f(1) m table_ok_modify [OF assms(1) m keeps_set_val] show ?thesis
    by (auto simp: val_of_def a)
qed

section \<open>Recovery of a centre address\<close>

lemma row_remote: "row_of Type_Param 0x04 = Some (cfg 0x04 ''remote1'' 20 0 DF_HEX)"
  by (simp add: row_of_def config_items_of_def param_config_items_def cfg_def)

lemma recover_center_ok:
  assumes "table_ok Type_Param param" "recover_center cs i param = Some param'"
  shows "table_ok Type_Param param'"
  using assms
proof (induction cs arbitrary: i param)
  case (Cons c cs)
  show ?case
  proof (cases "i < 4")
    case True
    with Cons.prems(2) obtain p1 where p1: "modify_item param (at_id param 0x01) (set_hex i (word_of_int c)) = Some p1"
      "recover_center cs (Suc i) p1 = Some param'" by (auto split: bind_splits)
    then show ?thesis using Cons.IH table_ok_modify [OF Cons.prems(1) p1(1) keeps_set_hex] by blast
  qed (use Cons.prems in simp)
qed simp

text \<open>With any centre address in the settings the recovery of the parameters writes past the end of
  an item.\<close>

lemma param_recovery_overrun:
  assumes "table_ok Type_Param param" "rtu_remote rtu \<noteq> []"
  shows "param_recovery stack rtu param = None"
proof (rule ccontr)
  assume "param_recovery stack rtu param \<noteq> None"
  then obtain p1 p2 p3 p4 where p: "modify_item param (at_id param 0x02) (set_val (strtoull16 (rtu_terminalNo rtu))) = Some p1"
    "modify_item p1 (at_id p1 0x03) (set_val (strtoull16 (rtu_passwd rtu))) = Some p2"
    "recover_center (rtu_center rtu) 0 p2 = Some p3" "recover_remote stack (rtu_remote rtu) 0 p3 = Some p4"
    by (auto simp: param_recovery_def split: bind_splits)
  have t: "table_ok Type_Param p3"
    using recover_center_ok [OF _ p(3)] table_ok_modify [OF _ p(2) keeps_set_val]
      table_ok_modify [OF assms(1) p(1) keeps_set_val] by simp
  from table_ok_id [OF t row_remote] obtain it where it: "get_place p3 (at_u16 p3 0x04) = Some it"
    "config it = cfg 0x04 ''remote1'' 20 0 DF_HEX" "wf_item it" by blast
  then obtain h where h: "it_hex it = Some h" "length h = 10"
    by (auto simp: wf_item_def cfg_def alloc_size_def)
  obtain r rs where r: "rtu_remote rtu = r # rs" using assms(2) by (cases "rtu_remote rtu") auto
  have "recover_remote stack (r # rs) 0 p3 = None"
    using recover_remote_overrun [of p3 0 it h stack r rs] it(1) h by (simp add: at_id_u16)
  with p(4) r show False by simp
qed

end
