(* ===== verification/Database.thy ===== *)
theory Database
  imports Store
begin

text \<open>
  The record tables of \<^verbatim>\<open>data/DB.hpp\<close> over the vendored SQLite wrapper. A table is the list of
  its rows with their keys; a row is the value the class of the table holds, with every field but
  \<^verbatim>\<open>_ID\<close> (how \<^verbatim>\<open>class2record\<close> and \<^verbatim>\<open>record2class\<close> copy the fields by way of JSON is in \<open>Json_Record\<close>). What
  SQLite makes of a query text is an argument: the rows a \<^verbatim>\<open>where\<close> clause selects, or the answer to
  a \<^verbatim>\<open>select\<close>. The argument \<open>up\<close> says whether the data base can be opened and changed; when not,
  an exception is caught.
\<close>

section \<open>Tables\<close>

record 'r Table =
  tb_next :: nat
  tb_rows :: "(nat \<times> 'r) list"

definition new_Table :: "'r Table" where
  "new_Table = \<lparr>tb_next = 1, tb_rows = []\<rparr>"

definition get_row :: "'r Table \<Rightarrow> nat \<Rightarrow> 'r option" where
  "get_row t i = map_of (tb_rows t) i"

text \<open>\<^verbatim>\<open>updateRecord\<close>: the row with this key gets new fields.\<close>

definition put_row :: "'r Table \<Rightarrow> nat \<Rightarrow> 'r \<Rightarrow> 'r Table option" where
  "put_row t i r =
     (if i \<in> fst ` set (tb_rows t)
      then Some (t\<lparr>tb_rows := map (\<lambda>(j, s). if j = i then (j, r) else (j, s)) (tb_rows t)\<rparr>)
      else None)"

definition db_add :: "bool \<Rightarrow> 'r \<Rightarrow> 'r Table \<Rightarrow> int \<times> 'r Table" where
  "db_add up r t =
     (if up then (0, t\<lparr>tb_next := Suc (tb_next t), tb_rows := tb_rows t @ [(tb_next t, r)]\<rparr>)
      else (-1, t))"

text \<open>\<^verbatim>\<open>find\<close> appends the rows that the query \<open>q\<close> selects.\<close>

definition db_find ::
    "bool \<Rightarrow> ((nat \<times> 'r) list \<Rightarrow> (nat \<times> 'r) list) \<Rightarrow> 'r Table \<Rightarrow> (nat \<times> 'r) list \<Rightarrow> int \<times> (nat \<times> 'r) list"
  where
  "db_find up q t msgs =
     (if up
      then (let found = q (tb_rows t) in if found \<noteq> [] then (1, msgs @ found) else (0, msgs))
      else (0, msgs))"

definition where_rows :: "('r \<Rightarrow> bool) \<Rightarrow> 'r Table \<Rightarrow> (nat \<times> 'r) list" where
  "where_rows q t = filter (\<lambda>(i, r). q r) (tb_rows t)"

text \<open>\<^verbatim>\<open>update\<close> writes the message over every row that matches, or adds it when none does.\<close>

definition db_update :: "bool \<Rightarrow> ('r \<Rightarrow> bool) \<Rightarrow> 'r \<Rightarrow> 'r Table \<Rightarrow> int \<times> 'r Table" where
  "db_update up q r t =
     (if \<not> up then (1, t)
      else if where_rows q t = [] then db_add up r t
      else case run_updates get_row put_row (map (\<lambda>(i, s). (i, \<lambda>_. Some r)) (where_rows q t)) t of
             Some t' \<Rightarrow> (0, t')
           | None \<Rightarrow> (1, t))"

definition db_delall :: "bool \<Rightarrow> 'r Table \<Rightarrow> int \<times> 'r Table" where
  "db_delall up t = (if up then (0, t\<lparr>tb_rows := []\<rparr>) else (1, t))"

section \<open>The rows of the three kinds of table\<close>

record TbBase =
  b_date :: string
  b_data :: string
  b_code :: string

record TbImportant =
  i_name :: string
  i_date :: string
  i_data :: string
  i_code :: string

record TbBu =
  u_valid :: int
  u_name :: string
  u_date :: string
  u_tb :: string
  u_tdate :: string
  u_cmd :: string
  u_ids :: string

text \<open>The data base file: the tables of data records by name, and the two others.\<close>

record Db =
  db_base :: "string \<Rightarrow> TbBase Table"
  db_bu :: "TbBu Table"
  db_important :: "TbImportant Table"

definition new_Db :: Db where
  "new_Db = \<lparr>db_base = (\<lambda>_. new_Table), db_bu = new_Table, db_important = new_Table\<rparr>"

definition TableNameHour :: string where "TableNameHour = ''hour''"
definition TableNameJia :: string where "TableNameJia = ''jia''"
definition TableNameDingshi :: string where "TableNameDingshi = ''dingshi''"
definition TableNameBu :: string where "TableNameBu = ''bu''"
definition TableNameImportant :: string where "TableNameImportant = ''important''"

section \<open>The contract of a store\<close>

lemma map_of_update:
  "map_of (map (\<lambda>(j, s). if j = i then (j, r) else (j, s)) rows) k =
     (if k = i \<and> i \<in> fst ` set rows then Some r else map_of rows k)"
proof (induction rows)
  case (Cons x xs)
  obtain j s where "x = (j, s)" by fastforce
  with Cons show ?case by (cases "k = i"; cases "j = i"; cases "k = j") simp_all
qed simp

interpretation rows: store get_row put_row
proof
  fix s :: "'a Table" and p v w
  assume "get_row s p = Some v"
  then show "\<exists>s'. put_row s p w = Some s'"
    by (auto simp: get_row_def put_row_def dest!: map_of_SomeD intro: rev_image_eqI)
next
  fix s :: "'a Table" and p w s' q
  assume "put_row s p w = Some s'"
  then show "get_row s' q = (if q = p then Some w else get_row s q)"
  proof -
    from \<open>put_row s p w = Some s'\<close> have "p \<in> fst ` set (tb_rows s)"
      "tb_rows s' = map (\<lambda>(j, v). if j = p then (j, w) else (j, v)) (tb_rows s)"
      by (auto simp: put_row_def split: if_splits)
    then show ?thesis by (simp add: get_row_def map_of_update)
  qed
qed

definition tb_wf :: "'r Table \<Rightarrow> bool" where
  "tb_wf t \<longleftrightarrow> distinct (map fst (tb_rows t)) \<and> list_all (\<lambda>(i, r). i < tb_next t) (tb_rows t)"

lemma new_Table_wf: "tb_wf new_Table"
  by (simp add: tb_wf_def new_Table_def)

lemma db_add_wf: "tb_wf t \<Longrightarrow> tb_wf (snd (db_add up r t))"
  by (auto simp: tb_wf_def db_add_def list_all_iff less_Suc_eq)

lemma db_delall_wf: "tb_wf t \<Longrightarrow> tb_wf (snd (db_delall up t))"
  by (auto simp: tb_wf_def db_delall_def)

lemma map_fst_update: "map fst (map (\<lambda>(j, s). if j = i then (j, r) else (j, s)) rows) = map fst rows"
  by (induction rows) auto

lemma put_row_keys:
  "put_row t i r = Some t' \<Longrightarrow> map fst (tb_rows t') = map fst (tb_rows t) \<and> tb_next t' = tb_next t"
  by (auto simp: put_row_def map_fst_update simp del: map_map split: if_splits)

lemma run_updates_keys:
  "run_updates get_row put_row us t = Some t' \<Longrightarrow>
    map fst (tb_rows t') = map fst (tb_rows t) \<and> tb_next t' = tb_next t"
proof (induction us arbitrary: t)
  case (Cons u us)
  obtain i f where u: "u = (i, f)" by fastforce
  with Cons.prems obtain v w t1 where "put_row t i w = Some t1" "run_updates get_row put_row us t1 = Some t'"
    by (auto simp: update_at_def split: bind_splits)
  with Cons.IH put_row_keys show ?case by fastforce
qed simp

lemma list_all_keys: "list_all (\<lambda>(i, r). P i) rows \<longleftrightarrow> list_all P (map fst rows)"
  by (induction rows) auto

lemma where_keys: "i \<in> fst ` set (where_rows q t) \<longleftrightarrow> (\<exists>s. (i, s) \<in> set (tb_rows t) \<and> q s)"
  unfolding where_rows_def by force

text \<open>After an update every row that matched holds the message, every other row what it held, and
  if none matched the message is the new last row.\<close>

lemma db_update_rows:
  assumes "tb_wf t" "where_rows q t \<noteq> []"
  shows "\<exists>t'. db_update True q r t = (0, t') \<and> tb_wf t' \<and> map fst (tb_rows t') = map fst (tb_rows t) \<and>
    (\<forall>i. get_row t' i = (case get_row t i of None \<Rightarrow> None | Some s \<Rightarrow> Some (if q s then r else s)))"
proof -
  let ?us = "map (\<lambda>(i, s). (i, \<lambda>_ :: 'a. Some r)) (where_rows q t)"
  have keys: "map fst ?us = map fst (where_rows q t)" by auto
  have d: "distinct (map fst (tb_rows t))" using assms(1) by (simp add: tb_wf_def)
  then have "distinct (map fst (where_rows q t))"
    unfolding where_rows_def by (rule distinct_map_filter)
  then have dw: "distinct (map fst ?us)" by (simp only: keys)
  have us_keys: "fst ` set ?us = fst ` set (where_rows q t)" using arg_cong [OF keys, of set] by (simp only: set_map)
  have present: "\<exists>v. get_row t p = Some v \<and> f v = Some r" if "(p, f) \<in> set ?us" for p f
  proof -
    from that obtain s where s: "(p, s) \<in> set (tb_rows t)" "f = (\<lambda>_. Some r)"
      by (auto simp: where_rows_def)
    with d have "get_row t p = Some s" by (simp add: get_row_def)
    with s show ?thesis by simp
  qed
  from rows.run_updates_get [OF dw, of t "\<lambda>_. r", OF present] obtain t' where
    t': "run_updates get_row put_row ?us t = Some t'"
    "\<And>i. get_row t' i = (if i \<in> fst ` set ?us then Some r else get_row t i)" by blast
  have "get_row t' i = (case get_row t i of None \<Rightarrow> None | Some s \<Rightarrow> Some (if q s then r else s))" for i
  proof (cases "get_row t i")
    case None
    then have "i \<notin> fst ` set (tb_rows t)" by (simp add: get_row_def map_of_eq_None_iff)
    then have "i \<notin> fst ` set (where_rows q t)" unfolding where_keys by force
    then have "i \<notin> fst ` set ?us" unfolding us_keys .
    with None t'(2) show ?thesis by simp
  next
    case (Some s)
    then have "(i, s) \<in> set (tb_rows t)" by (simp add: get_row_def map_of_SomeD)
    moreover have "s' = s" if "(i, s') \<in> set (tb_rows t)" for s'
      using d that calculation by (metis eq_key_imp_eq_value)
    ultimately have "i \<in> fst ` set (where_rows q t) \<longleftrightarrow> q s" unfolding where_keys by blast
    then have "i \<in> fst ` set ?us \<longleftrightarrow> q s" unfolding us_keys .
    with Some t'(2) show ?thesis by simp
  qed
  moreover have k: "map fst (tb_rows t') = map fst (tb_rows t)" "tb_next t' = tb_next t"
    using run_updates_keys [OF t'(1)] by simp_all
  then have "tb_wf t'" using assms(1) unfolding tb_wf_def list_all_keys by simp
  moreover have "db_update True q r t = (0, t')" using assms(2) t'(1) by (simp add: db_update_def)
  ultimately show ?thesis using k(1) by blast
qed

lemma db_update_adds:
  assumes "where_rows q t = []"
  shows "db_update True q r t = (0, t\<lparr>tb_next := Suc (tb_next t), tb_rows := tb_rows t @ [(tb_next t, r)]\<rparr>)"
  using assms by (simp add: db_update_def db_add_def)

lemma db_update_wf: "tb_wf t \<Longrightarrow> tb_wf (snd (db_update up q r t))"
  using db_update_rows [of t q r] db_add_wf [of t up r]
  by (cases "where_rows q t = []"; cases up) (auto simp: db_update_def split: option.splits)

text \<open>A message that matches its own query is afterwards found by it.\<close>

lemma db_update_find:
  assumes "tb_wf t" "q r" "db_update True q r t = (n, t')"
  shows "n = 0 \<and> where_rows q t' \<noteq> [] \<and> (\<forall>(i, s) \<in> set (where_rows q t'). s = r)"
proof (cases "where_rows q t = []")
  case True
  then show ?thesis
    using assms(2,3) db_update_adds [OF True, of r] by (auto simp: where_rows_def filter_empty_conv)
next
  case False
  from db_update_rows [OF assms(1) False, of r] assms(3) have n: "n = 0" and wf: "tb_wf t'"
    and k: "map fst (tb_rows t') = map fst (tb_rows t)"
    and g: "\<And>i. get_row t' i = (case get_row t i of None \<Rightarrow> None | Some s \<Rightarrow> Some (if q s then r else s))"
    by auto
  from False obtain i s where si: "(i, s) \<in> set (tb_rows t)" "q s" by (auto simp: where_rows_def filter_empty_conv)
  with assms(1) have "get_row t i = Some s" by (simp add: tb_wf_def get_row_def)
  with g si(2) have "get_row t' i = Some r" by simp
  then have "(i, r) \<in> set (where_rows q t')" using assms(2) by (auto simp: where_rows_def get_row_def map_of_SomeD)
  moreover have "s' = r" if "(j, s') \<in> set (where_rows q t')" for j s'
  proof -
    from that have s': "(j, s') \<in> set (tb_rows t')" "q s'" by (auto simp: where_rows_def)
    with wf have "get_row t' j = Some s'" by (simp add: tb_wf_def get_row_def)
    with g [of j] s'(2) show ?thesis by (auto split: option.splits if_splits)
  qed
  ultimately show ?thesis using n by (intro conjI) (blast, metis empty_iff list.set(1), blast)
qed

end
