(* ===== verification/DataLog.thy ===== *)
theory DataLog
  imports DataClass
begin

text \<open>
  The log line of a table and its reading: \<^verbatim>\<open>tolog\<close> followed by \<^verbatim>\<open>fromlog\<close>, the way the program
  stores a table in the data base and gets it back. Up to fifteen set items come back, each in
  its own place, numbers without their sign and a time of the day packed; with sixteen or more the search for the entries fails and nothing comes back.
\<close>

section \<open>One report and its item\<close>

text \<open>A set item that the log can carry: a decimal number other than the least \<^verbatim>\<open>long\<close>, a filled
  hexadecimal buffer or a time of the day. These are the formats of the rows of \<^verbatim>\<open>Type_Dev\<close>, the
  tables that the program keeps in log lines.\<close>

definition loggable :: "DataClassItem \<Rightarrow> bool" where
  "loggable it \<longleftrightarrow> cfg_ok (config it) \<and> it_isZero it = Some False \<and>
     (it_format it = DF_BCD \<and> it_len it < 31 \<and> - (2 ^ 63) < sint (it_val it) \<or>
      it_format it = DF_HEX \<and> (\<exists>h. it_hex it = Some h \<and> int (length h) = it_len it) \<or>
      it_format it = DF_HHmm \<and> it_len it = 2)"

text \<open>What the item comes back as. A number comes back as its magnitude, cut to the digits of the
  item; a buffer comes back as it is; the hour and the minute are written as two decimal digits each and
  read as plain bytes, so they come back packed.\<close>

definition packed :: "u8 \<Rightarrow> u8" where
  "packed b = word_of_nat (bcd_val 2 (unat b mod 100))"

definition restore :: "DataClassItem \<Rightarrow> DataClassItem \<Rightarrow> DataClassItem" where
  "restore it it0 =
     (case it_format it of
        DF_HEX \<Rightarrow> it0\<lparr>it_hex := it_hex it\<rparr>
      | DF_HHmm \<Rightarrow> it0\<lparr>it_HH := packed (it_HH it), it_mm := packed (it_mm it)\<rparr>
      | _ \<Rightarrow> it0\<lparr>it_val := word_of_nat (nat \<bar>sint (it_val it)\<bar> mod 100 ^ nat (it_len it))\<rparr>)"

text \<open>A non-negative number with no more digits than the item has comes back exactly.\<close>

lemma restore_exact:
  assumes "it_format it = DF_BCD" and "0 \<le> sint (it_val it)" and "sint (it_val it) < 100 ^ nat (it_len it)"
  shows "restore it it0 = it0\<lparr>it_val := it_val it\<rparr>"
proof -
  have u: "sint (it_val it) = int (unat (it_val it))" by (rule sint_l64_nonneg [OF assms(2)])
  then have "int (unat (it_val it)) < int (100 ^ nat (it_len it))" using assms(3) by simp
  then have "unat (it_val it) mod 100 ^ nat (it_len it) = unat (it_val it)"
    by (simp only: of_nat_less_iff mod_less)
  moreover have "nat \<bar>sint (it_val it)\<bar> = unat (it_val it)" unfolding u by simp
  ultimately show ?thesis using assms(1) by (simp add: restore_def)
qed

text \<open>A place that can take the item back.\<close>

definition accepts :: "DataClassItem \<Rightarrow> DataClassItem \<Rightarrow> bool" where
  "accepts it0 it \<longleftrightarrow> config it0 = config it \<and>
     (it_format it = DF_HEX \<longrightarrow> (\<exists>h. it_hex it0 = Some h \<and> int (length h) = it_len it))"

definition sid_of :: "bytes \<Rightarrow> u16" where
  "sid_of bs = (if bs ! 0 = 0xFF then 0xFF00 OR ucast (bs ! 1) else ucast (bs ! 0))"

lemma sid_of_rpt:
  assumes "cfg_ok (config it)"
  shows "sid_of (rpt_prefix it @ rpt_id it # xs) = it_id it"
proof (cases "it_id it > 0xFF00")
  case True
  have "0xFF00 OR ucast (rpt_id it) = it_id it"
  proof -
    have "unat (it_id it) > 0xFF00" using True by (simp add: word_less_nat_alt)
    moreover have "unat (it_id it) < 2 ^ 16" using unsigned_less [of "it_id it", where ?'a = nat] by simp
    ultimately have "unat (it_id it) div 256 = 255" by simp
    then have hi: "drop_bit 8 (it_id it) = 0xFF"
      by (simp add: word_eq_iff_unsigned [where ?'a = nat] drop_bit_eq_div unat_div_distrib)
    have "0xFF00 = push_bit 8 (0xFF :: u16)" by simp
    then have "0xFF00 OR ucast (rpt_id it) = push_bit 8 (drop_bit 8 (it_id it)) OR ucast (rpt_id it)"
      unfolding hi by metis
    also have "... = it_id it"
      unfolding rpt_id_def by (rule bit_word_eqI) (auto simp: bit_simps)
    finally show ?thesis .
  qed
  with True show ?thesis by (simp add: sid_of_def rpt_prefix_def)
next
  case False
  with assms have "it_id it < 0xFF" by (simp add: cfg_ok_def)
  then have lt: "unat (it_id it) < 255" by (simp add: word_less_nat_alt)
  then have u: "unat (rpt_id it) = unat (it_id it)"
    by (simp add: rpt_id_def unsigned_ucast_eq take_bit_eq_mod)
  with lt have "rpt_id it \<noteq> 0xFF" by (auto simp: word_eq_iff_unsigned [where ?'a = nat])
  moreover have "(ucast (rpt_id it) :: u16) = it_id it"
    using u lt by (simp add: word_eq_iff_unsigned [where ?'a = nat] unsigned_ucast_eq take_bit_eq_mod)
  ultimately show ?thesis using False by (simp add: sid_of_def rpt_prefix_def)
qed

lemma toreport_hex:
  assumes "cfg_ok (config it)" and "it_format it = DF_HEX" and "it_isZero it = Some False"
    and "it_hex it = Some h" and "int (length h) = it_len it"
  defines "w \<equiv> rpt_prefix it @ rpt_id it # reportlen it # h"
  shows "toreport it = Some (w, int (length w))"
  using assms(1-5) cfg_ok_len [OF assms(1)]
  by (auto simp: w_def toreport_def cfg_ok_def to_report_def rpt_prefix_def rpt_id_def rd_range_def
      Let_def)

lemma load_hex:
  assumes "it_format it = DF_HEX" and "int (unat (drop_bit 3 lb)) = it_len it"
    and "it_hex it = Some h0" and "int (length h0) = it_len it" and "int (length h) = it_len it"
  shows "load_report it (i # lb # h @ rest) = Some (it\<lparr>it_hex := Some h\<rparr>, it_len it)"
proof -
  have n: "it_len it = int (length h)" and n0: "length h0 = length h" using assms(4,5) by simp_all
  have "copy_to (Some h0) h = Some (Some h)"
    using n0 by (cases "h = []") (simp_all add: copy_to_def memcpy_at_def)
  then show ?thesis
    using assms(1-3) by (simp add: load_report_def load_item_def rd_def rd_range_def Let_def n)
qed

lemma hex2bcd_packed: "\<exists>r. hex2bcd [b] 1 = Some r \<and> (ucast r :: u8) = packed b"
proof -
  obtain r where r: "hex2bcd [b] 1 = Some r" "unat r = bcd_val 16 (unat b)"
    using hex2bcd_val [of 1 "[b]"] by auto
  have e: "bcd_val 16 (unat b) = bcd_val 2 (unat b mod 100) + 256 * bcd_val 14 (unat b div 100)"
  proof -
    have "16 = Suc (Suc (14 :: nat))" by simp
    then show ?thesis by (simp only: bcd_val_two)
  qed
  have lt: "bcd_val 2 (unat b mod 100) < 256" by (rule bcd_val_2_lt) simp
  have "unat (ucast r :: u8) = unat r mod 256" by (simp add: unsigned_ucast_eq take_bit_eq_mod)
  also have "... = bcd_val 2 (unat b mod 100)" unfolding r(2) e using lt by simp
  also have "... = unat (packed b)" using lt by (simp add: packed_def unat_of_nat)
  finally show ?thesis using r(1) by (auto simp: word_eq_iff_unsigned [where ?'a = nat])
qed

lemma toreport_HHmm:
  assumes "cfg_ok (config it)" and "it_format it = DF_HHmm" and "it_isZero it = Some False" and "it_len it = 2"
  defines "w \<equiv> rpt_prefix it @ rpt_id it # reportlen it # [packed (it_HH it), packed (it_mm it)]"
  shows "toreport it = Some (w, int (length w))"
proof -
  obtain h m where h: "hex2bcd [it_HH it] 1 = Some h" "(ucast h :: u8) = packed (it_HH it)"
    and m: "hex2bcd [it_mm it] 1 = Some m" "(ucast m :: u8) = packed (it_mm it)"
    using hex2bcd_packed by metis
  have "to_report it = Some ([packed (it_HH it), packed (it_mm it)], it_len it)"
    using assms(2) h m by (simp add: to_report_def)
  then show ?thesis
    using assms(1-4) by (simp add: w_def toreport_def cfg_ok_def rpt_prefix_def rpt_id_def Let_def)
qed

lemma load_HHmm:
  assumes "it_format it = DF_HHmm"
  shows "load_report it (i # lb # h # m # rest) = Some (it\<lparr>it_HH := h, it_mm := m\<rparr>, int (unat (drop_bit 3 lb)))"
  using assms by (simp add: load_report_def load_item_def rd_def Let_def)

lemma report_restore:
  assumes "loggable it"
  shows "\<exists>w. toreport it = Some (w, int (length w)) \<and> 2 \<le> length w \<and> length w \<le> 34 \<and>
    (\<forall>rest. sid_of (w @ rest) = it_id it) \<and>
    (\<forall>it0 rest. accepts it0 it \<longrightarrow> (\<exists>j. fromreport it0 (w @ rest) = Some (restore it it0, j)))"
proof -
  have ok: "cfg_ok (config it)" and nz: "it_isZero it = Some False"
    using assms by (simp_all add: loggable_def)
  note l = cfg_ok_len [OF ok]
  have pl: "length (rpt_prefix it) \<le> 1" by (simp add: rpt_prefix_def)
  consider (bcd) "it_format it = DF_BCD" "it_len it < 31" "0 \<le> sint (it_val it)"
    | (neg) "it_format it = DF_BCD" "it_len it < 31" "- (2 ^ 63) < sint (it_val it)" "sint (it_val it) < 0"
    | (hex) h where "it_format it = DF_HEX" "it_hex it = Some h" "int (length h) = it_len it"
    | (hm) "it_format it = DF_HHmm" "it_len it = 2"
    using assms by (fastforce simp: loggable_def)
  then show ?thesis
  proof cases
    case bcd
    have nv: "it_val it \<noteq> DATA_INVALID_VALUE"
      using nz l bcd(1) by (simp add: it_isZero_def)
    let ?w = "rpt_prefix it @ rpt_id it # reportlen it # bcd_bytes (nat (it_len it)) (unat (it_val it))"
    have tr: "toreport it = Some (?w, int (length ?w))" by (rule toreport_bcd [OF ok bcd(1,3) nv])
    have v: "nat \<bar>sint (it_val it)\<bar> = unat (it_val it)" using sint_l64_nonneg [OF bcd(3)] by simp
    have "\<exists>j. fromreport it0 (?w @ rest) = Some (restore it it0, j)"
      if "accepts it0 it" for it0 rest
    proof -
      from that have "it_len it0 = it_len it" "it_format it0 = DF_BCD"
        using bcd(1) by (simp_all add: accepts_def it_len_def)
      then show ?thesis
        using fromreport_rpt [OF ok, of it0] reportlen_shift [OF ok] bcd(1) v
          load_bcd [of it0 "reportlen it" "rpt_id it" "unat (it_val it)" rest]
        by (simp add: restore_def)
    qed
    moreover have "2 \<le> length ?w \<and> length ?w \<le> 34" using pl l by simp
    moreover have "sid_of (?w @ rest) = it_id it" for rest
      using sid_of_rpt [OF ok] by simp
    ultimately show ?thesis using tr by blast
  next
    case neg
    let ?v = "nat (- sint (it_val it))"
    let ?w = "rpt_prefix it @ rpt_id it # negreportlen it # 0xFF # bcd_bytes (nat (it_len it)) ?v"
    have tr: "toreport it = Some (?w, int (length ?w))" by (rule toreport_bcd_neg [OF ok neg(1,3,4)])
    have v: "nat \<bar>sint (it_val it)\<bar> = ?v" using neg(4) by simp
    have "\<exists>j. fromreport it0 (?w @ rest) = Some (restore it it0, j)"
      if "accepts it0 it" for it0 rest
    proof -
      from that have "it_len it0 = it_len it" "it_format it0 = DF_BCD"
        using neg(1) by (simp_all add: accepts_def it_len_def)
      then show ?thesis
        using fromreport_rpt [OF ok, of it0] negreportlen_shift [OF ok neg(2)] neg(1) v
          load_bcd_neg [of it0 "negreportlen it" "rpt_id it" ?v rest]
        by (simp add: restore_def)
    qed
    moreover have "2 \<le> length ?w \<and> length ?w \<le> 34" using pl l neg(2) by simp
    moreover have "sid_of (?w @ rest) = it_id it" for rest
      using sid_of_rpt [OF ok] by simp
    ultimately show ?thesis using tr by blast
  next
    case hm
    let ?w = "rpt_prefix it @ rpt_id it # reportlen it # [packed (it_HH it), packed (it_mm it)]"
    have "toreport it = Some (?w, int (length ?w))" by (rule toreport_HHmm [OF ok hm(1) nz hm(2)])
    moreover have "2 \<le> length ?w \<and> length ?w \<le> 34" using pl by simp
    moreover have "\<exists>j. fromreport it0 (?w @ rest) = Some (restore it it0, j)"
      if "accepts it0 it" for it0 rest
    proof -
      from that have "it_format it0 = DF_HHmm" using hm(1) by (simp add: accepts_def)
      then show ?thesis
        using fromreport_rpt [OF ok, of it0] hm(1)
          load_HHmm [of it0 "rpt_id it" "reportlen it" "packed (it_HH it)" "packed (it_mm it)" rest]
        by (simp add: restore_def)
    qed
    moreover have "sid_of (?w @ rest) = it_id it" for rest
      using sid_of_rpt [OF ok] by simp
    ultimately show ?thesis by blast
  next
    case hex
    let ?w = "rpt_prefix it @ rpt_id it # reportlen it # h"
    have "toreport it = Some (?w, int (length ?w))" by (rule toreport_hex [OF ok hex(1) nz hex(2,3)])
    moreover have "2 \<le> length ?w \<and> length ?w \<le> 34" using pl l hex(3) by simp
    moreover have "\<exists>j. fromreport it0 (?w @ rest) = Some (restore it it0, j)"
      if a: "accepts it0 it" for it0 rest
    proof -
      from a hex(1) obtain h0 where h0: "it_hex it0 = Some h0" "int (length h0) = it_len it0"
        and c: "config it0 = config it" by (auto simp: accepts_def it_len_def)
      then have "it_len it0 = it_len it" "it_format it0 = DF_HEX" using hex(1) by (simp_all add: it_len_def)
      then show ?thesis
        using fromreport_rpt [OF ok, of it0 "reportlen it # h @ rest"] h0 hex
          load_hex [of it0 "reportlen it" h0 h "rpt_id it" rest] reportlen_shift [OF ok]
        by (simp add: restore_def)
    qed
    moreover have "sid_of (?w @ rest) = it_id it" for rest
      using sid_of_rpt [OF ok] by simp
    ultimately show ?thesis by blast
  qed
qed

section \<open>Writing the line\<close>

definition is_set_item :: "DataClassItem \<Rightarrow> bool" where
  "is_set_item it \<longleftrightarrow> it_isZero it = Some False"

definition report_of :: "DataClassItem \<Rightarrow> bytes" where
  "report_of it = (case toreport it of Some (w, n) \<Rightarrow> w | None \<Rightarrow> [])"

definition line_bytes :: "bytes list \<Rightarrow> bytes" where
  "line_bytes ws = concat (map (\<lambda>w. hex_text w @ [byte_of CHR '','']) ws)"

lemma tolog_loop_line:
  assumes "\<forall>it \<in> set its. it_isZero it = Some True \<or>
      it_isZero it = Some False \<and> toreport it = Some (report_of it, int (length (report_of it))) \<and>
      length (report_of it) \<le> 1024"
    and "length bout = 1024" and "off + length (line_bytes (map report_of (filter is_set_item its))) \<le> n"
    and "length pre = off"
  shows "tolog_loop its bout (pre @ replicate (n - off) 0) (int n) (int off) =
    (let l = line_bytes (map report_of (filter is_set_item its))
     in Some (pre @ l @ replicate (n - off - length l) 0, int (off + length l)))"
  using assms
proof (induction its arbitrary: pre off bout)
  case Nil
  then show ?case by (simp add: line_bytes_def)
next
  case (Cons it its)
  show ?case
  proof (cases "it_isZero it = Some True")
    case True
    then show ?thesis using Cons by (simp add: is_set_item_def)
  next
    case False
    let ?w = "report_of it" and ?k = "length (report_of it)"
    let ?l = "line_bytes (map report_of (filter is_set_item its))"
    from False Cons.prems(1) have it: "it_isZero it = Some False" "toreport it = Some (?w, int ?k)" "?k \<le> 1024"
      by auto
    have l: "line_bytes (map report_of (filter is_set_item (it # its))) =
        hex_text ?w @ byte_of CHR '','' # ?l"
      using it by (simp add: is_set_item_def line_bytes_def)
    have fit: "off + 2 * ?k + 1 + length ?l \<le> n"
      using Cons.prems(3) unfolding l by simp
    define b' where "b' = ?w @ drop ?k bout"
    have b': "memcpy_at 0 ?w bout = Some b'" "length b' = 1024" "take ?k b' = ?w"
      using it(3) Cons.prems(2) by (simp_all add: memcpy_at_def b'_def)
    let ?out = "pre @ replicate (n - off) (0 :: u8)"
    have hx: "hexarray2str b' (int ?k) ?out off (int n - int off) =
        Some (pre @ hex_text ?w @ replicate (n - off - 2 * ?k) 0, 2 * int ?k)"
      using hexarray2str_text [of ?k b' off ?out "int n - int off"] fit it(3) b' Cons.prems(4)
      by simp
    let ?o = "off + 2 * ?k"
    have wrc: "wr (pre @ hex_text ?w @ replicate (n - off - 2 * ?k) 0) ?o (byte_of CHR '','') =
        Some ((pre @ hex_text ?w @ [byte_of CHR '','']) @ replicate (n - Suc ?o) 0)"
    proof -
      have "n - off - 2 * ?k = Suc (n - Suc ?o)" using fit by simp
      then show ?thesis
        using fit Cons.prems(4) by (simp add: wr_def list_update_append)
    qed
    have "tolog_loop its b' ((pre @ hex_text ?w @ [byte_of CHR '','']) @ replicate (n - Suc ?o) 0)
        (int n) (int (Suc ?o)) =
      Some ((pre @ hex_text ?w @ [byte_of CHR '','']) @ ?l @ replicate (n - Suc ?o - length ?l) 0,
        int (Suc ?o + length ?l))"
      using Cons.IH [of b' "Suc ?o" "pre @ hex_text ?w @ [byte_of CHR '','']"] Cons.prems b' fit
      by (simp add: Let_def)
    moreover have "tolog_loop (it # its) bout ?out (int n) (int off) =
      tolog_loop its b' ((pre @ hex_text ?w @ [byte_of CHR '','']) @ replicate (n - Suc ?o) 0)
        (int n) (int (Suc ?o))"
    proof -
      have "nat (int off + 2 * int ?k) = ?o" "int off + 2 * int ?k + 1 = int (Suc ?o)" by simp_all
      then show ?thesis
        using it(1,2) b'(1) hx wrc by (simp add: ac_simps)
    qed
    ultimately show ?thesis unfolding l by (simp add: Let_def)
  qed
qed

lemma char_hex_char: "n < 16 \<Longrightarrow> char_of_byte (hex_char n) = ''0123456789ABCDEF'' ! n"
  by (simp add: hex_char_def)

lemma hex_text_run:
  assumes "w \<noteq> []"
  shows "run_ok (string_of_bytes (hex_text w))"
proof -
  have c: "n < 16 \<Longrightarrow> is_log_char (''0123456789ABCDEF'' ! n)" for n
    by (drule nat_less_16_cases) (auto simp: is_log_char_def log_chars_def)
  have "list_all is_log_char (string_of_bytes (hex_text w))" for w
  proof (induction w)
    case (Cons b w)
    have "unat b div 16 < 16" using unat_byte_lt [of b] by (simp add: less_mult_imp_div_less)
    then show ?case using Cons by (simp add: string_of_bytes_def char_hex_char c)
  qed (simp add: string_of_bytes_def)
  moreover have "string_of_bytes (hex_text w) \<noteq> []"
    using assms by (cases w) (simp_all add: string_of_bytes_def)
  ultimately show ?thesis by (simp add: run_ok_def)
qed

lemma line_bytes_text:
  "string_of_bytes (line_bytes ws) = log_line (map (\<lambda>w. string_of_bytes (hex_text w)) ws)"
  by (induction ws) (simp_all add: line_bytes_def log_line_def list_merge_def string_of_bytes_def)

lemma log_char_nonzero:
  assumes "is_log_char c \<or> c = CHR '',''"
  shows "byte_of c \<noteq> 0"
proof
  assume "byte_of c = 0"
  then have "c = char_of_byte 0" by (metis char_of_byte_of)
  then have "c = CHR 0x00" by (simp add: char_of_byte_def char_of_def)
  with assms show False by (simp add: is_log_char_def log_chars_def)
qed

lemma log_line_chars:
  assumes "\<forall>r \<in> set rs. run_ok r" and "c \<in> set (log_line rs)"
  shows "is_log_char c \<or> c = CHR '',''"
proof -
  from assms(2) have "c = CHR '','' \<or> (\<exists>r \<in> set rs. c \<in> set r)"
    by (auto simp: log_line_def list_merge_def split: if_splits)
  with assms(1) show ?thesis by (auto simp: run_ok_def list_all_iff)
qed

lemma line_nonzero:
  assumes "\<forall>w \<in> set ws. w \<noteq> []"
  shows "0 \<notin> set (line_bytes ws)"
proof
  assume "0 \<in> set (line_bytes ws)"
  then have "char_of_byte 0 \<in> set (string_of_bytes (line_bytes ws))"
    by (simp add: string_of_bytes_def)
  then have "char_of_byte 0 \<in> set (log_line (map (\<lambda>w. string_of_bytes (hex_text w)) ws))"
    by (simp only: line_bytes_text)
  then have "is_log_char (char_of_byte 0) \<or> char_of_byte 0 = CHR '',''"
    using assms by (intro log_line_chars) (auto intro: hex_text_run)
  then show False using log_char_nonzero [of "char_of_byte 0"] by simp
qed

section \<open>Reading the line\<close>

lemma item_fromreport_update:
  "map_option fst (item_fromreport d p bs) =
     update_at get_place put_place p (\<lambda>it. map_option fst (fromreport it bs)) d"
  by (auto simp: item_fromreport_def update_at_def split: option.splits bind_splits)

lemma put_place_int_items: "put_place d p it = Some d' \<Longrightarrow> int_items d' = int_items d"
  by (auto simp: put_place_def split: place.splits)

lemma update_at_int_items:
  "update_at get_place put_place p f d = Some d' \<Longrightarrow> int_items d' = int_items d"
  by (auto simp: update_at_def put_place_int_items split: bind_splits)

lemma at_u16_cong: "int_items d' = int_items d \<Longrightarrow> at_u16 d' n = at_u16 d n"
  by (simp add: at_u16_def at_id_def)

definition padded :: "(nat \<Rightarrow> bytes) \<Rightarrow> nat \<Rightarrow> bytes \<Rightarrow> bytes" where
  "padded junk i w = w @ drop (length w) (junk i)"

lemma log_entry_report:
  assumes "2 \<le> length w" "length w \<le> 34" "length (junk i) = 500"
    and m: "m = (a, b)" and "b - a = 2 * int (length w)"
    and t: "take (2 * length w) (drop (nat a) line) = string_of_bytes (hex_text w)"
  shows "log_entry junk line i m d =
    update_at get_place put_place (at_u16 d (sid_of (padded junk i w)))
      (\<lambda>it. map_option fst (fromreport it (padded junk i w))) d"
proof -
  let ?p = "padded junk i w"
  have s: "str2hexarray (hex_text w) (2 * int (length w)) (junk i) 500 = Some (?p, int (length w))"
    using str2hexarray_unhex [of "length w" "junk i" "hex_text w"] assms(2,3)
    by (simp add: padded_def)
  have r: "rd ?p 0 = Some (?p ! 0)" "rd ?p 1 = Some (?p ! 1)"
    using assms(1) by (cases w; auto simp: padded_def rd_def)+
  have n: "nat (2 * int (length w)) = 2 * length w" by simp
  have lt: "(2 * int (length w) \<ge> 1000) = False" using assms(2) by simp
  let ?r = "item_fromreport d (at_u16 d (sid_of ?p)) ?p"
  have "log_entry junk line i m d = do { (d', j) \<leftarrow> ?r; Some d' }"
    unfolding log_entry_def m fst_conv snd_conv Let_def assms(5) n t lt if_False bytes_of_string_of_bytes s
    by (simp add: sid_of_def r [simplified])
  also have "... = map_option fst ?r"
    by (cases ?r) auto
  finally show ?thesis unfolding item_fromreport_update .
qed

fun entry_updates ::
    "DataClass \<Rightarrow> (nat \<Rightarrow> bytes) \<Rightarrow> nat \<Rightarrow> bytes list \<Rightarrow> (place \<times> (DataClassItem \<Rightarrow> DataClassItem option)) list"
  where
  "entry_updates d junk i [] = []"
| "entry_updates d junk i (w # ws) =
     (at_u16 d (sid_of (padded junk i w)), \<lambda>it. map_option fst (fromreport it (padded junk i w)))
       # entry_updates d junk (Suc i) ws"

lemma entry_updates_cong: "int_items d' = int_items d \<Longrightarrow> entry_updates d' junk i ws = entry_updates d junk i ws"
  by (induction ws arbitrary: i) (simp_all add: at_u16_def at_id_def)

lemma log_entries_line:
  assumes "\<forall>w \<in> set ws. 2 \<le> length w \<and> length w \<le> 34" and "\<forall>k. length (junk k) = 500"
  shows "log_entries junk (pre @ log_line (map (\<lambda>w. string_of_bytes (hex_text w)) ws)) i
      (run_spans (length pre) (map (\<lambda>w. string_of_bytes (hex_text w)) ws)) d =
    run_updates get_place put_place (entry_updates d junk i ws) d"
  using assms(1)
proof (induction ws arbitrary: pre i d)
  case Nil
  then show ?case by simp
next
  case (Cons w ws)
  let ?h = "string_of_bytes (hex_text w)"
  let ?rest = "log_line (map (\<lambda>w. string_of_bytes (hex_text w)) ws)"
  have line: "pre @ log_line (map (\<lambda>w. string_of_bytes (hex_text w)) (w # ws)) =
      (pre @ ?h @ '','') @ ?rest"
    by (simp add: log_line_def list_merge_def)
  have e: "log_entry junk ((pre @ ?h @ '','') @ ?rest) i (int (length pre), int (length pre + length ?h)) d =
    update_at get_place put_place (at_u16 d (sid_of (padded junk i w)))
      (\<lambda>it. map_option fst (fromreport it (padded junk i w))) d"
    using Cons.prems assms(2) by (intro log_entry_report [OF _ _ _ refl]) simp_all
  have start: "log_entries junk (pre @ log_line (map (\<lambda>w. string_of_bytes (hex_text w)) (w # ws))) i
      (run_spans (length pre) (map (\<lambda>w. string_of_bytes (hex_text w)) (w # ws))) d =
    do { d' \<leftarrow> log_entry junk ((pre @ ?h @ '','') @ ?rest) i (int (length pre), int (length pre + length ?h)) d;
      log_entries junk ((pre @ ?h @ '','') @ ?rest) (Suc i)
        (run_spans (length (pre @ ?h @ '','')) (map (\<lambda>w. string_of_bytes (hex_text w)) ws)) d' }"
    unfolding line by simp
  show ?case
  proof (cases "update_at get_place put_place (at_u16 d (sid_of (padded junk i w)))
      (\<lambda>it. map_option fst (fromreport it (padded junk i w))) d")
    case None
    then show ?thesis unfolding start e by simp
  next
    case (Some d1)
    have "log_entries junk ((pre @ ?h @ '','') @ ?rest) (Suc i)
        (run_spans (length (pre @ ?h @ '','')) (map (\<lambda>w. string_of_bytes (hex_text w)) ws)) d1 =
      run_updates get_place put_place (entry_updates d1 junk (Suc i) ws) d1"
      using Cons.prems by (intro Cons.IH) simp
    then show ?thesis
      using Some entry_updates_cong [OF update_at_int_items [OF Some]]
      unfolding start e by simp
  qed
qed

section \<open>The round trip\<close>

definition set_reports :: "DataClass \<Rightarrow> bytes list" where
  "set_reports d = map report_of (filter is_set_item (dc_items d))"

text \<open>Tables that \<^verbatim>\<open>tolog\<close> can write: every item is unset or loggable, and the line fits.\<close>

definition log_ok :: "DataClass \<Rightarrow> bool" where
  "log_ok d \<longleftrightarrow> (\<forall>it \<in> set (dc_items d). it_isZero it = Some True \<or> loggable it) \<and>
     length (filter is_set_item (dc_items d)) < 30"

lemma report_of_loggable:
  assumes "loggable it"
  shows "toreport it = Some (report_of it, int (length (report_of it)))" "2 \<le> length (report_of it)"
    "length (report_of it) \<le> 34" "sid_of (report_of it @ rest) = it_id it"
    "accepts it0 it \<Longrightarrow> \<exists>j. fromreport it0 (report_of it @ rest) = Some (restore it it0, j)"
  using report_restore [OF assms] by (auto simp: report_of_def)

lemma set_reports_len:
  assumes "log_ok d"
  shows "\<forall>w \<in> set (set_reports d). 2 \<le> length w \<and> length w \<le> 34"
  using assms report_of_loggable(2,3) by (auto simp: set_reports_def log_ok_def is_set_item_def)

lemma line_bytes_length:
  "\<forall>w \<in> set ws. length w \<le> 34 \<Longrightarrow> length (line_bytes ws) \<le> 69 * length ws"
  by (induction ws) (auto simp: line_bytes_def)

lemma tolog_text:
  assumes "log_ok d"
  shows "tolog d = Some (log_line (map (\<lambda>w. string_of_bytes (hex_text w)) (set_reports d)))"
proof -
  let ?l = "line_bytes (set_reports d)"
  have n: "length (set_reports d) < 30" using assms by (simp add: log_ok_def set_reports_def)
  have "length ?l \<le> 69 * length (set_reports d)"
    using set_reports_len [OF assms] by (intro line_bytes_length) auto
  with n have len: "length ?l < 2048" by linarith
  have items: "\<forall>it \<in> set (dc_items d). it_isZero it = Some True \<or>
      it_isZero it = Some False \<and> toreport it = Some (report_of it, int (length (report_of it))) \<and>
      length (report_of it) \<le> 1024"
    using assms report_of_loggable(1,3) by (fastforce simp: log_ok_def loggable_def)
  have "tolog_loop (dc_items d) (replicate 1024 0) (replicate 2048 0) 2048 0 =
      Some (?l @ replicate (2048 - length ?l) 0, int (length ?l))"
    using tolog_loop_line [OF items, of "replicate 1024 0" 0 2048 "[]"] len
    by (simp add: set_reports_def Let_def)
  moreover have "memcpy_at 0 (replicate 2048 0) (replicate 2048 (0 :: u8)) = Some (replicate 2048 0)"
    by (simp add: memcpy_at_def)
  moreover have "wr (?l @ replicate (2048 - length ?l) 0) (length ?l) 0 =
      Some (?l @ replicate (2048 - length ?l) 0)"
    using len by (simp add: wr_def list_update_append)
      (cases "2048 - length ?l"; simp)
  moreover have "c_str (?l @ replicate (2048 - length ?l) 0) = string_of_bytes ?l"
  proof -
    have "0 \<notin> set ?l" using set_reports_len [OF assms] by (intro line_nonzero) fastforce
    then have "takeWhile (\<lambda>b. b \<noteq> 0) (?l @ replicate (2048 - length ?l) 0) = ?l"
      by (auto simp: takeWhile_append takeWhile_replicate)
    then show ?thesis by (simp only: c_str_def)
  qed
  ultimately show ?thesis
    by (simp add: tolog_def tolog_buf_def line_bytes_text)
qed

text \<open>A table that can take another one back: same rows, sound maps, buffers in place.\<close>

definition log_target :: "DataClass \<Rightarrow> DataClass \<Rightarrow> bool" where
  "log_target d' d \<longleftrightarrow> dc_wf d' \<and> length (dc_items d') = length (dc_items d) \<and>
     (\<forall>i < length (dc_items d). config (dc_items d' ! i) = config (dc_items d ! i) \<and>
        (loggable (dc_items d ! i) \<longrightarrow> accepts (dc_items d' ! i) (dc_items d ! i)))"

lemma log_target_at:
  assumes "log_target d' d" and "i < length (dc_items d)"
  shows "at_u16 d' (it_id (dc_items d ! i)) = PItem i"
    "get_place d' (PItem i) = Some (dc_items d' ! i)"
  using assms at_u16_item [of d' i] get_place_item [of i d'] by (auto simp: log_target_def)

lemma entry_updates_places:
  assumes "log_target d' d" and "\<forall>i \<in> set ks. i < length (dc_items d) \<and> loggable (dc_items d ! i)"
  shows "map fst (entry_updates d' junk k (map (\<lambda>i. report_of (dc_items d ! i)) ks)) = map PItem ks"
  using assms(2)
  by (induction ks arbitrary: k)
    (simp_all add: padded_def report_of_loggable(4) log_target_at [OF assms(1)])

lemma entry_updates_effect:
  assumes "log_target d' d" and "\<forall>i \<in> set ks. i < length (dc_items d) \<and> loggable (dc_items d ! i)"
    and "(p, f) \<in> set (entry_updates d' junk k (map (\<lambda>i. report_of (dc_items d ! i)) ks))"
  shows "\<exists>i \<in> set ks. p = PItem i \<and> f (dc_items d' ! i) = Some (restore (dc_items d ! i) (dc_items d' ! i))"
  using assms(2,3)
proof (induction ks arbitrary: k)
  case (Cons i ks)
  show ?case
  proof (cases "(p, f) \<in> set (entry_updates d' junk (Suc k) (map (\<lambda>i. report_of (dc_items d ! i)) ks))")
    case True
    with Cons show ?thesis by fastforce
  next
    case False
    let ?it = "dc_items d ! i" and ?it' = "dc_items d' ! i"
    from False Cons.prems have p: "p = at_u16 d' (sid_of (padded junk k (report_of ?it)))"
      "f = (\<lambda>it. map_option fst (fromreport it (padded junk k (report_of ?it))))" by simp_all
    from Cons.prems(1) have i: "i < length (dc_items d)" "loggable ?it" by simp_all
    with assms(1) have "accepts ?it' ?it" by (simp add: log_target_def)
    then obtain j where "fromreport ?it' (padded junk k (report_of ?it)) = Some (restore ?it ?it', j)"
      using report_of_loggable(5) [OF i(2)] by (auto simp: padded_def)
    moreover have "p = PItem i"
      using p(1) i log_target_at [OF assms(1)] by (simp add: padded_def report_of_loggable(4))
    ultimately show ?thesis using p(2) by auto
  qed
qed simp

lemma filter_map_nth: "map f (filter P xs) = map (\<lambda>i. f (xs ! i)) (filter (\<lambda>i. P (xs ! i)) [0..<length xs])"
proof -
  have "filter P xs = filter P (map ((!) xs) [0..<length xs])" by (simp add: map_nth)
  also have "... = map ((!) xs) (filter (\<lambda>i. P (xs ! i)) [0..<length xs])"
    by (simp add: filter_map comp_def)
  finally show ?thesis by (simp add: comp_def)
qed

text \<open>A table written with at most fifteen set items is restored: set items come back, the way
  \<open>restore\<close> says, and the others keep what they held.\<close>

lemma fromlog_tolog:
  assumes "log_ok d" and "log_target d' d" and "length (set_reports d) < 16"
    and "\<forall>k. length (junk k) = 500"
  shows "\<exists>line d''. tolog d = Some line \<and> fromlog (\<lambda>_. True) junk line d' = Some d'' \<and>
    nitem d'' = nitem d' \<and>
    (\<forall>i < length (dc_items d). get_place d'' (PItem i) =
      Some (if is_set_item (dc_items d ! i) then restore (dc_items d ! i) (dc_items d' ! i)
            else dc_items d' ! i))"
proof -
  let ?ws = "set_reports d" and ?h = "\<lambda>w. string_of_bytes (hex_text w)"
  let ?line = "log_line (map ?h ?ws)"
  let ?ks = "filter (\<lambda>i. is_set_item (dc_items d ! i)) [0..<length (dc_items d)]"
  have ws: "?ws = map (\<lambda>i. report_of (dc_items d ! i)) ?ks"
    unfolding set_reports_def by (rule filter_map_nth)
  have ks: "\<forall>i \<in> set ?ks. i < length (dc_items d) \<and> loggable (dc_items d ! i)"
  proof
    fix i assume "i \<in> set ?ks"
    then have "i < length (dc_items d)" "it_isZero (dc_items d ! i) = Some False"
      by (simp_all add: is_set_item_def)
    moreover from this(1) have "dc_items d ! i \<in> set (dc_items d)" by simp
    ultimately show "i < length (dc_items d) \<and> loggable (dc_items d ! i)"
      using assms(1) unfolding log_ok_def by fastforce
  qed
  note places = entry_updates_places [OF assms(2) ks, of junk 0, folded ws]
  let ?g = "\<lambda>p. case p of PItem i \<Rightarrow> restore (dc_items d ! i) (dc_items d' ! i) | PNull \<Rightarrow> nitem d'"
  have eff: "\<exists>v. get_place d' p = Some v \<and> f v = Some (?g p)"
    if "(p, f) \<in> set (entry_updates d' junk 0 ?ws)" for p f
    using entry_updates_effect [OF assms(2) ks, of p f junk 0, folded ws] that ks
      log_target_at(2) [OF assms(2)] by fastforce
  have "distinct (map fst (entry_updates d' junk 0 ?ws))"
    unfolding places by (simp add: distinct_map inj_on_def)
  from items.run_updates_get [OF this, of d' ?g] eff obtain d'' where d'':
    "run_updates get_place put_place (entry_updates d' junk 0 ?ws) d' = Some d''"
    "\<And>q. get_place d'' q = (if q \<in> fst ` set (entry_updates d' junk 0 ?ws) then Some (?g q) else get_place d' q)"
    by blast
  have fs: "fst ` set (entry_updates d' junk 0 ?ws) = PItem ` set ?ks"
    using arg_cong [OF places, of set] by (simp only: set_map)
  have runs: "\<forall>r \<in> set (map ?h ?ws). run_ok r"
    using set_reports_len [OF assms(1)] by (fastforce intro: hex_text_run)
  have "log_entries junk ?line 0 (run_spans 0 (map ?h ?ws)) d' = Some d''"
    using log_entries_line [of ?ws junk "[]" 0 d'] set_reports_len [OF assms(1)] assms(4) d''(1) by simp
  moreover have "rx_serach (\<lambda>_. True) exec_run 0 ?line 0 =
      Some (int (length ?ws), table (run_spans 0 (map ?h ?ws)))"
    using rx_serach_log_line [OF runs] assms(3) by simp
  moreover have "0 < int (length ?ws) \<or> d'' = d'"
    using d''(1) by (cases ?ws) simp_all
  ultimately have "fromlog (\<lambda>_. True) junk ?line d' = Some d''"
    by (auto simp: fromlog_def table_def simp del: zero_less_imp_eq_int)
  moreover have "get_place d'' PNull = Some (nitem d')"
    unfolding d''(2) fs by (auto simp: get_place_def)
  then have "nitem d'' = nitem d'" by (simp add: get_place_def)
  moreover have "get_place d'' (PItem i) = Some (if is_set_item (dc_items d ! i)
      then restore (dc_items d ! i) (dc_items d' ! i) else dc_items d' ! i)" if "i < length (dc_items d)" for i
    unfolding d''(2) fs using that log_target_at(2) [OF assms(2) that] by auto
  ultimately show ?thesis using tolog_text [OF assms(1)] by blast
qed

text \<open>With sixteen set items or more the table is written, but reading it restores nothing.\<close>

lemma fromlog_many:
  assumes "log_ok d" and "16 \<le> length (set_reports d)"
  shows "\<exists>line. tolog d = Some line \<and> fromlog (\<lambda>_. True) junk line d' = Some d'"
proof -
  let ?h = "\<lambda>w. string_of_bytes (hex_text w)"
  have runs: "\<forall>r \<in> set (map ?h (set_reports d)). run_ok r"
    using set_reports_len [OF assms(1)] by (fastforce intro: hex_text_run)
  show ?thesis
    using tolog_text [OF assms(1)] rx_serach_log_line [OF runs] assms(2) by (simp add: fromlog_def)
qed

end
