(* ===== verification/Log_Laws.thy ===== *)
theory Log_Laws
  imports Table_Laws DataLog
begin

text \<open>
  The log line on the tables that the program keeps in it, the ones of \<^verbatim>\<open>Type_Dev\<close>: every set item of
  such a table can be logged, the time of the day \<^verbatim>\<open>DT\<close>, which is always set, with it, and every other
  table of the type can take the line back.
\<close>

lemma dev_row_formats:
  "list_all (\<lambda>c. cfg_len c = 0 \<or> cfg_format c = DF_BCD \<and> cfg_len c \<le> 58 \<or>
     cfg_format c = DF_HEX \<and> cfg_fl c = 0 \<or> cfg_format c = DF_HHmm) devdata_config_items"
  by (simp add: devdata_config_items_def cfg_def)

lemma dev_item:
  assumes "table_ok Type_Dev d" and "it \<in> set (dc_items d)"
  shows "wf_item it" "row_ok (config it)"
    "cfg_len (config it) = 0 \<or> it_format it = DF_BCD \<and> cfg_len (config it) \<le> 58 \<or>
      it_format it = DF_HEX \<and> cfg_fl (config it) = 0 \<or> it_format it = DF_HHmm"
proof -
  have m: "map config (dc_items d) = devdata_config_items"
    using assms(1) by (simp add: table_ok_def config_items_of_def)
  have "config it \<in> set (map config (dc_items d))" using assms(2) by simp
  then have "config it \<in> set devdata_config_items" unfolding m .
  then show "row_ok (config it)"
    "cfg_len (config it) = 0 \<or> it_format it = DF_BCD \<and> cfg_len (config it) \<le> 58 \<or>
      it_format it = DF_HEX \<and> cfg_fl (config it) = 0 \<or> it_format it = DF_HHmm"
    using devdata_rows dev_row_formats by (simp_all add: list_all_iff)
  show "wf_item it" using assms by (simp add: table_ok_def list_all_iff)
qed

lemma dev_hex_buffer:
  assumes "table_ok Type_Dev d" and "it \<in> set (dc_items d)" and "it_format it = DF_HEX" and "it_len it \<noteq> 0"
  shows "\<exists>h. it_hex it = Some h \<and> int (length h) = it_len it"
proof -
  have wf: "wf_item it" and row: "row_ok (config it)" by (rule dev_item [OF assms(1,2)])+
  have "cfg_len (config it) \<noteq> 0" using assms(4) by (auto simp: it_len_def)
  with dev_item(3) [OF assms(1,2)] assms(3) have fl: "cfg_fl (config it) = 0" by auto
  then have n: "alloc_size (config it) = it_len it" by (simp add: alloc_size_def it_len_def)
  have "0 \<le> it_len it" using row wf_len(1) by (simp add: row_ok_def)
  with assms(4) have "0 < alloc_size (config it)" unfolding n by simp
  with wf assms(3) show ?thesis by (auto simp: wf_item_def n)
qed

lemma dev_loggable:
  assumes "table_ok Type_Dev d" and "it \<in> set (dc_items d)" and "is_set_item it"
    and "it_format it = DF_BCD \<Longrightarrow> - (2 ^ 63) < sint (it_val it)"
  shows "loggable it"
proof -
  have row: "row_ok (config it)" by (rule dev_item [OF assms(1,2)])
  have nz: "it_len it \<noteq> 0" using assms(3) by (auto simp: is_set_item_def it_isZero_def)
  then have len: "0 < cfg_len (config it)"
    using row by (auto simp: row_ok_def wf_cfg_def it_len_def order_le_less)
  with row have ok: "cfg_ok (config it)" by (simp add: row_ok_def wf_cfg_def cfg_ok_def)
  from len dev_item(3) [OF assms(1,2)] consider
    (bcd) "it_format it = DF_BCD" "cfg_len (config it) \<le> 58" | (hex) "it_format it = DF_HEX"
    | (hm) "it_format it = DF_HHmm" by auto
  then show ?thesis
  proof cases
    case bcd
    moreover have "it_len it < 31" using bcd(2) len by (simp add: it_len_def)
    ultimately show ?thesis using ok assms(3,4) by (simp add: loggable_def is_set_item_def)
  next
    case hex
    then show ?thesis
      using ok assms(3) dev_hex_buffer [OF assms(1,2) hex nz] by (simp add: loggable_def is_set_item_def)
  next
    case hm
    then show ?thesis using ok assms(3) row by (simp add: loggable_def is_set_item_def row_ok_def it_len_def)
  qed
qed

lemma dev_log_ok:
  assumes "table_ok Type_Dev d" and "length (filter is_set_item (dc_items d)) < 30"
    and "\<forall>it \<in> set (dc_items d). it_format it = DF_BCD \<longrightarrow> - (2 ^ 63) < sint (it_val it)"
  shows "log_ok d"
proof -
  have "it_isZero it = Some True \<or> loggable it" if it: "it \<in> set (dc_items d)" for it
  proof (cases "is_set_item it")
    case True
    then show ?thesis using dev_loggable [OF assms(1) it] assms(3) it by blast
  next
    case False
    then show ?thesis using it_isZero_safe [OF dev_item(1) [OF assms(1) it]] by (auto simp: is_set_item_def)
  qed
  with assms(2) show ?thesis by (simp add: log_ok_def)
qed

lemma dev_log_target:
  assumes "table_ok Type_Dev d" and "table_ok Type_Dev d'"
  shows "log_target d' d"
proof -
  have m: "map config (dc_items d') = map config (dc_items d)" using assms by (simp add: table_ok_def)
  then have n: "length (dc_items d') = length (dc_items d)" by (metis length_map)
  have "config (dc_items d' ! i) = config (dc_items d ! i) \<and>
      (loggable (dc_items d ! i) \<longrightarrow> accepts (dc_items d' ! i) (dc_items d ! i))" if i: "i < length (dc_items d)" for i
  proof -
    have c: "config (dc_items d' ! i) = config (dc_items d ! i)" using m n i by (metis nth_map)
    then have l: "it_len (dc_items d' ! i) = it_len (dc_items d ! i)" by (simp add: it_len_def)
    have "\<exists>h. it_hex (dc_items d' ! i) = Some h \<and> int (length h) = it_len (dc_items d ! i)"
      if g: "loggable (dc_items d ! i)" "it_format (dc_items d ! i) = DF_HEX"
    proof -
      have "it_len (dc_items d ! i) \<noteq> 0" using g(1) cfg_ok_len(3) by (simp add: loggable_def)
      then show ?thesis using dev_hex_buffer [OF assms(2), of "dc_items d' ! i"] i n c l g(2) by simp
    qed
    with c show ?thesis by (simp add: accepts_def)
  qed
  moreover have "dc_wf d'" using assms(2) by (simp add: table_ok_def)
  ultimately show ?thesis using n by (simp add: log_target_def)
qed

text \<open>In a table that a constructor has just made, only the times of the day are set.\<close>

lemma init_item_unset:
  assumes "row_ok c" and "cfg_format c \<in> {DF_BCD, DF_HEX, DF_CHAR, DF_JPG}"
  shows "\<not> is_set_item (init_item a c)"
proof (cases "cfg_len c = 0")
  case True
  then show ?thesis by (simp add: is_set_item_def it_isZero_def it_len_def)
next
  case False
  with assms(1) have len: "0 < cfg_len c" "0 \<le> cfg_fl c" by (simp_all add: row_ok_def wf_cfg_def)
  let ?n = "(cfg_len c + 1) div 2"
  have n: "0 < ?n" "?n \<le> (cfg_fl c + cfg_len c + 1) div 2" using len by auto
  from assms(2) consider "cfg_format c = DF_BCD" | "cfg_format c = DF_HEX" | "cfg_format c = DF_CHAR"
    | "cfg_format c = DF_JPG" by blast
  then show ?thesis
  proof cases
    case 1
    then show ?thesis by (simp add: is_set_item_def it_isZero_def init_item_def blank_item_def Let_def)
  next
    case 2
    then show ?thesis
      using len n by (simp add: is_set_item_def it_isZero_def init_item_def blank_item_def Let_def alloc_size_def
        it_len_def is_zero_buf_iff nat_le_iff)
  next
    case 3
    then show ?thesis
      using len n by (simp add: is_set_item_def it_isZero_def init_item_def blank_item_def Let_def alloc_size_def
        it_len_def rd_def)
  next
    case 4
    then show ?thesis using assms(1) len by (simp add: row_ok_def wf_cfg_def)
  qed
qed

end
