(* ===== verification/App_State.thy ===== *)
theory App_State
  imports Table_Laws Database Header Log_Laws
begin

text \<open>
  The globals that the threads of the program share, as one record: the four tables in use, the
  settings, the data base, the header state and the hours at which the sensor modules last turned
  over. \<open>Host\<close> collects what stands outside the program: the time zone, what SQLite selects for a
  query text, whether the data base is up, the heap, and what uninitialised arrays hold.
  The data base functions of \<^verbatim>\<open>app/dataprocess/data_save.cpp\<close> follow (lines 73 to 153 and 221 to
  228). \<open>None\<close> is undefined behaviour: an access outside an object or a signed overflow.
\<close>

section \<open>Checked integers\<close>

definition int32 :: "int \<Rightarrow> int option" where
  "int32 v = (if - (2 ^ 31) \<le> v \<and> v < 2 ^ 31 then Some v else None)"

definition l64_of :: "int \<Rightarrow> l64 option" where
  "l64_of v = (if - (2 ^ 63) \<le> v \<and> v < 2 ^ 63 then Some (word_of_int v) else None)"

lemma int32_Some [simp]: "- (2 ^ 31) \<le> v \<Longrightarrow> v < 2 ^ 31 \<Longrightarrow> int32 v = Some v"
  by (simp add: int32_def)

lemma l64_of_Some [simp]: "- (2 ^ 63) \<le> v \<Longrightarrow> v < 2 ^ 63 \<Longrightarrow> l64_of v = Some (word_of_int v)"
  by (simp add: l64_of_def)

lemma sint_word_of_int_l64:
  "- (2 ^ 63) \<le> v \<Longrightarrow> v < 2 ^ 63 \<Longrightarrow> sint (word_of_int v :: l64) = v"
  by (simp add: signed_of_int signed_take_bit_int_eq_self)

section \<open>State\<close>

record Host =
  h_tz :: int
  h_up :: bool
  h_find_base :: "string \<Rightarrow> (nat \<times> TbBase) list \<Rightarrow> (nat \<times> TbBase) list"
  h_find_important :: "string \<Rightarrow> (nat \<times> TbImportant) list \<Rightarrow> (nat \<times> TbImportant) list"
  h_find_bu :: "string \<Rightarrow> (nat \<times> TbBu) list \<Rightarrow> (nat \<times> TbBu) list"
  h_where_base :: "string \<Rightarrow> TbBase \<Rightarrow> bool"
  h_where_important :: "string \<Rightarrow> TbImportant \<Rightarrow> bool"
  h_where_bu :: "string \<Rightarrow> TbBu \<Rightarrow> bool"
  h_addr :: "nat \<Rightarrow> l64"
  h_mem :: "nat \<Rightarrow> bool"
  h_junk :: "nat \<Rightarrow> bytes"

record App =
  devdata :: DataClass
  devdata_now :: int
  param :: DataClass
  runtime :: DataClass
  app_A :: DataClass
  app_rtu :: rtu_setting
  app_file :: rtu_setting
  app_db :: Db
  app_head :: HeaderState
  rain_last :: int
  water_last :: int
  flow_last :: int
  yanshichongqi :: bool

section \<open>Access to the tables\<close>

definition dev_mod :: "place \<Rightarrow> (DataClassItem \<Rightarrow> DataClassItem option) \<Rightarrow> App \<Rightarrow> App option" where
  "dev_mod p f s = do { d \<leftarrow> modify_item (devdata s) p f; Some (s\<lparr>devdata := d\<rparr>) }"

definition dev_id :: "App \<Rightarrow> u32 \<Rightarrow> place" where
  "dev_id s i = at_id (devdata s) i"

definition dev_name :: "App \<Rightarrow> string \<Rightarrow> place" where
  "dev_name s n = at_name (devdata s) n"

definition A_mod :: "string \<Rightarrow> (DataClassItem \<Rightarrow> DataClassItem option) \<Rightarrow> App \<Rightarrow> App option" where
  "A_mod n f s = do { d \<leftarrow> modify_item (app_A s) (at_name (app_A s) n) f; Some (s\<lparr>app_A := d\<rparr>) }"

definition A_item :: "App \<Rightarrow> string \<Rightarrow> DataClassItem option" where
  "A_item s n = get_place (app_A s) (at_name (app_A s) n)"

definition runtime_Value :: "App \<Rightarrow> u32 \<Rightarrow> int option" where
  "runtime_Value s i = map_option (\<lambda>it. sint (it_Value it)) (get_place (runtime s) (at_id (runtime s) i))"

definition runtime_val :: "App \<Rightarrow> u32 \<Rightarrow> int option" where
  "runtime_val s i = map_option (\<lambda>it. sint (it_val it)) (get_place (runtime s) (at_id (runtime s) i))"

definition app_jia :: "string \<Rightarrow> App \<Rightarrow> App option" where
  "app_jia n s = do { a \<leftarrow> jia_add_flags (app_A s) n; Some (s\<lparr>app_A := a\<rparr>) }"

section \<open>Records in the data base\<close>

definition base_table :: "App \<Rightarrow> string \<Rightarrow> TbBase Table" where
  "base_table s tn = db_base (app_db s) tn"

definition put_base_table :: "string \<Rightarrow> TbBase Table \<Rightarrow> App \<Rightarrow> App" where
  "put_base_table tn t s = s\<lparr>app_db := (app_db s)\<lparr>db_base := (db_base (app_db s))(tn := t)\<rparr>\<rparr>"

text \<open>The four overloads of \<^verbatim>\<open>devdata_db_read\<close>.\<close>

definition devdata_db_read :: "Host \<Rightarrow> App \<Rightarrow> string \<Rightarrow> string \<Rightarrow> int \<times> (nat \<times> TbBase) list" where
  "devdata_db_read h s tn q = db_find (h_up h) (h_find_base h q) (base_table s tn) []"

definition date_query :: "Host \<Rightarrow> int \<Rightarrow> string" where
  "date_query h t = ''date=\"'' @ time2string (h_tz h) t @ ''\"''"

definition devdata_db_read_at :: "Host \<Rightarrow> App \<Rightarrow> string \<Rightarrow> int \<Rightarrow> int \<times> (nat \<times> TbBase) list" where
  "devdata_db_read_at h s tn t = devdata_db_read h s tn (date_query h t)"

definition devdata_db_read_data :: "Host \<Rightarrow> App \<Rightarrow> string \<Rightarrow> int \<Rightarrow> DataClass \<Rightarrow> (DataClass \<times> int) option" where
  "devdata_db_read_data h s tn t dat =
     (let (result, msgs) = devdata_db_read_at h s tn t
      in if result > 0 \<and> msgs \<noteq> []
         then do {
           d \<leftarrow> fromlog (h_mem h) (h_junk h) (b_data (snd (hd msgs))) dat;
           n \<leftarrow> string2time (h_tz h) (b_date (snd (hd msgs)));
           Some (d, 1) }
         else Some (dat, 0))"

definition range_query :: "Host \<Rightarrow> int \<Rightarrow> int \<Rightarrow> string" where
  "range_query h from to = ''date>=\"'' @ time2string (h_tz h) from @ ''\"and date<\"'' @ time2string (h_tz h) to @ ''\"''"

definition devdata_db_read_range :: "Host \<Rightarrow> App \<Rightarrow> string \<Rightarrow> int \<Rightarrow> int \<Rightarrow> int \<times> (nat \<times> TbBase) list" where
  "devdata_db_read_range h s tn from to = devdata_db_read h s tn (range_query h from to)"

text \<open>A record replaces the one of the same time. The text of the table is read from the buffer
  \<^verbatim>\<open>tolog\<close> fills.\<close>

definition devdata_db_save :: "Host \<Rightarrow> string \<Rightarrow> string \<Rightarrow> int \<Rightarrow> DataClass \<Rightarrow> App \<Rightarrow> App option" where
  "devdata_db_save h tn cd t pdata s = do {
     line \<leftarrow> tolog pdata;
     let r = \<lparr>b_date = time2string (h_tz h) t, b_data = line, b_code = cd\<rparr>;
     let (n, tab) = db_update (h_up h) (h_where_base h (date_query h t)) r (base_table s tn);
     Some (put_base_table tn tab s) }"

definition devdata_save :: "Host \<Rightarrow> int \<Rightarrow> App \<Rightarrow> App option" where
  "devdata_save h t s = devdata_db_save h TableNameHour [] (t - t smod 3600) (devdata s) s"

definition last_query :: string where
  "last_query = ''select * from hour order by date desc limit 1;''"

definition devdata_recovery :: "Host \<Rightarrow> int \<Rightarrow> App \<Rightarrow> (App \<times> int) option" where
  "devdata_recovery h now s =
     (let (result, msgs) = db_find (h_up h) (h_find_base h last_query) (base_table s TableNameHour) []
      in if msgs \<noteq> []
         then do {
           d \<leftarrow> fromlog (h_mem h) (h_junk h) (b_data (snd (hd msgs))) (devdata s);
           t \<leftarrow> string2time (h_tz h) (b_date (snd (hd msgs)));
           Some (s\<lparr>devdata := d, devdata_now := t\<rparr>, 1) }
         else Some (s\<lparr>devdata_now := now\<rparr>, 0))"

section \<open>Queries by time\<close>

text \<open>What SQLite documents of the comparison of texts: \<^verbatim>\<open>date="t"\<close> selects the rows of exactly that
  date, in the order of the table.\<close>

definition sql_dates :: "Host \<Rightarrow> bool" where
  "sql_dates h \<longleftrightarrow> h_up h \<and>
     (\<forall>t r. h_where_base h (date_query h t) r = (b_date r = time2string (h_tz h) t)) \<and>
     (\<forall>t rows. h_find_base h (date_query h t) rows = filter (\<lambda>(i, r). b_date r = time2string (h_tz h) t) rows)"

lemma put_base_table_get [simp]: "base_table (put_base_table tn t s) un = (if un = tn then t else base_table s un)"
  by (simp add: base_table_def put_base_table_def)

lemma save_read:
  assumes "sql_dates h" "tb_wf (base_table s tn)" "devdata_db_save h tn cd t pdata s = Some s'"
  shows "\<exists>line msgs. tolog pdata = Some line \<and> devdata_db_read_at h s' tn t = (1, msgs) \<and> msgs \<noteq> [] \<and>
    (\<forall>(i, r) \<in> set msgs. r = \<lparr>b_date = time2string (h_tz h) t, b_data = line, b_code = cd\<rparr>) \<and>
    tb_wf (base_table s' tn)"
proof -
  let ?q = "\<lambda>r. b_date r = time2string (h_tz h) t"
  have up: "h_up h" and w: "h_where_base h (date_query h t) = ?q"
    and f: "h_find_base h (date_query h t) rows = filter (\<lambda>(i, r). ?q r) rows" for rows
    using assms(1) by (auto simp: sql_dates_def fun_eq_iff)
  from assms(3) obtain line n tab where l: "tolog pdata = Some line"
    and u: "db_update True ?q \<lparr>b_date = time2string (h_tz h) t, b_data = line, b_code = cd\<rparr> (base_table s tn) = (n, tab)"
    and s': "s' = put_base_table tn tab s"
    using up w by (auto simp: devdata_db_save_def Let_def split: bind_splits prod.splits)
  have wf: "tb_wf tab" using db_update_wf [OF assms(2), of True ?q] u by (metis snd_conv)
  from db_update_find [OF assms(2) _ u] have "where_rows ?q tab \<noteq> []"
    "\<forall>(i, r) \<in> set (where_rows ?q tab). r = \<lparr>b_date = time2string (h_tz h) t, b_data = line, b_code = cd\<rparr>" by simp_all
  moreover have "devdata_db_read_at h s' tn t = (1, where_rows ?q tab)" if "where_rows ?q tab \<noteq> []"
    using that up f s' by (auto simp: devdata_db_read_at_def devdata_db_read_def db_find_def where_rows_def Let_def)
  ultimately show ?thesis using l wf s' by auto
qed

text \<open>Saving and reading back a table with at most fifteen set items restores them.\<close>

lemma save_read_data:
  assumes "sql_dates h" "tb_wf (base_table s tn)" "h_mem h = (\<lambda>_. True)" "\<forall>k. length (h_junk h k) = 500"
    and "log_ok d" "log_target d' d" "length (set_reports d) < 16"
    and "0 \<le> tm_year (localtime (h_tz h) t) + 1900" "tm_year (localtime (h_tz h) t) + 1900 < 2 ^ 31"
    and "devdata_db_save h tn cd t d s = Some s'"
  shows "\<exists>d''. devdata_db_read_data h s' tn t d' = Some (d'', 1) \<and>
    (\<forall>i < length (dc_items d). get_place d'' (PItem i) =
      Some (if is_set_item (dc_items d ! i) then restore (dc_items d ! i) (dc_items d' ! i) else dc_items d' ! i))"
proof -
  obtain line msgs where r: "tolog d = Some line" "devdata_db_read_at h s' tn t = (1, msgs)" "msgs \<noteq> []"
    "\<forall>(i, r) \<in> set msgs. r = \<lparr>b_date = time2string (h_tz h) t, b_data = line, b_code = cd\<rparr>"
    using save_read [OF assms(1,2,10)] by blast
  have "snd (hd msgs) = \<lparr>b_date = time2string (h_tz h) t, b_data = line, b_code = cd\<rparr>"
    using r(3,4) by (cases msgs) auto
  moreover obtain d'' where "fromlog (\<lambda>_. True) (h_junk h) line d' = Some d''"
    "\<forall>i < length (dc_items d). get_place d'' (PItem i) =
      Some (if is_set_item (dc_items d ! i) then restore (dc_items d ! i) (dc_items d' ! i) else dc_items d' ! i)"
    using fromlog_tolog [OF assms(5-7,4)] r(1) by auto
  ultimately show ?thesis
    using r(2,3) string2time_time2string [OF assms(8,9)] assms(3)
    by (simp add: devdata_db_read_data_def)
qed

end
