(* ===== verification/App_Laws.thy ===== *)
theory App_Laws
  imports App_State
begin

text \<open>
  The laws of the shared state. \<open>app_wf\<close> says that the four tables are sound tables of their
  types; it holds of the tables the program starts with, and every change of an item keeps it.
\<close>

section \<open>Names\<close>

lemma config_names: "distinct (map cfg_name (config_items_of t))"
  by (cases t) (simp_all add: config_items_of_def runtime_config_items_def appdata_config_items_def
      param_config_items_def devdata_config_items_def personalset_config_items_def
      personalset_config_items_1_def personalset_config_items_2_def cfg_def)

lemma new_names_wf: "names_wf (new_DataClass addr t n)"
proof -
  have "names_wf (DataClassInit addr (config_items_of t) (empty_class\<lparr>dc_type := t\<rparr>))"
    by (rule names_wf_Init) (simp_all add: names_wf_def empty_class_def config_names)
  then show ?thesis by (simp add: new_DataClass_def names_wf_def)
qed

lemma names_wf_frame:
  assumes "same_frame d d'" "names_wf d"
  shows "names_wf d'"
proof -
  have m: "map config (dc_items d') = map config (dc_items d)" "str_items d' = str_items d"
    using assms(1) by (simp_all add: same_frame_def)
  then have l: "length (dc_items d') = length (dc_items d)" by (metis length_map)
  have c: "config (dc_items d' ! i) = config (dc_items d ! i)" if "i < length (dc_items d)" for i
    using that m l by (metis nth_map)
  have "map (\<lambda>it. cfg_name (config it)) (dc_items d') = map (\<lambda>it. cfg_name (config it)) (dc_items d)"
    using c l by (intro nth_equalityI) simp_all
  then show ?thesis using assms(2) m(2) l c unfolding names_wf_def by simp
qed

section \<open>Items by identifier and by name\<close>

lemma isZero_bcd: "it_format it = DF_BCD \<Longrightarrow> it_len it \<noteq> 0 \<Longrightarrow> it_isZero it = Some (it_val it = DATA_INVALID_VALUE)"
  by (simp add: it_isZero_def)

lemma modify_defined:
  assumes "get_place d p = Some it" "f it = Some it'"
  shows "\<exists>d'. modify_item d p f = Some d' \<and> get_place d' p = Some it' \<and> (\<forall>q. q \<noteq> p \<longrightarrow> get_place d' q = get_place d q)"
  using items.update_at_get [OF assms(1), of f, OF assms(2)] by (auto simp: modify_item_def)

lemma modify_id:
  assumes "table_ok t d" "row_of t i = Some c" "get_place d (at_u16 d i) = Some it" "f it = Some it'" "keeps f"
  shows "\<exists>d'. modify_item d (at_u16 d i) f = Some d' \<and> table_ok t d' \<and> same_frame d d' \<and>
    get_place d' (at_u16 d' i) = Some it' \<and> (\<forall>j. j \<noteq> i \<longrightarrow> get_place d' (at_u16 d' j) = get_place d (at_u16 d j))"
proof -
  obtain d' where d': "modify_item d (at_u16 d i) f = Some d'" "get_place d' (at_u16 d i) = Some it'"
    "\<And>q. q \<noteq> at_u16 d i \<Longrightarrow> get_place d' q = get_place d q"
    using modify_defined [where f = f, OF assms(3,4)] by blast
  note fr = modify_item_frame(1) [OF d'(1) assms(5)]
  have "at_u16 d' j = at_u16 d j" for j using same_frame_at [OF fr] by simp
  then show ?thesis
    using d' fr table_ok_modify [OF assms(1) d'(1) assms(5)] other_place [OF assms(1,2)] by force
qed

definition name_of :: "DataClassConfigType \<Rightarrow> string \<Rightarrow> DataClassItemConfig option" where
  "name_of t n = find (\<lambda>c. cfg_name c = n) (config_items_of t)"

lemma table_ok_name:
  assumes "table_ok t d" "names_wf d" "name_of t n = Some c"
  shows "\<exists>k it. at_name d n = PItem k \<and> get_place d (at_name d n) = Some it \<and> config it = c \<and> wf_item it"
proof -
  from assms(3) obtain k where k: "k < length (config_items_of t)" "config_items_of t ! k = c" "cfg_name c = n"
    by (auto simp: name_of_def find_Some_iff)
  note i = table_ok_item [OF assms(1) k(1)]
  have "length (dc_items d) = length (config_items_of t)" using assms(1) by (metis table_ok_def length_map)
  with k i(3) assms(2) have "str_items d n = Some k" unfolding names_wf_def by metis
  then have "at_name d n = PItem k" by (simp add: at_name_def)
  with i k show ?thesis by auto
qed

lemma other_name:
  assumes "table_ok t d" "names_wf d" "name_of t n = Some c" "n \<noteq> m"
  shows "at_name d n \<noteq> at_name d m"
proof
  assume e: "at_name d n = at_name d m"
  obtain k where "at_name d n = PItem k" using table_ok_name [OF assms(1-3)] by blast
  with e have "str_items d n = Some k" "str_items d m = Some k"
    by (auto simp: at_name_def split: option.splits)
  with assms(2,4) show False unfolding names_wf_def by blast
qed

lemma modify_name:
  assumes "table_ok t d" "names_wf d" "name_of t n = Some c" "get_place d (at_name d n) = Some it" "f it = Some it'" "keeps f"
  shows "\<exists>d'. modify_item d (at_name d n) f = Some d' \<and> table_ok t d' \<and> names_wf d' \<and> same_frame d d' \<and>
    get_place d' (at_name d' n) = Some it' \<and>
    (\<forall>m. m \<noteq> n \<longrightarrow> get_place d' (at_name d' m) = get_place d (at_name d m))"
proof -
  obtain d' where d': "modify_item d (at_name d n) f = Some d'" "get_place d' (at_name d n) = Some it'"
    "\<And>q. q \<noteq> at_name d n \<Longrightarrow> get_place d' q = get_place d q"
    using modify_defined [where f = f, OF assms(4,5)] by blast
  note fr = modify_item_frame(1) [OF d'(1) assms(6)]
  have "at_name d' m = at_name d m" for m using same_frame_at [OF fr] by simp
  then show ?thesis
    using d' fr table_ok_modify [OF assms(1) d'(1) assms(6)] names_wf_frame [OF fr assms(2)] other_name [OF assms(1-3)]
    by force
qed

section \<open>The state\<close>

definition app_wf :: "App \<Rightarrow> bool" where
  "app_wf s \<longleftrightarrow> table_ok Type_Dev (devdata s) \<and> names_wf (devdata s)
     \<and> table_ok Type_Param (param s) \<and> names_wf (param s)
     \<and> table_ok Type_Runtime (runtime s) \<and> names_wf (runtime s)
     \<and> table_ok Type_AppData (app_A s) \<and> names_wf (app_A s)"

lemma dev_mod_wf:
  assumes "app_wf s" "dev_mod p f s = Some s'" "keeps f"
  shows "app_wf s'"
proof -
  from assms(2) obtain d where d: "modify_item (devdata s) p f = Some d" "s' = s\<lparr>devdata := d\<rparr>"
    by (auto simp: dev_mod_def split: bind_splits)
  have "table_ok Type_Dev (devdata s)" "names_wf (devdata s)" using assms(1) by (simp_all add: app_wf_def)
  with table_ok_modify [OF _ d(1) assms(3)] names_wf_frame [OF modify_item_frame(1) [OF d(1) assms(3)]]
  have "table_ok Type_Dev d" "names_wf d" by blast+
  with assms(1) d(2) show ?thesis by (simp add: app_wf_def)
qed

lemma A_mod_wf:
  assumes "app_wf s" "A_mod n f s = Some s'" "keeps f"
  shows "app_wf s'"
proof -
  from assms(2) obtain d where d: "modify_item (app_A s) (at_name (app_A s) n) f = Some d" "s' = s\<lparr>app_A := d\<rparr>"
    by (auto simp: A_mod_def split: bind_splits)
  have "table_ok Type_AppData (app_A s)" "names_wf (app_A s)" using assms(1) by (simp_all add: app_wf_def)
  with table_ok_modify [OF _ d(1) assms(3)] names_wf_frame [OF modify_item_frame(1) [OF d(1) assms(3)]]
  have "table_ok Type_AppData d" "names_wf d" by blast+
  with assms(1) d(2) show ?thesis by (simp add: app_wf_def)
qed

lemma A_mod_step:
  assumes "app_wf s" "name_of Type_AppData n = Some c" "keeps f" "A_item s n = Some it" "f it = Some it'"
  shows "\<exists>a. A_mod n f s = Some (s\<lparr>app_A := a\<rparr>) \<and> app_wf (s\<lparr>app_A := a\<rparr>) \<and> A_item (s\<lparr>app_A := a\<rparr>) n = Some it' \<and>
    (\<forall>m. m \<noteq> n \<longrightarrow> A_item (s\<lparr>app_A := a\<rparr>) m = A_item s m)"
proof -
  have t: "table_ok Type_AppData (app_A s)" "names_wf (app_A s)" using assms(1) by (simp_all add: app_wf_def)
  from modify_name [where f = f, OF t assms(2) _ assms(5,3)] assms(4) obtain a where
    a: "modify_item (app_A s) (at_name (app_A s) n) f = Some a" "table_ok Type_AppData a" "names_wf a"
      "get_place a (at_name a n) = Some it'" "\<forall>m. m \<noteq> n \<longrightarrow> get_place a (at_name a m) = get_place (app_A s) (at_name (app_A s) m)"
    unfolding A_item_def by blast
  then show ?thesis using assms(1) by (auto simp: A_mod_def A_item_def app_wf_def)
qed

lemma A_item_present:
  assumes "app_wf s" "name_of Type_AppData n = Some c"
  shows "\<exists>it. A_item s n = Some it \<and> config it = c \<and> wf_item it"
  using table_ok_name [of Type_AppData "app_A s" n c] assms by (auto simp: app_wf_def A_item_def)

text \<open>The tables at the start of the program.\<close>

definition start_tables :: "App \<Rightarrow> bool" where
  "start_tables s \<longleftrightarrow> (\<exists>a b c d. devdata s = new_DataClass a Type_Dev ''datadev'' \<and> param s = new_DataClass b Type_Param ''param''
     \<and> runtime s = new_DataClass c Type_Runtime ''runtime'' \<and> app_A s = new_DataClass d Type_AppData ''A'')"

lemma start_wf: "start_tables s \<Longrightarrow> app_wf s"
  using table_ok_new new_names_wf by (auto simp: start_tables_def app_wf_def)

end
