(* ===== verification/Bao.thy ===== *)
theory Bao
  imports App_Laws Send_Mode
begin

text \<open>
  The reports that the station makes on its own, \<^verbatim>\<open>app/dataprocess/Ibao.hpp\<close>: when a record is due
  it is saved, some seconds later it is reported, and a report that fails is noted in the table
  \<^verbatim>\<open>bu\<close>, from which the resend report takes it again. One class hierarchy becomes a record with its
  kind; a virtual method is a case distinction. Each function takes the readings of the clock as a
  sequence, \<open>clk 0\<close>, \<open>clk 1\<close>, and so on.
\<close>

section \<open>State\<close>

datatype BaoKind = BaoBase | CycleBaoBase | JiaBaoBase | RawBao | BuBaoBase

record Bao =
  bo_kind :: BaoKind
  bo_name :: string
  bo_code :: string
  bo_record_time :: int
  bo_obtime :: int
  bo_record_table :: string
  bo_ids :: "string list"
  bo_record_seconds :: int
  bo_record_delays :: int
  bo_record_enable :: bool
  bo_report_delays :: int
  bo_report_enable :: bool
  bo_report_log :: string
  bo_report_cmd :: int
  bo_triglename :: string
  bo_last_record :: int
  bo_last_report :: int
  bo_m :: TbBu
  bo_report_tb :: string
  bo_report_date :: string

definition empty_bu :: TbBu where
  "empty_bu = \<lparr>u_valid = 0, u_name = [], u_date = [], u_tb = [], u_tdate = [], u_cmd = [], u_ids = []\<rparr>"

text \<open>The objects are globals, so what no constructor sets is zero.\<close>

definition new_Bao :: "BaoKind \<Rightarrow> string \<Rightarrow> int \<Rightarrow> string \<Rightarrow> string \<Rightarrow> int \<Rightarrow> Bao" where
  "new_Bao k n cm tb trig now =
     \<lparr>bo_kind = k, bo_name = n, bo_code = [], bo_record_time = 0, bo_obtime = 0,
      bo_record_table = (case k of JiaBaoBase \<Rightarrow> ''jia'' | RawBao \<Rightarrow> [] | BuBaoBase \<Rightarrow> TableNameBu | _ \<Rightarrow> tb),
      bo_ids = [], bo_record_seconds = 0, bo_record_delays = 0, bo_record_enable = False, bo_report_delays = 0,
      bo_report_enable = False, bo_report_log = [], bo_report_cmd = cm, bo_triglename = trig,
      bo_last_record = now, bo_last_report = now, bo_m = empty_bu, bo_report_tb = [], bo_report_date = []\<rparr>"

section \<open>The table of failed reports\<close>

definition bu_query :: "string \<Rightarrow> string \<Rightarrow> string \<Rightarrow> string" where
  "bu_query n cm td = ''name=\"'' @ n @ ''\" and cmd=\"'' @ cm @ ''\" and tdate=\"'' @ td @ ''\"''"

definition show_cmd :: "int \<Rightarrow> string" where
  "show_cmd v = show_int v"

definition bu_update :: "Host \<Rightarrow> TbBu \<Rightarrow> App \<Rightarrow> int \<times> App" where
  "bu_update h msg s =
     (let (n, tab) = db_update (h_up h) (h_where_bu h (bu_query (u_name msg) (u_cmd msg) (u_tdate msg))) msg (db_bu (app_db s))
      in (n, s\<lparr>app_db := (app_db s)\<lparr>db_bu := tab\<rparr>\<rparr>))"

definition bu_add_one_record :: "Host \<Rightarrow> int \<Rightarrow> Bao \<Rightarrow> App \<Rightarrow> App \<times> bool" where
  "bu_add_one_record h now b s =
     (let msg = \<lparr>u_valid = 1, u_name = bo_name b, u_date = time2string (h_tz h) now, u_tb = bo_record_table b,
                 u_tdate = time2string (h_tz h) (bo_record_time b), u_cmd = show_cmd (bo_report_cmd b),
                 u_ids = list_merge (bo_ids b) '' ''\<rparr>
      in (snd (bu_update h msg s), False))"

definition bu_invalid_one_record :: "Host \<Rightarrow> TbBu \<Rightarrow> App \<Rightarrow> App \<times> bool" where
  "bu_invalid_one_record h msg s = (let (n, s') = bu_update h (msg\<lparr>u_valid := 0\<rparr>) s in (s', n = 0))"

text \<open>\<^verbatim>\<open>delall\<close> returns \<open>0\<close> when it succeeds, which is read as a truth value.\<close>

definition bao_clearAll :: "Host \<Rightarrow> Bao \<Rightarrow> App \<Rightarrow> App \<times> bool" where
  "bao_clearAll h b s =
     (if bo_record_table b = [] then (s, True)
      else if bo_record_table b = TableNameBu
      then (let (n, tab) = db_delall (h_up h) (db_bu (app_db s)) in (s\<lparr>app_db := (app_db s)\<lparr>db_bu := tab\<rparr>\<rparr>, n \<noteq> 0))
      else (let (n, tab) = db_delall (h_up h) (base_table s (bo_record_table b))
            in (put_base_table (bo_record_table b) tab s, n \<noteq> 0)))"

section \<open>Due times\<close>

definition Check_Time :: "int \<Rightarrow> int \<Rightarrow> int \<Rightarrow> int \<Rightarrow> int \<times> bool" where
  "Check_Time prev now cycle delays =
     (if cycle = 0 then (prev, False)
      else (let nn = (prev - delays) sdiv cycle
            in if (now - delays) sdiv cycle \<ge> nn + 1 then (now, True) else (prev, False)))"

definition record_due :: "int \<Rightarrow> Bao \<Rightarrow> Bao \<times> bool" where
  "record_due now b =
     (if bo_record_seconds b < 60 \<or> bo_record_enable b then (b, False)
      else (let (l, due) = Check_Time (bo_last_record b) now (bo_record_seconds b) (bo_record_delays b)
            in (b\<lparr>bo_last_record := l\<rparr>, due)))"

definition jia_record_check :: "int \<Rightarrow> Bao \<Rightarrow> App \<Rightarrow> (Bao \<times> bool) option" where
  "jia_record_check now b s =
     (let (b1, due) = record_due now b
      in if due
         then do {
           it \<leftarrow> A_item s (bo_triglename b1);
           if it_list it \<noteq> [] then Some (b1\<lparr>bo_code := list_merge (it_list it) '' ''\<rparr>, True) else Some (b1, False) }
         else Some (b1, False))"

definition bu_select :: string where
  "bu_select = ''valid!=0 LIMIT 1''"

definition strtol10 :: "string \<Rightarrow> int" where
  "strtol10 t = (case scan_d t of Some (v, r) \<Rightarrow> v | None \<Rightarrow> 0)"

definition bu_record_check :: "Host \<Rightarrow> int \<Rightarrow> Bao \<Rightarrow> App \<Rightarrow> (Bao \<times> bool) option" where
  "bu_record_check h now b s =
     (let (b1, due) = record_due now b
      in if due
         then (let (n, msgs) = db_find (h_up h) (h_find_bu h bu_select) (db_bu (app_db s)) []
               in if msgs \<noteq> []
                  then do {
                    let m = snd (hd msgs);
                    ids \<leftarrow> split_str (u_ids m) '' '';
                    Some (b1\<lparr>bo_m := m, bo_ids := ids, bo_report_cmd := strtol10 (u_cmd m), bo_report_tb := u_tb m,
                             bo_report_date := u_tdate m, bo_record_enable := True, bo_report_log := []\<rparr>, True) }
                  else Some (b1, False))
         else Some (b1, False))"

definition record_check :: "Host \<Rightarrow> int \<Rightarrow> Bao \<Rightarrow> App \<Rightarrow> (Bao \<times> bool) option" where
  "record_check h now b s =
     (case bo_kind b of
        JiaBaoBase \<Rightarrow> jia_record_check now b s
      | BuBaoBase \<Rightarrow> bu_record_check h now b s
      | _ \<Rightarrow> Some (record_due now b))"

section \<open>Recording and reporting\<close>

definition bao_record :: "Host \<Rightarrow> (nat \<Rightarrow> int) \<Rightarrow> Bao \<Rightarrow> App \<Rightarrow> (Bao \<times> App) option" where
  "bao_record h clk b s =
     (if bo_kind b \<in> {RawBao, BuBaoBase} then Some (b, s)
      else do {
        let t = clk 0 - clk 0 smod bo_record_seconds b;
        let b1 = b\<lparr>bo_record_time := t, bo_obtime := clk 1\<rparr>;
        s1 \<leftarrow> devdata_db_save h (bo_record_table b1) (bo_code b1) (bo_record_time b1) (devdata s) s;
        line \<leftarrow> tolog (devdata s1);
        Some (b1\<lparr>bo_report_log := line\<rparr>, s1) })"

definition report_check :: "bool \<Rightarrow> Bao \<Rightarrow> Bao \<times> bool" where
  "report_check reset b = (let b1 = (if reset then b\<lparr>bo_report_enable := False\<rparr> else b) in (b1, bo_report_enable b1))"

definition report_name :: "string \<Rightarrow> string" where
  "report_name tb = [CHR 0xE4, CHR 0xB8, CHR 0x8A, CHR 0xE6, CHR 0x8A, CHR 0xA5, CHR '':''] @ tb"

definition base_report_data :: "Host \<Rightarrow> int \<Rightarrow> Bao \<Rightarrow> App \<Rightarrow> bytes \<Rightarrow> (bytes \<times> int \<times> App) option" where
  "base_report_data h now b s out = do {
     let ty = (if bo_kind b = BuBaoBase then Type_Dev else dc_type (devdata s));
     log \<leftarrow> fromlog (h_mem h) (h_junk h) (bo_report_log b) (new_DataClass (h_addr h) ty (report_name (bo_record_table b)));
     (hd1, hs) \<leftarrow> new_Header (param s) now (app_head s);
     let z = zw_init_at \<lparr>zw_names = [], zw_header = hd1\<rparr> (bo_ids b) (bo_obtime b);
     let z1 = z\<lparr>zw_header := (zw_header z)\<lparr>h_observetime := bo_record_time b\<rparr>\<rparr>;
     (out', n) \<leftarrow> zw_to_array (h_tz h) at_name log z1 (replicate 1024 0) out 0;
     Some (out', n, s\<lparr>app_head := hs\<rparr>) }"

definition raw_report_data :: "Host \<Rightarrow> int \<Rightarrow> App \<Rightarrow> bytes \<Rightarrow> (bytes \<times> int \<times> App) option" where
  "raw_report_data h now s out = do {
     (hd1, hs) \<leftarrow> new_Header (param s) now (app_head s);
     (buffer, n) \<leftarrow> get_lianlu_report (h_tz h) hd1 (replicate 100 0);
     src \<leftarrow> rd_range buffer 0 (nat n);
     out' \<leftarrow> memcpy_at 0 src out;
     Some (out', n, s\<lparr>app_head := hs\<rparr>) }"

definition bu_report_data :: "Host \<Rightarrow> int \<Rightarrow> Bao \<Rightarrow> App \<Rightarrow> bytes \<Rightarrow> (bytes \<times> int \<times> Bao \<times> App) option" where
  "bu_report_data h now b s out =
     (let b0 = b\<lparr>bo_report_log := []\<rparr>;
          (n, msgs) = devdata_db_read h s (bo_report_tb b0) (''date=\"'' @ bo_report_date b0 @ ''\"'')
      in if msgs \<noteq> []
         then do {
           t \<leftarrow> string2time (h_tz h) (b_date (snd (hd msgs)));
           let b1 = b0\<lparr>bo_report_log := b_data (snd (hd msgs)), bo_obtime := t\<rparr>;
           if bo_report_log b1 \<noteq> []
           then do { (out', k, s') \<leftarrow> base_report_data h now b1 s out; Some (out', k, b1, s') }
           else Some (out, 0, b1, s) }
         else Some (out, 0, b0\<lparr>bo_record_enable := False\<rparr>, fst (bu_invalid_one_record h (bo_m b0) s)))"

definition report_data :: "Host \<Rightarrow> int \<Rightarrow> Bao \<Rightarrow> App \<Rightarrow> bytes \<Rightarrow> (bytes \<times> int \<times> Bao \<times> App) option" where
  "report_data h now b s out =
     (case bo_kind b of
        BuBaoBase \<Rightarrow> bu_report_data h now b s out
      | RawBao \<Rightarrow> map_option (\<lambda>(out', n, s'). (out', n, b, s')) (raw_report_data h now s out)
      | _ \<Rightarrow> map_option (\<lambda>(out', n, s'). (out', n, b, s')) (base_report_data h now b s out))"

definition report_fail :: "Host \<Rightarrow> int \<Rightarrow> Bao \<Rightarrow> App \<Rightarrow> App \<times> bool" where
  "report_fail h now b s =
     (if bo_kind b \<in> {CycleBaoBase, JiaBaoBase} then bu_add_one_record h now b s else (s, True))"

definition report_ok :: "Host \<Rightarrow> Bao \<Rightarrow> App \<Rightarrow> App \<times> bool" where
  "report_ok h b s = (if bo_kind b = BuBaoBase then (fst (bu_invalid_one_record h (bo_m b) s), True) else (s, True))"

definition bao_poll_one :: "Host \<Rightarrow> (nat \<Rightarrow> int) \<Rightarrow> Bao \<Rightarrow> App \<Rightarrow> (Bao \<times> App) option" where
  "bao_poll_one h clk b s = do {
     (b1, due) \<leftarrow> record_check h (clk 0) b s;
     (b2, s2) \<leftarrow> (if due
       then do { (c, s') \<leftarrow> bao_record h (\<lambda>i. clk (i + 1)) b1 s; Some (c\<lparr>bo_record_enable := True\<rparr>, s') }
       else Some (b1, s));
     let b3 = (if bo_record_seconds b2 < 60 then b2\<lparr>bo_report_enable := False\<rparr> else b2);
     let (l, rep) = (if bo_record_enable b3
                     then Check_Time (bo_last_report b3) (clk 3) (bo_record_seconds b3) (bo_report_delays b3)
                     else (bo_last_report b3, False));
     let b4 = b3\<lparr>bo_last_report := l\<rparr>;
     Some (if rep then b4\<lparr>bo_record_enable := False, bo_report_enable := True\<rparr> else b4, s2) }"

definition set_interval :: "int \<Rightarrow> int \<Rightarrow> int \<Rightarrow> Bao \<Rightarrow> Bao" where
  "set_interval cycle_seconds record_delays report_delays b =
     b\<lparr>bo_record_seconds := cycle_seconds, bo_record_delays := record_delays, bo_report_delays := report_delays\<rparr>"

definition set_report_ids :: "string list \<Rightarrow> Bao \<Rightarrow> Bao" where
  "set_report_ids ids b = b\<lparr>bo_ids := ids\<rparr>"

section \<open>Laws\<close>

lemma Check_Time_iff:
  assumes "0 < cycle" "delays \<le> prev" "prev \<le> now"
  shows "snd (Check_Time prev now cycle delays) \<longleftrightarrow> (\<exists>n. prev < n * cycle + delays \<and> n * cycle + delays \<le> now)"
proof -
  have d: "(prev - delays) sdiv cycle = (prev - delays) div cycle" "(now - delays) sdiv cycle = (now - delays) div cycle"
    using assms by simp_all
  have "(\<exists>n. prev < n * cycle + delays \<and> n * cycle + delays \<le> now) \<longleftrightarrow> (prev - delays) div cycle < (now - delays) div cycle"
  proof
    assume "\<exists>n. prev < n * cycle + delays \<and> n * cycle + delays \<le> now"
    then obtain n where "prev < n * cycle + delays" "n * cycle + delays \<le> now" by blast
    then have n: "prev - delays < n * cycle" "n * cycle \<le> now - delays" by linarith+
    have "0 \<le> (prev - delays) mod cycle" using assms(1) by simp
    moreover have "(prev - delays) div cycle * cycle = prev - delays - (prev - delays) mod cycle"
      by (simp add: minus_mod_eq_div_mult)
    ultimately have "(prev - delays) div cycle * cycle < n * cycle" using n(1) by linarith
    then have "(prev - delays) div cycle < n" using assms(1) by simp
    moreover have "n \<le> (now - delays) div cycle" using zdiv_mono1 [OF n(2) assms(1)] assms(1) by simp
    ultimately show "(prev - delays) div cycle < (now - delays) div cycle" by simp
  next
    assume l: "(prev - delays) div cycle < (now - delays) div cycle"
    let ?n = "(now - delays) div cycle"
    have "?n * cycle \<le> now - delays" using assms(1) by (simp add: mult.commute minus_mod_eq_mult_div [symmetric])
    moreover have "prev - delays < ?n * cycle"
    proof -
      have "prev - delays < ((prev - delays) div cycle + 1) * cycle"
        using assms(1) by (simp add: distrib_right minus_mod_eq_div_mult [symmetric])
      also have "\<dots> \<le> ?n * cycle" using l assms(1) by (intro mult_right_mono) simp_all
      finally show ?thesis .
    qed
    ultimately show "\<exists>n. prev < n * cycle + delays \<and> n * cycle + delays \<le> now"
      by (intro exI [of _ ?n]) simp
  qed
  then show ?thesis using assms(1) d by (auto simp: Check_Time_def Let_def)
qed

end
