(* ===== verification/Rain.thy ===== *)
theory Rain
  imports App_Laws
begin

text \<open>
  The rain gauge, \<^verbatim>\<open>app/down/rain.cpp\<close>: totals of the hour, of the day and since ever, five-minute
  counts, the alarm, the turn of the hour, and the accumulated rain in the data base. Times are
  arguments; one handler sees one time. Log output is left out.
\<close>

section \<open>The accumulated rain\<close>

definition rainacc_query :: string where
  "rainacc_query = ''name=\"rainacc\"''"

definition rainacc_save :: "Host \<Rightarrow> int \<Rightarrow> App \<Rightarrow> App option" where
  "rainacc_save h t s = do {
     it \<leftarrow> A_item s ''rainAcc'';
     dat \<leftarrow> toreport_text it;
     let crc = crc8 (bytes_of dat) (length dat);
     let tb = \<lparr>i_name = ''rainacc'', i_date = time2string (h_tz h) t, i_data = dat, i_code = to_dec (unat crc)\<rparr>;
     let (n, tab) = db_update (h_up h) (h_where_important h rainacc_query) tb (db_important (app_db s));
     Some (s\<lparr>app_db := (app_db s)\<lparr>db_important := tab\<rparr>\<rparr>) }"

definition rainacc_recovery :: "Host \<Rightarrow> int \<Rightarrow> App \<Rightarrow> (App \<times> bool) option" where
  "rainacc_recovery h t s =
     (let (n, msgs) = db_find (h_up h) (h_find_important h rainacc_query) (db_important (app_db s)) []
      in if msgs \<noteq> []
         then
           (let msg = snd (hd msgs); crc = crc8 (bytes_of (i_data msg)) (length (i_data msg))
            in if i_code msg = to_dec (unat crc)
               then do {
                 s1 \<leftarrow> A_mod ''rainAcc'' (\<lambda>it. map_option fst (fromreport_text it (i_data msg))) s;
                 acc \<leftarrow> A_item s1 ''rainAcc'';
                 pt \<leftarrow> get_place (devdata s1) (dev_name s1 ''PT'');
                 s2 \<leftarrow> (if it_val pt \<noteq> it_val acc then dev_mod (dev_name s1 ''PT'') (set_val (it_val acc)) s1 else Some s1);
                 Some (s2, True) }
               else Some (s, False))
         else do {
           s1 \<leftarrow> A_mod ''rainAcc'' (set_val 0) s;
           s2 \<leftarrow> rainacc_save h t s1;
           Some (s2, False) })"

section \<open>Sums over the hourly records\<close>

definition GetRainDayStartTime :: "Host \<Rightarrow> App \<Rightarrow> int \<Rightarrow> int option" where
  "GetRainDayStartTime h s tnow = do {
     let tnow = tnow - tnow smod 3600;
     let hour = tm_hour (localtime (h_tz h) tnow);
     it \<leftarrow> get_place (runtime s) (at_name (runtime s) ''RainDayStartTime'');
     let r = to_int32 (sint (it_val it));
     if hour \<ge> r
     then do { d \<leftarrow> int32 (hour - r); d \<leftarrow> int32 (d * 3600); Some (tnow - d) }
     else do { d \<leftarrow> int32 ((r - hour) * 3600); Some (tnow - 24 * 3600 + d) } }"

definition rain_query :: "Host \<Rightarrow> int \<Rightarrow> int \<Rightarrow> string" where
  "rain_query h from to = ''date>=\"'' @ time2string (h_tz h) from @ ''\" and date<\"'' @ time2string (h_tz h) to @ ''\"''"

fun P1_sum :: "Host \<Rightarrow> (nat \<times> TbBase) list \<Rightarrow> l64 \<Rightarrow> l64 option" where
  "P1_sum h [] current = Some current"
| "P1_sum h ((i, tb) # msgs) current = do {
     tlog \<leftarrow> fromlog (h_mem h) (h_junk h) (b_data tb) (new_DataClass (h_addr h) Type_Dev ''tlog'');
     it \<leftarrow> get_place tlog (at_name tlog ''P1'');
     z \<leftarrow> it_isZero it;
     if z then P1_sum h msgs current
     else do { c \<leftarrow> l64_of (sint current + sint (it_val it)); P1_sum h msgs c } }"

definition P1_rain :: "Host \<Rightarrow> App \<Rightarrow> int \<Rightarrow> int \<Rightarrow> l64 option" where
  "P1_rain h s from to =
     (let from = from - from smod 3600; to = to - to smod 3600;
          (n, msgs) = db_find (h_up h) (h_find_base h (rain_query h from to)) (base_table s TableNameHour) []
      in P1_sum h msgs 0)"

definition init_currentRain :: "Host \<Rightarrow> int \<Rightarrow> App \<Rightarrow> App option" where
  "init_currentRain h t s = do {
     from \<leftarrow> GetRainDayStartTime h s t;
     current \<leftarrow> P1_rain h s from (t - t smod 3600);
     dev_mod (dev_name s ''PJ'') (set_val current) s }"

definition init_dayRain :: "Host \<Rightarrow> int \<Rightarrow> App \<Rightarrow> App option" where
  "init_dayRain h t s = do {
     from \<leftarrow> GetRainDayStartTime h s (t - 24 * 3600);
     to \<leftarrow> GetRainDayStartTime h s t;
     v \<leftarrow> P1_rain h s from to;
     dev_mod (dev_name s ''PD'') (set_val v) s }"

definition set_hex_all :: "u8 \<Rightarrow> DataClassItem \<Rightarrow> DataClassItem option" where
  "set_hex_all b it = do { hx \<leftarrow> it_hex it; hx' \<leftarrow> fill (it_len it) b hx; Some (it\<lparr>it_hex := Some hx'\<rparr>) }"

definition init_5min :: "App \<Rightarrow> App option" where
  "init_5min s = do {
     s1 \<leftarrow> dev_mod (dev_name s ''DRP'') (set_hex_all 0xFF) s;
     dev_mod (dev_name s1 ''P1'') (set_val 0) s1 }"

section \<open>One pulse\<close>

definition add_val :: "int \<Rightarrow> DataClassItem \<Rightarrow> DataClassItem option" where
  "add_val v it = do {
     z \<leftarrow> it_isZero it;
     if z then Some (it\<lparr>it_val := word_of_int v\<rparr>)
     else do { w \<leftarrow> l64_of (sint (it_val it) + v); Some (it\<lparr>it_val := w\<rparr>) } }"

definition increase :: "u8 \<Rightarrow> int \<Rightarrow> App \<Rightarrow> App option" where
  "increase i v s = dev_mod (dev_id s (ucast i)) (add_val v) s"

definition add_hex :: "int \<Rightarrow> nat \<Rightarrow> DataClassItem \<Rightarrow> DataClassItem option" where
  "add_hex v off it = do {
     hx \<leftarrow> it_hex it;
     b \<leftarrow> rd hx off;
     hx' \<leftarrow> wr hx off (if b = 0xFF then word_of_int v else b + word_of_int v);
     Some (it\<lparr>it_hex := Some hx'\<rparr>) }"

definition increase_DRP :: "int \<Rightarrow> nat \<Rightarrow> App \<Rightarrow> App option" where
  "increase_DRP v off s = dev_mod (dev_id s 0xF4) (add_hex v off) s"

definition rain_caculation :: "Host \<Rightarrow> int \<Rightarrow> int \<Rightarrow> App \<Rightarrow> App option" where
  "rain_caculation h t n s = do {
     let tm5 = tm_min (localtime (h_tz h) t) sdiv 5;
     uv \<leftarrow> runtime_val s 0x25;
     let u = uv mod 2 ^ 16;
     nu \<leftarrow> int32 (n * u);
     inc \<leftarrow> int32 (n * nu);
     if n > 0
     then do {
       let s0 = s\<lparr>app_head := set_observetime_time (app_head s) t\<rparr>;
       s1 \<leftarrow> A_mod ''rainIncFlag'' (set_val 1) s0;
       s2 \<leftarrow> increase 0x1A inc s1;
       s3 \<leftarrow> increase 0x20 inc s2;
       s4 \<leftarrow> increase_DRP inc (nat tm5) s3;
       s5 \<leftarrow> increase 0x26 inc s4;
       pt \<leftarrow> get_place (devdata s5) (dev_id s5 0x26);
       acc \<leftarrow> A_item s5 ''rainAcc'';
       z \<leftarrow> it_isZero acc;
       if z then A_mod ''rainAcc'' (set_val (it_val pt)) s5
       else A_mod ''rainAcc'' (\<lambda>it. do { w \<leftarrow> l64_of (sint (it_val it) + inc); Some (it\<lparr>it_val := w\<rparr>) }) s5 }
     else Some s }"

section \<open>The pulse input\<close>

text \<open>\<^verbatim>\<open>di_get\<close> of \<^verbatim>\<open>_sensor_yuliang.cpp\<close>: the last event of the input and the new one, each a
  time and a value; a falling edge is one count.\<close>

definition di_get :: "Host \<Rightarrow> int \<Rightarrow> nat \<times> nat \<Rightarrow> nat \<times> nat \<Rightarrow> App \<Rightarrow> (App \<times> (nat \<times> nat)) option" where
  "di_get h t ev old s =
     (let prev = (if fst old = snd old \<and> fst old = 0 then ev else old)
      in if snd prev \<noteq> snd ev
         then (if snd ev = 0 then map_option (\<lambda>s'. (s', ev)) (rain_caculation h t 1 s) else Some (s, ev))
         else Some (s, prev))"

section \<open>Alarm and turn of the hour\<close>

definition rain_warn_check :: "Host \<Rightarrow> int \<Rightarrow> App \<Rightarrow> App option" where
  "rain_warn_check h t s = do {
     flag \<leftarrow> A_item s ''rainIncFlag'';
     if it_val flag = 1
     then do {
       let index = nat (tm_min (localtime (h_tz h) t) sdiv 5);
       s1 \<leftarrow> A_mod ''rainIncFlag'' (set_val 0) s;
       F4 \<leftarrow> get_hex (devdata s1) (dev_id s1 0xF4) index;
       v \<leftarrow> runtime_val s1 0x27;
       y \<leftarrow> l64_of (v * 10);
       if F4 \<noteq> 0xFF \<and> int (unat F4) \<ge> to_int32 (sint y)
       then do {
         s2 \<leftarrow> A_mod ''rainAlarmFlags'' (\<lambda>it. Some (it\<lparr>it_val := it_val it OR 0x01\<rparr>)) s1;
         app_jia ''rain'' s2 }
       else Some s1 }
     else Some s }"

definition init_rain :: "Host \<Rightarrow> int \<Rightarrow> App \<Rightarrow> App option" where
  "init_rain h t s =
     (if is_diff_hour t (devdata_now s)
      then do { s1 \<leftarrow> init_currentRain h t s; s2 \<leftarrow> init_dayRain h t s1; init_5min s2 }
      else Some s)"

definition rain_poll :: "Host \<Rightarrow> int \<Rightarrow> App \<Rightarrow> App option" where
  "rain_poll h t s = do {
     let s0 = (if rain_last s = 0 then s\<lparr>rain_last := t\<rparr> else s);
     s1 \<leftarrow> (if is_diff_hour (rain_last s0) t
            then do {
              a \<leftarrow> init_5min (s0\<lparr>rain_last := t\<rparr>);
              b \<leftarrow> init_dayRain h t a;
              init_currentRain h t b }
            else Some s0);
     rain_warn_check h t s1 }"

section \<open>Totals\<close>

text \<open>The rain an item stands for, an unset item standing for none.\<close>

definition total :: "DataClass \<Rightarrow> u16 \<Rightarrow> int" where
  "total d i = (case val_of d i of Some v \<Rightarrow> if v = DATA_INVALID_VALUE then 0 else sint v | None \<Rightarrow> 0)"

lemma keeps_add_val [wf_intros]: "keeps (add_val v)"
  by (auto simp: keeps_def add_val_def wf_item_def split: bind_splits if_splits)

lemma keeps_add_hex [wf_intros]: "keeps (add_hex v off)"
  using wr_length by (fastforce simp: keeps_def add_hex_def wf_item_def split: bind_splits)

lemma sint_invalid: "sint DATA_INVALID_VALUE = 2 ^ 63 - 1"
  by (simp add: DATA_INVALID_VALUE_def)

lemma word_of_int_invalid:
  "0 \<le> v \<Longrightarrow> v < 2 ^ 63 - 1 \<Longrightarrow> (word_of_int v :: l64) \<noteq> DATA_INVALID_VALUE"
  using sint_word_of_int_l64 [of v] sint_invalid by auto

text \<open>Items that count: decimal, at least one byte.\<close>

definition counter_row :: "DataClassItemConfig \<Rightarrow> bool" where
  "counter_row c \<longleftrightarrow> cfg_format c = DF_BCD \<and> 0 < cfg_len c"

lemma counter_len: "counter_row (config it) \<Longrightarrow> it_len it \<noteq> 0"
proof -
  assume "counter_row (config it)"
  then have "0 < cfg_len (config it)" by (simp add: counter_row_def)
  then have "(cfg_len (config it) + 1) div 2 \<noteq> 0" by presburger
  with \<open>0 < cfg_len (config it)\<close> show ?thesis by (simp add: it_len_def)
qed

lemma increase_step:
  assumes "table_ok Type_Dev (devdata s)" "row_of Type_Dev (ucast i) = Some c" "counter_row c"
    "0 \<le> v" "0 \<le> total (devdata s) (ucast i)" "total (devdata s) (ucast i) + v < 2 ^ 63 - 1"
  shows "\<exists>d. increase i v s = Some (s\<lparr>devdata := d\<rparr>) \<and> table_ok Type_Dev d \<and>
    total d (ucast i) = total (devdata s) (ucast i) + v \<and>
    (\<forall>j. j \<noteq> ucast i \<longrightarrow> total d j = total (devdata s) j) \<and> (\<forall>j. j \<noteq> ucast i \<longrightarrow> hex_of d j = hex_of (devdata s) j)"
proof -
  obtain it where it: "get_place (devdata s) (at_u16 (devdata s) (ucast i)) = Some it" "config it = c"
    using table_ok_id [OF assms(1,2)] by blast
  have z: "it_isZero it = Some (it_val it = DATA_INVALID_VALUE)"
    using it(2) assms(3) counter_len [of it] by (intro isZero_bcd) (simp_all add: counter_row_def)
  have tot: "total (devdata s) (ucast i) = (if it_val it = DATA_INVALID_VALUE then 0 else sint (it_val it))"
    by (simp add: total_def val_of_def it(1))
  define w where "w = total (devdata s) (ucast i) + v"
  have w: "0 \<le> w" "w < 2 ^ 63 - 1" using assms(4-6) by (simp_all add: w_def)
  have f: "add_val v it = Some (it\<lparr>it_val := word_of_int w\<rparr>)"
  proof (cases "it_val it = DATA_INVALID_VALUE")
    case True
    then show ?thesis using z tot by (simp add: add_val_def w_def)
  next
    case False
    then have "sint (it_val it) + v = w" using tot by (simp add: w_def)
    moreover have "l64_of w = Some (word_of_int w)" using w by simp
    ultimately show ?thesis using z False by (simp add: add_val_def)
  qed
  from modify_id [OF assms(1,2) it(1) f keeps_add_val] obtain d where
    d: "modify_item (devdata s) (at_u16 (devdata s) (ucast i)) (add_val v) = Some d" "table_ok Type_Dev d"
      "get_place d (at_u16 d (ucast i)) = Some (it\<lparr>it_val := word_of_int w\<rparr>)"
      "\<And>j. j \<noteq> ucast i \<Longrightarrow> get_place d (at_u16 d j) = get_place (devdata s) (at_u16 (devdata s) j)" by blast
  have place: "dev_id s (ucast i) = at_u16 (devdata s) (ucast i)"
  proof -
    have "(ucast (ucast i :: u32) :: u16) = ucast i" by (rule bit_word_eqI) (auto simp: bit_simps)
    then show ?thesis by (simp add: dev_id_def at_id_u16)
  qed
  have "total d (ucast i) = w"
    using d(3) word_of_int_invalid [OF w] sint_word_of_int_l64 [of w] w by (simp add: total_def val_of_def)
  moreover have "total d j = total (devdata s) j" "hex_of d j = hex_of (devdata s) j" if "j \<noteq> ucast i" for j
    using d(4) [OF that] by (simp_all add: total_def val_of_def hex_of_def)
  moreover have "increase i v s = Some (s\<lparr>devdata := d\<rparr>)" using d(1) place by (simp add: increase_def dev_mod_def)
  ultimately show ?thesis using d(2) unfolding w_def by (intro exI [of _ d]) simp
qed

text \<open>The five-minute counts.\<close>

lemma hex_length:
  assumes "wf_item it" "it_format it = DF_HEX" "0 < alloc_size (config it)"
  shows "\<exists>h. it_hex it = Some h \<and> int (length h) = alloc_size (config it)"
  using assms by (simp add: wf_item_def)

definition drp_row :: DataClassItemConfig where
  "drp_row = cfg 0xF4 ''DRP'' 24 0 DF_HEX"

lemma rain_rows:
  "row_of Type_Dev 0xF4 = Some drp_row"
  "row_of Type_Dev 0x1A = Some (cfg 0x1A ''P1'' 5 1 DF_BCD)"
  "row_of Type_Dev 0x20 = Some (cfg 0x20 ''PJ'' 5 1 DF_BCD)"
  "row_of Type_Dev 0x26 = Some (cfg 0x26 ''PT'' 6 1 DF_BCD)"
  by (simp_all add: row_of_def config_items_of_def devdata_config_items_def cfg_def drp_row_def)

lemma rain_names:
  "name_of Type_AppData ''rainIncFlag'' = Some (cfg 0x07 ''rainIncFlag'' 4 0 DF_BCD)"
  "name_of Type_AppData ''rainAcc'' = Some (cfg 0x08 ''rainAcc'' 6 1 DF_BCD)"
  by (simp_all add: name_of_def config_items_of_def appdata_config_items_def cfg_def)

lemma DRP_present:
  assumes "table_ok Type_Dev d"
  shows "\<exists>hx. hex_of d 0xF4 = Some hx \<and> length hx = 12"
proof -
  obtain it where it: "get_place d (at_u16 d 0xF4) = Some it" "config it = drp_row" "wf_item it"
    using table_ok_id [OF assms rain_rows(1)] by blast
  with hex_length [of it] show ?thesis by (auto simp: drp_row_def cfg_def alloc_size_def hex_of_def)
qed

lemma increase_DRP_step:
  assumes "table_ok Type_Dev (devdata s)" "hex_of (devdata s) 0xF4 = Some hx" "off < length hx"
  shows "\<exists>d. increase_DRP v off s = Some (s\<lparr>devdata := d\<rparr>) \<and> table_ok Type_Dev d \<and>
    hex_of d 0xF4 = Some (hx[off := (if hx ! off = 0xFF then word_of_int v else hx ! off + word_of_int v)]) \<and>
    (\<forall>j. j \<noteq> 0xF4 \<longrightarrow> total d j = total (devdata s) j \<and> hex_of d j = hex_of (devdata s) j)"
proof -
  obtain it where it: "get_place (devdata s) (at_u16 (devdata s) 0xF4) = Some it" "it_hex it = Some hx"
    using assms(2) by (auto simp: hex_of_def split: bind_splits)
  let ?h = "hx[off := (if hx ! off = 0xFF then word_of_int v else hx ! off + word_of_int v)]"
  have f: "add_hex v off it = Some (it\<lparr>it_hex := Some ?h\<rparr>)"
    using it(2) assms(3) by (simp add: add_hex_def rd_def wr_def)
  from modify_id [where f = "add_hex v off", OF assms(1) rain_rows(1) it(1) f keeps_add_hex] obtain d where
    d: "modify_item (devdata s) (at_u16 (devdata s) 0xF4) (add_hex v off) = Some d" "table_ok Type_Dev d"
      "get_place d (at_u16 d 0xF4) = Some (it\<lparr>it_hex := Some ?h\<rparr>)"
      "\<And>j. j \<noteq> 0xF4 \<Longrightarrow> get_place d (at_u16 d j) = get_place (devdata s) (at_u16 (devdata s) j)" by blast
  have "total d j = total (devdata s) j" "hex_of d j = hex_of (devdata s) j" if "j \<noteq> 0xF4" for j
    using d(4) [OF that] by (simp_all add: total_def val_of_def hex_of_def)
  moreover have "increase_DRP v off s = Some (s\<lparr>devdata := d\<rparr>)"
    using d(1) by (simp add: increase_DRP_def dev_mod_def dev_id_def at_id_u16)
  moreover have "hex_of d 0xF4 = Some ?h" using d(3) by (simp add: hex_of_def)
  ultimately show ?thesis using d(2) by blast
qed

text \<open>All the totals of the gauge, and the accumulated rain, lie between 0 and \<open>b\<close>.\<close>

definition acc_total :: "App \<Rightarrow> int" where
  "acc_total s = (case A_item s ''rainAcc'' of
     Some it \<Rightarrow> if it_val it = DATA_INVALID_VALUE then 0 else sint (it_val it) | None \<Rightarrow> 0)"

definition gauge_le :: "int \<Rightarrow> App \<Rightarrow> bool" where
  "gauge_le b s \<longleftrightarrow> (\<forall>i \<in> {0x1A, 0x20, 0x26}. 0 \<le> total (devdata s) i \<and> total (devdata s) i \<le> b) \<and>
     0 \<le> acc_total s \<and> acc_total s \<le> b"

lemma A_item_dev [simp]: "A_item (s\<lparr>devdata := d\<rparr>) n = A_item s n" "A_item (s\<lparr>app_head := x\<rparr>) n = A_item s n"
  by (simp_all add: A_item_def)

lemma app_wf_dev: "app_wf s \<Longrightarrow> increase i v s = Some s' \<Longrightarrow> app_wf s'"
  "app_wf s \<Longrightarrow> increase_DRP v off s = Some s' \<Longrightarrow> app_wf s'"
  unfolding increase_def increase_DRP_def using dev_mod_wf keeps_add_val keeps_add_hex by blast+

lemma app_wf_head [simp]: "app_wf (s\<lparr>app_head := x\<rparr>) = app_wf s"
  by (simp add: app_wf_def)

lemma counter_rows: "counter_row (cfg i n 5 f DF_BCD)" "counter_row (cfg i n 6 f DF_BCD)"
  by (simp_all add: counter_row_def cfg_def)

text \<open>Saving to the accumulated rain: an unset value takes the total of the gauge, a set one grows.\<close>

lemma acc_step:
  assumes "app_wf s" "0 \<le> u" "0 \<le> acc_total s" "acc_total s + u < 2 ^ 63 - 1"
    and pt: "get_place (devdata s) (dev_id s 0x26) = Some p" "0 \<le> sint (it_val p)" "sint (it_val p) < 2 ^ 63 - 1"
  shows "\<exists>acc z a. A_item s ''rainAcc'' = Some acc \<and> it_isZero acc = Some z \<and>
    (if z then A_mod ''rainAcc'' (set_val (it_val p)) s
     else A_mod ''rainAcc'' (\<lambda>it. do { w \<leftarrow> l64_of (sint (it_val it) + u); Some (it\<lparr>it_val := w\<rparr>) }) s)
      = Some (s\<lparr>app_A := a\<rparr>) \<and> app_wf (s\<lparr>app_A := a\<rparr>) \<and>
    acc_total (s\<lparr>app_A := a\<rparr>) = (if z then sint (it_val p) else acc_total s + u)"
proof -
  obtain acc where acc: "A_item s ''rainAcc'' = Some acc" "config acc = cfg 0x08 ''rainAcc'' 6 1 DF_BCD"
    using A_item_present [OF assms(1) rain_names(2)] by blast
  have z: "it_isZero acc = Some (it_val acc = DATA_INVALID_VALUE)"
    using acc(2) by (intro isZero_bcd) (simp_all add: cfg_def it_len_def)
  show ?thesis
  proof (cases "it_val acc = DATA_INVALID_VALUE")
    case True
    obtain a where a: "A_mod ''rainAcc'' (set_val (it_val p)) s = Some (s\<lparr>app_A := a\<rparr>)" "app_wf (s\<lparr>app_A := a\<rparr>)"
      "A_item (s\<lparr>app_A := a\<rparr>) ''rainAcc'' = Some (acc\<lparr>it_val := it_val p\<rparr>)"
      using A_mod_step [where f = "set_val (it_val p)", OF assms(1) rain_names(2) keeps_set_val acc(1)] by (auto simp: set_val_def)
    have "it_val p \<noteq> DATA_INVALID_VALUE" using pt(3) sint_invalid by auto
    then have "acc_total (s\<lparr>app_A := a\<rparr>) = sint (it_val p)" using a(3) by (simp add: acc_total_def)
    then show ?thesis using acc(1) z True a by auto
  next
    case False
    let ?f = "\<lambda>it. do { w \<leftarrow> l64_of (sint (it_val it) + u); Some (it\<lparr>it_val := w\<rparr>) }"
    have k: "keeps ?f" by (auto simp: keeps_def wf_item_def split: bind_splits)
    have tot: "acc_total s = sint (it_val acc)" using acc(1) False by (simp add: acc_total_def)
    define w where "w = acc_total s + u"
    have w: "0 \<le> w" "w < 2 ^ 63 - 1" using assms(2-4) by (simp_all add: w_def)
    have "?f acc = Some (acc\<lparr>it_val := word_of_int w\<rparr>)" using w unfolding tot [symmetric] w_def [symmetric] by simp
    from A_mod_step [where f = ?f, OF assms(1) rain_names(2) k acc(1) this] obtain a where
      a: "A_mod ''rainAcc'' ?f s = Some (s\<lparr>app_A := a\<rparr>)" "app_wf (s\<lparr>app_A := a\<rparr>)"
        "A_item (s\<lparr>app_A := a\<rparr>) ''rainAcc'' = Some (acc\<lparr>it_val := word_of_int w\<rparr>)" by blast
    have "acc_total (s\<lparr>app_A := a\<rparr>) = w"
      using a(3) word_of_int_invalid [OF w] sint_word_of_int_l64 [of w] w by (simp add: acc_total_def)
    then show ?thesis using acc(1) z False a by (auto simp: w_def)
  qed
qed

lemma total_pt:
  assumes "table_ok Type_Dev (devdata s)" "0 < total (devdata s) 0x26" "total (devdata s) 0x26 < 2 ^ 63 - 1"
  shows "\<exists>p. get_place (devdata s) (dev_id s 0x26) = Some p \<and> sint (it_val p) = total (devdata s) 0x26"
proof -
  obtain p where "get_place (devdata s) (at_u16 (devdata s) 0x26) = Some p"
    using table_ok_id [OF assms(1) rain_rows(4)] by blast
  then show ?thesis using assms(2) by (auto simp: total_def val_of_def dev_id_def at_id_u16 split: if_splits)
qed

lemma rain_pulse:
  assumes wf: "app_wf s" and u: "runtime_val s 0x25 = Some u" "1 \<le> u" "u < 2 ^ 16"
    and g: "gauge_le b s" "b + u < 2 ^ 63 - 1" and hx: "hex_of (devdata s) 0xF4 = Some hx" "length hx = 12"
    and k: "k = nat (tm_min (localtime (h_tz h) t) sdiv 5)"
  shows "\<exists>s'. rain_caculation h t 1 s = Some s' \<and> app_wf s' \<and> runtime s' = runtime s \<and> gauge_le (b + u) s' \<and>
    (\<forall>i \<in> {0x1A, 0x20, 0x26}. total (devdata s') i = total (devdata s) i + u) \<and>
    hex_of (devdata s') 0xF4 = Some (hx[k := (if hx ! k = 0xFF then word_of_int u else hx ! k + word_of_int u)]) \<and>
    length (hx[k := (if hx ! k = 0xFF then word_of_int u else hx ! k + word_of_int u)]) = 12"
proof -
  have kl: "k < length hx"
    using localtime_bounds(7,8) [of "h_tz h" t] k hx(2) by simp
  let ?s0 = "s\<lparr>app_head := set_observetime_time (app_head s) t\<rparr>"
  have wf0: "app_wf ?s0" using wf by simp
  obtain fl where "A_item ?s0 ''rainIncFlag'' = Some fl" using A_item_present [OF wf0 rain_names(1)] by blast
  from A_mod_step [where f = "set_val 1", OF wf0 rain_names(1) keeps_set_val this] obtain a1 where
    s1: "A_mod ''rainIncFlag'' (set_val 1) ?s0 = Some (?s0\<lparr>app_A := a1\<rparr>)" "app_wf (?s0\<lparr>app_A := a1\<rparr>)"
      "A_item (?s0\<lparr>app_A := a1\<rparr>) ''rainAcc'' = A_item s ''rainAcc''"
    by (auto simp: set_val_def)
  define x1 where "x1 = ?s0\<lparr>app_A := a1\<rparr>"
  have f1: "devdata x1 = devdata s" "runtime x1 = runtime s" "acc_total x1 = acc_total s"
    using s1(3) by (simp_all add: x1_def acc_total_def)
  have t1: "table_ok Type_Dev (devdata x1)" using wf f1(1) by (simp add: app_wf_def)
  have tot: "0 \<le> total (devdata s) i" "total (devdata s) i + u < 2 ^ 63 - 1" if "i \<in> {0x1A, 0x20, 0x26}" for i
    using g that unfolding gauge_le_def by fastforce+
  have uc: "(ucast (0x1A :: u8) :: u16) = 0x1A" "(ucast (0x20 :: u8) :: u16) = 0x20" "(ucast (0x26 :: u8) :: u16) = 0x26"
    by simp_all
  obtain d2 where s2: "increase 0x1A u x1 = Some (x1\<lparr>devdata := d2\<rparr>)" "table_ok Type_Dev d2"
    "total d2 0x1A = total (devdata s) 0x1A + u" "\<And>j. j \<noteq> 0x1A \<Longrightarrow> total d2 j = total (devdata s) j"
    "\<And>j. j \<noteq> 0x1A \<Longrightarrow> hex_of d2 j = hex_of (devdata s) j"
    using increase_step [where s = x1 and i = "0x1A" and v = u, OF t1, unfolded uc, OF rain_rows(2) counter_rows(1)] tot [of "0x1A"] u f1 by auto
  define x2 where "x2 = x1\<lparr>devdata := d2\<rparr>"
  have d2: "devdata x2 = d2" by (simp add: x2_def)
  obtain d3 where s3: "increase 0x20 u x2 = Some (x2\<lparr>devdata := d3\<rparr>)" "table_ok Type_Dev d3"
    "total d3 0x20 = total d2 0x20 + u" "\<And>j. j \<noteq> 0x20 \<Longrightarrow> total d3 j = total d2 j"
    "\<And>j. j \<noteq> 0x20 \<Longrightarrow> hex_of d3 j = hex_of d2 j"
    using increase_step [where s = x2 and i = "0x20" and v = u, unfolded uc d2, OF s2(2) rain_rows(3) counter_rows(1)] tot [of "0x20"] u s2(4) by auto
  define x3 where "x3 = x2\<lparr>devdata := d3\<rparr>"
  have d3: "devdata x3 = d3" by (simp add: x3_def)
  have h3: "hex_of d3 0xF4 = Some hx" using s3(5) s2(5) hx by simp
  let ?hx = "hx[k := (if hx ! k = 0xFF then word_of_int u else hx ! k + word_of_int u)]"
  obtain d4 where s4: "increase_DRP u k x3 = Some (x3\<lparr>devdata := d4\<rparr>)" "table_ok Type_Dev d4" "hex_of d4 0xF4 = Some ?hx"
    "\<And>j. j \<noteq> 0xF4 \<Longrightarrow> total d4 j = total d3 j"
    using increase_DRP_step [where s = x3 and v = u, unfolded d3, OF s3(2) h3 kl] by auto
  define x4 where "x4 = x3\<lparr>devdata := d4\<rparr>"
  have d4: "devdata x4 = d4" by (simp add: x4_def)
  have t26: "total d4 0x26 = total (devdata s) 0x26" using s4(4) s3(4) s2(4) by simp
  obtain d5 where s5: "increase 0x26 u x4 = Some (x4\<lparr>devdata := d5\<rparr>)" "table_ok Type_Dev d5"
    "total d5 0x26 = total d4 0x26 + u" "\<And>j. j \<noteq> 0x26 \<Longrightarrow> total d5 j = total d4 j"
    "\<And>j. j \<noteq> 0x26 \<Longrightarrow> hex_of d5 j = hex_of d4 j"
    using increase_step [where s = x4 and i = "0x26" and v = u, unfolded uc d4, OF s4(2) rain_rows(4) counter_rows(2)] tot [of "0x26"] u t26 by auto
  define x5 where "x5 = x4\<lparr>devdata := d5\<rparr>"
  have d5: "devdata x5 = d5" by (simp add: x5_def)
  have wf5: "app_wf x5"
    using app_wf_dev s1(2) s2(1) s3(1) s4(1) s5(1) unfolding x1_def [symmetric] x2_def [symmetric] x3_def [symmetric] x4_def [symmetric] x5_def [symmetric] by blast
  have acc5: "acc_total x5 = acc_total s" "runtime x5 = runtime s"
    using f1 by (simp_all add: x5_def x4_def x3_def x2_def acc_total_def)
  have t5: "total d5 0x26 = total (devdata s) 0x26 + u" "total d5 0x20 = total (devdata s) 0x20 + u"
    "total d5 0x1A = total (devdata s) 0x1A + u"
    using t26 s5(3,4) s4(4) s3(3,4) s2(3,4) by simp_all
  obtain p where p: "get_place (devdata x5) (dev_id x5 0x26) = Some p" "sint (it_val p) = total (devdata s) 0x26 + u"
    using total_pt [of x5, unfolded d5, OF s5(2)] t5(1) tot [of "0x26"] u d5 by auto
  have acb: "0 \<le> acc_total x5" "acc_total x5 + u < 2 ^ 63 - 1" using g acc5 unfolding gauge_le_def by auto
  obtain acc z a where A: "A_item x5 ''rainAcc'' = Some acc" "it_isZero acc = Some z"
    "(if z then A_mod ''rainAcc'' (set_val (it_val p)) x5
      else A_mod ''rainAcc'' (\<lambda>it. do { w \<leftarrow> l64_of (sint (it_val it) + u); Some (it\<lparr>it_val := w\<rparr>) }) x5) = Some (x5\<lparr>app_A := a\<rparr>)"
    "app_wf (x5\<lparr>app_A := a\<rparr>)" "acc_total (x5\<lparr>app_A := a\<rparr>) = (if z then sint (it_val p) else acc_total x5 + u)"
    using acc_step [OF wf5 _ acb p(1)] p(2) u tot [of "0x26"] by auto
  have um: "u mod 2 ^ 16 = u" using u by simp
  have calc: "rain_caculation h t 1 s = Some (x5\<lparr>app_A := a\<rparr>)"
  proof -
    have "int32 (1 * u) = Some u" "int32 u = Some u" using u by simp_all
    then show ?thesis
      unfolding rain_caculation_def Let_def u(1) um
      using s1(1) s2(1) s3(1) s4(1) s5(1) p(1) A(1-3)
      by (simp only: bind.bind_lunit mult_1 zero_less_one if_True x1_def [symmetric] x2_def [symmetric] x3_def [symmetric]
          x4_def [symmetric] x5_def [symmetric] k [symmetric] um)
  qed
  have "gauge_le (b + u) (x5\<lparr>app_A := a\<rparr>)"
    using g(1) t5 p(2) A(5) acc5(1) u(2) d5 unfolding gauge_le_def by auto
  moreover have "hex_of d5 0xF4 = Some ?hx" using s5(5) s4(3) by simp
  ultimately show ?thesis
    using calc A(4) acc5(2) t5 d5 hx(2) by auto
qed

text \<open>Any number of pulses.\<close>

fun rain_pulses :: "Host \<Rightarrow> int list \<Rightarrow> App \<Rightarrow> App option" where
  "rain_pulses h [] s = Some s"
| "rain_pulses h (t # ts) s = do { s' \<leftarrow> rain_caculation h t 1 s; rain_pulses h ts s' }"

lemma rain_pulses_total:
  assumes "app_wf s" "runtime_val s 0x25 = Some u" "1 \<le> u" "u < 2 ^ 16"
    and "gauge_le b s" "b + int (length ts) * u < 2 ^ 63 - 1"
  shows "\<exists>s'. rain_pulses h ts s = Some s' \<and> app_wf s' \<and> gauge_le (b + int (length ts) * u) s' \<and>
    (\<forall>i \<in> {0x1A, 0x20, 0x26}. total (devdata s') i = total (devdata s) i + int (length ts) * u)"
  using assms
proof (induction ts arbitrary: s b)
  case (Cons t ts)
  have l: "b + u + int (length ts) * u < 2 ^ 63 - 1" using Cons.prems(6) by (simp add: algebra_simps)
  have "0 \<le> int (length ts) * u" using Cons.prems(3) by simp
  with l have "b + u < 2 ^ 63 - 1" by linarith
  moreover obtain hx where "hex_of (devdata s) 0xF4 = Some hx" "length hx = 12"
    using DRP_present Cons.prems(1) by (auto simp: app_wf_def)
  ultimately obtain s1 where s1: "rain_caculation h t 1 s = Some s1" "app_wf s1" "runtime s1 = runtime s" "gauge_le (b + u) s1"
    "\<forall>i \<in> {0x1A, 0x20, 0x26}. total (devdata s1) i = total (devdata s) i + u"
    using rain_pulse [OF Cons.prems(1-5) _ _ _ refl] by blast
  have "runtime_val s1 0x25 = Some u" using Cons.prems(2) s1(3) by (simp add: runtime_val_def)
  from Cons.IH [OF s1(2) this Cons.prems(3,4) s1(4) l] obtain s' where
    s': "rain_pulses h ts s1 = Some s'" "app_wf s'" "gauge_le (b + u + int (length ts) * u) s'"
      "\<forall>i \<in> {0x1A, 0x20, 0x26}. total (devdata s') i = total (devdata s1) i + int (length ts) * u" by blast
  then show ?case using s1 by (auto simp: algebra_simps)
qed simp

end
