(* ===== verification/Waterlevel.thy ===== *)
theory Waterlevel
  imports App_Laws Rain
begin

text \<open>
  The water level sensors, \<^verbatim>\<open>app/down/waterlevel.cpp\<close>: the levels \<^verbatim>\<open>Z1\<close> to \<^verbatim>\<open>Z8\<close> with their base
  and correction, the five-minute tables \<^verbatim>\<open>DRZ1\<close> to \<^verbatim>\<open>DRZ8\<close> of sixteen-bit values, and the alarm
  checks.
\<close>

section \<open>The five-minute tables\<close>

definition put_u16 :: "nat \<Rightarrow> int \<Rightarrow> DataClassItem \<Rightarrow> DataClassItem option" where
  "put_u16 off v it = do {
     h \<leftarrow> it_hex it;
     h1 \<leftarrow> wr h (off * 2) (word_of_int (v div 256));
     h2 \<leftarrow> wr h1 (off * 2 + 1) (word_of_int v);
     Some (it\<lparr>it_hex := Some h2\<rparr>) }"

definition set_DRZ :: "u16 \<Rightarrow> int \<Rightarrow> nat \<Rightarrow> App \<Rightarrow> (App \<times> int) option" where
  "set_DRZ i v off s =
     (if i < 0xF5 \<or> i > 0xFC then Some (s, 1)
      else do { s' \<leftarrow> dev_mod (dev_id s (ucast i)) (put_u16 off v) s; Some (s', 0) })"

text \<open>A null pointer is \<open>None\<close> of the first argument.\<close>

definition get_DRZ :: "DataClass option \<Rightarrow> nat \<Rightarrow> nat \<Rightarrow> u16 option" where
  "get_DRZ pdata index off =
     (case pdata of
        None \<Rightarrow> Some 0xFFFF
      | Some d \<Rightarrow> do {
          let p = at_id d (0xF5 + word_of_nat index);
          let off = off mod 12;
          hi \<leftarrow> get_hex d p (off * 2);
          lo \<leftarrow> get_hex d p (off * 2 + 1);
          Some (push_bit 8 (ucast hi) OR ucast lo) })"

fun clear_from :: "u32 \<Rightarrow> nat \<Rightarrow> App \<Rightarrow> App option" where
  "clear_from i 0 s = Some s"
| "clear_from i (Suc k) s = do { s' \<leftarrow> dev_mod (dev_id s i) it_clear s; clear_from (i + 1) k s' }"

definition reset_DRZ :: "App \<Rightarrow> App option" where
  "reset_DRZ s = clear_from 0xF5 8 s"

section \<open>A level\<close>

definition waterlevel_addbase :: "Host \<Rightarrow> int \<Rightarrow> u32 \<Rightarrow> l64 \<Rightarrow> bool \<Rightarrow> App \<Rightarrow> (App \<times> int) option" where
  "waterlevel_addbase h t i v clear s =
     (if i < 0x3C \<or> i > 0x43 then Some (s, 1)
      else do {
        let off = i - 0x3C;
        let baseid = off + 0x28;
        let fixid = off + 0x30;
        let DRZid = (ucast (off + 0xF5) :: u16);
        let t5 = nat (TimeOffset5Min (h_tz h) t);
        if clear
        then do {
          s1 \<leftarrow> dev_mod (dev_id s i) it_clear s;
          (s2, r) \<leftarrow> set_DRZ DRZid 0xFFFF t5 s1;
          Some (s2, 0) }
        else do {
          b \<leftarrow> runtime_Value s baseid;
          f \<leftarrow> runtime_Value s fixid;
          x \<leftarrow> l64_of (sint v + b);
          y \<leftarrow> l64_of (sint x + f);
          s1 \<leftarrow> dev_mod (dev_id s i) (set_val y) s;
          (s2, r) \<leftarrow> set_DRZ DRZid (to_int32 (sint y sdiv 10)) t5 s1;
          Some (s2, 0) } })"

section \<open>Alarms\<close>

text \<open>The alarms of one level: \<open>last\<close> carries over from one sensor to the next when no log was
  found, as the variable of the code does. Both limits are those of item \<^verbatim>\<open>0x40\<close>.\<close>

definition level_warn :: "int \<Rightarrow> int \<Rightarrow> int \<Rightarrow> nat \<Rightarrow> int \<Rightarrow> int \<Rightarrow> App \<Rightarrow> (App \<times> int) option" where
  "level_warn up_limit down_limit limit i prev now s =
     (if now = 0xFFFF then Some (s, prev)
      else do {
        (s1, prev1) \<leftarrow>
          (if prev = 0xFFFF then Some (s, now)
           else do {
             let cha = now - prev;
             s1 \<leftarrow> (if cha > 0 \<and> up_limit > 0 \<and> cha > up_limit then app_jia ''waterlevel'' s else Some s);
             s2 \<leftarrow> (if cha < 0 \<and> down_limit > 0 \<and> - cha > down_limit then app_jia ''waterlevel'' s1 else Some s1);
             Some (s2, prev) });
        s2 \<leftarrow> (if limit > 0 \<and> now > limit then app_jia ''waterlevel'' s1 else Some s1);
        Some (s2, prev1) })"

fun waterlevel_warn_loop :: "int \<Rightarrow> int \<Rightarrow> int \<Rightarrow> DataClass option \<Rightarrow> nat \<Rightarrow> nat \<Rightarrow> int \<Rightarrow> App \<Rightarrow> App option" where
  "waterlevel_warn_loop m up_limit down_limit pdata i 0 prev s = Some s"
| "waterlevel_warn_loop m up_limit down_limit pdata i (Suc k) prev s = do {
     prev1 \<leftarrow> (if m < 5
               then (case pdata of None \<Rightarrow> Some prev | Some d \<Rightarrow> map_option (\<lambda>w. int (unat w)) (get_DRZ (Some d) i 11))
               else map_option (\<lambda>w. int (unat w)) (get_DRZ (Some (devdata s)) i (nat (m sdiv 5 - 1))));
     now \<leftarrow> get_DRZ (Some (devdata s)) i (nat (m sdiv 5));
     limit \<leftarrow> runtime_Value s (0x38 + word_of_nat i);
     (s1, prev2) \<leftarrow> level_warn up_limit down_limit limit i prev1 (int (unat now)) s;
     waterlevel_warn_loop m up_limit down_limit pdata (Suc i) k prev2 s1 }"

definition waterlevel_warn_check :: "Host \<Rightarrow> int \<Rightarrow> App \<Rightarrow> App option" where
  "waterlevel_warn_check h t s = do {
     let m = tm_min (localtime (h_tz h) t);
     up_limit \<leftarrow> runtime_Value s 0x40;
     down_limit \<leftarrow> runtime_Value s 0x40;
     pdata \<leftarrow> (if m < 5
               then do {
                 (d, r) \<leftarrow> devdata_db_read_data h s ''hour'' (t - t smod 3600 - 3600)
                   (new_DataClass (h_addr h) Type_Dev ''waterlevel'');
                 Some (if r > 0 then Some d else None) }
               else Some None);
     waterlevel_warn_loop m up_limit down_limit pdata 0 8 0xFFFF s }"

section \<open>Start, measurement, turn of the hour\<close>

definition init_waterlevel :: "int \<Rightarrow> App \<Rightarrow> App option" where
  "init_waterlevel t s =
     (if is_diff_hour t (devdata_now s) then reset_DRZ s
      else do { s1 \<leftarrow> dev_mod (dev_name s ''Z'') it_clear s; clear_from 0x3C 8 s1 })"

definition copy_val :: "u32 \<Rightarrow> u32 \<Rightarrow> App \<Rightarrow> App option" where
  "copy_val to from s = do {
     it \<leftarrow> get_place (devdata s) (dev_id s from);
     dev_mod (dev_id s to) (set_val (it_val it)) s }"

definition waterlevel_caculation ::
    "Host \<Rightarrow> int \<Rightarrow> l64 \<Rightarrow> DataClassItemConfig \<Rightarrow> bool \<Rightarrow> bool \<Rightarrow> App \<Rightarrow> App option" where
  "waterlevel_caculation h t wl pconfig result clear s = do {
     let i = (ucast (cfg_id pconfig) :: u32);
     s1 \<leftarrow> (if clear then map_option fst (waterlevel_addbase h t i wl clear s)
            else if result
            then do {
              a \<leftarrow> (if i \<ge> 0x3C \<and> i \<le> 0x43 then map_option fst (waterlevel_addbase h t i wl False s)
                    else dev_mod (dev_id s i) (set_val wl) s);
              waterlevel_warn_check h t a }
            else Some s);
     copy_val 0x39 0x3C s1 }"

definition waterlevel_poll :: "int \<Rightarrow> App \<Rightarrow> App option" where
  "waterlevel_poll t s =
     (let s0 = (if water_last s = 0 then s\<lparr>water_last := t\<rparr> else s)
      in if is_diff_hour (water_last s0) t then reset_DRZ (s0\<lparr>water_last := t\<rparr>) else Some s0)"

section \<open>Setting and reading a slot\<close>

lemma keeps_put_u16 [wf_intros]: "keeps (put_u16 off v)"
proof -
  have "wr h a x = Some h1 \<Longrightarrow> wr h1 b y = Some h2 \<Longrightarrow> length h2 = length h" for h h1 h2 :: bytes and a b x y
    using wr_length by metis
  then show ?thesis by (fastforce simp: keeps_def put_u16_def wf_item_def split: bind_splits)
qed

lemma DRZ_row:
  assumes "index < 8"
  shows "\<exists>n. row_of Type_Dev (0xF5 + word_of_nat index) = Some (cfg (0xF5 + word_of_nat index) n 48 0 DF_HEX)"
proof -
  consider "index = 0" | "index = 1" | "index = 2" | "index = 3" | "index = 4" | "index = 5" | "index = 6" | "index = 7"
    using assms by linarith
  then show ?thesis
    by cases (simp_all add: row_of_def config_items_of_def devdata_config_items_def cfg_def)
qed

lemma ucast_DRZ: "index < 8 \<Longrightarrow> (ucast (0xF5 + word_of_nat index :: u32) :: u16) = 0xF5 + word_of_nat index"
proof -
  assume "index < 8"
  then consider "index = 0" | "index = 1" | "index = 2" | "index = 3" | "index = 4" | "index = 5" | "index = 6" | "index = 7"
    by linarith
  then show ?thesis by cases simp_all
qed

lemma DRZ_ids:
  assumes "index < 8"
  shows "\<not> ((0xF5 :: u16) + word_of_nat index < 0xF5 \<or> (0xF5 :: u16) + word_of_nat index > 0xFC)"
    "(ucast ((0xF5 :: u16) + word_of_nat index) :: u32) = 0xF5 + word_of_nat index"
proof -
  consider "index = 0" | "index = 1" | "index = 2" | "index = 3" | "index = 4" | "index = 5" | "index = 6" | "index = 7"
    using assms by linarith
  then show "\<not> ((0xF5 :: u16) + word_of_nat index < 0xF5 \<or> (0xF5 :: u16) + word_of_nat index > 0xFC)"
    "(ucast ((0xF5 :: u16) + word_of_nat index) :: u32) = 0xF5 + word_of_nat index"
    by (cases; simp)+
qed

lemma DRZ_present:
  assumes "table_ok Type_Dev d" "index < 8"
  shows "\<exists>it h. get_place d (at_u16 d (0xF5 + word_of_nat index)) = Some it \<and> it_hex it = Some h \<and> length h = 24"
proof -
  obtain n where r: "row_of Type_Dev (0xF5 + word_of_nat index) = Some (cfg (0xF5 + word_of_nat index) n 48 0 DF_HEX)"
    using DRZ_row [OF assms(2)] by blast
  from table_ok_id [OF assms(1) r] obtain it where it: "get_place d (at_u16 d (0xF5 + word_of_nat index)) = Some it"
    "config it = cfg (0xF5 + word_of_nat index) n 48 0 DF_HEX" "wf_item it" by blast
  with hex_length [of it] show ?thesis by (auto simp: cfg_def alloc_size_def)
qed

definition slot :: "bytes \<Rightarrow> nat \<Rightarrow> u16" where
  "slot h off = push_bit 8 (ucast (h ! (off * 2))) OR ucast (h ! (off * 2 + 1))"

lemma get_DRZ_slot:
  assumes "get_place d (at_u16 d (0xF5 + word_of_nat index)) = Some it" "it_hex it = Some h" "length h = 24" "index < 8"
  shows "get_DRZ (Some d) index off = Some (slot h (off mod 12))"
proof -
  have "off mod 12 < 12" by simp
  then have "off mod 12 * 2 + 1 < 24" by linarith
  then show ?thesis
    using assms ucast_DRZ [OF assms(4)]
    by (simp add: get_DRZ_def get_hex_def at_id_u16 slot_def rd_def Let_def)
qed

lemma slot_put:
  assumes "length h = 24" "off < 12"
  shows "slot (h[off * 2 := word_of_int (v div 256), off * 2 + 1 := word_of_int v]) off = word_of_int v"
    "o2 < 12 \<Longrightarrow> o2 \<noteq> off \<Longrightarrow> slot (h[off * 2 := x, off * 2 + 1 := y]) o2 = slot h o2"
proof -
  have "push_bit 8 (ucast (word_of_int (v div 256) :: u8) :: u16) OR ucast (word_of_int v :: u8) = word_of_int v"
  proof (rule bit_word_eqI)
    fix n
    assume "n < LENGTH(16)"
    moreover have "bit (v div 256) (n - 8) = bit v n" if "8 \<le> n" for n
    proof -
      have "v div 256 = drop_bit 8 v" by (simp add: drop_bit_eq_div)
      then show ?thesis using that by (simp add: bit_drop_bit_eq)
    qed
    ultimately show "bit (push_bit 8 (ucast (word_of_int (v div 256) :: u8) :: u16) OR ucast (word_of_int v :: u8)) n =
        bit (word_of_int v :: u16) n"
      by (auto simp: bit_simps)
  qed
  then show "slot (h[off * 2 := word_of_int (v div 256), off * 2 + 1 := word_of_int v]) off = word_of_int v"
    using assms by (simp add: slot_def)
  show "o2 < 12 \<Longrightarrow> o2 \<noteq> off \<Longrightarrow> slot (h[off * 2 := x, off * 2 + 1 := y]) o2 = slot h o2"
  proof -
    assume "o2 \<noteq> off"
    then have "o2 * 2 \<noteq> off * 2" "o2 * 2 \<noteq> off * 2 + 1" "o2 * 2 + 1 \<noteq> off * 2" "o2 * 2 + 1 \<noteq> off * 2 + 1"
      by presburger+
    then show ?thesis by (simp add: slot_def)
  qed
qed

lemma DRZ_roundtrip:
  assumes "table_ok Type_Dev (devdata s)" "index < 8" "off < 12"
  shows "\<exists>s'. set_DRZ (0xF5 + word_of_nat index) v off s = Some (s', 0) \<and> table_ok Type_Dev (devdata s') \<and>
    get_DRZ (Some (devdata s')) index off = Some (word_of_int v) \<and>
    (\<forall>j o2. j < 8 \<and> o2 < 12 \<and> (j, o2) \<noteq> (index, off) \<longrightarrow>
      get_DRZ (Some (devdata s')) j o2 = get_DRZ (Some (devdata s)) j o2)"
proof -
  let ?i = "0xF5 + word_of_nat index :: u16"
  obtain it h where it: "get_place (devdata s) (at_u16 (devdata s) ?i) = Some it" "it_hex it = Some h" "length h = 24"
    using DRZ_present [OF assms(1,2)] by blast
  obtain n where r: "row_of Type_Dev ?i = Some (cfg ?i n 48 0 DF_HEX)" using DRZ_row [OF assms(2)] by blast
  let ?h = "h[off * 2 := word_of_int (v div 256), off * 2 + 1 := word_of_int v]"
  have f: "put_u16 off v it = Some (it\<lparr>it_hex := Some ?h\<rparr>)"
    using it assms(3) by (simp add: put_u16_def wr_def)
  from modify_id [where f = "put_u16 off v", OF assms(1) r it(1) f keeps_put_u16] obtain d where
    d: "modify_item (devdata s) (at_u16 (devdata s) ?i) (put_u16 off v) = Some d" "table_ok Type_Dev d"
      "get_place d (at_u16 d ?i) = Some (it\<lparr>it_hex := Some ?h\<rparr>)"
      "\<And>j. j \<noteq> ?i \<Longrightarrow> get_place d (at_u16 d j) = get_place (devdata s) (at_u16 (devdata s) j)" by blast
  have set: "set_DRZ ?i v off s = Some (s\<lparr>devdata := d\<rparr>, 0)"
  proof -
    have "\<not> (?i < 0xF5 \<or> ?i > 0xFC)" "(ucast ?i :: u32) = 0xF5 + word_of_nat index"
      using DRZ_ids [OF assms(2)] by blast+
    moreover have "at_id (devdata s) (0xF5 + word_of_nat index) = at_u16 (devdata s) ?i"
      using ucast_DRZ [OF assms(2)] by (simp add: at_id_u16)
    ultimately show ?thesis using d(1) by (simp add: set_DRZ_def dev_mod_def dev_id_def)
  qed
  have new: "get_DRZ (Some d) index o2 = Some (slot ?h (o2 mod 12))" for o2
    by (rule get_DRZ_slot [OF d(3)]) (use it(3) assms(2) in simp_all)
  have old: "get_DRZ (Some (devdata s)) index o2 = Some (slot h (o2 mod 12))" for o2
    by (rule get_DRZ_slot [OF it assms(2)])
  have "get_DRZ (Some d) j o2 = get_DRZ (Some (devdata s)) j o2"
    if a: "j < 8" "o2 < 12" "(j, o2) \<noteq> (index, off)" for j o2
  proof (cases "j = index")
    case True
    with a new [of o2] old [of o2] slot_put(2) [OF it(3) assms(3), of o2] show ?thesis by simp
  next
    case False
    have "(word_of_nat j :: u16) \<noteq> word_of_nat index"
    proof
      assume "(word_of_nat j :: u16) = word_of_nat index"
      then have "unat (word_of_nat j :: u16) = unat (word_of_nat index :: u16)" by simp
      with a(1) assms(2) False show False by (simp add: unat_of_nat)
    qed
    then have ne: "0xF5 + word_of_nat j \<noteq> ?i" by simp
    obtain it2 h2 where it2: "get_place (devdata s) (at_u16 (devdata s) (0xF5 + word_of_nat j)) = Some it2"
      "it_hex it2 = Some h2" "length h2 = 24" using DRZ_present [OF assms(1) a(1)] by blast
    have "get_place d (at_u16 d (0xF5 + word_of_nat j)) = Some it2" using d(4) [OF ne] it2(1) by simp
    then show ?thesis
      using get_DRZ_slot [OF it2 a(1)] get_DRZ_slot [OF _ it2(2,3) a(1), of d] by simp
  qed
  then show ?thesis using set d(2) new [of off] slot_put(1) [OF it(3) assms(3)] assms(3)
    by (intro exI [of _ "s\<lparr>devdata := d\<rparr>"]) simp
qed

end
