(* ===== verification/Flow.thy ===== *)
theory Flow
  imports Waterlevel
begin

text \<open>
  The flow sensors, \<^verbatim>\<open>app/down/flow.cpp\<close>: \<^verbatim>\<open>Q1\<close> to \<^verbatim>\<open>Q8\<close>, the accumulated flows, and the alarm.
\<close>

definition flow_addbase :: "u32 \<Rightarrow> l64 \<Rightarrow> bool \<Rightarrow> App \<Rightarrow> (App \<times> int) option" where
  "flow_addbase i v clear s =
     (if clear then map_option (\<lambda>s'. (s', 0)) (dev_mod (dev_id s i) it_clear s)
      else if i \<ge> 0x28 \<and> i \<le> 0x2F then map_option (\<lambda>s'. (s', 0)) (dev_mod (dev_id s i) (set_val v) s)
      else if i \<ge> 0xFFA1 \<and> i \<le> 0xFFA8 then map_option (\<lambda>s'. (s', 0)) (dev_mod (dev_id s i) (set_val v) s)
      else Some (s, 1))"

fun flow_warn_loop :: "int \<Rightarrow> u32 \<Rightarrow> nat \<Rightarrow> App \<Rightarrow> App option" where
  "flow_warn_loop limit i 0 s = Some s"
| "flow_warn_loop limit i (Suc k) s = do {
     it \<leftarrow> get_place (devdata s) (dev_id s i);
     s1 \<leftarrow> (if sint (it_Value it) > limit then app_jia ''liuliang'' s else Some s);
     flow_warn_loop limit (i + 1) k s1 }"

definition flow_warn_check :: "App \<Rightarrow> App option" where
  "flow_warn_check s = do {
     limit \<leftarrow> runtime_Value s 0x42;
     if limit > 0 then flow_warn_loop limit 0x27 10 s else Some s }"

definition init_flow :: "int \<Rightarrow> App \<Rightarrow> App option" where
  "init_flow t s =
     (if is_diff_hour t (devdata_now s) then Some s
      else do { s1 \<leftarrow> dev_mod (dev_name s ''Q'') it_clear s; clear_from 0x28 8 s1 })"

definition flow_caculation :: "l64 \<Rightarrow> DataClassItemConfig \<Rightarrow> bool \<Rightarrow> bool \<Rightarrow> App \<Rightarrow> App option" where
  "flow_caculation wl pconfig result clear s = do {
     let i = (ucast (cfg_id pconfig) :: u32);
     s1 \<leftarrow> (if clear then map_option fst (flow_addbase i wl clear s)
            else if result
            then do {
              (a, r) \<leftarrow> flow_addbase i wl False s;
              b \<leftarrow> (if r = 1 then dev_mod (dev_id a i) (set_val wl) a else Some a);
              flow_warn_check b }
            else Some s);
     copy_val 0x27 0x28 s1 }"

definition flow_poll :: "int \<Rightarrow> App \<Rightarrow> App option" where
  "flow_poll t s =
     (let s0 = (if flow_last s = 0 then s\<lparr>flow_last := t\<rparr> else s);
          s1 = (if is_diff_hour (flow_last s0) t then s0\<lparr>flow_last := t\<rparr> else s0)
      in flow_warn_check s1)"

end
