(* ===== verification/Data_Save.thy ===== *)
theory Data_Save
  imports Bao Flow Settings
begin

text \<open>
  Start, stop, clearing and the data thread: the rest of \<^verbatim>\<open>app/dataprocess/data_save.cpp\<close>, with
  \<^verbatim>\<open>bao_clear\<close> and \<^verbatim>\<open>bao_init\<close> of \<^verbatim>\<open>zhudong_report.cpp\<close> (lines 11 to 75). What the settings file
  holds is an argument; the directories and the shell command of the backup are left out.
\<close>

section \<open>The reports of the station\<close>

text \<open>The names are UTF-8 texts.\<close>

definition name_dingshi :: string where
  "name_dingshi = [CHR 0xE5, CHR 0xAE, CHR 0x9A, CHR 0xE6, CHR 0x97, CHR 0xB6, CHR 0xE6, CHR 0x8A, CHR 0xA5]"

definition name_xiaoshi :: string where
  "name_xiaoshi = [CHR 0xE5, CHR 0xB0, CHR 0x8F, CHR 0xE6, CHR 0x97, CHR 0xB6, CHR 0xE6, CHR 0x8A, CHR 0xA5]"

definition name_jia :: string where
  "name_jia = [CHR 0xE5, CHR 0x8A, CHR 0xA0, CHR 0xE6, CHR 0x8A, CHR 0xA5]"

definition name_rain :: string where
  "name_rain = [CHR 0xE9, CHR 0x9B, CHR 0xA8, CHR 0xE9, CHR 0x87, CHR 0x8F] @ name_jia"

definition name_waterlevel :: string where
  "name_waterlevel = [CHR 0xE6, CHR 0xB0, CHR 0xB4, CHR 0xE4, CHR 0xBD, CHR 0x8D] @ name_jia"

definition name_liuliang :: string where
  "name_liuliang = [CHR 0xE6, CHR 0xB5, CHR 0x81, CHR 0xE9, CHR 0x87, CHR 0x8F] @ name_jia"

definition name_bu :: string where
  "name_bu = [CHR 0xE8, CHR 0xA1, CHR 0xA5, CHR 0xE6, CHR 0x8A, CHR 0xA5]"

definition name_lianlu :: string where
  "name_lianlu = [CHR 0xE9, CHR 0x93, CHR 0xBE, CHR 0xE8, CHR 0xB7, CHR 0xAF, CHR 0xE6, CHR 0x8A, CHR 0xA5]"

text \<open>\<open>t i\<close> is the time at which the \<open>i\<close>th object is made.\<close>

definition new_baos :: "(nat \<Rightarrow> int) \<Rightarrow> Bao list" where
  "new_baos t =
     [new_Bao BaoBase name_dingshi 0x32 TableNameDingshi [] (t 0),
      new_Bao CycleBaoBase name_xiaoshi 0x34 TableNameHour [] (t 1),
      new_Bao JiaBaoBase name_rain 0x33 TableNameJia ''jia'' (t 2),
      new_Bao JiaBaoBase name_waterlevel 0x33 TableNameJia ''jia'' (t 3),
      new_Bao JiaBaoBase name_liuliang 0x33 TableNameJia ''jia'' (t 4),
      new_Bao BuBaoBase name_bu 0 [] [] (t 5),
      new_Bao RawBao name_lianlu 0 [] [] (t 6)]"

fun bao_clear_loop :: "Host \<Rightarrow> Bao list \<Rightarrow> App \<Rightarrow> bool \<Rightarrow> App \<times> bool" where
  "bao_clear_loop h [] s result = (s, result)"
| "bao_clear_loop h (b # bs) s result =
     (let (s1, r) = bao_clearAll h b s in bao_clear_loop h bs s1 (result \<and> r))"

definition bao_clear :: "Host \<Rightarrow> Bao list \<Rightarrow> App \<Rightarrow> App \<times> bool" where
  "bao_clear h baos s = bao_clear_loop h baos s True"

text \<open>\<^verbatim>\<open>operator[]\<close> of a map adds a missing key.\<close>

definition jiabao_at :: "string \<Rightarrow> rtu_setting \<Rightarrow> string list \<times> rtu_setting" where
  "jiabao_at k r =
     (case map_of (rtu_jiabao r) k of
        Some v \<Rightarrow> (v, r)
      | None \<Rightarrow> ([], r\<lparr>rtu_jiabao := map_put k [] (rtu_jiabao r)\<rparr>))"

definition seconds_of :: "int \<Rightarrow> int \<Rightarrow> int option" where
  "seconds_of v unit = do { x \<leftarrow> l64_of (v * unit); Some (to_int32 (sint x)) }"

definition bao_init :: "Bao list \<Rightarrow> App \<Rightarrow> (Bao list \<times> App) option" where
  "bao_init baos s = do {
     d \<leftarrow> runtime_Value s 0x20; dingshi \<leftarrow> seconds_of d 3600;
     j \<leftarrow> runtime_Value s 0x21; jiabao \<leftarrow> seconds_of j 60;
     let (rain, r1) = jiabao_at ''rain'' (app_rtu s);
     let (water, r2) = jiabao_at ''waterlevel'' r1;
     case baos of
       [b0, b1, b2, b3, b4, b5, b6] \<Rightarrow>
         Some ([set_report_ids (rtu_dingshi (app_rtu s)) (set_interval dingshi 3 10 b0),
                set_report_ids (rtu_xiaoshi (app_rtu s)) (set_interval (60 * 60) 4 25 b1),
                set_report_ids rain (set_interval jiabao 5 40 b2),
                set_report_ids water (set_interval jiabao 5 55 b3),
                b4,
                set_interval (15 * 60) 6 70 b5,
                set_interval (5 * 60) (- 21) (- 20) b6], s\<lparr>app_rtu := r2\<rparr>)
     | _ \<Rightarrow> None }"

section \<open>Clearing and factory settings\<close>

definition data_memory_clear :: "Host \<Rightarrow> Bao list \<Rightarrow> App \<Rightarrow> App \<times> bool" where
  "data_memory_clear h baos s =
     (let (s1, r1) = bao_clear h baos s;
          (n, tab) = db_delall (h_up h) (db_important (app_db s1));
          s2 = s1\<lparr>app_db := (app_db s1)\<lparr>db_important := tab\<rparr>\<rparr>
      in (s2\<lparr>devdata := clearAll (devdata s2), app_A := clearAll (app_A s2)\<rparr>, r1 \<and> n \<noteq> 0))"

text \<open>\<open>dflt\<close> is what \<^verbatim>\<open>load\<close> reads from the file of factory settings, \<open>stack\<close> what the stack holds.\<close>

definition data_set_factory :: "bytes \<Rightarrow> rtu_setting \<Rightarrow> App \<Rightarrow> (App \<times> bool) option" where
  "data_set_factory stack dflt s = do {
     p \<leftarrow> param_recovery stack dflt (param s);
     r \<leftarrow> runtime_recovery dflt (runtime s);
     let rtu1 = dflt\<lparr>rtu_dirty := True\<rparr>;
     rtu2 \<leftarrow> param_save p rtu1;
     rtu3 \<leftarrow> runtime_save r rtu2;
     Some (s\<lparr>param := p, runtime := r, app_rtu := rtu3, app_file := rtu3, yanshichongqi := True\<rparr>, True) }"

section \<open>Start and stop\<close>

definition startup_recovery :: "Host \<Rightarrow> bytes \<Rightarrow> rtu_setting \<Rightarrow> int \<Rightarrow> App \<Rightarrow> App option" where
  "startup_recovery h stack loaded t s0 = do {
     let s = s0\<lparr>app_rtu := loaded\<rparr>;
     (s1, n) \<leftarrow> devdata_recovery h t s;
     p \<leftarrow> param_recovery stack (app_rtu s1) (param s1);
     r \<leftarrow> runtime_recovery (app_rtu s1) (runtime s1);
     let s2 = s1\<lparr>param := p, runtime := r\<rparr>;
     s3 \<leftarrow> init_rain h t s2;
     s4 \<leftarrow> init_waterlevel t s3;
     s5 \<leftarrow> init_flow t s4;
     a \<leftarrow> init_appdata (app_A s5);
     Some (s5\<lparr>app_A := a\<rparr>) }"

definition save_if_need :: "App \<Rightarrow> App" where
  "save_if_need s = (let (r, f) = data_save_if_need (app_rtu s) (app_file s) in s\<lparr>app_rtu := r, app_file := f\<rparr>)"

definition powerdown_save :: "Host \<Rightarrow> int \<Rightarrow> App \<Rightarrow> App option" where
  "powerdown_save h t s = do {
     s1 \<leftarrow> rainacc_save h t s;
     s2 \<leftarrow> devdata_save h t s1;
     Some (save_if_need s2) }"

section \<open>The data thread\<close>

definition LOG_TIME_INTERVAL :: int where
  "LOG_TIME_INTERVAL = 300"

text \<open>What one turn of the loop leads to: the next turn, or the end of the program.\<close>

datatype after_turn = Goes_on int | Quits

definition frozen :: "int \<Rightarrow> int" where
  "frozen t = t - t smod LOG_TIME_INTERVAL"

text \<open>\<open>prev\<close> is the variable \<^verbatim>\<open>last\<close>, \<open>need_updata\<close> the flag that the signal handler sets.\<close>

definition data_process_turn :: "Host \<Rightarrow> int \<Rightarrow> bool \<Rightarrow> int \<Rightarrow> App \<Rightarrow> (App \<times> after_turn) option" where
  "data_process_turn h tnow need_updata prev s = do {
     s1 \<leftarrow> (if prev \<noteq> frozen tnow then devdata_save h tnow s else Some s);
     let prev1 = frozen tnow;
     s2 \<leftarrow> waterlevel_poll tnow s1;
     s3 \<leftarrow> flow_poll tnow s2;
     s4 \<leftarrow> rain_poll h tnow s3;
     let s5 = save_if_need s4;
     if need_updata
     then do { s6 \<leftarrow> powerdown_save h tnow s5; Some (s6, Quits) }
     else if yanshichongqi s5
     then do { s6 \<leftarrow> rainacc_save h tnow s5; s7 \<leftarrow> devdata_save h tnow s6; Some (s7, Quits) }
     else Some (s5, Goes_on prev1) }"

end
