(* ===== verification/Center.thy ===== *)
theory Center
  imports Data_Save Send_Mode
begin

text \<open>
  The commands of the centre, \<^verbatim>\<open>app/up/center/center.cpp\<close> and \<^verbatim>\<open>center_process.cpp\<close>: each command
  reads its data from the received packet, writes its answer into the static buffer \<^verbatim>\<open>centerdata\<close>
  (4096 bytes, which keep what earlier answers left there), and the answer is sent in mode M4. The
  names that clash with those of the library functions carry the prefix \<^verbatim>\<open>center_\<close>. Texts for the
  log are left out.
\<close>

section \<open>State\<close>

text \<open>\<open>ce_default\<close> is the file of factory settings, \<open>ce_stack\<close> what uninitialised arrays hold,
  \<open>ce_now\<close> the time the command sees, \<open>ce_clock\<close> what the system clock was last set to.\<close>

record CenterEnv =
  ce_host :: Host
  ce_default :: rtu_setting
  ce_stack :: bytes
  ce_now :: int

record Center =
  ce_app :: App
  ce_baos :: "Bao list"
  ce_out :: bytes
  ce_second :: bool
  ce_clock :: "int option"

definition new_centerdata :: bytes where
  "new_centerdata = replicate 4096 0"

text \<open>A header of the answer; it reads the counters and may round the observation time.\<close>

definition answer_header :: "CenterEnv \<Rightarrow> int \<Rightarrow> Center \<Rightarrow> (Header \<times> Center) option" where
  "answer_header e now c = do {
     (hd1, hs) \<leftarrow> new_Header (param (ce_app c)) now (app_head (ce_app c));
     Some (hd1, c\<lparr>ce_app := (ce_app c)\<lparr>app_head := hs\<rparr>\<rparr>) }"

definition put_front3 :: "CenterEnv \<Rightarrow> int \<Rightarrow> Center \<Rightarrow> (Center \<times> int) option" where
  "put_front3 e now c = do {
     (hd1, c1) \<leftarrow> answer_header e now c;
     let w = Header_to_array_front3 (h_tz (ce_host e)) hd1;
     out \<leftarrow> memcpy_at 0 w (ce_out c1);
     Some (c1\<lparr>ce_out := out\<rparr>, int (length w)) }"

section \<open>Queries of data\<close>

definition put_body ::
    "CenterEnv \<Rightarrow> (DataClass \<Rightarrow> 'n \<Rightarrow> place) \<Rightarrow> 'n list \<Rightarrow> Center \<Rightarrow> (Center \<times> int) option" where
  "put_body e look items c = do {
     (hd1, c1) \<leftarrow> answer_header e (ce_now e) c;
     (out, n) \<leftarrow> zw_to_array (h_tz (ce_host e)) look (devdata (ce_app c1))
       (zw_init \<lparr>zw_names = [], zw_header = hd1\<rparr> items) (replicate 1024 0) (ce_out c1) 0;
     Some (c1\<lparr>ce_out := out\<rparr>, n) }"

definition get_shishi_all :: "CenterEnv \<Rightarrow> Center \<Rightarrow> (Center \<times> int) option" where
  "get_shishi_all e c = put_body e at_name (rtu_shishi (app_rtu (ce_app c))) c"

definition get_shiduan_all :: "int \<Rightarrow> int \<Rightarrow> int \<Rightarrow> u8 \<Rightarrow> Center \<Rightarrow> Center \<times> int" where
  "get_shiduan_all start stop step i c = (c, 0)"

text \<open>The value of one packed byte.\<close>

definition bcd_at :: "bytes \<Rightarrow> nat \<Rightarrow> int option" where
  "bcd_at d i = map_option (\<lambda>w. int (unat w)) (bcd2hex (drop i d) 1)"

definition hour_at :: "int \<Rightarrow> bytes \<Rightarrow> nat \<Rightarrow> int option" where
  "hour_at tz d i = do {
     y \<leftarrow> bcd_at d i; mo \<leftarrow> bcd_at d (i + 1); da \<leftarrow> bcd_at d (i + 2); ho \<leftarrow> bcd_at d (i + 3);
     Some (mktime tz \<lparr>tm_year = y + 100, tm_mon = mo - 1, tm_mday = da, tm_hour = ho, tm_min = 0, tm_sec = 0\<rparr>) }"

definition get_shiduan :: "CenterEnv \<Rightarrow> bytes \<Rightarrow> int \<Rightarrow> Center \<Rightarrow> (Center \<times> int) option" where
  "get_shiduan e datain len c = do {
     start \<leftarrow> hour_at (h_tz (ce_host e)) datain 8;
     stop \<leftarrow> hour_at (h_tz (ce_host e)) datain 12;
     d \<leftarrow> bcd_at datain 16; ho \<leftarrow> bcd_at datain 17; mi \<leftarrow> bcd_at datain 18;
     i \<leftarrow> rd datain 19;
     Some (get_shiduan_all start stop (d * 24 * 3600 + ho * 3600 + mi * 60) i c) }"

definition center_rengong :: "CenterEnv \<Rightarrow> Center \<Rightarrow> (Center \<times> int) option" where
  "center_rengong e c = put_body e at_name [] c"

definition get_zhidingids_shishi :: "CenterEnv \<Rightarrow> bytes \<Rightarrow> Center \<Rightarrow> (Center \<times> int) option" where
  "get_zhidingids_shishi e ids c = put_body e at_id (map ucast ids) c"

text \<open>The array \<^verbatim>\<open>ids\<close> has two hundred places.\<close>

fun zhiding_loop :: "bytes \<Rightarrow> nat \<Rightarrow> nat \<Rightarrow> bytes \<Rightarrow> bytes option" where
  "zhiding_loop datain i 0 ids = Some ids"
| "zhiding_loop datain i (Suc k) ids = do {
     b \<leftarrow> rd datain (8 + i * 2);
     ids' \<leftarrow> wr ids i b;
     zhiding_loop datain (Suc i) k ids' }"

definition get_zhiding_ids :: "CenterEnv \<Rightarrow> bytes \<Rightarrow> int \<Rightarrow> Center \<Rightarrow> (Center \<times> int) option" where
  "get_zhiding_ids e datain len c =
     (let count = (len - 8) sdiv 2
      in if count \<le> 0 then Some (c, 0)
         else do {
           ids \<leftarrow> zhiding_loop datain 0 (nat count) (replicate 200 0);
           get_zhidingids_shishi e (take (nat count) ids) c })"

section \<open>The parameter and the runtime table\<close>

text \<open>The loop of \<^verbatim>\<open>set_param\<close> and of \<^verbatim>\<open>set_runtime\<close> over the data from \<open>offset\<close>: the table, the
  identifiers stored so far, and whether the loop ran to its end. The array has two hundred places;
  items are found by a byte.\<close>

function set_items :: "bytes \<Rightarrow> int \<Rightarrow> int \<Rightarrow> bytes \<Rightarrow> DataClass \<Rightarrow> (DataClass \<times> bytes \<times> bool) option" where
  "set_items datain n offset ids d =
     (if 0 \<le> offset \<and> offset < n
      then (case rd datain (nat offset) of
              None \<Rightarrow> None
            | Some b \<Rightarrow>
              if length ids < 200
              then (case item_fromreport d (at_id d (ucast b)) (drop (nat offset) datain) of
                      None \<Rightarrow> None
                    | Some (d', ilen) \<Rightarrow>
                        if ilen > 0 then set_items datain n (offset + 2 + ilen) (ids @ [b]) d'
                        else Some (d', ids @ [b], False))
              else None)
      else Some (d, ids, True))"
  by auto
termination by (relation "measure (\<lambda>(datain, n, offset, ids, d). nat (n - offset))") auto

declare set_items.simps [simp del]

text \<open>The loop that reads the items back: \<open>toreport\<close> writes straight into the answer.\<close>

fun reread :: "DataClass \<Rightarrow> bytes \<Rightarrow> bytes \<Rightarrow> int \<Rightarrow> (bytes \<times> int) option" where
  "reread d [] out pos = Some (out, pos)"
| "reread d (b # bs) out pos = do {
     it \<leftarrow> get_place d (at_id d (ucast b));
     (w, ilen) \<leftarrow> toreport it;
     out' \<leftarrow> memcpy_at (nat pos) w out;
     reread d bs out' (if ilen > 0 then pos + ilen else pos) }"

definition put_items :: "CenterEnv \<Rightarrow> (App \<Rightarrow> DataClass) \<Rightarrow> bytes \<Rightarrow> Center \<Rightarrow> (Center \<times> int) option" where
  "put_items e tab ids c = do {
     (c1, n) \<leftarrow> put_front3 e (ce_now e) c;
     (out, pos) \<leftarrow> reread (tab (ce_app c1)) ids (ce_out c1) n;
     Some (c1\<lparr>ce_out := out\<rparr>, pos) }"

definition set_param :: "CenterEnv \<Rightarrow> bytes \<Rightarrow> int \<Rightarrow> Center \<Rightarrow> (Center \<times> int) option" where
  "set_param e datain sz c = do {
     (p, ids, ok) \<leftarrow> set_items datain sz 8 [] (param (ce_app c));
     let c1 = c\<lparr>ce_app := (ce_app c)\<lparr>param := p\<rparr>\<rparr>;
     if \<not> ok then Some (c1, 0)
     else do {
       (c2, n) \<leftarrow> put_items e param ids c1;
       r \<leftarrow> param_save (param (ce_app c2)) (app_rtu (ce_app c2));
       Some (c2\<lparr>ce_app := (ce_app c2)\<lparr>app_rtu := r\<rparr>\<rparr>, n) } }"

definition set_runtime :: "CenterEnv \<Rightarrow> bytes \<Rightarrow> int \<Rightarrow> Center \<Rightarrow> (Center \<times> int) option" where
  "set_runtime e datain sz c = do {
     (p, ids, ok) \<leftarrow> set_items datain sz 8 [] (runtime (ce_app c));
     let c1 = c\<lparr>ce_app := (ce_app c)\<lparr>runtime := p\<rparr>\<rparr>;
     if \<not> ok then Some (c1, 0)
     else do {
       (c2, n) \<leftarrow> put_items e runtime ids c1;
       r \<leftarrow> runtime_save (runtime (ce_app c2)) (app_rtu (ce_app c2));
       Some (c2\<lparr>ce_app := (ce_app c2)\<lparr>app_rtu := r\<rparr>\<rparr>, n) } }"

text \<open>Every second byte of the data behind the first eight is an identifier.\<close>

definition id_bytes :: "bytes \<Rightarrow> int \<Rightarrow> bytes option" where
  "id_bytes datain sz =
     (let n = nat ((sz - 8) sdiv 2)
      in if n = 0 \<or> 8 + (n - 1) * 2 < length datain then Some (map (\<lambda>i. datain ! (8 + i * 2)) [0..<n]) else None)"

definition get_param :: "CenterEnv \<Rightarrow> bytes \<Rightarrow> int \<Rightarrow> Center \<Rightarrow> (Center \<times> int) option" where
  "get_param e datain sz c = do {
     ids \<leftarrow> id_bytes datain sz;
     put_items e param ids c }"

text \<open>The length of a report is added to those before it, so the place of the next one moves on by
  their sum.\<close>

fun runtime_reread :: "DataClass \<Rightarrow> bytes \<Rightarrow> bytes \<Rightarrow> int \<Rightarrow> int \<Rightarrow> (bytes \<times> int) option" where
  "runtime_reread d [] out pos ilen = Some (out, pos)"
| "runtime_reread d (b # bs) out pos ilen = do {
     it \<leftarrow> get_place d (at_id d (ucast b));
     if cfg_len (config it) \<noteq> 0
     then do {
       (w, l) \<leftarrow> toreport it;
       out' \<leftarrow> memcpy_at (nat pos) w out;
       runtime_reread d bs out' (pos + (ilen + l)) (ilen + l) }
     else runtime_reread d bs out pos ilen }"

definition get_runtime :: "CenterEnv \<Rightarrow> bytes \<Rightarrow> int \<Rightarrow> Center \<Rightarrow> (Center \<times> int) option" where
  "get_runtime e datain sz c = do {
     ids \<leftarrow> id_bytes datain sz;
     (c1, n) \<leftarrow> put_front3 e (ce_now e) c;
     (out, pos) \<leftarrow> runtime_reread (runtime (ce_app c1)) ids (ce_out c1) n 0;
     Some (c1\<lparr>ce_out := out\<rparr>, pos) }"

section \<open>State of the station\<close>

definition get_shishi_motor :: "Center \<Rightarrow> Center \<times> int" where
  "get_shishi_motor c = (c, 0)"

definition VERSION_BUILD_TIME :: string where
  "VERSION_BUILD_TIME = ''V1.1.13_220802_17.03.34''"

definition get_version :: "CenterEnv \<Rightarrow> Center \<Rightarrow> (Center \<times> int) option" where
  "get_version e c = do {
     let version = bytes_of VERSION_BUILD_TIME;
     (c1, n) \<leftarrow> put_front3 e (ce_now e) c;
     out1 \<leftarrow> wr (ce_out c1) (nat n) (word_of_nat (length version));
     out2 \<leftarrow> memcpy_at (nat n + 1) version out1;
     Some (c1\<lparr>ce_out := out2\<rparr>, n + 1 + int (length version)) }"

definition get_state_warn_info :: "CenterEnv \<Rightarrow> Center \<Rightarrow> (Center \<times> int) option" where
  "get_state_warn_info e c = do {
     (c1, n) \<leftarrow> put_front3 e (ce_now e) c;
     it \<leftarrow> get_place (devdata (ce_app c1)) (dev_name (ce_app c1) ''ZT'');
     (w, l) \<leftarrow> toreport it;
     out \<leftarrow> memcpy_at (nat n) w (ce_out c1);
     hx \<leftarrow> it_hex it;
     sw \<leftarrow> StateWarn_load hx;
     Some (c1\<lparr>ce_out := out\<rparr>, n + l) }"

definition clear_history :: "CenterEnv \<Rightarrow> bytes \<Rightarrow> int \<Rightarrow> Center \<Rightarrow> (Center \<times> int) option" where
  "clear_history e datain len c =
     (let (s, r) = data_memory_clear (ce_host e) (ce_baos c) (ce_app c)
      in put_front3 e (ce_now e) (c\<lparr>ce_app := s\<rparr>))"

definition reset_to_factory :: "CenterEnv \<Rightarrow> bytes \<Rightarrow> int \<Rightarrow> Center \<Rightarrow> (Center \<times> int) option" where
  "reset_to_factory e datain len c = do {
     (s, r) \<leftarrow> data_set_factory (ce_stack e) (ce_default e) (ce_app c);
     put_front3 e (ce_now e) (c\<lparr>ce_app := s\<rparr>) }"

section \<open>Password and clock\<close>

definition be16_at :: "bytes \<Rightarrow> nat \<Rightarrow> u16 option" where
  "be16_at d i = do { a \<leftarrow> rd d i; b \<leftarrow> rd d (i + 1); Some (push_bit 8 (ucast a) OR ucast b) }"

definition change_password :: "CenterEnv \<Rightarrow> bytes \<Rightarrow> int \<Rightarrow> Center \<Rightarrow> (Center \<times> int) option" where
  "change_password e datain len c = do {
     pw \<leftarrow> get_place (param (ce_app c)) (at_id (param (ce_app c)) 0x03);
     opass \<leftarrow> be16_at datain 10;
     npass \<leftarrow> be16_at datain 14;
     b \<leftarrow> rd datain 8;
     if b = 0x03 \<and> opass = ucast (it_val pw)
     then do {
       (hd1, c1) \<leftarrow> answer_header e (ce_now e) c;
       p \<leftarrow> modify_item (param (ce_app c1)) (at_id (param (ce_app c1)) 0x03) (set_val (ucast npass));
       r \<leftarrow> param_save p (app_rtu (ce_app c1));
       let c2 = c1\<lparr>ce_app := (ce_app c1)\<lparr>param := p, app_rtu := r\<rparr>\<rparr>;
       pw2 \<leftarrow> get_place p (at_id p 0x03);
       let np = (ucast (it_val pw2) :: u16);
       let w = Header_to_array_front3 (h_tz (ce_host e)) hd1
                 @ [0x03, 0x10, ucast (drop_bit 8 np), ucast np];
       out \<leftarrow> memcpy_at 0 w (ce_out c2);
       Some (c2\<lparr>ce_out := out\<rparr>, int (length w)) }
     else Some (c, 0) }"

text \<open>\<^verbatim>\<open>second_time\<close> lets the next request through, whatever its time.\<close>

definition set_time :: "CenterEnv \<Rightarrow> bytes \<Rightarrow> int \<Rightarrow> Center \<Rightarrow> (Center \<times> int) option" where
  "set_time e datain len c = do {
     yy \<leftarrow> bcd_at datain 2; mo \<leftarrow> bcd_at datain 3; da \<leftarrow> bcd_at datain 4;
     ho \<leftarrow> bcd_at datain 5; mi \<leftarrow> bcd_at datain 6; se \<leftarrow> bcd_at datain 7;
     let t = TimeSet (h_tz (ce_host e)) (yy + 2000) mo da ho mi se;
     if \<not> ce_second c \<and> (t > ce_now e + 300 \<or> t < ce_now e - 300)
     then Some (c\<lparr>ce_second := True\<rparr>, -1)
     else put_front3 e t (c\<lparr>ce_second := False, ce_clock := Some t\<rparr>) }"

definition center_get_time :: "CenterEnv \<Rightarrow> Center \<Rightarrow> (Center \<times> int) option" where
  "center_get_time e c = put_front3 e (ce_now e) c"

text \<open>The commands without an effect.\<close>

definition center_nothing :: "bytes \<Rightarrow> int \<Rightarrow> Center \<Rightarrow> Center \<times> int" where
  "center_nothing datain len c = (c, 0)"

section \<open>Dispatch\<close>

definition WAITMS :: int where
  "WAITMS = 4000"

text \<open>The surroundings of a transmission.\<close>

record 'd Net =
  nt_mx :: "'d MxDevice"
  nt_env :: "'d env"

definition send_report ::
    "'d Net \<Rightarrow> MXType \<Rightarrow> int \<Rightarrow> bytes \<Rightarrow> int \<Rightarrow> int \<Rightarrow> int \<Rightarrow> App \<Rightarrow> 'd SendMode \<Rightarrow> ('d SendMode \<times> int) option" where
  "send_report net ty cm dat n psize ms s sm = do {
     loc \<leftarrow> get_place (param s) (at_id (param s) 0x02);
     pw \<leftarrow> get_place (param s) (at_id (param s) 0x03);
     sm_wait (nt_mx net) (nt_env net) (it_val loc) (it_val pw) ms
       (sm_init ty (get_current_remote (app_head s)) cm dat n psize sm) }"

text \<open>The serial number goes up, past zero.\<close>

definition next_serial :: "App \<Rightarrow> 'd SendMode \<Rightarrow> App \<times> 'd SendMode" where
  "next_serial s sm =
     (let k = sm_seial_number sm + 1;
          sn = (if k = 0 then 1 else k)
      in (s\<lparr>app_head := snd (set_current_liushui (app_head s) (int (unat sn)))\<rparr>, sm\<lparr>sm_seial_number := sn\<rparr>))"

definition ud_rlocal :: "bytes \<Rightarrow> ul64" where
  "ud_rlocal p = word_of_nat (le_val (take 8 (drop off_rlocal p)))"

definition ud_rpasswd :: "bytes \<Rightarrow> u16" where
  "ud_rpasswd p = word_of_nat (le_val (take 2 (drop off_rpasswd p)))"

text \<open>\<^verbatim>\<open>len\<close> after its bytes were turned round.\<close>

definition ud_dlen :: "bytes \<Rightarrow> u16" where
  "ud_dlen p = word_of_nat (le_val (take 2 (drop 11 p)))"

text \<open>The data a command reads start at \<^verbatim>\<open>data\<close> and end with the packet structure.\<close>

definition ud_in :: "bytes \<Rightarrow> bytes" where
  "ud_in p = drop 14 p"

definition center_command :: "CenterEnv \<Rightarrow> int \<Rightarrow> bytes \<Rightarrow> int \<Rightarrow> Center \<Rightarrow> (Center \<times> int) option option" where
  "center_command e cm datain inlen c =
     (if cm = 0x37 then Some (get_shishi_all e c)
      else if cm = 0x38 then Some (get_shiduan e datain inlen c)
      else if cm = 0x39 then Some (center_rengong e c)
      else if cm = 0x3A then Some (get_zhiding_ids e datain inlen c)
      else if cm = 0x40 then Some (set_param e datain inlen c)
      else if cm = 0x41 then Some (get_param e datain inlen c)
      else if cm = 0x42 then Some (set_runtime e datain inlen c)
      else if cm = 0x43 then Some (get_runtime e datain inlen c)
      else if cm = 0x44 then Some (Some (get_shishi_motor c))
      else if cm = 0x45 then Some (get_version e c)
      else if cm = 0x46 then Some (get_state_warn_info e c)
      else if cm = 0x47 then Some (clear_history e datain inlen c)
      else if cm = 0x48 then Some (reset_to_factory e datain inlen c)
      else if cm = 0x49 then Some (change_password e datain inlen c)
      else if cm = 0x4A then Some (set_time e datain inlen c)
      else if cm \<in> {0x4B, 0x4C, 0x4D, 0x4E, 0x4F, 0x50} then Some (Some (center_nothing datain inlen c))
      else if cm = 0x51 then Some (center_get_time e c)
      else None)"

definition center_answer ::
    "CenterEnv \<Rightarrow> 'd Net \<Rightarrow> int \<Rightarrow> int \<Rightarrow> int \<Rightarrow> Center \<Rightarrow> 'd SendMode \<Rightarrow> (Center \<times> 'd SendMode) option" where
  "center_answer e net cm reply inlen c sm =
     (case center_command e cm (ud_in (ud_p (sm_packet sm))) inlen c of
        None \<Rightarrow> Some (c, sm)
      | Some r \<Rightarrow> do {
          (c1, len) \<leftarrow> r;
          (sm1, x) \<leftarrow> send_report net M4 reply (ce_out c1) len PDSIZE WAITMS (ce_app c1) sm;
          Some (c1, sm1) })"

text \<open>The case of the factory settings runs on into that of the password. The code reads the packet
  again where it uses it: another one may have come in while an answer was sent.\<close>

definition center_process ::
    "CenterEnv \<Rightarrow> 'd Net \<Rightarrow> Center \<Rightarrow> 'd SendMode \<Rightarrow> (Center \<times> 'd SendMode \<times> int) option" where
  "center_process e net c sm = do {
     let p = ud_p (sm_packet sm);
     let inlen = int (unat (ud_dlen p AND 0xFFF));
     loc \<leftarrow> get_place (param (ce_app c)) (at_id (param (ce_app c)) 0x02);
     pw \<leftarrow> get_place (param (ce_app c)) (at_id (param (ce_app c)) 0x03);
     if ud_rlocal p \<noteq> it_val loc then Some (c, sm, -1)
     else if (ucast (ud_rpasswd p) :: l64) \<noteq> it_val pw then Some (c, sm, -1)
     else if ud_dlen p AND 0x8000 = 0x8000
     then do {
       let cm = int (unat (ud_cmd p));
       let (s1, sm1) = (if cm \<noteq> 0x2F \<and> cm \<ge> 0x37 then next_serial (ce_app c) sm else (ce_app c, sm));
       let c1 = c\<lparr>ce_app := s1\<rparr>;
       (c2, sm2) \<leftarrow> center_answer e net cm cm inlen c1 sm1;
       (c3, sm3) \<leftarrow> (if cm = 0x48
                   then center_answer e net 0x49 (int (unat (ud_cmd (ud_p (sm_packet sm2))))) inlen c2 sm2
                   else Some (c2, sm2));
       Some (c3, sm3, 0) }
     else Some (c, sm, 0) }"

end
