(* ===== verification/Thread_Up.thy ===== *)
theory Thread_Up
  imports Center
begin

text \<open>
  The reporting thread: \<^verbatim>\<open>app/up/report/zhudong_report.cpp\<close> (the turn over all reports, the state
  of the channel) and \<^verbatim>\<open>app/up/thread_up.cpp\<close> (the choice of a channel, one turn of the thread). The
  two transmissions are the TCP client and a serial port; \<open>up_dev\<close> says whether the pointer \<^verbatim>\<open>dev\<close>
  of the first is set. The data of the program do not change while a report is sent, but the devices
  do, as their environments say.
\<close>

section \<open>State\<close>

record Up =
  up_center :: Center
  up_tcp :: "tcp_client SendMode"
  up_dev :: bool
  up_serial :: "SerialPort SendMode"
  up_inited :: bool

text \<open>\<open>ue_t1\<close> and \<open>ue_t2\<close> are the threads a connection makes, \<open>ue_ms\<close> the millisecond clock, and
  \<open>ue_clk i\<close> the readings of the clock during the turn of the \<open>i\<close>th report.\<close>

record UpEnv =
  ue_center :: CenterEnv
  ue_tcp :: "tcp_client Net"
  ue_serial :: "SerialPort Net"
  ue_t1 :: "int option"
  ue_t2 :: "int option"
  ue_ms :: int
  ue_clk :: "nat \<Rightarrow> nat \<Rightarrow> int"

datatype channel = No_Channel | Tcp_Channel | Serial_Channel

definition up_app :: "Up \<Rightarrow> App" where
  "up_app u = ce_app (up_center u)"

definition put_app :: "App \<Rightarrow> Up \<Rightarrow> Up" where
  "put_app s u = u\<lparr>up_center := (up_center u)\<lparr>ce_app := s\<rparr>\<rparr>"

section \<open>The turn over the reports\<close>

definition report_by_tcp :: "UpEnv \<Rightarrow> (nat \<Rightarrow> int) \<Rightarrow> Bao \<Rightarrow> bytes \<Rightarrow> Up \<Rightarrow> (Bao \<times> Up) option" where
  "report_by_tcp e clk b buf u = do {
     let h = ce_host (ue_center e);
     let (s1, sm1) = (if bo_kind b \<noteq> RawBao then next_serial (up_app u) (up_tcp u) else (up_app u, up_tcp u));
     (buf2, rs, b2, s2) \<leftarrow> report_data h (clk 5) b s1 buf;
     (sm2, r) \<leftarrow> (if bo_kind b2 = RawBao then send_report (ue_tcp e) M1 0x2F buf2 rs rs 2000 s2 sm1
                  else send_report (ue_tcp e) M2 (bo_report_cmd b2) buf2 rs rs 2000 s2 sm1);
     let s3 = (if r \<noteq> 0 then fst (report_fail h (clk 6) b2 s2) else fst (report_ok h b2 s2));
     Some (fst (report_check True b2), put_app s3 (u\<lparr>up_tcp := sm2\<rparr>)) }"

definition bao_turn :: "UpEnv \<Rightarrow> channel \<Rightarrow> (nat \<Rightarrow> int) \<Rightarrow> Bao \<Rightarrow> Up \<Rightarrow> (Bao \<times> Up) option" where
  "bao_turn e ch clk b u = do {
     let h = ce_host (ue_center e);
     (b1, s1) \<leftarrow> bao_poll_one h clk b (up_app u);
     if \<not> snd (report_check False b1) then Some (b1, put_app s1 u)
     else do {
       (buf, rs, b2, s2) \<leftarrow> report_data h (clk 4) b1 s1 (replicate 1000 0);
       case ch of
         Serial_Channel \<Rightarrow> Some (fst (report_check True b2), put_app (fst (report_fail h (clk 6) b2 s2)) u)
       | No_Channel \<Rightarrow> None
       | Tcp_Channel \<Rightarrow> report_by_tcp e clk b2 buf (put_app s2 u) } }"

fun bao_poll_loop :: "UpEnv \<Rightarrow> channel \<Rightarrow> nat \<Rightarrow> Bao list \<Rightarrow> Up \<Rightarrow> (Bao list \<times> Up) option" where
  "bao_poll_loop e ch i [] u = Some ([], u)"
| "bao_poll_loop e ch i (b # bs) u = do {
     (b1, u1) \<leftarrow> bao_turn e ch (ue_clk e i) b u;
     (bs1, u2) \<leftarrow> bao_poll_loop e ch (Suc i) bs u1;
     Some (b1 # bs1, u2) }"

definition bao_poll :: "UpEnv \<Rightarrow> channel \<Rightarrow> Up \<Rightarrow> Up option" where
  "bao_poll e ch u = do {
     (bs, u1) \<leftarrow> bao_poll_loop e ch 0 (ce_baos (up_center u)) u;
     Some (u1\<lparr>up_center := (up_center u1)\<lparr>ce_baos := bs\<rparr>\<rparr>) }"

section \<open>The state of the channel\<close>

definition get_work_state :: "App \<Rightarrow> MXType option" where
  "get_work_state s = do {
     it \<leftarrow> get_place (param s) (at_id (param s) 0x0C);
     let b = (ucast (it_val it) :: u8);
     Some (if b = 1 then M1 else if b = 2 then M2 else if b = 3 then M3 else M4) }"

definition ms_later :: "int \<Rightarrow> ul64" where
  "ms_later ms = word_of_int (ms + 600000)"

text \<open>A device that is not set is a null pointer.\<close>

definition communication_state :: "UpEnv \<Rightarrow> Up \<Rightarrow> Up option" where
  "communication_state e u =
     (let sm = up_tcp u
      in if sm_etx sm > etx_code ETX_NULL
         then if sm_etx sm = etx_code ETX_ESC
              then (if up_dev u
                    then Some (u\<lparr>up_tcp := sm\<lparr>sm_dev := fst (mxtcp_keepalive (sm_dev sm) True), sm_utimeout := ms_later (ue_ms e)\<rparr>\<rparr>)
                    else None)
              else if sm_etx sm = etx_code ETX_EOT
              then (if up_dev u
                    then Some (u\<lparr>up_tcp := sm\<lparr>sm_dev := fst (mxtcp_keepalive (sm_dev sm) False), sm_utimeout := ms_later (ue_ms e)\<rparr>\<rparr>)
                    else None)
              else Some u
         else if sm_utimeout sm < word_of_int (ue_ms e)
         then do {
           w \<leftarrow> get_work_state (up_app u);
           if (w = M1 \<or> w = M2) \<and> sm_utimeout sm \<noteq> 0
           then (if up_dev u
                 then Some (u\<lparr>up_tcp := sm\<lparr>sm_dev := fst (mxtcp_close (fst (mxtcp_keepalive (sm_dev sm) False))),
                                           sm_utimeout := ms_later (ue_ms e)\<rparr>\<rparr>)
                 else None)
           else Some (u\<lparr>up_tcp := sm\<lparr>sm_utimeout := ms_later (ue_ms e)\<rparr>\<rparr>) }
         else Some u)"

section \<open>The choice of a channel\<close>

text \<open>\<open>None\<close> is an access behind the end of a vector, \<open>Some None\<close> the null pointer. The tests admit
  an index that equals the size.\<close>

definition get_ip_port :: "rtu_setting \<Rightarrow> int \<Rightarrow> (string \<times> u8) option option" where
  "get_ip_port r i =
     (if i < 0x04 \<or> i > 0x0B then Some None
      else (let index = nat (i - 0x04)
            in if index > length (rtu_remote r) then Some None
               else if index div 2 > length (rtu_center r) then Some None
               else do {
                 c \<leftarrow> rd (rtu_center r) (index div 2);
                 p \<leftarrow> rd (rtu_remote r) index;
                 Some (Some (p, word_of_int c)) }))"

definition get_yaosu :: "App \<Rightarrow> bytes option" where
  "get_yaosu s = do {
     it \<leftarrow> get_place (param s) (at_id (param s) 0x0D);
     hx \<leftarrow> it_hex it;
     rd_range hx 0 8 }"

text \<open>\<^verbatim>\<open>config\<close>, \<^verbatim>\<open>keepalive\<close> and \<^verbatim>\<open>connect\<close> of the TCP channel for one address.\<close>

definition connect_tcp :: "UpEnv \<Rightarrow> string \<Rightarrow> u8 \<Rightarrow> Up \<Rightarrow> Up option" where
  "connect_tcp e ip center u = do {
     (c1, r) \<leftarrow> mxtcp_config (sm_dev (up_tcp u)) ip;
     let c2 = fst (mxtcp_keepalive c1 True);
     let c3 = fst (mxtcp_open c2 (ue_t1 e) (ue_t2 e));
     let s = (up_app u)\<lparr>app_head := snd (set_current_remote (app_head (up_app u)) center)\<rparr>;
     Some (put_app s (u\<lparr>up_tcp := (up_tcp u)\<lparr>sm_dev := c3, sm_center := True\<rparr>, up_dev := True\<rparr>)) }"

fun try_addresses :: "UpEnv \<Rightarrow> int \<Rightarrow> nat \<Rightarrow> Up \<Rightarrow> (Up \<times> channel \<times> int) option" where
  "try_addresses e i 0 u = Some (u, No_Channel, -1)"
| "try_addresses e i (Suc k) u = do {
     a \<leftarrow> get_ip_port (app_rtu (up_app u)) (0x04 + i);
     case a of
       Some (ip, center) \<Rightarrow> do { u1 \<leftarrow> connect_tcp e ip center u; Some (u1, No_Channel, 0) }
     | None \<Rightarrow> try_addresses e (i + 1) k u }"

definition get_sendmode :: "UpEnv \<Rightarrow> Up \<Rightarrow> (Up \<times> channel \<times> int) option" where
  "get_sendmode e u =
     (if up_dev u \<and> mxtcp_is_open (sm_dev (up_tcp u)) then Some (u, Tcp_Channel, 1)
      else
        let st = (if up_dev u then mxtcp_device_state (sm_dev (up_tcp u)) else DS_NULL)
        in if st = DS_CONNECTING then Some (u, No_Channel, 0)
           else if st = DS_OPEN then Some (u, Tcp_Channel, 1)
           else if st = DS_WAIT then Some (u, No_Channel, 0)
           else try_addresses e 0 8 u)"

definition zhudong_report_process :: "UpEnv \<Rightarrow> Up \<Rightarrow> Up option" where
  "zhudong_report_process e u = do {
     u1 \<leftarrow> (if up_inited u then Some u
           else do {
             (bs, s) \<leftarrow> bao_init (ce_baos (up_center u)) (up_app u);
             Some (u\<lparr>up_center := (up_center u)\<lparr>ce_baos := bs, ce_app := s\<rparr>, up_inited := True\<rparr>) });
     u2 \<leftarrow> communication_state e u1;
     (u3, ch, r) \<leftarrow> get_sendmode e u2;
     bao_poll e (if r = -1 then Serial_Channel else ch) u3 }"

section \<open>The thread\<close>

definition thread_up_poll :: "UpEnv \<Rightarrow> Up \<Rightarrow> Up option" where
  "thread_up_poll e u = do {
     u1 \<leftarrow> zhudong_report_process e u;
     u2 \<leftarrow> (if sm_packet_flag (up_tcp u1)
           then do {
             (c, sm, r) \<leftarrow> center_process (ue_center e) (ue_tcp e) (up_center u1) (up_tcp u1);
             Some (u1\<lparr>up_center := c, up_tcp := sm\<lparr>sm_packet_flag := False\<rparr>\<rparr>) }
           else Some u1);
     if sm_packet_flag (up_serial u2)
     then do {
       (c, sm, r) \<leftarrow> center_process (ue_center e) (ue_serial e) (up_center u2) (up_serial u2);
       Some (u2\<lparr>up_center := c, up_serial := sm\<lparr>sm_packet_flag := False\<rparr>\<rparr>) }
     else Some u2 }"

text \<open>The start of the thread; \<open>fd\<close>, \<open>line\<close>, \<open>set_ok\<close> and \<open>thr\<close> are what opening the port gives.\<close>

definition thread_up_start ::
    "UpEnv \<Rightarrow> int \<Rightarrow> termios \<Rightarrow> bool \<Rightarrow> int option \<Rightarrow> Up \<Rightarrow> Up option" where
  "thread_up_start e fd line set_ok thr u = do {
     (u1, ch, r) \<leftarrow> get_sendmode e u;
     (d, line', r2) \<leftarrow> mxserial_config (sm_dev (up_serial u1)) (show_int (rtu_bdBaud (app_rtu (up_app u1)))) set_ok line;
     let (d2, line2, r3) = mxserial_open d (rtu_bdSerialPort (app_rtu (up_app u1))) fd (Some line') set_ok thr;
     Some (u1\<lparr>up_serial := (up_serial u1)\<lparr>sm_dev := d2, sm_center := True\<rparr>\<rparr>) }"

end
