(* ===== verification/Up_Laws.thy ===== *)
theory Up_Laws
  imports Thread_Up Packet_Spec
begin

text \<open>
  The laws of reporting: when a report is due, what becomes of a failed one, what a channel can be,
  and what the centre's commands may change.
\<close>

section \<open>Due times\<close>

text \<open>\<open>check_run\<close> asks \<^verbatim>\<open>Check_Time\<close> at one time after the other; the reference looks at
  the two last times alone.\<close>

fun check_run :: "int \<Rightarrow> int \<Rightarrow> int \<Rightarrow> int list \<Rightarrow> bool list" where
  "check_run cycle delays prev [] = []"
| "check_run cycle delays prev (t # ts) =
     (let (l, due) = Check_Time prev t cycle delays in due # check_run cycle delays l ts)"

definition due_between :: "int \<Rightarrow> int \<Rightarrow> int \<Rightarrow> int \<Rightarrow> bool" where
  "due_between cycle delays a b \<longleftrightarrow> (a - delays) div cycle < (b - delays) div cycle"

fun due_run :: "int \<Rightarrow> int \<Rightarrow> int \<Rightarrow> int list \<Rightarrow> bool list" where
  "due_run cycle delays prev [] = []"
| "due_run cycle delays prev (t # ts) = due_between cycle delays prev t # due_run cycle delays t ts"

lemma due_between_moment:
  assumes "0 < cycle"
  shows "due_between cycle delays a b \<longleftrightarrow> (\<exists>n. a < n * cycle + delays \<and> n * cycle + delays \<le> b)"
proof
  assume l: "due_between cycle delays a b"
  let ?n = "(b - delays) div cycle"
  have "?n * cycle = (b - delays) - (b - delays) mod cycle" by (simp add: minus_mod_eq_div_mult)
  moreover have "0 \<le> (b - delays) mod cycle" "(a - delays) mod cycle < cycle" using assms by simp_all
  moreover have "(a - delays) div cycle * cycle = (a - delays) - (a - delays) mod cycle" by (simp add: minus_mod_eq_div_mult)
  moreover have "((a - delays) div cycle + 1) * cycle \<le> ?n * cycle"
    using l assms by (intro mult_right_mono) (simp_all add: due_between_def)
  ultimately show "\<exists>n. a < n * cycle + delays \<and> n * cycle + delays \<le> b"
    by (intro exI [of _ ?n]) (simp add: distrib_right)
next
  assume "\<exists>n. a < n * cycle + delays \<and> n * cycle + delays \<le> b"
  then obtain n where "a < n * cycle + delays" "n * cycle + delays \<le> b" by blast
  then have n: "a - delays < n * cycle" "n * cycle \<le> b - delays" by linarith+
  have "n \<le> (b - delays) div cycle" using zdiv_mono1 [OF n(2) assms] assms by simp
  moreover have "(a - delays) div cycle * cycle < n * cycle"
  proof -
    have "0 \<le> (a - delays) mod cycle" using assms by simp
    moreover have "(a - delays) div cycle * cycle = (a - delays) - (a - delays) mod cycle" by (simp add: minus_mod_eq_div_mult)
    ultimately show ?thesis using n(1) by linarith
  qed
  then have "(a - delays) div cycle < n" using assms by simp
  ultimately show "due_between cycle delays a b" by (simp add: due_between_def)
qed

lemma Check_Time_due:
  assumes "0 < cycle" "delays \<le> prev" "delays \<le> t"
  shows "Check_Time prev t cycle delays = (if due_between cycle delays prev t then (t, True) else (prev, False))"
  using assms by (auto simp: Check_Time_def due_between_def Let_def)

lemma due_same:
  "(a - delays) div cycle = (b - delays) div cycle \<Longrightarrow> due_run cycle delays a ts = due_run cycle delays b ts"
  by (cases ts) (simp_all add: due_between_def)

lemma check_run_due:
  assumes "0 < cycle" "delays \<le> prev" "sorted (prev # ts)"
  shows "check_run cycle delays prev ts = due_run cycle delays prev ts"
  using assms(2,3)
proof (induction ts arbitrary: prev)
  case (Cons t ts)
  have t: "prev \<le> t" "sorted (t # ts)" using Cons.prems(2) by simp_all
  have p: "sorted (prev # ts)" using t by (auto intro: order_trans)
  have d: "delays \<le> t" using Cons.prems(1) t(1) by linarith
  show ?case
  proof (cases "due_between cycle delays prev t")
    case True
    then show ?thesis using Cons.IH [OF d t(2)] Check_Time_due [OF assms(1) Cons.prems(1) d] by simp
  next
    case False
    moreover have "(prev - delays) div cycle \<le> (t - delays) div cycle" using t(1) assms(1) by (intro zdiv_mono1) simp_all
    ultimately have "(prev - delays) div cycle = (t - delays) div cycle" by (simp add: due_between_def)
    with False show ?thesis
      using Cons.IH [OF Cons.prems(1) p] Check_Time_due [OF assms(1) Cons.prems(1) d] due_same [of prev delays cycle t ts] by simp
  qed
qed simp

section \<open>Failed reports\<close>

text \<open>What SQLite documents of the two queries on the table \<^verbatim>\<open>bu\<close>, for texts without a quote.\<close>

definition plain :: "string \<Rightarrow> bool" where
  "plain t \<longleftrightarrow> CHR 0x22 \<notin> set t"

definition sql_bu :: "Host \<Rightarrow> bool" where
  "sql_bu h \<longleftrightarrow> h_up h \<and>
     (\<forall>n c d r. plain n \<and> plain c \<and> plain d \<longrightarrow>
        h_where_bu h (bu_query n c d) r = (u_name r = n \<and> u_cmd r = c \<and> u_tdate r = d)) \<and>
     (\<forall>rows. h_find_bu h bu_select rows = take 1 (filter (\<lambda>(i, r). u_valid r \<noteq> 0) rows))"

definition bu_rows :: "App \<Rightarrow> (nat \<times> TbBu) list" where
  "bu_rows s = tb_rows (db_bu (app_db s))"

definition same_report :: "TbBu \<Rightarrow> TbBu \<Rightarrow> bool" where
  "same_report a b \<longleftrightarrow> u_name a = u_name b \<and> u_cmd a = u_cmd b \<and> u_tdate a = u_tdate b"

lemma bu_update_rows:
  assumes "sql_bu h" "tb_wf (db_bu (app_db s))" "plain (u_name msg)" "plain (u_cmd msg)" "plain (u_tdate msg)"
  shows "\<exists>s'. bu_update h msg s = (0, s') \<and> tb_wf (db_bu (app_db s')) \<and>
    (\<exists>i. (i, msg) \<in> set (bu_rows s')) \<and>
    (\<forall>(i, r) \<in> set (bu_rows s'). same_report r msg \<longrightarrow> r = msg) \<and>
    (\<forall>i r. \<not> same_report r msg \<longrightarrow> (i, r) \<in> set (bu_rows s') \<longleftrightarrow> (i, r) \<in> set (bu_rows s)) \<and>
    s' = s\<lparr>app_db := (app_db s)\<lparr>db_bu := db_bu (app_db s')\<rparr>\<rparr>"
proof -
  let ?q = "\<lambda>r. same_report r msg" and ?t = "db_bu (app_db s)"
  have q: "h_where_bu h (bu_query (u_name msg) (u_cmd msg) (u_tdate msg)) = ?q" and up: "h_up h"
    using assms(1,3-5) by (auto simp: sql_bu_def same_report_def fun_eq_iff)
  obtain n t' where u: "db_update True ?q msg ?t = (n, t')" by fastforce
  have m: "?q msg" by (simp add: same_report_def)
  note f = db_update_find [OF assms(2), of ?q, OF m u]
  have wf: "tb_wf t'" using db_update_wf [OF assms(2), of True ?q msg] u by simp
  have same: "(i, r) \<in> set (tb_rows t') \<longleftrightarrow> (i, r) \<in> set (tb_rows ?t)" if r: "\<not> ?q r" for i r
  proof (cases "where_rows ?q ?t = []")
    case True
    with u db_update_adds [OF True, of msg] r m show ?thesis by auto
  next
    case False
    from db_update_rows [OF assms(2) False, of msg] u
    have g: "\<And>i. get_row t' i = (case get_row ?t i of None \<Rightarrow> None | Some s \<Rightarrow> Some (if ?q s then msg else s))" by simp
    have e: "(i, r) \<in> set (tb_rows T) \<longleftrightarrow> get_row T i = Some r" if "tb_wf T" for T
      using that by (simp add: tb_wf_def get_row_def)
    have "get_row t' i = Some r \<longleftrightarrow> get_row ?t i = Some r" using g [of i] r m by (auto split: option.splits)
    then show ?thesis using e [OF wf] e [OF assms(2)] by simp
  qed
  have ne: "\<exists>i. (i, msg) \<in> set (tb_rows t')"
  proof -
    obtain i r where "(i, r) \<in> set (where_rows ?q t')" using f by (cases "where_rows ?q t'") auto
    with f show ?thesis by (auto simp: where_rows_def)
  qed
  have "bu_update h msg s = (0, s\<lparr>app_db := (app_db s)\<lparr>db_bu := t'\<rparr>\<rparr>)"
    using u f q up by (simp add: bu_update_def)
  moreover have "\<forall>(i, r) \<in> set (tb_rows t'). ?q r \<longrightarrow> r = msg" using f by (auto simp: where_rows_def)
  ultimately show ?thesis using wf ne same by (auto simp: bu_rows_def)
qed

text \<open>The texts of the program hold no quote.\<close>

lemma plain_digits: "list_all is_digit t \<Longrightarrow> plain t"
proof -
  have "\<not> is_digit CHR 0x22" by (simp add: is_digit_def)
  then show "list_all is_digit t \<Longrightarrow> plain t" unfolding plain_def list_all_iff by blast
qed

lemma plain_pad2: "plain (pad2 v)"
  by (rule plain_digits) (simp add: pad2_def digit_char_cases)

lemma plain_append: "plain (a @ b) \<longleftrightarrow> plain a \<and> plain b" "plain (c # a) \<longleftrightarrow> c \<noteq> CHR 0x22 \<and> plain a" "plain []"
  by (auto simp: plain_def)

lemma plain_to_dec: "plain (to_dec n)"
  by (rule plain_digits) (simp add: to_dec_digits)

lemma plain_show_int: "plain (show_int v)" "plain (show_year v)"
  by (simp_all add: show_int_def show_year_def plain_append plain_to_dec)

lemma plain_time: "plain (time2string tz t)"
  by (simp add: time2string_def plain_append plain_pad2 plain_show_int Let_def)

lemma strtol10_show: "0 \<le> v \<Longrightarrow> v < 2 ^ 31 \<Longrightarrow> strtol10 (show_int v) = v"
  using scan_d_digits [of "to_dec (nat v)" "[]"] to_dec_digits [of "nat v"] by (simp add: strtol10_def show_int_def)

text \<open>The note about a failed report.\<close>

definition bu_note :: "Host \<Rightarrow> int \<Rightarrow> Bao \<Rightarrow> TbBu" where
  "bu_note h now b =
     \<lparr>u_valid = 1, u_name = bo_name b, u_date = time2string (h_tz h) now, u_tb = bo_record_table b,
      u_tdate = time2string (h_tz h) (bo_record_time b), u_cmd = show_cmd (bo_report_cmd b), u_ids = list_merge (bo_ids b) '' ''\<rparr>"

lemma bu_note_plain:
  "plain (bo_name b) \<Longrightarrow> plain (u_name (bu_note h now b)) \<and> plain (u_cmd (bu_note h now b)) \<and> plain (u_tdate (bu_note h now b))"
  by (simp add: bu_note_def show_cmd_def plain_time plain_show_int)

lemma failed_report_noted:
  assumes "sql_bu h" "tb_wf (db_bu (app_db s))" "bo_kind b \<in> {CycleBaoBase, JiaBaoBase}" "plain (bo_name b)"
    "\<forall>(i, r) \<in> set (bu_rows s). u_valid r = 0"
  obtains i s' where "report_fail h now b s = (s', False)" "tb_wf (db_bu (app_db s'))"
    "(i, bu_note h now b) \<in> set (bu_rows s')"
    "\<forall>(j, r) \<in> set (bu_rows s'). u_valid r \<noteq> 0 \<longrightarrow> r = bu_note h now b"
proof -
  let ?m = "bu_note h now b"
  obtain s' i where u: "bu_update h ?m s = (0, s')" "tb_wf (db_bu (app_db s'))" "(i, ?m) \<in> set (bu_rows s')"
    and same: "\<forall>(i, r) \<in> set (bu_rows s'). same_report r ?m \<longrightarrow> r = ?m"
    and other: "\<forall>i r. \<not> same_report r ?m \<longrightarrow> (i, r) \<in> set (bu_rows s') \<longleftrightarrow> (i, r) \<in> set (bu_rows s)"
    using bu_update_rows [OF assms(1,2), of ?m] bu_note_plain [OF assms(4), of h now] by blast
  have "r = ?m" if "(j, r) \<in> set (bu_rows s')" "u_valid r \<noteq> 0" for j r
    using that same other assms(5) by (cases "same_report r ?m") fastforce+
  moreover have "report_fail h now b s = (s', False)"
    using u(1) assms(3) by (simp add: report_fail_def bu_add_one_record_def bu_note_def [symmetric] Let_def)
  ultimately show ?thesis using that u by blast
qed

text \<open>An answered resend leaves no valid note of that report.\<close>

lemma resend_clears:
  assumes "sql_bu h" "tb_wf (db_bu (app_db s))" "bo_kind r = BuBaoBase"
    "plain (u_name (bo_m r))" "plain (u_cmd (bo_m r))" "plain (u_tdate (bo_m r))"
    "\<forall>(j, x) \<in> set (bu_rows s). u_valid x \<noteq> 0 \<longrightarrow> x = bo_m r"
  shows "\<forall>(j, x) \<in> set (bu_rows (fst (report_ok h r s))). u_valid x = 0"
proof -
  let ?m = "(bo_m r)\<lparr>u_valid := 0\<rparr>"
  obtain s' where u: "bu_update h ?m s = (0, s')"
    and same: "\<forall>(i, r) \<in> set (bu_rows s'). same_report r ?m \<longrightarrow> r = ?m"
    and other: "\<forall>i r. \<not> same_report r ?m \<longrightarrow> (i, r) \<in> set (bu_rows s') \<longleftrightarrow> (i, r) \<in> set (bu_rows s)"
    using bu_update_rows [OF assms(1,2), of ?m] assms(4-6) by auto
  have s: "same_report (bo_m r) ?m" by (simp add: same_report_def)
  have "u_valid x = 0" if "(j, x) \<in> set (bu_rows s')" for j x
  proof (cases "same_report x ?m")
    case True
    with same that have "x = ?m" by blast
    then show ?thesis by simp
  next
    case False
    with other that have "(j, x) \<in> set (bu_rows s)" by blast
    with assms(7) have "u_valid x \<noteq> 0 \<longrightarrow> x = bo_m r" by blast
    with False s show ?thesis by blast
  qed
  then show ?thesis using u assms(3) by (auto simp: report_ok_def bu_invalid_one_record_def Let_def)
qed

text \<open>What the resend report takes from a note.\<close>

lemma resend_takes:
  assumes "sql_bu h" "bo_kind r = BuBaoBase" "60 \<le> bo_record_seconds r" "\<not> bo_record_enable r"
    "snd (Check_Time (bo_last_record r) t (bo_record_seconds r) (bo_record_delays r))"
    "(i, m) \<in> set (bu_rows s)" "\<forall>(j, x) \<in> set (bu_rows s). u_valid x \<noteq> 0 \<longrightarrow> x = m" "u_valid m \<noteq> 0"
    "split_str (u_ids m) '' '' = Some ids"
  shows "\<exists>r1. record_check h t r s = Some (r1, True) \<and> bo_kind r1 = BuBaoBase \<and> bo_m r1 = m \<and> bo_ids r1 = ids \<and>
    bo_report_cmd r1 = strtol10 (u_cmd m) \<and> bo_report_tb r1 = u_tb m \<and> bo_report_date r1 = u_tdate m"
proof -
  let ?v = "filter (\<lambda>(i, r). u_valid r \<noteq> 0) (bu_rows s)"
  obtain l where l: "Check_Time (bo_last_record r) t (bo_record_seconds r) (bo_record_delays r) = (l, True)"
    using assms(5) by (metis prod.collapse)
  have "(i, m) \<in> set ?v" using assms(6,8) by simp
  then obtain j x vs where v: "?v = (j, x) # vs" by (cases ?v) auto
  then have "(j, x) \<in> set ?v" by simp
  then have "x = m" using assms(7) by auto
  then have f: "db_find (h_up h) (h_find_bu h bu_select) (db_bu (app_db s)) [] = (1, [(j, m)])"
    using assms(1) v by (simp add: sql_bu_def db_find_def bu_rows_def)
  show ?thesis using assms(2-4,9) l f by (simp add: record_check_def bu_record_check_def record_due_def)
qed

end
