(* ===== verification/Dfsm.thy ===== *)
theory Dfsm
  imports Mx_Device App_State
begin

text \<open>
  The request and answer machine of a sensor line, \<^verbatim>\<open>app/down/dfsm.cpp\<close>: one object per serial
  port, with a buffer for the request, a buffer in which the answer collects, and five steps. The
  clock \<^verbatim>\<open>get_ms_clock\<close> is an argument, and each function runs as one step: the read thread of the
  port and the sampling thread interleave between them. The two callbacks only write to the log, so
  what counts of them is whether they are set.
\<close>

section \<open>State\<close>

record Dfsm =
  df_sb :: bytes
  df_slen :: int
  df_rb :: bytes
  df_rlen :: int
  df_getpacket :: bool
  df_wann :: int
  df_step :: int
  df_ms_timeout :: int
  df_ms_timeout_max :: int
  df_stimeout :: int
  df_retry :: int
  df_dev :: SerialPort
  df_line :: "termios option"
  df_cb :: bool
  df_speed :: int

definition df_size :: nat where
  "df_size = 200"

definition DFSM_STATE_IDLE :: int where "DFSM_STATE_IDLE = 0"
definition DFSM_STATE_SEND :: int where "DFSM_STATE_SEND = 1"
definition DFSM_STATE_WAIT :: int where "DFSM_STATE_WAIT = 2"
definition DFSM_STATE_TIMEOUT :: int where "DFSM_STATE_TIMEOUT = 3"
definition DFSM_STATE_GET :: int where "DFSM_STATE_GET = 4"

lemmas dfsm_steps = DFSM_STATE_IDLE_def DFSM_STATE_SEND_def DFSM_STATE_WAIT_def DFSM_STATE_TIMEOUT_def
  DFSM_STATE_GET_def

text \<open>The constructor leaves \<^verbatim>\<open>step\<close> and \<^verbatim>\<open>speed\<close> to what the memory held.\<close>

definition new_dfsm :: "int \<Rightarrow> int \<Rightarrow> Dfsm" where
  "new_dfsm junk_step junk_speed =
     \<lparr>df_sb = replicate df_size 0, df_slen = 0, df_rb = replicate df_size 0, df_rlen = 0, df_getpacket = False,
      df_wann = 0, df_step = junk_step, df_ms_timeout = 0, df_ms_timeout_max = 2000, df_stimeout = 20,
      df_retry = 0, df_dev = new_SerialPort, df_line = None, df_cb = False, df_speed = junk_speed\<rparr>"

section \<open>Operations\<close>

text \<open>The packet callback of the port. The sizes are compared as unsigned numbers.\<close>

definition dfsm_packet_process :: "bytes \<Rightarrow> Dfsm \<Rightarrow> Dfsm option" where
  "dfsm_packet_process dat f = do {
     let len = int (length dat);
     let room = (if df_rlen f + len > int df_size then int df_size - df_rlen f else len);
     f1 \<leftarrow> (if room \<noteq> 0
           then do {
             chunk \<leftarrow> rd_range dat 0 (nat room);
             rb \<leftarrow> memcpy_at (nat (df_rlen f)) chunk (df_rb f);
             let g = f\<lparr>df_rb := rb, df_rlen := df_rlen f + room\<rparr>;
             Some (if df_rlen g \<ge> df_wann g then g\<lparr>df_getpacket := True\<rparr> else g) }
           else Some f);
     Some (f1\<lparr>df_dev := (df_dev f1)\<lparr>sp_temp_ptr := 0, sp_data_len := 0\<rparr>\<rparr>) }"

text \<open>\<open>fd\<close>, \<open>line\<close>, \<open>set_ok\<close> and \<open>thr\<close> are what the system gives when the port is opened.\<close>

definition dfsm_start :: "string \<Rightarrow> int \<Rightarrow> int \<Rightarrow> termios option \<Rightarrow> bool \<Rightarrow> int option \<Rightarrow> Dfsm \<Rightarrow> Dfsm \<times> int" where
  "dfsm_start arg rate fd line set_ok thr f =
     (let (d, line', r) = mxserial_open ((df_dev f)\<lparr>sp_baudrate := rate\<rparr>) arg fd line set_ok thr;
          f1 = f\<lparr>df_dev := d, df_line := line'\<rparr>
      in if r < 0 then (f1, -1) else (f1\<lparr>df_speed := rate\<rparr>, 0))"

definition dfsm_init :: "bytes \<Rightarrow> int \<Rightarrow> int \<Rightarrow> Dfsm \<Rightarrow> Dfsm option" where
  "dfsm_init b l retries f = do {
     f1 \<leftarrow> (if l > 0
           then do {
             let n = (if l > int df_size then int df_size else l);
             chunk \<leftarrow> rd_range b 0 (nat n);
             sb \<leftarrow> memcpy_at 0 chunk (df_sb f);
             Some (f\<lparr>df_sb := sb, df_slen := n\<rparr>) }
           else Some f);
     Some (f1\<lparr>df_rlen := 0, df_rb := replicate df_size 0, df_cb := True, df_getpacket := False,
              df_retry := retries, df_step := DFSM_STATE_SEND\<rparr>) }"

text \<open>One call of \<^verbatim>\<open>process\<close>, with the frame it sends.\<close>

definition dfsm_send_step :: "(bytes \<Rightarrow> int) \<Rightarrow> int \<Rightarrow> Dfsm \<Rightarrow> (Dfsm \<times> bytes option) option" where
  "dfsm_send_step wrote clock f = do {
     (d, out) \<leftarrow> mx_send (mxserial wrote) (df_dev f) (df_sb f) (df_slen f) (df_stimeout f) 0;
     t \<leftarrow> int32 (df_ms_timeout_max f + clock);
     Some (f\<lparr>df_dev := d, df_ms_timeout := t, df_step := DFSM_STATE_WAIT\<rparr>, Some out) }"

definition dfsm_wait_step :: "int \<Rightarrow> Dfsm \<Rightarrow> (Dfsm \<times> bytes option) option" where
  "dfsm_wait_step clock f =
     (if df_ms_timeout f < clock
      then if df_retry f > 0
           then Some (f\<lparr>df_retry := df_retry f - 1, df_step := DFSM_STATE_SEND\<rparr>, None)
           else Some (f\<lparr>df_step := DFSM_STATE_TIMEOUT\<rparr>, None)
      else if df_getpacket f
      then if df_cb f then Some (f\<lparr>df_getpacket := False, df_step := DFSM_STATE_GET\<rparr>, None) else None
      else Some (f, None))"

definition dfsm_process :: "(bytes \<Rightarrow> int) \<Rightarrow> int \<Rightarrow> Dfsm \<Rightarrow> (Dfsm \<times> bytes option) option" where
  "dfsm_process wrote clock f =
     (if df_step f = DFSM_STATE_IDLE then Some (f, None)
      else if df_step f = DFSM_STATE_SEND then dfsm_send_step wrote clock f
      else if df_step f = DFSM_STATE_WAIT then dfsm_wait_step clock f
      else if df_step f = DFSM_STATE_GET then Some (f\<lparr>df_step := DFSM_STATE_IDLE\<rparr>, None)
      else if df_step f = DFSM_STATE_TIMEOUT
      then if df_cb f then Some (f\<lparr>df_step := DFSM_STATE_IDLE\<rparr>, None) else None
      else Some (f\<lparr>df_step := DFSM_STATE_IDLE\<rparr>, None))"

text \<open>\<^verbatim>\<open>speed\<close> keeps the rate of the start. Of the fifty characters only the text and its end are
  set; \<open>junk\<close> are the settings read from a line that is not open.\<close>

definition dfsm_setbaud :: "int \<Rightarrow> bool \<Rightarrow> termios \<Rightarrow> Dfsm \<Rightarrow> (Dfsm \<times> int) option" where
  "dfsm_setbaud rate set_ok junk f =
     (if df_speed f = rate then Some (f, 0)
      else do {
        (d, line, r) \<leftarrow> mxserial_config (df_dev f) (show_int rate) set_ok (case df_line f of Some l \<Rightarrow> l | None \<Rightarrow> junk);
        Some (f\<lparr>df_dev := d, df_line := map_option (\<lambda>_. line) (df_line f)\<rparr>, r) })"

section \<open>The machines by port\<close>

type_synonym Ports = "string \<Rightarrow> Dfsm option"

definition dfsm_device_find :: "Ports \<Rightarrow> string \<Rightarrow> Dfsm option" where
  "dfsm_device_find devs s = devs s"

text \<open>What the system gives when the port of the \<open>i\<close>th sensor is opened, and what the memory of the
  new object holds.\<close>

record PortOpen =
  po_fd :: int
  po_line :: "termios option"
  po_set_ok :: bool
  po_thr :: "int option"
  po_step :: int
  po_speed :: int

fun dfsm_device_init :: "(nat \<Rightarrow> PortOpen) \<Rightarrow> nat \<Rightarrow> rtu_485 list \<Rightarrow> Ports \<Rightarrow> Ports" where
  "dfsm_device_init sys i [] devs = devs"
| "dfsm_device_init sys i (item # items) devs =
     (let p = rs_port item; o1 = sys i
      in dfsm_device_init sys (Suc i) items
           (if dfsm_device_find devs p = None
            then devs(p \<mapsto> fst (dfsm_start p (rs_baud item) (po_fd o1) (po_line o1) (po_set_ok o1) (po_thr o1)
                                 (new_dfsm (po_step o1) (po_speed o1))))
            else devs))"

section \<open>The buffers stay in bounds\<close>

definition dfsm_inv :: "Dfsm \<Rightarrow> bool" where
  "dfsm_inv f \<longleftrightarrow> length (df_sb f) = df_size \<and> length (df_rb f) = df_size \<and> 0 \<le> df_rlen f \<and> df_rlen f \<le> int df_size
     \<and> 0 \<le> df_slen f \<and> df_slen f \<le> int df_size \<and> (df_step f \<in> {DFSM_STATE_SEND, DFSM_STATE_WAIT, DFSM_STATE_TIMEOUT} \<longrightarrow> df_cb f)"

lemma dfsm_packet_inv:
  assumes "dfsm_inv f"
  shows "\<exists>f'. dfsm_packet_process dat f = Some f' \<and> dfsm_inv f' \<and> df_step f' = df_step f \<and> df_retry f' = df_retry f
    \<and> df_sb f' = df_sb f \<and> df_slen f' = df_slen f \<and> df_ms_timeout f' = df_ms_timeout f \<and> df_ms_timeout_max f' = df_ms_timeout_max f
    \<and> df_wann f' = df_wann f \<and> df_cb f' = df_cb f
    \<and> (let n = min (length dat) (df_size - nat (df_rlen f))
       in df_rlen f' = df_rlen f + int n \<and> take (nat (df_rlen f')) (df_rb f') = take (nat (df_rlen f)) (df_rb f) @ take n dat
         \<and> df_getpacket f' = (df_getpacket f \<or> 0 < n \<and> df_wann f \<le> df_rlen f'))"
proof -
  define room where "room = (if df_rlen f + int (length dat) > int df_size then int df_size - df_rlen f else int (length dat))"
  define n where "n = min (length dat) (df_size - nat (df_rlen f))"
  have i: "length (df_rb f) = df_size" "0 \<le> df_rlen f" "df_rlen f \<le> int df_size" using assms by (simp_all add: dfsm_inv_def)
  then have r: "room = int n" by (auto simp: room_def n_def min_def)
  have n: "n \<le> length dat" "nat (df_rlen f) + n \<le> df_size" using i by (auto simp: n_def)
  have nr: "nat (df_rlen f + int n) = nat (df_rlen f) + n" using i by (simp add: nat_add_distrib)
  have "dfsm_packet_process dat f = Some
      (if n \<noteq> 0 then (let g = f\<lparr>df_rb := take (nat (df_rlen f)) (df_rb f) @ take n dat @ drop (nat (df_rlen f) + n) (df_rb f),
               df_rlen := df_rlen f + int n, df_dev := (df_dev f)\<lparr>sp_temp_ptr := 0, sp_data_len := 0\<rparr>\<rparr>
             in if df_rlen g \<ge> df_wann g then g\<lparr>df_getpacket := True\<rparr> else g)
       else f\<lparr>df_dev := (df_dev f)\<lparr>sp_temp_ptr := 0, sp_data_len := 0\<rparr>\<rparr>)"
    using n i by (simp add: dfsm_packet_process_def Let_def rd_range_def memcpy_at_def r flip: room_def)
  then show ?thesis
    using assms n i by (cases "n = 0") (auto simp: dfsm_inv_def Let_def nr simp flip: n_def)
qed

lemma dfsm_init_inv:
  assumes "dfsm_inv f" "0 < length b" "length b \<le> df_size"
  shows "\<exists>f'. dfsm_init b (int (length b)) retries f = Some f' \<and> dfsm_inv f' \<and> df_step f' = DFSM_STATE_SEND
    \<and> df_retry f' = retries \<and> df_slen f' = int (length b) \<and> take (length b) (df_sb f') = b \<and> df_rlen f' = 0
    \<and> df_rb f' = replicate df_size 0 \<and> \<not> df_getpacket f' \<and> df_cb f' \<and> df_wann f' = df_wann f
    \<and> df_ms_timeout_max f' = df_ms_timeout_max f"
  using assms by (auto simp: dfsm_init_def Let_def dfsm_inv_def rd_range_def memcpy_at_def dfsm_steps)

lemma dfsm_process_inv:
  assumes "dfsm_inv f" "0 \<le> df_ms_timeout_max f" "0 \<le> clock" "df_ms_timeout_max f + clock < 2 ^ 31"
  shows "\<exists>f' out. dfsm_process wrote clock f = Some (f', out) \<and> dfsm_inv f' \<and> df_ms_timeout_max f' = df_ms_timeout_max f
    \<and> df_sb f' = df_sb f \<and> df_slen f' = df_slen f \<and> df_wann f' = df_wann f \<and> df_rb f' = df_rb f \<and> df_rlen f' = df_rlen f"
proof -
  have "- (2 ^ 31) \<le> df_ms_timeout_max f + clock" using assms(2,3) by simp
  moreover have "nat (df_slen f) \<le> length (df_sb f)" using assms(1) by (auto simp: dfsm_inv_def)
  ultimately show ?thesis
    using assms(1,4)
    by (auto simp: dfsm_process_def dfsm_send_step_def dfsm_wait_step_def dfsm_inv_def mxserial_def mxserial_send_def
        rd_range_def dfsm_steps)
qed

lemma new_dfsm_inv: "step \<notin> {DFSM_STATE_SEND, DFSM_STATE_WAIT, DFSM_STATE_TIMEOUT} \<Longrightarrow> dfsm_inv (new_dfsm step speed)"
  by (auto simp: dfsm_inv_def new_dfsm_def df_size_def)

lemma dfsm_start_frame:
  "dfsm_start arg rate fd line set_ok thr f = (f', r) \<Longrightarrow> dfsm_inv f' = dfsm_inv f"
  by (auto simp: dfsm_start_def dfsm_inv_def Let_def split: prod.splits if_splits)

lemma dfsm_init_covers:
  "item \<in> set items \<or> devs (rs_port item) \<noteq> None \<Longrightarrow> dfsm_device_init sys i items devs (rs_port item) \<noteq> None"
proof (induction items arbitrary: i devs)
  case (Cons a items)
  then show ?case by (fastforce simp: Let_def dfsm_device_find_def)
qed simp

end
