(* ===== verification/Lib_Float.thy ===== *)
theory Lib_Float
  imports Prelude "HOL-Library.Log_Nat" "HOL-Library.Signed_Division"
begin

text \<open>
  The floating-point arithmetic that the sensor code uses on values read from the wire: decoding
  the IEEE formats \<^verbatim>\<open>float\<close> and \<^verbatim>\<open>double\<close>, multiplication, division and conversion from and to
  integers, rounding to the nearest with ties to even. A finite value is a pair of a mantissa and an
  exponent of two. A value over the range of the format is kept as it is: the code converts every
  result to a 64-bit integer, which is undefined for it as for the infinity it would be.
\<close>

section \<open>Rounding\<close>

type_synonym dyadic = "int \<times> int"

record fp_format =
  fp_prec :: nat
  fp_emin :: int
  fp_bias :: int
  fp_ebits :: nat

definition fp_single :: fp_format where
  "fp_single = \<lparr>fp_prec = 24, fp_emin = - 149, fp_bias = 150, fp_ebits = 8\<rparr>"

definition fp_double :: fp_format where
  "fp_double = \<lparr>fp_prec = 53, fp_emin = - 1074, fp_bias = 1075, fp_ebits = 11\<rparr>"

definition half_even :: "int \<Rightarrow> nat \<Rightarrow> int" where
  "half_even m k =
     (let q = m div 2 ^ k; r = 2 * (m mod 2 ^ k)
      in if r > 2 ^ k \<or> r = 2 ^ k \<and> odd q then q + 1 else q)"

definition fp_round :: "fp_format \<Rightarrow> dyadic \<Rightarrow> dyadic" where
  "fp_round F d =
     (let (m, e) = d; k = max (bitlen \<bar>m\<bar> - int (fp_prec F)) (fp_emin F - e)
      in if k \<le> 0 then (m, e) else (half_even m (nat k), e + k))"

section \<open>Operations\<close>

definition fp_of_int :: "fp_format \<Rightarrow> int \<Rightarrow> dyadic" where
  "fp_of_int F v = fp_round F (v, 0)"

definition fp_mul :: "fp_format \<Rightarrow> dyadic \<Rightarrow> dyadic \<Rightarrow> dyadic" where
  "fp_mul F a b = fp_round F (fst a * fst b, snd a + snd b)"

text \<open>The quotient is cut a few bits behind the precision; its last bit records a remainder.\<close>

definition fp_div :: "fp_format \<Rightarrow> dyadic \<Rightarrow> dyadic \<Rightarrow> dyadic" where
  "fp_div F a b =
     (let n = fp_prec F + 2 + nat (bitlen \<bar>fst b\<bar>);
          num = \<bar>fst a\<bar> * 2 ^ n;
          q = 2 * (num div \<bar>fst b\<bar>) + (if num mod \<bar>fst b\<bar> = 0 then 0 else 1)
      in fp_round F (sgn (fst a) * sgn (fst b) * q, snd a - snd b - int n - 1))"

definition fp_trunc :: "dyadic \<Rightarrow> int" where
  "fp_trunc d = (if snd d \<ge> 0 then fst d * 2 ^ nat (snd d) else fst d sdiv 2 ^ nat (- snd d))"

text \<open>The value of the bits \<open>w\<close>; infinities and NaNs are \<open>None\<close>.\<close>

definition fp_decode :: "fp_format \<Rightarrow> nat \<Rightarrow> dyadic option" where
  "fp_decode F w =
     (let fb = fp_prec F - 1;
          f = int (w mod 2 ^ fb);
          x = w div 2 ^ fb mod 2 ^ fp_ebits F;
          s = (if odd (w div 2 ^ (fb + fp_ebits F)) then - 1 else 1 :: int)
      in if x = 2 ^ fp_ebits F - 1 then None
         else if x = 0 then Some (s * f, fp_emin F)
         else Some (s * (2 ^ fb + f), int x - fp_bias F))"

section \<open>Small integers are exact\<close>

lemma fp_round_small:
  assumes "\<bar>m\<bar> < 2 ^ fp_prec F" "fp_emin F \<le> e"
  shows "fp_round F (m, e) = (m, e)"
proof -
  have "bitlen \<bar>m\<bar> \<le> int (fp_prec F)" using assms(1) by (simp add: bitlen_le_iff_power)
  then show ?thesis using assms(2) by (simp add: fp_round_def)
qed

lemma half_even_exact: "half_even (m * 2 ^ k) k = m"
  by (simp add: half_even_def)

end
