(* ===== verification/Thread_Down.thy ===== *)
theory Thread_Down
  imports Dfsm Flow Lib_Float
begin

text \<open>
  The sampling thread, \<^verbatim>\<open>app/down/_thread_down.cpp\<close>: the texts of the sensor configuration, the
  value in an answer, one reading of a sensor, the sampling interval, and one sweep over the
  sensors. A loop that waits runs over a list of turns, which say what the clock shows and what the
  port delivers in each; it is \<open>None\<close> when they run out before it ends.
\<close>

section \<open>Texts of the configuration\<close>

text \<open>The characters before the end of a C text.\<close>

definition cbytes :: "string \<Rightarrow> bytes" where
  "cbytes s = takeWhile (\<lambda>b. b \<noteq> 0) (bytes_of s)"

definition c_atoi :: "bytes \<Rightarrow> int" where
  "c_atoi b = (case scan_d (string_of_bytes b) of Some (v, r) \<Rightarrow> v | None \<Rightarrow> 0)"

definition digit_of :: "u8 \<Rightarrow> u8" where
  "digit_of c = (if 48 \<le> c \<and> c \<le> 57 then c - 48 else c - 55)"

definition string_to_byte :: "u8 \<Rightarrow> u8 \<Rightarrow> u8" where
  "string_to_byte h l = push_bit 4 (digit_of h) OR (digit_of l AND 0x0F)"

text \<open>The array \<^verbatim>\<open>pre\<close> has twenty places. The text is followed by its end.\<close>

function recv_loop :: "bytes \<Rightarrow> nat \<Rightarrow> bytes \<Rightarrow> bytes option" where
  "recv_loop p i pre =
     (if i < length p \<and> i < 58
      then if length pre < 20
           then recv_loop p (i + 2) (pre @ [string_to_byte ((p @ [0]) ! i) ((p @ [0]) ! (i + 1))])
           else None
      else Some pre)"
  by auto
termination by (relation "measure (\<lambda>(p, i, pre). 58 - i)") auto

declare recv_loop.simps [simp del]

definition recv_patten :: "string \<Rightarrow> bytes option" where
  "recv_patten patten = recv_loop (cbytes patten) 0 []"

section \<open>The value in an answer\<close>

text \<open>The bytes that the letters of the order name, counted from \<open>prec\<close>; the array \<^verbatim>\<open>data\<close> has ten
  places.\<close>

fun pick_loop :: "bytes \<Rightarrow> int \<Rightarrow> bytes \<Rightarrow> bytes \<Rightarrow> bytes option" where
  "pick_loop frame prec [] data = Some data"
| "pick_loop frame prec (c # cs) data = do {
     let k = prec + uint c - 65;
     b \<leftarrow> (if 0 \<le> k then rd frame (nat k) else None);
     if length data < 10 then pick_loop frame prec cs (data @ [b]) else None }"

text \<open>The divisor behind the name of a format, \<open>0\<close> when there is none.\<close>

definition fomat_div :: "bytes \<Rightarrow> nat \<Rightarrow> int" where
  "fomat_div fomat n = (if length fomat > n then c_atoi (drop n fomat) else 0)"

definition parse_int :: "bytes \<Rightarrow> int \<Rightarrow> int \<Rightarrow> l64 option" where
  "parse_int dat sz b = do {
     (v, n) \<leftarrow> little2big dat (replicate 8 0) sz;
     x \<leftarrow> l64_of (sint (word_of_nat (le_val v) :: l64) * 1000);
     if b \<noteq> 0 then l64_of (sint x sdiv b) else Some x }"

definition parse_fp :: "fp_format \<Rightarrow> nat \<Rightarrow> bytes \<Rightarrow> int \<Rightarrow> int \<Rightarrow> l64 option" where
  "parse_fp F width dat sz b = do {
     (v, n) \<leftarrow> little2big dat (replicate width 0) sz;
     d \<leftarrow> fp_decode F (le_val v);
     let x = fp_mul F d (fp_of_int F 1000);
     l64_of (fp_trunc (if b \<noteq> 0 then fp_div F x (fp_of_int F b) else x)) }"

definition parse_bcd :: "bytes \<Rightarrow> int \<Rightarrow> int \<Rightarrow> l64 option" where
  "parse_bcd dat sz b = do {
     inv \<leftarrow> inverse_buf dat sz;
     v \<leftarrow> bcd2hex inv sz;
     x \<leftarrow> l64_of (sint (v :: l64) * 1000);
     if b \<noteq> 0 then l64_of (sint x sdiv b) else Some x }"

definition parse_data :: "string \<Rightarrow> string \<Rightarrow> string \<Rightarrow> bytes \<Rightarrow> (l64 \<times> int) option" where
  "parse_data recv shunxu fomat frame = do {
     pre \<leftarrow> recv_patten recv;
     front \<leftarrow> rd_range frame 0 (length pre);
     if front \<noteq> pre then Some (0, 1)
     else do {
       dat \<leftarrow> pick_loop frame (int (length pre)) (cbytes shunxu) [];
       let sz = int (length (cbytes shunxu));
       let fm = cbytes fomat;
       v \<leftarrow> (if take 3 fm = bytes_of ''int'' then parse_int dat sz (fomat_div fm 4)
            else if take 4 fm = bytes_of ''floa'' then parse_fp fp_single 4 dat sz (fomat_div fm 6)
            else if take 6 fm = bytes_of ''double'' then parse_fp fp_double 8 dat sz (fomat_div fm 7)
            else if take 3 fm = bytes_of ''bcd'' then parse_bcd dat sz (fomat_div fm 4)
            else Some 0);
       Some (v, 0) } }"

section \<open>Reading a sensor\<close>

text \<open>A turn of the loop: the clock at the test, what the port delivers until \<^verbatim>\<open>process\<close>, the clock
  \<^verbatim>\<open>process\<close> sees, and what the port delivers during the sleep.\<close>

record Turn =
  tu_check :: int
  tu_rx1 :: "bytes list"
  tu_proc :: int
  tu_rx2 :: "bytes list"

fun deliver :: "bytes list \<Rightarrow> Dfsm \<Rightarrow> Dfsm option" where
  "deliver [] f = Some f"
| "deliver (p # ps) f = do { g \<leftarrow> dfsm_packet_process p f; deliver ps g }"

definition sent :: "bytes option \<Rightarrow> bytes list" where
  "sent out = (case out of None \<Rightarrow> [] | Some b \<Rightarrow> [b])"

fun read_loop :: "(bytes \<Rightarrow> int) \<Rightarrow> int \<Rightarrow> Turn list \<Rightarrow> Dfsm \<Rightarrow> (Dfsm \<times> bytes list) option" where
  "read_loop wrote deadline [] f = None"
| "read_loop wrote deadline (t # ts) f =
     (if deadline > tu_check t \<and> \<not> df_getpacket f
      then do {
        f1 \<leftarrow> deliver (tu_rx1 t) f;
        (f2, out) \<leftarrow> dfsm_process wrote (tu_proc t) f1;
        f3 \<leftarrow> deliver (tu_rx2 t) f2;
        (f4, outs) \<leftarrow> read_loop wrote deadline ts f3;
        Some (f4, sent out @ outs) }
      else Some (f, []))"

text \<open>The value, and the result that the caller starts at \<open>0\<close>.\<close>

definition read_a_data ::
    "(bytes \<Rightarrow> int) \<Rightarrow> int \<Rightarrow> Turn list \<Rightarrow> rtu_485 \<Rightarrow> int \<Rightarrow> Dfsm \<Rightarrow> (Dfsm \<times> bytes list \<times> l64 \<times> int) option" where
  "read_a_data wrote clock turns item timeoutms dev = do {
     sbuffer \<leftarrow> recv_patten (rs_requestCmd item);
     if length sbuffer > 0
     then do {
       let d0 = dev\<lparr>df_wann := (int (length (cbytes (rs_resultDataFilter item))) +
                                int (length (cbytes (rs_dataFormatter item)))) sdiv 2\<rparr>;
       if df_step d0 = DFSM_STATE_IDLE \<or> df_step d0 = DFSM_STATE_WAIT
       then do {
         d1 \<leftarrow> dfsm_init sbuffer (int (length sbuffer)) 2 d0;
         deadline \<leftarrow> int32 (clock + timeoutms);
         (d2, outs) \<leftarrow> read_loop wrote deadline turns d1;
         if df_getpacket d2
         then do {
           (value, ferr) \<leftarrow> parse_data (rs_resultDataFilter item) (rs_dataFormatter item) (rs_dataType item) (df_rb d2);
           let d3 = d2\<lparr>df_step := DFSM_STATE_IDLE, df_slen := 0, df_rlen := 0\<rparr>;
           if ferr = 1 then Some (d3, outs, 0, -1) else Some (d3, outs, value, 1) }
         else Some (d2, outs, 0, 0) }
       else Some (d0, [], 0, 0) }
     else Some (dev, [], 0, -1) }"

section \<open>The sampling interval\<close>

text \<open>\<open>prev\<close> is the static \<^verbatim>\<open>last\<close>.\<close>

definition is_down :: "bool \<Rightarrow> int \<Rightarrow> App \<Rightarrow> int \<Rightarrow> (int \<times> bool) option" where
  "is_down reset now s prev = do {
     it \<leftarrow> get_place (runtime s) (at_id (runtime s) 0x23);
     let sec = to_int32 (sint (it_val it));
     due \<leftarrow> int32 (prev + sec);
     if due < now
     then do { nxt \<leftarrow> int32 (now + sec); Some (if reset then nxt else prev, True) }
     else Some (prev, False) }"

section \<open>A sweep over the sensors\<close>

text \<open>What becomes of a value: the items of flows and of water levels have their own modules, every
  other value is stored, also that of a failed reading.\<close>

definition down_store :: "Host \<Rightarrow> int \<Rightarrow> string \<Rightarrow> l64 \<Rightarrow> bool \<Rightarrow> bool \<Rightarrow> App \<Rightarrow> App option" where
  "down_store h t factor value result clear s = do {
     it \<leftarrow> get_place (devdata s) (dev_name s factor);
     let pconfig = config it;
     let i = (ucast (cfg_id pconfig) :: u32);
     ok \<leftarrow> (if cfg_id pconfig \<noteq> 0
           then map_option (\<lambda>it2. cfg_id (config it2) \<noteq> 0) (get_place (devdata s) (dev_id s i))
           else Some False);
     if ok
     then if i \<ge> 0x21 \<and> i \<le> 0x31 \<or> i \<ge> 0xFFA1 \<and> i \<le> 0xFFA8 then flow_caculation value pconfig result clear s
          else if i \<ge> 0x39 \<and> i \<le> 0x43 then waterlevel_caculation h t value pconfig result clear s
          else dev_mod (dev_id s i) (set_val value) s
     else Some s }"

text \<open>What the surroundings do while one sensor is read.\<close>

record SensorEnv =
  se_wrote :: "bytes \<Rightarrow> int"
  se_set_ok :: bool
  se_junk :: termios
  se_clock :: int
  se_turns :: "Turn list"
  se_after :: int
  se_end :: int
  se_time :: int

text \<open>\<open>dn_pdd\<close> is the machine the pointer \<^verbatim>\<open>pdd\<close> names, by its port; \<open>None\<close> is a null pointer. The
  count of errors is raised in a copy of the sensor's settings.\<close>

record Down =
  dn_app :: App
  dn_devs :: Ports
  dn_pdd :: "string option"
  dn_last :: int

definition run_process :: "(bytes \<Rightarrow> int) \<Rightarrow> int \<Rightarrow> Down \<Rightarrow> Down option" where
  "run_process wrote clock n = do {
     p \<leftarrow> dn_pdd n;
     f \<leftarrow> dfsm_device_find (dn_devs n) p;
     (g, out) \<leftarrow> dfsm_process wrote clock f;
     Some (n\<lparr>dn_devs := (dn_devs n)(p \<mapsto> g)\<rparr>) }"

definition down_sensor :: "Host \<Rightarrow> SensorEnv \<Rightarrow> rtu_485 \<Rightarrow> Down \<Rightarrow> Down option" where
  "down_sensor h e item n =
     (case dfsm_device_find (dn_devs n) (rs_port item) of
        None \<Rightarrow> Some (n\<lparr>dn_pdd := None\<rparr>)
      | Some f \<Rightarrow> do {
          (f1, r) \<leftarrow> dfsm_setbaud (rs_baud item) (se_set_ok e) (se_junk e) f;
          (f2, outs, value, returnValue) \<leftarrow> read_a_data (se_wrote e) (se_clock e) (se_turns e) item 4000 f1;
          n1 \<leftarrow> run_process (se_wrote e) (se_after e)
                 (n\<lparr>dn_devs := (dn_devs n)(rs_port item \<mapsto> f2), dn_pdd := Some (rs_port item)\<rparr>);
          let result = (returnValue > 0);
          let clear = (\<not> result \<and> rs_err_cnt item + 1 \<ge> 3);
          let a = (if result then (dn_app n1)\<lparr>app_head := set_observetime_time (app_head (dn_app n1)) (se_time e)\<rparr>
                   else dn_app n1);
          b \<leftarrow> down_store h (se_time e) (rs_factorType item) value result clear a;
          run_process (se_wrote e) (se_end e) (n1\<lparr>dn_app := b\<rparr>) })"

fun down_sweep :: "Host \<Rightarrow> (nat \<Rightarrow> SensorEnv) \<Rightarrow> nat \<Rightarrow> rtu_485 list \<Rightarrow> Down \<Rightarrow> Down option" where
  "down_sweep h es i [] n = run_process (se_wrote (es i)) (se_after (es i)) n"
| "down_sweep h es i (item # items) n = do {
     n1 \<leftarrow> down_sensor h (es i) item n;
     down_sweep h es (Suc i) items n1 }"

text \<open>One turn of the loop of the thread at the time \<open>now\<close>. The sensors are those of the settings in
  use; \<open>wrote\<close> and \<open>clock\<close> are those of the last call of \<^verbatim>\<open>process\<close>.\<close>

definition thread_down_turn ::
    "Host \<Rightarrow> (nat \<Rightarrow> SensorEnv) \<Rightarrow> (bytes \<Rightarrow> int) \<Rightarrow> int \<Rightarrow> int \<Rightarrow> Down \<Rightarrow> Down option" where
  "thread_down_turn h es wrote clock now n = do {
     (l, due) \<leftarrow> is_down True now (dn_app n) (dn_last n);
     let n0 = n\<lparr>dn_last := l\<rparr>;
     n1 \<leftarrow> (if due then down_sweep h es 0 (rtu_rs485 (app_rtu (dn_app n0))) n0 else Some n0);
     if dn_pdd n1 \<noteq> None then run_process wrote clock n1 else Some n1 }"

text \<open>The start of the thread: a machine for every port of the settings.\<close>

definition thread_down_start :: "(nat \<Rightarrow> PortOpen) \<Rightarrow> App \<Rightarrow> Down" where
  "thread_down_start sys s =
     \<lparr>dn_app = s, dn_devs = dfsm_device_init sys 0 (rtu_rs485 (app_rtu s)) (\<lambda>_. None), dn_pdd = None, dn_last = 0\<rparr>"

end
