(* ===== verification/Sensor_Laws.thy ===== *)
theory Sensor_Laws
  imports Data_Save Thread_Down
begin

text \<open>
  Every handler of the sensors, of the rain gauge and of the data thread keeps the four tables of the
  shared state sound.
\<close>

section \<open>Changes that keep an item sound\<close>

lemma keeps_map:
  assumes "\<And>it it' j. g it = Some (it', j) \<Longrightarrow> config it' = config it \<and> (wf_item it \<longrightarrow> wf_item it')"
  shows "keeps (\<lambda>it. map_option fst (g it))"
  using assms by (fastforce simp: keeps_def)

lemma load_item_keeps:
  assumes "load_item it rb j c = Some (it', k)"
  shows "config it' = config it \<and> (wf_item it \<longrightarrow> wf_item it')"
proof (cases "it_format it")
  case DF_HEX
  with assms obtain src h' where "copy_to (it_hex it) src = Some h'" "it' = it\<lparr>it_hex := h'\<rparr>"
    by (auto simp: load_item_def split: bind_splits)
  moreover from this(1) have "h' = it_hex it \<or> (\<exists>h h2. it_hex it = Some h \<and> memcpy_at 0 src h = Some h2 \<and> h' = Some h2)"
    by (cases "src = []") (auto simp: copy_to_def split: bind_splits)
  ultimately show ?thesis using memcpy_at_length by (fastforce simp: wf_item_def)
next
  case DF_CHAR
  with assms obtain src ch c1 c2 where "it_chars it = Some ch" "memcpy_at 0 src ch = Some c1" "wr c1 (nat c) 0 = Some c2"
    "it' = it\<lparr>it_chars := Some c2\<rparr>"
    by (auto simp: load_item_def split: bind_splits)
  moreover from this have "length c2 = length ch" using memcpy_at_length wr_length by metis
  ultimately show ?thesis using DF_CHAR by (auto simp: wf_item_def)
qed (use assms in \<open>auto simp: load_item_def wf_item_def split: bind_splits if_splits\<close>)

lemma fromreport_keeps:
  "fromreport it bs = Some (it', k) \<Longrightarrow> config it' = config it \<and> (wf_item it \<longrightarrow> wf_item it')"
  by (auto simp: fromreport_def load_report_def Let_def dest: load_item_keeps split: bind_splits)

lemma keeps_fromreport [wf_intros]: "keeps (\<lambda>it. map_option fst (fromreport it bs))"
  by (rule keeps_map) (rule fromreport_keeps)

lemma keeps_fromreport_text [wf_intros]: "keeps (\<lambda>it. map_option fst (fromreport_text it s))"
  by (rule keeps_map) (auto simp: fromreport_text_def dest: fromreport_keeps split: bind_splits)

lemma keeps_set_hex_all [wf_intros]: "keeps (set_hex_all b)"
  using fill_length by (fastforce simp: keeps_def set_hex_all_def wf_item_def split: bind_splits)

lemma keeps_set_hex_at_0 [wf_intros]:
  "keeps (\<lambda>it. do { h \<leftarrow> it_hex it; h' \<leftarrow> memcpy_at 0 src h; Some (it\<lparr>it_hex := Some h'\<rparr>) })"
  by (fastforce simp: keeps_def wf_item_def dest: memcpy_at_length split: bind_splits)

section \<open>Changes that keep a table sound\<close>

lemma item_fromreport_modify:
  "item_fromreport d p bs = Some (d', j) \<Longrightarrow> modify_item d p (\<lambda>it. map_option fst (fromreport it bs)) = Some d'"
  by (auto simp: item_fromreport_def modify_item_def update_at_def split: bind_splits)

definition sound :: "DataClassConfigType \<Rightarrow> DataClass \<Rightarrow> bool" where
  "sound t d \<longleftrightarrow> table_ok t d \<and> names_wf d"

lemma app_wf_sound:
  "app_wf s \<longleftrightarrow> sound Type_Dev (devdata s) \<and> sound Type_Param (param s) \<and> sound Type_Runtime (runtime s) \<and> sound Type_AppData (app_A s)"
  by (auto simp: app_wf_def sound_def)

lemma sound_new: "sound t (new_DataClass a t n)"
  by (simp add: sound_def table_ok_new new_names_wf)

lemma sound_modify: "modify_item d p f = Some d' \<Longrightarrow> keeps f \<Longrightarrow> sound t d \<Longrightarrow> sound t d'"
  using table_ok_modify [of t d p f d'] names_wf_frame [OF modify_item_frame(1), of d p f d'] by (simp add: sound_def)

lemma sound_fromreport: "item_fromreport d p bs = Some (d', j) \<Longrightarrow> sound t d \<Longrightarrow> sound t d'"
  using item_fromreport_modify sound_modify keeps_fromreport by blast

lemma sound_log_entries: "log_entries junk line i ms d = Some d' \<Longrightarrow> sound t d \<Longrightarrow> sound t d'"
proof (induction ms arbitrary: i d)
  case (Cons m ms)
  then obtain d1 where d1: "log_entry junk line i m d = Some d1" "log_entries junk line (Suc i) ms d1 = Some d'"
    by (auto split: bind_splits)
  have "sound t d1"
    using d1(1) Cons.prems(2) by (auto simp: log_entry_def Let_def intro: sound_fromreport split: bind_splits if_splits)
  then show ?case using Cons.IH d1(2) by blast
qed simp

lemma sound_fromlog: "fromlog mem_ok junk line d = Some d' \<Longrightarrow> sound t d \<Longrightarrow> sound t d'"
  by (auto simp: fromlog_def intro: sound_log_entries split: bind_splits if_splits)

lemma sound_recover_center: "recover_center cs i d = Some d' \<Longrightarrow> sound t d \<Longrightarrow> sound t d'"
proof (induction cs arbitrary: i d)
  case (Cons c cs)
  show ?case
  proof (cases "i < 4")
    case True
    then obtain d1 where d1: "recover_center cs (Suc i) d1 = Some d'"
      "modify_item d (at_id d 0x01) (set_hex i (word_of_int c)) = Some d1"
      using Cons.prems(1) by (auto split: bind_splits)
    then show ?thesis using Cons.IH [OF d1(1)] sound_modify [OF d1(2) keeps_set_hex Cons.prems(2)] by blast
  qed (use Cons.prems in simp)
qed simp

lemma sound_recover_remote: "recover_remote stack rs i d = Some d' \<Longrightarrow> sound t d \<Longrightarrow> sound t d'"
proof (induction rs arbitrary: i d)
  case (Cons r rs)
  show ?case
  proof (cases "i < 8")
    case True
    then obtain src d1 where d1: "recover_remote stack rs (Suc i) d1 = Some d'"
      "modify_item d (at_id d (0x04 + word_of_nat i))
          (\<lambda>it. do { h \<leftarrow> it_hex it; h' \<leftarrow> memcpy_at 0 src h; Some (it\<lparr>it_hex := Some h'\<rparr>) }) = Some d1"
      using Cons.prems(1) by (auto split: bind_splits)
    then show ?thesis using Cons.IH [OF d1(1)] sound_modify [OF d1(2) keeps_set_hex_at_0 Cons.prems(2)] by blast
  qed (use Cons.prems in simp)
qed simp

lemma sound_param_recovery:
  assumes "param_recovery stack rtu d = Some d'" "sound t d"
  shows "sound t d'"
proof -
  from assms(1) obtain p1 p2 p3 p4 p5 where
    p: "modify_item d (at_id d 0x02) (set_val (strtoull16 (rtu_terminalNo rtu))) = Some p1"
      "modify_item p1 (at_id p1 0x03) (set_val (strtoull16 (rtu_passwd rtu))) = Some p2"
      "recover_center (rtu_center rtu) 0 p2 = Some p3" "recover_remote stack (rtu_remote rtu) 0 p3 = Some p4"
      "(if rtu_model rtu = ''normal'' then modify_item p4 (at_id p4 0x0C) (set_hex 0 0x02) else Some p4) = Some p5"
      "modify_item p5 (at_name p5 ''terminalType'') (set_val (word_of_int (rtu_terminalType rtu))) = Some d'"
    unfolding param_recovery_def by (auto split: bind_splits)
  have "sound t p4"
    using sound_recover_remote [OF p(4)] sound_recover_center [OF p(3)]
      sound_modify [OF p(2) keeps_set_val] sound_modify [OF p(1) keeps_set_val assms(2)] by blast
  then have "sound t p5" using p(5) sound_modify keeps_set_hex by (cases "rtu_model rtu = ''normal''") auto
  then show ?thesis using sound_modify [OF p(6) keeps_set_val] by blast
qed

lemma sound_runtime_recovery:
  assumes "runtime_recovery rtu d = Some d'" "sound t d"
  shows "sound t d'"
proof -
  have "runtime_recover_loop es d = Some d' \<Longrightarrow> sound t d \<Longrightarrow> sound t d'" for es
  proof (induction es arbitrary: d)
    case (Cons e es)
    obtain n v where e: "e = (n, v)" by fastforce
    then obtain d1 where d1: "modify_item d (at_name d n) (set_val v) = Some d1" "runtime_recover_loop es d1 = Some d'"
      using Cons.prems(1) by (auto split: bind_splits)
    show ?case using Cons.IH [OF d1(2)] sound_modify [OF d1(1) keeps_set_val Cons.prems(2)] by blast
  qed simp
  then show ?thesis using assms by (simp add: runtime_recovery_def)
qed

lemma sound_jia: "jia_add_flags d n = Some d' \<Longrightarrow> sound t d \<Longrightarrow> sound t d'"
proof -
  assume j: "jia_add_flags d n = Some d'" and s: "sound t d"
  from j obtain it where it: "get_place d (at_name d ''jia'') = Some it" by (auto simp: jia_add_flags_def split: bind_splits)
  show ?thesis
  proof (cases "n \<in> set (it_list it)")
    case False
    with j it have "modify_item d (at_name d ''jia'') (\<lambda>it. Some (it\<lparr>it_list := it_list it @ [n]\<rparr>)) = Some d'"
      by (auto simp: jia_add_flags_def modify_item_def update_at_def)
    then show ?thesis by (rule sound_modify [OF _ _ s]) (simp add: keeps_def wf_item_def)
  qed (use j it s in \<open>simp add: jia_add_flags_def\<close>)
qed

lemma init_app_item_keeps: "init_app_item it = Some it' \<Longrightarrow> config it' = config it \<and> (wf_item it \<longrightarrow> wf_item it')"
  using fill_length
  by (fastforce simp: init_app_item_def wf_item_def split: bind_splits DataFormat.splits)

lemma sound_init_appdata:
  assumes "init_appdata d = Some d'" "sound t d"
  shows "sound t d'"
proof -
  from assms(1) obtain its where its: "mapM_option init_app_item (dc_items d) = Some its" "d' = d\<lparr>dc_items := its\<rparr>"
    by (auto simp: init_appdata_def split: bind_splits)
  have "mapM_option init_app_item xs = Some ys \<Longrightarrow>
      map config ys = map config xs \<and> (list_all wf_item xs \<longrightarrow> list_all wf_item ys)" for xs ys
    by (induction xs arbitrary: ys) (auto dest: init_app_item_keeps split: bind_splits)
  note m = this [OF its(1)]
  then have "same_frame d d'" by (simp add: same_frame_def its(2))
  then show ?thesis
    using assms(2) m dc_wf_frame [of d d'] names_wf_frame [of d d'] its(2)
    by (simp add: sound_def table_ok_def same_frame_def)
qed

section \<open>Fresh tables\<close>

lemma Init_fresh:
  "it \<in> set (dc_items (DataClassInit a cs d)) \<Longrightarrow> it \<in> set (dc_items d) \<or> (\<exists>v. it = init_item v (config it))"
proof (induction cs arbitrary: d)
  case (Cons c cs)
  from Cons.IH [of "push_item d (init_item (a (length (dc_items d))) c)"] Cons.prems
  show ?case by (auto simp: push_item_def)
qed simp

lemma new_item:
  assumes "row_of t i = Some c"
  obtains v where "get_place (new_DataClass a t n) (at_u16 (new_DataClass a t n) i) = Some (init_item v c)"
proof -
  let ?d = "new_DataClass a t n"
  obtain k it where it: "at_u16 ?d i = PItem k" "get_place ?d (at_u16 ?d i) = Some it" "config it = c"
    using table_ok_id [OF table_ok_new assms] by blast
  then have "it \<in> set (dc_items ?d)" by (auto simp: get_place_def rd_def split: if_splits)
  then obtain v where "it = init_item v c"
    using Init_fresh [of it a "config_items_of t" "empty_class\<lparr>dc_type := t\<rparr>"] it(3)
    by (auto simp: new_DataClass_def empty_class_def)
  with it(2) show ?thesis by (intro that) simp
qed

lemma new_val:
  assumes "row_of t i = Some c" "cfg_format c \<in> {DF_BCD, DF_HEXNum}"
  shows "val_of (new_DataClass a t n) i = Some DATA_INVALID_VALUE"
proof -
  obtain v where "get_place (new_DataClass a t n) (at_u16 (new_DataClass a t n) i) = Some (init_item v c)"
    by (rule new_item [OF assms(1)])
  then show ?thesis using assms(2) by (auto simp: val_of_def init_item_def blank_item_def)
qed

lemma new_item_name:
  assumes "name_of t m = Some c"
  obtains v where "get_place (new_DataClass a t n) (at_name (new_DataClass a t n) m) = Some (init_item v c)"
proof -
  let ?d = "new_DataClass a t n"
  obtain k it where it: "at_name ?d m = PItem k" "get_place ?d (at_name ?d m) = Some it" "config it = c"
    using table_ok_name [OF table_ok_new new_names_wf assms] by blast
  then have "it \<in> set (dc_items ?d)" by (auto simp: get_place_def rd_def split: if_splits)
  then obtain v where "it = init_item v c"
    using Init_fresh [of it a "config_items_of t" "empty_class\<lparr>dc_type := t\<rparr>"] it(3)
    by (auto simp: new_DataClass_def empty_class_def)
  with it(2) show ?thesis by (intro that) simp
qed

section \<open>The parts of the state\<close>

lemma app_wf_other [simp]:
  "app_wf (s\<lparr>app_db := a\<rparr>) = app_wf s" "app_wf (s\<lparr>app_rtu := b\<rparr>) = app_wf s" "app_wf (s\<lparr>app_file := b\<rparr>) = app_wf s"
  "app_wf (s\<lparr>rain_last := i\<rparr>) = app_wf s" "app_wf (s\<lparr>water_last := i\<rparr>) = app_wf s" "app_wf (s\<lparr>flow_last := i\<rparr>) = app_wf s"
  "app_wf (s\<lparr>devdata_now := i\<rparr>) = app_wf s" "app_wf (s\<lparr>yanshichongqi := y\<rparr>) = app_wf s"
  by (simp_all add: app_wf_def)

lemma app_wf_put_base [simp]: "app_wf (put_base_table tn tb s) = app_wf s"
  by (simp add: put_base_table_def)

lemma dev_wf: "dev_mod p f s = Some s' \<Longrightarrow> keeps f \<Longrightarrow> app_wf s \<Longrightarrow> app_wf s'"
  using dev_mod_wf by blast

lemma A_wf: "A_mod n f s = Some s' \<Longrightarrow> keeps f \<Longrightarrow> app_wf s \<Longrightarrow> app_wf s'"
  using A_mod_wf by blast

lemma jia_wf: "app_jia n s = Some s' \<Longrightarrow> app_wf s \<Longrightarrow> app_wf s'"
  by (auto simp: app_jia_def app_wf_sound intro: sound_jia split: bind_splits)

section \<open>Water level and flow\<close>

lemma clear_from_wf: "clear_from i k s = Some s' \<Longrightarrow> app_wf s \<Longrightarrow> app_wf s'"
proof (induction k arbitrary: i s)
  case (Suc k)
  then obtain s1 where "dev_mod (dev_id s i) it_clear s = Some s1" "clear_from (i + 1) k s1 = Some s'"
    by (auto split: bind_splits)
  then show ?case using Suc.IH Suc.prems(2) dev_wf keeps_clear by blast
qed simp

lemma set_DRZ_wf: "set_DRZ i v off s = Some (s', r) \<Longrightarrow> app_wf s \<Longrightarrow> app_wf s'"
  using dev_wf keeps_put_u16 by (fastforce simp: set_DRZ_def split: bind_splits if_splits)

lemma addbase_wf: "waterlevel_addbase h t i v clr s = Some (s', r) \<Longrightarrow> app_wf s \<Longrightarrow> app_wf s'"
proof -
  assume a: "waterlevel_addbase h t i v clr s = Some (s', r)" and w: "app_wf s"
  show ?thesis
  proof (cases "i < 0x3C \<or> i > 0x43")
    case True
    with a w show ?thesis by (simp add: waterlevel_addbase_def)
  next
    case False
    with a obtain f s1 j v2 off k where "dev_mod (dev_id s i) f s = Some s1" "keeps f" "set_DRZ j v2 off s1 = Some (s', k)"
      by (cases clr) (auto simp: waterlevel_addbase_def Let_def split: bind_splits, (use keeps_clear keeps_set_val in blast)+)
    then show ?thesis using w dev_wf set_DRZ_wf by blast
  qed
qed

lemma level_warn_wf: "level_warn u d l i prev n s = Some (s', r) \<Longrightarrow> app_wf s \<Longrightarrow> app_wf s'"
  by (auto simp: level_warn_def Let_def split: bind_splits if_splits) (blast intro: jia_wf)+

lemma warn_loop_wf: "waterlevel_warn_loop m u d pdata i k prev s = Some s' \<Longrightarrow> app_wf s \<Longrightarrow> app_wf s'"
proof (induction k arbitrary: i prev s)
  case (Suc k)
  from Suc.prems(1) obtain lim p1 nw s1 p2 where
    "level_warn u d lim i p1 nw s = Some (s1, p2)" "waterlevel_warn_loop m u d pdata (Suc i) k p2 s1 = Some s'"
    unfolding waterlevel_warn_loop.simps by (auto simp del: waterlevel_warn_loop.simps split: bind_splits)
  then show ?case using Suc.IH Suc.prems(2) level_warn_wf by blast
qed simp

lemma water_warn_wf: "waterlevel_warn_check h t s = Some s' \<Longrightarrow> app_wf s \<Longrightarrow> app_wf s'"
  by (auto simp: waterlevel_warn_check_def Let_def split: bind_splits if_splits intro: warn_loop_wf)

lemma copy_val_wf: "copy_val a b s = Some s' \<Longrightarrow> app_wf s \<Longrightarrow> app_wf s'"
  by (auto simp: copy_val_def split: bind_splits intro: dev_wf keeps_set_val)

lemma dev_mods [wf_intros]:
  "dev_mod p (set_val v) s = Some s' \<Longrightarrow> app_wf s \<Longrightarrow> app_wf s'"
  "dev_mod p it_clear s = Some s' \<Longrightarrow> app_wf s \<Longrightarrow> app_wf s'"
  "dev_mod p (set_hex_all b) s = Some s' \<Longrightarrow> app_wf s \<Longrightarrow> app_wf s'"
  "A_mod n (set_val v) s = Some s' \<Longrightarrow> app_wf s \<Longrightarrow> app_wf s'"
  using dev_wf A_wf keeps_set_val keeps_clear keeps_set_hex_all by blast+

lemmas level_rules = dev_mods jia_wf clear_from_wf set_DRZ_wf addbase_wf water_warn_wf copy_val_wf

lemma init_waterlevel_wf: "init_waterlevel t s = Some s' \<Longrightarrow> app_wf s \<Longrightarrow> app_wf s'"
  by (auto simp: init_waterlevel_def reset_DRZ_def split: bind_splits if_splits) (blast intro: level_rules)+

lemma waterlevel_caculation_wf: "waterlevel_caculation h t wl c r clr s = Some s' \<Longrightarrow> app_wf s \<Longrightarrow> app_wf s'"
  by (auto simp: waterlevel_caculation_def Let_def split: bind_splits if_splits) (blast intro: level_rules)+

lemma waterlevel_poll_wf: "waterlevel_poll t s = Some s' \<Longrightarrow> app_wf s \<Longrightarrow> app_wf s'"
  using clear_from_wf [of _ 8 _ s'] by (auto simp: waterlevel_poll_def reset_DRZ_def Let_def split: if_splits)

lemma flow_addbase_wf: "flow_addbase i v clr s = Some (s', r) \<Longrightarrow> app_wf s \<Longrightarrow> app_wf s'"
  by (auto simp: flow_addbase_def split: if_splits) (blast intro: dev_mods)+

lemma flow_loop_wf: "flow_warn_loop l i k s = Some s' \<Longrightarrow> app_wf s \<Longrightarrow> app_wf s'"
proof (induction k arbitrary: i s)
  case (Suc k)
  then obtain it s1 where "(if sint (it_Value it) > l then app_jia ''liuliang'' s else Some s) = Some s1"
    "flow_warn_loop l (i + 1) k s1 = Some s'" by (auto split: bind_splits)
  then show ?case using Suc.IH Suc.prems(2) jia_wf by (metis option.inject)
qed simp

lemma flow_warn_wf: "flow_warn_check s = Some s' \<Longrightarrow> app_wf s \<Longrightarrow> app_wf s'"
  using flow_loop_wf by (auto simp: flow_warn_check_def split: bind_splits if_splits)

lemma init_flow_wf: "init_flow t s = Some s' \<Longrightarrow> app_wf s \<Longrightarrow> app_wf s'"
  by (auto simp: init_flow_def split: bind_splits if_splits) (blast intro: level_rules)+

lemma flow_caculation_wf: "flow_caculation wl c r clr s = Some s' \<Longrightarrow> app_wf s \<Longrightarrow> app_wf s'"
  by (auto simp: flow_caculation_def Let_def split: bind_splits if_splits)
    (blast intro: flow_addbase_wf flow_warn_wf copy_val_wf dev_mods)+

lemma flow_poll_wf: "flow_poll t s = Some s' \<Longrightarrow> app_wf s \<Longrightarrow> app_wf s'"
  using flow_warn_wf [of _ s'] by (auto simp: flow_poll_def Let_def split: if_splits)

lemma down_store_wf: "down_store h t f v r clr s = Some s' \<Longrightarrow> app_wf s \<Longrightarrow> app_wf s'"
  by (auto simp: down_store_def Let_def split: bind_splits if_splits)
    (blast intro: flow_caculation_wf waterlevel_caculation_wf dev_mods)+

section \<open>Rain\<close>

lemma increase_wf: "increase i v s = Some s' \<Longrightarrow> app_wf s \<Longrightarrow> app_wf s'"
  "increase_DRP v off s = Some s' \<Longrightarrow> app_wf s \<Longrightarrow> app_wf s'"
  using app_wf_dev by blast+

lemma rainacc_save_wf: "rainacc_save h t s = Some s' \<Longrightarrow> app_wf s \<Longrightarrow> app_wf s'"
  by (auto simp: rainacc_save_def Let_def split: bind_splits prod.splits)

lemma init_currentRain_wf: "init_currentRain h t s = Some s' \<Longrightarrow> app_wf s \<Longrightarrow> app_wf s'"
  by (auto simp: init_currentRain_def Let_def split: bind_splits) (blast intro: dev_mods)+

lemma init_dayRain_wf: "init_dayRain h t s = Some s' \<Longrightarrow> app_wf s \<Longrightarrow> app_wf s'"
  by (auto simp: init_dayRain_def Let_def split: bind_splits) (blast intro: dev_mods)+

lemma init_5min_wf: "init_5min s = Some s' \<Longrightarrow> app_wf s \<Longrightarrow> app_wf s'"
  by (auto simp: init_5min_def Let_def split: bind_splits) (blast intro: dev_mods)+

lemma rain_caculation_wf:
  assumes "rain_caculation h t n s = Some s'" "app_wf s"
  shows "app_wf s'"
proof (cases "n > 0")
  case True
  let ?s0 = "s\<lparr>app_head := set_observetime_time (app_head s) t\<rparr>"
  from assms(1) True obtain inc off s1 s2 s3 s4 s5 f where
    s: "A_mod ''rainIncFlag'' (set_val 1) ?s0 = Some s1" "increase 0x1A inc s1 = Some s2" "increase 0x20 inc s2 = Some s3"
      "increase_DRP inc off s3 = Some s4" "increase 0x26 inc s4 = Some s5"
    and f: "A_mod ''rainAcc'' f s5 = Some s'" "keeps f"
    by (auto simp: rain_caculation_def Let_def keeps_def set_val_def wf_item_def split: bind_splits if_splits)
  have "app_wf s5" using increase_wf s dev_mods(4) [OF s(1)] assms(2) by auto
  then show ?thesis using A_wf f by blast
qed (use assms in \<open>auto simp: rain_caculation_def Let_def split: bind_splits\<close>)

lemma di_get_wf: "di_get h t ev old s = Some (s', e) \<Longrightarrow> app_wf s \<Longrightarrow> app_wf s'"
  by (auto simp: di_get_def Let_def split: if_splits) (blast intro: rain_caculation_wf)+

lemma rain_warn_wf:
  assumes "rain_warn_check h t s = Some s'" "app_wf s"
  shows "app_wf s'"
proof -
  have k: "keeps (\<lambda>it. Some (it\<lparr>it_val := it_val it OR 1\<rparr>))" by (simp add: keeps_def wf_item_def)
  show ?thesis using assms
    by (auto simp: rain_warn_check_def Let_def split: bind_splits if_splits) (blast intro: jia_wf dev_mods A_wf k)+
qed

lemma init_rain_wf: "init_rain h t s = Some s' \<Longrightarrow> app_wf s \<Longrightarrow> app_wf s'"
  by (auto simp: init_rain_def split: bind_splits if_splits)
    (blast intro: init_currentRain_wf init_dayRain_wf init_5min_wf)+

lemma rain_poll_wf:
  assumes "rain_poll h t s = Some s'" "app_wf s"
  shows "app_wf s'"
proof -
  let ?s = "if rain_last s = 0 then s\<lparr>rain_last := t\<rparr> else s"
  have w: "app_wf ?s" "app_wf (?s\<lparr>rain_last := t\<rparr>)" using assms(2) by simp_all
  obtain s1 where s1: "rain_warn_check h t s1 = Some s'"
    "(if is_diff_hour (rain_last ?s) t
      then do { a \<leftarrow> init_5min (?s\<lparr>rain_last := t\<rparr>); b \<leftarrow> init_dayRain h t a; init_currentRain h t b }
      else Some ?s) = Some s1"
    using assms(1) unfolding rain_poll_def Let_def by (auto split: bind_splits simp del: if_split)
  have "app_wf s1"
  proof (cases "is_diff_hour (rain_last ?s) t")
    case True
    with s1(2) obtain a b where "init_5min (?s\<lparr>rain_last := t\<rparr>) = Some a" "init_dayRain h t a = Some b" "init_currentRain h t b = Some s1"
      by (auto split: bind_splits simp del: if_split)
    then show ?thesis using w(2) init_5min_wf init_dayRain_wf init_currentRain_wf by blast
  qed (use s1(2) w(1) in auto)
  then show ?thesis using rain_warn_wf s1(1) by blast
qed

section \<open>Start and the data thread\<close>

lemma db_save_wf: "devdata_db_save h tn c t d s = Some s' \<Longrightarrow> app_wf s \<Longrightarrow> app_wf s'"
  by (auto simp: devdata_db_save_def Let_def split: bind_splits prod.splits)

lemma devdata_save_wf: "devdata_save h t s = Some s' \<Longrightarrow> app_wf s \<Longrightarrow> app_wf s'"
  by (auto simp: devdata_save_def intro: db_save_wf)

lemma save_if_need_wf [simp]: "app_wf (save_if_need s) = app_wf s"
  by (simp add: save_if_need_def split: prod.splits)

lemma powerdown_wf: "powerdown_save h t s = Some s' \<Longrightarrow> app_wf s \<Longrightarrow> app_wf s'"
  using rainacc_save_wf devdata_save_wf by (fastforce simp: powerdown_save_def split: bind_splits)

lemma devdata_recovery_wf: "devdata_recovery h t s = Some (s', n) \<Longrightarrow> app_wf s \<Longrightarrow> app_wf s'"
  by (auto simp: devdata_recovery_def Let_def app_wf_sound split: prod.splits bind_splits if_splits)
    (blast intro: sound_fromlog)+

lemma startup_wf:
  assumes "startup_recovery h stack loaded t s0 = Some s'" "app_wf s0"
  shows "app_wf s'"
proof -
  from assms(1) obtain s1 n p r s3 s4 s5 a where
    s: "devdata_recovery h t (s0\<lparr>app_rtu := loaded\<rparr>) = Some (s1, n)" "param_recovery stack (app_rtu s1) (param s1) = Some p"
      "runtime_recovery (app_rtu s1) (runtime s1) = Some r"
      "init_rain h t (s1\<lparr>param := p, runtime := r\<rparr>) = Some s3" "init_waterlevel t s3 = Some s4" "init_flow t s4 = Some s5"
      "init_appdata (app_A s5) = Some a" "s' = s5\<lparr>app_A := a\<rparr>"
    by (auto simp: startup_recovery_def Let_def split: bind_splits)
  have "app_wf s1" using devdata_recovery_wf [OF s(1)] assms(2) by simp
  then have "app_wf (s1\<lparr>param := p, runtime := r\<rparr>)"
    using sound_param_recovery [OF s(2)] sound_runtime_recovery [OF s(3)] by (simp add: app_wf_sound)
  then have "app_wf s5" using init_rain_wf [OF s(4)] init_waterlevel_wf [OF s(5)] init_flow_wf [OF s(6)] by blast
  then show ?thesis using sound_init_appdata [OF s(7)] s(8) by (simp add: app_wf_sound)
qed

lemma data_turn_wf:
  assumes "data_process_turn h t upd prev s = Some (s', r)" "app_wf s"
  shows "app_wf s'"
proof -
  from assms(1) obtain s1 s2 s3 s4 where
    s: "(if prev \<noteq> frozen t then devdata_save h t s else Some s) = Some s1"
      "waterlevel_poll t s1 = Some s2" "flow_poll t s2 = Some s3" "rain_poll h t s3 = Some s4"
    and r: "(if upd then do { s6 \<leftarrow> powerdown_save h t (save_if_need s4); Some (s6, Quits) }
      else if yanshichongqi (save_if_need s4)
      then do { s6 \<leftarrow> rainacc_save h t (save_if_need s4); s7 \<leftarrow> devdata_save h t s6; Some (s7, Quits) }
      else Some (save_if_need s4, Goes_on (frozen t))) = Some (s', r)"
    unfolding data_process_turn_def Let_def by (auto split: bind_splits simp del: if_split)
  have "app_wf s1" using s(1) assms(2) devdata_save_wf by (cases "prev \<noteq> frozen t") auto
  then have "app_wf s4" using s(2-4) waterlevel_poll_wf flow_poll_wf rain_poll_wf by blast
  then have w: "app_wf (save_if_need s4)" by simp
  show ?thesis
  proof (cases upd)
    case True
    with r w show ?thesis by (auto split: bind_splits intro: powerdown_wf)
  next
    case False
    show ?thesis
    proof (cases "yanshichongqi (save_if_need s4)")
      case True
      with False r obtain s6 where "rainacc_save h t (save_if_need s4) = Some s6" "devdata_save h t s6 = Some s'"
        by (auto split: bind_splits)
      then show ?thesis using w rainacc_save_wf devdata_save_wf by blast
    next
      case q: False
      with False r w show ?thesis by simp
    qed
  qed
qed

end
