(* ===== verification/Center_Laws.thy ===== *)
theory Center_Laws
  imports Center Packet_Spec Sensor_Laws
begin

text \<open>
  The laws of the centre's commands: a frame reaches the dispatch with the fields the centre put in,
  it is carried out only with the address and the password of the station, and a change of the
  password is what the settings hold afterwards.
\<close>

section \<open>From the frame to the dispatch\<close>

text \<open>Accepting leaves the three bytes between the station address and the password alone.\<close>

lemma accept_frame_gap:
  assumes "length (ud_p ud) = ud_size" "off_rlocal + 5 \<le> i" "i < off_rpasswd"
  shows "ud_p (accept_frame ud) ! i = ud_p ud ! i"
proof -
  define p1 where "p1 = put_bytes off_packetlen (le_bytes 4 (ud_len ud)) (ud_p ud)"
  define p2 where "p2 = p1[off_etx := p1 ! (ud_len ud - 3)]"
  define p3 where "p3 = put_bytes off_rlocal (rev (take 5 (drop 2 p2))) p2"
  note offs = off_packetlen_def off_etx_def off_rlocal_def off_rpasswd_def ud_size_def
  have e: "ud_p (accept_frame ud) = put_bytes off_rpasswd (rev (take 2 (drop 8 p3))) p3"
    by (simp add: accept_frame_def Let_def p1_def p2_def p3_def)
  have l1: "length p1 = ud_size" unfolding p1_def using assms(1) by (subst length_put_bytes) (simp_all add: offs)
  have l2: "length p2 = ud_size" by (simp add: p2_def l1)
  have s5: "length (rev (take 5 (drop 2 p2))) = 5" using l2 by (simp add: ud_size_def)
  have l3: "length p3 = ud_size" unfolding p3_def using l2 s5 by (subst length_put_bytes) (simp_all add: offs)
  have "ud_p (accept_frame ud) ! i = p3 ! i"
    unfolding e using assms l3 by (intro put_bytes_low) (simp_all add: offs)
  also have "\<dots> = p2 ! i" unfolding p3_def using assms l2 s5 by (intro put_bytes_high) (simp_all add: offs)
  also have "\<dots> = p1 ! i" using assms(2) by (simp add: p2_def offs)
  also have "\<dots> = ud_p ud ! i" unfolding p1_def using assms by (intro put_bytes_high) (simp_all add: offs)
  finally show ?thesis .
qed

lemma rev_at_length: "off + n \<le> length p \<Longrightarrow> length (rev_at off n p) = length p"
  by (simp add: rev_at_def put_bytes_def)

lemma rev_at_get: "off + n \<le> length p \<Longrightarrow> take n (drop off (rev_at off n p)) = rev (take n (drop off p))"
  by (simp add: rev_at_def put_bytes_def)

lemma rev_at_nth:
  assumes "off + n \<le> length p" "i < length p" "i < off \<or> off + n \<le> i"
  shows "rev_at off n p ! i = p ! i"
  using assms put_bytes_low [of i off p "rev (take n (drop off p))"] put_bytes_high [of off "rev (take n (drop off p))" i p]
  by (auto simp: rev_at_def)

lemma seg_eq:
  assumes "length a = length b" "off + n \<le> length a" "\<And>i. off \<le> i \<Longrightarrow> i < off + n \<Longrightarrow> a ! i = b ! i"
  shows "take n (drop off a) = take n (drop off (b :: bytes))"
  using assms by (intro nth_equalityI) simp_all

text \<open>The length word of a frame of the centre.\<close>

lemma down_length_word:
  assumes "n < 4096"
  shows "(word_of_nat (32768 + n) :: u16) AND 0x8000 = 0x8000" "unat ((word_of_nat (32768 + n) :: u16) AND 0xFFF) = n"
proof -
  let ?w = "word_of_nat (32768 + n) :: u16"
  have u: "unat ?w = 32768 + n" using assms by (simp add: unat_of_nat del: of_nat_add)
  have "?w AND 0xFFF = take_bit 12 ?w" by (simp add: take_bit_eq_mask mask_eq_exp_minus_1)
  then have "unat (?w AND 0xFFF) = (32768 + n) mod 4096" by (simp only: unsigned_take_bit_eq u) (simp add: take_bit_eq_mod)
  moreover have "(32768 + n) mod 4096 = n" using assms by (simp add: mod_add_left_eq [symmetric])
  ultimately show "unat (?w AND 0xFFF) = n" by simp
  have "odd ((32768 + n) div 2 ^ 15)" using assms by (simp add: div_add1_eq)
  then have "bit (unat ?w) 15" unfolding u by (simp add: bit_iff_odd)
  then have b: "bit ?w 15" by (simp only: bit_unsigned_iff)
  have e: "(0x8000 :: u16) = push_bit 15 1" by (simp add: push_bit_eq_mult)
  have "bit (?w AND push_bit 15 1) i = bit (push_bit 15 (1 :: u16)) i" if "i < 16" for i
  proof -
    have "bit (push_bit 15 (1 :: u16)) i \<Longrightarrow> i = 15"
      unfolding bit_push_bit_iff bit_1_iff using that by arith
    then show ?thesis using b unfolding bit_and_iff by blast
  qed
  then show "?w AND 0x8000 = 0x8000" unfolding e by (intro bit_word_eqI) simp
qed

lemma down_length_bytes:
  assumes "n < 4096"
  shows "le_val [len_bytes False n ! 1, len_bytes False n ! 0] = 32768 + n"
proof -
  have "n div 256 < 16" using assms by (simp add: less_mult_imp_div_less)
  moreover have "\<forall>k < 16. unat (0x80 OR (word_of_nat k :: u8)) = 128 + k" by code_simp
  ultimately have "unat (0x80 OR (word_of_nat (n div 256) :: u8)) = 128 + n div 256" by blast
  then show ?thesis by (simp add: len_bytes_def push_bit_eq_mult)
qed

text \<open>The packet after its conversion, for a frame taken from an empty cache.\<close>

lemma centre_packet:
  assumes "length loc = 5" "length pw = 2" "length d \<le> 1041" "sm_down s = empty_cache" "sm_center s"
    and s': "s' = up_packet_process s (down_frame loc remote pw cmd d stx etx @ rest)"
  shows "sm_packet_flag s'" "sm_etx s' = etx_code etx" "ud_cmd (ud_p (sm_packet s')) = cmd"
    "ud_rlocal (ud_p (sm_packet s')) = word_of_nat (le_val loc)"
    "ud_rpasswd (ud_p (sm_packet s')) = word_of_nat (le_val pw)"
    "ud_dlen (ud_p (sm_packet s')) = word_of_nat (32768 + length d)"
    "take (length d) (ud_in (ud_p (sm_packet s'))) = d"
proof -
  let ?a = "rev loc @ [remote] @ rev pw" and ?q = "replicate ud_size (0 :: u8)"
  let ?f = "block_frame ?a cmd d stx etx"
  let ?u = "\<lparr>ud_state = 8, ud_len = length ?f, ud_p = ?f @ drop (length ?f) ?q\<rparr>"
  note offs = off_packetlen_def off_etx_def off_rlocal_def off_rpasswd_def ud_size_def
  have a: "length ?a = 8" using assms by simp
  have lf: "length ?f = length d + 17" by (rule length_block_frame [OF a])
  have ok: "frame_ok ?f" using block_frame_ok [OF a] assms(3) by simp
  have dec: "decode_bytes empty_cache (?f @ rest) = (accept_frame ?u, True)"
    using decode_accepts [OF ok, of empty_cache rest] by (simp add: empty_cache_def)
  have lp: "length (ud_p ?u) = ud_size" using assms lf by (simp add: ud_size_def)
  define p0 where "p0 = ud_p (accept_frame ?u)"
  have l0: "length p0 = ud_size" unfolding p0_def using length_accept_frame [of ?u] lp by simp
  have pre: "3 \<le> length ?f" "length ?f \<le> off_packetlen" using lf assms(3) by (simp_all add: offs)
  have lq: "length (?f @ drop (length ?f) ?q) = ud_size" using lp by simp
  note fl = accept_frame_fields [OF lq pre p0_def]
  have nth: "p0 ! i = ?f ! i" if "i < length ?f" for i
    using fl(1) [of i] that pre(2) by (simp add: nth_append)
  define p where "p = rev_at 8 2 (rev_at 2 5 (rev_at 11 2 p0))"
  have l1: "length (rev_at 11 2 p0) = ud_size" "length (rev_at 2 5 (rev_at 11 2 p0)) = ud_size" "length p = ud_size"
    unfolding p_def using l0 by (simp_all add: rev_at_length ud_size_def)
  have same: "p ! i = p0 ! i" if "i = 10 \<or> 13 \<le> i" "i < ud_size" for i
    unfolding p_def using that l0 l1 by (auto simp: rev_at_nth ud_size_def)
  have len: "take 2 (drop 11 p) = rev (take 2 (drop 11 p0))"
  proof -
    have "take 2 (drop 11 p) = take 2 (drop 11 (rev_at 11 2 p0))"
      unfolding p_def using l1 by (intro seg_eq) (simp_all add: rev_at_nth rev_at_length ud_size_def)
    then show ?thesis using l0 by (simp add: rev_at_get ud_size_def)
  qed
  have s': "s' = down_packet_process (s\<lparr>sm_down := decode_reset (accept_frame ?u), sm_get_packet := True,
      sm_packet := (accept_frame ?u)\<lparr>ud_p := p\<rparr>\<rparr>)"
    using dec assms(4,5) unfolding s' down_frame_def
    by (simp add: up_packet_process_def upacket_decode_def to_host_def p_def p0_def down_packet_process_def)
  then have pk: "ud_p (sm_packet s') = p" by (simp add: down_packet_process_def)
  note bn = block_frame_nth [OF a, where cmd = cmd and d = d and stx = stx and etx = etx]
  show "sm_packet_flag s'" using s' by (simp add: down_packet_process_def)
  have "ud_etx p = ud_etx p0" using same [of off_etx] by (simp add: ud_etx_def offs)
  also have "\<dots> = etx_code etx" using fl(3) bn(9) lf by (simp add: nth_append add.commute)
  finally show "sm_etx s' = etx_code etx" using s' by (simp add: down_packet_process_def)
  show "ud_cmd (ud_p (sm_packet s')) = cmd"
    using same [of 10] nth [of 10] bn(4) lf by (simp add: pk ud_cmd_def ud_size_def)
  have seg: "take n (drop off p) = take n (drop off p0)" if "13 \<le> off" "off + n \<le> ud_size" for n off
    using that l0 l1 same by (intro seg_eq) simp_all
  have zero: "p0 ! i = 0" if "off_rlocal + 5 \<le> i" "i < off_rpasswd" for i
    using accept_frame_gap [OF lp that] that lf assms(3) by (simp add: p0_def nth_append offs)
  have "take 8 (drop off_rlocal p) = take 5 (drop off_rlocal p0) @ take 3 (drop (off_rlocal + 5) p0)"
    using seg [of off_rlocal 8] take_add [of 5 3 "drop off_rlocal p0"] by (simp add: offs)
  moreover have "take 5 (drop off_rlocal p0) = loc"
  proof -
    have "take 5 (drop 2 (?f @ drop (length ?f) ?q)) = take 5 (take 8 (drop 2 ?f))" using lf by (simp add: min_def)
    also have "\<dots> = rev loc" unfolding bn(3) using assms(1) by simp
    finally show ?thesis using fl(4) by simp
  qed
  moreover have "take 3 (drop (off_rlocal + 5) p0) = replicate 3 0"
    using zero l0 by (intro nth_equalityI) (simp_all add: offs)
  ultimately have "take 8 (drop off_rlocal p) = loc @ replicate 3 0" by simp
  then show "ud_rlocal (ud_p (sm_packet s')) = word_of_nat (le_val loc)"
    by (simp add: pk ud_rlocal_def le_val_append numeral_3_eq_3)
  have "take 2 (drop off_rpasswd p0) = pw"
  proof -
    have "take 2 (drop 8 (?f @ drop (length ?f) ?q)) = drop 6 (take 8 (drop 2 ?f))" using lf by (simp add: drop_take)
    also have "\<dots> = rev pw" unfolding bn(3) using assms(1) by simp
    finally show ?thesis using fl(5) by simp
  qed
  then have "take 2 (drop off_rpasswd p) = pw" using seg [of off_rpasswd 2] by (simp add: offs)
  then show "ud_rpasswd (ud_p (sm_packet s')) = word_of_nat (le_val pw)" by (simp add: pk ud_rpasswd_def)
  have "take 2 (drop 11 p0) = take 2 (drop 11 ?f)" using nth l0 lf by (intro nth_equalityI) (simp_all add: ud_size_def)
  also have "\<dots> = [len_bytes False (length d) ! 0, len_bytes False (length d) ! 1]"
    using bn(5,6) lf by (intro nth_equalityI) (auto simp: less_2_cases_iff)
  finally have "take 2 (drop 11 p) = [len_bytes False (length d) ! 1, len_bytes False (length d) ! 0]" using len by simp
  then show "ud_dlen (ud_p (sm_packet s')) = word_of_nat (32768 + length d)"
    using down_length_bytes [of "length d"] assms(3) by (simp add: pk ud_dlen_def del: le_val.simps)
  have "take (length d) (drop 14 p) = take (length d) (drop 14 p0)" using seg [of 14 "length d"] assms(3) by (simp add: ud_size_def)
  also have "\<dots> = take (length d) (drop 14 ?f)" using nth l0 lf assms(3) by (intro nth_equalityI) (simp_all add: ud_size_def)
  finally show "take (length d) (ud_in (ud_p (sm_packet s'))) = d" using bn(8) by (simp add: pk ud_in_def)
qed

section \<open>Access\<close>

lemma password_row: "row_of Type_Param 0x03 = Some (cfg 0x03 ''passwd'' 4 0 DF_HEXNum)"
  by (simp add: row_of_def config_items_of_def param_config_items_def cfg_def)

lemma station_row: "\<exists>r. row_of Type_Param 0x02 = Some r"
  by (simp add: row_of_def config_items_of_def param_config_items_def cfg_def)

lemma par_item:
  assumes "table_ok Type_Param d" "row_of Type_Param i = Some r"
  obtains it where "get_place d (at_u16 d i) = Some it" "val_of d i = Some (it_val it)"
  using table_ok_id [OF assms] by (auto simp: val_of_def)

lemma small_password: "length pw = 2 \<Longrightarrow> ucast (word_of_nat (le_val pw) :: u16) = (word_of_nat (le_val pw) :: l64)"
proof -
  assume "length pw = 2"
  then have "le_val pw < 65536" using le_val_bound [of pw] by simp
  then show ?thesis by (simp add: word_eq_iff_unsigned [where ?'a = nat] unsigned_ucast_eq unat_of_nat take_bit_eq_mod)
qed

text \<open>A frame with another address or password changes nothing.\<close>

lemma centre_refused:
  assumes "length loc = 5" "length pw = 2" "length d \<le> 1041" "sm_down s = empty_cache" "sm_center s"
    "table_ok Type_Param (param (ce_app c))"
    and s': "s' = up_packet_process s (down_frame loc remote pw cmd d stx etx @ rest)"
    and no: "val_of (param (ce_app c)) 0x02 \<noteq> Some (word_of_nat (le_val loc)) \<or>
      val_of (param (ce_app c)) 0x03 \<noteq> Some (word_of_nat (le_val pw))"
  shows "center_process e net c s' = Some (c, s', -1)"
proof -
  note cp = centre_packet [OF assms(1-5) s']
  obtain r where r: "row_of Type_Param 0x02 = Some r" using station_row by blast
  obtain l where l: "get_place (param (ce_app c)) (at_u16 (param (ce_app c)) 0x02) = Some l"
    "val_of (param (ce_app c)) 0x02 = Some (it_val l)" by (rule par_item [OF assms(6) r])
  obtain p where p: "get_place (param (ce_app c)) (at_u16 (param (ce_app c)) 0x03) = Some p"
    "val_of (param (ce_app c)) 0x03 = Some (it_val p)" by (rule par_item [OF assms(6) password_row])
  show ?thesis using no l p cp(4,5) small_password [OF assms(2)]
    by (auto simp: center_process_def at_id_u16 Let_def)
qed

text \<open>With both in order the command is carried out on the data of the frame.\<close>

lemma centre_served:
  assumes "length loc = 5" "length pw = 2" "length d \<le> 1041" "sm_down s = empty_cache" "sm_center s"
    "table_ok Type_Param (param (ce_app c))"
    and s': "s' = up_packet_process s (down_frame loc remote pw cmd d stx etx @ rest)"
    and yes: "val_of (param (ce_app c)) 0x02 = Some (word_of_nat (le_val loc))"
      "val_of (param (ce_app c)) 0x03 = Some (word_of_nat (le_val pw))"
    and cmd: "0x37 \<le> unat cmd" "cmd \<noteq> 0x48"
  shows "center_process e net c s' =
    map_option (\<lambda>(c2, s2). (c2, s2, 0))
      (center_answer e net (int (unat cmd)) (int (unat cmd)) (int (length d))
        (c\<lparr>ce_app := fst (next_serial (ce_app c) s')\<rparr>) (snd (next_serial (ce_app c) s')))"
proof -
  note cp = centre_packet [OF assms(1-5) s']
  obtain r where r: "row_of Type_Param 0x02 = Some r" using station_row by blast
  obtain l where l: "get_place (param (ce_app c)) (at_u16 (param (ce_app c)) 0x02) = Some l"
    "val_of (param (ce_app c)) 0x02 = Some (it_val l)" by (rule par_item [OF assms(6) r])
  obtain p where p: "get_place (param (ce_app c)) (at_u16 (param (ce_app c)) 0x03) = Some p"
    "val_of (param (ce_app c)) 0x03 = Some (it_val p)" by (rule par_item [OF assms(6) password_row])
  let ?p = "ud_p (sm_packet s')"
  have n: "uint cmd \<noteq> 0x48" using cmd(2) by (simp add: word_eq_iff_unsigned [where ?'a = int])
  have g: "0x37 \<le> uint cmd" using cmd(1) unfolding uint_nat by linarith
  have len: "uint (ud_dlen ?p AND 0xFFF) = int (length d)" "ud_dlen ?p AND 0x8000 = 0x8000"
    unfolding cp(6) uint_nat using down_length_word [of "length d"] assms(3) by simp_all
  have ok: "ud_rlocal ?p = it_val l" "(ucast (ud_rpasswd ?p) :: l64) = it_val p"
    using yes l(2) p(2) cp(4,5) small_password [OF assms(2)] by simp_all
  obtain s1 s2 where ns: "next_serial (ce_app c) s' = (s1, s2)" by fastforce
  show ?thesis
    using l(1) p(1) cp(3) n g len ok ns
    by (cases "center_answer e net (uint cmd) (uint cmd) (int (length d)) (c\<lparr>ce_app := s1\<rparr>) s2")
      (auto simp: center_process_def at_id_u16 Let_def)
qed

section \<open>The password\<close>

lemma val_of_other:
  assumes "modify_item d p f = Some d'" "keeps f" "p \<noteq> at_u16 d i"
  shows "val_of d' i = val_of d i"
  using modify_item_frame(2) [OF assms(1,2), of "at_u16 d i"] same_frame_at [OF modify_item_frame(1) [OF assms(1,2)]] assms(3)
  by (simp add: val_of_def)

text \<open>Nothing but the step for the password writes its text.\<close>

lemma save_center_passwd: "save_center d r = Some r' \<Longrightarrow> rtu_passwd r' = rtu_passwd r \<and> rtu_remote r' = rtu_remote r"
  by (auto simp: save_center_def split: bind_splits if_splits)

lemma save_remote_passwd:
  "save_remote d i k r = Some r' \<Longrightarrow> rtu_passwd r' = rtu_passwd r \<and> length (rtu_remote r') = length (rtu_remote r)"
proof (induction k arbitrary: i r)
  case (Suc k)
  from Suc.prems show ?case
    by (auto simp: wr_def split: bind_splits if_splits dest!: Suc.IH)
qed simp

lemma param_save_passwd:
  assumes "param_save d r = Some r'" "get_place d (at_id d 0x03) = Some it"
  shows "strtoull16 (rtu_passwd r') = it_val it" "length (rtu_remote r') = length (rtu_remote r)"
proof -
  obtain no where no: "get_place d (at_id d 0x02) = Some no"
    using assms(1) by (auto simp: param_save_def split: bind_splits)
  define r1 where "r1 = (if strtoull16 (rtu_terminalNo r) \<noteq> it_val no then r\<lparr>rtu_terminalNo := to_text (it_val no), rtu_dirty := True\<rparr> else r)"
  define r2 where "r2 = (if it_val it \<noteq> strtoull16 (rtu_passwd r1) then r1\<lparr>rtu_passwd := tostring16 (it_val it), rtu_dirty := True\<rparr> else r1)"
  obtain r3 r4 where r3: "save_center d r2 = Some r3" and r4: "save_remote d 0 8 r3 = Some r4"
    and r5: "rtu_passwd r' = rtu_passwd r4" "rtu_remote r' = rtu_remote r4"
    using assms no unfolding param_save_def Let_def r2_def [symmetric, unfolded r1_def]
    by (auto split: bind_splits if_splits simp: r1_def r2_def)
  have "strtoull16 (rtu_passwd r2) = it_val it" "rtu_remote r2 = rtu_remote r"
    using strtoull16_tostring16 by (simp_all add: r1_def r2_def)
  then show "strtoull16 (rtu_passwd r') = it_val it" "length (rtu_remote r') = length (rtu_remote r)"
    using save_center_passwd [OF r3] save_remote_passwd [OF r4] r5 by simp_all
qed

lemma change_password_done:
  assumes "table_ok Type_Param (param (ce_app c))" "change_password e dt len c = Some (c', n)" "n \<noteq> 0"
  obtains old new where "be16_at dt 10 = Some old" "be16_at dt 14 = Some new" "dt ! 8 = 3"
    "old = ucast (the (val_of (param (ce_app c)) 0x03))"
    "table_ok Type_Param (param (ce_app c'))" "val_of (param (ce_app c')) 0x03 = Some (ucast new)"
    "\<And>i. i \<noteq> 0x03 \<Longrightarrow> val_of (param (ce_app c')) i = val_of (param (ce_app c)) i"
    "\<And>i. hex_of (param (ce_app c')) i = hex_of (param (ce_app c)) i"
    "strtoull16 (rtu_passwd (app_rtu (ce_app c'))) = ucast new"
    "length (rtu_remote (app_rtu (ce_app c'))) = length (rtu_remote (app_rtu (ce_app c)))"
proof -
  let ?P = "param (ce_app c)"
  obtain pw where pw: "get_place ?P (at_u16 ?P 0x03) = Some pw" "val_of ?P 0x03 = Some (it_val pw)"
    by (rule par_item [OF assms(1) password_row])
  from assms(2,3) pw(1) obtain old new b hd1 c1 p r c2 where
    x: "be16_at dt 10 = Some old" "be16_at dt 14 = Some new" "rd dt 8 = Some b" "b = 3" "old = ucast (it_val pw)"
      "answer_header e (ce_now e) c = Some (hd1, c1)"
      "modify_item (param (ce_app c1)) (at_u16 (param (ce_app c1)) 0x03) (set_val (ucast new)) = Some p"
      "param_save p (app_rtu (ce_app c1)) = Some r"
    and c': "ce_app c' = (ce_app c1)\<lparr>param := p, app_rtu := r\<rparr>"
    by (auto simp: change_password_def at_id_u16 Let_def split: bind_splits if_splits)
  have c1: "param (ce_app c1) = ?P" "app_rtu (ce_app c1) = app_rtu (ce_app c)"
    using x(6) by (auto simp: answer_header_def split: bind_splits)
  obtain d' where d': "modify_item ?P (at_u16 ?P 0x03) (set_val (ucast new)) = Some d'" "table_ok Type_Param d'"
    "val_of d' 0x03 = Some (ucast new)" "\<forall>j. j \<noteq> 0x03 \<longrightarrow> val_of d' j = val_of ?P j" "\<forall>j. hex_of d' j = hex_of ?P j"
    using set_val_at [OF assms(1) password_row, of "ucast new"] by blast
  have p: "p = d'" using x(7) c1(1) d'(1) by simp
  obtain it where it: "get_place p (at_u16 p 0x03) = Some it" "val_of p 0x03 = Some (it_val it)"
    by (rule par_item [OF _ password_row]) (use d'(2) p in auto)
  note ps = param_save_passwd [OF x(8), unfolded at_id_u16, simplified, OF it(1)]
  show ?thesis
    by (rule that [OF x(1,2)]) (use x pw c' c1 d' p it ps in \<open>auto simp: rd_def split: if_splits\<close>)
qed

text \<open>The recovery at the next start.\<close>

lemma recover_center_password:
  "recover_center cs i d = Some d' \<Longrightarrow> sound Type_Param d \<Longrightarrow> val_of d' 0x03 = val_of d 0x03"
proof (induction cs arbitrary: i d)
  case (Cons c cs)
  show ?case
  proof (cases "i < 4")
    case True
    then obtain d1 where d1: "recover_center cs (Suc i) d1 = Some d'"
      "modify_item d (at_id d 0x01) (set_hex i (word_of_int c)) = Some d1"
      using Cons.prems(1) by (auto split: bind_splits)
    have "at_u16 d 0x01 \<noteq> at_u16 d 0x03"
      using other_place [OF _ password_row, of d 1] Cons.prems(2) by (auto simp: sound_def)
    then have "val_of d1 0x03 = val_of d 0x03"
      using val_of_other [OF d1(2) keeps_set_hex, of 3] by (simp add: at_id_u16)
    then show ?thesis using Cons.IH [OF d1(1)] sound_modify [OF d1(2) keeps_set_hex Cons.prems(2)] by simp
  qed (use Cons.prems in simp)
qed simp

lemma type_row: "name_of Type_Param ''terminalType'' = Some (cfg 0xFF01 ''terminalType'' 2 0 DF_BCD)"
  by (simp add: name_of_def config_items_of_def param_config_items_def cfg_def)

lemma type_place:
  assumes "sound Type_Param d"
  shows "at_name d ''terminalType'' \<noteq> at_u16 d 0x03"
proof
  assume e: "at_name d ''terminalType'' = at_u16 d 0x03"
  have s: "table_ok Type_Param d" "names_wf d" using assms by (simp_all add: sound_def)
  obtain it where "get_place d (at_u16 d 0x03) = Some it" "config it = cfg 0x03 ''passwd'' 4 0 DF_HEXNum"
    using table_ok_id [OF s(1) password_row] by blast
  moreover obtain it' where "get_place d (at_name d ''terminalType'') = Some it'" "config it' = cfg 0xFF01 ''terminalType'' 2 0 DF_BCD"
    using table_ok_name [OF s type_row] by blast
  ultimately show False using e by (simp add: cfg_def)
qed

lemma recovery_password:
  assumes "param_recovery stack rtu d = Some d'" "sound Type_Param d"
  shows "val_of d' 0x03 = Some (strtoull16 (rtu_passwd rtu))"
proof -
  have r: "rtu_remote rtu = []"
    using param_recovery_overrun [of d rtu stack] assms by (auto simp: sound_def)
  from assms(1) r obtain p1 p2 p3 p5 where
    p: "modify_item d (at_id d 0x02) (set_val (strtoull16 (rtu_terminalNo rtu))) = Some p1"
      "modify_item p1 (at_id p1 0x03) (set_val (strtoull16 (rtu_passwd rtu))) = Some p2"
      "recover_center (rtu_center rtu) 0 p2 = Some p3"
      "(if rtu_model rtu = ''normal'' then modify_item p3 (at_id p3 0x0C) (set_hex 0 0x02) else Some p3) = Some p5"
      "modify_item p5 (at_name p5 ''terminalType'') (set_val (word_of_int (rtu_terminalType rtu))) = Some d'"
    unfolding param_recovery_def by (auto split: bind_splits)
  note s1 = sound_modify [OF p(1) keeps_set_val assms(2)]
  note s2 = sound_modify [OF p(2) keeps_set_val s1]
  note s3 = sound_recover_center [OF p(3) s2]
  have s5: "sound Type_Param p5" using p(4) s3 sound_modify keeps_set_hex by (cases "rtu_model rtu = ''normal''") auto
  have v2: "val_of p2 0x03 = Some (strtoull16 (rtu_passwd rtu))"
    using set_val_at [OF _ password_row, of p1 "strtoull16 (rtu_passwd rtu)"] s1 p(2) by (auto simp: sound_def at_id_u16)
  have o: "at_u16 p3 0x0C \<noteq> at_u16 p3 0x03"
    using other_place [OF _ password_row, of p3 "0x0C"] s3 by (auto simp: sound_def)
  have "val_of p5 0x03 = val_of p3 0x03"
    using p(4) val_of_other [OF _ keeps_set_hex, of p3 _ 0 "0x02" p5 3] o
    by (cases "rtu_model rtu = ''normal''") (auto simp: at_id_u16)
  moreover have "val_of d' 0x03 = val_of p5 0x03" by (rule val_of_other [OF p(5) keeps_set_val type_place [OF s5]])
  ultimately show ?thesis using recover_center_password [OF p(3) s2] v2 by simp
qed

section \<open>Saving and recovery return\<close>

text \<open>Without a centre address in the settings both are defined.\<close>

lemma hex_at:
  assumes "table_ok t d" "row_of t i = Some c" "cfg_format c = DF_HEX" "0 < alloc_size c"
  obtains it h where "get_place d (at_u16 d i) = Some it" "it_hex it = Some h" "int (length h) = alloc_size c"
  using table_ok_id [OF assms(1,2)] assms(3,4) by (auto simp: wf_item_def)

lemma center_row: "row_of Type_Param 0x01 = Some (cfg 0x01 ''center'' 8 0 DF_HEX)"
  and model_row: "row_of Type_Param 0x0C = Some (cfg 0x0C ''model'' 2 0 DF_HEX)"
  by (simp_all add: row_of_def config_items_of_def param_config_items_def cfg_def)

lemma alloc_rows [simp]: "alloc_size (cfg 0x01 ''center'' 8 0 DF_HEX) = 4" "alloc_size (cfg 0x0C ''model'' 2 0 DF_HEX) = 1"
  "cfg_format (cfg i n l fl F) = F"
  by (simp_all add: alloc_size_def cfg_def)

lemma modify_total:
  assumes "get_place d p = Some it" "f it = Some it'"
  obtains d' where "modify_item d p f = Some d'"
  using modify_defined [where f = f, OF assms] by blast

lemma set_hex_total: "it_hex it = Some h \<Longrightarrow> i < length h \<Longrightarrow> set_hex i b it = Some (it\<lparr>it_hex := Some (h[i := b])\<rparr>)"
  by (simp add: set_hex_def wr_def)

lemma recover_center_total: "sound Type_Param d \<Longrightarrow> \<exists>d'. recover_center cs i d = Some d'"
proof (induction cs arbitrary: i d)
  case (Cons c cs)
  show ?case
  proof (cases "i < 4")
    case True
    have t: "table_ok Type_Param d" using Cons.prems by (simp add: sound_def)
    obtain it h where h: "get_place d (at_u16 d 0x01) = Some it" "it_hex it = Some h" "int (length h) = 4"
      using hex_at [OF t center_row] by auto
    have "i < length h" using h(3) True by linarith
    obtain d1 where d1: "modify_item d (at_u16 d 0x01) (set_hex i (word_of_int c)) = Some d1"
      by (rule modify_total [where f = "set_hex i (word_of_int c)", OF h(1) set_hex_total [OF h(2) \<open>i < length h\<close>]])
    then show ?thesis
      using True Cons.IH [of d1 "Suc i"] sound_modify [OF d1 keeps_set_hex Cons.prems] by (simp add: at_id_u16)
  qed simp
qed simp

lemma param_recovery_total:
  assumes "sound Type_Param d" "rtu_remote rtu = []"
  shows "\<exists>d'. param_recovery stack rtu d = Some d'"
proof -
  obtain r2 where r2: "row_of Type_Param 0x02 = Some r2" using station_row by blast
  have t: "table_ok Type_Param x" "names_wf x" if "sound Type_Param x" for x using that by (simp_all add: sound_def)
  obtain p1 where p1: "modify_item d (at_u16 d 0x02) (set_val (strtoull16 (rtu_terminalNo rtu))) = Some p1"
    using set_val_at [OF t(1) [OF assms(1)] r2] by blast
  note s1 = sound_modify [OF p1 keeps_set_val assms(1)]
  obtain p2 where p2: "modify_item p1 (at_u16 p1 0x03) (set_val (strtoull16 (rtu_passwd rtu))) = Some p2"
    using set_val_at [OF t(1) [OF s1] password_row] by blast
  note s2 = sound_modify [OF p2 keeps_set_val s1]
  obtain p3 where p3: "recover_center (rtu_center rtu) 0 p2 = Some p3" using recover_center_total [OF s2] by blast
  note s3 = sound_recover_center [OF p3 s2]
  obtain it h where h: "get_place p3 (at_u16 p3 0x0C) = Some it" "it_hex it = Some h" "int (length h) = 1"
    using hex_at [OF t(1) [OF s3] model_row] by auto
  have "0 < length h" using h(3) by linarith
  obtain p4 where p4: "modify_item p3 (at_u16 p3 0x0C) (set_hex 0 0x02) = Some p4"
    by (rule modify_total [where f = "set_hex 0 0x02", OF h(1) set_hex_total [OF h(2) \<open>0 < length h\<close>]])
  define p5 where "p5 = (if rtu_model rtu = ''normal'' then p4 else p3)"
  have s5: "sound Type_Param p5" using sound_modify [OF p4 keeps_set_hex s3] s3 by (simp add: p5_def)
  obtain it2 where it2: "get_place p5 (at_name p5 ''terminalType'') = Some it2"
    using table_ok_name [OF t [OF s5] type_row] by blast
  have "modify_item p5 (at_name p5 ''terminalType'') (set_val v) \<noteq> None" for v
    using modify_defined [where f = "set_val v", OF it2] by (auto simp: set_val_def)
  then show ?thesis using assms(2) p1 p2 p3 p4 by (auto simp: param_recovery_def at_id_u16 p5_def split: if_splits)
qed

lemma param_save_total:
  assumes "sound Type_Param d" "rtu_center rtu = []" "hex_of d 0x04 = Some h" "rd h 0 = Some 0xFF"
  shows "\<exists>r. param_save d rtu = Some r"
proof -
  have t: "table_ok Type_Param d" "names_wf d" using assms(1) by (simp_all add: sound_def)
  obtain r2 where r2: "row_of Type_Param 0x02 = Some r2" using station_row by blast
  obtain no where no: "get_place d (at_u16 d 0x02) = Some no" by (rule par_item [OF t(1) r2])
  obtain pw where pw: "get_place d (at_u16 d 0x03) = Some pw" by (rule par_item [OF t(1) password_row])
  obtain ce hc where ce: "get_place d (at_u16 d 0x01) = Some ce" "it_hex ce = Some hc" "int (length hc) = 4"
    using hex_at [OF t(1) center_row] by auto
  obtain mo hm where mo: "get_place d (at_u16 d 0x0C) = Some mo" "it_hex mo = Some hm" "int (length hm) = 1"
    using hex_at [OF t(1) model_row] by auto
  obtain tt where tt: "get_place d (at_name d ''terminalType'') = Some tt"
    using table_ok_name [OF t type_row] by blast
  obtain re where re: "get_place d (at_u16 d 0x04) = Some re" "it_hex re = Some h"
    using assms(3) by (auto simp: hex_of_def split: bind_splits)
  have c: "\<exists>r. save_center d pr = Some r" if "rtu_center pr = []" for pr
    using that ce by (auto simp: save_center_def at_id_u16 rd_range_def)
  have r: "save_remote d 0 8 pr = Some pr" for pr
  proof -
    have e: "(8 :: nat) = Suc 7" by simp
    show ?thesis unfolding e save_remote.simps(2) using re assms(4) by (simp add: at_id_u16)
  qed
  have m: "\<exists>b. get_hex d (at_id d 0x0C) 0 = Some b" using mo by (auto simp: get_hex_def at_id_u16 rd_def)
  define pr1 where "pr1 = (if strtoull16 (rtu_terminalNo rtu) \<noteq> it_val no
      then rtu\<lparr>rtu_terminalNo := to_text (it_val no), rtu_dirty := True\<rparr> else rtu)"
  define pr2 where "pr2 = (if it_val pw \<noteq> strtoull16 (rtu_passwd pr1)
      then pr1\<lparr>rtu_passwd := tostring16 (it_val pw), rtu_dirty := True\<rparr> else pr1)"
  have "rtu_center pr2 = []" using assms(2) by (simp add: pr1_def pr2_def)
  with c obtain pr3 where s: "save_center d pr2 = Some pr3" by blast
  have ids: "get_place d (at_id d 0x02) = Some no" "get_place d (at_id d 0x03) = Some pw" using no pw by (simp_all add: at_id_u16)
  show ?thesis using m
    unfolding param_save_def ids bind.bind_lunit Let_def pr1_def [symmetric] pr2_def [symmetric] s r tt
    by auto
qed

text \<open>A request with the password in force is answered.\<close>

lemma change_password_total:
  assumes "sound Type_Param (param (ce_app c))" "rtu_center (app_rtu (ce_app c)) = []"
    "hex_of (param (ce_app c)) 0x04 = Some h" "rd h 0 = Some 0xFF" "length (ce_out c) = 4096"
    "be16_at dt 10 = Some old" "be16_at dt 14 = Some new" "rd dt 8 = Some 3"
    "val_of (param (ce_app c)) 0x03 = Some v" "old = ucast v"
  shows "\<exists>c' n. change_password e dt len c = Some (c', n) \<and> n \<noteq> 0"
proof -
  let ?P = "param (ce_app c)"
  have t: "table_ok Type_Param ?P" "names_wf ?P" using assms(1) by (simp_all add: sound_def)
  obtain pw where pw: "get_place ?P (at_u16 ?P 0x03) = Some pw" "it_val pw = v"
    using par_item [OF t(1) password_row] assms(9) by (metis option.inject)
  obtain r2 where r2: "row_of Type_Param 0x02 = Some r2" using station_row by blast
  obtain loc where loc: "get_place ?P (at_u16 ?P 0x02) = Some loc" by (rule par_item [OF t(1) r2])
  obtain tt where tt: "get_place ?P (at_name ?P ''terminalType'') = Some tt" using table_ok_name [OF t type_row] by blast
  obtain hd1 c1 where h1: "answer_header e (ce_now e) c = Some (hd1, c1)" "ce_out c1 = ce_out c"
    "param (ce_app c1) = ?P" "app_rtu (ce_app c1) = app_rtu (ce_app c)"
    using loc tt by (cases "get_observetime_time (app_head (ce_app c))") (auto simp: answer_header_def new_Header_def at_id_u16)
  obtain p where p: "modify_item ?P (at_u16 ?P 0x03) (set_val (ucast new)) = Some p" "table_ok Type_Param p"
    "val_of p 0x03 = Some (ucast new)" "\<forall>j. hex_of p j = hex_of ?P j"
    using set_val_at [OF t(1) password_row, of "ucast new"] by blast
  have s: "sound Type_Param p" by (rule sound_modify [OF p(1) keeps_set_val assms(1)])
  obtain r where r: "param_save p (app_rtu (ce_app c)) = Some r"
    using param_save_total [OF s assms(2) _ assms(4)] p(4) assms(3) by auto
  obtain pw2 where pw2: "get_place p (at_u16 p 0x03) = Some pw2" by (rule par_item [OF p(2) password_row])
  show ?thesis
    using assms(5-8,10) pw h1 p(1) r pw2
    by (auto simp: change_password_def at_id_u16 Let_def memcpy_at_def)
qed

end
