(* ===== verification/Down_Laws.thy ===== *)
theory Down_Laws
  imports Thread_Down
begin

text \<open>
  The laws of the sampling thread: the hexadecimal texts of the configuration, the frames one
  reading can send, when a reading ends, and what it returns.
\<close>

section \<open>Hexadecimal texts\<close>

lemma digit_of_char: "n < 16 \<Longrightarrow> digit_of (hex_char n) = hex_digit (hex_char n)"
  by (drule nat_less_16_cases) (elim insertE emptyE; simp add: hex_char_def digit_of_def hex_digit_def byte_of_def)

lemma hex_char_nz: "n < 16 \<Longrightarrow> hex_char n \<noteq> 0"
  by (drule nat_less_16_cases) (elim insertE emptyE; simp add: hex_char_def byte_of_def)

lemma push4_high: "push_bit 4 (x :: u8) AND 0xF0 = push_bit 4 x"
proof (rule bit_word_eqI)
  fix n assume n: "n < LENGTH(8)"
  have f: "(0xF0 :: u8) = NOT (mask 4)" by (simp add: mask_eq_exp_minus_1)
  show "bit (push_bit 4 x AND 0xF0) n = bit (push_bit 4 x) n"
    unfolding f using n by (cases "n < 4") (simp_all add: bit_simps)
qed

lemma string_to_byte_hex: "string_to_byte (hex_char (unat b div 16)) (hex_char (unat b mod 16)) = b"
proof -
  have "unat b div 16 < 16" using unat_byte_lt [of b] by (simp add: less_mult_imp_div_less)
  then have "string_to_byte (hex_char (unat b div 16)) (hex_char (unat b mod 16)) =
      hex_pair (hex_char (unat b div 16)) (hex_char (unat b mod 16))"
    by (simp add: string_to_byte_def hex_pair_def digit_of_char push4_high)
  then show ?thesis by (simp add: hex_pair_char)
qed

lemma hex_text_nz: "0 \<notin> set (hex_text bs)"
proof (induction bs)
  case (Cons b bs)
  have "unat b div 16 < 16" using unat_byte_lt [of b] by (simp add: less_mult_imp_div_less)
  then show ?case
    using Cons hex_char_nz [of "unat b div 16"] hex_char_nz [of "unat b mod 16"] by auto
qed simp

lemma cbytes_nz: "0 \<notin> set bs \<Longrightarrow> cbytes (string_of_bytes bs) = bs"
  by (auto simp: cbytes_def takeWhile_eq_all_conv)

lemma recv_loop_hex:
  "length xs \<le> 20 \<Longrightarrow> recv_loop (hex_text (xs @ ys)) (2 * length xs) xs =
     (if length (xs @ ys) \<le> 20 then Some (xs @ ys) else None)"
proof (induction ys arbitrary: xs)
  case Nil
  then show ?case by (subst recv_loop.simps) simp
next
  case (Cons y ys)
  let ?p = "hex_text (xs @ y # ys)"
  have p: "?p = hex_text xs @ hex_char (unat y div 16) # hex_char (unat y mod 16) # hex_text ys"
    by (simp add: hex_text_append)
  have "(?p @ [0]) ! (2 * length xs) = hex_char (unat y div 16)"
    "(?p @ [0]) ! (2 * length xs + 1) = hex_char (unat y mod 16)"
    by (simp_all add: p nth_append)
  then have "string_to_byte ((?p @ [0]) ! (2 * length xs)) ((?p @ [0]) ! (2 * length xs + 1)) = y"
    by (simp only: string_to_byte_hex)
  moreover have "2 * length xs < length ?p" "2 * length xs < 58" using Cons.prems by simp_all
  moreover have "2 * length (xs @ [y]) = 2 * length xs + 2" by simp
  ultimately have "recv_loop ?p (2 * length xs) xs =
      (if length xs < 20 then recv_loop ?p (2 * length (xs @ [y])) (xs @ [y]) else None)"
    by (subst recv_loop.simps) simp
  then show ?case using Cons.IH [of "xs @ [y]"] Cons.prems by auto
qed

lemma recv_patten_text: "recv_patten (string_of_bytes (hex_text bs)) = (if length bs \<le> 20 then Some bs else None)"
  using recv_loop_hex [of "[]" bs] by (simp add: recv_patten_def cbytes_nz hex_text_nz)

lemma recv_loop_length: "recv_loop p i pre = Some r \<Longrightarrow> length pre \<le> 20 \<Longrightarrow> length r \<le> 20"
proof (induction p i pre rule: recv_loop.induct)
  case (1 p i pre)
  show ?case
  proof (cases "i < length p \<and> i < 58")
    case True
    then have "length pre < 20" "recv_loop p (i + 2) (pre @ [string_to_byte ((p @ [0]) ! i) ((p @ [0]) ! (i + 1))]) = Some r"
      using "1.prems"(1) by (simp_all add: recv_loop.simps [of p i] split: if_splits)
    with "1.IH" [of] True show ?thesis by simp
  next
    case False
    with "1.prems" show ?thesis by (simp add: recv_loop.simps [of p i])
  qed
qed

lemma recv_patten_length: "recv_patten s = Some r \<Longrightarrow> length r \<le> 20"
  using recv_loop_length by (fastforce simp: recv_patten_def)

section \<open>The frames of one reading\<close>

definition sends_left :: "Dfsm \<Rightarrow> int" where
  "sends_left f = (if df_step f = DFSM_STATE_SEND then df_retry f + 1
                   else if df_step f = DFSM_STATE_WAIT then df_retry f else 0)"

definition request :: "Dfsm \<Rightarrow> bytes" where
  "request f = take (nat (df_slen f)) (df_sb f)"

definition same_request :: "Dfsm \<Rightarrow> Dfsm \<Rightarrow> bool" where
  "same_request f g \<longleftrightarrow> request g = request f \<and> df_step g = df_step f \<and> df_retry g = df_retry f
     \<and> df_ms_timeout g = df_ms_timeout f \<and> df_ms_timeout_max g = df_ms_timeout_max f \<and> df_cb g = df_cb f"

lemma same_request_trans: "same_request f g \<Longrightarrow> same_request g h \<Longrightarrow> same_request f h"
  by (simp add: same_request_def)

lemma same_request_sends: "same_request f g \<Longrightarrow> sends_left g = sends_left f"
  by (simp add: same_request_def sends_left_def)

lemma packet_same: "dfsm_inv f \<Longrightarrow> \<exists>g. dfsm_packet_process p f = Some g \<and> dfsm_inv g \<and> same_request f g"
  using dfsm_packet_inv [of f p] unfolding same_request_def request_def by metis

lemma deliver_inv: "dfsm_inv f \<Longrightarrow> \<exists>f'. deliver ps f = Some f' \<and> dfsm_inv f' \<and> same_request f f'"
proof (induction ps arbitrary: f)
  case Nil
  then show ?case by (simp add: same_request_def)
next
  case (Cons p ps)
  from packet_same [OF Cons.prems, of p] obtain g where
    g: "dfsm_packet_process p f = Some g" "dfsm_inv g" "same_request f g" by blast
  from Cons.IH [OF g(2)] obtain f' where "deliver ps g = Some f'" "dfsm_inv f'" "same_request g f'" by blast
  with g same_request_trans [OF g(3)] show ?case by simp
qed

text \<open>What \<open>process\<close> may send in a step that leaves \<open>k\<close> frames to send.\<close>

definition sends_ok :: "Dfsm \<Rightarrow> Dfsm \<times> bytes option \<Rightarrow> bool" where
  "sends_ok f r \<longleftrightarrow> int (length (sent (snd r))) + sends_left (fst r) \<le> sends_left f \<and> 0 \<le> df_retry (fst r) \<and>
     request (fst r) = request f \<and> (\<forall>o1 \<in> set (sent (snd r)). \<exists>n. o1 = take n (request f))"

lemma send_step_sends:
  assumes "dfsm_inv f" "0 \<le> df_retry f" "df_step f = DFSM_STATE_SEND" "dfsm_send_step wrote clock f = Some r"
  shows "sends_ok f r"
proof -
  have "nat (df_slen f) \<le> length (df_sb f)" using assms(1) by (auto simp: dfsm_inv_def)
  then have "mx_send (mxserial wrote) (df_dev f) (df_sb f) (df_slen f) (df_stimeout f) 0 =
      Some (df_dev f, take (nat (wrote (request f))) (request f))"
    by (simp add: mxserial_def mxserial_send_def rd_range_def sp_send_def request_def)
  with assms(4) obtain t where "r = (f\<lparr>df_dev := df_dev f, df_ms_timeout := t, df_step := DFSM_STATE_WAIT\<rparr>,
      Some (take (nat (wrote (request f))) (request f)))"
    by (auto simp: dfsm_send_step_def split: bind_splits)
  with assms(2,3) show ?thesis by (auto simp: sends_ok_def sent_def sends_left_def request_def dfsm_steps)
qed

lemma wait_step_sends:
  assumes "0 \<le> df_retry f" "df_step f = DFSM_STATE_WAIT" "dfsm_wait_step clock f = Some r"
  shows "sends_ok f r"
  using assms by (auto simp: dfsm_wait_step_def sends_ok_def sent_def sends_left_def request_def dfsm_steps split: if_splits)

lemma idle_sends:
  "0 \<le> df_retry f \<Longrightarrow> df_step f \<noteq> DFSM_STATE_SEND \<Longrightarrow> df_step f \<noteq> DFSM_STATE_WAIT \<Longrightarrow> sends_ok f (f\<lparr>df_step := DFSM_STATE_IDLE\<rparr>, None)"
  by (simp add: sends_ok_def sent_def sends_left_def request_def dfsm_steps)

lemma process_sends:
  assumes "dfsm_inv f" "0 \<le> df_retry f" "dfsm_process wrote clock f = Some r"
  shows "sends_ok f r"
proof -
  have idle: "f\<lparr>df_step := DFSM_STATE_IDLE\<rparr> = f" if "df_step f = DFSM_STATE_IDLE" using that by simp
  consider "df_step f = DFSM_STATE_SEND" | "df_step f = DFSM_STATE_WAIT" | "df_step f \<noteq> DFSM_STATE_SEND" "df_step f \<noteq> DFSM_STATE_WAIT"
    by blast
  then show ?thesis
  proof cases
    case 1
    with assms(3) have "dfsm_send_step wrote clock f = Some r" by (simp add: dfsm_process_def dfsm_steps)
    with send_step_sends [OF assms(1,2) 1] show ?thesis by blast
  next
    case 2
    with assms(3) have "dfsm_wait_step clock f = Some r" by (simp add: dfsm_process_def dfsm_steps)
    with wait_step_sends [OF assms(2) 2] show ?thesis by blast
  next
    case 3
    with assms(3) have "r = (f\<lparr>df_step := DFSM_STATE_IDLE\<rparr>, None)"
      using idle by (auto simp: dfsm_process_def split: if_splits)
    with idle_sends [OF assms(2) 3] show ?thesis by simp
  qed
qed

text \<open>Clocks that leave room for the waiting time.\<close>

definition turn_ok :: "Turn \<Rightarrow> bool" where
  "turn_ok t \<longleftrightarrow> 0 \<le> tu_proc t \<and> tu_proc t < 2 ^ 31 - 2000"

lemma read_loop_ok:
  assumes "dfsm_inv f" "0 \<le> df_retry f" "df_ms_timeout_max f = 2000" "\<forall>t \<in> set ts. turn_ok t" "\<exists>t \<in> set ts. tu_check t \<ge> deadline"
  shows "\<exists>f' outs. read_loop wrote deadline ts f = Some (f', outs) \<and> dfsm_inv f' \<and> int (length outs) \<le> sends_left f \<and>
    (\<forall>o1 \<in> set outs. \<exists>n. o1 = take n (request f))"
  using assms
proof (induction ts arbitrary: f)
  case (Cons t ts)
  show ?case
  proof (cases "deadline > tu_check t \<and> \<not> df_getpacket f")
    case False
    have "0 \<le> sends_left f" using Cons.prems(2) by (simp add: sends_left_def)
    then show ?thesis
      using Cons.prems(1) by (simp only: read_loop.simps False if_False) auto
  next
    case True
    from deliver_inv [OF Cons.prems(1)] obtain f1 where
      d1: "deliver (tu_rx1 t) f = Some f1" "dfsm_inv f1" "same_request f f1" by blast
    then have f1: "deliver (tu_rx1 t) f = Some f1" "dfsm_inv f1" "request f1 = request f" "sends_left f1 = sends_left f"
        "df_retry f1 = df_retry f" "df_ms_timeout_max f1 = df_ms_timeout_max f"
      using same_request_sends [OF d1(3)] by (simp_all add: same_request_def)
    have t: "0 \<le> tu_proc t" "df_ms_timeout_max f1 + tu_proc t < 2 ^ 31" "0 \<le> df_ms_timeout_max f1"
      using Cons.prems(3,4) f1(6) by (auto simp: turn_ok_def)
    from dfsm_process_inv [OF f1(2) t(3,1,2)] obtain f2 out where
      f2: "dfsm_process wrote (tu_proc t) f1 = Some (f2, out)" "dfsm_inv f2" "df_ms_timeout_max f2 = df_ms_timeout_max f1" by blast
    from deliver_inv [OF f2(2)] obtain f3 where
      d3: "deliver (tu_rx2 t) f2 = Some f3" "dfsm_inv f3" "same_request f2 f3" by blast
    then have f3: "deliver (tu_rx2 t) f2 = Some f3" "dfsm_inv f3" "request f3 = request f2" "sends_left f3 = sends_left f2"
        "df_retry f3 = df_retry f2" "df_ms_timeout_max f3 = df_ms_timeout_max f2"
      using same_request_sends [OF d3(3)] by (simp_all add: same_request_def)
    have r: "0 \<le> df_retry f1" using Cons.prems(2) f1(5) by simp
    have q: "int (length (sent out)) + sends_left f2 \<le> sends_left f1" "0 \<le> df_retry f2" "request f2 = request f1"
      "\<forall>o1 \<in> set (sent out). \<exists>n. o1 = take n (request f1)"
      using process_sends [OF f1(2) r f2(1)] by (simp_all add: sends_ok_def)
    have "0 \<le> df_retry f3" "df_ms_timeout_max f3 = 2000" using q(2) f3(5,6) f2(3) f1(6) Cons.prems(3) by simp_all
    moreover have "\<forall>t \<in> set ts. turn_ok t" "\<exists>t \<in> set ts. tu_check t \<ge> deadline" using Cons.prems(4,5) True by auto
    ultimately obtain f4 outs where
      f4: "read_loop wrote deadline ts f3 = Some (f4, outs)" "dfsm_inv f4" "int (length outs) \<le> sends_left f3"
        "\<forall>o1 \<in> set outs. \<exists>n. o1 = take n (request f3)"
      using Cons.IH [OF f3(2)] by blast
    have "int (length (sent out @ outs)) \<le> sends_left f" using q(1) f4(3) f3(4) f1(4) by simp
    moreover have "\<forall>o1 \<in> set (sent out @ outs). \<exists>n. o1 = take n (request f)"
      using q(3,4) f4(4) f3(3) f1(3) by auto
    ultimately show ?thesis using True f1(1) f2(1) f3(1) f4(1,2) by simp
  qed
qed simp

section \<open>Values\<close>

definition be_val :: "bytes \<Rightarrow> nat" where
  "be_val bs = le_val (rev bs)"

definition named :: "bytes \<Rightarrow> nat \<Rightarrow> bytes \<Rightarrow> bytes" where
  "named frame prec order = map (\<lambda>c. frame ! (prec + (unat c - 65))) order"

lemma pick_loop_named:
  assumes "\<forall>c \<in> set order. 65 \<le> unat c \<and> prec + (unat c - 65) < length frame" "length dat + length order \<le> 10"
  shows "pick_loop frame (int prec) order dat = Some (dat @ named frame prec order)"
  using assms
proof (induction order arbitrary: dat)
  case (Cons c cs)
  have u: "uint c = int (unat c)" "65 \<le> unat c" using Cons.prems(1) by simp_all
  then have e: "int prec + uint c - 65 = int (prec + (unat c - 65))" by linarith
  have "rd frame (prec + (unat c - 65)) = Some (frame ! (prec + (unat c - 65)))"
    by (rule rd_lt [OF conjunct2 [OF bspec [OF Cons.prems(1) list.set_intros(1)]]])
  then have "(if 0 \<le> int prec + uint c - 65 then rd frame (nat (int prec + uint c - 65)) else None) =
      Some (frame ! (prec + (unat c - 65)))"
    unfolding e by (simp only: of_nat_0_le_iff if_True nat_int)
  moreover have "pick_loop frame (int prec) cs (dat @ [frame ! (prec + (unat c - 65))]) =
      Some ((dat @ [frame ! (prec + (unat c - 65))]) @ named frame prec cs)"
  proof (rule Cons.IH)
    show "\<forall>c \<in> set cs. 65 \<le> unat c \<and> prec + (unat c - 65) < length frame"
      by (intro ballI bspec [OF Cons.prems(1)] list.set_intros(2))
    show "length (dat @ [frame ! (prec + (unat c - 65))]) + length cs \<le> 10" using Cons.prems(2) by simp
  qed
  ultimately show ?case using Cons.prems(2) by (simp only: pick_loop.simps Let_def bind.bind_lunit) (simp add: named_def)
qed (simp add: named_def)

text \<open>The settings of a sensor whose values are unsigned integers of at most six bytes.\<close>

definition int_sensor :: "rtu_485 \<Rightarrow> bytes \<Rightarrow> bytes \<Rightarrow> bytes \<Rightarrow> bool" where
  "int_sensor item cmd pre order \<longleftrightarrow>
     recv_patten (rs_requestCmd item) = Some cmd \<and> cmd \<noteq> [] \<and> recv_patten (rs_resultDataFilter item) = Some pre
     \<and> cbytes (rs_dataFormatter item) = order \<and> length order \<le> 6 \<and> (\<forall>c \<in> set order. 65 \<le> unat c \<and> unat c < 245)
     \<and> take 3 (cbytes (rs_dataType item)) = bytes_of ''int''"

lemma sdiv_abs: "b \<noteq> 0 \<Longrightarrow> \<bar>(a :: int) sdiv b\<bar> \<le> \<bar>a\<bar>"
proof -
  assume b: "b \<noteq> 0"
  have "0 \<le> \<bar>a\<bar> div \<bar>b\<bar>" using b by (simp add: pos_imp_zdiv_nonneg_iff)
  then have "\<bar>a sdiv b\<bar> \<le> \<bar>a\<bar> div \<bar>b\<bar>" by (simp add: signed_divide_int_def abs_mult)
  also have "\<dots> \<le> \<bar>a\<bar>" using b zdiv_mono2 [of "\<bar>a\<bar>" 1 "\<bar>b\<bar>"] by simp
  finally show ?thesis .
qed

lemma le_val_zeros: "le_val (replicate k 0) = 0"
  by (induction k) simp_all

lemma parse_int_value:
  assumes "length dat = n" "n \<le> 6"
  shows "parse_int dat (int n) b = Some (word_of_int (if b \<noteq> 0 then (1000 * int (be_val dat)) sdiv b else 1000 * int (be_val dat)))"
proof -
  let ?v = "int (be_val dat)"
  have l: "le_val (rev dat @ replicate (8 - n) 0) = be_val dat"
    using assms by (simp add: be_val_def le_val_append le_val_zeros)
  have "be_val dat < 256 ^ 6"
    using le_val_bound [of "rev dat"] assms power_increasing [of n 6 "256 :: nat"] by (simp add: be_val_def)
  then have v: "0 \<le> ?v" "?v < 256 ^ 6" by simp_all
  then have s: "sint (word_of_nat (be_val dat) :: l64) = ?v"
    using sint_word_of_int_l64 [of ?v] by simp
  have x: "l64_of (?v * 1000) = Some (word_of_int (1000 * ?v))" "sint (word_of_int (1000 * ?v) :: l64) = 1000 * ?v"
    using v sint_word_of_int_l64 [of "1000 * ?v"] by (simp_all add: mult.commute)
  have "l64_of ((1000 * ?v) sdiv b) = Some (word_of_int ((1000 * ?v) sdiv b))" if "b \<noteq> 0"
    using sdiv_abs [OF that, of "1000 * ?v"] v by (intro l64_of_Some) (simp_all add: abs_le_iff)
  then show ?thesis
    using assms x(1) by (auto simp: parse_int_def little2big_rev l s x(2) simp del: of_int_mult of_int_of_nat_eq)
qed

lemma parse_sensor:
  assumes "int_sensor item cmd pre order" "length frame = df_size"
  shows "parse_data (rs_resultDataFilter item) (rs_dataFormatter item) (rs_dataType item) frame =
    Some (if take (length pre) frame = pre
          then (let b = fomat_div (cbytes (rs_dataType item)) 4; v = 1000 * int (be_val (named frame (length pre) order))
                in word_of_int (if b \<noteq> 0 then v sdiv b else v), 0)
          else (0, 1))"
proof -
  have p: "length pre \<le> 20" using assms(1) recv_patten_length unfolding int_sensor_def by blast
  then have r: "rd_range frame 0 (length pre) = Some (take (length pre) frame)"
    using assms(2) by (simp add: rd_range_def df_size_def)
  have o: "length order \<le> 6" "cbytes (rs_dataFormatter item) = order" using assms(1) by (simp_all add: int_sensor_def)
  have "\<forall>c \<in> set order. 65 \<le> unat c \<and> length pre + (unat c - 65) < length frame"
    using assms p by (auto simp: int_sensor_def df_size_def)
  then have "pick_loop frame (int (length pre)) order [] = Some (named frame (length pre) order)"
    using pick_loop_named [of order "length pre" frame "[]"] o by (simp only: append_Nil list.size)
  moreover have "length (named frame (length pre) order) = length order" by (simp add: named_def)
  ultimately show ?thesis
    using assms(1) o r parse_int_value [of "named frame (length pre) order" "length order"]
    by (simp add: parse_data_def int_sensor_def Let_def)
qed

section \<open>One reading\<close>

lemma inv_wann [simp]: "dfsm_inv (f\<lparr>df_wann := w\<rparr>) = dfsm_inv f"
  by (simp add: dfsm_inv_def)

lemma inv_idle: "dfsm_inv f \<Longrightarrow> dfsm_inv (f\<lparr>df_step := DFSM_STATE_IDLE, df_slen := 0, df_rlen := 0\<rparr>)"
  by (simp add: dfsm_inv_def dfsm_steps)

definition wanted :: "rtu_485 \<Rightarrow> int" where
  "wanted item = (int (length (cbytes (rs_resultDataFilter item))) + int (length (cbytes (rs_dataFormatter item)))) sdiv 2"

text \<open>The reading behind its guards.\<close>

lemma read_a_data_start:
  assumes "dfsm_inv f" "df_step f = DFSM_STATE_IDLE \<or> df_step f = DFSM_STATE_WAIT" "df_ms_timeout_max f = 2000"
    and "recv_patten (rs_requestCmd item) = Some cmd" "cmd \<noteq> []" "- (2 ^ 31) \<le> clock + timeoutms" "clock + timeoutms < 2 ^ 31"
  shows "\<exists>d. dfsm_inv d \<and> df_step d = DFSM_STATE_SEND \<and> df_retry d = 2 \<and> request d = cmd \<and> df_rlen d = 0
      \<and> \<not> df_getpacket d \<and> df_cb d \<and> df_wann d = wanted item \<and> df_ms_timeout_max d = 2000 \<and>
    read_a_data wrote clock turns item timeoutms f = do {
      (d2, outs) \<leftarrow> read_loop wrote (clock + timeoutms) turns d;
      if df_getpacket d2
      then do {
        (value, ferr) \<leftarrow> parse_data (rs_resultDataFilter item) (rs_dataFormatter item) (rs_dataType item) (df_rb d2);
        let d3 = d2\<lparr>df_step := DFSM_STATE_IDLE, df_slen := 0, df_rlen := 0\<rparr>;
        if ferr = 1 then Some (d3, outs, 0, -1) else Some (d3, outs, value, 1) }
      else Some (d2, outs, 0, 0) }"
proof -
  let ?d0 = "f\<lparr>df_wann := wanted item\<rparr>"
  have c: "0 < length cmd" "length cmd \<le> df_size" using assms(4,5) recv_patten_length [OF assms(4)] by (simp_all add: df_size_def)
  from dfsm_init_inv [of ?d0 cmd 2] assms(1) c obtain d where
    d: "dfsm_init cmd (int (length cmd)) 2 ?d0 = Some d" "dfsm_inv d" "df_step d = DFSM_STATE_SEND" "df_retry d = 2"
      "df_slen d = int (length cmd)" "take (length cmd) (df_sb d) = cmd" "df_rlen d = 0" "\<not> df_getpacket d" "df_cb d"
      "df_wann d = wanted item" "df_ms_timeout_max d = 2000"
    using assms(3) by auto
  have "request d = cmd" using d(5,6) by (simp add: request_def)
  moreover have "int32 (clock + timeoutms) = Some (clock + timeoutms)" using assms(6,7) by simp
  ultimately show ?thesis
    using d assms(2,4) c by (intro exI [of _ d]) (simp add: read_a_data_def Let_def flip: wanted_def)
qed

lemma read_returns:
  assumes "dfsm_inv f" "df_step f = DFSM_STATE_IDLE \<or> df_step f = DFSM_STATE_WAIT" "df_ms_timeout_max f = 2000"
    and "int_sensor item cmd pre order" "0 \<le> clock + timeoutms" "clock + timeoutms < 2 ^ 31"
    and "\<forall>t \<in> set turns. turn_ok t" "\<exists>t \<in> set turns. tu_check t \<ge> clock + timeoutms"
  shows "\<exists>f' outs v r. read_a_data wrote clock turns item timeoutms f = Some (f', outs, v, r) \<and> length outs \<le> 3 \<and>
    (\<forall>o1 \<in> set outs. \<exists>n. o1 = take n cmd) \<and> dfsm_inv f' \<and> r \<in> {-1, 0, 1}"
proof -
  have c: "recv_patten (rs_requestCmd item) = Some cmd" "cmd \<noteq> []" using assms(4) by (simp_all add: int_sensor_def)
  from read_a_data_start [OF assms(1-3) c _ assms(6), of wrote turns] assms(5) obtain d where
    d: "dfsm_inv d" "df_step d = DFSM_STATE_SEND" "df_retry d = 2" "request d = cmd" "df_ms_timeout_max d = 2000"
    and e: "read_a_data wrote clock turns item timeoutms f = do {
      (d2, outs) \<leftarrow> read_loop wrote (clock + timeoutms) turns d;
      if df_getpacket d2
      then do {
        (value, ferr) \<leftarrow> parse_data (rs_resultDataFilter item) (rs_dataFormatter item) (rs_dataType item) (df_rb d2);
        let d3 = d2\<lparr>df_step := DFSM_STATE_IDLE, df_slen := 0, df_rlen := 0\<rparr>;
        if ferr = 1 then Some (d3, outs, 0, -1) else Some (d3, outs, value, 1) }
      else Some (d2, outs, 0, 0) }" by auto
  have "sends_left d = 3" using d by (simp add: sends_left_def dfsm_steps)
  with read_loop_ok [OF d(1) _ d(5) assms(7,8), of wrote] d(3,4) obtain d2 outs where
    l: "read_loop wrote (clock + timeoutms) turns d = Some (d2, outs)" "dfsm_inv d2" "length outs \<le> 3"
      "\<forall>o1 \<in> set outs. \<exists>n. o1 = take n cmd" by auto
  have "length (df_rb d2) = df_size" using l(2) by (simp add: dfsm_inv_def)
  then obtain v ferr where
    "parse_data (rs_resultDataFilter item) (rs_dataFormatter item) (rs_dataType item) (df_rb d2) = Some (v, ferr)"
    using parse_sensor [OF assms(4), of "df_rb d2"] by (metis surj_pair)
  with e l inv_idle [OF l(2)] show ?thesis by (simp add: Let_def)
qed

text \<open>The first turn of a reading sends the request.\<close>

lemma first_turn:
  assumes "dfsm_inv d" "df_step d = DFSM_STATE_SEND" "df_ms_timeout_max d = 2000" "turn_ok t" "df_cb d"
  shows "\<exists>d'. dfsm_process wrote (tu_proc t) d = Some (d', Some (take (nat (wrote (request d))) (request d)))
    \<and> dfsm_inv d' \<and> df_step d' = DFSM_STATE_WAIT \<and> df_ms_timeout d' = 2000 + tu_proc t \<and> df_rlen d' = df_rlen d
    \<and> df_getpacket d' = df_getpacket d \<and> df_wann d' = df_wann d \<and> df_ms_timeout_max d' = 2000 \<and> df_cb d'"
proof -
  have "mx_send (mxserial wrote) (df_dev d) (df_sb d) (df_slen d) (df_stimeout d) 0 =
      Some (df_dev d, take (nat (wrote (request d))) (request d))"
    using assms(1) by (auto simp: mxserial_def mxserial_send_def rd_range_def sp_send_def request_def dfsm_inv_def)
  moreover have "int32 (2000 + tu_proc t) = Some (2000 + tu_proc t)" using assms(4) by (simp add: turn_ok_def)
  ultimately show ?thesis
    using assms by (auto simp: dfsm_process_def dfsm_send_step_def dfsm_inv_def dfsm_steps)
qed

text \<open>The value of an answer.\<close>

definition answer_value :: "rtu_485 \<Rightarrow> bytes \<Rightarrow> bytes \<Rightarrow> bytes \<Rightarrow> l64" where
  "answer_value item pre order ans =
     (let b = fomat_div (cbytes (rs_dataType item)) 4; v = 1000 * int (be_val (named ans (length pre) order))
      in word_of_int (if b \<noteq> 0 then v sdiv b else v))"

definition answers :: "rtu_485 \<Rightarrow> bytes \<Rightarrow> bytes \<Rightarrow> bytes \<Rightarrow> bool" where
  "answers item pre order ans \<longleftrightarrow> ans \<noteq> [] \<and> length ans \<le> df_size \<and> wanted item \<le> int (length ans) \<and>
     take (length pre) ans = pre \<and> (\<forall>c \<in> set order. length pre + (unat c - 65) < length ans)"

lemma named_prefix:
  assumes "\<forall>c \<in> set order. prec + (unat c - 65) < n"
  shows "named frame prec order = named (take n frame) prec order"
  unfolding named_def by (rule map_cong [OF refl], rule nth_take [symmetric]) (rule bspec [OF assms])

lemma answer_packet:
  assumes "dfsm_inv d" "df_rlen d = 0" "df_wann d = wanted item" "answers item pre order ans"
  shows "\<exists>d'. dfsm_packet_process ans d = Some d' \<and> dfsm_inv d' \<and> df_getpacket d' \<and> take (length ans) (df_rb d') = ans
    \<and> same_request d d'"
proof -
  have n: "min (length ans) (df_size - nat (df_rlen d)) = length ans" using assms(2,4) by (simp add: answers_def)
  obtain d' where "dfsm_packet_process ans d = Some d'" "dfsm_inv d'" "df_rlen d' = int (length ans)"
    "take (nat (df_rlen d')) (df_rb d') = take (nat (df_rlen d)) (df_rb d) @ ans" "df_getpacket d' = (df_getpacket d \<or> 0 < length ans \<and> df_wann d \<le> df_rlen d')"
    "same_request d d'"
    using dfsm_packet_inv [OF assms(1), of ans] assms(2) unfolding n Let_def same_request_def request_def
    by (metis add_0 take_all_iff le_refl)
  with assms(2-4) show ?thesis by (auto simp: answers_def)
qed

lemma parse_answer:
  assumes "int_sensor item cmd pre order" "answers item pre order ans" "length rb = df_size" "take (length ans) rb = ans"
  shows "parse_data (rs_resultDataFilter item) (rs_dataFormatter item) (rs_dataType item) rb = Some (answer_value item pre order ans, 0)"
proof -
  have "length pre \<le> length ans" using assms(2) by (metis answers_def length_take min.cobounded2 min.commute)
  then have "take (length pre) rb = pre"
    using assms(2,4) unfolding answers_def by (metis min.absorb1 take_take)
  moreover have "named rb (length pre) order = named ans (length pre) order"
    using named_prefix [of order "length pre" "length ans" rb] assms(2,4) unfolding answers_def by metis
  ultimately show ?thesis by (simp add: parse_sensor [OF assms(1,3)] answer_value_def)
qed

text \<open>An answer that is complete when the loop looks is taken.\<close>

lemma read_answer:
  assumes "dfsm_inv f" "df_step f = DFSM_STATE_IDLE \<or> df_step f = DFSM_STATE_WAIT" "df_ms_timeout_max f = 2000"
    and "int_sensor item cmd pre order" "answers item pre order ans" "0 \<le> clock + timeoutms" "clock + timeoutms < 2 ^ 31"
    and "turn_ok t" "tu_check t < clock + timeoutms" "tu_rx1 t = []" "tu_rx2 t = [ans]"
  shows "\<exists>f'. read_a_data wrote clock (t # u # ts) item timeoutms f =
      Some (f', [take (nat (wrote cmd)) cmd], answer_value item pre order ans, 1) \<and> dfsm_inv f' \<and> df_step f' = DFSM_STATE_IDLE"
proof -
  have c: "recv_patten (rs_requestCmd item) = Some cmd" "cmd \<noteq> []" using assms(4) by (simp_all add: int_sensor_def)
  from read_a_data_start [OF assms(1-3) c _ assms(7), of wrote "t # u # ts"] assms(6) obtain d where
    d: "dfsm_inv d" "df_step d = DFSM_STATE_SEND" "request d = cmd" "df_rlen d = 0" "\<not> df_getpacket d" "df_cb d"
      "df_wann d = wanted item" "df_ms_timeout_max d = 2000"
    and e: "read_a_data wrote clock (t # u # ts) item timeoutms f = do {
      (d2, outs) \<leftarrow> read_loop wrote (clock + timeoutms) (t # u # ts) d;
      if df_getpacket d2
      then do {
        (value, ferr) \<leftarrow> parse_data (rs_resultDataFilter item) (rs_dataFormatter item) (rs_dataType item) (df_rb d2);
        let d3 = d2\<lparr>df_step := DFSM_STATE_IDLE, df_slen := 0, df_rlen := 0\<rparr>;
        if ferr = 1 then Some (d3, outs, 0, -1) else Some (d3, outs, value, 1) }
      else Some (d2, outs, 0, 0) }" by auto
  from first_turn [OF d(1,2,8) assms(8) d(6), of wrote] d(3) obtain d1 where
    d1: "dfsm_process wrote (tu_proc t) d = Some (d1, Some (take (nat (wrote cmd)) cmd))" "dfsm_inv d1"
      "df_rlen d1 = 0" "df_wann d1 = wanted item" using d(4,7) by auto
  from answer_packet [OF d1(2-4) assms(5)] obtain d2 where
    d2: "dfsm_packet_process ans d1 = Some d2" "dfsm_inv d2" "df_getpacket d2" "take (length ans) (df_rb d2) = ans" by blast
  have "read_loop wrote (clock + timeoutms) (t # u # ts) d = Some (d2, [take (nat (wrote cmd)) cmd])"
    using assms(9-11) d(5) d1(1) d2(1,3) by (simp add: sent_def)
  moreover have "length (df_rb d2) = df_size" using d2(2) by (simp add: dfsm_inv_def)
  ultimately show ?thesis
    using e d2(3) parse_answer [OF assms(4,5) _ d2(4)] inv_idle [OF d2(2)] by (simp add: Let_def)
qed

text \<open>Without a request under way and without data nothing changes but the step.\<close>

definition quiet :: "Turn \<Rightarrow> bool" where
  "quiet t \<longleftrightarrow> tu_rx1 t = [] \<and> tu_rx2 t = []"

lemma read_loop_quiet:
  assumes "df_step f = DFSM_STATE_GET \<or> df_step f = DFSM_STATE_IDLE" "\<not> df_getpacket f" "\<forall>t \<in> set ts. quiet t"
    "\<exists>t \<in> set ts. tu_check t \<ge> deadline"
  shows "\<exists>f'. read_loop wrote deadline ts f = Some (f', []) \<and> \<not> df_getpacket f'"
  using assms
proof (induction ts arbitrary: f)
  case (Cons t ts)
  have p: "dfsm_process wrote (tu_proc t) f = Some (f\<lparr>df_step := DFSM_STATE_IDLE\<rparr>, None)"
    using Cons.prems(1) by (auto simp: dfsm_process_def dfsm_steps)
  show ?case
  proof (cases "deadline > tu_check t")
    case True
    with Cons.prems(3,4) Cons.IH [of "f\<lparr>df_step := DFSM_STATE_IDLE\<rparr>"] Cons.prems(2) show ?thesis
      using p by (auto simp: quiet_def sent_def)
  next
    case False
    with Cons.prems(2) show ?thesis by simp
  qed
qed simp

text \<open>An answer that is complete between the test of the loop and the call of \<^verbatim>\<open>process\<close> is lost.\<close>

lemma read_answer_lost:
  assumes "dfsm_inv f" "df_step f = DFSM_STATE_IDLE \<or> df_step f = DFSM_STATE_WAIT" "df_ms_timeout_max f = 2000"
    and "int_sensor item cmd pre order" "answers item pre order ans" "0 \<le> clock + timeoutms" "clock + timeoutms < 2 ^ 31"
    and "turn_ok t" "tu_check t < clock + timeoutms" "quiet t"
    and "tu_check u < clock + timeoutms" "tu_rx1 u = [ans]" "tu_rx2 u = []" "tu_proc u \<le> tu_proc t + 2000"
    and "\<forall>w \<in> set ts. quiet w" "\<exists>w \<in> set ts. tu_check w \<ge> clock + timeoutms"
  shows "\<exists>f'. read_a_data wrote clock (t # u # ts) item timeoutms f = Some (f', [take (nat (wrote cmd)) cmd], 0, 0)"
proof -
  have c: "recv_patten (rs_requestCmd item) = Some cmd" "cmd \<noteq> []" using assms(4) by (simp_all add: int_sensor_def)
  from read_a_data_start [OF assms(1-3) c _ assms(7), of wrote "t # u # ts"] assms(6) obtain d where
    d: "dfsm_inv d" "df_step d = DFSM_STATE_SEND" "request d = cmd" "df_rlen d = 0" "\<not> df_getpacket d" "df_cb d"
      "df_wann d = wanted item" "df_ms_timeout_max d = 2000"
    and e: "read_a_data wrote clock (t # u # ts) item timeoutms f = do {
      (d2, outs) \<leftarrow> read_loop wrote (clock + timeoutms) (t # u # ts) d;
      if df_getpacket d2
      then do {
        (value, ferr) \<leftarrow> parse_data (rs_resultDataFilter item) (rs_dataFormatter item) (rs_dataType item) (df_rb d2);
        let d3 = d2\<lparr>df_step := DFSM_STATE_IDLE, df_slen := 0, df_rlen := 0\<rparr>;
        if ferr = 1 then Some (d3, outs, 0, -1) else Some (d3, outs, value, 1) }
      else Some (d2, outs, 0, 0) }" by auto
  from first_turn [OF d(1,2,8) assms(8) d(6), of wrote] d(3) obtain d1 where
    d1: "dfsm_process wrote (tu_proc t) d = Some (d1, Some (take (nat (wrote cmd)) cmd))" "dfsm_inv d1"
      "df_rlen d1 = 0" "df_wann d1 = wanted item" "df_step d1 = DFSM_STATE_WAIT" "df_ms_timeout d1 = 2000 + tu_proc t"
      "\<not> df_getpacket d1" "df_cb d1" using d(4,5,7) by auto
  from answer_packet [OF d1(2-4) assms(5)] obtain d2 where
    d2: "dfsm_packet_process ans d1 = Some d2" "df_getpacket d2" "same_request d1 d2" by blast
  then have p: "dfsm_process wrote (tu_proc u) d2 = Some (d2\<lparr>df_getpacket := False, df_step := DFSM_STATE_GET\<rparr>, None)"
    using d1(5,6,8) assms(14) by (simp add: same_request_def dfsm_process_def dfsm_wait_step_def dfsm_steps)
  from read_loop_quiet [of "d2\<lparr>df_getpacket := False, df_step := DFSM_STATE_GET\<rparr>" ts "clock + timeoutms" wrote] assms(15,16)
  obtain d3 where "read_loop wrote (clock + timeoutms) ts (d2\<lparr>df_getpacket := False, df_step := DFSM_STATE_GET\<rparr>) = Some (d3, [])"
    "\<not> df_getpacket d3" by auto
  with p d(5) d1(1,7) d2(1) assms(9-13) have "read_loop wrote (clock + timeoutms) (t # u # ts) d = Some (d3, [take (nat (wrote cmd)) cmd])"
    by (simp add: sent_def quiet_def)
  with e \<open>\<not> df_getpacket d3\<close> show ?thesis by simp
qed

section \<open>The interval\<close>

definition interval :: "App \<Rightarrow> int option" where
  "interval s = map_option (\<lambda>it. to_int32 (sint (it_val it))) (get_place (runtime s) (at_id (runtime s) 0x23))"

lemma is_down_due:
  "is_down reset now s prev = Some (l, True) \<Longrightarrow> \<exists>sec. interval s = Some sec \<and> prev + sec < now \<and> l = (if reset then now + sec else prev)"
  by (auto simp: is_down_def interval_def int32_def Let_def split: bind_splits if_splits)

end
