(* ===== verification/Gauge.thy ===== *)
theory Gauge
  imports Rain
begin

text \<open>
  The pulse input of the rain gauge, \<^verbatim>\<open>app/down/_sensor_yuliang.cpp\<close>: opening the
  device, the loop that waits for its events, and a turn of the thread. What the device answers is a list of turns;
  the law is that the loop counts the falling edges of the input, each as one pulse of the gauge.
\<close>

section \<open>The device\<close>

text \<open>One turn of the loop: the results of \<^verbatim>\<open>select\<close> and of \<^verbatim>\<open>read\<close>, whether the
  descriptor is in the set, the event that is read, and the time. The driver delivers whole events; a
  \<^verbatim>\<open>read\<close> of nothing leaves the buffer as it was.\<close>

record DiTurn =
  dt_select :: int
  dt_isset :: bool
  dt_read :: int
  dt_event :: "nat \<times> nat"
  dt_now :: int

text \<open>\<open>answer\<close> is what \<^verbatim>\<open>open\<close> returns.\<close>

definition di_open :: "string \<Rightarrow> int \<Rightarrow> int" where
  "di_open path answer =
     (if take 7 path = ''/dev/di'' \<or> take 14 path = ''/dev/plugin/di''
      then (if answer < 0 then -2 else answer) else -1)"

definition di_read :: "int \<Rightarrow> nat \<times> nat \<Rightarrow> nat \<times> nat \<Rightarrow> int \<times> (nat \<times> nat)" where
  "di_read len ev buf = (if len < 0 then (-1, buf) else (1, if len = 0 then buf else ev))"

text \<open>\<open>buf\<close> is the global \<^verbatim>\<open>ucDioCfg\<close>, \<open>old\<close> the static of \<^verbatim>\<open>di_get\<close>. The result is
  \<open>None\<close> in its first component while the loop still waits.\<close>

fun di_poll :: "Host \<Rightarrow> DiTurn list \<Rightarrow> nat \<times> nat \<Rightarrow> nat \<times> nat \<Rightarrow> App \<Rightarrow>
    (int option \<times> (nat \<times> nat) \<times> (nat \<times> nat) \<times> App) option" where
  "di_poll h [] buf old s = Some (None, buf, old, s)"
| "di_poll h (t # ts) buf old s =
     (if dt_select t \<le> 0 then Some (Some (-1), buf, old, s)
      else if dt_isset t then
        (if dt_read t < 0 then Some (Some (-1), buf, old, s)
         else do {
           let buf = (if dt_read t = 0 then buf else dt_event t);
           (s, old) \<leftarrow> di_get h (dt_now t) buf old s;
           di_poll h ts buf old s })
      else di_poll h ts buf old s)"

text \<open>A turn of the thread: the device is opened, polled until that fails, and closed. Descriptor 0
  counts as a failure.\<close>

definition yuliang_turn :: "Host \<Rightarrow> int \<Rightarrow> DiTurn list \<Rightarrow> nat \<times> nat \<Rightarrow> nat \<times> nat \<Rightarrow> App \<Rightarrow>
    (int option \<times> (nat \<times> nat) \<times> (nat \<times> nat) \<times> App) option" where
  "yuliang_turn h answer ts buf old s =
     (if di_open ''/dev/di1'' answer > 0 then di_poll h ts buf old s else Some (Some 0, buf, old, s))"

section \<open>Falling edges\<close>

text \<open>The times at which the input falls: the first event sets the level, then every change to 0
  counts.\<close>

fun falls :: "DiTurn list \<Rightarrow> nat \<times> nat \<Rightarrow> nat \<times> nat \<Rightarrow> int list" where
  "falls [] buf old = []"
| "falls (t # ts) buf old =
     (if \<not> dt_isset t then falls ts buf old
      else
        let buf = (if dt_read t = 0 then buf else dt_event t);
            prev = (if old = (0, 0) then buf else old)
        in (if snd prev \<noteq> snd buf
            then (if snd buf = 0 then dt_now t # falls ts buf buf else falls ts buf buf)
            else falls ts buf prev))"

definition di_good :: "DiTurn \<Rightarrow> bool" where
  "di_good t \<longleftrightarrow> 0 < dt_select t \<and> 0 \<le> dt_read t"

lemma di_get_fall:
  "di_get h now ev old s =
     (let prev = (if old = (0, 0) then ev else old)
      in if snd prev \<noteq> snd ev \<and> snd ev = 0 then map_option (\<lambda>s'. (s', ev)) (rain_caculation h now 1 s)
         else Some (s, if snd prev \<noteq> snd ev then ev else prev))"
  by (cases old) (auto simp: di_get_def Let_def)

lemma di_poll_falls:
  assumes "\<forall>t\<in>set ts. di_good t"
  shows "case di_poll h ts buf old s of
      None \<Rightarrow> rain_pulses h (falls ts buf old) s = None
    | Some (r, c, d, s') \<Rightarrow> r = None \<and> rain_pulses h (falls ts buf old) s = Some s'"
  using assms
proof (induction ts arbitrary: buf old s)
  case Nil
  then show ?case by simp
next
  case (Cons t ts)
  then have g: "\<not> dt_select t \<le> 0" "\<not> dt_read t < 0" and rest: "\<forall>t\<in>set ts. di_good t" by (simp_all add: di_good_def)
  show ?case
  proof (cases "dt_isset t")
    case False
    then have "di_poll h (t # ts) buf old s = di_poll h ts buf old s" "falls (t # ts) buf old = falls ts buf old"
      using g by simp_all
    then show ?thesis using Cons.IH [OF rest, of buf old s] by (simp only:)
  next
    case True
    define ev where "ev = (if dt_read t = 0 then buf else dt_event t)"
    define prev where "prev = (if old = (0, 0) then ev else old)"
    have p: "di_poll h (t # ts) buf old s =
      (case di_get h (dt_now t) ev old s of None \<Rightarrow> None | Some (s1, o1) \<Rightarrow> di_poll h ts ev o1 s1)"
      using True g by (auto simp: ev_def split: option.splits)
    have f: "falls (t # ts) buf old =
      (if snd prev \<noteq> snd ev then (if snd ev = 0 then dt_now t # falls ts ev ev else falls ts ev ev) else falls ts ev prev)"
      using True by (simp add: ev_def prev_def Let_def)
    have d: "di_get h (dt_now t) ev old s =
      (if snd prev \<noteq> snd ev \<and> snd ev = 0 then map_option (\<lambda>s'. (s', ev)) (rain_caculation h (dt_now t) 1 s)
       else Some (s, if snd prev \<noteq> snd ev then ev else prev))"
      by (simp add: di_get_fall prev_def Let_def)
    show ?thesis
    proof (cases "rain_caculation h (dt_now t) 1 s")
      case None
      then show ?thesis unfolding p f d using Cons.IH [OF rest, of ev ev s] Cons.IH [OF rest, of ev prev s]
        by (auto split: option.splits)
    next
      case (Some a)
      then show ?thesis unfolding p f d using Cons.IH [OF rest, of ev ev a] Cons.IH [OF rest, of ev ev s]
          Cons.IH [OF rest, of ev prev s]
        by (auto split: option.splits)
    qed
  qed
qed

text \<open>The input falls at most once for every event.\<close>

lemma falls_length: "length (falls ts buf old) \<le> length ts"
  by (induction ts arbitrary: buf old) (auto simp: Let_def le_SucI)


section \<open>Pulses as edges of the level\<close>

text \<open>What the loop should count, on the levels alone: the levels the events carry, and how often one falls
  to 0. The static of \<^verbatim>\<open>di_get\<close> starts as \<open>(0, 0)\<close>, so the first level is never a fall.\<close>

fun levels :: "nat \<times> nat \<Rightarrow> DiTurn list \<Rightarrow> nat list" where
  "levels buf [] = []"
| "levels buf (t # ts) =
     (if dt_isset t then (let buf = (if dt_read t = 0 then buf else dt_event t) in snd buf # levels buf ts)
      else levels buf ts)"

fun edges :: "nat list \<Rightarrow> nat" where
  "edges (a # b # ls) = (if a \<noteq> 0 \<and> b = 0 then 1 else 0) + edges (b # ls)"
| "edges ls = 0"

lemma falls_edges: "length (falls ts buf old) = edges (snd old # levels buf ts)"
proof (induction ts arbitrary: buf old)
  case Nil
  show ?case by simp
next
  case (Cons t ts)
  then show ?case by (cases old) (auto simp: Let_def)
qed

text \<open>A run of good turns, without overflow: every total grows by the resolution for each edge.\<close>

lemma di_poll_total:
  assumes "app_wf s" and "runtime_val s 0x25 = Some u" and "1 \<le> u" and "u < 2 ^ 16"
    and "gauge_le b s" and "b + int (length ts) * u < 2 ^ 63 - 1" and "\<forall>t\<in>set ts. di_good t"
  shows "\<exists>buf' old' s'. di_poll h ts buf old s = Some (None, buf', old', s') \<and> app_wf s' \<and>
    (\<forall>i \<in> {0x1A, 0x20, 0x26}. total (devdata s') i =
      total (devdata s) i + int (edges (snd old # levels buf ts)) * u)"
proof -
  have "int (length (falls ts buf old)) * u \<le> int (length ts) * u"
    using falls_length [of ts buf old] assms(3) by (simp add: mult_right_mono)
  with assms(6) have "b + int (length (falls ts buf old)) * u < 2 ^ 63 - 1" by simp
  from rain_pulses_total [OF assms(1-5) this] obtain s' where
    s': "rain_pulses h (falls ts buf old) s = Some s'" "app_wf s'"
      "\<forall>i \<in> {0x1A, 0x20, 0x26}. total (devdata s') i = total (devdata s) i + int (length (falls ts buf old)) * u"
    by blast
  with di_poll_falls [OF assms(7), of h buf old s] show ?thesis
    by (auto simp: falls_edges split: option.splits)
qed

end
