(* ===== verification/Daemon_Sys.thy ===== *)
theory Daemon_Sys
  imports Calendar Lib_Text
begin

text \<open>
  The system calls of the update daemon (\<^verbatim>\<open>daemon/\<close>) and its own helper functions,
  \<^verbatim>\<open>daemon/lib.cpp\<close> and the search function of \<^verbatim>\<open>daemon/daemon.cpp\<close>.

  The operating system is a script: the answers to the calls to come, in their order. Every call takes
  the first one; when the script is over every call fails. A script stands for one finite behaviour of
  the system and of the peer, and every statement is about all of them. Descriptors are
  handed out as POSIX does, the lowest free one; those in use are in \<open>os_open\<close>. What the
  daemon does to the world is logged. Texts are lists of characters; a text that does not fit the array
  it is written to, and a read outside an object or of a variable never set, is \<open>None\<close>.
\<close>

section \<open>The operating system\<close>

text \<open>\<open>an_ret\<close> is what a call returns, \<open>an_val\<close> what it stores through a pointer (the status of a
  process, an address), \<open>an_data\<close> the characters it delivers.\<close>

record answer =
  an_ret :: int
  an_val :: int
  an_data :: string

datatype event =
    Connected int string int
  | Sent int string
  | Opened string
  | Wrote int string
  | Ran string
  | Signalled int int
  | Made string

record os =
  os_script :: "answer list"
  os_open :: "int list"
  os_log :: "event list"

definition failing :: answer where
  "failing = \<lparr>an_ret = -1, an_val = 0, an_data = ''''\<rparr>"

definition next_answer :: "os \<Rightarrow> answer \<times> os" where
  "next_answer s = (case os_script s of [] \<Rightarrow> (failing, s) | a # as \<Rightarrow> (a, s\<lparr>os_script := as\<rparr>))"

definition logged :: "event \<Rightarrow> os \<Rightarrow> os" where
  "logged e s = s\<lparr>os_log := os_log s @ [e]\<rparr>"

text \<open>A call of which only the result counts.\<close>

definition call_plain :: "os \<Rightarrow> int \<times> os" where
  "call_plain s = (let (a, s) = next_answer s in (if an_ret a < 0 then -1 else an_ret a, s))"

definition free_fd :: "int list \<Rightarrow> int" where
  "free_fd fds = hd (filter (\<lambda>n. n \<notin> set fds) (map int [0..<Suc (length fds)]))"

definition call_fd :: "os \<Rightarrow> int \<times> os" where
  "call_fd s =
     (let (a, s) = next_answer s; n = free_fd (os_open s)
      in if an_ret a < 0 then (-1, s) else (n, s\<lparr>os_open := n # os_open s\<rparr>))"

definition call_close :: "int \<Rightarrow> os \<Rightarrow> os" where
  "call_close fd s = s\<lparr>os_open := removeAll fd (os_open s)\<rparr>"

text \<open>\<^verbatim>\<open>recv\<close> and \<^verbatim>\<open>read\<close> of at most \<open>n\<close> characters; \<^verbatim>\<open>send\<close> and \<^verbatim>\<open>write\<close>,
  which may take less than they are given.\<close>

definition call_recv :: "nat \<Rightarrow> os \<Rightarrow> int \<times> string \<times> os" where
  "call_recv n s =
     (let (a, s) = next_answer s; d = take n (an_data a)
      in if an_ret a < 0 then (-1, '''', s) else (int (length d), d, s))"

definition call_send :: "int \<Rightarrow> string \<Rightarrow> os \<Rightarrow> int \<times> os" where
  "call_send fd b s =
     (let (a, s) = next_answer s; n = min (an_ret a) (int (length b))
      in if an_ret a < 0 then (-1, s) else (n, logged (Sent fd (take (nat n) b)) s))"

definition call_write :: "int \<Rightarrow> string \<Rightarrow> os \<Rightarrow> int \<times> os" where
  "call_write fd b s =
     (let (a, s) = next_answer s; n = min (an_ret a) (int (length b))
      in if an_ret a < 0 then (-1, s) else (n, logged (Wrote fd (take (nat n) b)) s))"

section \<open>Texts in arrays\<close>

definition nul :: char where
  "nul = CHR 0x00"

definition cstr :: "string \<Rightarrow> string" where
  "cstr s = takeWhile (\<lambda>c. c \<noteq> nul) s"

text \<open>\<^verbatim>\<open>sprintf\<close> to an array of \<open>n\<close> characters, and the text an array holds.\<close>

definition sprintf_to :: "nat \<Rightarrow> string \<Rightarrow> string option" where
  "sprintf_to n t = (if length t < n then Some t else None)"

definition text_in :: "string \<Rightarrow> string option" where
  "text_in buf = (if nul \<in> set buf then Some (cstr buf) else None)"

definition atoi :: "string \<Rightarrow> int" where
  "atoi t = (case scan_d t of Some (v, r) \<Rightarrow> v | None \<Rightarrow> 0)"

definition crlf :: string where
  "crlf = [CHR 0x0D, CHR 0x0A]"

section \<open>Running a command\<close>

text \<open>The loop that polls the child every tenth of a second.\<close>

fun wait_loop :: "nat \<Rightarrow> os \<Rightarrow> int \<times> int \<times> os" where
  "wait_loop n s =
     (if n = 0 then (0, 0, s)
      else (let (a, s) = next_answer s
            in if an_ret a = 0 then wait_loop (n - 1) s else (an_ret a, an_val a, s)))"

declare wait_loop.simps [simp del]

text \<open>\<^verbatim>\<open>system_ex\<close> as the parent runs it: an answer of \<^verbatim>\<open>fork\<close> below 0 is a failure, any
  other one the number of the child.\<close>

definition sigkill :: int where "sigkill = 9"

definition system_ex :: "string option \<Rightarrow> u32 \<Rightarrow> os \<Rightarrow> int \<times> os" where
  "system_ex cmdstring timeout s =
     (let t = timeout * 10; t = (if t = 0 then 0xFFFFFFFF else t) in
      case cmdstring of None \<Rightarrow> (1, s) | Some cmd \<Rightarrow>
      let (r, s) = call_plain s in if r < 0 then (-1, s) else
      let (r, s) = call_plain s in if r < 0 then (-1, s) else
      let (r, s) = call_plain s in if r < 0 then (-1, s) else
      let (pid, s) = call_plain s in if pid < 0 then (-1, s) else
      let (ret, status, s) = wait_loop (unat t) (logged (Ran cmd) s);
          (r, s) = call_plain s in if r < 0 then (-1, s) else
      let (r, s) = call_plain s in if r < 0 then (-1, s) else
      let (r, s) = call_plain s in if r < 0 then (-1, s) else
      if ret < 0 then (-1, s)
      else if ret > 0 then (status, s)
      else (-2, snd (call_plain (logged (Signalled pid sigkill) s))))"

text \<open>\<^verbatim>\<open>get_cmd_results\<close>: the command writes to a temporary file, which is read back. The range
  \<^verbatim>\<open>a-Z\<close> of the \<^verbatim>\<open>sscanf\<close> set runs backwards; the C library takes its three
  characters for themselves then. The result is what is returned and the \<open>len\<close> characters of the
  caller's buffer.\<close>

definition name_chars :: string where
  "name_chars = ''a-Z''"

definition get_cmd_results :: "string option \<Rightarrow> nat \<Rightarrow> os \<Rightarrow> (int \<times> string \<times> os) option" where
  "get_cmd_results cmdstring len s =
     (let buff = replicate len nul in
      case cmdstring of None \<Rightarrow> Some (-1, buff, s) | Some cmd \<Rightarrow>
      if length cmd > 100 + 8 \<or> length cmd + 0 + 5 > 200 then Some (-1, buff, s) else do {
        tmp_buf \<leftarrow> sprintf_to 100 (takeWhile (\<lambda>c. c \<in> set name_chars) cmd);
        tmpl \<leftarrow> sprintf_to 100 (''/tmp/'' @ tmp_buf @ ''-XXXXXX'');
        let (a, s1) = next_answer s;
        let tmpfile = take (length tmpl - 6) tmpl @ take 6 (an_data a);
        if an_ret a < 0 then Some (-1, buff, s1) else do {
          cmd_string \<leftarrow> sprintf_to 200 (cmd @ '' > '' @ tmpfile @ '' 2>&1'');
          let (r, s2) = system_ex (Some cmd_string) 20 s1;
          let (fd, s3) = call_fd s2;
          (nbytes, buff, s4) \<leftarrow>
            (if fd < 0 then Some (-1, buff, s3)
             else (case call_recv (len - 1) s3 of (n, d, s') \<Rightarrow> do {
                     buff \<leftarrow> memcpy_at 0 d buff;
                     Some (n, buff, call_close fd s') }));
          cmd_string \<leftarrow> sprintf_to 200 (''rm -rf /tmp/'' @ tmp_buf @ ''-*'');
          let (r, s5) = system_ex (Some cmd_string) 20 s4;
          Some (nbytes, buff, s5) } })"

section \<open>Directories\<close>

text \<open>A directory that exists stays open: nothing closes the stream of \<^verbatim>\<open>opendir\<close>.\<close>

definition daemon_mk_dir :: "string \<Rightarrow> os \<Rightarrow> int \<times> os" where
  "daemon_mk_dir dir s =
     (let (d, s) = call_fd s in
      if d = -1
      then (let (ret, s) = call_plain s in if ret \<noteq> 0 then (-1, s) else (0, logged (Made dir) s))
      else (2, s))"

function daemon_mk_all_loop :: "string \<Rightarrow> nat \<Rightarrow> os \<Rightarrow> (int \<times> os) option" where
  "daemon_mk_all_loop dir p s =
     (case str_find dir ''/'' p of
        Some q \<Rightarrow>
          if q \<noteq> 0 then
            if q \<ge> 512 then None
            else daemon_mk_all_loop dir (Suc q) (snd (daemon_mk_dir (take q dir) s))
          else daemon_mk_all_loop dir (Suc q) s
      | None \<Rightarrow>
          if p = 0 then Some (-1, s) else Some (0, snd (daemon_mk_dir dir s)))"
  by auto
termination
  by (relation "measure (\<lambda>(dir, p, s). Suc (length dir) - p)") (auto dest!: str_find_bound)

declare daemon_mk_all_loop.simps [simp del]

definition daemon_mk_all_dir :: "string \<Rightarrow> os \<Rightarrow> (int \<times> os) option" where
  "daemon_mk_all_dir dir s = daemon_mk_all_loop dir 0 s"

section \<open>Search in a text\<close>

text \<open>\<^verbatim>\<open>match\<close>: the comparison starts at each of the first \<open>len\<close> positions and reads up to
  \<open>size_dst - 1\<close> characters behind the last of them.\<close>

function match_at :: "string \<Rightarrow> string \<Rightarrow> nat \<Rightarrow> nat \<Rightarrow> bool option" where
  "match_at src dst i j =
     (if j \<ge> length dst then Some True
      else do {
        c \<leftarrow> rd src (i + j);
        if c \<noteq> dst ! j then Some False else match_at src dst i (Suc j) })"
  by auto
termination by (relation "measure (\<lambda>(src, dst, i, j). length dst - j)") auto

declare match_at.simps [simp del]

function match_loop :: "string \<Rightarrow> string \<Rightarrow> nat \<Rightarrow> nat \<Rightarrow> int option" where
  "match_loop src dst len i =
     (if i \<ge> len then Some 0
      else do {
        m \<leftarrow> match_at src dst i 0;
        if m then Some 1 else match_loop src dst len (Suc i) })"
  by auto
termination by (relation "measure (\<lambda>(src, dst, len, i). len - i)") auto

declare match_loop.simps [simp del]

definition match :: "string \<Rightarrow> string \<Rightarrow> nat \<Rightarrow> int option" where
  "match src dst len = (if length dst > len then Some 0 else match_loop src dst len 0)"

end
