(* ===== verification/Ftp.thy ===== *)
theory Ftp
  imports Daemon_Sys
begin

text \<open>
  The FTP client of the update daemon, \<^verbatim>\<open>daemon/ftpclient.cpp\<close>: control and data
  connections, commands and the numbers of their replies, directory listings, transfers. A function takes the
  operating system and gives its C result with the system afterwards; \<open>None\<close> is a
  read of a variable that was never set or an access outside an array. The control connection
  is read by one \<^verbatim>\<open>recv\<close> of at most 512 characters a reply, as the code does.
  What is printed for the user is left out.
\<close>

section \<open>Connections\<close>

definition call_connect :: "int \<Rightarrow> string \<Rightarrow> int \<Rightarrow> os \<Rightarrow> int \<times> os" where
  "call_connect fd host port s =
     (let (r, s) = call_plain s in if r < 0 then (-1, s) else (0, logged (Connected fd host port) s))"

text \<open>The two time limits are set without a look at the results; the answer of
  \<^verbatim>\<open>gethostbyname\<close> is below 0 for a null pointer.\<close>

definition socket_connect :: "string \<Rightarrow> int \<Rightarrow> os \<Rightarrow> int \<times> os" where
  "socket_connect host port s =
     (let (fd, s) = call_fd s in
      if fd < 0 then (-1, s) else
      let (r, s) = call_plain s in
      if r < 0 then (-1, s) else
      let (r, s) = call_plain s; (r, s) = call_plain s;
          (server, s) = call_plain s in
      if server < 0 then (-1, s) else
      let (r, s) = call_connect fd host (port mod 2 ^ 16) s in
      if r = -1 then (-1, s) else (fd, s))"

text \<open>A reply: \<^verbatim>\<open>len = recv(s, buf, 512, 0); buf[len] = 0\<close>.\<close>

definition recv_reply :: "os \<Rightarrow> (string \<times> os) option" where
  "recv_reply s =
     (case call_recv 512 s of (len, d, s) \<Rightarrow> if 0 \<le> len \<and> len < 512 then Some (cstr d, s) else None)"

definition connect_server :: "string \<Rightarrow> int \<Rightarrow> os \<Rightarrow> (int \<times> os) option" where
  "connect_server host port s =
     (let (ctrl_sock, s) = socket_connect host port s in
      if ctrl_sock = -1 then Some (-1, s) else do {
        (buf, s) \<leftarrow> recv_reply s;
        (result, rest) \<leftarrow> scan_d buf;
        Some (if result \<noteq> 220 then (-1, call_close ctrl_sock s) else (ctrl_sock, s)) })"

section \<open>Commands\<close>

definition ftp_sendcmd_re :: "int \<Rightarrow> string \<Rightarrow> os \<Rightarrow> (int \<times> string \<times> os) option" where
  "ftp_sendcmd_re sock cmd s =
     (let (r, s) = call_send sock cmd s in
      if r = -1 then Some (-1, '''', s)
      else (case call_recv 512 s of (r_len, d, s) \<Rightarrow>
              if r_len < 1 then Some (-1, '''', s)
              else if r_len \<ge> 512 then None
              else Some (0, cstr d, s)))"

definition ftp_sendcmd :: "int \<Rightarrow> string \<Rightarrow> os \<Rightarrow> (int \<times> os) option" where
  "ftp_sendcmd sock cmd s = do {
     (result, buf, s) \<leftarrow> ftp_sendcmd_re sock cmd s;
     Some (if result = 0 then (case scan_d buf of Some (v, r) \<Rightarrow> v | None \<Rightarrow> result) else result, s) }"

text \<open>A command with its argument, written to an array of \<open>n\<close> characters, and the reply it gets.\<close>

definition command :: "nat \<Rightarrow> int \<Rightarrow> string \<Rightarrow> string \<Rightarrow> os \<Rightarrow> (int \<times> os) option" where
  "command n sock verb arg s = do { buf \<leftarrow> sprintf_to n (verb @ arg @ crlf); ftp_sendcmd sock buf s }"

definition login_server :: "int \<Rightarrow> string \<Rightarrow> string \<Rightarrow> os \<Rightarrow> (int \<times> os) option" where
  "login_server sock user pwd s = do {
     (result, s) \<leftarrow> command 128 sock ''USER '' user s;
     if result = 230 then Some (0, s)
     else if result = 331 then do {
       (result, s) \<leftarrow> command 128 sock ''PASS '' pwd s;
       Some (if result \<noteq> 230 then -1 else 0, s) }
     else Some (-1, s) }"

text \<open>The port and the address are those of \<^verbatim>\<open>sockaddr_in\<close>, in network order, read as
  little-endian numbers.\<close>

definition create_datasock :: "int \<Rightarrow> os \<Rightarrow> (int \<times> os) option" where
  "create_datasock ctrl_sock s =
     (let (lsn, s) = call_fd s in
      if lsn = -1 then Some (-1, s) else
      let (r, s) = call_plain s in
      if r = -1 then Some (-1, call_close lsn s) else
      let (r, s) = call_plain s in
      if r = -1 then Some (-1, call_close lsn s) else
      let (a, s) = next_answer s in
      if an_ret a < 0 then Some (-1, call_close lsn s) else
      let port = an_val a mod 2 ^ 16; (b, s) = next_answer s in
      if an_ret b < 0 then Some (-1, call_close lsn s) else
      let addr = an_val b mod 2 ^ 32 in do {
        cmd \<leftarrow> sprintf_to 128 (''PORT '' @ to_dec (nat (addr mod 256)) @ '','' @ to_dec (nat (addr div 2 ^ 8 mod 256)) @ '','' @
          to_dec (nat (addr div 2 ^ 16 mod 256)) @ '','' @ to_dec (nat (addr div 2 ^ 24)) @ '','' @
          to_dec (nat (port div 2 ^ 8)) @ '','' @ to_dec (nat (port mod 256)) @ crlf);
        (r, s) \<leftarrow> ftp_sendcmd ctrl_sock cmd s;
        Some (if r \<noteq> 200 then (-1, call_close lsn s) else (lsn, s)) })"

section \<open>The data connection\<close>

text \<open>\<^verbatim>\<open>sscanf(re_buf, "%*[^(](%d,%d,%d,%d,%d,%d)", ...)\<close>: at least one character before the
  bracket, then the numbers; with fewer than six of them the others are never set.\<close>

fun scan_numbers :: "nat \<Rightarrow> string \<Rightarrow> int list" where
  "scan_numbers 0 t = []"
| "scan_numbers (Suc n) t =
     (case scan_d t of
        None \<Rightarrow> []
      | Some (v, r) \<Rightarrow>
          v # (if n = 0 then [] else (case scan_c CHR '','' r of None \<Rightarrow> [] | Some r \<Rightarrow> scan_numbers n r)))"

definition scan_pasv :: "string \<Rightarrow> int list" where
  "scan_pasv t =
     (let lead = takeWhile (\<lambda>c. c \<noteq> CHR ''('') t; r = dropWhile (\<lambda>c. c \<noteq> CHR ''('') t
      in if lead = [] \<or> r = [] then [] else scan_numbers 6 (tl r))"

definition show_num :: "int \<Rightarrow> string" where
  "show_num i = (if i < 0 then ''-'' @ to_dec (nat (- i)) else to_dec (nat i))"

definition in_int :: "int \<Rightarrow> bool" where
  "in_int i \<longleftrightarrow> - (2 ^ 31) \<le> i \<and> i < 2 ^ 31"

definition ftp_pasv_connect :: "int \<Rightarrow> os \<Rightarrow> (int \<times> os) option" where
  "ftp_pasv_connect c_sock s = do {
     (send_re, re_buf, s) \<leftarrow> ftp_sendcmd_re c_sock (''PASV'' @ crlf) s;
     let addr = (if send_re = 0 then scan_pasv re_buf else []);
     if length addr < 6 then None
     else do {
       buf \<leftarrow> sprintf_to 512 (show_num (addr ! 0) @ ''.'' @ show_num (addr ! 1) @ ''.'' @ show_num (addr ! 2) @ ''.'' @
         show_num (addr ! 3));
       if in_int (addr ! 4 * 256) \<and> in_int (addr ! 4 * 256 + addr ! 5)
       then Some (socket_connect buf (addr ! 4 * 256 + addr ! 5) s) else None } }"

section \<open>Directories and files on the server\<close>

definition ftp_type :: "int \<Rightarrow> char \<Rightarrow> os \<Rightarrow> (int \<times> os) option" where
  "ftp_type c_sock mode s = do {
     (re, s) \<leftarrow> command 128 c_sock ''TYPE '' [mode] s;
     Some (if re \<noteq> 200 then -1 else 0, s) }"

definition ftp_cwd :: "int \<Rightarrow> string \<Rightarrow> os \<Rightarrow> (int \<times> os) option" where
  "ftp_cwd c_sock path s = do {
     (re, s) \<leftarrow> command 128 c_sock ''CWD '' path s;
     Some (if re \<noteq> 250 then -1 else 0, s) }"

definition ftp_cdup :: "int \<Rightarrow> os \<Rightarrow> (int \<times> os) option" where
  "ftp_cdup c_sock s = do {
     (re, s) \<leftarrow> ftp_sendcmd c_sock (''CDUP'' @ crlf) s;
     Some (if re \<noteq> 250 then re else 0, s) }"

definition ftp_mkd :: "int \<Rightarrow> string \<Rightarrow> os \<Rightarrow> (int \<times> os) option" where
  "ftp_mkd c_sock path s = do {
     (re, s) \<leftarrow> command 512 c_sock ''MKD '' path s;
     Some (if re \<noteq> 257 then re else 0, s) }"

definition ftp_renamefile :: "int \<Rightarrow> string \<Rightarrow> string \<Rightarrow> os \<Rightarrow> (int \<times> os) option" where
  "ftp_renamefile c_sock src dst s = do {
     (re, s) \<leftarrow> command 512 c_sock ''RNFR '' src s;
     if re \<noteq> 350 then Some (re, s)
     else do {
       (re, s) \<leftarrow> command 512 c_sock ''RNTO '' dst s;
       Some (if re \<noteq> 250 then re else 0, s) } }"

definition ftp_deletefile :: "int \<Rightarrow> string \<Rightarrow> os \<Rightarrow> (int \<times> os) option" where
  "ftp_deletefile c_sock file s = do {
     (re, s) \<leftarrow> command 512 c_sock ''DELE '' file s;
     Some (if re \<noteq> 250 then re else 0, s) }"

definition ftp_deletefolder :: "int \<Rightarrow> string \<Rightarrow> os \<Rightarrow> (int \<times> os) option" where
  "ftp_deletefolder c_sock dir s = do {
     (re, s) \<leftarrow> command 512 c_sock ''RMD '' dir s;
     Some (if re \<noteq> 250 then re else 0, s) }"

section \<open>Listings\<close>

lemma next_answer_script:
  "next_answer s = (a, s') \<Longrightarrow> 0 \<le> an_ret a \<Longrightarrow> length (os_script s') < length (os_script s)"
  by (auto simp: next_answer_def failing_def split: list.splits)

lemma recv_script:
  "call_recv n s = (len, d, s') \<Longrightarrow> 0 < len \<Longrightarrow> length (os_script s') < length (os_script s)"
  by (cases "next_answer s") (auto simp: call_recv_def Let_def dest: next_answer_script split: if_splits)

text \<open>The listing grows in a block of the heap: \<open>mem n\<close> is the content of a fresh block of
  \<open>n\<close> characters. The block is doubled once when a piece does not fit, then the piece is copied
  behind the \<open>filled\<close> characters it holds.\<close>

function list_loop :: "(nat \<Rightarrow> string) \<Rightarrow> string \<Rightarrow> nat \<Rightarrow> os \<Rightarrow> (string \<times> nat \<times> os) option" where
  "list_loop mem blk filled s =
     (case call_recv 1024 s of (len, d, s') \<Rightarrow>
        if 0 < len then
          (case (if filled + length d > length blk
                 then memcpy_at 0 (take filled blk) (mem (2 * length blk)) else Some blk) of
             None \<Rightarrow> None
           | Some blk \<Rightarrow>
               (case memcpy_at filled d blk of
                  None \<Rightarrow> None
                | Some blk \<Rightarrow> list_loop mem blk (filled + length d) s'))
        else Some (blk, filled, s'))"
  by auto
termination
  by (relation "measure (\<lambda>(mem, blk, filled, s). length (os_script s))") (auto dest: recv_script [OF sym])

declare list_loop.simps [simp del]

text \<open>The result, the block with the number of its characters when it is handed out, and the system.\<close>

definition ftp_list ::
    "(nat \<Rightarrow> string) \<Rightarrow> int \<Rightarrow> string \<Rightarrow> os \<Rightarrow> (int \<times> (string \<times> nat) option \<times> os) option" where
  "ftp_list mem c_sock path s = do {
     (d_sock, s) \<leftarrow> ftp_pasv_connect c_sock s;
     if d_sock = -1 then Some (-1, None, s)
     else do {
       (send_re, s) \<leftarrow> command 1024 c_sock ''LIST '' path s;
       if send_re \<ge> 300 \<or> send_re = 0 then Some (send_re, None, s)
       else do {
         (re_buf, total_len, s) \<leftarrow> list_loop mem (mem 1024) 0 s;
         Some (0, Some (re_buf, total_len), call_close d_sock s) } } }"

section \<open>Transfers\<close>

text \<open>\<open>stor\<close> is the counter \<^verbatim>\<open>stor_size\<close> points to, \<open>None\<close> for a null pointer; \<open>stop\<close> tells whether
  \<^verbatim>\<open>stop\<close> points to a number other than 0. The first result tells whether the transfer ran to its
  end.\<close>

function retr_loop :: "int \<Rightarrow> bool \<Rightarrow> ul64 option \<Rightarrow> os \<Rightarrow> bool \<times> ul64 option \<times> os" where
  "retr_loop handle stop stor s =
     (case call_recv 512 s of (len, d, s1) \<Rightarrow>
        if 0 < len then
          (case call_write handle d s1 of (write_len, s2) \<Rightarrow>
             if write_len \<noteq> len \<or> stop then (False, stor, s2)
             else retr_loop handle stop (map_option (\<lambda>n. n + word_of_int write_len) stor) s2)
        else (True, stor, s1))"
  by auto

lemma next_answer_le: "next_answer s = (a, s') \<Longrightarrow> length (os_script s') \<le> length (os_script s)"
  by (auto simp: next_answer_def split: list.splits)

lemma write_le: "call_write fd b s = (n, s') \<Longrightarrow> length (os_script s') \<le> length (os_script s)"
  by (cases "next_answer s")
    (auto simp: call_write_def logged_def Let_def dest: next_answer_le split: if_splits)

lemma send_le: "call_send fd b s = (n, s') \<Longrightarrow> length (os_script s') \<le> length (os_script s)"
  by (cases "next_answer s")
    (auto simp: call_send_def logged_def Let_def dest: next_answer_le split: if_splits)

termination retr_loop
  by (relation "measure (\<lambda>(handle, stop, stor, s). length (os_script s))")
    (auto dest!: recv_script [OF sym] write_le [OF sym])

declare retr_loop.simps [simp del]

text \<open>The last reply of a transfer: a reply without a number leaves the earlier value of
  \<^verbatim>\<open>result\<close>, \<open>None\<close> where it has none yet.\<close>

definition transfer_end :: "int option \<Rightarrow> os \<Rightarrow> (int \<times> os) option" where
  "transfer_end prior s = do {
     (buf, s) \<leftarrow> recv_reply s;
     result \<leftarrow> (case scan_d buf of Some (v, r) \<Rightarrow> Some v | None \<Rightarrow> prior);
     Some (if result \<ge> 300 then result else 0, s) }"

definition ftp_retrfile ::
    "int \<Rightarrow> string \<Rightarrow> string \<Rightarrow> ul64 option \<Rightarrow> bool \<Rightarrow> os \<Rightarrow> (int \<times> ul64 option \<times> os) option" where
  "ftp_retrfile c_sock src dst stor stop s =
     (let (handle, s) = call_fd s in
      if handle = -1 then Some (-1, stor, s) else do {
        let s = logged (Opened dst) s;
        (r, s) \<leftarrow> ftp_type c_sock CHR ''I'' s;
        (d_sock, s) \<leftarrow> ftp_pasv_connect c_sock s;
        if d_sock = -1 then Some (-1, stor, call_close handle s)
        else do {
          (result, s) \<leftarrow> command 512 c_sock ''RETR '' src s;
          if result \<ge> 300 \<or> result = 0 then Some (result, stor, call_close handle s)
          else (case retr_loop handle stop stor s of (done, stor, s) \<Rightarrow>
            if \<not> done then Some (-1, stor, call_close handle (call_close d_sock s))
            else do {
              (result, s) \<leftarrow> transfer_end (Some result) (call_close handle (call_close d_sock s));
              Some (result, stor, s) }) } })"

function stor_loop :: "int \<Rightarrow> bool \<Rightarrow> ul64 option \<Rightarrow> os \<Rightarrow> bool \<times> ul64 option \<times> os" where
  "stor_loop d_sock stop stor s =
     (case call_recv 512 s of (len, d, s1) \<Rightarrow>
        if 0 < len then
          (case call_send d_sock d s1 of (send_len, s2) \<Rightarrow>
             if send_len \<noteq> len \<or> stop then (False, stor, s2)
             else stor_loop d_sock stop (map_option (\<lambda>n. n + word_of_int send_len) stor) s2)
        else (True, stor, s1))"
  by auto
termination
  by (relation "measure (\<lambda>(d_sock, stop, stor, s). length (os_script s))")
    (auto dest!: recv_script [OF sym] send_le [OF sym])

declare stor_loop.simps [simp del]

definition ftp_storfile ::
    "int \<Rightarrow> string \<Rightarrow> string \<Rightarrow> ul64 option \<Rightarrow> bool \<Rightarrow> os \<Rightarrow> (int \<times> ul64 option \<times> os) option" where
  "ftp_storfile c_sock src dst stor stop s =
     (let (handle, s) = call_fd s in
      if handle = -1 then Some (-1, stor, s) else do {
        let s = logged (Opened src) s;
        (r, s) \<leftarrow> ftp_type c_sock CHR ''I'' s;
        (d_sock, s) \<leftarrow> ftp_pasv_connect c_sock s;
        if d_sock = -1 then Some (-1, stor, call_close handle s)
        else do {
          (send_re, s) \<leftarrow> command 512 c_sock ''STOR '' dst s;
          if send_re \<ge> 300 \<or> send_re = 0 then Some (send_re, stor, call_close handle s)
          else (case stor_loop d_sock stop stor s of (done, stor, s) \<Rightarrow>
            if \<not> done then Some (-1, stor, call_close handle (call_close d_sock s))
            else do {
              (result, s) \<leftarrow> transfer_end None (call_close handle (call_close d_sock s));
              Some (result, stor, s) }) } })"

section \<open>Sessions\<close>

definition ftp_connect :: "string \<Rightarrow> int \<Rightarrow> string \<Rightarrow> string \<Rightarrow> os \<Rightarrow> (int \<times> os) option" where
  "ftp_connect host port user pwd s = do {
     (c_sock, s) \<leftarrow> connect_server host port s;
     if c_sock = -1 then Some (-1, s)
     else do {
       (r, s) \<leftarrow> login_server c_sock user pwd s;
       Some (if r = -1 then (-1, call_close c_sock s) else (c_sock, s)) } }"

definition ftp_quit :: "int \<Rightarrow> os \<Rightarrow> (int \<times> os) option" where
  "ftp_quit c_sock s = do {
     (re, s) \<leftarrow> ftp_sendcmd c_sock (''QUIT'' @ crlf) s;
     Some (re, call_close c_sock s) }"

end
