(* ===== verification/Updata.thy ===== *)
theory Updata
  imports Ftp Settings
begin

text \<open>
  The updater of the daemon, \<^verbatim>\<open>daemon/updata.cpp\<close>: the listing of the packages on the FTP
  server, the comparison of versions, the download, the stop of the running program, the installation, and
  \<^verbatim>\<open>updata_poll\<close>, which the daemon calls every five seconds. The settings are those that
  \<^verbatim>\<open>load_rtu_setting\<close> reads on every poll, a parameter here. The
  program is built without \<^verbatim>\<open>__MD5_TAR_SUPPORT__\<close>. Arrays of the stack that are not
  initialised are parameters: \<open>junk\<close> is what the array \<^verbatim>\<open>debversion\<close> holds at the start.
\<close>

definition app :: string where
  "app = ''app-cjq''"

definition sig_updata :: int where
  "sig_updata = 10"

section \<open>Settings\<close>

definition ftp_get_setting :: "rtu_ftp \<Rightarrow> int" where
  "ftp_get_setting ftp =
     (if ftp_enable ftp = 1
      then if length (cstr (ftp_ip ftp)) > 0 \<and> length (cstr (ftp_downdir ftp)) > 0 \<and>
              length (cstr (ftp_user ftp)) > 0 \<and> length (cstr (ftp_password ftp)) > 0
           then 0 else -1
      else 0)"

definition ftp_connect_server :: "string \<Rightarrow> string \<Rightarrow> string \<Rightarrow> os \<Rightarrow> (int \<times> os) option" where
  "ftp_connect_server ip user password s = ftp_connect ip 21 user password s"

section \<open>The listing\<close>

text \<open>The expression \<^verbatim>\<open>app-cjq_V[0-9._]*deb\<close> as POSIX searches it, the leftmost place first; at a place
  there is one way to match, for no character of the set begins the tail.\<close>

definition deb_head :: string where
  "deb_head = ''app-cjq_V''"

definition deb_tail :: string where
  "deb_tail = ''deb''"

definition is_deb_char :: "char \<Rightarrow> bool" where
  "is_deb_char c = (c \<in> set ''0123456789._'')"

definition deb_at :: "string \<Rightarrow> nat option" where
  "deb_at t =
     (let r = drop (length deb_head) t; v = takeWhile is_deb_char r
      in if take (length deb_head) t = deb_head \<and> take (length deb_tail) (drop (length v) r) = deb_tail
         then Some (length deb_head + length v + length deb_tail) else None)"

fun deb_exec :: "nat \<Rightarrow> string \<Rightarrow> (nat \<times> nat) option" where
  "deb_exec so [] = None"
| "deb_exec so (c # t) =
     (case deb_at (c # t) of Some n \<Rightarrow> Some (so, so + n) | None \<Rightarrow> deb_exec (Suc so) t)"

text \<open>\<^verbatim>\<open>ftp_list_deb_version\<close>: the text of the block ends at its first zero character, wherever
  that is; the version is copied without an end, and the end is written where the match ends, twelve
  characters further on. The result is the length of the text the buffer holds then.\<close>

definition ftp_list_deb_version ::
    "(nat \<Rightarrow> string) \<Rightarrow> int \<Rightarrow> string \<Rightarrow> string \<Rightarrow> os \<Rightarrow> (int \<times> string \<times> os) option" where
  "ftp_list_deb_version mem fd sdir bufferout s = do {
     (result, data, s) \<leftarrow> ftp_list mem fd sdir s;
     if result \<noteq> 0 then Some (-1, bufferout, s)
     else do {
       (blk, datalen) \<leftarrow> data;
       text \<leftarrow> text_in blk;
       if datalen > 1
       then (case deb_exec 0 text of
          None \<Rightarrow> Some (-1, bufferout, s)
        | Some (so, eo) \<Rightarrow> do {
            aa \<leftarrow> memcpy_at 0 (take (eo - so - length app - 1 - 4) (drop (so + 1 + length app) text)) bufferout;
            aa \<leftarrow> wr aa (eo - so) nul;
            v \<leftarrow> text_in aa;
            Some (int (length v), aa, s) })
       else Some (-1, bufferout, s) } }"

definition get_current_app_version :: "string \<Rightarrow> nat \<Rightarrow> os \<Rightarrow> (int \<times> string \<times> os) option" where
  "get_current_app_version appname outsize s = do {
     buffer \<leftarrow> sprintf_to 100 (appname @ '' --version'');
     get_cmd_results (Some buffer) outsize s }"

section \<open>Versions\<close>

text \<open>\<^verbatim>\<open>sscanf(v, "V%d.%d.%d_%d_%d.%d.%d", ...)\<close>: the conversions until the first that fails; the
  variables behind it keep their zeros.\<close>

fun scan_fields :: "string \<Rightarrow> string \<Rightarrow> int list" where
  "scan_fields [] t = []"
| "scan_fields (c # cs) t =
     (case (case scan_c c t of None \<Rightarrow> None | Some r \<Rightarrow> scan_d r) of
        None \<Rightarrow> replicate (Suc (length cs)) 0
      | Some (v, r) \<Rightarrow> v # scan_fields cs r)"

definition version_fields :: "string \<Rightarrow> int list" where
  "version_fields t = scan_fields ''V..__..'' t"

definition version_h :: "int list \<Rightarrow> ul64" where
  "version_h f =
     push_bit 3 (push_bit 3 (0 OR word_of_int (f ! 0)) OR word_of_int (f ! 1)) OR word_of_int (f ! 2)"

definition version_l :: "int list \<Rightarrow> ul64" where
  "version_l f =
     ((word_of_int (f ! 3) * 1000000 + word_of_int (f ! 4)) * 100 + word_of_int (f ! 5)) * 100 + word_of_int (f ! 6)"

definition is_version_bigger :: "string \<Rightarrow> string \<Rightarrow> int" where
  "is_version_bigger current ftp =
     (let c = version_fields current; f = version_fields ftp;
          h = version_h c; fh = version_h f; l = version_l c; fl = version_l f
      in if h > fh then -1
         else if h = fh then (if l > fl then -1 else if l = fl then 0 else 1)
         else 1)"

section \<open>Download and installation\<close>

definition download_deb :: "int \<Rightarrow> string \<Rightarrow> string \<Rightarrow> string \<Rightarrow> os \<Rightarrow> (int \<times> os) option" where
  "download_deb fd ddir sdir file s = do {
     sfile \<leftarrow> sprintf_to 200 (sdir @ ''/'' @ file);
     dfile \<leftarrow> sprintf_to 200 (ddir @ ''/'' @ file);
     (ret, stor_len, s) \<leftarrow> ftp_retrfile fd sfile dfile (Some 0) False s;
     Some (if ret \<noteq> 0 then -1 else 0, s) }"

definition find_cmd :: "string \<Rightarrow> string" where
  "find_cmd appname =
     ''ps -ef | grep '' @ appname @ '' | grep -v '' @ [CHR 0x22] @ ''grep'' @ [CHR 0x22] @ '' | awk '' @ [CHR 0x27] @
     ''{print $2}'' @ [CHR 0x27]"

definition shutdown_app :: "string \<Rightarrow> os \<Rightarrow> (int \<times> os) option" where
  "shutdown_app appname s = do {
     cmdstring \<leftarrow> sprintf_to 200 (find_cmd appname);
     (n, pid, s) \<leftarrow> get_cmd_results (Some cmdstring) 100 s;
     let p = atoi (cstr pid);
     if n \<ge> 0 \<and> length (cstr pid) > 0 \<and> p > 0
     then do {
       let s = logged (Signalled p sig_updata) s;
       (n, pid, s) \<leftarrow> get_cmd_results (Some cmdstring) 100 s;
       let pp = atoi (cstr pid);
       if n > 0 \<and> pp > 0
       then do {
         cmdstring \<leftarrow> sprintf_to 200 (''kill '' @ show_num pp);
         (n, pid, s) \<leftarrow> get_cmd_results (Some cmdstring) 100 s;
         Some (1, s) }
       else Some (0, s) }
     else Some (0, s) }"

definition install_app :: "string \<Rightarrow> string \<Rightarrow> string \<Rightarrow> os \<Rightarrow> (int \<times> os) option" where
  "install_app dir deb debversion s = do {
     buffer \<leftarrow> sprintf_to 500 (''dpkg -i '' @ dir @ ''/'' @ deb);
     (ret, res, s) \<leftarrow> get_cmd_results (Some buffer) 1024 s;
     buffer \<leftarrow> sprintf_to 500 (app @ '' --version'');
     (ret, res, s) \<leftarrow> get_cmd_results (Some buffer) 1024 s;
     Some (if is_version_bigger debversion (cstr res) = 0 then 0 else -1, s) }"

section \<open>The poll\<close>

text \<open>The part of \<^verbatim>\<open>updata_poll\<close> that runs when the server has a newer version. The first
  result tells whether the function returns there.\<close>

definition updata_install :: "rtu_ftp \<Rightarrow> int \<Rightarrow> string \<Rightarrow> os \<Rightarrow> (int option \<times> os) option" where
  "updata_install ftp fd debversion s = do {
     filename \<leftarrow> sprintf_to 100 (app @ ''_'' @ debversion @ ''.tar'');
     (r, s) \<leftarrow> daemon_mk_all_dir (ftp_downdir ftp) s;
     (r, s) \<leftarrow> download_deb fd (ftp_downdir ftp) (ftp_serverdir ftp) filename s;
     if r \<noteq> 0 then Some (None, s)
     else do {
       (r, s) \<leftarrow> shutdown_app app s;
       (r, s) \<leftarrow> (if r \<noteq> 0 then shutdown_app app s else Some (r, s));
       (r, s) \<leftarrow> install_app (ftp_downdir ftp) filename debversion s;
       (r, s) \<leftarrow> (if r \<noteq> 0 then install_app (ftp_downdir ftp) filename debversion s else Some (r, s));
       Some (Some (if r \<noteq> 0 then 1 else 0), s) } }"

text \<open>\<open>t\<close> is the static counter of the seconds since the last look at the server.\<close>

definition updata_poll ::
    "(nat \<Rightarrow> string) \<Rightarrow> string \<Rightarrow> rtu_ftp \<Rightarrow> int \<Rightarrow> int \<Rightarrow> os \<Rightarrow> (int \<times> int \<times> os) option" where
  "updata_poll mem junk ftp interval t s =
     (if ftp_get_setting ftp \<noteq> 0 then Some (0, t, s)
      else if ftp_enable ftp = 0 then Some (0, t + interval, s)
      else if t + interval < ftp_interval ftp then Some (0, t + interval, s)
      else do {
        (fd, s) \<leftarrow> ftp_connect_server (ftp_ip ftp) (ftp_user ftp) (ftp_password ftp) s;
        if fd < 0 then Some (-1, 0, s)
        else do {
          (ret, debbuf, s) \<leftarrow> ftp_list_deb_version mem fd (ftp_serverdir ftp) junk s;
          if ret < 0 then Some (-1, 0, s)
          else do {
            debversion \<leftarrow> text_in debbuf;
            (ret, version, s) \<leftarrow> get_current_app_version app 100 s;
            if ret < 0 then Some (-1, 0, s)
            else do {
              (r, s) \<leftarrow> (if is_version_bigger (cstr version) debversion = 1
                then updata_install ftp fd debversion s else Some (None, s));
              (case r of
                 Some ret \<Rightarrow> Some (ret, 0, s)
               | None \<Rightarrow> do { (q, s) \<leftarrow> ftp_quit fd s; Some (0, 0, s) }) } } } })"

end
