(* ===== verification/Updata_Laws.thy ===== *)
theory Updata_Laws
  imports Updata
begin

text \<open>
  What the update daemon promises: a listing and a downloaded file are exactly what arrived, whatever
  their length; the order of versions; a package is installed only after a
  newer version was offered and its file has arrived; and which connections a poll leaves open.
\<close>

section \<open>What a call leaves in the log\<close>

definition grows :: "(event \<Rightarrow> bool) \<Rightarrow> os \<Rightarrow> os \<Rightarrow> bool" where
  "grows P s s' \<longleftrightarrow> (\<exists>E. os_log s' = os_log s @ E \<and> (\<forall>e\<in>set E. P e))"

definition calm :: "event \<Rightarrow> bool" where
  "calm e = (case e of Ran c \<Rightarrow> take 4 c \<noteq> ''dpkg'' | _ \<Rightarrow> True)"

lemma grows_refl: "grows P s s"
  by (simp add: grows_def)

lemma grows_trans: "grows P s s1 \<Longrightarrow> grows P s1 s2 \<Longrightarrow> grows P s s2"
  by (auto simp: grows_def)

lemma grows_logged: "P e \<Longrightarrow> grows P s (logged e s)"
  by (simp add: grows_def logged_def)

lemma grows_close: "grows P s (call_close fd s)"
  by (simp add: grows_def call_close_def)

lemma grows_next: "next_answer s = (a, s') \<Longrightarrow> grows P s s'"
  by (auto simp: next_answer_def grows_def split: list.splits)

lemma grows_plain: "call_plain s = (r, s') \<Longrightarrow> grows P s s'"
  by (auto simp: call_plain_def Let_def split: prod.splits dest: grows_next)

lemma grows_fd: "call_fd s = (r, s') \<Longrightarrow> grows P s s'"
  by (auto simp: call_fd_def Let_def split: prod.splits if_splits dest!: grows_next [where P = P] simp: grows_def)

lemma grows_recv: "call_recv n s = (r, d, s') \<Longrightarrow> grows P s s'"
  by (auto simp: call_recv_def Let_def split: prod.splits if_splits dest!: grows_next [where P = P])

lemma calm_simps [simp]:
  "calm (Sent a b)" "calm (Connected a h n)" "calm (Opened b)" "calm (Wrote a b)" "calm (Signalled p q)"
  "calm (Made b)" "calm (Ran c) = (take 4 c \<noteq> ''dpkg'')"
  by (simp_all add: calm_def)

lemma calm_send: "call_send fd b s = (r, s') \<Longrightarrow> grows calm s s'"
  by (auto simp: call_send_def Let_def split: prod.splits if_splits dest!: grows_next [where P = calm])
    (auto simp: grows_def logged_def)

lemma calm_write: "call_write fd b s = (r, s') \<Longrightarrow> grows calm s s'"
  by (auto simp: call_write_def Let_def split: prod.splits if_splits dest!: grows_next [where P = calm])
    (auto simp: grows_def logged_def)

lemmas calm_sys = grows_next [where P = calm] grows_plain [where P = calm] grows_fd [where P = calm]
  grows_recv [where P = calm] calm_send calm_write

lemma calm_socket_connect: "socket_connect host port s = (r, s') \<Longrightarrow> grows calm s s'"
  unfolding socket_connect_def call_connect_def Let_def
  by (auto split: prod.splits if_splits dest!: calm_sys) (auto simp: grows_def logged_def)

lemma calm_reply: "recv_reply s = Some (t, s') \<Longrightarrow> grows calm s s'"
  by (auto simp: recv_reply_def split: prod.splits if_splits dest!: calm_sys)

lemma calm_connect_server: "connect_server host port s = Some (r, s') \<Longrightarrow> grows calm s s'"
  unfolding connect_server_def Let_def
  by (auto split: prod.splits if_splits Option.bind_splits dest!: calm_socket_connect calm_reply)
    (auto simp: grows_def call_close_def)

lemma calm_sendcmd_re: "ftp_sendcmd_re sock cmd s = Some (r, t, s') \<Longrightarrow> grows calm s s'"
  unfolding ftp_sendcmd_re_def Let_def
  by (auto split: prod.splits if_splits dest!: calm_sys) (auto simp: grows_def)

lemma calm_sendcmd: "ftp_sendcmd sock cmd s = Some (r, s') \<Longrightarrow> grows calm s s'"
  unfolding ftp_sendcmd_def by (auto split: prod.splits Option.bind_splits dest!: calm_sendcmd_re)

lemma calm_command: "command n sock verb arg s = Some (r, s') \<Longrightarrow> grows calm s s'"
  unfolding command_def by (auto split: Option.bind_splits dest!: calm_sendcmd)

lemma calm_pasv: "ftp_pasv_connect c_sock s = Some (r, s') \<Longrightarrow> grows calm s s'"
  unfolding ftp_pasv_connect_def Let_def
  by (auto split: prod.splits if_splits Option.bind_splits dest!: calm_sendcmd_re calm_socket_connect)
    (auto simp: grows_def)

lemma calm_type: "ftp_type c_sock m s = Some (r, s') \<Longrightarrow> grows calm s s'"
  unfolding ftp_type_def by (auto split: prod.splits Option.bind_splits dest!: calm_command)

lemma calm_login: "login_server sock user pwd s = Some (r, s') \<Longrightarrow> grows calm s s'"
  unfolding login_server_def
  by (auto split: prod.splits if_splits Option.bind_splits dest!: calm_command) (auto simp: grows_def)

lemma calm_connect: "ftp_connect host port user pwd s = Some (r, s') \<Longrightarrow> grows calm s s'"
  unfolding ftp_connect_def
  by (auto split: prod.splits if_splits Option.bind_splits dest!: calm_connect_server calm_login)
    (auto simp: grows_def call_close_def)

lemma calm_quit: "ftp_quit c_sock s = Some (r, s') \<Longrightarrow> grows calm s s'"
  unfolding ftp_quit_def
  by (auto split: prod.splits Option.bind_splits dest!: calm_sendcmd) (auto simp: grows_def call_close_def)


lemma calm_list_loop: "list_loop mem blk n s = Some (b, k, s') \<Longrightarrow> grows calm s s'"
proof (induction mem blk n s rule: list_loop.induct)
  case (1 mem blk n s)
  obtain len d s1 where r: "call_recv 1024 s = (len, d, s1)" by (cases "call_recv 1024 s")
  show ?case
    using "1.prems" "1.IH" [OF r [symmetric] refl] calm_sys(4) [OF r]
    by (subst (asm) list_loop.simps) (auto simp: r split: if_splits option.splits intro: grows_trans)
qed

lemma calm_list: "ftp_list mem c_sock path s = Some (r, d, s') \<Longrightarrow> grows calm s s'"
  unfolding ftp_list_def
  by (auto split: prod.splits if_splits Option.bind_splits dest!: calm_pasv calm_command calm_list_loop)
    (auto simp: grows_def call_close_def)

lemma calm_list_deb: "ftp_list_deb_version mem fd dir buf s = Some (r, t, s') \<Longrightarrow> grows calm s s'"
  unfolding ftp_list_deb_version_def
  by (auto split: prod.splits if_splits Option.bind_splits option.splits dest!: calm_list)

lemma calm_retr_loop: "retr_loop handle stop stor s = (done, n, s') \<Longrightarrow> grows calm s s'"
proof (induction handle stop stor s rule: retr_loop.induct)
  case (1 handle stop stor s)
  obtain len d s1 where r: "call_recv 512 s = (len, d, s1)" by (cases "call_recv 512 s")
  obtain w s2 where w: "call_write handle d s1 = (w, s2)" by (cases "call_write handle d s1")
  show ?case
    using "1.prems" "1.IH" [OF r [symmetric] refl _ w [symmetric]] calm_sys(4) [OF r] calm_sys(6) [OF w]
    by (subst (asm) retr_loop.simps) (auto simp: r w split: if_splits intro: grows_trans)
qed

lemma calm_retrfile: "ftp_retrfile c_sock src dst stor stop s = Some (r, n, s') \<Longrightarrow> grows calm s s'"
  unfolding ftp_retrfile_def transfer_end_def Let_def
  by (auto split: prod.splits if_splits Option.bind_splits option.splits
      dest!: calm_sys calm_type calm_pasv calm_command calm_retr_loop calm_reply)
    (auto simp: grows_def call_close_def logged_def)

lemma calm_download: "download_deb fd dd sd f s = Some (r, s') \<Longrightarrow> grows calm s s'"
  unfolding download_deb_def by (auto split: prod.splits if_splits Option.bind_splits dest!: calm_retrfile)

section \<open>Commands that are run\<close>

lemma wait_loop_grows: "wait_loop n s = (r, v, s') \<Longrightarrow> grows P s s'"
proof (induction n s rule: wait_loop.induct)
  case (1 n s)
  obtain a s1 where a: "next_answer s = (a, s1)" by (cases "next_answer s")
  show ?case
    using "1.prems" "1.IH" [OF _ a [symmetric] refl] grows_next [OF a, of P] grows_refl [of P s]
    by (subst (asm) wait_loop.simps) (auto simp: a split: if_splits intro: grows_trans)
qed

text \<open>The command itself is the only one that is run.\<close>

definition runs :: "string \<Rightarrow> event \<Rightarrow> bool" where
  "runs cmd e = (case e of Ran c \<Rightarrow> c = cmd | Signalled p n \<Rightarrow> n = sigkill | _ \<Rightarrow> False)"

lemma runs_simps [simp]: "runs cmd (Ran c) = (c = cmd)" "runs cmd (Signalled p n) = (n = sigkill)"
  by (simp_all add: runs_def)

lemma system_ex_runs: "system_ex (Some cmd) t s = (r, s') \<Longrightarrow> grows (runs cmd) s s'"
  unfolding system_ex_def Let_def
  by (auto split: prod.splits if_splits dest!: grows_plain [where P = "runs cmd"] wait_loop_grows [where P = "runs cmd"])
    (auto simp: grows_def logged_def call_plain_def next_answer_def split: list.splits)

definition cmd_event :: "string \<Rightarrow> event \<Rightarrow> bool" where
  "cmd_event cmd e \<longleftrightarrow>
     (\<exists>f. e = Ran (cmd @ '' > '' @ f)) \<or> (\<exists>f. e = Ran (''rm -rf '' @ f)) \<or> (\<exists>p. e = Signalled p sigkill)"

lemma grows_mono: "grows P s s' \<Longrightarrow> (\<And>e. P e \<Longrightarrow> Q e) \<Longrightarrow> grows Q s s'"
  by (auto simp: grows_def)

lemma runs_cmd: "runs (cmd @ '' > '' @ f) e \<Longrightarrow> cmd_event cmd e" "runs (''rm -rf '' @ f) e \<Longrightarrow> cmd_event cmd e"
  by (auto simp: runs_def cmd_event_def split: event.splits)

lemma system_ex_cmd:
  "system_ex (Some (cmd @ '' > '' @ f)) t s = (r, s') \<Longrightarrow> grows (cmd_event cmd) s s'"
  by (rule grows_mono [OF system_ex_runs]) (auto intro: runs_cmd(1) [where f = f])

lemma system_ex_rm:
  "system_ex (Some (''rm -rf '' @ f)) t s = (r, s') \<Longrightarrow> grows (cmd_event cmd) s s'"
  by (rule grows_mono [OF system_ex_runs]) (auto intro: runs_cmd(2) [where f = f])

lemma get_cmd_event:
  assumes "get_cmd_results (Some cmd) n s = Some (r, b, s')"
  shows "grows (cmd_event cmd) s s'"
proof -
  note g = grows_next [where P = "cmd_event cmd"] grows_fd [where P = "cmd_event cmd"]
    grows_recv [where P = "cmd_event cmd"] system_ex_cmd [of cmd, simplified] system_ex_rm [where cmd = cmd, simplified]
  show ?thesis
    using assms unfolding get_cmd_results_def Let_def sprintf_to_def
    by (auto split: prod.splits if_splits Option.bind_splits simp: grows_refl dest!: g)
      (auto simp: grows_def call_close_def)
qed

lemma get_cmd_calm:
  "get_cmd_results (Some cmd) n s = Some (r, b, s') \<Longrightarrow> 4 \<le> length cmd \<Longrightarrow> take 4 cmd \<noteq> ''dpkg'' \<Longrightarrow>
    grows calm s s'"
  by (rule grows_mono [OF get_cmd_event]) (auto simp: cmd_event_def)

lemma calm_version: "get_current_app_version app n s = Some (r, b, s') \<Longrightarrow> grows calm s s'"
  unfolding get_current_app_version_def sprintf_to_def
  by (auto split: Option.bind_splits if_splits dest!: get_cmd_calm simp: app_def)

lemma calm_mk_dir: "grows calm s (snd (daemon_mk_dir dir s))"
  unfolding daemon_mk_dir_def Let_def
  by (auto split: prod.splits dest!: calm_sys) (auto simp: grows_def logged_def)

lemma calm_mk_all_loop: "daemon_mk_all_loop dir p s = Some (r, s') \<Longrightarrow> grows calm s s'"
proof (induction dir p s rule: daemon_mk_all_loop.induct)
  case (1 dir p s)
  show ?case
    using "1.prems" [unfolded daemon_mk_all_loop.simps [of dir p s]] "1.IH" calm_mk_dir [of s]
    by (auto split: option.splits if_splits simp: grows_refl intro: grows_trans)
qed

lemma calm_mk_all_dir: "daemon_mk_all_dir dir s = Some (r, s') \<Longrightarrow> grows calm s s'"
  by (simp add: daemon_mk_all_dir_def calm_mk_all_loop)

lemma calm_shutdown: "shutdown_app app s = Some (r, s') \<Longrightarrow> grows calm s s'"
  unfolding shutdown_app_def sprintf_to_def Let_def
  by (auto split: Option.bind_splits if_splits dest!: get_cmd_calm simp: find_cmd_def show_num_def)
    (auto simp: grows_def logged_def)

section \<open>The installation\<close>

definition installs :: "string \<Rightarrow> string \<Rightarrow> event \<Rightarrow> bool" where
  "installs dir deb e \<longleftrightarrow> calm e \<or> (\<exists>f. e = Ran (''dpkg -i '' @ dir @ ''/'' @ deb @ '' > '' @ f))"

lemma install_app_grows: "install_app dir deb v s = Some (r, s') \<Longrightarrow> grows (installs dir deb) s s'"
proof -
  assume "install_app dir deb v s = Some (r, s')"
  then obtain n b s1 n' b' where
    g: "get_cmd_results (Some (''dpkg -i '' @ dir @ ''/'' @ deb)) 1024 s = Some (n, b, s1)"
    "get_cmd_results (Some (app @ '' --version'')) 1024 s1 = Some (n', b', s')"
    unfolding install_app_def sprintf_to_def by (auto split: Option.bind_splits if_splits)
  have "grows calm s1 s'" by (rule get_cmd_calm [OF g(2)]) (simp_all add: app_def)
  then have "grows (installs dir deb) s1 s'" by (rule grows_mono) (simp add: installs_def)
  moreover have "grows (installs dir deb) s s1"
    by (rule grows_mono [OF get_cmd_event [OF g(1)]]) (auto simp: cmd_event_def installs_def)
  ultimately show ?thesis by (rule grows_trans [rotated])
qed

lemma updata_install_steps:
  assumes "updata_install ftp fd L s = Some (r, s')"
  obtains q s1 d s2 where "daemon_mk_all_dir (ftp_downdir ftp) s = Some (q, s1)"
    "download_deb fd (ftp_downdir ftp) (ftp_serverdir ftp) (app @ ''_'' @ L @ ''.tar'') s1 = Some (d, s2)"
    "grows (installs (ftp_downdir ftp) (app @ ''_'' @ L @ ''.tar'')) s2 s'" "d \<noteq> 0 \<longrightarrow> s' = s2"
proof -
  let ?f = "app @ ''_'' @ L @ ''.tar''" and ?d = "ftp_downdir ftp"
  have lift: "grows (installs ?d ?f) x y" if "grows calm x y" for x y
    using that by (rule grows_mono) (simp add: installs_def)
  obtain q s1 d s2 where x: "daemon_mk_all_dir ?d s = Some (q, s1)"
    "download_deb fd ?d (ftp_serverdir ftp) ?f s1 = Some (d, s2)"
    using assms unfolding updata_install_def sprintf_to_def by (auto split: Option.bind_splits if_splits)
  have e: "d \<noteq> 0 \<Longrightarrow> s' = s2" using assms x unfolding updata_install_def sprintf_to_def
    by (auto split: Option.bind_splits if_splits)
  have "grows (installs ?d ?f) s2 s'"
  proof (cases "d = 0")
    case False
    then show ?thesis using e grows_refl by simp
  next
    case True
    then show ?thesis using assms x unfolding updata_install_def sprintf_to_def
      by (auto split: Option.bind_splits if_splits
          dest!: lift [OF calm_shutdown] install_app_grows) (blast intro: grows_trans)+
  qed
  with x e show thesis using that by blast
qed

section \<open>Data that arrives\<close>

text \<open>What a sequence of \<^verbatim>\<open>recv\<close> calls delivers until one of them fails or ends; in a
  transfer every second answer is that of the \<^verbatim>\<open>write\<close>.\<close>

fun stream :: "nat \<Rightarrow> answer list \<Rightarrow> string" where
  "stream n [] = []"
| "stream n (a # as) =
     (if an_ret a < 0 \<or> take n (an_data a) = [] then [] else take n (an_data a) @ stream n as)"

fun transfer :: "nat \<Rightarrow> answer list \<Rightarrow> string" where
  "transfer n (a # w # as) =
     (if an_ret a < 0 \<or> take n (an_data a) = [] then [] else take n (an_data a) @ transfer n as)"
| "transfer n as = []"

definition written :: "int \<Rightarrow> event list \<Rightarrow> string" where
  "written fd E = concat (map (\<lambda>e. case e of Wrote h d \<Rightarrow> if h = fd then d else [] | _ \<Rightarrow> []) E)"

lemma written_simps [simp]:
  "written fd [] = []" "written fd (E @ F) = written fd E @ written fd F"
  "written fd (Wrote h d # E) = (if h = fd then d else []) @ written fd E"
  by (simp_all add: written_def)

lemma recv_cons:
  "os_script s = a # as \<Longrightarrow> call_recv n s =
     (if an_ret a < 0 then (-1, [], s\<lparr>os_script := as\<rparr>)
      else (int (length (take n (an_data a))), take n (an_data a), s\<lparr>os_script := as\<rparr>))"
  by (simp add: call_recv_def next_answer_def)

lemma recv_none: "os_script s = [] \<Longrightarrow> call_recv n s = (-1, [], s)"
  by (simp add: call_recv_def next_answer_def failing_def)

text \<open>One turn of the loop: the block that holds the first \<open>k\<close> characters is large enough for the next
  piece, at once or when doubled.\<close>

lemma grow_block:
  assumes "\<And>n. length (mem n) = n" and "1024 \<le> length blk" and "k \<le> length blk" and "length d \<le> 1024"
  obtains b c where
    "(if k + length d > length blk then memcpy_at 0 (take k blk) (mem (2 * length blk)) else Some blk) = Some b"
    "memcpy_at k d b = Some c" "take (k + length d) c = take k blk @ d" "1024 \<le> length c" "k + length d \<le> length c"
proof -
  define b where "b = (if k + length d > length blk then take k blk @ drop k (mem (2 * length blk)) else blk)"
  have len: "length b = (if k + length d > length blk then 2 * length blk else length blk)" and tk: "take k b = take k blk"
    using assms by (auto simp: b_def)
  have fit: "k + length d \<le> length b" using assms len by auto
  show ?thesis
  proof (rule that [of b "take k b @ d @ drop (k + length d) b"])
    show "(if k + length d > length blk then memcpy_at 0 (take k blk) (mem (2 * length blk)) else Some blk) = Some b"
      using assms by (auto simp: b_def memcpy_at_def)
  qed (use fit len tk assms in \<open>auto simp: memcpy_at_def min_def\<close>)
qed

text \<open>The block is never overrun, and holds what arrived.\<close>

lemma list_loop_whole:
  assumes "\<And>n. length (mem n) = n" and "1024 \<le> length blk" and "k \<le> length blk"
  shows "\<exists>b s'. list_loop mem blk k s = Some (b, k + length (stream 1024 (os_script s)), s') \<and>
    take (k + length (stream 1024 (os_script s))) b = take k blk @ stream 1024 (os_script s) \<and>
    k + length (stream 1024 (os_script s)) \<le> length b"
  using assms(2,3)
proof (induction "os_script s" arbitrary: blk k s)
  case Nil
  then show ?case by (subst list_loop.simps) (simp add: recv_none)
next
  case (Cons a as)
  let ?d = "take 1024 (an_data a)"
  show ?case
  proof (cases "an_ret a < 0 \<or> ?d = []")
    case True
    then show ?thesis using Cons.prems Cons.hyps(2) [symmetric] by (subst list_loop.simps) (auto simp: recv_cons)
  next
    case False
    obtain b c where g:
      "(if k + length ?d > length blk then memcpy_at 0 (take k blk) (mem (2 * length blk)) else Some blk) = Some b"
      "memcpy_at k ?d b = Some c" "take (k + length ?d) c = take k blk @ ?d" "1024 \<le> length c" "k + length ?d \<le> length c"
      by (rule grow_block [OF assms(1) Cons.prems, of ?d]) auto
    show ?thesis
      using Cons.hyps(1) [of "s\<lparr>os_script := as\<rparr>" c "k + length ?d"] False g Cons.hyps(2) [symmetric]
      by (subst list_loop.simps) (simp add: recv_cons ac_simps del: length_take)
  qed
qed

lemma write_cons:
  "os_script s = a # as \<Longrightarrow> call_write fd b s =
     (if an_ret a < 0 then (-1, s\<lparr>os_script := as\<rparr>)
      else (min (an_ret a) (int (length b)),
        logged (Wrote fd (take (nat (min (an_ret a) (int (length b)))) b)) (s\<lparr>os_script := as\<rparr>)))"
  by (simp add: call_write_def next_answer_def Let_def)

lemma write_none: "os_script s = [] \<Longrightarrow> call_write fd b s = (-1, s)"
  by (simp add: call_write_def next_answer_def failing_def)

lemma take_min_length: "take (min (length xs) n) xs = take n xs"
  by (simp add: min_def)

text \<open>A transfer that runs to its end wrote what arrived, nothing less and nothing more, and counted it.\<close>

lemma retr_loop_whole:
  assumes "retr_loop h stop (Some n) s = (True, st, s')"
  shows "\<exists>E. os_log s' = os_log s @ E \<and> written h E = transfer 512 (os_script s) \<and>
    st = Some (n + word_of_nat (length (transfer 512 (os_script s)))) \<and> os_open s' = os_open s"
  using assms
proof (induction "512 :: nat" "os_script s" arbitrary: n s rule: transfer.induct [case_names step none one])
  case (step a w as)
  let ?d = "take 512 (an_data a)" and ?s1 = "s\<lparr>os_script := w # as\<rparr>"
  have scr: "os_script s = a # w # as" "os_script ?s1 = w # as" using step(2) by simp_all
  show ?case
  proof (cases "an_ret a < 0 \<or> ?d = []")
    case True
    then show ?thesis using step(3) scr by (subst (asm) retr_loop.simps) (auto simp: recv_cons split: if_splits)
  next
    case False
    then have full: "int (length ?d) \<le> an_ret w" "\<not> stop"
      and rest: "retr_loop h stop (Some (n + word_of_nat (length ?d)))
        (logged (Wrote h ?d) (s\<lparr>os_script := as\<rparr>)) = (True, st, s')"
      using step(3) [unfolded retr_loop.simps [of h stop _ s] recv_cons [OF scr(1)]] False
      by (auto simp: write_cons [OF scr(2)] take_min_length split: if_splits)
    show ?thesis
      using step(1) [OF False _ rest] False scr by (auto simp: logged_def)
  qed
next
  case (none s)
  then show ?case by (subst (asm) retr_loop.simps) (simp add: recv_none)
next
  case (one v s)
  have scr: "os_script s = [v]" using one by simp
  show ?case using one(2) scr
    by (subst (asm) retr_loop.simps) (auto simp: recv_cons write_none split: if_splits)
qed

lemma free_fd_new: "free_fd fds \<notin> set fds \<and> 0 \<le> free_fd fds"
proof -
  let ?n = "Suc (length fds)"
  have "card (int ` {0..<?n}) = ?n" using card_image [of int "{0..<?n}"] by simp
  then have "\<not> int ` {0..<?n} \<subseteq> set fds" using card_mono [of "set fds" "int ` {0..<?n}"] card_length [of fds] by force
  then have "filter (\<lambda>n. n \<notin> set fds) (map int [0..<?n]) \<noteq> []" by (auto simp: filter_empty_conv simp del: upt_Suc)
  from hd_in_set [OF this] show ?thesis unfolding free_fd_def by (auto simp del: upt_Suc)
qed

lemma call_fd_new: "call_fd s = (h, s') \<Longrightarrow> h \<noteq> -1 \<Longrightarrow> h \<notin> set (os_open s) \<and> 0 \<le> h \<and> os_open s' = h # os_open s"
  using free_fd_new
  by (auto simp: call_fd_def next_answer_def Let_def split: list.splits if_splits)

section \<open>The order of versions\<close>

text \<open>A version text as the build writes it: seven numbers, each behind its mark.\<close>

definition version_text :: "string list \<Rightarrow> string" where
  "version_text fs = concat (map2 (\<lambda>c f. c # f) ''V..__..'' fs)"

definition digits :: "string \<Rightarrow> bool" where
  "digits f \<longleftrightarrow> f \<noteq> [] \<and> list_all is_digit f"

text \<open>Newer means lexicographically larger.\<close>

fun newer :: "nat list \<Rightarrow> nat list \<Rightarrow> int" where
  "newer (x # xs) (y # ys) = (if x > y then -1 else if x < y then 1 else newer xs ys)"
| "newer xs ys = 0"

lemma scan_fields_text:
  assumes "length cs = length fs" and "\<forall>c\<in>set cs. \<not> is_digit c" and "rest = [] \<or> \<not> is_digit (hd rest)"
    and "\<forall>f\<in>set fs. digits f \<and> dec_num f < 2 ^ 31"
  shows "scan_fields cs (concat (map2 (\<lambda>c f. c # f) cs fs) @ rest) = map (\<lambda>f. int (dec_num f)) fs"
  using assms
proof (induction cs fs rule: list_induct2)
  case (Cons c cs f fs)
  let ?r = "concat (map2 (\<lambda>c f. c # f) cs fs) @ rest"
  have "?r = [] \<or> \<not> is_digit (hd ?r)"
    using Cons.prems Cons.hyps by (cases cs; cases fs) auto
  then have "scan_d (f @ ?r) = Some (int (dec_num f), ?r)"
    using Cons.prems by (intro scan_d_digits) (auto simp: digits_def)
  then show ?case using Cons by (simp add: scan_c_def)
qed simp

lemma version_fields_text:
  assumes "length fs = 7" and "\<forall>f\<in>set fs. digits f \<and> dec_num f < 2 ^ 31"
    and "rest = [] \<or> \<not> is_digit (hd rest)"
  shows "version_fields (version_text fs @ rest) = map (\<lambda>f. int (dec_num f)) fs"
  unfolding version_fields_def version_text_def
  by (rule scan_fields_text) (use assms in \<open>auto simp: is_digit_def\<close>)


lemma version_h_val:
  assumes "a < 2 ^ 31" and "b < 8" and "c < 8"
  shows "unat (version_h (int a # int b # int c # xs)) = (a * 8 + b) * 8 + c"
proof -
  have a: "unat (word_of_nat a :: ul64) = a" using assms by (simp add: unat_of_nat)
  have h: "unat (push_bit 3 (word_of_nat a :: ul64) OR word_of_nat b) = a * 8 + b"
    using push_or_val [of "word_of_nat a :: ul64" 3 b] assms a by simp
  show ?thesis
    using push_or_val [of "push_bit 3 (word_of_nat a :: ul64) OR word_of_nat b" 3 c] assms h by (simp add: version_h_def)
qed

lemma version_l_val:
  assumes "d < 1000000" and "h < 100" and "m < 100" and "s < 100"
  shows "unat (version_l [x, y, z, int d, int h, int m, int s]) = ((d * 1000000 + h) * 100 + m) * 100 + s"
proof -
  have "version_l [x, y, z, int d, int h, int m, int s] = word_of_nat (((d * 1000000 + h) * 100 + m) * 100 + s)"
    by (simp add: version_l_def)
  moreover have "((d * 1000000 + h) * 100 + m) * 100 + s < 2 ^ LENGTH(64)" using assms by simp
  ultimately show ?thesis by (simp only: unat_of_nat mod_less)
qed

text \<open>Numbers the packed comparison keeps apart: three bits each for the second and the third.\<close>

fun small_version :: "nat list \<Rightarrow> bool" where
  "small_version [a, b, c, d, h, m, s] \<longleftrightarrow>
     a < 2 ^ 31 \<and> b < 8 \<and> c < 8 \<and> d < 1000000 \<and> h < 100 \<and> m < 100 \<and> s < 100"
| "small_version v \<longleftrightarrow> False"

lemma packed_newer:
  assumes "small_version v" and "small_version w"
  shows "(let h = version_h (map int v); fh = version_h (map int w); l = version_l (map int v); fl = version_l (map int w)
    in if h > fh then -1 else if h = fh then (if l > fl then -1 else if l = fl then 0 else 1) else 1) = newer v w"
proof -
  obtain a b c d h m s where v: "v = [a, b, c, d, h, m, s]" using assms(1) by (cases v rule: small_version.cases) auto
  obtain a' b' c' d' h' m' s' where w: "w = [a', b', c', d', h', m', s']" using assms(2) by (cases w rule: small_version.cases) auto
  have H: "unat (version_h (map int v)) = (a * 8 + b) * 8 + c" "unat (version_h (map int w)) = (a' * 8 + b') * 8 + c'"
    using assms v w version_h_val by simp_all
  have L: "unat (version_l (map int v)) = ((d * 1000000 + h) * 100 + m) * 100 + s"
    "unat (version_l (map int w)) = ((d' * 1000000 + h') * 100 + m') * 100 + s'"
    using assms v w version_l_val by simp_all
  show ?thesis
    unfolding Let_def word_less_nat_alt word_unat_eq_iff H L using assms
    by (auto simp: v w)
qed

text \<open>Outside those bounds the order is lost: the program of this repository is version 1.1.13, and version 1.1.5
  counts as newer.\<close>

lemma version_overlap: "is_version_bigger ''V1.1.13_220802_17.03.34'' ''V1.1.05_220802_17.04.10'' = 1"
  by (simp add: is_version_bigger_def version_fields_def scan_c_def scan_d_def is_digit_def is_space_def dec_num_def
      version_h_def version_l_def)

section \<open>What a poll leaves open\<close>

definition keeps_open :: "os \<Rightarrow> os \<Rightarrow> bool" where
  "keeps_open s s' \<longleftrightarrow> set (os_open s) \<subseteq> set (os_open s')"

lemma keeps_refl: "keeps_open s s"
  by (simp add: keeps_open_def)

lemma keeps_next: "next_answer s = (a, s') \<Longrightarrow> keeps_open s s'"
  by (auto simp: keeps_open_def next_answer_def split: list.splits)

lemma keeps_plain: "call_plain s = (r, s') \<Longrightarrow> keeps_open s s'"
  by (auto simp: call_plain_def Let_def split: prod.splits dest: keeps_next)

lemma keeps_fd:
  "call_fd s = (r, s') \<Longrightarrow> keeps_open s s' \<and> (r = -1 \<or> r \<notin> set (os_open s) \<and> r \<in> set (os_open s'))"
  using free_fd_new [of "os_open s"]
  by (auto simp: call_fd_def next_answer_def Let_def keeps_open_def split: list.splits if_splits)

lemma keeps_recv: "call_recv n s = (r, d, s') \<Longrightarrow> keeps_open s s'"
  by (auto simp: call_recv_def Let_def split: prod.splits if_splits dest!: keeps_next)

lemma keeps_send: "call_send fd b s = (r, s') \<Longrightarrow> keeps_open s s'"
  by (auto simp: call_send_def Let_def split: prod.splits if_splits dest!: keeps_next simp: keeps_open_def logged_def)

lemmas keeps_sys = keeps_next keeps_plain keeps_recv keeps_send

lemma keeps_sendcmd_re: "ftp_sendcmd_re sock cmd s = Some (r, t, s') \<Longrightarrow> keeps_open s s'"
  unfolding ftp_sendcmd_re_def Let_def
  by (auto split: prod.splits if_splits dest!: keeps_sys) (auto simp: keeps_open_def)

lemma keeps_command: "command n sock verb arg s = Some (r, s') \<Longrightarrow> keeps_open s s'"
  unfolding command_def ftp_sendcmd_def by (auto split: prod.splits Option.bind_splits dest!: keeps_sendcmd_re)

lemma open_socket:
  "socket_connect host port s = (fd, s') \<Longrightarrow> keeps_open s s' \<and> (fd = -1 \<or> fd \<notin> set (os_open s) \<and> fd \<in> set (os_open s'))"
  unfolding socket_connect_def call_connect_def Let_def
  by (auto split: prod.splits if_splits dest!: keeps_plain keeps_fd simp: logged_def)
    (auto simp: keeps_open_def subset_iff)

lemma open_pasv:
  "ftp_pasv_connect c_sock s = Some (fd, s') \<Longrightarrow> keeps_open s s' \<and> (fd = -1 \<or> fd \<notin> set (os_open s))"
  unfolding ftp_pasv_connect_def Let_def
  by (auto split: prod.splits if_splits Option.bind_splits dest!: keeps_sendcmd_re open_socket)
    (auto simp: keeps_open_def)

lemma keeps_list_loop: "list_loop mem blk n s = Some (b, k, s') \<Longrightarrow> keeps_open s s'"
proof (induction mem blk n s rule: list_loop.induct)
  case (1 mem blk n s)
  obtain len d s1 where r: "call_recv 1024 s = (len, d, s1)" by (cases "call_recv 1024 s")
  show ?case
    using "1.prems" "1.IH" [OF r [symmetric] refl] keeps_recv [OF r]
    by (subst (asm) list_loop.simps)
      (fastforce simp: r keeps_open_def split: if_splits option.splits)
qed

lemma keeps_list: "ftp_list mem c_sock path s = Some (r, d, s') \<Longrightarrow> keeps_open s s'"
  unfolding ftp_list_def
  by (auto split: prod.splits if_splits Option.bind_splits dest!: open_pasv keeps_command keeps_list_loop)
    (auto simp: keeps_open_def call_close_def)

lemma keeps_list_deb: "ftp_list_deb_version mem fd dir buf s = Some (r, t, s') \<Longrightarrow> keeps_open s s'"
  unfolding ftp_list_deb_version_def
  by (auto split: prod.splits if_splits Option.bind_splits option.splits dest!: keeps_list)

text \<open>A poll that ends because the listing shows no package leaves the control connection open, and with it every
  descriptor it had.\<close>

lemma poll_leaves_open:
  assumes "ftp_get_setting ftp = 0" and "ftp_enable ftp \<noteq> 0" and "ftp_interval ftp \<le> t + k"
    and "ftp_connect_server (ftp_ip ftp) (ftp_user ftp) (ftp_password ftp) s = Some (fd, s1)" and "0 \<le> fd"
    and "ftp_list_deb_version mem fd (ftp_serverdir ftp) junk s1 = Some (n, b, s2)" and "n < 0"
  shows "updata_poll mem junk ftp k t s = Some (-1, 0, s2) \<and> set (os_open s1) \<subseteq> set (os_open s2)"
  using assms keeps_list_deb [OF assms(6)] by (simp add: updata_poll_def keeps_open_def)

section \<open>When a package is installed\<close>

text \<open>The entry with index \<open>n\<close> of the log, written between two states.\<close>

definition logs_at :: "os \<Rightarrow> os \<Rightarrow> nat \<Rightarrow> event \<Rightarrow> bool" where
  "logs_at s s' n e \<longleftrightarrow> length (os_log s) \<le> n \<and> n < length (os_log s') \<and> os_log s' ! n = e"

lemma logs_at_grows: "grows P s s' \<Longrightarrow> logs_at s s' n e \<Longrightarrow> P e"
  by (auto simp: grows_def logs_at_def nth_append)

lemma logs_at_cut:
  "logs_at s s' n e \<Longrightarrow> grows P s u \<Longrightarrow> grows Q u s' \<Longrightarrow> logs_at s u n e \<or> logs_at u s' n e"
  by (auto simp: grows_def logs_at_def nth_append)

lemma logs_at_after:
  "logs_at s s' n e \<Longrightarrow> grows P s u \<Longrightarrow> \<not> P e \<Longrightarrow> grows Q u s' \<Longrightarrow> logs_at u s' n e"
  using logs_at_cut logs_at_grows by blast

lemma logs_at_before:
  "logs_at s s' n e \<Longrightarrow> grows P s u \<Longrightarrow> grows Q u s' \<Longrightarrow> \<not> Q e \<Longrightarrow> logs_at s u n e"
  using logs_at_cut logs_at_grows by blast

lemma logs_at_ex: "e \<in> set (drop (length (os_log s)) (os_log s')) \<Longrightarrow> \<exists>n. logs_at s s' n e"
proof -
  assume "e \<in> set (drop (length (os_log s)) (os_log s'))"
  then obtain i where "i < length (os_log s') - length (os_log s)" "os_log s' ! (length (os_log s) + i) = e"
    by (auto simp: in_set_conv_nth)
  then show ?thesis by (intro exI [of _ "length (os_log s) + i"]) (auto simp: logs_at_def)
qed

text \<open>What a poll has to go through, from the state it begins in to the state in which a package may be
  installed: the log-in, the listing with its version \<open>L\<close>, the version of the installed program, which
  is smaller, the directory, and the file named after \<open>L\<close>, received with the result zero. Every
  step begins in the state the one before has ended in.\<close>

inductive newer_loaded :: "(nat \<Rightarrow> string) \<Rightarrow> string \<Rightarrow> rtu_ftp \<Rightarrow> os \<Rightarrow> string \<Rightarrow> os \<Rightarrow> bool"
  for mem junk ftp s where
  loaded: "ftp_connect_server (ftp_ip ftp) (ftp_user ftp) (ftp_password ftp) s = Some (fd, sa) \<Longrightarrow> 0 \<le> fd \<Longrightarrow>
    ftp_list_deb_version mem fd (ftp_serverdir ftp) junk sa = Some (na, buf, sb) \<Longrightarrow> 0 \<le> na \<Longrightarrow>
    get_current_app_version app 100 sb = Some (nv, v, sc) \<Longrightarrow> 0 \<le> nv \<Longrightarrow>
    is_version_bigger (cstr v) (cstr buf) = 1 \<Longrightarrow>
    daemon_mk_all_dir (ftp_downdir ftp) sc = Some (q, s1) \<Longrightarrow>
    download_deb fd (ftp_downdir ftp) (ftp_serverdir ftp) (app @ ''_'' @ cstr buf @ ''.tar'') s1 = Some (0, s2) \<Longrightarrow>
    newer_loaded mem junk ftp s (cstr buf) s2"

inductive_cases newer_loadedE: "newer_loaded mem junk ftp s L s2"

lemma updata_poll_cases:
  assumes "updata_poll mem junk ftp k t s = Some (r, t', s')" and "\<not> grows calm s s'"
  obtains fd sa na buf sb nv v sc q u where
    "ftp_connect_server (ftp_ip ftp) (ftp_user ftp) (ftp_password ftp) s = Some (fd, sa)" "0 \<le> fd" "0 \<le> na" "0 \<le> nv"
    "ftp_list_deb_version mem fd (ftp_serverdir ftp) junk sa = Some (na, buf, sb)"
    "get_current_app_version app 100 sb = Some (nv, v, sc)" "is_version_bigger (cstr v) (cstr buf) = 1"
    "updata_install ftp fd (cstr buf) sc = Some (q, u)" "grows calm s sc" "grows calm u s'"
proof -
  have looked: "ftp_get_setting ftp = 0" "ftp_enable ftp \<noteq> 0" "\<not> t + k < ftp_interval ftp"
    using assms grows_refl by (auto simp: updata_poll_def split: if_splits)
  then obtain fd sa where fd: "ftp_connect_server (ftp_ip ftp) (ftp_user ftp) (ftp_password ftp) s = Some (fd, sa)"
    using assms(1) by (auto simp: updata_poll_def split: Option.bind_splits)
  have a: "grows calm s sa" using fd by (simp add: ftp_connect_server_def calm_connect)
  then have "\<not> fd < 0" using assms looked fd by (auto simp: updata_poll_def)
  then obtain na buf sb where l: "ftp_list_deb_version mem fd (ftp_serverdir ftp) junk sa = Some (na, buf, sb)"
    using assms(1) looked fd by (auto simp: updata_poll_def split: Option.bind_splits)
  have b: "grows calm s sb" by (rule grows_trans [OF a calm_list_deb [OF l]])
  then have "\<not> na < 0" using assms looked fd l \<open>\<not> fd < 0\<close> by (auto simp: updata_poll_def)
  then obtain nv v sc where v: "text_in buf = Some (cstr buf)" "get_current_app_version app 100 sb = Some (nv, v, sc)"
    using assms(1) looked fd l \<open>\<not> fd < 0\<close> by (auto simp: updata_poll_def text_in_def split: Option.bind_splits if_splits)
  have c: "grows calm s sc" by (rule grows_trans [OF b calm_version [OF v(2)]])
  then have nv: "\<not> nv < 0" using assms looked fd l v \<open>\<not> fd < 0\<close> \<open>\<not> na < 0\<close> by (auto simp: updata_poll_def)
  note rest = assms(1) [unfolded updata_poll_def] looked fd l v \<open>\<not> fd < 0\<close> \<open>\<not> na < 0\<close> nv
  have bigger: "is_version_bigger (cstr v) (cstr buf) = 1"
  proof (rule ccontr)
    assume "is_version_bigger (cstr v) (cstr buf) \<noteq> 1"
    then obtain q where "ftp_quit fd sc = Some (q, s')" using rest by (auto split: Option.bind_splits)
    then show False using assms(2) grows_trans [OF c calm_quit] by blast
  qed
  then obtain q u where i: "updata_install ftp fd (cstr buf) sc = Some (q, u)"
    using rest by (auto split: Option.bind_splits)
  have "grows calm u s'"
    using rest bigger i by (cases q) (auto split: Option.bind_splits simp: grows_refl dest!: calm_quit)
  then show thesis using that fd \<open>\<not> fd < 0\<close> \<open>\<not> na < 0\<close> nv l v(2) bigger i c by (meson linorder_not_less)
qed

lemma updata_install_grows:
  assumes "updata_install ftp fd L s = Some (r, s')"
  shows "grows (\<lambda>e. True) s s'"
proof -
  let ?T = "\<lambda>e :: event. True"
  have c: "grows ?T x y" if "grows calm x y" for x y using that by (rule grows_mono) simp
  have i: "grows ?T x y" if "install_app d f v x = Some (q, y)" for d f v x q y
    using install_app_grows [OF that] by (rule grows_mono) simp
  show ?thesis
    using assms unfolding updata_install_def sprintf_to_def
    by (auto split: Option.bind_splits if_splits
        dest!: c [OF calm_mk_all_dir] c [OF calm_download] c [OF calm_shutdown] i)
      (blast intro: grows_trans)+
qed

text \<open>Each call of the package manager in a poll.\<close>

lemma poll_installs:
  assumes "updata_poll mem junk ftp k t s = Some (r, t', s')" and "logs_at s s' n (Ran c)" and "take 4 c = ''dpkg''"
  shows "\<exists>L s2 f. newer_loaded mem junk ftp s L s2 \<and> logs_at s2 s' n (Ran c) \<and>
    c = ''dpkg -i '' @ ftp_downdir ftp @ ''/'' @ app @ ''_'' @ L @ ''.tar > '' @ f"
proof -
  have c: "\<not> calm (Ran c)" using assms(3) by simp
  then have "\<not> grows calm s s'" using assms(2) logs_at_grows by blast
  from updata_poll_cases [OF assms(1) this] obtain fd sa na buf sb nv v sc q u where
    x: "ftp_connect_server (ftp_ip ftp) (ftp_user ftp) (ftp_password ftp) s = Some (fd, sa)" "0 \<le> fd" "0 \<le> na" "0 \<le> nv"
      "ftp_list_deb_version mem fd (ftp_serverdir ftp) junk sa = Some (na, buf, sb)"
      "get_current_app_version app 100 sb = Some (nv, v, sc)" "is_version_bigger (cstr v) (cstr buf) = 1"
    and i: "updata_install ftp fd (cstr buf) sc = Some (q, u)" and g: "grows calm s sc" "grows calm u s'" .
  let ?f = "app @ ''_'' @ cstr buf @ ''.tar''"
  from updata_install_steps [OF i] obtain p s1 d s2 where
    y: "daemon_mk_all_dir (ftp_downdir ftp) sc = Some (p, s1)"
      "download_deb fd (ftp_downdir ftp) (ftp_serverdir ftp) ?f s1 = Some (d, s2)"
    and h: "grows (installs (ftp_downdir ftp) ?f) s2 u" and e: "d \<noteq> 0 \<longrightarrow> u = s2" .
  have g2: "grows calm s s2" by (rule grows_trans [OF g(1) grows_trans [OF calm_mk_all_dir [OF y(1)] calm_download [OF y(2)]]])
  have "grows (\<lambda>e. True) s2 s'"
    by (rule grows_trans [OF grows_mono [OF h] grows_mono [OF g(2)]]) simp_all
  from logs_at_after [OF assms(2) g2 c this] have at: "logs_at s2 s' n (Ran c)" .
  from logs_at_before [OF this h g(2) c] have b: "logs_at s2 u n (Ran c)" .
  then have "d = 0" using e by (auto simp: logs_at_def)
  moreover note logs_at_grows [OF h b]
  ultimately show ?thesis using x y at c by (fastforce simp: installs_def intro: newer_loaded.loaded)
qed

end
