(* ===== verification/Updata_Run.thy ===== *)
theory Updata_Run
  imports Updata_Laws
begin

text \<open>
  A run of the updater against a server that answers, from the log-in to the installation: what each function
  does when its calls succeed, and one poll followed step by step.
\<close>

section \<open>A server that answers\<close>

text \<open>The answers of calls that succeed, of a peer that sends a text, and of a command that prints one.\<close>

definition ok :: answer where
  "ok = \<lparr>an_ret = 1, an_val = 0, an_data = []\<rparr>"

definition says :: "string \<Rightarrow> answer" where
  "says t = \<lparr>an_ret = 1, an_val = 0, an_data = t\<rparr>"

definition takes :: "nat \<Rightarrow> answer" where
  "takes n = \<lparr>an_ret = int n, an_val = 0, an_data = []\<rparr>"

definition connects :: "answer list" where
  "connects = [ok, ok, ok, ok, ok, ok]"

definition replies :: "string \<Rightarrow> answer list" where
  "replies t = [takes 512, says t]"

definition runs_well :: "answer list" where
  "runs_well = [ok, ok, ok, ok, ok, ok, ok, ok]"

definition prints :: "string \<Rightarrow> answer list" where
  "prints out = says ''AbCdEf'' # runs_well @ [ok, says out] @ runs_well"

lemma answer_ok [simp]: "an_ret ok = 1" "an_data ok = []" "an_val ok = 0" "an_ret (says t) = 1" "an_data (says t) = t"
  "an_ret (takes n) = int n" "an_data (takes n) = []"
  by (simp_all add: ok_def says_def takes_def)

lemma next_cons: "os_script s = a # as \<Longrightarrow> next_answer s = (a, s\<lparr>os_script := as\<rparr>)"
  by (simp add: next_answer_def)

lemma plain_ok: "os_script s = ok # as \<Longrightarrow> call_plain s = (1, s\<lparr>os_script := as\<rparr>)"
  by (simp add: call_plain_def next_cons)

lemma fd_ok: "os_script s = ok # as \<Longrightarrow>
    call_fd s = (free_fd (os_open s), s\<lparr>os_script := as, os_open := free_fd (os_open s) # os_open s\<rparr>)"
  by (simp add: call_fd_def next_cons Let_def)

lemma script_logged [simp]: "os_script (logged e s) = os_script s" "os_open (logged e s) = os_open s"
  "os_log (logged e s) = os_log s @ [e]" "os_script (call_close fd s) = os_script s" "os_log (call_close fd s) = os_log s"
  "os_open (call_close fd s) = removeAll fd (os_open s)"
  by (simp_all add: logged_def call_close_def)

lemma logged_script [simp]: "(logged e s)\<lparr>os_script := as\<rparr> = logged e (s\<lparr>os_script := as\<rparr>)"
  by (simp add: logged_def)

lemma sendcmd_reply:
  assumes "os_script s = replies t @ rest" and "length cmd \<le> 512" and "0 < length t" and "length t < 512"
    and "scan_d (cstr t) = Some (v, r)"
  shows "ftp_sendcmd sock cmd s = Some (v, logged (Sent sock cmd) (s\<lparr>os_script := rest\<rparr>))"
  using assms
  by (simp add: ftp_sendcmd_def ftp_sendcmd_re_def call_send_def call_recv_def next_answer_def replies_def Let_def)

lemma socket_connects:
  assumes "os_script s = connects @ rest"
  shows "socket_connect host port s = (free_fd (os_open s), logged (Connected (free_fd (os_open s)) host (port mod 2 ^ 16))
    (s\<lparr>os_script := rest, os_open := free_fd (os_open s) # os_open s\<rparr>))"
  using assms free_fd_new [of "os_open s"]
  by (simp add: socket_connect_def call_connect_def connects_def fd_ok plain_ok Let_def)

lemma pasv_connects:
  assumes "os_script s = replies t @ connects @ rest" and "0 < length t" and "length t < 512"
    and "scan_pasv (cstr t) = [a, b, c, d, e, f]" and "host = show_num a @ ''.'' @ show_num b @ ''.'' @ show_num c @ ''.'' @ show_num d"
    and "length host < 512" and "in_int (e * 256)" and "in_int (e * 256 + f)"
  shows "ftp_pasv_connect sock s = Some (free_fd (os_open s),
    logged (Connected (free_fd (os_open s)) host ((e * 256 + f) mod 2 ^ 16))
     (logged (Sent sock (''PASV'' @ crlf))
      (s\<lparr>os_script := rest, os_open := free_fd (os_open s) # os_open s\<rparr>)))"
  using assms
  by (simp add: ftp_pasv_connect_def ftp_sendcmd_re_def call_send_def call_recv_def next_answer_def replies_def
      sprintf_to_def socket_connects crlf_def Let_def)

lemma system_ex_well:
  assumes "os_script s = runs_well @ rest"
  shows "system_ex (Some cmd) 20 s = (0, logged (Ran cmd) (s\<lparr>os_script := rest\<rparr>))"
proof -
  have "wait_loop n u = (an_ret ok, an_val ok, u\<lparr>os_script := as\<rparr>)" if "0 < n" "os_script u = ok # as" for n u as
    using that by (subst wait_loop.simps) (simp add: next_cons)
  then show ?thesis
    using assms by (simp add: system_ex_def runs_well_def plain_ok Let_def)
qed

text \<open>A command that runs well: the buffer holds its output and zeros.\<close>

lemma get_cmd_prints:
  assumes "os_script s = prints out @ rest" and "length cmd \<le> 108" and "length out < n"
    and "take 1 (takeWhile (\<lambda>c. c \<in> set name_chars) cmd) = takeWhile (\<lambda>c. c \<in> set name_chars) cmd"
  shows "get_cmd_results (Some cmd) n s = Some (int (length out), out @ replicate (n - length out) nul,
     logged (Ran (''rm -rf /tmp/'' @ takeWhile (\<lambda>c. c \<in> set name_chars) cmd @ ''-*''))
      (logged (Ran (cmd @ '' > /tmp/'' @ takeWhile (\<lambda>c. c \<in> set name_chars) cmd @ ''-AbCdEf 2>&1''))
        (s\<lparr>os_script := rest\<rparr>)))"
proof -
  let ?w = "takeWhile (\<lambda>c. c \<in> set name_chars) cmd"
  have w: "length ?w \<le> 1" using arg_cong [OF assms(4), of length] by simp
  have "call_close (free_fd fds) (u\<lparr>os_script := x, os_open := free_fd fds # fds\<rparr>) = u\<lparr>os_script := x\<rparr>"
    if "os_open u = fds" for fds u x
    using that free_fd_new [of fds] by (simp add: call_close_def)
  then show ?thesis
    using assms(1-3) w free_fd_new [of "os_open s"]
    by (simp add: get_cmd_results_def prints_def next_cons sprintf_to_def system_ex_well fd_ok call_recv_def
        memcpy_at_def Let_def)
qed

lemma command_reply:
  assumes "os_script s = replies t @ rest" and "length (verb @ arg @ crlf) < n" and "n \<le> 512" and "0 < length t"
    and "length t < 512" and "scan_d (cstr t) = Some (v, r)"
  shows "command n sock verb arg s = Some (v, logged (Sent sock (verb @ arg @ crlf)) (s\<lparr>os_script := rest\<rparr>))"
  using assms sendcmd_reply [of s t rest "verb @ arg @ crlf" v r sock] by (simp add: command_def sprintf_to_def)

lemma login_replied:
  assumes "os_script s = replies t @ rest" and "length user < 121" and "0 < length t" and "length t < 512"
    and "scan_d (cstr t) = Some (230, r)"
  shows "login_server sock user pwd s = Some (0, logged (Sent sock (''USER '' @ user @ crlf)) (s\<lparr>os_script := rest\<rparr>))"
  using command_reply [OF assms(1) _ _ assms(3-5), of "''USER ''" user 128 sock] assms(2)
  by (simp add: login_server_def crlf_def)

lemma server_connects:
  assumes "os_script s = connects @ says t # rest" and "length t < 512" and "scan_d (cstr t) = Some (220, r)"
  shows "connect_server host port s = Some (free_fd (os_open s),
     logged (Connected (free_fd (os_open s)) host (port mod 2 ^ 16))
       (s\<lparr>os_script := rest, os_open := free_fd (os_open s) # os_open s\<rparr>))"
  using assms free_fd_new [of "os_open s"]
  by (simp add: connect_server_def socket_connects recv_reply_def call_recv_def next_cons Let_def)

lemma list_one_piece:
  assumes "os_script s = says d # takes 0 # rest" and "0 < length d" and "length d \<le> length blk" and "length blk = 1024"
  shows "list_loop mem blk 0 s = Some (d @ drop (length d) blk, length d, s\<lparr>os_script := rest\<rparr>)"
  using assms
  by (subst list_loop.simps, subst list_loop.simps) (simp add: recv_cons memcpy_at_def)

lemma cstr_zeros: "nul \<notin> set t \<Longrightarrow> cstr (t @ replicate n nul) = t"
  by (cases n) (auto simp: cstr_def takeWhile_append)

lemma retr_one_piece:
  assumes "os_script s = says d # takes (length d) # takes 0 # rest" and "0 < length d" and "length d \<le> 512"
  shows "retr_loop h False (Some n) s =
    (True, Some (n + word_of_nat (length d)), logged (Wrote h d) (s\<lparr>os_script := rest\<rparr>))"
  using assms
  by (subst retr_loop.simps, subst retr_loop.simps) (simp add: recv_cons write_cons)

section \<open>One poll\<close>

definition after_login :: "answer list" where
 "after_login =
   replies ''227 ok (10,0,0,1,4,1)'' @ connects @ replies ''150 list'' @
   [says ''app-cjq_V1.2.3_220901_10.00.00.deb'', takes 0] @
   prints ''V1.1.5_220802_17.04.10'' @ [ok] @
   [ok] @ replies ''200 type'' @ replies ''227 ok (10,0,0,1,4,2)'' @ connects @ replies ''150 file'' @
   [says ''data'', takes 4, takes 0, says ''226 done''] @
   prints '''' @ prints '''' @ prints ''V1.2.3_220901_10.00.00''"
definition update_script :: "answer list" where
 "update_script = connects @ [says ''220 ready''] @ replies ''230 in'' @ after_login"
definition update_ftp :: rtu_ftp where
 "update_ftp = \<lparr>ftp_enable = 1, ftp_ip = ''10.0.0.1'', ftp_user = ''rtu'', ftp_password = ''rtu'', ftp_downdir = ''/app'',
   ftp_serverdir = ''ftp'', ftp_interval = 60\<rparr>"
definition update_os :: os where "update_os = \<lparr>os_script = update_script, os_open = [], os_log = []\<rparr>"

lemma fds: "free_fd [] = 0" "free_fd [0] = 1" "free_fd [1,0] = 2" "free_fd [2,1,0] = 3" by code_simp+

lemma numbers [simp]:
  "scan_d (cstr ''220 ready'') = Some (220, '' ready'')" "scan_d (cstr ''230 in'') = Some (230, '' in'')"
  "scan_d (cstr ''150 list'') = Some (150, '' list'')" "scan_d (cstr ''150 file'') = Some (150, '' file'')"
  "scan_d (cstr ''200 type'') = Some (200, '' type'')" "scan_d (cstr ''226 done'') = Some (226, '' done'')"
  "scan_pasv (cstr ''227 ok (10,0,0,1,4,1)'') = [10, 0, 0, 1, 4, 1]"
  "scan_pasv (cstr ''227 ok (10,0,0,1,4,2)'') = [10, 0, 0, 1, 4, 2]"
  by code_simp+

lemma connected:
  "ftp_connect ''10.0.0.1'' 21 ''rtu'' ''rtu'' update_os = Some (0,
    \<lparr>os_script = after_login, os_open = [0], os_log = [Connected 0 ''10.0.0.1'' 21, Sent 0 (''USER rtu'' @ crlf)]\<rparr>)"
  using server_connects [of update_os "''220 ready''" "replies ''230 in'' @ after_login"]
    login_replied [of _ "''230 in''" after_login "''rtu''"]
  by (simp add: ftp_connect_def update_os_def update_script_def fds logged_def)

definition after_list :: "answer list" where
 "after_list = prints ''V1.1.5_220802_17.04.10'' @ [ok] @
   [ok] @ replies ''200 type'' @ replies ''227 ok (10,0,0,1,4,2)'' @ connects @ replies ''150 file'' @
   [says ''data'', takes 4, takes 0, says ''226 done''] @
   prints '''' @ prints '''' @ prints ''V1.2.3_220901_10.00.00''"

definition zeros :: "nat \<Rightarrow> string" where "zeros n = replicate n nul"

lemma listed:
  assumes "os_script s = after_login" "os_open s = [0]"
  shows "\<exists>s'. ftp_list_deb_version zeros 0 ''ftp'' (zeros 100) s = Some (22, ''V1.2.3_220901_10.00.00'' @ zeros 78, s') \<and>
    os_script s' = after_list \<and> os_open s' = [0]"
proof -
  let ?l = "''app-cjq_V1.2.3_220901_10.00.00.deb''"
  have n: "nul \<notin> set ?l" "nul \<notin> set ''V1.2.3_220901_10.00.00''" by (simp_all add: nul_def)
  have d: "deb_exec 0 ?l = Some (0, 34)" by code_simp
  let ?r = "says ?l # takes 0 # after_list"
  obtain s1 where p: "ftp_pasv_connect 0 s = Some (1, s1)" "os_script s1 = replies ''150 list'' @ ?r" "os_open s1 = [1, 0]"
    using pasv_connects [of s "''227 ok (10,0,0,1,4,1)''" "replies ''150 list'' @ ?r" 10 0 0 1 4 1 "''10.0.0.1''" 0]
      assms by (simp add: after_login_def after_list_def fds show_num_def to_dec.simps digit_char_def in_int_def)
  obtain s2 where c: "command 1024 0 ''LIST '' ''ftp'' s1 = Some (150, s2)" "os_script s2 = ?r" "os_open s2 = [1, 0]"
    using sendcmd_reply [of s1 "''150 list''" ?r "''LIST ftp'' @ crlf" 150 _ 0] p
    by (simp add: command_def sprintf_to_def crlf_def)
  have l: "list_loop zeros (zeros 1024) 0 s2 = Some (?l @ zeros 990, 34, s2\<lparr>os_script := after_list\<rparr>)"
    using list_one_piece [OF c(2), of "zeros 1024" zeros] by (simp add: zeros_def)
  have t: "text_in (?l @ zeros 990) = Some ?l" "text_in (''V1.2.3_220901_10.00.00'' @ zeros 78) = Some ''V1.2.3_220901_10.00.00''"
    using cstr_zeros [OF n(1)] cstr_zeros [OF n(2)] by (simp_all add: text_in_def zeros_def)
  have z: "(replicate 78 nul)[12 := nul] = replicate 78 nul" by (simp add: list_eq_iff_nth_eq nth_list_update)
  have w: "memcpy_at 0 ''V1.2.3_220901_10.00.00'' (zeros 100) = Some (''V1.2.3_220901_10.00.00'' @ zeros 78)"
    "wr (''V1.2.3_220901_10.00.00'' @ zeros 78) 34 nul = Some (''V1.2.3_220901_10.00.00'' @ zeros 78)"
    by (simp_all add: memcpy_at_def zeros_def wr_def list_update_append z del: append_Cons)
  have "ftp_list zeros 0 ''ftp'' s = Some (0, Some (?l @ zeros 990, 34), call_close 1 (s2\<lparr>os_script := after_list\<rparr>))"
    by (simp add: ftp_list_def p c l)
  then show ?thesis using c(3) by (simp add: ftp_list_deb_version_def t [simplified] d w [simplified] app_def del: deb_exec.simps)
qed

definition after_version :: "answer list" where
 "after_version = [ok] @ [ok] @ replies ''200 type'' @ replies ''227 ok (10,0,0,1,4,2)'' @ connects @ replies ''150 file'' @
   [says ''data'', takes 4, takes 0, says ''226 done''] @
   prints '''' @ prints '''' @ prints ''V1.2.3_220901_10.00.00''"

definition after_load :: "answer list" where
 "after_load = prints '''' @ prints '''' @ prints ''V1.2.3_220901_10.00.00''"

lemma versioned:
  assumes "os_script s = after_list" "os_open s = [0]"
  shows "\<exists>s'. get_current_app_version app 100 s = Some (22, ''V1.1.5_220802_17.04.10'' @ zeros 78, s') \<and>
    os_script s' = after_version \<and> os_open s' = [0]"
  using get_cmd_prints [of s "''V1.1.5_220802_17.04.10''" after_version "app @ '' --version''" 100] assms
  by (simp add: get_current_app_version_def sprintf_to_def app_def after_list_def after_version_def name_chars_def zeros_def)

definition load_os :: os where
  "load_os = \<lparr>os_script = tl after_version, os_open = [1, 0], os_log = []\<rparr>"

lemma loaded_file:
  assumes "os_script s = tl after_version" "os_open s = [1, 0]"
  shows "\<exists>s'. ftp_retrfile 0 ''ftp/app-cjq_V1.2.3_220901_10.00.00.tar'' ''/app/app-cjq_V1.2.3_220901_10.00.00.tar'' (Some 0) False s
      = Some (0, Some 4, s') \<and> os_script s' = after_load \<and> os_open s' = [1, 0]"
proof -
  let ?f = "''app-cjq_V1.2.3_220901_10.00.00.tar''"
  let ?r1 = "replies ''227 ok (10,0,0,1,4,2)'' @ connects @ replies ''150 file'' @ [says ''data'', takes 4, takes 0, says ''226 done''] @ after_load"
  let ?r2 = "replies ''150 file'' @ [says ''data'', takes 4, takes 0, says ''226 done''] @ after_load"
  let ?r3 = "[says ''data'', takes 4, takes 0, says ''226 done''] @ after_load"
  obtain s1 where s1: "call_fd s = (2, s1)" "os_script s1 = replies ''200 type'' @ ?r1" "os_open s1 = [2, 1, 0]"
    using assms fd_ok [of s] by (simp add: after_version_def after_load_def fds)
  define s1' where "s1' = logged (Opened (''/app/'' @ ?f)) s1"
  obtain s2 where s2: "ftp_type 0 CHR ''I'' s1' = Some (0, s2)" "os_script s2 = ?r1" "os_open s2 = [2, 1, 0]"
    using command_reply [of s1' "''200 type''" ?r1 "''TYPE ''" "[CHR ''I'']" 128 200 _ 0] s1
    by (simp add: ftp_type_def s1'_def crlf_def)
  obtain s3 where s3: "ftp_pasv_connect 0 s2 = Some (3, s3)" "os_script s3 = ?r2" "os_open s3 = [3, 2, 1, 0]"
    using pasv_connects [of s2 "''227 ok (10,0,0,1,4,2)''" ?r2 10 0 0 1 4 2 "''10.0.0.1''" 0] s2
    by (simp add: fds show_num_def to_dec.simps digit_char_def in_int_def)
  obtain s4 where s4: "command 512 0 ''RETR '' (''ftp/'' @ ?f) s3 = Some (150, s4)" "os_script s4 = ?r3" "os_open s4 = [3, 2, 1, 0]"
    using command_reply [of s3 "''150 file''" ?r3 "''RETR ''" "''ftp/'' @ ?f" 512 150 _ 0] s3
    by (simp add: crlf_def)
  obtain s5 where s5: "retr_loop 2 False (Some 0) s4 = (True, Some 4, s5)" "os_script s5 = says ''226 done'' # after_load" "os_open s5 = [3, 2, 1, 0]"
    using retr_one_piece [of s4 "''data''" "says ''226 done'' # after_load" 2 0] s4 by (simp add: numeral_eq_Suc)
  show ?thesis
    using s1 s2 s3 s4 s5 
    by (simp add: ftp_retrfile_def transfer_end_def s1'_def recv_reply_def call_recv_def next_cons Let_def)
qed

lemma loaded:
  assumes "os_script s = tl after_version" "os_open s = [1, 0]"
  shows "\<exists>s'. download_deb 0 ''/app'' ''ftp'' ''app-cjq_V1.2.3_220901_10.00.00.tar'' s = Some (0, s') \<and>
    os_script s' = after_load \<and> os_open s' = [1, 0]"
  using loaded_file [OF assms] by (auto simp: download_deb_def sprintf_to_def)

lemma stopped:
  assumes "os_script s = prints '''' @ rest"
  shows "\<exists>s'. shutdown_app app s = Some (0, s') \<and> os_script s' = rest \<and> os_open s' = os_open s"
  using get_cmd_prints [of s "[]" rest "find_cmd app" 100] assms
  by (simp add: shutdown_app_def sprintf_to_def find_cmd_def app_def name_chars_def cstr_def nul_def)

lemma installed:
  assumes "os_script s = prints '''' @ prints ''V1.2.3_220901_10.00.00''"
  shows "\<exists>s'. install_app ''/app'' ''app-cjq_V1.2.3_220901_10.00.00.tar'' ''V1.2.3_220901_10.00.00'' s = Some (0, s') \<and>
    Ran ''dpkg -i /app/app-cjq_V1.2.3_220901_10.00.00.tar > /tmp/-AbCdEf 2>&1'' \<in> set (drop (length (os_log s)) (os_log s'))"
  using get_cmd_prints [of s "[]" "prints ''V1.2.3_220901_10.00.00''" "''dpkg -i /app/app-cjq_V1.2.3_220901_10.00.00.tar''" 1024]
    get_cmd_prints [of _ "''V1.2.3_220901_10.00.00''" "[]" "app @ '' --version''" 1024] assms
    cstr_zeros [of "''V1.2.3_220901_10.00.00''" 1002]
  by (simp add: install_app_def sprintf_to_def app_def name_chars_def is_version_bigger_def nul_def Let_def)

lemma update_run: "\<exists>s'. updata_poll zeros (zeros 100) update_ftp 5 60 update_os = Some (0, 0, s') \<and>
    Ran ''dpkg -i /app/app-cjq_V1.2.3_220901_10.00.00.tar > /tmp/-AbCdEf 2>&1'' \<in> set (os_log s')"
proof -
  let ?V = "''V1.2.3_220901_10.00.00''" and ?v = "''V1.1.5_220802_17.04.10''"
  obtain s1 where s1: "ftp_connect ''10.0.0.1'' 21 ''rtu'' ''rtu'' update_os = Some (0, s1)" "os_script s1 = after_login" "os_open s1 = [0]"
    using connected by simp
  obtain s2 where s2: "ftp_list_deb_version zeros 0 ''ftp'' (zeros 100) s1 = Some (22, ?V @ zeros 78, s2)"
    "os_script s2 = after_list" "os_open s2 = [0]" using listed s1 by blast
  obtain s3 where s3: "get_current_app_version app 100 s2 = Some (22, ?v @ zeros 78, s3)"
    "os_script s3 = after_version" "os_open s3 = [0]" using versioned s2 by blast
  have z: "nul \<notin> set ?V" "nul \<notin> set ?v" by (simp_all add: nul_def)
  have bigger: "is_version_bigger ?v ?V = 1"
    by (simp add: is_version_bigger_def version_fields_def scan_c_def scan_d_def is_digit_def is_space_def dec_num_def
      version_h_def version_l_def)
  obtain s4 where s4: "daemon_mk_all_dir ''/app'' s3 = Some (0, s4)" "os_script s4 = tl after_version" "os_open s4 = [1, 0]"
    using fd_ok [of s3 "tl after_version"] s3
    by (simp add: daemon_mk_all_dir_def daemon_mk_all_loop.simps str_find.simps daemon_mk_dir_def after_version_def fds)
  obtain s5 where s5: "download_deb 0 ''/app'' ''ftp'' ''app-cjq_V1.2.3_220901_10.00.00.tar'' s4 = Some (0, s5)"
    "os_script s5 = after_load" using loaded s4 by blast
  obtain s6 where s6: "shutdown_app app s5 = Some (0, s6)" "os_script s6 = prints '''' @ prints ?V"
    using stopped [of s5 "prints '''' @ prints ?V"] s5 by (auto simp: after_load_def)
  obtain s7 where s7: "install_app ''/app'' ''app-cjq_V1.2.3_220901_10.00.00.tar'' ?V s6 = Some (0, s7)"
    "Ran ''dpkg -i /app/app-cjq_V1.2.3_220901_10.00.00.tar > /tmp/-AbCdEf 2>&1'' \<in> set (drop (length (os_log s6)) (os_log s7))"
    using installed [OF s6(2)] by blast
  have i: "updata_install update_ftp 0 ?V s3 = Some (Some 0, s7)"
    using s4 s5 s6 s7 by (simp add: updata_install_def sprintf_to_def update_ftp_def app_def)
  have t: "text_in (?V @ zeros 78) = Some ?V" "cstr (?v @ zeros 78) = ?v"
    using cstr_zeros [OF z(1), of 78] cstr_zeros [OF z(2), of 78] by (simp_all add: text_in_def zeros_def)
  have g: "ftp_get_setting update_ftp = 0" by (simp add: ftp_get_setting_def update_ftp_def cstr_def nul_def)
  show ?thesis using s1 s2 s3 i t g bigger in_set_dropD [OF s7(2)]
    by (simp add: updata_poll_def ftp_connect_server_def) (simp add: update_ftp_def)
qed
end
