(* ===== verification/Station_Laws.thy ===== *)
theory Station_Laws
  imports Sensor_Laws Thread_Up
begin

text \<open>
  The station as a whole. Its threads share one state: \<open>station_step\<close> is one step of any of them (a
  sweep over the sensors, a pulse of the rain gauge, a turn of the data thread, a command of the
  centre, a turn over the reports), \<open>station_reach\<close> the states they lead to from a
  start. The four tables stay sound throughout, as long as no command clears the history.
\<close>

section \<open>Commands of the centre\<close>

lemma sound_set_items:
  "set_items datain n offset ids d = Some (d', ids', ok) \<Longrightarrow> sound t d \<Longrightarrow> sound t d'"
proof (induction datain n offset ids d rule: set_items.induct)
  case (1 datain n offset ids d)
  show ?case
  proof (cases "0 \<le> offset \<and> offset < n")
    case True
    then obtain b d1 l where b: "rd datain (nat offset) = Some b" "length ids < 200"
      "item_fromreport d (at_id d (ucast b)) (drop (nat offset) datain) = Some (d1, l)"
      using 1(2) by (subst (asm) set_items.simps) (auto split: option.splits if_splits)
    have s: "sound t d1" using sound_fromreport [OF b(3) 1(3)] .
    show ?thesis
    proof (cases "l > 0")
      case l: True
      then have "set_items datain n (offset + 2 + l) (ids @ [b]) d1 = Some (d', ids', ok)"
        using 1(2) True b by (subst (asm) set_items.simps) simp
      then show ?thesis using 1(1) [OF True b(1,2,3) refl l] s by blast
    next
      case False
      then have "d' = d1" using 1(2) True b by (subst (asm) set_items.simps) simp
      then show ?thesis using s by simp
    qed
  next
    case False
    then have "d' = d" using 1(2) by (subst (asm) set_items.simps) auto
    then show ?thesis using 1(3) by simp
  qed
qed

lemma header_wf: "answer_header e n c = Some (hd1, c') \<Longrightarrow> app_wf (ce_app c) \<Longrightarrow> app_wf (ce_app c')"
  by (auto simp: answer_header_def split: bind_splits)

lemma front3_wf: "put_front3 e n c = Some (c', k) \<Longrightarrow> app_wf (ce_app c) \<Longrightarrow> app_wf (ce_app c')"
  using header_wf by (fastforce simp: put_front3_def Let_def split: bind_splits)

lemma put_body_wf: "put_body e look its c = Some (c', k) \<Longrightarrow> app_wf (ce_app c) \<Longrightarrow> app_wf (ce_app c')"
  using header_wf by (fastforce simp: put_body_def Let_def split: bind_splits)

lemma put_items_wf: "put_items e tab ids c = Some (c', k) \<Longrightarrow> app_wf (ce_app c) \<Longrightarrow> app_wf (ce_app c')"
  using front3_wf by (fastforce simp: put_items_def Let_def split: bind_splits)

lemma set_param_wf:
  assumes "set_param e dt n c = Some (c', k)" "app_wf (ce_app c)"
  shows "app_wf (ce_app c')"
proof -
  from assms(1) obtain p ids ok where p: "set_items dt n 8 [] (param (ce_app c)) = Some (p, ids, ok)"
    by (auto simp: set_param_def split: bind_splits)
  then have w: "app_wf (ce_app (c\<lparr>ce_app := (ce_app c)\<lparr>param := p\<rparr>\<rparr>))"
    using assms(2) sound_set_items [OF p] by (simp add: app_wf_sound)
  let ?c = "c\<lparr>ce_app := (ce_app c)\<lparr>param := p\<rparr>\<rparr>"
  show ?thesis
  proof (cases ok)
    case True
    with assms(1) p obtain c2 r where c2: "put_items e param ids ?c = Some (c2, k)"
      "c' = c2\<lparr>ce_app := (ce_app c2)\<lparr>app_rtu := r\<rparr>\<rparr>"
      by (auto simp: set_param_def Let_def split: bind_splits)
    then show ?thesis using put_items_wf [OF c2(1) w] by simp
  next
    case False
    with assms(1) p have "c' = ?c" by (simp add: set_param_def Let_def)
    then show ?thesis using w by simp
  qed
qed

lemma set_runtime_wf:
  assumes "set_runtime e dt n c = Some (c', k)" "app_wf (ce_app c)"
  shows "app_wf (ce_app c')"
proof -
  from assms(1) obtain p ids ok where p: "set_items dt n 8 [] (runtime (ce_app c)) = Some (p, ids, ok)"
    by (auto simp: set_runtime_def split: bind_splits)
  then have w: "app_wf (ce_app (c\<lparr>ce_app := (ce_app c)\<lparr>runtime := p\<rparr>\<rparr>))"
    using assms(2) sound_set_items [OF p] by (simp add: app_wf_sound)
  let ?c = "c\<lparr>ce_app := (ce_app c)\<lparr>runtime := p\<rparr>\<rparr>"
  show ?thesis
  proof (cases ok)
    case True
    with assms(1) p obtain c2 r where c2: "put_items e runtime ids ?c = Some (c2, k)"
      "c' = c2\<lparr>ce_app := (ce_app c2)\<lparr>app_rtu := r\<rparr>\<rparr>"
      by (auto simp: set_runtime_def Let_def split: bind_splits)
    then show ?thesis using put_items_wf [OF c2(1) w] by simp
  next
    case False
    with assms(1) p have "c' = ?c" by (simp add: set_runtime_def Let_def)
    then show ?thesis using w by simp
  qed
qed

lemma factory_wf:
  assumes "reset_to_factory e dt n c = Some (c', k)" "app_wf (ce_app c)"
  shows "app_wf (ce_app c')"
proof -
  from assms(1) obtain s r where f: "data_set_factory (ce_stack e) (ce_default e) (ce_app c) = Some (s, r)"
    and a: "put_front3 e (ce_now e) (c\<lparr>ce_app := s\<rparr>) = Some (c', k)"
    by (auto simp: reset_to_factory_def split: bind_splits)
  from f obtain p r r3 where x: "param_recovery (ce_stack e) (ce_default e) (param (ce_app c)) = Some p"
    "runtime_recovery (ce_default e) (runtime (ce_app c)) = Some r"
    "s = (ce_app c)\<lparr>param := p, runtime := r, app_rtu := r3, app_file := r3, yanshichongqi := True\<rparr>"
    by (auto simp: data_set_factory_def Let_def split: bind_splits)
  have "app_wf s"
    using assms(2) sound_param_recovery [OF x(1)] sound_runtime_recovery [OF x(2)] x(3) by (simp add: app_wf_sound)
  then show ?thesis using front3_wf [OF a] by simp
qed

lemma password_wf:
  assumes "change_password e dt n c = Some (c', k)" "app_wf (ce_app c)"
  shows "app_wf (ce_app c')"
proof (cases "ce_app c' = ce_app c")
  case False
  with assms(1) obtain hd1 c1 p v r where
    "answer_header e (ce_now e) c = Some (hd1, c1)"
    "modify_item (param (ce_app c1)) (at_id (param (ce_app c1)) 0x03) (set_val v) = Some p"
    "ce_app c' = (ce_app c1)\<lparr>param := p, app_rtu := r\<rparr>"
    by (auto simp: change_password_def Let_def split: bind_splits if_splits)
  then show ?thesis using header_wf [of e "ce_now e" c hd1 c1] assms(2) sound_modify keeps_set_val
    by (auto simp: app_wf_sound)
qed (use assms in simp)

text \<open>Clearing the history empties the tables, so it is left out.\<close>

lemma center_command_wf:
  assumes "center_command e cm dt n c = Some (Some (c', k))" "cm \<noteq> 0x47" "app_wf (ce_app c)"
  shows "app_wf (ce_app c')"
proof -
  have z: "get_zhiding_ids e dt n c = Some (c', k) \<Longrightarrow> app_wf (ce_app c')"
    using put_body_wf assms(3)
    by (auto simp: get_zhiding_ids_def get_zhidingids_shishi_def Let_def split: bind_splits if_splits)
  have r: "get_runtime e dt n c = Some (c', k) \<Longrightarrow> app_wf (ce_app c')"
    using front3_wf [OF _ assms(3)] by (auto simp: get_runtime_def split: bind_splits)
  have v: "get_version e c = Some (c', k) \<Longrightarrow> app_wf (ce_app c')"
    using front3_wf [OF _ assms(3)] by (auto simp: get_version_def Let_def split: bind_splits)
  have w: "get_state_warn_info e c = Some (c', k) \<Longrightarrow> app_wf (ce_app c')"
    using front3_wf [OF _ assms(3)] by (auto simp: get_state_warn_info_def split: bind_splits)
  have t: "set_time e dt n c = Some (c', k) \<Longrightarrow> app_wf (ce_app c')"
    using front3_wf assms(3) by (auto simp: set_time_def Let_def split: bind_splits if_splits)
  show ?thesis
    using assms z r v w t
    by (auto simp: center_command_def get_shishi_all_def center_rengong_def get_param_def center_get_time_def
        get_shishi_motor_def center_nothing_def get_shiduan_def get_shiduan_all_def split: if_splits bind_splits
        intro: put_body_wf put_items_wf front3_wf set_param_wf set_runtime_wf factory_wf password_wf)
qed

section \<open>Reports\<close>

text \<open>Reporting leaves the four tables as they are.\<close>

definition same_tables :: "App \<Rightarrow> App \<Rightarrow> bool" where
  "same_tables s s' \<longleftrightarrow> devdata s' = devdata s \<and> param s' = param s \<and> runtime s' = runtime s \<and> app_A s' = app_A s"

lemma same_tables_refl [simp]: "same_tables s s"
  by (simp add: same_tables_def)

lemma same_tables_trans: "same_tables a b \<Longrightarrow> same_tables b c \<Longrightarrow> same_tables a c"
  by (simp add: same_tables_def)

lemma same_tables_wf: "same_tables s s' \<Longrightarrow> app_wf s \<Longrightarrow> app_wf s'"
  by (simp add: same_tables_def app_wf_def)

lemma same_tables_other [simp]:
  "same_tables s (s'\<lparr>app_db := a\<rparr>) = same_tables s s'" "same_tables s (s'\<lparr>app_rtu := b\<rparr>) = same_tables s s'"
  "same_tables s (s'\<lparr>app_head := x\<rparr>) = same_tables s s'" "same_tables s (put_base_table tn tb s') = same_tables s s'"
  by (simp_all add: same_tables_def put_base_table_def)

lemma bu_update_same: "same_tables s (snd (bu_update h m s))"
  by (simp add: bu_update_def split: prod.splits)

lemma invalid_same: "same_tables s (fst (bu_invalid_one_record h m s))"
  using bu_update_same [of s h "m\<lparr>u_valid := 0\<rparr>"]
  by (cases "bu_update h (m\<lparr>u_valid := 0\<rparr>) s") (simp add: bu_invalid_one_record_def)

lemma report_fail_same: "same_tables s (fst (report_fail h n b s))"
  using bu_update_same by (simp add: report_fail_def bu_add_one_record_def Let_def)

lemma report_ok_same: "same_tables s (fst (report_ok h b s))"
  using invalid_same by (simp add: report_ok_def)

lemma bao_record_same: "bao_record h clk b s = Some (b', s') \<Longrightarrow> same_tables s s'"
  by (auto simp: bao_record_def devdata_db_save_def Let_def split: bind_splits if_splits prod.splits)

lemma poll_one_same: "bao_poll_one h clk b s = Some (b', s') \<Longrightarrow> same_tables s s'"
  by (auto simp: bao_poll_one_def Let_def split: bind_splits if_splits prod.splits dest!: bao_record_same)

lemma base_data_same: "base_report_data h n b s out = Some (out', k, s') \<Longrightarrow> same_tables s s'"
  by (auto simp: base_report_data_def Let_def split: bind_splits)

lemma raw_data_same: "raw_report_data h n s out = Some (out', k, s') \<Longrightarrow> same_tables s s'"
  by (auto simp: raw_report_data_def Let_def split: bind_splits)

lemma bu_data_same: "bu_report_data h n b s out = Some (out', k, b', s') \<Longrightarrow> same_tables s s'"
  using invalid_same
  by (auto simp: bu_report_data_def Let_def split: bind_splits if_splits prod.splits dest!: base_data_same)

lemma report_data_same: "report_data h n b s out = Some (out', k, b', s') \<Longrightarrow> same_tables s s'"
  by (auto simp: report_data_def dest!: base_data_same raw_data_same bu_data_same split: BaoKind.splits)

lemma next_serial_same: "same_tables s (fst (next_serial s sm))"
  by (simp add: next_serial_def Let_def)

lemma up_app_put [simp]: "up_app (put_app s u) = s" "up_app (u\<lparr>up_tcp := x\<rparr>) = up_app u"
  "up_app (u\<lparr>up_dev := y\<rparr>) = up_app u"
  by (simp_all add: up_app_def put_app_def)

lemma report_by_tcp_same:
  assumes "report_by_tcp e clk b buf u = Some (b', u')"
  shows "same_tables (up_app u) (up_app u')"
proof -
  let ?s1 = "if bo_kind b \<noteq> RawBao then next_serial (up_app u) (up_tcp u) else (up_app u, up_tcp u)"
  from assms obtain buf2 rs b2 s2 x r sm2 where
    d: "report_data (ce_host (ue_center e)) (clk 5) b (fst ?s1) buf = Some (buf2, rs, b2, s2)"
    and u': "up_app u' = (if r \<noteq> (0 :: int) then fst (report_fail (ce_host (ue_center e)) (clk 6) b2 s2)
        else fst (report_ok (ce_host (ue_center e)) b2 s2))"
    by (auto simp: report_by_tcp_def Let_def split: bind_splits prod.splits simp del: if_split)
  have "same_tables (up_app u) (fst ?s1)" by (simp add: next_serial_same)
  moreover have "same_tables (fst ?s1) s2" using report_data_same [OF d] .
  moreover have "same_tables s2 (up_app u')" using u' report_fail_same report_ok_same by simp
  ultimately show ?thesis using same_tables_trans by blast
qed

lemma bao_turn_same:
  assumes "bao_turn e ch clk b u = Some (b', u')"
  shows "same_tables (up_app u) (up_app u')"
proof -
  let ?h = "ce_host (ue_center e)"
  from assms obtain b1 s1 where p: "bao_poll_one ?h clk b (up_app u) = Some (b1, s1)"
    by (auto simp: bao_turn_def Let_def split: bind_splits)
  note s1 = poll_one_same [OF p]
  show ?thesis
  proof (cases "snd (report_check False b1)")
    case False
    with assms p s1 show ?thesis by (auto simp: bao_turn_def Let_def)
  next
    case True
    with assms p obtain buf rs b2 s2 where d: "report_data ?h (clk 4) b1 s1 (replicate 1000 0) = Some (buf, rs, b2, s2)"
      by (auto simp: bao_turn_def Let_def split: bind_splits)
    note s2 = same_tables_trans [OF s1 report_data_same [OF d]]
    show ?thesis
    proof (cases ch)
      case Serial_Channel
      with True assms p d have "up_app u' = fst (report_fail ?h (clk 6) b2 s2)" by (auto simp: bao_turn_def Let_def)
      then show ?thesis using same_tables_trans [OF s2 report_fail_same] by simp
    next
      case Tcp_Channel
      with True assms p d have "report_by_tcp e clk b2 buf (put_app s2 u) = Some (b', u')" by (auto simp: bao_turn_def Let_def)
      from report_by_tcp_same [OF this] show ?thesis using same_tables_trans [OF s2] by simp
    qed (use True assms p d in \<open>auto simp: bao_turn_def Let_def\<close>)
  qed
qed

lemma bao_poll_same: "bao_poll e ch u = Some u' \<Longrightarrow> same_tables (up_app u) (up_app u')"
proof -
  have "bao_poll_loop e ch i bs u = Some (bs', u1) \<Longrightarrow> same_tables (up_app u) (up_app u1)" for i bs bs' u1
  proof (induction bs arbitrary: i u bs' u1)
    case (Cons b bs)
    then obtain b1 v bs1 where v: "bao_turn e ch (ue_clk e i) b u = Some (b1, v)" "bao_poll_loop e ch (Suc i) bs v = Some (bs1, u1)"
      by (auto split: bind_splits)
    show ?case using same_tables_trans [OF bao_turn_same [OF v(1)] Cons.IH [OF v(2)]] .
  qed simp
  then show "bao_poll e ch u = Some u' \<Longrightarrow> same_tables (up_app u) (up_app u')"
    by (auto simp: bao_poll_def up_app_def split: bind_splits)
qed

lemma connect_same: "connect_tcp e ip c u = Some u' \<Longrightarrow> same_tables (up_app u) (up_app u')"
  by (auto simp: connect_tcp_def Let_def split: bind_splits)

lemma sendmode_same: "get_sendmode e u = Some (u', ch, r) \<Longrightarrow> same_tables (up_app u) (up_app u')"
proof -
  have t: "try_addresses e i k u = Some (u', ch, r) \<Longrightarrow> same_tables (up_app u) (up_app u')" for i k
    by (induction k arbitrary: i) (auto split: bind_splits option.splits dest: connect_same)
  show "get_sendmode e u = Some (u', ch, r) \<Longrightarrow> same_tables (up_app u) (up_app u')"
    using t by (auto simp: get_sendmode_def Let_def split: if_splits)
qed

lemma communication_same: "communication_state e u = Some u' \<Longrightarrow> up_app u' = up_app u"
  by (auto simp: communication_state_def Let_def split: bind_splits if_splits)

lemma zhudong_same:
  assumes "zhudong_report_process e u = Some u'"
  shows "same_tables (up_app u) (up_app u')"
proof -
  from assms obtain u1 u2 u3 ch r ch' where
    i: "(if up_inited u then Some u
           else do {
             (bs, s) \<leftarrow> bao_init (ce_baos (up_center u)) (up_app u);
             Some (u\<lparr>up_center := (up_center u)\<lparr>ce_baos := bs, ce_app := s\<rparr>, up_inited := True\<rparr>) }) = Some u1"
    and s: "communication_state e u1 = Some u2" "get_sendmode e u2 = Some (u3, ch, r)" "bao_poll e ch' u3 = Some u'"
    unfolding zhudong_report_process_def by (auto split: bind_splits simp del: if_split)
  have "same_tables (up_app u) (up_app u1)"
    using i by (cases "up_inited u") (auto simp: bao_init_def up_app_def Let_def split: bind_splits list.splits prod.splits)
  then show ?thesis
    using communication_same [OF s(1)] sendmode_same [OF s(2)] bao_poll_same [OF s(3)] same_tables_trans by metis
qed

section \<open>The steps of the station\<close>

lemma center_answer_wf:
  assumes "center_answer e net cm reply n c sm = Some (c', sm')" "cm \<noteq> 0x47" "app_wf (ce_app c)"
  shows "app_wf (ce_app c')"
proof (cases "center_command e cm (ud_in (ud_p (sm_packet sm))) n c")
  case (Some r)
  with assms(1) obtain k where "r = Some (c', k)" by (auto simp: center_answer_def split: bind_splits)
  with Some show ?thesis using center_command_wf assms(2,3) by blast
qed (use assms in \<open>simp add: center_answer_def\<close>)

lemma center_process_wf:
  assumes "center_process e net c sm = Some (c', sm', r)" "ud_cmd (ud_p (sm_packet sm)) \<noteq> 0x47" "app_wf (ce_app c)"
  shows "app_wf (ce_app c')"
proof (cases "c' = c")
  case False
  let ?cm = "int (unat (ud_cmd (ud_p (sm_packet sm))))"
  have cm: "?cm \<noteq> 0x47" using assms(2) by (simp add: word_eq_iff_unsigned [where ?'a = int])
  define sp where "sp = (if ?cm \<noteq> 0x2F \<and> ?cm \<ge> 0x37 then next_serial (ce_app c) sm else (ce_app c, sm))"
  have w: "app_wf (ce_app (c\<lparr>ce_app := fst sp\<rparr>))"
    using same_tables_wf [OF next_serial_same assms(3), of sm] assms(3) by (simp add: sp_def)
  obtain n c2 sm2 where a: "center_answer e net ?cm ?cm n (c\<lparr>ce_app := fst sp\<rparr>) (snd sp) = Some (c2, sm2)"
    and b: "c' = c2 \<or> (\<exists>reply n sm3. center_answer e net 0x49 reply n c2 sm2 = Some (c', sm3))"
    using assms(1) False unfolding center_process_def Let_def sp_def [symmetric]
    by (cases sp) (auto split: bind_splits if_splits, blast+)
  have "app_wf (ce_app c2)" using center_answer_wf [OF a cm w] .
  then show ?thesis using b center_answer_wf [of e net "0x49"] by auto
qed (use assms in simp)

lemma run_process_app: "run_process w c n = Some n' \<Longrightarrow> dn_app n' = dn_app n"
  by (auto simp: run_process_def split: bind_splits)

lemma down_sensor_wf:
  assumes "down_sensor h e item n = Some n'" "app_wf (dn_app n)"
  shows "app_wf (dn_app n')"
proof (cases "dfsm_device_find (dn_devs n) (rs_port item)")
  case (Some f)
  with assms(1) obtain n0 n1 a b v r clr wt ck x where
    s: "run_process wt ck n0 = Some n1" "dn_app n0 = dn_app n" "a = (dn_app n1)\<lparr>app_head := x\<rparr>"
      "down_store h (se_time e) (rs_factorType item) v r clr a = Some b"
      "run_process (se_wrote e) (se_end e) (n1\<lparr>dn_app := b\<rparr>) = Some n'"
  proof -
    from assms(1) Some obtain f2 v ret clr n1 b where
      *: "run_process (se_wrote e) (se_after e)
          (n\<lparr>dn_devs := (dn_devs n)(rs_port item \<mapsto> f2), dn_pdd := Some (rs_port item)\<rparr>) = Some n1"
        "down_store h (se_time e) (rs_factorType item) v (ret > (0 :: int)) clr
          (if ret > 0 then (dn_app n1)\<lparr>app_head := set_observetime_time (app_head (dn_app n1)) (se_time e)\<rparr> else dn_app n1) = Some b"
        "run_process (se_wrote e) (se_end e) (n1\<lparr>dn_app := b\<rparr>) = Some n'"
      by (auto simp: down_sensor_def Let_def split: bind_splits simp del: if_split)
    have "(if ret > 0 then (dn_app n1)\<lparr>app_head := set_observetime_time (app_head (dn_app n1)) (se_time e)\<rparr> else dn_app n1)
        = (dn_app n1)\<lparr>app_head := if ret > 0 then set_observetime_time (app_head (dn_app n1)) (se_time e) else app_head (dn_app n1)\<rparr>"
      by simp
    with * show ?thesis by (intro that [OF *(1) _ refl _ *(3)]) simp_all
  qed
  have "app_wf a" using s(3) run_process_app [OF s(1)] s(2) assms(2) by simp
  then have "app_wf b" using down_store_wf s(4) by blast
  then show ?thesis using run_process_app [OF s(5)] by simp
qed (use assms in \<open>auto simp: down_sensor_def\<close>)

lemma down_turn_wf:
  assumes "thread_down_turn h es w c now n = Some n'" "app_wf (dn_app n)"
  shows "app_wf (dn_app n')"
proof -
  have sw: "down_sweep h es i items n = Some n' \<Longrightarrow> app_wf (dn_app n) \<Longrightarrow> app_wf (dn_app n')" for i items n n'
  proof (induction items arbitrary: i n)
    case Nil
    then show ?case using run_process_app by simp
  next
    case (Cons x xs)
    then obtain n1 where "down_sensor h (es i) x n = Some n1" "down_sweep h es (Suc i) xs n1 = Some n'"
      by (auto split: bind_splits)
    then show ?case using Cons down_sensor_wf by blast
  qed
  from assms(1) obtain l due n1 where
    "is_down True now (dn_app n) (dn_last n) = Some (l, due)" and n1: "(if due then down_sweep h es 0 (rtu_rs485 (app_rtu (dn_app (n\<lparr>dn_last := l\<rparr>)))) (n\<lparr>dn_last := l\<rparr>) else Some (n\<lparr>dn_last := l\<rparr>)) = Some n1"
    and n': "(if dn_pdd n1 \<noteq> None then run_process w c n1 else Some n1) = Some n'"
    unfolding thread_down_turn_def Let_def by (auto split: bind_splits simp del: if_split simp flip: not_None_eq)
  have "app_wf (dn_app n1)" using n1 sw [of 0 _ "n\<lparr>dn_last := l\<rparr>" n1] assms(2) by (cases due) auto
  then show ?thesis using n' run_process_app by (cases "dn_pdd n1 = None") auto
qed

text \<open>One step of one thread.\<close>

inductive station_step :: "Host \<Rightarrow> App \<Rightarrow> App \<Rightarrow> bool" for h where
  Start: "startup_recovery h stack loaded t s = Some s' \<Longrightarrow> station_step h s s'"
| Sample: "thread_down_turn h es w c now n = Some n' \<Longrightarrow> station_step h (dn_app n) (dn_app n')"
| Pulse: "di_get h t ev old s = Some (s', e) \<Longrightarrow> station_step h s s'"
| Tick: "data_process_turn h t upd prev s = Some (s', r) \<Longrightarrow> station_step h s s'"
| Command_Tcp: "center_process e (net :: tcp_client Net) c sm = Some (c', sm', r) \<Longrightarrow> ce_host e = h \<Longrightarrow>
    ud_cmd (ud_p (sm_packet sm)) \<noteq> 0x47 \<Longrightarrow> station_step h (ce_app c) (ce_app c')"
| Command_Serial: "center_process e (port :: SerialPort Net) c sm = Some (c', sm', r) \<Longrightarrow> ce_host e = h \<Longrightarrow>
    ud_cmd (ud_p (sm_packet sm)) \<noteq> 0x47 \<Longrightarrow> station_step h (ce_app c) (ce_app c')"
| Report: "zhudong_report_process ue u = Some u' \<Longrightarrow> ce_host (ue_center ue) = h \<Longrightarrow>
    station_step h (up_app u) (up_app u')"

inductive station_reach :: "Host \<Rightarrow> App \<Rightarrow> bool" for h where
  Init: "start_tables s \<Longrightarrow> station_reach h s"
| Next: "station_reach h s \<Longrightarrow> station_step h s s' \<Longrightarrow> station_reach h s'"

inductive_cases station_step_elim: "station_step h s s'"

lemma step_wf: "station_step h s s' \<Longrightarrow> app_wf s \<Longrightarrow> app_wf s'"
proof (induction rule: station_step.induct)
  case (Report ue u u')
  then show ?case using same_tables_wf zhudong_same by blast
qed (blast intro: startup_wf down_turn_wf di_get_wf data_turn_wf center_process_wf)+

lemma reach_wf: "station_reach h s \<Longrightarrow> app_wf s"
  by (induction rule: station_reach.induct) (blast intro: start_wf step_wf)+

end
