(* ===== verification/Programs.thy ===== *)
theory Programs
  imports Updata_Laws Station_Laws
begin

text \<open>
  The two programs from the outside: \<^verbatim>\<open>app/app.cpp\<close>, which recovers the state and starts the
  threads, and \<^verbatim>\<open>daemon/daemon.cpp\<close> (the step into the background, the arguments, the endless loop
  of polls) with the time stamp of \<^verbatim>\<open>daemon/lib.cpp\<close>; what every run of the loop logs.
\<close>

section \<open>The station\<close>

text \<open>\<open>argv\<close> holds the arguments behind the name of the program. The result is what is printed, the
  result of the program when it ends at once, and the state its threads start from. The four threads are the
  turns of \<open>station_step\<close>; starting them changes nothing else.\<close>

definition app_main :: "string list \<Rightarrow> Host \<Rightarrow> bytes \<Rightarrow> rtu_setting \<Rightarrow> int \<Rightarrow> App \<Rightarrow> (string \<times> int option \<times> App) option" where
  "app_main argv h stack loaded t s =
     (case argv of
        a # as \<Rightarrow> Some (if a = ''--version'' then VERSION_BUILD_TIME @ [CHR 0x0A] else [], Some 0, s)
      | [] \<Rightarrow> map_option (\<lambda>s. ([], None, s)) (startup_recovery h stack loaded t s))"

lemma app_main_starts: "app_main argv h stack loaded t s = Some (out, None, s') \<Longrightarrow> station_step h s s'"
  by (auto simp: app_main_def split: list.splits intro: Start)

section \<open>Into the background\<close>

text \<open>\<^verbatim>\<open>daemon\<close>: the parent leaves with \<^verbatim>\<open>exit(0)\<close>; the child leaves its session, its
  directory and its standard streams.\<close>

datatype outcome = Exits int | Returns int

definition call_dup2 :: "int \<Rightarrow> int \<Rightarrow> os \<Rightarrow> os" where
  "call_dup2 fd n s =
     (let (r, s) = call_plain s
      in if r < 0 \<or> n \<in> set (os_open s) then s else s\<lparr>os_open := n # os_open s\<rparr>)"

definition null_streams :: "os \<Rightarrow> os" where
  "null_streams s =
     (let (fd, s) = call_fd s
      in if fd = -1 then s
         else (let s = call_dup2 fd 2 (call_dup2 fd 1 (call_dup2 fd 0 s))
               in if fd > 2 then call_close fd s else s))"

definition daemon_start :: "int \<Rightarrow> int \<Rightarrow> os \<Rightarrow> outcome \<times> os" where
  "daemon_start nochdir noclose s =
     (let (pid, s) = call_plain s
      in if pid < 0 then (Returns (-1), s)
         else if pid \<noteq> 0 then (Exits 0, s)
         else (let (pid, s) = call_plain s
               in if pid < -1 then (Returns (-1), s)
                  else (let s = (if nochdir = 0 then snd (call_plain s) else s);
                            s = (if noclose = 0 then null_streams s else s)
                        in (Returns 0, snd (call_plain s)))))"

text \<open>The test for a failed \<^verbatim>\<open>setsid\<close> asks for less than \<open>-1\<close>: the child never reports one.\<close>

lemma setsid_unnoticed:
  assumes "call_plain s = (0, s1)"
  shows "fst (daemon_start nochdir noclose s) = Returns 0"
proof -
  have "\<not> fst (call_plain s1) < -1" by (auto simp: call_plain_def Let_def split: prod.splits)
  with assms show ?thesis by (auto simp: daemon_start_def Let_def split: prod.splits)
qed

text \<open>\<^verbatim>\<open>get_cur_time\<close> of the daemon, the same text as that of the program.\<close>

definition daemon_get_cur_time :: "int \<Rightarrow> int \<Rightarrow> int \<Rightarrow> string option" where
  "daemon_get_cur_time tz sec usec = do {
     s \<leftarrow> get_time tz sec;
     Some (''['' @ s @ ''.'' @ pad3 (usec sdiv 1000) @ '']'') }"

section \<open>The loop\<close>

text \<open>A turn is five seconds of sleep and a poll, with the settings its file has then and the memory that
  is not set. The loop has no end: a run is the list of its turns so far. Of what is printed only the version
  is kept.\<close>

record DaemonTurn =
  dn_ftp :: rtu_ftp
  dn_mem :: "nat \<Rightarrow> string"
  dn_junk :: string

definition DAEMON_VERSION :: string where
  "DAEMON_VERSION = ''V1.1.05_220802_17.04.10''"

definition poll_turn :: "DaemonTurn \<Rightarrow> int \<Rightarrow> os \<Rightarrow> (int \<times> int \<times> os) option" where
  "poll_turn d t s = updata_poll (dn_mem d) (dn_junk d) (dn_ftp d) 5 t s"

fun daemon_loop :: "DaemonTurn list \<Rightarrow> int \<Rightarrow> os \<Rightarrow> (int \<times> os) option" where
  "daemon_loop [] t s = Some (t, s)"
| "daemon_loop (d # ds) t s = do {
     (r, t, s) \<leftarrow> poll_turn d t s;
     daemon_loop ds t s }"

text \<open>The program, as above: what is printed, the result if it ends, and the system.\<close>

definition daemon_main :: "string list \<Rightarrow> DaemonTurn list \<Rightarrow> os \<Rightarrow> (string \<times> int option \<times> os) option" where
  "daemon_main argv ds s =
     (case argv of
        a # as \<Rightarrow> Some (if a = ''--version'' then DAEMON_VERSION @ [CHR 0x0A] else [], Some 0, s)
      | [] \<Rightarrow> map_option (\<lambda>(t, s). ([], None, s)) (daemon_loop ds 0 s))"

section \<open>What a run does\<close>

text \<open>Until the interval is over nothing is asked of the system.\<close>

lemma daemon_waits:
  assumes "\<forall>d\<in>set ds. ftp_get_setting (dn_ftp d) = 0 \<and> t + 5 * int (length ds) < ftp_interval (dn_ftp d)"
  shows "daemon_loop ds t s = Some (t + 5 * int (length ds), s)"
  using assms
proof (induction ds arbitrary: t)
  case Nil
  show ?case by simp
next
  case (Cons d ds)
  then have "poll_turn d t s = Some (0, t + 5, s)"
    by (auto simp: poll_turn_def updata_poll_def)
  moreover have "daemon_loop ds (t + 5) s = Some (t + 5 + 5 * int (length ds), s)"
    using Cons.prems by (intro Cons.IH) auto
  ultimately show ?case by simp
qed

lemma daemon_loop_append:
  "daemon_loop (ds @ es) t s = do { (t, s) \<leftarrow> daemon_loop ds t s; daemon_loop es t s }"
  by (induction ds arbitrary: t s) (auto split: Option.bind_splits)

text \<open>When it is over, how long it has been over does not matter.\<close>

lemma poll_when_due:
  assumes "ftp_interval ftp \<le> t + k" and "ftp_interval ftp \<le> u + k" and "ftp_enable ftp \<noteq> 0" and "ftp_get_setting ftp = 0"
  shows "updata_poll mem junk ftp k t s = updata_poll mem junk ftp k u s"
  using assms by (simp add: updata_poll_def)

lemma poll_grows:
  assumes "poll_turn d t s = Some (r, t', s')"
  shows "grows (\<lambda>e. True) s s'"
proof (cases "grows calm s s'")
  case True
  then show ?thesis by (rule grows_mono) simp
next
  case False
  have c: "grows (\<lambda>e. True) x y" if "grows calm x y" for x y using that by (rule grows_mono) simp
  from updata_poll_cases [OF assms [unfolded poll_turn_def] False] show ?thesis
    by (metis c grows_trans updata_install_grows)
qed

lemma loop_grows: "daemon_loop ds t s = Some (t', s') \<Longrightarrow> grows (\<lambda>e. True) s s'"
proof (induction ds arbitrary: t s)
  case Nil
  then show ?case by (simp add: grows_refl)
next
  case (Cons d ds)
  then obtain r t1 s1 where "poll_turn d t s = Some (r, t1, s1)" "daemon_loop ds t1 s1 = Some (t', s')"
    by (auto split: Option.bind_splits)
  then show ?case using Cons.IH grows_trans [OF poll_grows] by blast
qed

text \<open>Whatever a run logs, one of its polls has logged it.\<close>

lemma grows_logs: "grows (\<lambda>e. True) x y \<Longrightarrow> \<exists>es. os_log y = os_log x @ es"
  by (auto simp: grows_def)

lemma loop_event:
  assumes "daemon_loop ds t s = Some (t', s')" and "logs_at s s' n e"
  shows "\<exists>pre d post t1 s1 r t2 s2. ds = pre @ d # post \<and> daemon_loop pre t s = Some (t1, s1) \<and>
    poll_turn d t1 s1 = Some (r, t2, s2) \<and> daemon_loop post t2 s2 = Some (t', s') \<and> logs_at s1 s2 n e"
  using assms
proof (induction ds arbitrary: t s)
  case Nil
  then show ?case by (auto simp: logs_at_def)
next
  case (Cons d ds)
  then obtain r t1 s1 where p: "poll_turn d t s = Some (r, t1, s1)" and l: "daemon_loop ds t1 s1 = Some (t', s')"
    by (auto split: Option.bind_splits)
  show ?case
  proof (cases "logs_at s s1 n e")
    case True
    with p l show ?thesis by (intro exI [of _ "[]"] exI [of _ d] exI [of _ ds]) auto
  next
    case False
    with logs_at_cut [OF Cons.prems(2) poll_grows [OF p] loop_grows [OF l]] have "logs_at s1 s' n e" by blast
    from Cons.IH [OF l this] obtain pre d2 post t3 s3 r3 t4 s4 where
      "ds = pre @ d2 # post \<and> daemon_loop pre t1 s1 = Some (t3, s3) \<and> poll_turn d2 t3 s3 = Some (r3, t4, s4) \<and>
        daemon_loop post t4 s4 = Some (t', s') \<and> logs_at s3 s4 n e" by blast
    with p show ?thesis by (intro exI [of _ "d # pre"] exI [of _ d2] exI [of _ post]) auto
  qed
qed

end
