(* ===== verification/Json.thy ===== *)
theory Json
  imports Lib_Bytes Settings
begin

text \<open>
  The JSON library \<^verbatim>\<open>lib/configor/\<close> as the program uses it, for \<^verbatim>\<open>char\<close> texts: the UTF-8
  decoder and encoder, the reader of \<^verbatim>\<open>json.hpp\<close> with its comments, strings and numbers, the parser,
  the writer with its indentation, and the serialiser. \<open>None\<close> is an exception of the library (no caller catches
  one, so it ends the program), a failed assertion, an integer that overflows, or a comment without an
  end, in which the reader never stops. A number with a fraction or an exponent is kept as its digits; the
  \<^verbatim>\<open>double\<close> the library makes of them is left out.
\<close>

section \<open>Values\<close>

text \<open>\<open>json_float\<close>: the whole part, the digits behind the point, the exponent of ten.
  \<^verbatim>\<open>config_value\<close>: an object is a \<^verbatim>\<open>std::map\<close>: its entries in the order of the keys.\<close>

type_synonym json_float = "int \<times> nat list \<times> int"

datatype json =
    JNull | JBool bool | JInt int | JFloat bool json_float | JStr string
  | JArr "json list" | JObj "(string \<times> json) list"

datatype token =
    uninitialized | literal_true | literal_false | literal_null
  | value_string | value_integer | value_float
  | begin_array | end_array | begin_object | end_object
  | name_separator | value_separator | end_of_input

section \<open>UTF-8\<close>

definition utf8_encode :: "u32 \<Rightarrow> bytes option" where
  "utf8_encode c =
     (if c < 0x80 then Some [ucast c]
      else if c \<le> 0x7FF then Some [ucast (0xC0 OR drop_bit 6 c), ucast (0x80 OR (c AND 0x3F))]
      else if c \<le> 0xFFFF
      then Some [ucast (0xE0 OR drop_bit 12 c), ucast (0x80 OR (drop_bit 6 c AND 0x3F)), ucast (0x80 OR (c AND 0x3F))]
      else if c \<le> 0x10FFFF
      then Some [ucast (0xF0 OR drop_bit 18 c), ucast (0x80 OR (drop_bit 12 c AND 0x3F)),
        ucast (0x80 OR (drop_bit 6 c AND 0x3F)), ucast (0x80 OR (c AND 0x3F))]
      else None)"

text \<open>The table \<^verbatim>\<open>utf8_extra_bytes\<close> by its ranges, and the offsets.\<close>

definition utf8_extra :: "u8 \<Rightarrow> nat" where
  "utf8_extra b =
     (if b < 192 then 0 else if b < 224 then 1 else if b < 240 then 2 else if b < 248 then 3 else if b < 252 then 4 else 5)"

definition utf8_offsets :: "u32 list" where
  "utf8_offsets = [0x00000000, 0x00003080, 0x000E2080, 0x03C82080, 0xFA082080, 0x82082080]"

text \<open>Reading behind the end delivers 255 and makes the stream fail.\<close>

fun utf8_bytes :: "nat \<Rightarrow> u32 \<Rightarrow> bytes \<Rightarrow> u32 \<times> bool \<times> bytes" where
  "utf8_bytes 0 c [] = (c + 0xFF, False, [])"
| "utf8_bytes 0 c (b # bs) = (c + ucast b, True, bs)"
| "utf8_bytes (Suc n) c [] = (fst (utf8_bytes n (push_bit 6 (c + 0xFF)) []), False, [])"
| "utf8_bytes (Suc n) c (b # bs) = utf8_bytes n (push_bit 6 (c + ucast b)) bs"

text \<open>The code point, whether the stream is still good, and what is left; \<open>None\<close> at the end.\<close>

definition utf8_decode :: "bytes \<Rightarrow> (u32 \<times> bool \<times> bytes) option" where
  "utf8_decode bs =
     (case bs of
        [] \<Rightarrow> None
      | b # r \<Rightarrow>
          (let n = utf8_extra b;
               (c, good, rest) = utf8_bytes n 0 bs;
               c = c - utf8_offsets ! n
           in Some (c, good \<and> c \<le> 0x10FFFF, rest)))"

section \<open>The reader\<close>

text \<open>\<open>jr_cur\<close> is \<^verbatim>\<open>current_\<close>, which is 0 behind the end: \<open>None\<close> stands for that.\<close>

record reader =
  jr_cur :: "u32 option"
  jr_rest :: bytes
  jr_neg :: bool
  jr_int :: int
  jr_float :: json_float

definition read_next :: "reader \<Rightarrow> reader option" where
  "read_next r =
     (if jr_cur r = None then Some r
      else case utf8_decode (jr_rest r) of
        None \<Rightarrow> Some (r\<lparr>jr_cur := None\<rparr>)
      | Some (c, good, rest) \<Rightarrow> if good then Some (r\<lparr>jr_cur := Some c, jr_rest := rest\<rparr>) else None)"

definition reader_source :: "bytes \<Rightarrow> reader option" where
  "reader_source text = read_next \<lparr>jr_cur = Some 0, jr_rest = text, jr_neg = False, jr_int = 0, jr_float = (0, [], 0)\<rparr>"

definition jr_at :: "reader \<Rightarrow> char \<Rightarrow> bool" where
  "jr_at r c \<longleftrightarrow> jr_cur r = Some (of_char c)"

text \<open>\<^verbatim>\<open>is_digit\<close> takes a \<^verbatim>\<open>char\<close>: of a code point only the low byte counts.\<close>

definition code_digit :: "u32 option \<Rightarrow> bool" where
  "code_digit c \<longleftrightarrow> (case c of None \<Rightarrow> False | Some c \<Rightarrow> (0x30 :: u8) \<le> ucast c \<and> (ucast c :: u8) \<le> 0x39)"

definition digit_of :: "u32 option \<Rightarrow> int" where
  "digit_of c = (case c of None \<Rightarrow> -48 | Some c \<Rightarrow> sint c - 48)"

text \<open>What is still to read; \<^verbatim>\<open>read_next\<close> makes it less until the end.\<close>

definition jr_left :: "reader \<Rightarrow> nat" where
  "jr_left r = (case jr_cur r of None \<Rightarrow> 0 | Some c \<Rightarrow> Suc (length (jr_rest r)))"

lemma utf8_bytes_shorter: "utf8_bytes n c bs = (c', g, rest) \<Longrightarrow> bs \<noteq> [] \<Longrightarrow> length rest < length bs"
proof (induction n c bs arbitrary: c' g rest rule: utf8_bytes.induct)
  case (4 n c b bs)
  then show ?case by (cases bs; cases n) fastforce+
qed auto

lemma read_next_left: "read_next r = Some r' \<Longrightarrow> jr_cur r \<noteq> None \<Longrightarrow> jr_left r' < jr_left r"
  by (auto simp: read_next_def utf8_decode_def jr_left_def Let_def split: list.splits option.splits prod.splits if_splits
      dest: utf8_bytes_shorter)


text \<open>White space and comments.\<close>

function skip_ws :: "reader \<Rightarrow> reader option" where
  "skip_ws r =
     (if jr_at r CHR '' '' \<or> jr_cur r = Some 9 \<or> jr_cur r = Some 10 \<or> jr_cur r = Some 13
      then do { r1 \<leftarrow> read_next r; skip_ws r1 }
      else Some r)"
  by auto
termination by (relation "measure jr_left") (auto simp: jr_at_def dest!: read_next_left)

function skip_line :: "reader \<Rightarrow> reader option" where
  "skip_line r =
     (if jr_cur r = None then Some r
      else do {
        r1 \<leftarrow> read_next r;
        if jr_cur r1 = Some 10 \<or> jr_cur r1 = Some 13 then Some r1 else skip_line r1 })"
  by auto
termination by (relation "measure jr_left") (auto dest!: read_next_left)

text \<open>The loop for the end of a comment does not look for the end of the text.\<close>

function skip_block :: "reader \<Rightarrow> reader option" where
  "skip_block r =
     (if jr_cur r = None then None
      else do {
        r1 \<leftarrow> read_next r;
        if jr_at r1 CHR ''*''
        then do { r2 \<leftarrow> read_next r1; if jr_at r2 CHR ''/'' then read_next r2 else skip_block r2 }
        else skip_block r1 })"
  by auto
termination by (relation "measure jr_left") (auto simp: jr_at_def dest!: read_next_left)

declare skip_ws.simps [simp del] skip_line.simps [simp del] skip_block.simps [simp del]

lemma read_next_le: "read_next r = Some r' \<Longrightarrow> jr_left r' \<le> jr_left r"
  using read_next_left [of r r'] by (cases "jr_cur r = None") (simp_all add: read_next_def)

lemma read_next_more: "read_next r = Some r' \<Longrightarrow> jr_cur r' = Some c \<Longrightarrow> jr_left r' < jr_left r"
  using read_next_left [of r r'] by (cases "jr_cur r = None") (auto simp: read_next_def)

lemma skip_ws_le: "skip_ws r = Some r' \<Longrightarrow> jr_left r' \<le> jr_left r"
proof (induction r rule: skip_ws.induct)
  case (1 r)
  then show ?case
    by (subst (asm) (2) skip_ws.simps) (fastforce dest: read_next_le split: if_splits bind_splits)
qed

lemma skip_line_le: "skip_line r = Some r' \<Longrightarrow> jr_left r' \<le> jr_left r"
proof (induction r rule: skip_line.induct)
  case (1 r)
  then show ?case
    by (subst (asm) (2) skip_line.simps) (fastforce dest: read_next_le split: if_splits bind_splits)
qed

lemma skip_block_le: "skip_block r = Some r' \<Longrightarrow> jr_left r' \<le> jr_left r"
proof (induction r rule: skip_block.induct)
  case (1 r)
  then show ?case
    by (subst (asm) (3) skip_block.simps) (fastforce dest!: read_next_le split: if_splits bind_splits)
qed

text \<open>\<^verbatim>\<open>skip_spaces\<close> with \<^verbatim>\<open>skip_comments\<close>, which call each other.\<close>

function skip_spaces :: "reader \<Rightarrow> reader option" where
  "skip_spaces r = do {
     r1 \<leftarrow> skip_ws r;
     if jr_at r1 CHR ''/''
     then do {
       r2 \<leftarrow> read_next r1;
       if jr_at r2 CHR ''/''
       then do { r3 \<leftarrow> skip_line r2; if jr_cur r3 = None then Some r3 else skip_spaces r3 }
       else if jr_at r2 CHR ''*''
       then do { r3 \<leftarrow> skip_block r2; skip_spaces r3 }
       else None }
     else Some r1 }"
  by auto
termination
  by (relation "measure jr_left") (auto simp: jr_at_def dest!: read_next_left skip_ws_le skip_line_le skip_block_le)

declare skip_spaces.simps [simp del]

section \<open>Strings\<close>

text \<open>Four hexadecimal digits behind \<^verbatim>\<open>\\u\<close>.\<close>

definition hex_value :: "u32 option \<Rightarrow> u32 option" where
  "hex_value c = do {
     c \<leftarrow> c;
     if 0x30 \<le> c \<and> c \<le> 0x39 then Some (c - 0x30)
     else if 0x41 \<le> c \<and> c \<le> 0x46 then Some (c - 0x41 + 10)
     else if 0x61 \<le> c \<and> c \<le> 0x66 then Some (c - 0x61 + 10)
     else None }"

fun read_escaped :: "nat list \<Rightarrow> u32 \<Rightarrow> reader \<Rightarrow> (u32 \<times> reader) option" where
  "read_escaped [] code r = Some (code, r)"
| "read_escaped (f # fs) code r = do {
     r1 \<leftarrow> read_next r;
     v \<leftarrow> hex_value (jr_cur r1);
     read_escaped fs (code + push_bit f v) r1 }"

definition read_escaped_codepoint :: "reader \<Rightarrow> (u32 \<times> reader) option" where
  "read_escaped_codepoint r = read_escaped [12, 8, 4, 0] 0 r"

definition is_lead_surrogate :: "u32 \<Rightarrow> bool" where
  "is_lead_surrogate c \<longleftrightarrow> 0xD800 \<le> c \<and> c \<le> 0xDBFF"

definition is_trail_surrogate :: "u32 \<Rightarrow> bool" where
  "is_trail_surrogate c \<longleftrightarrow> 0xDC00 \<le> c \<and> c \<le> 0xDFFF"

definition decode_surrogates :: "u32 \<Rightarrow> u32 \<Rightarrow> u32" where
  "decode_surrogates lead trail = push_bit 10 (lead - 0xD800) + (trail - 0xDC00) + 0x10000"

definition scan_unicode :: "reader \<Rightarrow> (bytes \<times> reader) option" where
  "scan_unicode r = do {
     (c, r1) \<leftarrow> read_escaped_codepoint r;
     (c, r2) \<leftarrow> (if is_lead_surrogate c
       then do {
         r2 \<leftarrow> read_next r1;
         r3 \<leftarrow> (if jr_at r2 CHR 0x5C then read_next r2 else None);
         (t, r4) \<leftarrow> (if jr_at r3 CHR ''u'' then read_escaped_codepoint r3 else None);
         if is_trail_surrogate t then Some (decode_surrogates c t, r4) else None }
       else Some (c, r1));
     b \<leftarrow> utf8_encode c;
     Some (b, r2) }"

text \<open>What follows a backslash.\<close>

definition scan_escape :: "reader \<Rightarrow> (bytes \<times> reader) option" where
  "scan_escape r = do {
     r1 \<leftarrow> read_next r;
     if jr_at r1 CHR 0x22 then Some ([0x22], r1)
     else if jr_at r1 CHR 0x5C then Some ([0x5C], r1)
     else if jr_at r1 CHR ''/'' then Some ([0x2F], r1)
     else if jr_at r1 CHR ''b'' then Some ([0x08], r1)
     else if jr_at r1 CHR ''f'' then Some ([0x0C], r1)
     else if jr_at r1 CHR ''n'' then Some ([0x0A], r1)
     else if jr_at r1 CHR ''r'' then Some ([0x0D], r1)
     else if jr_at r1 CHR ''t'' then Some ([0x09], r1)
     else if jr_at r1 CHR ''u'' then scan_unicode r1
     else None }"

lemma read_escaped_le: "read_escaped fs c r = Some (c', r') \<Longrightarrow> jr_left r' \<le> jr_left r"
  by (induction fs arbitrary: c r) (auto split: bind_splits dest!: read_next_le, fastforce)

lemma scan_unicode_le: "scan_unicode r = Some (b, r') \<Longrightarrow> jr_left r' \<le> jr_left r"
  by (auto simp: scan_unicode_def read_escaped_codepoint_def split: bind_splits if_splits
      dest!: read_next_le read_escaped_le)

lemma scan_escape_le: "scan_escape r = Some (b, r') \<Longrightarrow> jr_left r' \<le> jr_left r"
  by (auto simp: scan_escape_def split: bind_splits if_splits dest!: read_next_le scan_unicode_le)

text \<open>\<^verbatim>\<open>scan_string\<close>, called with the quotation mark as the current character.\<close>

function scan_string :: "reader \<Rightarrow> bytes \<Rightarrow> (bytes \<times> reader) option" where
  "scan_string r out = do {
     r1 \<leftarrow> read_next r;
     c \<leftarrow> jr_cur r1;
     if c = 0x22 then do { r2 \<leftarrow> read_next r1; Some (out, r2) }
     else if c < 0x20 then None
     else if c = 0x5C then do { (b, r2) \<leftarrow> scan_escape r1; scan_string r2 (out @ b) }
     else do { b \<leftarrow> utf8_encode c; scan_string r1 (out @ b) } }"
  by auto
termination
  by (relation "measure (\<lambda>(r, out). jr_left r)") (auto dest!: read_next_more scan_escape_le)

declare scan_string.simps [simp del]

section \<open>Numbers and literals\<close>

definition int64_of :: "int \<Rightarrow> int option" where
  "int64_of v = (if - (2 ^ 63) \<le> v \<and> v < 2 ^ 63 then Some v else None)"

definition at_exponent :: "reader \<Rightarrow> bool" where
  "at_exponent r \<longleftrightarrow> jr_at r CHR ''e'' \<or> jr_at r CHR ''E''"

function exponent_digits :: "reader \<Rightarrow> u32 \<Rightarrow> (u32 \<times> reader) option" where
  "exponent_digits r e = do {
     r1 \<leftarrow> read_next r;
     if code_digit (jr_cur r1)
     then exponent_digits r1 (e * 10 + word_of_int (digit_of (jr_cur r1)))
     else Some (e, r1) }"
  by auto
termination
  by (relation "measure (\<lambda>(r, e). jr_left r)")
    (auto simp: code_digit_def split: option.splits dest!: read_next_more)

definition scan_exponent :: "reader \<Rightarrow> (token \<times> reader) option" where
  "scan_exponent r = do {
     r1 \<leftarrow> read_next r;
     if (code_digit (jr_cur r1) \<and> \<not> jr_at r1 CHR ''0'') \<or> jr_at r1 CHR ''-'' \<or> jr_at r1 CHR ''+''
     then do {
       r2 \<leftarrow> (if jr_at r1 CHR ''+'' \<or> jr_at r1 CHR ''-'' then read_next r1 else Some r1);
       (e, r3) \<leftarrow> exponent_digits r2 (word_of_int (digit_of (jr_cur r2)));
       let (n, ds, x) = jr_float r3;
       Some (value_float, r3\<lparr>jr_float := (n, ds, if jr_at r1 CHR ''-'' then - uint e else uint e)\<rparr>) }
     else None }"

function fraction_digits :: "reader \<Rightarrow> nat list \<Rightarrow> (nat list \<times> reader) option" where
  "fraction_digits r ds = do {
     r1 \<leftarrow> read_next r;
     if \<not> at_exponent r1 \<and> code_digit (jr_cur r1)
     then fraction_digits r1 (ds @ [nat (digit_of (jr_cur r1))])
     else Some (ds, r1) }"
  by auto
termination
  by (relation "measure (\<lambda>(r, ds). jr_left r)")
    (auto simp: code_digit_def split: option.splits dest!: read_next_more)

declare exponent_digits.simps [simp del] fraction_digits.simps [simp del]

definition scan_float :: "reader \<Rightarrow> (token \<times> reader) option" where
  "scan_float r =
     (let r = r\<lparr>jr_float := (jr_int r, [], 0)\<rparr>
      in if at_exponent r then scan_exponent r
         else if jr_at r CHR ''.''
         then do {
           r1 \<leftarrow> read_next r;
           if code_digit (jr_cur r1)
           then do {
             (ds, r2) \<leftarrow> fraction_digits r1 [nat (digit_of (jr_cur r1))];
             let r3 = r2\<lparr>jr_float := (jr_int r, ds, 0)\<rparr>;
             if at_exponent r3 then scan_exponent r3 else Some (value_float, r3) }
           else None }
         else None)"

function integer_digits :: "reader \<Rightarrow> reader option" where
  "integer_digits r = do {
     r1 \<leftarrow> read_next r;
     if \<not> jr_at r1 CHR ''.'' \<and> \<not> at_exponent r1 \<and> code_digit (jr_cur r1)
     then do {
       n \<leftarrow> int64_of (jr_int r1 * 10 + digit_of (jr_cur r1));
       integer_digits (r1\<lparr>jr_int := n\<rparr>) }
     else Some r1 }"
  by auto
termination
  by (relation "measure jr_left")
    (auto simp: code_digit_def jr_left_def split: option.splits dest!: read_next_more)

declare integer_digits.simps [simp del]

definition scan_integer :: "reader \<Rightarrow> (token \<times> reader) option" where
  "scan_integer r =
     (if code_digit (jr_cur r)
      then do {
        r1 \<leftarrow> integer_digits (r\<lparr>jr_int := digit_of (jr_cur r)\<rparr>);
        if jr_at r1 CHR ''.'' \<or> at_exponent r1 then scan_float r1 else Some (value_integer, r1) }
      else None)"

definition scan_number :: "reader \<Rightarrow> (token \<times> reader) option" where
  "scan_number r = do {
     let r = r\<lparr>jr_neg := False, jr_int := 0\<rparr>;
     r \<leftarrow> (if jr_at r CHR ''-'' \<or> jr_at r CHR ''+'' then read_next (r\<lparr>jr_neg := jr_at r CHR ''-''\<rparr>) else Some r);
     if jr_at r CHR ''0''
     then do {
       r1 \<leftarrow> read_next r;
       if jr_at r1 CHR ''.'' then scan_float r1
       else if at_exponent r1 then None
       else Some (value_integer, r1) }
     else scan_integer r }"

text \<open>The characters of a literal are compared with the low byte of the code point.\<close>

fun scan_literal :: "string \<Rightarrow> token \<Rightarrow> reader \<Rightarrow> (token \<times> reader) option" where
  "scan_literal [] t r = Some (t, r)"
| "scan_literal (c # cs) t r =
     (if (case jr_cur r of None \<Rightarrow> 0 | Some k \<Rightarrow> ucast k) = byte_of c
      then do { r1 \<leftarrow> read_next r; scan_literal cs t r1 }
      else None)"

section \<open>The parser\<close>

text \<open>\<^verbatim>\<open>scan\<close>. A string is read later, by \<^verbatim>\<open>get_string\<close>.\<close>

definition single :: "token \<Rightarrow> reader \<Rightarrow> (token \<times> reader) option" where
  "single t r = do { r1 \<leftarrow> read_next r; Some (t, r1) }"

definition scan :: "reader \<Rightarrow> (token \<times> reader) option" where
  "scan r = do {
     r \<leftarrow> skip_spaces r;
     if jr_cur r = None then Some (end_of_input, r)
     else if jr_at r CHR ''['' then single begin_array r
     else if jr_at r CHR '']'' then single end_array r
     else if jr_at r CHR ''{'' then single begin_object r
     else if jr_at r CHR ''}'' then single end_object r
     else if jr_at r CHR '':'' then single name_separator r
     else if jr_at r CHR '','' then single value_separator r
     else if jr_at r CHR ''t'' then scan_literal ''true'' literal_true r
     else if jr_at r CHR ''f'' then scan_literal ''false'' literal_false r
     else if jr_at r CHR ''n'' then scan_literal ''null'' literal_null r
     else if jr_at r CHR 0x22 then Some (value_string, r)
     else if jr_at r CHR ''-'' \<or> jr_at r CHR ''+'' \<or> (\<exists>c\<in>set ''0123456789''. jr_at r c) then scan_number r
     else if jr_cur r = Some 0 then Some (end_of_input, r)
     else None }"

definition starts_value :: "token \<Rightarrow> bool" where
  "starts_value t \<longleftrightarrow> t \<in> {literal_true, literal_false, literal_null, value_string, value_integer, value_float,
     begin_array, begin_object}"

text \<open>\<^verbatim>\<open>emplace\<close> into a map: the first entry of a key stays.\<close>

definition emplace :: "string \<Rightarrow> 'v \<Rightarrow> (string \<times> 'v) list \<Rightarrow> (string \<times> 'v) list" where
  "emplace k v m = (if k \<in> fst ` set m then m else map_put k v m)"

text \<open>\<^verbatim>\<open>do_parse\<close> as one recursion: a value whose first token has been read, or the loop over the
  elements of an array or the entries of an object with what they have collected.\<close>

datatype parse_at = Value token | Elements "json list" | Entries "(string \<times> json) list"

partial_function (option) do_parse :: "parse_at \<Rightarrow> reader \<Rightarrow> (json \<times> reader) option" where
  "do_parse p r =
     (case p of
        Value t \<Rightarrow>
          (if t = literal_true then Some (JBool True, r)
           else if t = literal_false then Some (JBool False, r)
           else if t = literal_null then Some (JNull, r)
           else if t = value_string
           then Option.bind (scan_string r []) (\<lambda>(b, r1). Some (JStr (string_of_bytes b), r1))
           else if t = value_integer then Some (JInt (if jr_neg r then - jr_int r else jr_int r), r)
           else if t = value_float then Some (JFloat (jr_neg r) (jr_float r), r)
           else if t = begin_array then do_parse (Elements []) r
           else if t = begin_object then do_parse (Entries []) r
           else None)
      | Elements vs \<Rightarrow>
          Option.bind (scan r) (\<lambda>(t, r1).
            if starts_value t
            then Option.bind (do_parse (Value t) r1) (\<lambda>(v, r2).
              Option.bind (scan r2) (\<lambda>(t, r3).
                if t = value_separator then do_parse (Elements (vs @ [v])) r3
                else if t = end_array then Some (JArr (vs @ [v]), r3)
                else None))
            else if t = end_array then Some (JArr vs, r1)
            else None)
      | Entries es \<Rightarrow>
          Option.bind (scan r) (\<lambda>(t, r1).
            if t = value_string
            then Option.bind (scan_string r1 []) (\<lambda>(k, r2).
              Option.bind (scan r2) (\<lambda>(t, r3).
                if t = name_separator
                then Option.bind (scan r3) (\<lambda>(t, r4).
                  Option.bind (do_parse (Value t) r4) (\<lambda>(v, r5).
                    let es = emplace (string_of_bytes k) v es
                    in Option.bind (scan r5) (\<lambda>(t, r6).
                         if t = value_separator then do_parse (Entries es) r6
                         else if t = end_object then Some (JObj es, r6)
                         else None)))
                else if t = end_object then Some (JObj es, r3)
                else None))
            else if t = end_object then Some (JObj es, r1)
            else None))"

definition json_parse :: "string \<Rightarrow> json option" where
  "json_parse text = do {
     r \<leftarrow> reader_source (bytes_of text);
     (t, r1) \<leftarrow> scan r;
     (v, r2) \<leftarrow> do_parse (Value t) r1;
     (e, r3) \<leftarrow> scan r2;
     if e = end_of_input then Some v else None }"


section \<open>The writer\<close>

record json_writer =
  jw_step :: nat
  jw_char :: u8
  jw_began :: bool
  jw_last :: token
  jw_depth :: nat
  jw_out :: bytes

definition new_writer :: "nat \<Rightarrow> char \<Rightarrow> json_writer" where
  "new_writer step c = \<lparr>jw_step = step, jw_char = byte_of c, jw_began = False, jw_last = uninitialized,
     jw_depth = 0, jw_out = []\<rparr>"

definition jw_put :: "bytes \<Rightarrow> json_writer \<Rightarrow> json_writer" where
  "jw_put b w = w\<lparr>jw_out := jw_out w @ b\<rparr>"

definition pretty_print :: "json_writer \<Rightarrow> bool" where
  "pretty_print w \<longleftrightarrow> jw_step w > 0"

definition output_newline :: "json_writer \<Rightarrow> json_writer" where
  "output_newline w = (if pretty_print w then jw_put [10] w else w)"

definition output_indent :: "json_writer \<Rightarrow> json_writer" where
  "output_indent w =
     (if pretty_print w \<and> jw_char w \<noteq> 0 then jw_put (replicate (jw_depth w * jw_step w) (jw_char w)) w else w)"

text \<open>The blank behind a colon; without an indent character the text it is taken from is empty.\<close>

definition output_blank :: "json_writer \<Rightarrow> json_writer" where
  "output_blank w = (if pretty_print w then jw_put [jw_char w] w else w)"

definition jw_next :: "token \<Rightarrow> json_writer \<Rightarrow> json_writer" where
  "jw_next t w0 =
     (let w1 = (if jw_began w0
                then (let w = w0\<lparr>jw_began := False\<rparr> in if starts_value t then output_newline w else w) else w0);
          w2 = (if jw_last w1 \<noteq> name_separator \<and> starts_value t then output_indent w1 else w1);
          w3 = (case t of
                  literal_true \<Rightarrow> jw_put (bytes_of ''true'') w2
                | literal_false \<Rightarrow> jw_put (bytes_of ''false'') w2
                | literal_null \<Rightarrow> jw_put (bytes_of ''null'') w2
                | begin_array \<Rightarrow> (jw_put (bytes_of ''['') w2)\<lparr>jw_began := True, jw_depth := Suc (jw_depth w2)\<rparr>
                | end_array \<Rightarrow> jw_put (bytes_of '']'') (output_indent (output_newline (w2\<lparr>jw_depth := jw_depth w2 - 1\<rparr>)))
                | begin_object \<Rightarrow> (jw_put (bytes_of ''{'') w2)\<lparr>jw_began := True, jw_depth := Suc (jw_depth w2)\<rparr>
                | end_object \<Rightarrow> jw_put (bytes_of ''}'') (output_indent (output_newline (w2\<lparr>jw_depth := jw_depth w2 - 1\<rparr>)))
                | name_separator \<Rightarrow> output_blank (jw_put (bytes_of '':'') w2)
                | value_separator \<Rightarrow> output_newline (jw_put (bytes_of '','') w2)
                | _ \<Rightarrow> w2)
      in w3\<lparr>jw_last := t\<rparr>)"

text \<open>\<^verbatim>\<open>put_string\<close>: code point after code point, with \<^verbatim>\<open>escape_unicode\<close> off. Control characters
  without a letter of their own become \<^verbatim>\<open>\\u\<close> and as many digits as their type has bytes, which are two and not the
  four the reader asks for.\<close>

definition hex2 :: "u32 \<Rightarrow> bytes" where
  "hex2 c = map (\<lambda>k. byte_of (''0123456789ABCDEF'' ! unat (drop_bit k c AND 0xF))) [4, 0]"

definition escape_code :: "u32 \<Rightarrow> bytes option" where
  "escape_code c =
     (if c = 9 then Some (bytes_of [CHR 0x5C, CHR ''t''])
      else if c = 13 then Some (bytes_of [CHR 0x5C, CHR ''r''])
      else if c = 10 then Some (bytes_of [CHR 0x5C, CHR ''n''])
      else if c = 8 then Some (bytes_of [CHR 0x5C, CHR ''b''])
      else if c = 12 then Some (bytes_of [CHR 0x5C, CHR ''f''])
      else if c = 0x22 then Some (bytes_of [CHR 0x5C, CHR 0x22])
      else if c = 0x5C then Some (bytes_of [CHR 0x5C, CHR 0x5C])
      else if c > 0x1F then utf8_encode c
      else Some (bytes_of [CHR 0x5C, CHR ''u''] @ hex2 c))"

function escape_bytes :: "bytes \<Rightarrow> bytes option" where
  "escape_bytes bs =
     (case utf8_decode bs of
        None \<Rightarrow> Some []
      | Some (c, good, rest) \<Rightarrow>
          if good then do { e \<leftarrow> escape_code c; es \<leftarrow> escape_bytes rest; Some (e @ es) } else None)"
  by auto
termination
  by (relation "measure length")
    (auto simp: utf8_decode_def Let_def split: list.splits prod.splits dest: utf8_bytes_shorter)

declare escape_bytes.simps [simp del]

definition put_string :: "string \<Rightarrow> json_writer \<Rightarrow> json_writer option" where
  "put_string s w = do { b \<leftarrow> escape_bytes (bytes_of s); Some (jw_put ([0x22] @ b @ [0x22]) w) }"

definition put_integer :: "int \<Rightarrow> json_writer \<Rightarrow> json_writer" where
  "put_integer i w = jw_put (bytes_of (if i < 0 then ''-'' @ to_dec (nat (- i)) else to_dec (nat i))) w"

text \<open>\<^verbatim>\<open>do_dump\<close>. Numbers with a fraction are not written by the program.\<close>

fun do_dump :: "json \<Rightarrow> json_writer \<Rightarrow> json_writer option"
  and dump_elements :: "json list \<Rightarrow> json_writer \<Rightarrow> json_writer option"
  and dump_entries :: "(string \<times> json) list \<Rightarrow> json_writer \<Rightarrow> json_writer option" where
  "do_dump JNull w = Some (jw_next literal_null w)"
| "do_dump (JBool b) w = Some (jw_next (if b then literal_true else literal_false) w)"
| "do_dump (JInt i) w = Some (put_integer i (jw_next value_integer w))"
| "do_dump (JFloat s f) w = None"
| "do_dump (JStr s) w = put_string s (jw_next value_string w)"
| "do_dump (JArr vs) w = map_option (jw_next end_array) (dump_elements vs (jw_next begin_array w))"
| "do_dump (JObj es) w = map_option (jw_next end_object) (dump_entries es (jw_next begin_object w))"
| "dump_elements [] w = Some w"
| "dump_elements (v # vs) w = do {
     w \<leftarrow> do_dump v w;
     dump_elements vs (if vs \<noteq> [] then jw_next value_separator w else w) }"
| "dump_entries [] w = Some w"
| "dump_entries ((k, v) # es) w = do {
     w \<leftarrow> put_string k (jw_next value_string w);
     w \<leftarrow> do_dump v (jw_next name_separator w);
     dump_entries es (if es \<noteq> [] then jw_next value_separator w else w) }"

definition json_dump :: "nat \<Rightarrow> char \<Rightarrow> json \<Rightarrow> string option" where
  "json_dump indent c v = map_option (\<lambda>w. string_of_bytes (jw_out (jw_next end_of_input w))) (do_dump v (new_writer indent c))"

end
