(* ===== verification/Json_Laws.thy ===== *)
theory Json_Laws
  imports Json
begin

text \<open>
  What the JSON library writes it reads back: the laws of the UTF-8 coder, of strings with their escapes, of
  numbers, and of whole values written with any indentation of blanks. The one thing that does not survive is a
  control character without a letter of its own.
\<close>

section \<open>UTF-8\<close>

definition utf8_vals :: "nat \<Rightarrow> nat list" where
  "utf8_vals n =
     (if n < 0x80 then [n]
      else if n \<le> 0x7FF then [192 + n div 64, 128 + n mod 64]
      else if n \<le> 0xFFFF then [224 + n div 4096, 128 + n div 64 mod 64, 128 + n mod 64]
      else [240 + n div 262144, 128 + n div 4096 mod 64, 128 + n div 64 mod 64, 128 + n mod 64])"

lemma unat_and_63: "unat ((x :: u32) AND 0x3F) = unat x mod 64"
proof -
  have "(0x3F :: u32) = mask 6" by (simp add: mask_eq_exp_minus_1)
  then have "x AND 0x3F = take_bit 6 x" by (simp only: take_bit_eq_mask)
  then have "unat (x AND 0x3F) = take_bit 6 (unat x)" by (simp only: unsigned_take_bit_eq)
  then show ?thesis by (simp only: take_bit_eq_mod) simp
qed

lemma unat_drop: "unat (drop_bit k (x :: u32)) = unat x div 2 ^ k"
  by (subst unat_drop_bit_eq) (simp only: drop_bit_eq_div)

lemma unat_cont: "unat (ucast (0x80 OR ((x :: u32) AND 0x3F)) :: u8) = 128 + unat x mod 64"
proof -
  have "unat (push_bit 6 2 OR word_of_nat (unat x mod 64) :: u32) = 2 * 2 ^ 6 + unat x mod 64"
    using push_or_val [of "2 :: u32" 6 "unat x mod 64"] by simp
  moreover have "x AND 0x3F = word_of_nat (unat (x AND 0x3F))" by simp
  then have "x AND 0x3F = word_of_nat (unat x mod 64)" by (simp only: unat_and_63)
  ultimately have "unat (0x80 OR (x AND 0x3F)) = 128 + unat x mod 64" by (simp add: push_bit_eq_mult)
  then show ?thesis by (simp add: unsigned_ucast_eq take_bit_eq_mod)
qed

lemma unat_lead:
  assumes "unat (x :: u32) < 2 ^ k" and "unat a * 2 ^ k + 2 ^ k \<le> 256"
  shows "unat (ucast (push_bit k a OR x) :: u8) = unat a * 2 ^ k + unat x"
proof -
  have "unat (push_bit k a OR word_of_nat (unat x) :: u32) = unat a * 2 ^ k + unat x"
    by (rule push_or_val) (use assms in simp_all)
  then show ?thesis using assms by (simp add: unsigned_ucast_eq take_bit_eq_mod)
qed

lemma unat_leads:
  "unat (x :: u32) < 32 \<Longrightarrow> unat (ucast (0xC0 OR x) :: u8) = 192 + unat x"
  "unat x < 16 \<Longrightarrow> unat (ucast (0xE0 OR x) :: u8) = 224 + unat x"
  "unat x < 8 \<Longrightarrow> unat (ucast (0xF0 OR x) :: u8) = 240 + unat x"
  using unat_lead [of x 5 6] unat_lead [of x 4 14] unat_lead [of x 3 30] by (simp_all add: push_bit_eq_mult)

lemma encode_vals:
  assumes "c \<le> 0x10FFFF"
  shows "\<exists>bs. utf8_encode c = Some bs \<and> map unat bs = utf8_vals (unat c)"
proof -
  have b: "unat c \<le> 0x10FFFF" using assms by (simp add: word_le_nat_alt)
  have l: "c < 0x80 \<longleftrightarrow> unat c < 0x80" "c \<le> 0x7FF \<longleftrightarrow> unat c \<le> 0x7FF" "c \<le> 0xFFFF \<longleftrightarrow> unat c \<le> 0xFFFF"
    by (simp_all add: word_le_nat_alt word_less_nat_alt)
  have d: "unat c \<le> 0x7FF \<Longrightarrow> unat (drop_bit 6 c) < 32" "unat c \<le> 0xFFFF \<Longrightarrow> unat (drop_bit 12 c) < 16"
    "unat (drop_bit 18 c) < 8"
    using b by (simp_all add: unat_drop)
  have a: "unat c < 0x80 \<Longrightarrow> unat (ucast c :: u8) = unat c" by (simp add: unsigned_ucast_eq take_bit_eq_mod)
  show ?thesis using d assms unfolding utf8_encode_def utf8_vals_def l
    by (simp add: unat_leads unat_cont a unat_drop)
qed

lemma ucast_nat: "ucast (b :: u8) = (word_of_nat (unat b) :: u32)"
  by simp

lemma decode_vals:
  assumes "map unat bs = utf8_vals n" and "n \<le> 0x10FFFF"
  shows "utf8_decode (bs @ rest) = Some (word_of_nat n, True, rest)"
proof -
  have u: "ucast b = (word_of_nat v :: u32)" if "unat b = v" for b :: u8 and v using that by auto
  have lt: "b < w \<longleftrightarrow> unat b < unat w" for b w :: u8 by (simp add: word_less_nat_alt)
  have le: "(word_of_nat n :: u32) \<le> 0x10FFFF" using assms(2) by (simp add: word_le_nat_alt unat_of_nat)
  consider (one) "n < 0x80" | (two) "0x80 \<le> n" "n \<le> 0x7FF" | (three) "0x7FF < n" "n \<le> 0xFFFF" | (four) "0xFFFF < n"
    by linarith
  then show ?thesis
  proof cases
    case one
    then obtain a where b: "bs = [a]" "unat a = n" using assms(1) by (auto simp: utf8_vals_def)
    then have "utf8_extra a = 0" using one by (simp add: utf8_extra_def lt)
    with b one le show ?thesis by (simp add: utf8_decode_def utf8_offsets_def u)
  next
    case two
    then obtain a0 a1 where b: "bs = [a0, a1]" "unat a0 = 192 + n div 64" "unat a1 = 128 + n mod 64"
      using assms(1) by (auto simp: utf8_vals_def)
    then have "utf8_extra a0 = 1" using two by (simp add: utf8_extra_def lt)
    moreover have "(word_of_nat (192 + n div 64) * 64 + word_of_nat (128 + n mod 64) - 0x3080 :: u32) = word_of_nat n"
    proof -
      have "(192 + n div 64) * 64 + (128 + n mod 64) = n + 0x3080" by simp
      then have "(word_of_nat ((192 + n div 64) * 64 + (128 + n mod 64)) :: u32) = word_of_nat (n + 0x3080)" by (simp only:)
      then show ?thesis by (simp only: of_nat_add of_nat_mult of_nat_numeral add_diff_cancel_right')
    qed
    ultimately show ?thesis using b le u [OF b(2)] u [OF b(3)]
      by (simp add: utf8_decode_def utf8_offsets_def push_bit_eq_mult del: of_nat_add)
  next
    case three
    then obtain a0 a1 a2 where b: "bs = [a0, a1, a2]" "unat a0 = 224 + n div 4096" "unat a1 = 128 + n div 64 mod 64"
        "unat a2 = 128 + n mod 64"
      using assms(1) by (auto simp: utf8_vals_def)
    then have "utf8_extra a0 = 2" using three by (simp add: utf8_extra_def lt)
    moreover have "((word_of_nat (224 + n div 4096) * 64 + word_of_nat (128 + n div 64 mod 64)) * 64 + word_of_nat (128 + n mod 64)
        - 0xE2080 :: u32) = word_of_nat n"
    proof -
      have "((224 + n div 4096) * 64 + (128 + n div 64 mod 64)) * 64 + (128 + n mod 64) = n + 0xE2080"
        by (simp add: div_mult2_eq [of n 64 64, simplified])
      then have "(word_of_nat (((224 + n div 4096) * 64 + (128 + n div 64 mod 64)) * 64 + (128 + n mod 64)) :: u32) =
        word_of_nat (n + 0xE2080)" by (simp only:)
      then show ?thesis by (simp only: of_nat_add of_nat_mult of_nat_numeral add_diff_cancel_right')
    qed
    ultimately show ?thesis using b le u [OF b(2)] u [OF b(3)] u [OF b(4)]
      by (simp add: utf8_decode_def utf8_offsets_def push_bit_eq_mult numeral_2_eq_2 del: of_nat_add)
  next
    case four
    then obtain a0 a1 a2 a3 where b: "bs = [a0, a1, a2, a3]" "unat a0 = 240 + n div 262144"
        "unat a1 = 128 + n div 4096 mod 64" "unat a2 = 128 + n div 64 mod 64" "unat a3 = 128 + n mod 64"
      using assms(1) by (auto simp: utf8_vals_def)
    then have "utf8_extra a0 = 3" using four assms(2) by (simp add: utf8_extra_def lt)
    moreover have "(((word_of_nat (240 + n div 262144) * 64 + word_of_nat (128 + n div 4096 mod 64)) * 64
        + word_of_nat (128 + n div 64 mod 64)) * 64 + word_of_nat (128 + n mod 64) - 0x3C82080 :: u32) = word_of_nat n"
    proof -
      have "(((240 + n div 262144) * 64 + (128 + n div 4096 mod 64)) * 64 + (128 + n div 64 mod 64)) * 64 + (128 + n mod 64) =
          n + 0x3C82080"
        by (simp add: div_mult2_eq [of n 64 64, simplified] div_mult2_eq [of n 64 4096, simplified]
            div_mult2_eq [of "n div 64" 64 64, simplified])
      then have "(word_of_nat ((((240 + n div 262144) * 64 + (128 + n div 4096 mod 64)) * 64 + (128 + n div 64 mod 64)) * 64
          + (128 + n mod 64)) :: u32) = word_of_nat (n + 0x3C82080)" by (simp only:)
      then show ?thesis by (simp only: of_nat_add of_nat_mult of_nat_numeral add_diff_cancel_right')
    qed
    ultimately show ?thesis using b le u [OF b(2)] u [OF b(3)] u [OF b(4)] u [OF b(5)]
      by (simp add: utf8_decode_def utf8_offsets_def push_bit_eq_mult numeral_3_eq_3 del: of_nat_add)
  qed
qed


section \<open>Texts as lists of code points\<close>

definition enc :: "u32 \<Rightarrow> bytes" where
  "enc c = the (utf8_encode c)"

definition encs :: "u32 list \<Rightarrow> bytes" where
  "encs cs = concat (map enc cs)"

definition codes_ok :: "u32 list \<Rightarrow> bool" where
  "codes_ok cs \<longleftrightarrow> (\<forall>c\<in>set cs. c \<le> 0x10FFFF)"

lemma codes_ok_simps [simp]:
  "codes_ok []" "codes_ok (c # cs) \<longleftrightarrow> c \<le> 0x10FFFF \<and> codes_ok cs" "codes_ok (cs @ ds) \<longleftrightarrow> codes_ok cs \<and> codes_ok ds"
  by (auto simp: codes_ok_def)

lemma encs_simps [simp]: "encs [] = []" "encs (c # cs) = enc c @ encs cs" "encs (cs @ ds) = encs cs @ encs ds"
  by (simp_all add: encs_def)

lemma encode_enc: "c \<le> 0x10FFFF \<Longrightarrow> utf8_encode c = Some (enc c)"
  using encode_vals [of c] by (auto simp: enc_def)

lemma decode_enc: "c \<le> 0x10FFFF \<Longrightarrow> utf8_decode (enc c @ rest) = Some (c, True, rest)"
  using encode_vals [of c] decode_vals [of "enc c" "unat c" rest] by (auto simp: enc_def word_le_nat_alt)

lemma decode_nil [simp]: "utf8_decode [] = None"
  by (simp add: utf8_decode_def)

lemma enc_ascii: "c < 0x80 \<Longrightarrow> enc c = [ucast c]"
  by (simp add: enc_def utf8_encode_def)

text \<open>The reader in front of a text.\<close>

definition rdr :: "u32 list \<Rightarrow> reader \<Rightarrow> reader" where
  "rdr cs r = r\<lparr>jr_cur := (case cs of [] \<Rightarrow> None | c # ds \<Rightarrow> Some c), jr_rest := encs (tl cs)\<rparr>"

lemma rdr_fields [simp]:
  "jr_cur (rdr [] r) = None" "jr_cur (rdr (c # cs) r) = Some c" "jr_int (rdr cs r) = jr_int r" "jr_neg (rdr cs r) = jr_neg r"
  "(rdr cs r)\<lparr>jr_int := n\<rparr> = rdr cs (r\<lparr>jr_int := n\<rparr>)" "(rdr cs r)\<lparr>jr_neg := b\<rparr> = rdr cs (r\<lparr>jr_neg := b\<rparr>)"
  by (simp_all add: rdr_def)

lemma read_rdr [simp]: "codes_ok cs \<Longrightarrow> read_next (rdr (c # cs) r) = Some (rdr cs r)"
  by (cases cs) (simp_all add: read_next_def rdr_def decode_enc)

lemma read_rdr_nil [simp]: "read_next (rdr [] r) = Some (rdr [] r)"
  by (simp add: read_next_def)

lemma at_rdr [simp]: "jr_at (rdr (c # cs) r) k \<longleftrightarrow> c = of_char k" "\<not> jr_at (rdr [] r) k"
  by (simp_all add: jr_at_def)

lemma source_rdr:
  assumes "codes_ok cs"
  shows "\<exists>r. reader_source (encs cs) = Some (rdr cs r)"
proof -
  let ?r = "\<lparr>jr_cur = None, jr_rest = [], jr_neg = False, jr_int = 0, jr_float = (0, [], 0)\<rparr>"
  have "reader_source (encs cs) = read_next (rdr (0 # cs) ?r)" by (simp add: reader_source_def rdr_def)
  with assms show ?thesis by auto
qed

section \<open>White space\<close>

definition ws_code :: "u32 \<Rightarrow> bool" where
  "ws_code c \<longleftrightarrow> c = 32 \<or> c = 9 \<or> c = 10 \<or> c = 13"

definition solid :: "u32 list \<Rightarrow> bool" where
  "solid cs \<longleftrightarrow> cs = [] \<or> \<not> ws_code (hd cs) \<and> hd cs \<noteq> 47"

lemma skip_ws_rdr:
  "list_all ws_code ws \<Longrightarrow> codes_ok (ws @ cs) \<Longrightarrow> cs = [] \<or> \<not> ws_code (hd cs) \<Longrightarrow>
    skip_ws (rdr (ws @ cs) r) = Some (rdr cs r)"
proof (induction ws)
  case Nil
  then show ?case by (cases cs) (simp_all add: skip_ws.simps [of "rdr _ r"] ws_code_def)
next
  case (Cons w ws)
  then show ?case by (auto simp: skip_ws.simps [of "rdr (w # _) r"] ws_code_def)
qed

lemma skip_spaces_rdr:
  assumes "list_all ws_code ws" and "codes_ok (ws @ cs)" and "solid cs"
  shows "skip_spaces (rdr (ws @ cs) r) = Some (rdr cs r)"
proof -
  have "cs = [] \<or> \<not> ws_code (hd cs)" using assms(3) by (auto simp: solid_def)
  note s = skip_ws_rdr [OF assms(1,2) this, of r]
  show ?thesis
  proof (cases cs)
    case Nil
    with s show ?thesis by (simp add: skip_spaces.simps [of "rdr _ r"])
  next
    case (Cons c ds)
    with s assms(3) show ?thesis by (simp add: skip_spaces.simps [of "rdr _ r"] solid_def)
  qed
qed


section \<open>Strings\<close>

definition esc :: "u32 \<Rightarrow> u32 list" where
  "esc c =
     (if c = 9 then [0x5C, 0x74] else if c = 13 then [0x5C, 0x72] else if c = 10 then [0x5C, 0x6E]
      else if c = 8 then [0x5C, 0x62] else if c = 12 then [0x5C, 0x66] else if c = 0x22 then [0x5C, 0x22]
      else if c = 0x5C then [0x5C, 0x5C] else [c])"

definition clean :: "u32 \<Rightarrow> bool" where
  "clean c \<longleftrightarrow> c \<le> 0x10FFFF \<and> (0x1F < c \<or> c = 8 \<or> c = 9 \<or> c = 10 \<or> c = 12 \<or> c = 13)"

definition escs :: "u32 list \<Rightarrow> u32 list" where
  "escs cs = concat (map esc cs)"

lemma escs_simps [simp]: "escs [] = []" "escs (c # cs) = esc c @ escs cs"
  by (simp_all add: escs_def)

lemma esc_ok [simp]: "clean c \<Longrightarrow> codes_ok (esc c)"
  by (simp add: esc_def clean_def)

lemma escs_ok [simp]: "\<forall>c\<in>set cs. clean c \<Longrightarrow> codes_ok (escs cs)"
  by (induction cs) auto

lemma escape_code_esc: "clean c \<Longrightarrow> escape_code c = Some (encs (esc c))"
  by (auto simp: escape_code_def esc_def clean_def enc_ascii bytes_of_def byte_of_def encode_enc)

lemma escape_bytes_encs: "\<forall>c\<in>set cs. clean c \<Longrightarrow> escape_bytes (encs cs) = Some (encs (escs cs))"
proof (induction cs)
  case Nil
  then show ?case by (simp add: escape_bytes.simps)
next
  case (Cons c cs)
  then show ?case
    by (subst escape_bytes.simps) (simp add: decode_enc clean_def [of c] escape_code_esc)
qed

lemma scan_string_step:
  assumes "clean c" and "codes_ok rest"
  shows "scan_string (rdr (p # esc c @ rest) r) out = scan_string (rdr (last (esc c) # rest) r) (out @ enc c)"
proof (cases "esc c = [c]")
  case True
  then have "c \<noteq> 0x22" "\<not> c < 0x20" "c \<noteq> 0x5C" "c \<le> 0x10FFFF"
    using assms(1) by (auto simp: esc_def clean_def word_less_nat_alt word_le_nat_alt split: if_splits)
  with True assms(2) show ?thesis
    by (simp add: scan_string.simps [of "rdr (p # c # rest) r"] encode_enc)
next
  case False
  then have "c = 9 \<or> c = 13 \<or> c = 10 \<or> c = 8 \<or> c = 12 \<or> c = 0x22 \<or> c = 0x5C"
    by (auto simp: esc_def split: if_splits)
  with assms(2) show ?thesis
    by (elim disjE) (simp_all add: scan_string.simps [of "rdr (p # 92 # _ # rest) r"] esc_def scan_escape_def enc_ascii)
qed

lemma scan_string_rdr:
  assumes "\<forall>c\<in>set cs. clean c" and "codes_ok ds"
  shows "scan_string (rdr (p # escs cs @ 0x22 # ds) r) out = Some (out @ encs cs, rdr ds r)"
  using assms
proof (induction cs arbitrary: p out)
  case Nil
  then show ?case by (simp add: scan_string.simps [of "rdr (p # _) r"])
next
  case (Cons c cs)
  then show ?case using scan_string_step [of c "escs cs @ 0x22 # ds" p r out] by simp
qed

text \<open>The texts the library writes and reads back: sequences of clean code points in UTF-8.\<close>

definition codes_of :: "string \<Rightarrow> u32 list \<Rightarrow> bool" where
  "codes_of s cs \<longleftrightarrow> bytes_of s = encs cs \<and> (\<forall>c\<in>set cs. clean c)"

definition clean_text :: "string \<Rightarrow> bool" where
  "clean_text s \<longleftrightarrow> (\<exists>cs. codes_of s cs)"

definition text_codes :: "string \<Rightarrow> u32 list" where
  "text_codes s = (SOME cs. codes_of s cs)"

lemma text_codes: "clean_text s \<Longrightarrow> bytes_of s = encs (text_codes s) \<and> (\<forall>c\<in>set (text_codes s). clean c)"
  using someI_ex [of "codes_of s"] by (simp add: clean_text_def text_codes_def codes_of_def)

lemma ascii_codes:
  assumes "\<forall>c\<in>set s. 31 < (of_char c :: nat) \<and> (of_char c :: nat) < 128"
  shows "bytes_of s = encs (map of_char s)" "\<forall>c\<in>set s. clean (of_char c) \<and> 0x1F < (of_char c :: u32)"
proof -
  have "bytes_of s = encs (map of_char s) \<and> (\<forall>c\<in>set s. clean (of_char c) \<and> 0x1F < (of_char c :: u32))"
    using assms
  proof (induction s)
    case Nil
    show ?case by (simp add: bytes_of_def)
  next
    case (Cons c s)
    then have "(31 :: nat) < of_char c" "(of_char c :: nat) < 128" by simp_all
    moreover have w: "(of_char c :: u32) = word_of_nat (of_char c)" by (rule of_nat_of_char [symmetric])
    moreover have u: "unat (word_of_nat (of_char c) :: u32) = of_char c"
      using \<open>(of_char c :: nat) < 128\<close> by (simp only: unat_of_nat) simp
    ultimately have "(of_char c :: u32) < 0x80" "clean (of_char c)" "0x1F < (of_char c :: u32)"
      by (simp_all only: w clean_def word_less_nat_alt word_le_nat_alt u) simp_all
    moreover have "ucast (of_char c :: u32) = byte_of c"
      unfolding w byte_of_def unsigned_of_nat using \<open>(of_char c :: nat) < 128\<close> by (simp add: take_bit_nat_eq_self)
    moreover note Cons
    ultimately show ?case by (simp add: bytes_of_def enc_ascii)
  qed
  then show "bytes_of s = encs (map of_char s)" "\<forall>c\<in>set s. clean (of_char c) \<and> 0x1F < (of_char c :: u32)" by simp_all
qed

lemma clean_ascii: "\<forall>c\<in>set s. 31 < (of_char c :: nat) \<and> (of_char c :: nat) < 128 \<Longrightarrow> clean_text s"
  unfolding clean_text_def codes_of_def by (rule exI [of _ "map of_char s"]) (simp add: ascii_codes)


section \<open>Numbers\<close>

text \<open>What may follow a whole number.\<close>

definition stops :: "u32 list \<Rightarrow> bool" where
  "stops cs \<longleftrightarrow> (case cs of [] \<Rightarrow> True | c # ds \<Rightarrow> \<not> code_digit (Some c) \<and> c \<noteq> 46 \<and> c \<noteq> 101 \<and> c \<noteq> 69)"

definition dcode :: "nat \<Rightarrow> u32" where
  "dcode d = of_char (digit_char d)"

lemma dcode_simps:
  assumes "d < 10"
  shows "code_digit (Some (dcode d))" "digit_of (Some (dcode d)) = int d" "dcode d \<le> 0x10FFFF"
    "dcode d \<noteq> 46" "dcode d \<noteq> 101" "dcode d \<noteq> 69" "dcode d < 0x80" "dcode d = 48 \<longleftrightarrow> d = 0" "dcode d \<noteq> 45" "dcode d \<noteq> 43"
  using nat_less_10_cases [OF assms] by (auto simp: dcode_def digit_char_def code_digit_def digit_of_def)


fun digs :: "nat \<Rightarrow> nat list" where
  "digs n = (if n < 10 then [n] else digs (n div 10) @ [n mod 10])"

declare digs.simps [simp del]

lemma digs_props: "list_all (\<lambda>d. d < 10) (digs n) \<and> foldl (\<lambda>v d. v * 10 + int d) 0 (digs n) = int n \<and> digs n \<noteq> [] \<and>
    (n \<noteq> 0 \<longrightarrow> hd (digs n) \<noteq> 0) \<and> to_dec n = map digit_char (digs n)"
proof (induction n rule: digs.induct)
  case (1 n)
  show ?case
  proof (cases "n < 10")
    case True
    then show ?thesis by (simp add: digs.simps [of n] to_dec.simps [of n])
  next
    case False
    then have "n div 10 \<noteq> 0" by simp
    moreover have "n div 10 * 10 + n mod 10 = n" by simp
    then have "int (n div 10) * 10 + int (n mod 10) = int n" by (metis of_nat_add of_nat_mult of_nat_numeral)
    moreover note False 1
    ultimately show ?thesis
      by (simp add: digs.simps [of n] to_dec.simps [of n])
  qed
qed

lemma foldl_digits_le: "0 \<le> n \<Longrightarrow> n \<le> foldl (\<lambda>v d. v * 10 + int d) n ds"
proof (induction ds arbitrary: n)
  case (Cons d ds)
  then have "n * 10 + int d \<le> foldl (\<lambda>v d. v * 10 + int d) (n * 10 + int d) ds" by (intro Cons.IH) simp
  with Cons.prems show ?case by simp
qed simp

lemma integer_digits_rdr:
  assumes "list_all (\<lambda>d. d < 10) ds" and "0 \<le> jr_int r" and "foldl (\<lambda>v d. v * 10 + int d) (jr_int r) ds < 2 ^ 63"
    and "stops rest" and "codes_ok rest"
  shows "integer_digits (rdr (p # map dcode ds @ rest) r) =
    Some (rdr rest (r\<lparr>jr_int := foldl (\<lambda>v d. v * 10 + int d) (jr_int r) ds\<rparr>))"
  using assms
proof (induction ds arbitrary: p r)
  case Nil
  then show ?case
    by (cases rest) (simp_all add: integer_digits.simps [of "rdr (p # _) r"] stops_def at_exponent_def code_digit_def [of None])
next
  case (Cons d ds)
  have ok: "codes_ok (map dcode (d # ds) @ rest)"
    using Cons.prems(1,5) by (induction ds) (auto simp: dcode_simps)
  have v: "int64_of (jr_int r * 10 + int d) = Some (jr_int r * 10 + int d)"
    using Cons.prems(2,3) foldl_digits_le [of "jr_int r * 10 + int d" ds] by (simp add: int64_of_def)
  have "integer_digits (rdr (dcode d # map dcode ds @ rest) (r\<lparr>jr_int := jr_int r * 10 + int d\<rparr>)) =
    Some (rdr rest (r\<lparr>jr_int := foldl (\<lambda>v d. v * 10 + int d) (jr_int r) (d # ds)\<rparr>))"
    using Cons.IH [of "r\<lparr>jr_int := jr_int r * 10 + int d\<rparr>" "dcode d"] Cons.prems by simp
  then show ?case using Cons.prems(1) ok
    by (subst integer_digits.simps) (simp add: v at_exponent_def dcode_simps)
qed

definition int_codes :: "int \<Rightarrow> u32 list" where
  "int_codes i = (if i < 0 then [45] else []) @ map dcode (digs (nat \<bar>i\<bar>))"

lemma digs_ok [simp]: "codes_ok (map dcode (digs n))"
  using digs_props [of n] by (auto simp: codes_ok_def list_all_iff dcode_simps)

lemma scan_number_rdr:
  assumes "- (2 ^ 63) < i" and "i < 2 ^ 63" and "stops rest" and "codes_ok rest"
  shows "\<exists>r'. scan_number (rdr (int_codes i @ rest) r) = Some (value_integer, rdr rest r') \<and>
    (if jr_neg r' then - jr_int r' else jr_int r') = i"
proof -
  define n where "n = nat \<bar>i\<bar>"
  define r0 where "r0 = r\<lparr>jr_neg := i < 0, jr_int := 0\<rparr>"
  have n: "int n < 2 ^ 63" "i = (if i < 0 then - int n else int n)" using assms(1,2) by (auto simp: n_def)
  note d = digs_props [of n]
  obtain x xs where x: "digs n = x # xs" using d by (cases "digs n") auto
  have x10: "x < 10" "list_all (\<lambda>d. d < 10) xs" using d x by simp_all
  have ok: "codes_ok (map dcode xs @ rest)" using digs_ok [of n] x assms(4) by simp
  have "\<exists>r'. (let r = rdr (dcode x # map dcode xs @ rest) r0 in
      if jr_at r CHR ''0''
      then do { r1 \<leftarrow> read_next r; if jr_at r1 CHR ''.'' then scan_float r1 else if at_exponent r1 then None else Some (value_integer, r1) }
      else scan_integer r) = Some (value_integer, rdr rest r') \<and> jr_neg r' = (i < 0) \<and> jr_int r' = int n"
  proof (cases "x = 0")
    case True
    then have "n = 0" "xs = []" using d x by (auto simp: digs.simps [of 0])
    then show ?thesis using True assms(3,4) dcode_simps(8) [of 0]
      by (cases rest) (auto simp: stops_def at_exponent_def r0_def intro!: exI [of _ r0])
  next
    case False
    have "foldl (\<lambda>v d. v * 10 + int d) (int x) xs = int n" using d x by simp
    then have "integer_digits (rdr (dcode x # map dcode xs @ rest) (r0\<lparr>jr_int := int x\<rparr>)) =
        Some (rdr rest (r0\<lparr>jr_int := int n\<rparr>))"
      using integer_digits_rdr [of xs "r0\<lparr>jr_int := int x\<rparr>" rest "dcode x"] x10 n assms(3,4) by simp
    then show ?thesis using False x10 assms(3) dcode_simps [of x]
      by (cases rest) (auto simp: scan_integer_def r0_def stops_def at_exponent_def intro!: exI [of _ "r0\<lparr>jr_int := int n\<rparr>"])
  qed
  then obtain r' where r': "(let r = rdr (dcode x # map dcode xs @ rest) r0 in
      if jr_at r CHR ''0''
      then do { r1 \<leftarrow> read_next r; if jr_at r1 CHR ''.'' then scan_float r1 else if at_exponent r1 then None else Some (value_integer, r1) }
      else scan_integer r) = Some (value_integer, rdr rest r')" "jr_neg r' = (i < 0)" "jr_int r' = int n" by blast
  have "scan_number (rdr (int_codes i @ rest) r) = Some (value_integer, rdr rest r')"
  proof (cases "i < 0")
    case True
    then have c: "int_codes i @ rest = 45 # dcode x # map dcode xs @ rest"
      unfolding int_codes_def n_def [symmetric] x by simp
    have e: "r\<lparr>jr_int := 0, jr_neg := True\<rparr> = r0" using True by (cases r) (simp add: r0_def)
    show ?thesis using r'(1) True ok dcode_simps(3) [OF x10(1)]
      unfolding c scan_number_def by (simp add: e Let_def)
  next
    case False
    then have c: "int_codes i @ rest = dcode x # map dcode xs @ rest"
      unfolding int_codes_def n_def [symmetric] x by simp
    have e: "r\<lparr>jr_neg := False, jr_int := 0\<rparr> = r0" using False by (cases r) (simp add: r0_def)
    show ?thesis using r'(1) False ok dcode_simps(3,9,10) [OF x10(1)]
      unfolding c scan_number_def by (simp add: e Let_def)
  qed
  moreover have "(if jr_neg r' then - jr_int r' else jr_int r') = i" using r'(2,3) n(2) by (cases "i < 0") simp_all
  ultimately show ?thesis by blast
qed


section \<open>The text of a value\<close>

definition asc :: "string \<Rightarrow> u32 list" where
  "asc s = map of_char s"

definition str_codes :: "string \<Rightarrow> u32 list" where
  "str_codes s = 0x22 # escs (text_codes s) @ [0x22]"

text \<open>With an indentation of \<open>s\<close> characters \<open>k\<close>: a new line, the indent at depth \<open>d\<close>, the blank behind a colon.\<close>

definition nlc :: "nat \<Rightarrow> u32 list" where
  "nlc s = (if 0 < s then [10] else [])"

definition indc :: "nat \<Rightarrow> u32 \<Rightarrow> nat \<Rightarrow> u32 list" where
  "indc s k d = (if 0 < s then replicate (d * s) k else [])"

definition blankc :: "nat \<Rightarrow> u32 \<Rightarrow> u32 list" where
  "blankc s k = (if 0 < s then [k] else [])"

fun jt :: "nat \<Rightarrow> u32 \<Rightarrow> nat \<Rightarrow> json \<Rightarrow> u32 list"
  and jts :: "nat \<Rightarrow> u32 \<Rightarrow> nat \<Rightarrow> json list \<Rightarrow> u32 list"
  and jes :: "nat \<Rightarrow> u32 \<Rightarrow> nat \<Rightarrow> (string \<times> json) list \<Rightarrow> u32 list" where
  "jt s k d JNull = asc ''null''"
| "jt s k d (JBool b) = asc (if b then ''true'' else ''false'')"
| "jt s k d (JInt i) = int_codes i"
| "jt s k d (JFloat b f) = []"
| "jt s k d (JStr t) = str_codes t"
| "jt s k d (JArr vs) = 0x5B # (if vs = [] then [] else nlc s @ jts s k (Suc d) vs) @ nlc s @ indc s k d @ [0x5D]"
| "jt s k d (JObj es) = 0x7B # (if es = [] then [] else nlc s @ jes s k (Suc d) es) @ nlc s @ indc s k d @ [0x7D]"
| "jts s k d [] = []"
| "jts s k d (v # vs) = indc s k d @ jt s k d v @ (if vs = [] then [] else 0x2C # nlc s @ jts s k d vs)"
| "jes s k d [] = []"
| "jes s k d ((n, v) # es) = indc s k d @ str_codes n @ 0x3A # blankc s k @ jt s k d v @
     (if es = [] then [] else 0x2C # nlc s @ jes s k d es)"

text \<open>The values that can be written and read back.\<close>

fun json_ok :: "json \<Rightarrow> bool" where
  "json_ok JNull = True"
| "json_ok (JBool b) = True"
| "json_ok (JInt i) \<longleftrightarrow> - (2 ^ 63) < i \<and> i < 2 ^ 63"
| "json_ok (JFloat b f) = False"
| "json_ok (JStr t) = clean_text t"
| "json_ok (JArr vs) = list_all json_ok vs"
| "json_ok (JObj es) \<longleftrightarrow> sorted_wrt text_less (map fst es) \<and> list_all (\<lambda>(n, v). clean_text n \<and> json_ok v) es"

lemma layout_ws [simp]:
  "ws_code k \<Longrightarrow> list_all ws_code (nlc s)" "ws_code k \<Longrightarrow> list_all ws_code (indc s k d)" "ws_code k \<Longrightarrow> list_all ws_code (blankc s k)"
  by (auto simp: nlc_def indc_def blankc_def ws_code_def list_all_iff)

lemma ws_ok: "list_all ws_code ws \<Longrightarrow> codes_ok ws"
  by (auto simp: codes_ok_def list_all_iff ws_code_def)

lemma str_codes_ok [simp]: "clean_text t \<Longrightarrow> codes_ok (str_codes t)"
  using text_codes [of t] by (simp add: str_codes_def)

lemma int_codes_ok [simp]: "codes_ok (int_codes i)"
  by (simp add: int_codes_def)

lemma jt_ok:
  "ws_code k \<Longrightarrow> json_ok v \<Longrightarrow> codes_ok (jt s k d v)"
  "ws_code k \<Longrightarrow> list_all json_ok vs \<Longrightarrow> codes_ok (jts s k d vs)"
  "ws_code k \<Longrightarrow> list_all (\<lambda>(n, v). clean_text n \<and> json_ok v) es \<Longrightarrow> codes_ok (jes s k d es)"
proof (induction s k d v and s k d vs and s k d es rule: jt_jts_jes.induct)
qed (simp_all add: asc_def ws_ok layout_ws)

section \<open>What the writer writes\<close>

definition json_wrote :: "json_writer \<Rightarrow> u32 list \<Rightarrow> json_writer \<Rightarrow> bool" where
  "json_wrote w cs w' \<longleftrightarrow> jw_out w' = jw_out w @ encs cs \<and> \<not> jw_began w' \<and> jw_depth w' = jw_depth w \<and>
     jw_step w' = jw_step w \<and> jw_char w' = jw_char w"

definition lead :: "json_writer \<Rightarrow> u32 list" where
  "lead w = (if jw_began w then nlc (jw_step w) else []) @
     (if jw_last w \<noteq> name_separator then indc (jw_step w) (ucast (jw_char w)) (jw_depth w) else [])"

lemma encs_layout [simp]:
  "encs (nlc s) = (if 0 < s then [10] else [])"
  "ws_code (ucast (c :: u8)) \<Longrightarrow> encs (indc s (ucast c) d) = (if 0 < s then replicate (d * s) c else [])"
  "ws_code (ucast (c :: u8)) \<Longrightarrow> encs (blankc s (ucast c)) = (if 0 < s then [c] else [])"
proof -
  have e: "enc (ucast c) = [c]" if "ws_code (ucast c)" for c :: u8
  proof -
    have "(ucast c :: u32) < 0x80" using that by (auto simp: ws_code_def)
    moreover have "ucast (ucast c :: u32) = c" by (rule bit_word_eqI) (auto simp: bit_simps)
    ultimately show ?thesis by (simp add: enc_ascii)
  qed
  have r: "encs (replicate n k) = replicate n c" if "enc k = [c]" for n k c using that by (induction n) simp_all
  show "encs (nlc s) = (if 0 < s then [10] else [])" by (simp add: nlc_def enc_ascii)
  show "encs (indc s (ucast c) d) = (if 0 < s then replicate (d * s) c else [])" if "ws_code (ucast c)" for c :: u8
    using r [OF e [OF that]] by (simp add: indc_def)
  show "encs (blankc s (ucast c)) = (if 0 < s then [c] else [])" if "ws_code (ucast c)" for c :: u8
    using e [OF that] by (simp add: blankc_def)
qed

lemma encs_int: "encs (int_codes i) = bytes_of (if i < 0 then ''-'' @ to_dec (nat (- i)) else to_dec (nat i))"
proof -
  have d: "enc (dcode d) = [byte_of (digit_char d)]" if "d < 10" for d
    using nat_less_10_cases [OF that] by (auto simp: dcode_def digit_char_def enc_ascii byte_of_def)
  have ds: "encs (map dcode xs) = bytes_of (map digit_char xs)" if "list_all (\<lambda>d. d < 10) xs" for xs
    using that by (induction xs) (simp_all add: d bytes_of_def)
  have m: "enc 45 = [byte_of CHR ''-'']" by (simp add: enc_ascii byte_of_def)
  show ?thesis using ds [of "digs (nat \<bar>i\<bar>)"] digs_props [of "nat \<bar>i\<bar>"] m
    by (cases "i < 0") (simp_all add: int_codes_def bytes_of_def)
qed

lemma put_string_codes: "clean_text t \<Longrightarrow> put_string t w = Some (jw_put (encs (str_codes t)) w)"
  using text_codes [of t] by (simp add: put_string_def escape_bytes_encs str_codes_def enc_ascii)


lemma enc_code [simp]: "k < 0x80 \<Longrightarrow> enc k = [ucast k]"
  by (rule enc_ascii)

definition at_state :: "json_writer \<Rightarrow> u32 list \<Rightarrow> bool \<Rightarrow> token \<Rightarrow> nat \<Rightarrow> json_writer \<Rightarrow> bool" where
  "at_state w cs b t d w' \<longleftrightarrow> jw_out w' = jw_out w @ encs cs \<and> jw_began w' = b \<and> jw_last w' = t \<and> jw_depth w' = d \<and>
     jw_step w' = jw_step w \<and> jw_char w' = jw_char w"

lemmas writer_defs = jw_next_def Let_def output_newline_def output_indent_def output_blank_def jw_put_def pretty_print_def
  starts_value_def

lemma ws_not_zero: "ws_code (ucast (c :: u8)) \<Longrightarrow> c \<noteq> 0"
  by (auto simp: ws_code_def)

lemma next_value:
  assumes "ws_code (ucast (jw_char w))"
    and "(t, cs) \<in> {(literal_true, asc ''true''), (literal_false, asc ''false''), (literal_null, asc ''null''),
      (value_string, []), (value_integer, [])}"
  shows "at_state w (lead w @ cs) False t (jw_depth w) (jw_next t w)"
  using assms ws_not_zero [OF assms(1)]
  by (auto simp: writer_defs at_state_def lead_def asc_def bytes_of_def byte_of_def)

lemma next_begin:
  assumes "ws_code (ucast (jw_char w))" and "(t, c) \<in> {(begin_array, 0x5B), (begin_object, 0x7B)}"
  shows "at_state w (lead w @ [c]) True t (Suc (jw_depth w)) (jw_next t w)"
  using assms ws_not_zero [OF assms(1)]
  by (auto simp: writer_defs at_state_def lead_def bytes_of_def byte_of_def)

lemma next_end:
  assumes "ws_code (ucast (jw_char w))" and "(t, c) \<in> {(end_array, 0x5D), (end_object, 0x7D)}" and "jw_depth w = Suc d"
  shows "at_state w (nlc (jw_step w) @ indc (jw_step w) (ucast (jw_char w)) d @ [c]) False t d (jw_next t w)"
  using assms ws_not_zero [OF assms(1)]
  by (auto simp: writer_defs at_state_def bytes_of_def byte_of_def)

lemma next_comma:
  "\<not> jw_began w \<Longrightarrow> at_state w (0x2C # nlc (jw_step w)) False value_separator (jw_depth w) (jw_next value_separator w)"
  by (auto simp: writer_defs at_state_def bytes_of_def byte_of_def)

lemma next_colon:
  "ws_code (ucast (jw_char w)) \<Longrightarrow> \<not> jw_began w \<Longrightarrow>
    at_state w (0x3A # blankc (jw_step w) (ucast (jw_char w))) False name_separator (jw_depth w) (jw_next name_separator w)"
  by (auto simp: writer_defs at_state_def bytes_of_def byte_of_def)


lemma json_wrote_state: "at_state w cs False t (jw_depth w) w' \<Longrightarrow> json_wrote w cs w'"
  by (simp add: at_state_def json_wrote_def)

lemma json_wrote_dump:
  "json_ok v \<Longrightarrow> ws_code (ucast (jw_char w)) \<Longrightarrow>
    \<exists>w'. do_dump v w = Some w' \<and> json_wrote w (lead w @ jt (jw_step w) (ucast (jw_char w)) (jw_depth w) v) w'"
  "list_all json_ok vs \<Longrightarrow> ws_code (ucast (jw_char w)) \<Longrightarrow> vs \<noteq> [] \<Longrightarrow> jw_last w \<noteq> name_separator \<Longrightarrow>
    \<exists>w'. dump_elements vs w = Some w' \<and>
      json_wrote w ((if jw_began w then nlc (jw_step w) else []) @ jts (jw_step w) (ucast (jw_char w)) (jw_depth w) vs) w'"
  "list_all (\<lambda>(n, v). clean_text n \<and> json_ok v) es \<Longrightarrow> ws_code (ucast (jw_char w)) \<Longrightarrow> es \<noteq> [] \<Longrightarrow> jw_last w \<noteq> name_separator \<Longrightarrow>
    \<exists>w'. dump_entries es w = Some w' \<and>
      json_wrote w ((if jw_began w then nlc (jw_step w) else []) @ jes (jw_step w) (ucast (jw_char w)) (jw_depth w) es) w'"
proof (induction v w and vs w and es w rule: do_dump_dump_elements_dump_entries.induct)
  case (1 w)
  with next_value [of w literal_null "asc ''null''"] show ?case by (auto intro: json_wrote_state)
next
  case (2 b w)
  with next_value [of w literal_true "asc ''true''"] next_value [of w literal_false "asc ''false''"]
  show ?case by (auto intro: json_wrote_state)
next
  case (3 i w)
  with next_value [of w value_integer "[]"] show ?case
    by (auto simp: put_integer_def jw_put_def json_wrote_def at_state_def encs_int)
next
  case (4 b f w)
  then show ?case by simp
next
  case (5 t w)
  with next_value [of w value_string "[]"] put_string_codes [of t] show ?case
    by (auto simp: jw_put_def json_wrote_def at_state_def)
next
  case (6 vs w)
  define w1 where "w1 = jw_next begin_array w"
  have b: "at_state w (lead w @ [0x5B]) True begin_array (Suc (jw_depth w)) w1"
    unfolding w1_def using next_begin [of w begin_array "0x5B"] 6 by simp
  obtain w2 where w2: "dump_elements vs w1 = Some w2"
    "jw_out w2 = jw_out w1 @ encs (if vs = [] then [] else nlc (jw_step w) @ jts (jw_step w) (ucast (jw_char w)) (Suc (jw_depth w)) vs)"
    "jw_depth w2 = Suc (jw_depth w)" "jw_step w2 = jw_step w" "jw_char w2 = jw_char w"
    using 6 b by (cases "vs = []") (auto simp: at_state_def json_wrote_def w1_def [symmetric])
  from next_end [of w2 end_array "0x5D" "jw_depth w"] w2 6 b show ?case
    by (auto simp: w1_def [symmetric] at_state_def json_wrote_def)
next
  case (7 es w)
  define w1 where "w1 = jw_next begin_object w"
  have b: "at_state w (lead w @ [0x7B]) True begin_object (Suc (jw_depth w)) w1"
    unfolding w1_def using next_begin [of w begin_object "0x7B"] 7 by simp
  obtain w2 where w2: "dump_entries es w1 = Some w2"
    "jw_out w2 = jw_out w1 @ encs (if es = [] then [] else nlc (jw_step w) @ jes (jw_step w) (ucast (jw_char w)) (Suc (jw_depth w)) es)"
    "jw_depth w2 = Suc (jw_depth w)" "jw_step w2 = jw_step w" "jw_char w2 = jw_char w"
    using 7 b by (cases "es = []") (auto simp: at_state_def json_wrote_def w1_def [symmetric])
  from next_end [of w2 end_object "0x7D" "jw_depth w"] w2 7 b show ?case
    by (auto simp: w1_def [symmetric] at_state_def json_wrote_def)
next
  case (8 w)
  then show ?case by simp
next
  case (9 v vs w)
  then obtain w1 where w1: "do_dump v w = Some w1"
    "json_wrote w (lead w @ jt (jw_step w) (ucast (jw_char w)) (jw_depth w) v) w1" by auto
  show ?case
  proof (cases "vs = []")
    case True
    with w1 9 show ?thesis by (auto simp: lead_def json_wrote_def)
  next
    case False
    define w2 where "w2 = jw_next value_separator w1"
    have c: "at_state w1 (0x2C # nlc (jw_step w1)) False value_separator (jw_depth w1) w2"
      unfolding w2_def using next_comma [of w1] w1(2) by (simp add: json_wrote_def)
    obtain w3 where "dump_elements vs w2 = Some w3" "json_wrote w2 (jts (jw_step w2) (ucast (jw_char w2)) (jw_depth w2) vs) w3"
      using 9(2) [OF w1(1)] False 9(3,4) c w1(2) by (auto simp: w2_def [symmetric] at_state_def json_wrote_def)
    with w1 c False 9 show ?thesis by (auto simp: lead_def json_wrote_def at_state_def w2_def [symmetric])
  qed
next
  case (10 w)
  then show ?case by simp
next
  case (11 n v es w)
  define w1 where "w1 = jw_put (encs (str_codes n)) (jw_next value_string w)"
  have a: "put_string n (jw_next value_string w) = Some w1"
    "json_wrote w ((if jw_began w then nlc (jw_step w) else []) @ indc (jw_step w) (ucast (jw_char w)) (jw_depth w) @ str_codes n) w1"
    using next_value [of w value_string "[]"] 11(3,4,6) put_string_codes [of n]
    by (auto simp: w1_def lead_def at_state_def json_wrote_def jw_put_def)
  define w2 where "w2 = jw_next name_separator w1"
  have c: "at_state w1 (0x3A # blankc (jw_step w1) (ucast (jw_char w1))) False name_separator (jw_depth w1) w2"
    unfolding w2_def using next_colon [of w1] a(2) 11(4) by (simp add: json_wrote_def)
  obtain w3 where w3: "do_dump v w2 = Some w3" "json_wrote w2 (jt (jw_step w2) (ucast (jw_char w2)) (jw_depth w2) v) w3"
    using 11(1) [OF a(1)] 11(3,4) c a(2) by (auto simp: w2_def [symmetric] at_state_def json_wrote_def lead_def)
  show ?case
  proof (cases "es = []")
    case True
    with a c w3 show ?thesis by (auto simp: w2_def [symmetric] json_wrote_def at_state_def)
  next
    case False
    define w4 where "w4 = jw_next value_separator w3"
    have d: "at_state w3 (0x2C # nlc (jw_step w3)) False value_separator (jw_depth w3) w4"
      unfolding w4_def using next_comma [of w3] w3(2) by (simp add: json_wrote_def)
    obtain w5 where "dump_entries es w4 = Some w5" "json_wrote w4 (jes (jw_step w4) (ucast (jw_char w4)) (jw_depth w4) es) w5"
      using 11(2) [OF a(1)] w3(1) False 11(3,4) a(2) c w3(2) d
      by (auto simp: w2_def [symmetric] w4_def [symmetric] at_state_def json_wrote_def)
    with a c w3 d False show ?thesis
      by (auto simp: w2_def [symmetric] w4_def [symmetric] json_wrote_def at_state_def)
  qed
qed


section \<open>What the parser reads\<close>

lemma scan_punct:
  assumes "list_all ws_code ws" and "codes_ok rest"
    and "(c, t) \<in> {(0x5B, begin_array), (0x5D, end_array), (0x7B, begin_object), (0x7D, end_object),
      (0x3A, name_separator), (0x2C, value_separator)}"
  shows "scan (rdr (ws @ c # rest) r) = Some (t, rdr rest r)"
proof -
  have c: "c \<in> {0x5B, 0x5D, 0x7B, 0x7D, 0x3A, 0x2C}" using assms(3) by auto
  have "skip_spaces (rdr (ws @ c # rest) r) = Some (rdr (c # rest) r)"
    by (rule skip_spaces_rdr) (use assms(1,2) c ws_ok [OF assms(1)] in \<open>auto simp: solid_def ws_code_def\<close>)
  with assms(3) show ?thesis by (elim insertE emptyE) (simp_all add: scan_def single_def assms(2))
qed

lemma scan_quote:
  assumes "list_all ws_code ws" and "codes_ok rest"
  shows "scan (rdr (ws @ 0x22 # rest) r) = Some (value_string, rdr (0x22 # rest) r)"
proof -
  have "skip_spaces (rdr (ws @ 0x22 # rest) r) = Some (rdr (0x22 # rest) r)"
    by (rule skip_spaces_rdr) (use assms ws_ok [OF assms(1)] in \<open>auto simp: solid_def ws_code_def\<close>)
  then show ?thesis by (simp add: scan_def)
qed

lemma scan_word:
  assumes "list_all ws_code ws" and "codes_ok rest"
    and "(s, t) \<in> {(''true'', literal_true), (''false'', literal_false), (''null'', literal_null)}"
  shows "scan (rdr (ws @ asc s @ rest) r) = Some (t, rdr rest r)"
proof -
  have "skip_spaces (rdr (ws @ asc s @ rest) r) = Some (rdr (asc s @ rest) r)"
    by (rule skip_spaces_rdr) (use assms ws_ok [OF assms(1)] in \<open>auto simp: solid_def ws_code_def asc_def\<close>)
  with assms(3) show ?thesis by (elim insertE emptyE) (simp_all add: scan_def asc_def byte_of_def assms(2))
qed

lemma scan_int:
  assumes "list_all ws_code ws" and "codes_ok rest" and "stops rest" and "- (2 ^ 63) < i" and "i < 2 ^ 63"
  shows "\<exists>r'. scan (rdr (ws @ int_codes i @ rest) r) = Some (value_integer, rdr rest r') \<and>
    (if jr_neg r' then - jr_int r' else jr_int r') = i"
proof -
  obtain d ds where d: "digs (nat \<bar>i\<bar>) = d # ds" "d < 10"
    using digs_props [of "nat \<bar>i\<bar>"] by (cases "digs (nat \<bar>i\<bar>)") auto
  define x where "x = (if i < 0 then 45 else dcode d)"
  define xs where "xs = (if i < 0 then dcode d # map dcode ds @ rest else map dcode ds @ rest)"
  have x: "int_codes i @ rest = x # xs" unfolding int_codes_def d x_def xs_def by simp
  have c: "x = 45 \<or> (\<exists>d<10. x = dcode d)" using d(2) by (auto simp: x_def)
  have x': "x \<in> {45, 48, 49, 50, 51, 52, 53, 54, 55, 56, 57}"
    using c nat_less_10_cases by (fastforce simp: dcode_def digit_char_def)
  have "skip_spaces (rdr (ws @ int_codes i @ rest) r) = Some (rdr (int_codes i @ rest) r)"
  proof (rule skip_spaces_rdr [OF assms(1)])
    show "codes_ok (ws @ int_codes i @ rest)" using ws_ok [OF assms(1)] assms(2) by simp
    show "solid (int_codes i @ rest)" using x' unfolding x by (auto simp: solid_def ws_code_def)
  qed
  then have "scan (rdr (ws @ int_codes i @ rest) r) = scan_number (rdr (int_codes i @ rest) r)"
    using x' unfolding x by (elim insertE emptyE) (simp_all add: scan_def)
  with scan_number_rdr [OF assms(4,5,3,2), of r] show ?thesis by simp
qed

lemma scan_end: "list_all ws_code ws \<Longrightarrow> scan (rdr ws r) = Some (end_of_input, rdr [] r)"
  using skip_spaces_rdr [of ws "[]" r] ws_ok [of ws] by (simp add: scan_def solid_def)

lemma string_codes:
  assumes "clean_text n" and "codes_ok rest"
  shows "scan_string (rdr (str_codes n @ rest) r) [] = Some (bytes_of n, rdr rest r)"
  using text_codes [OF assms(1)] scan_string_rdr [of "text_codes n" rest "0x22" r "[]"] assms(2)
  by (simp add: str_codes_def)

lemma text_less_asym: "text_less s t \<Longrightarrow> \<not> text_less t s"
  by (induction s t rule: text_less.induct) auto

lemma emplace_last:
  assumes "sorted_wrt text_less (map fst es @ [n])"
  shows "emplace n v es = es @ [(n, v)]"
proof -
  have less: "text_less m n" if "m \<in> fst ` set es" for m using assms that by (auto simp: sorted_wrt_append)
  then have "n \<notin> fst ` set es" using text_less_irrefl by blast
  moreover have "map_put n v es = es @ [(n, v)]"
    using less
  proof (induction es)
    case (Cons e es)
    obtain m w where e: "e = (m, w)" by fastforce
    with Cons.prems have "text_less m n" by simp
    with text_less_irrefl text_less_asym have "n \<noteq> m" "\<not> text_less n m" by blast+
    with Cons e show ?case by simp
  qed simp
  ultimately show ?thesis by (simp add: emplace_def)
qed


lemma stops_layout:
  assumes "ws_code k" and "c \<in> {0x2C, 0x5D, 0x7D}"
  shows "stops (c # rest)" "stops (nlc s @ c # rest)" "stops (nlc s @ indc s k d @ c # rest)"
  using assms by (auto simp: stops_def nlc_def indc_def code_digit_def)

lemma parse_value_tokens [simp]:
  "do_parse (Value literal_true) r = Some (JBool True, r)" "do_parse (Value literal_false) r = Some (JBool False, r)"
  "do_parse (Value literal_null) r = Some (JNull, r)"
  "do_parse (Value value_integer) r = Some (JInt (if jr_neg r then - jr_int r else jr_int r), r)"
  "do_parse (Value value_string) r = Option.bind (scan_string r []) (\<lambda>(b, r1). Some (JStr (string_of_bytes b), r1))"
  "do_parse (Value begin_array) r = do_parse (Elements []) r" "do_parse (Value begin_object) r = do_parse (Entries []) r"
  by (simp_all add: do_parse.simps [of "Value _"])

text \<open>A value behind white space, as the two calls the parser makes.\<close>

definition parses :: "json \<Rightarrow> u32 list \<Rightarrow> bool" where
  "parses v cs \<longleftrightarrow> (\<forall>ws rest r. list_all ws_code ws \<longrightarrow> stops rest \<longrightarrow> codes_ok rest \<longrightarrow>
     (\<exists>t r1 r2. scan (rdr (ws @ cs @ rest) r) = Some (t, r1) \<and> starts_value t \<and> do_parse (Value t) r1 = Some (v, rdr rest r2)))"

lemma parsesD:
  assumes "parses v cs" and "list_all ws_code ws" and "stops rest" and "codes_ok rest"
  obtains t r1 r2 where "scan (rdr (ws @ cs @ rest) r) = Some (t, r1)" "starts_value t" "do_parse (Value t) r1 = Some (v, rdr rest r2)"
  using assms(1) [unfolded parses_def, rule_format, OF assms(2-4)] by blast

lemma parsesI:
  assumes "\<And>ws rest r. list_all ws_code ws \<Longrightarrow> stops rest \<Longrightarrow> codes_ok rest \<Longrightarrow>
    \<exists>r1 r2. scan (rdr (ws @ cs @ rest) r) = Some (t, r1) \<and> do_parse (Value t) r1 = Some (v, rdr rest r2)"
    and "starts_value t"
  shows "parses v cs"
  using assms unfolding parses_def by blast

lemma parses_leaves:
  "parses JNull (asc ''null'')" "parses (JBool b) (asc (if b then ''true'' else ''false''))"
  "- (2 ^ 63) < i \<Longrightarrow> i < 2 ^ 63 \<Longrightarrow> parses (JInt i) (int_codes i)"
  "clean_text t \<Longrightarrow> parses (JStr t) (str_codes t)"
proof -
  show "parses JNull (asc ''null'')"
    by (rule parsesI [where t = literal_null]) (auto simp: scan_word [where s = "''null''" and t = literal_null] starts_value_def)
  have "parses (JBool True) (asc ''true'')"
    by (rule parsesI [where t = literal_true]) (auto simp: scan_word [where s = "''true''" and t = literal_true] starts_value_def)
  moreover have "parses (JBool False) (asc ''false'')"
    by (rule parsesI [where t = literal_false]) (auto simp: scan_word [where s = "''false''" and t = literal_false] starts_value_def)
  ultimately show "parses (JBool b) (asc (if b then ''true'' else ''false''))" by (cases b) auto
  show "parses (JInt i) (int_codes i)" if "- (2 ^ 63) < i" "i < 2 ^ 63"
  proof (rule parsesI [where t = value_integer])
    fix ws rest r
    assume a: "list_all ws_code ws" "stops rest" "codes_ok rest"
    from scan_int [OF a(1,3,2) that, of r] obtain r' where
      "scan (rdr (ws @ int_codes i @ rest) r) = Some (value_integer, rdr rest r')" "(if jr_neg r' then - jr_int r' else jr_int r') = i"
      by blast
    moreover from this(2) have "do_parse (Value value_integer) (rdr rest r') = Some (JInt i, rdr rest r')"
      by (cases "jr_neg r'") auto
    ultimately show "\<exists>r1 r2. scan (rdr (ws @ int_codes i @ rest) r) = Some (value_integer, r1) \<and>
        do_parse (Value value_integer) r1 = Some (JInt i, rdr rest r2)" by blast
  qed (simp add: starts_value_def)
  show "parses (JStr t) (str_codes t)" if "clean_text t"
  proof (rule parsesI [where t = value_string])
    fix ws rest r
    assume a: "list_all ws_code ws" "stops rest" "codes_ok rest"
    have "codes_ok (str_codes t @ rest)" using a that by simp
    then have "scan (rdr (ws @ str_codes t @ rest) r) = Some (value_string, rdr (str_codes t @ rest) r)"
      using scan_quote [OF a(1), of "tl (str_codes t @ rest)"] by (simp add: str_codes_def)
    moreover have "do_parse (Value value_string) (rdr (str_codes t @ rest) r) = Some (JStr t, rdr rest r)"
      using string_codes [OF that a(3), of r] by (simp add: parse_value_tokens)
    ultimately show "\<exists>r1 r2. scan (rdr (ws @ str_codes t @ rest) r) = Some (value_string, r1) \<and>
        do_parse (Value value_string) r1 = Some (JStr t, rdr rest r2)" by blast
  qed (simp add: starts_value_def)
qed

lemma parses_elements:
  assumes "\<And>v. v \<in> set vs \<Longrightarrow> parses v (jt s k d v) \<and> codes_ok (jt s k d v)" and "ws_code k" and "vs \<noteq> []"
    and "list_all ws_code ws" and "codes_ok rest"
  shows "\<exists>r2. do_parse (Elements acc) (rdr (ws @ jts s k d vs @ nlc s @ indc s k d' @ 0x5D # rest) r) =
    Some (JArr (acc @ vs), rdr rest r2)"
  using assms
proof (induction vs arbitrary: acc ws r)
  case Nil
  then show ?case by simp
next
  case (Cons v vs)
  have lay: "list_all ws_code (nlc s @ indc s k d')" "list_all ws_code (ws @ indc s k d)" "list_all ws_code (nlc s)"
    using Cons.prems by simp_all
  have pv: "parses v (jt s k d v)" using Cons.prems by simp
  show ?case
  proof (cases "vs = []")
    case True
    have ok: "codes_ok ((nlc s @ indc s k d') @ 0x5D # rest)" using ws_ok [OF lay(1)] Cons.prems by simp
    obtain t r1 r2 where p: "scan (rdr (ws @ indc s k d @ jt s k d v @ nlc s @ indc s k d' @ 0x5D # rest) r) = Some (t, r1)"
      "starts_value t" "do_parse (Value t) r1 = Some (v, rdr (nlc s @ indc s k d' @ 0x5D # rest) r2)"
      by (rule parsesD [OF pv lay(2), of "nlc s @ indc s k d' @ 0x5D # rest" r])
        (use stops_layout(3) [of k "0x5D" s d' rest] ok Cons.prems in simp_all)
    have "scan (rdr (nlc s @ indc s k d' @ 0x5D # rest) r2) = Some (end_array, rdr rest r2)"
      using scan_punct [OF lay(1), of rest "0x5D" end_array r2] Cons.prems by simp
    with p True show ?thesis by (subst do_parse.simps) auto
  next
    case False
    let ?more = "jts s k d vs @ nlc s @ indc s k d' @ 0x5D # rest"
    have more_ok: "codes_ok ?more"
    proof -
      have "codes_ok (jts s k d us)" if "set us \<subseteq> set vs" for us
        using that Cons.prems(1,2) by (induction us) (auto simp: ws_ok)
      then show ?thesis using ws_ok [OF lay(1)] Cons.prems by simp
    qed
    then have ok: "codes_ok (0x2C # nlc s @ ?more)" using ws_ok [OF lay(3)] by simp
    obtain t r1 r2 where p: "scan (rdr (ws @ indc s k d @ jt s k d v @ 0x2C # nlc s @ ?more) r) = Some (t, r1)"
      "starts_value t" "do_parse (Value t) r1 = Some (v, rdr (0x2C # nlc s @ ?more) r2)"
      by (rule parsesD [OF pv lay(2), of "0x2C # nlc s @ ?more" r])
        (use stops_layout(1) [of k "0x2C" "nlc s @ ?more"] ok Cons.prems in simp_all)
    have c: "scan (rdr (0x2C # nlc s @ ?more) r2) = Some (value_separator, rdr (nlc s @ ?more) r2)"
      using scan_punct [of "[]" "nlc s @ ?more" "0x2C" value_separator r2] ok by simp
    obtain r3 where "do_parse (Elements (acc @ [v])) (rdr (nlc s @ ?more) r2) = Some (JArr ((acc @ [v]) @ vs), rdr rest r3)"
      using Cons.IH [of "nlc s" "acc @ [v]" r2] Cons.prems False lay(3) by auto
    with p c False show ?thesis by (subst do_parse.simps) auto
  qed
qed

lemma parses_field:
  assumes "parses v cs" and "codes_ok cs" and "clean_text n" and "ws_code k" and "list_all ws_code ws" and "stops rest" and "codes_ok rest"
  shows "\<exists>r2. do_parse (Entries acc) (rdr (ws @ str_codes n @ 0x3A # blankc s k @ cs @ rest) r) =
    Option.bind (scan (rdr rest r2)) (\<lambda>(t, r6).
      if t = value_separator then do_parse (Entries (emplace n v acc)) r6
      else if t = end_object then Some (JObj (emplace n v acc), r6) else None)"
proof -
  let ?rest = "blankc s k @ cs @ rest"
  have bl: "list_all ws_code (blankc s k)" using assms(4) by simp
  have ok: "codes_ok ?rest" using assms ws_ok [OF bl] by simp
  then have ok': "codes_ok (0x3A # ?rest)" by simp
  have ok'': "codes_ok (str_codes n @ 0x3A # ?rest)" using assms(3) ok' by simp
  have q: "scan (rdr (ws @ str_codes n @ 0x3A # ?rest) r) = Some (value_string, rdr (str_codes n @ 0x3A # ?rest) r)"
    using scan_quote [OF assms(5), of "tl (str_codes n @ 0x3A # ?rest)"] ok'' by (simp add: str_codes_def)
  note st = string_codes [OF assms(3) ok', of r]
  have c: "scan (rdr (0x3A # ?rest) r) = Some (name_separator, rdr ?rest r)"
    using scan_punct [of "[]" ?rest "0x3A" name_separator r] ok by simp
  obtain t r1 r2 where v: "scan (rdr ?rest r) = Some (t, r1)" "starts_value t" "do_parse (Value t) r1 = Some (v, rdr rest r2)"
    by (rule parsesD [OF assms(1) bl assms(6,7), of r])
  show ?thesis
    by (rule exI [of _ r2], subst do_parse.simps) (simp add: q st c v Let_def)
qed

lemma jes_codes_ok:
  "\<forall>(n, v)\<in>set es. clean_text n \<and> codes_ok (jt s k d v) \<Longrightarrow> ws_code k \<Longrightarrow> codes_ok (jes s k d es)"
  by (induction es) (auto simp: ws_ok)

lemma parses_entries:
  assumes "\<And>n v. (n, v) \<in> set es \<Longrightarrow> parses v (jt s k d v) \<and> codes_ok (jt s k d v) \<and> clean_text n" and "ws_code k" and "es \<noteq> []"
    and "list_all ws_code ws" and "codes_ok rest" and "sorted_wrt text_less (map fst (acc @ es))"
  shows "\<exists>r2. do_parse (Entries acc) (rdr (ws @ jes s k d es @ nlc s @ indc s k d' @ 0x7D # rest) r) =
    Some (JObj (acc @ es), rdr rest r2)"
  using assms
proof (induction es arbitrary: acc ws r)
  case Nil
  then show ?case by simp
next
  case (Cons e es)
  obtain n v where e: "e = (n, v)" by fastforce
  have lay: "list_all ws_code (nlc s @ indc s k d')" "list_all ws_code (ws @ indc s k d)" "list_all ws_code (nlc s)"
    using Cons.prems by simp_all
  have pv: "parses v (jt s k d v)" "codes_ok (jt s k d v)" "clean_text n" using Cons.prems(1) [of n v] e by simp_all
  have em: "emplace n v acc = acc @ [(n, v)]"
    by (rule emplace_last) (use Cons.prems(6) e in \<open>auto simp: sorted_wrt_append\<close>)
  show ?case
  proof (cases "es = []")
    case True
    have ok: "codes_ok (nlc s @ indc s k d' @ 0x7D # rest)" using ws_ok [OF lay(1)] Cons.prems by simp
    have st: "stops (nlc s @ indc s k d' @ 0x7D # rest)" using stops_layout(3) [of k "0x7D"] Cons.prems(2) by simp
    obtain r2 where p: "do_parse (Entries acc) (rdr ((ws @ indc s k d) @ str_codes n @ 0x3A # blankc s k @ jt s k d v @
          nlc s @ indc s k d' @ 0x7D # rest) r) =
        Option.bind (scan (rdr (nlc s @ indc s k d' @ 0x7D # rest) r2)) (\<lambda>(t, r6).
          if t = value_separator then do_parse (Entries (emplace n v acc)) r6
          else if t = end_object then Some (JObj (emplace n v acc), r6) else None)"
      using parses_field [OF pv Cons.prems(2) lay(2) st ok, where acc = acc and r = r] by blast
    have "scan (rdr (nlc s @ indc s k d' @ 0x7D # rest) r2) = Some (end_object, rdr rest r2)"
      using scan_punct [OF lay(1), of rest "0x7D" end_object r2] Cons.prems by simp
    with p True e em show ?thesis by auto
  next
    case False
    let ?more = "jes s k d es @ nlc s @ indc s k d' @ 0x7D # rest"
    have "codes_ok (jes s k d es)" using Cons.prems(1,2) by (intro jes_codes_ok) auto
    then have "codes_ok ?more" using ws_ok [OF lay(1)] Cons.prems by simp
    then have ok: "codes_ok (0x2C # nlc s @ ?more)" using ws_ok [OF lay(3)] by simp
    have st: "stops (0x2C # nlc s @ ?more)" using stops_layout(1) [of k "0x2C"] Cons.prems(2) by simp
    obtain r2 where p: "do_parse (Entries acc) (rdr ((ws @ indc s k d) @ str_codes n @ 0x3A # blankc s k @ jt s k d v @
          0x2C # nlc s @ ?more) r) =
        Option.bind (scan (rdr (0x2C # nlc s @ ?more) r2)) (\<lambda>(t, r6).
          if t = value_separator then do_parse (Entries (emplace n v acc)) r6
          else if t = end_object then Some (JObj (emplace n v acc), r6) else None)"
      using parses_field [OF pv Cons.prems(2) lay(2) st ok, where acc = acc and r = r] by blast
    have c: "scan (rdr (0x2C # nlc s @ ?more) r2) = Some (value_separator, rdr (nlc s @ ?more) r2)"
      using scan_punct [of "[]" "nlc s @ ?more" "0x2C" value_separator r2] ok by simp
    obtain r3 where "do_parse (Entries (acc @ [(n, v)])) (rdr (nlc s @ ?more) r2) = Some (JObj ((acc @ [(n, v)]) @ es), rdr rest r3)"
      using Cons.IH [of "nlc s" "acc @ [(n, v)]" r2] Cons.prems False lay(3) e by auto
    with p c False e em show ?thesis by auto
  qed
qed

theorem parses_text:
  "ws_code k \<Longrightarrow> json_ok v \<Longrightarrow> parses v (jt s k d v)"
  "ws_code k \<Longrightarrow> list_all json_ok vs \<Longrightarrow> (\<forall>v\<in>set vs. parses v (jt s k d v))"
  "ws_code k \<Longrightarrow> list_all (\<lambda>(n, v). clean_text n \<and> json_ok v) es \<Longrightarrow> (\<forall>(n, v)\<in>set es. parses v (jt s k d v))"
proof (induction s k d v and s k d vs and s k d es rule: jt_jts_jes.induct)
  case (6 s k d vs)
  show ?case
  proof (rule parsesI [where t = begin_array])
    fix ws rest r
    assume a: "list_all ws_code ws" "stops rest" "codes_ok rest"
    let ?close = "nlc s @ indc s k d @ 0x5D # rest"
    have lay: "list_all ws_code (nlc s)" "list_all ws_code (nlc s @ indc s k d)" using 6 by simp_all
    have ok: "codes_ok ?close" using ws_ok [OF lay(2)] a(3) by simp
    let ?body = "(if vs = [] then [] else nlc s @ jts s k (Suc d) vs) @ ?close"
    have okb: "codes_ok ?body" using jt_ok(2) 6 ok ws_ok [OF lay(1)] by (cases "vs = []") simp_all
    have b: "scan (rdr (ws @ jt s k d (JArr vs) @ rest) r) = Some (begin_array, rdr ?body r)"
      using scan_punct [OF a(1) okb, of "0x5B" begin_array r] by simp
    have "\<exists>r2. do_parse (Elements []) (rdr ?body r) = Some (JArr vs, rdr rest r2)"
    proof (cases "vs = []")
      case True
      have "scan (rdr ?close r) = Some (end_array, rdr rest r)"
        using scan_punct [OF lay(2) a(3), of "0x5D" end_array r] by simp
      with True show ?thesis by (subst do_parse.simps) (auto simp: starts_value_def)
    next
      case False
      have v: "parses v (jt s k (Suc d) v) \<and> codes_ok (jt s k (Suc d) v)" if "v \<in> set vs" for v
        using 6 False that jt_ok(1) by (auto simp: list_all_iff)
      show ?thesis using parses_elements [OF v 6(2) False lay(1) a(3), where acc = "[]" and d' = d and r = r] False by simp
    qed
    with b show "\<exists>r1 r2. scan (rdr (ws @ jt s k d (JArr vs) @ rest) r) = Some (begin_array, r1) \<and>
        do_parse (Value begin_array) r1 = Some (JArr vs, rdr rest r2)" by (auto simp: parse_value_tokens)
  qed (simp add: starts_value_def)
next
  case (7 s k d es)
  show ?case
  proof (rule parsesI [where t = begin_object])
    fix ws rest r
    assume a: "list_all ws_code ws" "stops rest" "codes_ok rest"
    let ?close = "nlc s @ indc s k d @ 0x7D # rest"
    have lay: "list_all ws_code (nlc s)" "list_all ws_code (nlc s @ indc s k d)" using 7 by simp_all
    have ok: "codes_ok ?close" using ws_ok [OF lay(2)] a(3) by simp
    let ?body = "(if es = [] then [] else nlc s @ jes s k (Suc d) es) @ ?close"
    have okb: "codes_ok ?body" using jt_ok(3) 7 ok ws_ok [OF lay(1)] by (cases "es = []") simp_all
    have b: "scan (rdr (ws @ jt s k d (JObj es) @ rest) r) = Some (begin_object, rdr ?body r)"
      using scan_punct [OF a(1) okb, of "0x7B" begin_object r] by simp
    have "\<exists>r2. do_parse (Entries []) (rdr ?body r) = Some (JObj es, rdr rest r2)"
    proof (cases "es = []")
      case True
      have "scan (rdr ?close r) = Some (end_object, rdr rest r)"
        using scan_punct [OF lay(2) a(3), of "0x7D" end_object r] by simp
      with True show ?thesis by (subst do_parse.simps) (auto simp: starts_value_def)
    next
      case False
      have v: "parses v (jt s k (Suc d) v) \<and> codes_ok (jt s k (Suc d) v) \<and> clean_text n" if "(n, v) \<in> set es" for n v
        using 7 False that jt_ok(1) by (auto simp: list_all_iff)
      show ?thesis using parses_entries [OF v 7(2) False lay(1) a(3), where acc = "[]" and d' = d and r = r] 7(3) False by simp
    qed
    with b show "\<exists>r1 r2. scan (rdr (ws @ jt s k d (JObj es) @ rest) r) = Some (begin_object, r1) \<and>
        do_parse (Value begin_object) r1 = Some (JObj es, rdr rest r2)" by (auto simp: parse_value_tokens)
  qed (simp add: starts_value_def)
next
  case (9 s k d v vs)
  then show ?case by (cases "vs = []") auto
next
  case (11 s k d n v es)
  then show ?case by (cases "es = []") auto
qed (use parses_leaves in \<open>auto\<close>)

section \<open>Written and read back\<close>

lemma json_parse_text:
  assumes "json_ok v" and "ws_code k" and "list_all ws_code ws"
  shows "json_parse (string_of_bytes (encs (jt s k d v @ ws))) = Some v"
proof -
  have ok: "codes_ok (jt s k d v @ ws)" using jt_ok(1) [OF assms(2,1)] ws_ok [OF assms(3)] by simp
  then obtain r where src: "reader_source (encs (jt s k d v @ ws)) = Some (rdr (jt s k d v @ ws) r)"
    using source_rdr by blast
  have st: "stops ws" using assms(3) by (cases ws) (auto simp: stops_def ws_code_def code_digit_def)
  obtain t r1 r2 where p: "scan (rdr (jt s k d v @ ws) r) = Some (t, r1)" "do_parse (Value t) r1 = Some (v, rdr ws r2)"
    by (rule parsesD [OF parses_text(1) [OF assms(2,1)], of "[]" ws s d r]) (use st ws_ok [OF assms(3)] in simp_all)
  show ?thesis using src p scan_end [OF assms(3), of r2] by (simp add: json_parse_def)
qed

lemma json_dump_text:
  assumes "json_ok v" and "ws_code (ucast (byte_of c))"
  shows "json_dump s c v = Some (string_of_bytes (encs (jt s (ucast (byte_of c)) 0 v)))"
proof -
  obtain w where w: "do_dump v (new_writer s c) = Some w" "json_wrote (new_writer s c) (lead (new_writer s c) @ jt s (ucast (byte_of c)) 0 v) w"
    using json_wrote_dump(1) [OF assms(1), of "new_writer s c"] assms(2) by (auto simp: new_writer_def)
  then have "jw_out w = encs (jt s (ucast (byte_of c)) 0 v)" "\<not> jw_began w"
    by (simp_all add: json_wrote_def lead_def new_writer_def indc_def)
  with w show ?thesis by (simp add: json_dump_def writer_defs starts_value_def)
qed

lemma json_roundtrip:
  assumes "json_ok v" and "ws_code (ucast (byte_of c))"
  obtains t where "json_dump s c v = Some t" "json_parse (t @ replicate n (CHR 0x0A)) = Some v"
proof -
  let ?t = "jt s (ucast (byte_of c)) 0 v" and ?ws = "replicate n 10"
  have "char_of (10 :: nat) = CHR 0x0A" by code_simp
  then have "string_of_bytes (encs ?ws) = replicate n (CHR 0x0A)"
    by (induction n) (simp_all add: string_of_bytes_def char_of_byte_def enc_ascii)
  then have "string_of_bytes (encs ?t) @ replicate n (CHR 0x0A) = string_of_bytes (encs (?t @ ?ws))"
    by (simp add: string_of_bytes_def)
  moreover have "list_all ws_code ?ws" by (simp add: list_all_iff ws_code_def)
  ultimately show thesis
    using that json_dump_text [OF assms] json_parse_text [OF assms] by metis
qed

end
