(* ===== verification/Json_Bind.thy ===== *)
theory Json_Bind
  imports Json_Laws Settings
begin

text \<open>
  The binding of classes to JSON objects, \<^verbatim>\<open>lib/configor/configor_conversion.hpp\<close> and the accesses of
  \<^verbatim>\<open>configor_basic.hpp\<close> it uses, and with it the file of the settings: the \<^verbatim>\<open>JSON_BIND\<close> lists,
  \<^verbatim>\<open>load\<close> and \<^verbatim>\<open>save\<close> of \<^verbatim>\<open>data/rtu_setting.hpp\<close>. A conversion returns the object it was given as
  far as it has been read and whether it ended without an exception.
\<close>

section \<open>From values to JSON\<close>

text \<open>\<^verbatim>\<open>to_config\<close>: a container starts from null and becomes an array or an object with its first
  element, a class stores its fields one by one under their names.\<close>

definition to_integer :: "int \<Rightarrow> json" where
  "to_integer i = JInt i"

definition to_vector :: "('a \<Rightarrow> json) \<Rightarrow> 'a list \<Rightarrow> json" where
  "to_vector f xs = (if xs = [] then JNull else JArr (map f xs))"

definition bind_entries :: "(string \<times> json) list \<Rightarrow> (string \<times> json) list" where
  "bind_entries fs = foldl (\<lambda>m (k, v). map_put k v m) [] fs"

definition to_map :: "('a \<Rightarrow> json) \<Rightarrow> (string \<times> 'a) list \<Rightarrow> json" where
  "to_map f m = (if m = [] then JNull else JObj (bind_entries (map (\<lambda>(k, v). (k, f v)) m)))"

definition bind_to :: "(string \<times> json) list \<Rightarrow> json" where
  "bind_to fs = (if fs = [] then JNull else JObj (bind_entries fs))"

section \<open>From JSON to values\<close>

definition from_int :: "json \<Rightarrow> int \<Rightarrow> int \<times> bool" where
  "from_int j v = (case j of JInt i \<Rightarrow> (to_int32 i, True) | _ \<Rightarrow> (v, False))"

definition from_l64 :: "json \<Rightarrow> l64 \<Rightarrow> l64 \<times> bool" where
  "from_l64 j v = (case j of JInt i \<Rightarrow> (word_of_int i, True) | _ \<Rightarrow> (v, False))"

definition from_text :: "json \<Rightarrow> string \<Rightarrow> string \<times> bool" where
  "from_text j v = (case j of JStr t \<Rightarrow> (t, True) | _ \<Rightarrow> (v, False))"

definition json_size :: "json \<Rightarrow> nat" where
  "json_size j = (case j of JNull \<Rightarrow> 0 | JArr vs \<Rightarrow> length vs | JObj es \<Rightarrow> length es | _ \<Rightarrow> 1)"

text \<open>A vector takes the size first; an element that cannot be read ends the loop.\<close>

definition resize_to :: "nat \<Rightarrow> 'a \<Rightarrow> 'a list \<Rightarrow> 'a list" where
  "resize_to n blank v = take n v @ replicate (n - length v) blank"

fun from_elements :: "(json \<Rightarrow> 'a \<Rightarrow> 'a \<times> bool) \<Rightarrow> 'a \<Rightarrow> json list \<Rightarrow> 'a list \<Rightarrow> 'a list \<times> bool" where
  "from_elements f blank [] vs = (vs, True)"
| "from_elements f blank (j # js) vs =
     (case f j blank of
        (x, ok) \<Rightarrow>
          if ok then (case from_elements f blank js (drop 1 vs) of (xs, ok) \<Rightarrow> (x # xs, ok))
          else (vs, False))"

definition from_vector :: "(json \<Rightarrow> 'a \<Rightarrow> 'a \<times> bool) \<Rightarrow> 'a \<Rightarrow> json \<Rightarrow> 'a list \<Rightarrow> 'a list \<times> bool" where
  "from_vector f blank j v =
     (let v' = resize_to (json_size j) blank v
      in case j of JArr js \<Rightarrow> from_elements f blank js v' | _ \<Rightarrow> (v', json_size j = 0))"

fun from_entries :: "(json \<Rightarrow> 'a \<Rightarrow> 'a \<times> bool) \<Rightarrow> 'a \<Rightarrow> (string \<times> json) list \<Rightarrow> (string \<times> 'a) list \<Rightarrow> (string \<times> 'a) list \<times> bool" where
  "from_entries f blank [] m = (m, True)"
| "from_entries f blank ((k, j) # es) m =
     (case f j blank of
        (x, ok) \<Rightarrow> if ok then from_entries f blank es (emplace k x m) else (m, False))"

text \<open>Only the entries of an object have a name.\<close>

definition from_map :: "(json \<Rightarrow> 'a \<Rightarrow> 'a \<times> bool) \<Rightarrow> 'a \<Rightarrow> json \<Rightarrow> (string \<times> 'a) list \<Rightarrow> (string \<times> 'a) list \<times> bool" where
  "from_map f blank j m =
     (case j of JObj es \<Rightarrow> from_entries f blank es m | _ \<Rightarrow> (m, json_size j = 0))"

text \<open>\<^verbatim>\<open>at\<close>: an object with the name, or an exception.\<close>

definition json_at :: "string \<Rightarrow> json \<Rightarrow> json option" where
  "json_at k j = (case j of JObj es \<Rightarrow> map_of es k | _ \<Rightarrow> None)"

text \<open>\<^verbatim>\<open>CONFIGOR_FROM_CONF\<close> for a list of fields. A missing name is an exception; the \<^verbatim>\<open>get\<close> behind it
  catches every exception of the conversion, so that a field of another type keeps what it has.\<close>

fun bind_from :: "(string \<times> (json \<Rightarrow> 's \<Rightarrow> 's)) list \<Rightarrow> json \<Rightarrow> 's \<Rightarrow> 's \<times> bool" where
  "bind_from [] j s = (s, True)"
| "bind_from ((k, g) # fs) j s = (case json_at k j of None \<Rightarrow> (s, False) | Some w \<Rightarrow> bind_from fs j (g w s))"

section \<open>The settings and their file\<close>

definition int_field :: "((int \<Rightarrow> int) \<Rightarrow> 's \<Rightarrow> 's) \<Rightarrow> json \<Rightarrow> 's \<Rightarrow> 's" where
  "int_field upd w = upd (\<lambda>x. fst (from_int w x))"

definition text_field :: "((string \<Rightarrow> string) \<Rightarrow> 's \<Rightarrow> 's) \<Rightarrow> json \<Rightarrow> 's \<Rightarrow> 's" where
  "text_field upd w = upd (\<lambda>x. fst (from_text w x))"

definition texts_field :: "((string list \<Rightarrow> string list) \<Rightarrow> 's \<Rightarrow> 's) \<Rightarrow> json \<Rightarrow> 's \<Rightarrow> 's" where
  "texts_field upd w = upd (\<lambda>x. fst (from_vector from_text '''' w x))"

definition ftp_fields :: "(string \<times> (json \<Rightarrow> rtu_ftp \<Rightarrow> rtu_ftp)) list" where
  "ftp_fields =
     [(''enable'', int_field ftp_enable_update), (''ip'', text_field ftp_ip_update), (''user'', text_field ftp_user_update),
      (''password'', text_field ftp_password_update), (''downdir'', text_field ftp_downdir_update),
      (''serverdir'', text_field ftp_serverdir_update), (''interval'', int_field ftp_interval_update)]"

definition ftp_to :: "rtu_ftp \<Rightarrow> (string \<times> json) list" where
  "ftp_to f =
     [(''enable'', to_integer (ftp_enable f)), (''ip'', JStr (ftp_ip f)), (''user'', JStr (ftp_user f)),
      (''password'', JStr (ftp_password f)), (''downdir'', JStr (ftp_downdir f)),
      (''serverdir'', JStr (ftp_serverdir f)), (''interval'', to_integer (ftp_interval f))]"

definition rs485_fields :: "(string \<times> (json \<Rightarrow> rtu_485 \<Rightarrow> rtu_485)) list" where
  "rs485_fields =
     [(''factorType'', text_field rs_factorType_update), (''port'', text_field rs_port_update), (''baud'', int_field rs_baud_update),
      (''brandName'', text_field rs_brandName_update), (''requestCmd'', text_field rs_requestCmd_update),
      (''resultDataFilter'', text_field rs_resultDataFilter_update), (''dataType'', text_field rs_dataType_update),
      (''dataFormatter'', text_field rs_dataFormatter_update)]"

definition rs485_to :: "rtu_485 \<Rightarrow> (string \<times> json) list" where
  "rs485_to r =
     [(''factorType'', JStr (rs_factorType r)), (''port'', JStr (rs_port r)), (''baud'', to_integer (rs_baud r)),
      (''brandName'', JStr (rs_brandName r)), (''requestCmd'', JStr (rs_requestCmd r)),
      (''resultDataFilter'', JStr (rs_resultDataFilter r)), (''dataType'', JStr (rs_dataType r)),
      (''dataFormatter'', JStr (rs_dataFormatter r))]"

definition blank_rs485 :: rtu_485 where
  "blank_rs485 = \<lparr>rs_factorType = '''', rs_port = '''', rs_baud = 0, rs_brandName = '''', rs_requestCmd = '''',
     rs_resultDataFilter = '''', rs_dataType = '''', rs_dataFormatter = '''', rs_err_cnt = 0\<rparr>"

definition rtu_fields :: "(string \<times> (json \<Rightarrow> rtu_setting \<Rightarrow> rtu_setting)) list" where
  "rtu_fields =
     [(''logsmax_5min'', int_field rtu_logsmax_5min_update), (''terminalNo'', text_field rtu_terminalNo_update),
      (''terminalType'', int_field rtu_terminalType_update), (''model'', text_field rtu_model_update),
      (''passwd'', text_field rtu_passwd_update), (''center'', \<lambda>w. rtu_center_update (\<lambda>x. fst (from_vector from_int 0 w x))),
      (''remote'', texts_field rtu_remote_update), (''bdSerialPort'', text_field rtu_bdSerialPort_update),
      (''bdBaud'', int_field rtu_bdBaud_update), (''shishi'', texts_field rtu_shishi_update),
      (''dingshi'', texts_field rtu_dingshi_update), (''xiaoshi'', texts_field rtu_xiaoshi_update),
      (''jiabao'', \<lambda>w. rtu_jiabao_update (\<lambda>x. fst (from_map (from_vector from_text '''') [] w x))),
      (''rs485'', \<lambda>w. rtu_rs485_update (\<lambda>x. fst (from_vector (bind_from rs485_fields) blank_rs485 w x))),
      (''ftp'', \<lambda>w. rtu_ftp_set_update (\<lambda>x. fst (bind_from ftp_fields w x))),
      (''runtime'', \<lambda>w. rtu_runtime_update (\<lambda>x. fst (from_map from_l64 0 w x))),
      (''personalset'', \<lambda>w. rtu_personalset_update (\<lambda>x. fst (from_map from_text '''' w x)))]"

definition rtu_to :: "rtu_setting \<Rightarrow> (string \<times> json) list" where
  "rtu_to s =
     [(''logsmax_5min'', to_integer (rtu_logsmax_5min s)), (''terminalNo'', JStr (rtu_terminalNo s)),
      (''terminalType'', to_integer (rtu_terminalType s)), (''model'', JStr (rtu_model s)),
      (''passwd'', JStr (rtu_passwd s)), (''center'', to_vector to_integer (rtu_center s)),
      (''remote'', to_vector JStr (rtu_remote s)), (''bdSerialPort'', JStr (rtu_bdSerialPort s)),
      (''bdBaud'', to_integer (rtu_bdBaud s)), (''shishi'', to_vector JStr (rtu_shishi s)),
      (''dingshi'', to_vector JStr (rtu_dingshi s)), (''xiaoshi'', to_vector JStr (rtu_xiaoshi s)),
      (''jiabao'', to_map (to_vector JStr) (rtu_jiabao s)), (''rs485'', to_vector (\<lambda>r. bind_to (rs485_to r)) (rtu_rs485 s)),
      (''ftp'', bind_to (ftp_to (rtu_ftp_set s))), (''runtime'', to_map (\<lambda>v. to_integer (sint v)) (rtu_runtime s)),
      (''personalset'', to_map JStr (rtu_personalset s))]"

text \<open>A new object: its texts and containers are empty, \<open>mem\<close> is what its memory held for the rest.\<close>

definition new_rtu_setting :: "rtu_setting \<Rightarrow> rtu_setting" where
  "new_rtu_setting mem =
     mem\<lparr>rtu_terminalNo := '''', rtu_model := '''', rtu_passwd := '''', rtu_center := [], rtu_remote := [],
       rtu_bdSerialPort := '''', rtu_shishi := [], rtu_dingshi := [], rtu_xiaoshi := [], rtu_jiabao := [], rtu_rs485 := [],
       rtu_ftp_set := (rtu_ftp_set mem)\<lparr>ftp_ip := '''', ftp_user := '''', ftp_password := '''', ftp_downdir := '''',
         ftp_serverdir := ''''\<rparr>, rtu_runtime := [], rtu_personalset := []\<rparr>"

text \<open>\<^verbatim>\<open>load\<close> and \<^verbatim>\<open>save\<close> on the text of the file; the text \<^verbatim>\<open>load\<close> returns is not used.\<close>

definition rtu_load :: "rtu_setting \<Rightarrow> string \<Rightarrow> rtu_setting option" where
  "rtu_load mem text = do {
     j \<leftarrow> json_parse text;
     (case bind_from rtu_fields j (new_rtu_setting mem) of (s, ok) \<Rightarrow> if ok then Some s else None) }"

definition rtu_save :: "rtu_setting \<Rightarrow> string option" where
  "rtu_save s = do {
     t \<leftarrow> json_dump 4 (CHR '' '') (bind_to (rtu_to s));
     Some (t @ [CHR 0x0A]) }"

section \<open>Objects built field by field\<close>

lemma map_put_set: "set (map_put k v m) \<subseteq> insert (k, v) (set m)"
  by (induction m) (auto split: if_splits)

lemma map_put_last:
  assumes "\<forall>m\<in>fst ` set es. text_less m k"
  shows "map_put k v es = es @ [(k, v)]"
  using assms
proof (induction es)
  case (Cons e es)
  obtain m w where e: "e = (m, w)" by fastforce
  with Cons.prems have "text_less m k" by simp
  with text_less_irrefl text_less_asym have "k \<noteq> m" "\<not> text_less k m" by blast+
  with Cons e show ?case by simp
qed simp

lemma bind_entries_snoc: "bind_entries (fs @ [(k, v)]) = map_put k v (bind_entries fs)"
  by (simp add: bind_entries_def)

lemma bind_entries_sorted: "sorted_wrt text_less (map fst (bind_entries fs))"
proof (induction fs rule: rev_induct)
  case (snoc e fs)
  then show ?case by (cases e) (simp add: bind_entries_snoc map_put_sorted)
qed (simp add: bind_entries_def)

lemma bind_entries_set: "set (bind_entries fs) \<subseteq> set fs"
proof (induction fs rule: rev_induct)
  case (snoc e fs)
  then show ?case using map_put_set by (cases e) (fastforce simp: bind_entries_snoc)
qed (simp add: bind_entries_def)

lemma bind_entries_map: "map_of (bind_entries fs) = map_of (rev fs)"
proof (induction fs rule: rev_induct)
  case (snoc e fs)
  then show ?case by (cases e) (simp add: bind_entries_snoc map_of_map_put bind_entries_sorted)
qed (simp add: bind_entries_def)

lemma bind_entries_keys: "fst ` set (bind_entries fs) = fst ` set fs"
  using dom_map_of_conv_image_fst [of "bind_entries fs"] dom_map_of_conv_image_fst [of "rev fs"] by (simp add: bind_entries_map)

lemma bind_entries_id: "sorted_wrt text_less (map fst fs) \<Longrightarrow> bind_entries fs = fs"
proof (induction fs rule: rev_induct)
  case (snoc e fs)
  then show ?case by (cases e) (simp add: bind_entries_snoc sorted_wrt_append map_put_last)
qed (simp add: bind_entries_def)

lemma json_at_bind: "fs \<noteq> [] \<Longrightarrow> json_at k (bind_to fs) = map_of (rev fs) k"
  by (simp add: json_at_def bind_to_def bind_entries_map)

lemma json_ok_bind:
  assumes "\<forall>(k, v)\<in>set fs. clean_text k \<and> json_ok v"
  shows "json_ok (bind_to fs)"
  using assms bind_entries_sorted [of fs] bind_entries_set [of fs] by (auto simp: bind_to_def list_all_iff)

lemma sorted_names: "sorted_wrt text_less ks \<Longrightarrow> distinct ks"
  by (induction ks) (auto simp: text_less_irrefl)

section \<open>Containers read back\<close>

definition int32_ok :: "int \<Rightarrow> bool" where
  "int32_ok i \<longleftrightarrow> - (2 ^ 31) \<le> i \<and> i < 2 ^ 31"

lemma from_int_back [simp]: "int32_ok i \<Longrightarrow> from_int (to_integer i) v = (i, True)"
  by (simp add: from_int_def to_integer_def int32_ok_def to_int32_id)

lemma from_text_back [simp]: "from_text (JStr t) v = (t, True)"
  by (simp add: from_text_def)

lemma from_l64_back [simp]: "from_l64 (to_integer (sint x)) v = (x, True)"
  by (simp add: from_l64_def to_integer_def)

lemma from_elements_back:
  "\<forall>x\<in>set xs. f (g x) blank = (h x, True) \<Longrightarrow> length vs = length xs \<Longrightarrow>
    from_elements f blank (map g xs) vs = (map h xs, True)"
  by (induction xs arbitrary: vs) auto

lemma from_vector_back:
  "\<forall>x\<in>set xs. f (g x) blank = (h x, True) \<Longrightarrow> from_vector f blank (to_vector g xs) [] = (map h xs, True)"
  by (auto simp: from_vector_def to_vector_def json_size_def resize_to_def from_elements_back)

lemma from_entries_back:
  "\<forall>(k, x)\<in>set m. f (g x) blank = (x, True) \<Longrightarrow> sorted_wrt text_less (map fst (acc @ m)) \<Longrightarrow>
    from_entries f blank (map (\<lambda>(k, x). (k, g x)) m) acc = (acc @ m, True)"
proof (induction m arbitrary: acc)
  case (Cons e m)
  obtain k x where e: "e = (k, x)" by fastforce
  have "emplace k x acc = acc @ [(k, x)]" by (rule emplace_last) (use Cons.prems(2) e in \<open>auto simp: sorted_wrt_append\<close>)
  with Cons e show ?case by simp
qed simp

lemma from_map_back:
  assumes "\<forall>(k, x)\<in>set m. f (g x) blank = (x, True)" and "sorted_wrt text_less (map fst m)"
  shows "from_map f blank (to_map g m) [] = (m, True)"
proof -
  have "bind_entries (map (\<lambda>(k, v). (k, g v)) m) = map (\<lambda>(k, v). (k, g v)) m"
    by (rule bind_entries_id) (use assms(2) in \<open>simp add: comp_def case_prod_beta\<close>)
  with from_entries_back [of m f g blank "[]"] assms show ?thesis
    by (simp add: from_map_def to_map_def json_size_def)
qed

lemma json_ok_vector: "\<forall>x\<in>set xs. json_ok (g x) \<Longrightarrow> json_ok (to_vector g xs)"
  by (simp add: to_vector_def list_all_iff)

lemma to_map_bind: "to_map g m = bind_to (map (\<lambda>(k, v). (k, g v)) m)"
  by (simp add: to_map_def bind_to_def)

lemma json_ok_map: "\<forall>(k, x)\<in>set m. clean_text k \<and> json_ok (g x) \<Longrightarrow> json_ok (to_map g m)"
  using json_ok_bind [of "map (\<lambda>(k, v). (k, g v)) m"] by (fastforce simp: to_map_bind)

text \<open>The names of the fields are plain texts.\<close>

definition ascii_text :: "string \<Rightarrow> bool" where
  "ascii_text s \<longleftrightarrow> list_all (\<lambda>c. 31 < (of_char c :: nat) \<and> (of_char c :: nat) < 128) s"

lemma ascii_clean: "ascii_text s \<Longrightarrow> clean_text s"
  by (rule clean_ascii) (simp add: ascii_text_def list_all_iff)

definition rtu_keys :: "string list" where
  "rtu_keys = [''logsmax_5min'', ''terminalNo'', ''terminalType'', ''model'', ''passwd'', ''center'', ''remote'',
     ''bdSerialPort'', ''bdBaud'', ''shishi'', ''dingshi'', ''xiaoshi'', ''jiabao'', ''rs485'', ''ftp'', ''runtime'', ''personalset'']"

definition ftp_keys :: "string list" where
  "ftp_keys = [''enable'', ''ip'', ''user'', ''password'', ''downdir'', ''serverdir'', ''interval'']"

definition rs485_keys :: "string list" where
  "rs485_keys = [''factorType'', ''port'', ''baud'', ''brandName'', ''requestCmd'', ''resultDataFilter'', ''dataType'', ''dataFormatter'']"

lemma keys_ascii: "list_all ascii_text rtu_keys" "list_all ascii_text ftp_keys" "list_all ascii_text rs485_keys"
  by code_simp+

lemma keys_distinct: "distinct rtu_keys" "distinct ftp_keys" "distinct rs485_keys"
  by (simp_all add: rtu_keys_def ftp_keys_def rs485_keys_def)

lemma keys_fields:
  "map fst rtu_fields = rtu_keys" "map fst ftp_fields = ftp_keys" "map fst rs485_fields = rs485_keys"
  "map fst (rtu_to s) = rtu_keys" "map fst (ftp_to f) = ftp_keys" "map fst (rs485_to r) = rs485_keys"
  by (simp_all add: rtu_keys_def ftp_keys_def rs485_keys_def rtu_fields_def ftp_fields_def rs485_fields_def rtu_to_def
      ftp_to_def rs485_to_def)

lemma json_ok_fields:
  assumes "list_all ascii_text (map fst fs)" and "list_all json_ok (map snd fs)"
  shows "json_ok (bind_to fs)"
  by (rule json_ok_bind) (use assms ascii_clean in \<open>auto simp: list_all_iff\<close>)

lemma json_at_fields: "distinct (map fst fs) \<Longrightarrow> (k, v) \<in> set fs \<Longrightarrow> json_at k (bind_to fs) = Some v"
  by (subst json_at_bind) (auto simp: rev_map [symmetric])

text \<open>A class read back from the object it was bound to: each field in turn gets its value.\<close>

lemma bind_from_back:
  assumes "distinct (map fst fs)" and "\<forall>(k, g)\<in>set gs. \<exists>v. (k, v) \<in> set fs"
  shows "bind_from gs (bind_to fs) s = (foldl (\<lambda>s (k, g). g (the (map_of fs k)) s) s gs, True)"
  using assms(2)
proof (induction gs arbitrary: s)
  case (Cons e gs)
  obtain k g where e: "e = (k, g)" by fastforce
  with Cons.prems obtain v where v: "(k, v) \<in> set fs" by auto
  with assms(1) have "map_of fs k = Some v" by simp
  with json_at_fields [OF assms(1) v] Cons e show ?case by simp
qed simp

section \<open>The settings read back\<close>

definition ftp_ok :: "rtu_ftp \<Rightarrow> bool" where
  "ftp_ok f \<longleftrightarrow> int32_ok (ftp_enable f) \<and> int32_ok (ftp_interval f) \<and>
     list_all clean_text [ftp_ip f, ftp_user f, ftp_password f, ftp_downdir f, ftp_serverdir f]"

definition rs485_ok :: "rtu_485 \<Rightarrow> bool" where
  "rs485_ok r \<longleftrightarrow> int32_ok (rs_baud r) \<and>
     list_all clean_text [rs_factorType r, rs_port r, rs_brandName r, rs_requestCmd r, rs_resultDataFilter r, rs_dataType r,
       rs_dataFormatter r]"

definition names_ok :: "(string \<times> 'a) list \<Rightarrow> bool" where
  "names_ok m \<longleftrightarrow> sorted_wrt text_less (map fst m) \<and> list_all clean_text (map fst m)"

definition rtu_ok :: "rtu_setting \<Rightarrow> bool" where
  "rtu_ok s \<longleftrightarrow> list_all int32_ok ([rtu_logsmax_5min s, rtu_terminalType s, rtu_bdBaud s] @ rtu_center s) \<and>
     list_all clean_text ([rtu_terminalNo s, rtu_model s, rtu_passwd s, rtu_bdSerialPort s] @ rtu_remote s @ rtu_shishi s @
       rtu_dingshi s @ rtu_xiaoshi s) \<and>
     names_ok (rtu_jiabao s) \<and> list_all (\<lambda>(k, ts). list_all clean_text ts) (rtu_jiabao s) \<and>
     list_all rs485_ok (rtu_rs485 s) \<and> ftp_ok (rtu_ftp_set s) \<and>
     names_ok (rtu_runtime s) \<and> list_all (\<lambda>(k, v). sint v \<noteq> - (2 ^ 63)) (rtu_runtime s) \<and>
     names_ok (rtu_personalset s) \<and> list_all (\<lambda>(k, t). clean_text t) (rtu_personalset s)"

lemma json_ok_int: "int32_ok i \<Longrightarrow> json_ok (to_integer i)"
  by (simp add: to_integer_def int32_ok_def)

lemma json_ok_l64: "sint (v :: l64) \<noteq> - (2 ^ 63) \<Longrightarrow> json_ok (to_integer (sint v))"
  using sint_ge [of v] sint_lt [of v] by (simp add: to_integer_def)

lemma json_ok_ftp: "ftp_ok f \<Longrightarrow> json_ok (bind_to (ftp_to f))"
  by (rule json_ok_fields) (simp_all add: keys_fields keys_ascii, simp add: ftp_to_def ftp_ok_def json_ok_int)

lemma json_ok_rs485: "rs485_ok r \<Longrightarrow> json_ok (bind_to (rs485_to r))"
  by (rule json_ok_fields) (simp_all add: keys_fields keys_ascii, simp add: rs485_to_def rs485_ok_def json_ok_int)

lemma json_ok_rtu_values:
  assumes "rtu_ok s"
  shows "list_all json_ok (map snd (rtu_to s))"
proof -
  have v: "json_ok (to_vector to_integer (rtu_center s))" "json_ok (to_vector JStr (rtu_remote s))"
    "json_ok (to_vector JStr (rtu_shishi s))" "json_ok (to_vector JStr (rtu_dingshi s))" "json_ok (to_vector JStr (rtu_xiaoshi s))"
    "json_ok (to_vector (\<lambda>r. bind_to (rs485_to r)) (rtu_rs485 s))"
    using assms by (auto simp: rtu_ok_def list_all_iff intro!: json_ok_vector json_ok_int json_ok_rs485)
  have "json_ok (to_map (to_vector JStr) (rtu_jiabao s))"
    using assms by (intro json_ok_map) (fastforce simp: rtu_ok_def names_ok_def list_all_iff intro!: json_ok_vector)
  moreover have "json_ok (to_map (\<lambda>v. to_integer (sint v)) (rtu_runtime s))"
    using assms by (intro json_ok_map) (fastforce simp: rtu_ok_def names_ok_def list_all_iff intro!: json_ok_l64)
  moreover have "json_ok (to_map JStr (rtu_personalset s))"
    using assms by (intro json_ok_map) (fastforce simp: rtu_ok_def names_ok_def list_all_iff)
  ultimately show ?thesis
    using v assms by (simp add: rtu_to_def json_ok_int json_ok_ftp rtu_ok_def)
qed

lemma json_ok_rtu: "rtu_ok s \<Longrightarrow> json_ok (bind_to (rtu_to s))"
  by (rule json_ok_fields) (simp_all only: keys_fields keys_ascii json_ok_rtu_values)

lemma ftp_back: "ftp_ok f \<Longrightarrow> bind_from ftp_fields (bind_to (ftp_to f)) g = (f, True)"
  by (subst bind_from_back)
    (simp_all add: keys_fields keys_distinct, simp_all add: ftp_fields_def ftp_to_def int_field_def text_field_def ftp_ok_def)

lemma rs485_back: "rs485_ok r \<Longrightarrow> bind_from rs485_fields (bind_to (rs485_to r)) blank_rs485 = (r\<lparr>rs_err_cnt := 0\<rparr>, True)"
  by (subst bind_from_back)
    (simp_all add: keys_fields keys_distinct,
      simp_all add: rs485_fields_def rs485_to_def int_field_def text_field_def rs485_ok_def blank_rs485_def)

definition loaded :: "bool \<Rightarrow> rtu_setting \<Rightarrow> rtu_setting" where
  "loaded d s = s\<lparr>rtu_dirty := d, rtu_rs485 := map (\<lambda>r. r\<lparr>rs_err_cnt := 0\<rparr>) (rtu_rs485 s)\<rparr>"

lemma rtu_back:
  assumes "rtu_ok s"
  shows "bind_from rtu_fields (bind_to (rtu_to s)) (new_rtu_setting mem) = (loaded (rtu_dirty mem) s, True)"
proof -
  have ints: "from_vector from_int 0 (to_vector to_integer (rtu_center s)) [] = (rtu_center s, True)"
    using assms from_vector_back [of "rtu_center s" from_int to_integer 0 "\<lambda>x. x"] by (simp add: rtu_ok_def list_all_iff)
  have texts: "from_vector from_text '''' (to_vector JStr ts) [] = (ts, True)" for ts
    using from_vector_back [of ts from_text JStr "''''" "\<lambda>x. x"] by simp
  have jiabao: "from_map (from_vector from_text '''') [] (to_map (to_vector JStr) (rtu_jiabao s)) [] = (rtu_jiabao s, True)"
    using assms by (intro from_map_back) (simp_all add: texts rtu_ok_def names_ok_def)
  have rs: "from_vector (bind_from rs485_fields) blank_rs485 (to_vector (\<lambda>r. bind_to (rs485_to r)) (rtu_rs485 s)) [] =
      (map (\<lambda>r. r\<lparr>rs_err_cnt := 0\<rparr>) (rtu_rs485 s), True)"
    using assms by (intro from_vector_back) (simp add: rs485_back rtu_ok_def list_all_iff)
  have runtime: "from_map from_l64 0 (to_map (\<lambda>v. to_integer (sint v)) (rtu_runtime s)) [] = (rtu_runtime s, True)"
    using assms by (intro from_map_back) (simp_all add: rtu_ok_def names_ok_def)
  have personal: "from_map from_text '''' (to_map JStr (rtu_personalset s)) [] = (rtu_personalset s, True)"
    using assms by (intro from_map_back) (simp_all add: rtu_ok_def names_ok_def)
  have ok: "int32_ok (rtu_logsmax_5min s)" "int32_ok (rtu_terminalType s)" "int32_ok (rtu_bdBaud s)" "ftp_ok (rtu_ftp_set s)"
    using assms by (simp_all add: rtu_ok_def)
  have "foldl (\<lambda>s' (k, g). g (the (map_of (rtu_to s) k)) s') (new_rtu_setting mem) rtu_fields = loaded (rtu_dirty mem) s"
    by (simp add: rtu_fields_def rtu_to_def int_field_def text_field_def texts_field_def new_rtu_setting_def
        ints texts jiabao rs runtime personal ftp_back ok loaded_def)
  moreover have "\<forall>(k, g)\<in>set rtu_fields. \<exists>v. (k, v) \<in> set (rtu_to s)"
  proof -
    have "fst ` set rtu_fields = fst ` set (rtu_to s)"
      using keys_fields(1) keys_fields(4) [of s] by (metis list.set_map)
    then show ?thesis by (force simp: image_iff)
  qed
  ultimately show ?thesis by (subst bind_from_back) (simp_all add: keys_fields keys_distinct)
qed

text \<open>The file written by \<^verbatim>\<open>save\<close> and read by \<^verbatim>\<open>load\<close>.\<close>

lemma settings_text:
  assumes "rtu_ok s"
  obtains t where "rtu_save s = Some t" "rtu_load mem t = Some (loaded (rtu_dirty mem) s)"
proof -
  have "ws_code (ucast (byte_of (CHR '' '')))" by (simp add: ws_code_def byte_of_def)
  from json_roundtrip [OF json_ok_rtu [OF assms] this, of 4 1] obtain t where
    "json_dump 4 (CHR '' '') (bind_to (rtu_to s)) = Some t" "json_parse (t @ [CHR 0x0A]) = Some (bind_to (rtu_to s))" by auto
  with that show thesis by (simp add: rtu_save_def rtu_load_def rtu_back [OF assms])
qed

section \<open>Files that are not what they should be\<close>

lemma bind_from_ok: "snd (bind_from gs j s) \<longleftrightarrow> (\<forall>(k, g)\<in>set gs. json_at k j \<noteq> None)"
  by (induction gs arbitrary: s) (auto split: option.splits)

text \<open>\<^verbatim>\<open>load\<close> ends without an exception exactly on the text of an object with all the names.\<close>

lemma load_accepts:
  "rtu_load mem t \<noteq> None \<longleftrightarrow> (\<exists>es. json_parse t = Some (JObj es) \<and> set rtu_keys \<subseteq> fst ` set es)"
proof (cases "json_parse t")
  case (Some j)
  have "rtu_load mem t \<noteq> None \<longleftrightarrow> (\<forall>(k, g)\<in>set rtu_fields. json_at k j \<noteq> None)"
    using bind_from_ok [of rtu_fields j "new_rtu_setting mem"] Some
    by (auto simp: rtu_load_def split: prod.splits if_splits)
  also have "\<dots> \<longleftrightarrow> (\<forall>k\<in>set rtu_keys. json_at k j \<noteq> None)"
    unfolding keys_fields(1) [symmetric] by force
  also have "\<dots> \<longleftrightarrow> (\<exists>es. j = JObj es \<and> set rtu_keys \<subseteq> fst ` set es)"
    by (cases j) (auto simp: json_at_def rtu_keys_def map_of_eq_None_iff)
  finally show ?thesis using Some by simp
qed (simp add: rtu_load_def)


lemma bind_from_fold:
  "\<forall>(k, g)\<in>set gs. json_at k j \<noteq> None \<Longrightarrow>
    bind_from gs j s = (foldl (\<lambda>s (k, g). g (the (json_at k j)) s) s gs, True)"
  by (induction gs arbitrary: s) auto

text \<open>What the file says about a field, independently of the order of reading: a text, a number of 32
  bits, or the value the field has before when the file gives another type. A list has as many elements as
  the value in the file has, from the first element of another type on blank ones; a value that is not a
  list at all counts as one element, an object as as many as it has entries, \<^verbatim>\<open>null\<close> as none.\<close>

definition as_text :: "json \<Rightarrow> string option" where
  "as_text j = (case j of JStr t \<Rightarrow> Some t | _ \<Rightarrow> None)"

definition as_int :: "json \<Rightarrow> int option" where
  "as_int j = (case j of JInt i \<Rightarrow> Some (to_int32 i) | _ \<Rightarrow> None)"

definition read_as :: "(json \<Rightarrow> 'a option) \<Rightarrow> 'a \<Rightarrow> json \<Rightarrow> 'a" where
  "read_as f v j = (case f j of Some x \<Rightarrow> x | None \<Rightarrow> v)"

definition read_list :: "(json \<Rightarrow> 'a option) \<Rightarrow> 'a \<Rightarrow> json \<Rightarrow> 'a list" where
  "read_list f blank j =
     (case j of
        JArr js \<Rightarrow>
          (let p = takeWhile (\<lambda>x. f x \<noteq> None) js
           in map (read_as f blank) p @ replicate (length js - length p) blank)
      | _ \<Rightarrow> replicate (json_size j) blank)"

lemma from_text_as: "from_text j v = (read_as as_text v j, as_text j \<noteq> None)"
  and from_int_as: "from_int j i = (read_as as_int i j, as_int j \<noteq> None)"
  by (cases j; simp add: from_text_def from_int_def read_as_def as_text_def as_int_def)+

lemma from_elements_as:
  assumes "\<And>j. g j blank = (read_as f blank j, f j \<noteq> None)"
  shows "fst (from_elements g blank js (replicate (length js) blank)) =
    (let p = takeWhile (\<lambda>x. f x \<noteq> None) js in map (read_as f blank) p @ replicate (length js - length p) blank)"
  by (induction js) (auto simp: assms Let_def split: prod.splits)

lemma from_vector_as:
  assumes "\<And>j. g j blank = (read_as f blank j, f j \<noteq> None)"
  shows "fst (from_vector g blank j []) = read_list f blank j"
  by (cases j)
    (simp_all add: from_vector_def resize_to_def json_size_def read_list_def from_elements_as [of g blank f, OF assms] Let_def)

text \<open>What a successful \<^verbatim>\<open>load\<close> leaves in the text, number and list fields.\<close>

definition fields_read :: "json \<Rightarrow> rtu_setting \<Rightarrow> rtu_setting \<Rightarrow> bool" where
  "fields_read j mem s \<longleftrightarrow>
     (let at = (\<lambda>k. the (json_at k j))
      in rtu_terminalNo s = read_as as_text '''' (at ''terminalNo'') \<and>
         rtu_model s = read_as as_text '''' (at ''model'') \<and>
         rtu_passwd s = read_as as_text '''' (at ''passwd'') \<and>
         rtu_bdSerialPort s = read_as as_text '''' (at ''bdSerialPort'') \<and>
         rtu_logsmax_5min s = read_as as_int (rtu_logsmax_5min mem) (at ''logsmax_5min'') \<and>
         rtu_terminalType s = read_as as_int (rtu_terminalType mem) (at ''terminalType'') \<and>
         rtu_bdBaud s = read_as as_int (rtu_bdBaud mem) (at ''bdBaud'') \<and>
         rtu_center s = read_list as_int 0 (at ''center'') \<and>
         rtu_remote s = read_list as_text '''' (at ''remote'') \<and>
         rtu_shishi s = read_list as_text '''' (at ''shishi'') \<and>
         rtu_dingshi s = read_list as_text '''' (at ''dingshi'') \<and>
         rtu_xiaoshi s = read_list as_text '''' (at ''xiaoshi''))"

lemma load_fields:
  assumes "json_parse t = Some j" and "rtu_load mem t = Some s"
  shows "fields_read j mem s"
proof -
  have sn: "snd (bind_from rtu_fields j (new_rtu_setting mem))"
    using assms by (auto simp: rtu_load_def split: prod.splits if_splits)
  then have k: "\<forall>(k, g)\<in>set rtu_fields. json_at k j \<noteq> None" by (simp add: bind_from_ok)
  from assms have s: "s = foldl (\<lambda>s (k, g). g (the (json_at k j)) s) (new_rtu_setting mem) rtu_fields"
    by (simp add: rtu_load_def bind_from_fold [OF k])
  note v = from_vector_as [of from_text "''''" as_text, OF from_text_as] from_vector_as [of from_int 0 as_int, OF from_int_as]
  show ?thesis
    unfolding fields_read_def Let_def s
    by (simp add: rtu_fields_def int_field_def text_field_def texts_field_def new_rtu_setting_def v)
      (simp add: from_text_as from_int_as)
qed

lemma to_text_clean: "clean_text (to_text v)"
proof (rule ascii_clean)
  have "list_all ascii_text [hex_chars, ''-'']" by code_simp
  then have "ascii_text (to_dec n)" "ascii_text ''-''" for n using to_dec_hex [of n] by (auto simp: ascii_text_def list_all_iff)
  then show "ascii_text (to_text v)" by (simp add: to_text_def ascii_text_def del: to_dec.simps)
qed


end
