(* ===== verification/Json_Record.thy ===== *)
theory Json_Record
  imports Json_Bind Database "HOL-Library.AList"
begin

text \<open>
  Rows of the data base and their classes, \<^verbatim>\<open>record2class\<close> and \<^verbatim>\<open>class2record\<close> of \<^verbatim>\<open>data/DB.hpp\<close> with the
  classes of \<^verbatim>\<open>app/dataprocess/data_save.h\<close>. A record is the list of its fields and their values. The
  fields of the three classes are whole numbers and texts, the other types of the library do not occur.
\<close>

section \<open>Records and classes\<close>

datatype sql_type = type_int | type_text

datatype sql_value = SInt int | SText string

type_synonym sql_record = "(string \<times> sql_value) list"

text \<open>\<^verbatim>\<open>record2class\<close> writes the values as they are between quotation marks, with a comma behind the
  last one, and reads the text as JSON.\<close>

fun value_text :: "sql_value \<Rightarrow> string" where
  "value_text (SInt i) = (if i < 0 then ''-'' @ to_dec (nat (- i)) else to_dec (nat i))"
| "value_text (SText t) = [CHR 0x22] @ t @ [CHR 0x22]"

definition record_text :: "sql_record \<Rightarrow> string" where
  "record_text pr =
     ''{'' @ concat (map (\<lambda>(n, v). [CHR 0x22] @ n @ [CHR 0x22] @ '':'' @ value_text v @ '','') pr) @ ''}''"

definition record2class :: "(string \<times> (json \<Rightarrow> 's \<Rightarrow> 's)) list \<Rightarrow> sql_record \<Rightarrow> 's \<Rightarrow> 's option" where
  "record2class gs pr blank = do {
     j \<leftarrow> json_parse (record_text pr);
     (case bind_from gs j blank of (s, ok) \<Rightarrow> if ok then Some s else None) }"

definition as_integer :: "json \<Rightarrow> int option" where
  "as_integer j = (case j of JInt i \<Rightarrow> Some i | JBool b \<Rightarrow> Some (of_bool b) | _ \<Rightarrow> None)"

definition as_string :: "json \<Rightarrow> string option" where
  "as_string j =
     (case j of JStr t \<Rightarrow> Some t | JInt i \<Rightarrow> Some (value_text (SInt i)) | JNull \<Rightarrow> Some '''' | _ \<Rightarrow> None)"

text \<open>\<^verbatim>\<open>class2record\<close> sets the fields of the record in the order of their names, all but the key.\<close>

fun class_entries :: "(string \<times> sql_type) list \<Rightarrow> (string \<times> json) list \<Rightarrow> sql_record \<Rightarrow> sql_record option" where
  "class_entries defs [] pr = Some pr"
| "class_entries defs ((k, j) # es) pr =
     (if k = ''_ID'' then class_entries defs es pr
      else case map_of defs k of
        None \<Rightarrow> class_entries defs es pr
      | Some type_int \<Rightarrow> do { i \<leftarrow> as_integer j; class_entries defs es (AList.update k (SInt i) pr) }
      | Some type_text \<Rightarrow> do { t \<leftarrow> as_string j; class_entries defs es (AList.update k (SText t) pr) })"

definition class2record :: "(string \<times> sql_type) list \<Rightarrow> (string \<times> json) list \<Rightarrow> sql_record \<Rightarrow> sql_record option" where
  "class2record defs fs pr = class_entries defs (bind_entries fs) pr"

text \<open>The classes: what they hold is their key and the row.\<close>

definition definition_base :: "(string \<times> sql_type) list" where
  "definition_base = [(''_ID'', type_int), (''date'', type_text), (''data'', type_text), (''code'', type_text)]"

definition definition_important :: "(string \<times> sql_type) list" where
  "definition_important =
     [(''_ID'', type_int), (''name'', type_text), (''date'', type_text), (''data'', type_text), (''code'', type_text)]"

definition definition_bu :: "(string \<times> sql_type) list" where
  "definition_bu =
     [(''_ID'', type_int), (''valid'', type_int), (''name'', type_text), (''date'', type_text), (''cmd'', type_text),
      (''tb'', type_text), (''tdate'', type_text), (''ids'', type_text)]"

definition key_field :: "string \<times> (json \<Rightarrow> int \<times> 'r \<Rightarrow> int \<times> 'r)" where
  "key_field = (''_ID'', \<lambda>w (i, r). (fst (from_int w i), r))"

definition row_field :: "string \<Rightarrow> (json \<Rightarrow> 'r \<Rightarrow> 'r) \<Rightarrow> string \<times> (json \<Rightarrow> int \<times> 'r \<Rightarrow> int \<times> 'r)" where
  "row_field k g = (k, \<lambda>w (i, r). (i, g w r))"

definition base_fields :: "(string \<times> (json \<Rightarrow> int \<times> TbBase \<Rightarrow> int \<times> TbBase)) list" where
  "base_fields =
     [key_field, row_field ''date'' (text_field b_date_update), row_field ''data'' (text_field b_data_update),
      row_field ''code'' (text_field b_code_update)]"

definition base_to :: "int \<times> TbBase \<Rightarrow> (string \<times> json) list" where
  "base_to m =
     (case m of (i, r) \<Rightarrow>
        [(''_ID'', to_integer i), (''date'', JStr (b_date r)), (''data'', JStr (b_data r)), (''code'', JStr (b_code r))])"

definition important_fields :: "(string \<times> (json \<Rightarrow> int \<times> TbImportant \<Rightarrow> int \<times> TbImportant)) list" where
  "important_fields =
     [key_field, row_field ''name'' (text_field i_name_update), row_field ''date'' (text_field i_date_update),
      row_field ''data'' (text_field i_data_update), row_field ''code'' (text_field i_code_update)]"

definition important_to :: "int \<times> TbImportant \<Rightarrow> (string \<times> json) list" where
  "important_to m =
     (case m of (i, r) \<Rightarrow>
        [(''_ID'', to_integer i), (''name'', JStr (i_name r)), (''date'', JStr (i_date r)), (''data'', JStr (i_data r)),
         (''code'', JStr (i_code r))])"

definition bu_fields :: "(string \<times> (json \<Rightarrow> int \<times> TbBu \<Rightarrow> int \<times> TbBu)) list" where
  "bu_fields =
     [key_field, row_field ''valid'' (int_field u_valid_update), row_field ''name'' (text_field u_name_update),
      row_field ''date'' (text_field u_date_update), row_field ''cmd'' (text_field u_cmd_update),
      row_field ''tb'' (text_field u_tb_update), row_field ''tdate'' (text_field u_tdate_update),
      row_field ''ids'' (text_field u_ids_update)]"

definition bu_to :: "int \<times> TbBu \<Rightarrow> (string \<times> json) list" where
  "bu_to m =
     (case m of (i, r) \<Rightarrow>
        [(''_ID'', to_integer i), (''valid'', to_integer (u_valid r)), (''name'', JStr (u_name r)), (''date'', JStr (u_date r)),
         (''cmd'', JStr (u_cmd r)), (''tb'', JStr (u_tb r)), (''tdate'', JStr (u_tdate r)), (''ids'', JStr (u_ids r))])"

section \<open>The text of a record\<close>

lemma enc_nonempty: "c \<le> 0x10FFFF \<Longrightarrow> enc c \<noteq> []"
  using decode_enc [of c "[]"] by auto

lemma encs_inj: "encs cs = encs ds \<Longrightarrow> codes_ok cs \<Longrightarrow> codes_ok ds \<Longrightarrow> cs = ds"
proof (induction cs arbitrary: ds)
  case Nil
  then show ?case using enc_nonempty by (cases ds) auto
next
  case (Cons c cs)
  then obtain d ds' where ds: "ds = d # ds'" using enc_nonempty [of c] by (cases ds) auto
  have eq: "enc c @ encs cs = enc d @ encs ds'" using Cons.prems(1) ds by simp
  have "utf8_decode (enc c @ encs cs) = Some (c, True, encs cs)" using Cons.prems(2) by (intro decode_enc) simp
  moreover have "utf8_decode (enc d @ encs ds') = Some (d, True, encs ds')" using Cons.prems(3) ds by (intro decode_enc) simp
  ultimately have "c = d" "encs cs = encs ds'" unfolding eq by simp_all
  moreover have "cs = ds'" by (rule Cons.IH) (use calculation(2) Cons.prems(2,3) ds in simp_all)
  ultimately show ?case using ds by simp
qed

text \<open>Texts that need no escape: neither a quotation mark nor a backslash nor a control character.\<close>

definition bare :: "string \<Rightarrow> bool" where
  "bare t \<longleftrightarrow> (\<exists>cs. bytes_of t = encs cs \<and> (\<forall>c\<in>set cs. clean c \<and> esc c = [c]))"

lemma bare_codes: "bare t \<Longrightarrow> clean_text t \<and> encs (str_codes t) = 0x22 # bytes_of t @ [0x22]"
proof -
  assume "bare t"
  then obtain cs where cs: "bytes_of t = encs cs" "\<forall>c\<in>set cs. clean c" "\<forall>c\<in>set cs. esc c = [c]"
    unfolding bare_def by blast
  then have cl: "clean_text t" unfolding clean_text_def codes_of_def by blast
  have "codes_ok (text_codes t)" "codes_ok cs" using text_codes [OF cl] cs(2) by (auto simp: codes_ok_def clean_def list_all_iff)
  then have "text_codes t = cs" using text_codes [OF cl] cs(1) by (intro encs_inj) simp_all
  moreover have "escs cs = cs" using cs(3) by (induction cs) auto
  ultimately show ?thesis using cl cs(1) by (simp add: str_codes_def enc_ascii)
qed

fun value_json :: "sql_value \<Rightarrow> json" where
  "value_json (SInt i) = JInt i"
| "value_json (SText t) = JStr t"

fun value_codes :: "sql_value \<Rightarrow> u32 list" where
  "value_codes (SInt i) = int_codes i"
| "value_codes (SText t) = str_codes t"

fun value_ok :: "sql_value \<Rightarrow> bool" where
  "value_ok (SInt i) \<longleftrightarrow> - (2 ^ 63) < i \<and> i < 2 ^ 63"
| "value_ok (SText t) = bare t"

definition field_codes :: "string \<times> sql_value \<Rightarrow> u32 list" where
  "field_codes f = (case f of (n, v) \<Rightarrow> str_codes n @ 0x3A # value_codes v @ [0x2C])"

lemma value_codes_facts:
  assumes "value_ok v"
  shows "parses (value_json v) (value_codes v)" "codes_ok (value_codes v)" "encs (value_codes v) = bytes_of (value_text v)"
  using assms bare_codes parses_leaves(3,4)
  by (cases v; auto simp: encs_int bytes_of_def byte_of_def)+

lemma field_codes_ok: "list_all (\<lambda>(n, v). bare n \<and> value_ok v) pr \<Longrightarrow> codes_ok (concat (map field_codes pr))"
  using value_codes_facts(2) bare_codes by (induction pr) (auto simp: field_codes_def)

text \<open>The parser reads such a text field by field and takes the brace behind the last comma.\<close>

lemma parses_record:
  assumes "list_all (\<lambda>(n, v). bare n \<and> value_ok v) pr" and "pr \<noteq> []" and "codes_ok rest"
  shows "\<exists>r2. do_parse (Entries acc) (rdr (concat (map field_codes pr) @ 0x7D # rest) r) =
    Some (JObj (foldl (\<lambda>m (n, v). emplace n (value_json v) m) acc pr), rdr rest r2)"
  using assms(1,2)
proof (induction pr arbitrary: acc r)
  case (Cons e pr)
  obtain n v where e: "e = (n, v)" by fastforce
  let ?more = "concat (map field_codes pr) @ 0x7D # rest"
  have ok: "codes_ok ?more" using field_codes_ok [of pr] Cons.prems(1) assms(3) by simp
  have n: "clean_text n" "value_ok v" using Cons.prems(1) e bare_codes by auto
  have c: "codes_ok (0x2C # ?more)" "ws_code 0x20" "stops (0x2C # ?more)" "list_all ws_code []"
    using ok by (simp_all add: ws_code_def stops_def code_digit_def)
  obtain r2 where p: "do_parse (Entries acc) (rdr ([] @ str_codes n @ 0x3A # blankc 0 0x20 @ value_codes v @ 0x2C # ?more) r) =
      Option.bind (scan (rdr (0x2C # ?more) r2)) (\<lambda>(t, r6).
        if t = value_separator then do_parse (Entries (emplace n (value_json v) acc)) r6
        else if t = end_object then Some (JObj (emplace n (value_json v) acc), r6) else None)"
    using parses_field [OF value_codes_facts(1,2) [OF n(2)] n(1) c(2,4,3,1), where s = 0 and acc = acc and r = r] by blast
  have c: "scan (rdr (0x2C # ?more) r2) = Some (value_separator, rdr ?more r2)"
    using scan_punct [of "[]" ?more "0x2C" value_separator r2] ok by simp
  have "\<exists>r3. do_parse (Entries (emplace n (value_json v) acc)) (rdr ?more r2) =
      Some (JObj (foldl (\<lambda>m (n, v). emplace n (value_json v) m) (emplace n (value_json v) acc) pr), rdr rest r3)"
  proof (cases "pr = []")
    case True
    have "scan (rdr (0x7D # rest) r2) = Some (end_object, rdr rest r2)"
      using scan_punct [of "[]" rest "0x7D" end_object r2] assms(3) by simp
    with True show ?thesis by (subst do_parse.simps) auto
  next
    case False
    with Cons.IH Cons.prems(1) show ?thesis by simp
  qed
  with p c e show ?case by (auto simp: field_codes_def [of "(n, v)"] blankc_def)
qed simp

lemma fold_emplace:
  "distinct (map fst fs) \<Longrightarrow> foldl (\<lambda>m (n, v). emplace n v m) [] fs = bind_entries fs"
proof (induction fs rule: rev_induct)
  case (snoc e fs)
  obtain k v where e: "e = (k, v)" by fastforce
  have "k \<notin> fst ` set fs" using snoc.prems e by simp
  with bind_entries_set [of fs] have "k \<notin> fst ` set (bind_entries fs)" by blast
  with snoc e show ?case by (simp add: emplace_def bind_entries_snoc)
qed (simp add: bind_entries_def)

lemma record_parse:
  assumes "list_all (\<lambda>(n, v). bare n \<and> value_ok v) pr" and "pr \<noteq> []" and "distinct (map fst pr)"
  shows "json_parse (record_text pr) = Some (bind_to (map (\<lambda>(n, v). (n, value_json v)) pr))"
proof -
  let ?cs = "0x7B # concat (map field_codes pr) @ [0x7D]" and ?fs = "map (\<lambda>(n, v). (n, value_json v)) pr"
  have ok: "codes_ok (concat (map field_codes pr) @ [0x7D])" using field_codes_ok [OF assms(1)] by simp
  have "bytes_of (record_text pr) = encs ?cs"
  proof -
    have "encs (concat (map field_codes pr)) =
        bytes_of (concat (map (\<lambda>(n, v). [CHR 0x22] @ n @ [CHR 0x22] @ '':'' @ value_text v @ '','') pr))"
      using assms(1)
    proof (induction pr)
      case (Cons e pr)
      obtain n v where e: "e = (n, v)" by fastforce
      with Cons bare_codes [of n] value_codes_facts(3) [of v] show ?case
        by (simp add: field_codes_def bytes_of_def byte_of_def enc_ascii)
    qed (simp add: bytes_of_def)
    then show ?thesis by (simp add: record_text_def bytes_of_def byte_of_def enc_ascii)
  qed
  moreover obtain r where "reader_source (encs ?cs) = Some (rdr ?cs r)"
    using source_rdr [of ?cs] ok by auto
  moreover have "scan (rdr ?cs r) = Some (begin_object, rdr (concat (map field_codes pr) @ [0x7D]) r)"
    using scan_punct [of "[]" "concat (map field_codes pr) @ [0x7D]" "0x7B" begin_object r] ok by simp
  moreover obtain r2 where "do_parse (Entries []) (rdr (concat (map field_codes pr) @ [0x7D]) r) =
      Some (JObj (foldl (\<lambda>m (n, v). emplace n (value_json v) m) [] pr), rdr [] r2)"
    using parses_record [OF assms(1,2), of "[]" "[]" r] by auto
  moreover have "foldl (\<lambda>m (n, v). emplace n (value_json v) m) [] pr = foldl (\<lambda>m (n, v). emplace n v m) [] ?fs"
    by (simp add: foldl_map split_def)
  moreover have "distinct (map fst ?fs)" using assms(3) by (simp add: comp_def case_prod_beta)
  ultimately show ?thesis
    using scan_end [of "[]" r2] assms(2) fold_emplace [of ?fs] by (simp add: json_parse_def bind_to_def)
qed


section \<open>Rows written and read back\<close>

lemma bare_ascii:
  assumes "list_all (\<lambda>c. 31 < (of_char c :: nat) \<and> (of_char c :: nat) < 128 \<and> c \<noteq> CHR 0x22 \<and> c \<noteq> CHR 0x5C) s"
  shows "bare s"
proof -
  have a: "\<forall>c\<in>set s. 31 < (of_char c :: nat) \<and> (of_char c :: nat) < 128" using assms by (auto simp: list_all_iff)
  have "esc (of_char c) = [of_char c]" if "c \<in> set s" for c
  proof -
    have n: "c \<noteq> CHR 0x22" "c \<noteq> CHR 0x5C" "(of_char c :: nat) < 128" using assms that by (auto simp: list_all_iff)
    have w: "(of_char c :: u32) = word_of_nat (of_char c)" by (rule of_nat_of_char [symmetric])
    have u: "unat (of_char c :: u32) = of_char c" unfolding w using n(3) by (simp only: unat_of_nat) simp
    have "(of_char c :: u32) \<noteq> 0x22" "(of_char c :: u32) \<noteq> 0x5C"
      using n(1,2) u of_char_eq_iff [where ?'a = nat, of c "CHR 0x22"] of_char_eq_iff [where ?'a = nat, of c "CHR 0x5C"] by auto
    moreover have "0x1F < (of_char c :: u32)" using ascii_codes(2) [OF a] that by blast
    ultimately show ?thesis by (auto simp: esc_def)
  qed
  then show ?thesis unfolding bare_def using ascii_codes [OF a] by (intro exI [of _ "map of_char s"]) auto
qed

lemma names_bare:
  "list_all bare (map fst definition_base)" "list_all bare (map fst definition_important)" "list_all bare (map fst definition_bu)"
proof -
  let ?P = "list_all (\<lambda>c. 31 < (of_char c :: nat) \<and> (of_char c :: nat) < 128 \<and> c \<noteq> CHR 0x22 \<and> c \<noteq> CHR 0x5C)"
  have b: "list_all bare ns" if "list_all ?P ns" for ns
    using that by (rule list.pred_mono_strong) (rule bare_ascii)
  have "list_all ?P (map fst definition_base)" "list_all ?P (map fst definition_important)" "list_all ?P (map fst definition_bu)"
    by code_simp+
  then show "list_all bare (map fst definition_base)" "list_all bare (map fst definition_important)" "list_all bare (map fst definition_bu)"
    using b by blast+
qed

text \<open>A row as the table keeps it: its key and the values of the record.\<close>

definition stored :: "int \<Rightarrow> (string \<times> sql_type) list \<Rightarrow> sql_record \<Rightarrow> sql_record" where
  "stored i defs pr = map (\<lambda>(n, t). (n, if n = ''_ID'' then SInt i else the (map_of pr n))) defs"

lemma record2class_back:
  assumes "list_all (\<lambda>(n, v). bare n \<and> value_ok v) pr" and "pr \<noteq> []" and "distinct (map fst pr)"
    and "\<forall>(k, g)\<in>set gs. \<exists>v. (k, v) \<in> set pr"
  shows "record2class gs pr s = Some (foldl (\<lambda>s (k, g). g (value_json (the (map_of pr k))) s) s gs)"
proof -
  let ?fs = "map (\<lambda>(n, v). (n, value_json v)) pr"
  have d: "distinct (map fst ?fs)" using assms(3) by (simp add: comp_def case_prod_beta)
  have "\<forall>(k, g)\<in>set gs. \<exists>v. (k, v) \<in> set ?fs" using assms(4) by force
  note b = bind_from_back [OF d this, of s]
  have m: "map_of ?fs k = map_option value_json (map_of pr k)" for k by (simp add: map_of_map)
  have "foldl (\<lambda>s (k, g). g (the (map_of ?fs k)) s) s gs = foldl (\<lambda>s (k, g). g (value_json (the (map_of pr k))) s) s gs"
    using assms(4)
  proof (induction gs arbitrary: s)
    case (Cons e gs)
    obtain k g where e: "e = (k, g)" by fastforce
    with Cons.prems obtain v where "(k, v) \<in> set pr" by auto
    then have "map_of pr k = Some v" using assms(3) by simp
    with Cons e show ?case by (simp add: m)
  qed simp
  with b show ?thesis by (simp add: record2class_def record_parse [OF assms(1-3)])
qed

lemma base_row_back:
  assumes "int32_ok i" and "bare (b_date r)" and "bare (b_data r)" and "bare (b_code r)"
  shows "\<exists>pr. class2record definition_base (base_to (j, r)) [] = Some pr \<and>
    record2class base_fields (stored i definition_base pr) m = Some (i, r)"
proof -
  let ?pr = "[(''code'', SText (b_code r)), (''data'', SText (b_data r)), (''date'', SText (b_date r))]"
  have "class2record definition_base (base_to (j, r)) [] = Some ?pr"
    by (simp add: class2record_def base_to_def bind_entries_def byte_of_def definition_base_def as_string_def)
  moreover have ti: "to_int32 i = i" using assms(1) by (simp add: int32_ok_def to_int32_id)
  have "record2class base_fields (stored i definition_base ?pr) m = Some (i, r)"
  proof (subst record2class_back)
    show "list_all (\<lambda>(n, v). bare n \<and> value_ok v) (stored i definition_base ?pr)"
      using names_bare(1) assms by (simp add: stored_def definition_base_def int32_ok_def)
  qed (simp_all add: stored_def definition_base_def base_fields_def key_field_def row_field_def text_field_def
      case_prod_beta from_text_def from_int_def ti)
  ultimately show ?thesis by blast
qed


lemma important_row_back:
  assumes "int32_ok i" and "bare (i_name r)" and "bare (i_date r)" and "bare (i_data r)" and "bare (i_code r)"
  shows "\<exists>pr. class2record definition_important (important_to (j, r)) [] = Some pr \<and>
    record2class important_fields (stored i definition_important pr) m = Some (i, r)"
proof -
  let ?pr = "[(''code'', SText (i_code r)), (''data'', SText (i_data r)), (''date'', SText (i_date r)), (''name'', SText (i_name r))]"
  have ti: "to_int32 i = i" using assms(1) by (simp add: int32_ok_def to_int32_id)
  have "class2record definition_important (important_to (j, r)) [] = Some ?pr"
    by (simp add: class2record_def important_to_def bind_entries_def byte_of_def definition_important_def as_string_def)
  moreover have "record2class important_fields (stored i definition_important ?pr) m = Some (i, r)"
  proof (subst record2class_back)
    show "list_all (\<lambda>(n, v). bare n \<and> value_ok v) (stored i definition_important ?pr)"
      using names_bare(2) assms by (simp add: stored_def definition_important_def int32_ok_def)
  qed (simp_all add: stored_def definition_important_def important_fields_def key_field_def row_field_def text_field_def
      case_prod_beta from_text_def from_int_def ti)
  ultimately show ?thesis by blast
qed

lemma bu_row_back:
  assumes "int32_ok i" and "int32_ok (u_valid r)"
    and "list_all bare [u_name r, u_date r, u_tb r, u_tdate r, u_cmd r, u_ids r]"
  shows "\<exists>pr. class2record definition_bu (bu_to (j, r)) [] = Some pr \<and>
    record2class bu_fields (stored i definition_bu pr) m = Some (i, r)"
proof -
  let ?pr = "[(''cmd'', SText (u_cmd r)), (''date'', SText (u_date r)), (''ids'', SText (u_ids r)), (''name'', SText (u_name r)),
    (''tb'', SText (u_tb r)), (''tdate'', SText (u_tdate r)), (''valid'', SInt (u_valid r))]"
  have ti: "to_int32 i = i" "to_int32 (u_valid r) = u_valid r" using assms(1,2) by (simp_all add: int32_ok_def to_int32_id)
  have "class2record definition_bu (bu_to (j, r)) [] = Some ?pr"
    by (simp add: class2record_def bu_to_def bind_entries_def byte_of_def definition_bu_def as_string_def as_integer_def to_integer_def)
  moreover have "record2class bu_fields (stored i definition_bu ?pr) m = Some (i, r)"
  proof (subst record2class_back)
    show "list_all (\<lambda>(n, v). bare n \<and> value_ok v) (stored i definition_bu ?pr)"
      using names_bare(3) assms by (simp add: stored_def definition_bu_def int32_ok_def)
  qed (simp_all add: stored_def definition_bu_def bu_fields_def key_field_def row_field_def text_field_def int_field_def
      case_prod_beta from_text_def from_int_def ti)
  ultimately show ?thesis by blast
qed


end
