(* ===== verification/Row_Laws.thy ===== *)
theory Row_Laws
  imports Json_Record App_State
begin

text \<open>
  The rows that \<^verbatim>\<open>devdata_db_save\<close> writes are of the plain characters which the unescaped JSON text of
  \<^verbatim>\<open>record2class\<close> carries: a saved record comes back through that text and restores its table.
\<close>

definition printable :: "char \<Rightarrow> bool" where
  "printable c \<longleftrightarrow> 31 < (of_char c :: nat) \<and> (of_char c :: nat) < 128 \<and> c \<noteq> CHR 0x22 \<and> c \<noteq> CHR 0x5C"

lemma printable_bare: "list_all printable s \<Longrightarrow> bare s"
  by (rule bare_ascii) (simp add: printable_def [abs_def])

lemma printable_known: "list_all printable (hex_chars @ log_chars @ ''-,: '')"
  by code_simp

lemma printable_in: "set s \<subseteq> set (hex_chars @ log_chars @ ''-,: '') \<Longrightarrow> list_all printable s"
  using printable_known unfolding list_all_iff by blast

lemma to_dec_printable: "list_all printable (to_dec n)"
  using to_dec_hex [of n] by (intro printable_in) auto

lemma pad2_printable: "list_all printable (pad2 v)"
proof -
  have "digit_char k \<in> set hex_chars" if "k < 10" for k
    using digit_char_hex [OF that] hex_lower_cases(1) [of k] that by simp
  then have "set (pad2 v) \<subseteq> set hex_chars" by (simp add: pad2_def)
  then show ?thesis by (intro printable_in) auto
qed

lemma time_bare: "bare (time2string tz t)"
proof (rule printable_bare)
  have p: "list_all printable ''-''" "list_all printable '':''" "list_all printable '' ''"
    by code_simp+
  obtain a b c d e f where t: "time2string tz t = show_year a @ ''-'' @ pad2 b @ ''-'' @ pad2 c @ '' '' @ pad2 d @ '':'' @ pad2 e @ '':'' @ pad2 f"
    unfolding time2string_def Let_def by blast
  have "list_all printable (show_year a)"
    unfolding show_year_def using p(1) to_dec_printable by (auto simp del: to_dec.simps)
  then show "list_all printable (time2string tz t)"
    unfolding t list_all_append using p pad2_printable by blast
qed

lemma line_bare:
  assumes "log_ok d" and "tolog d = Some line"
  shows "bare line"
proof (rule printable_bare)
  have "run_ok (string_of_bytes (hex_text w))" if "w \<in> set (set_reports d)" for w
  proof (rule hex_text_run)
    have "2 \<le> length w" using set_reports_len [OF assms(1)] that by blast
    then show "w \<noteq> []" by auto
  qed
  then have runs: "\<forall>r \<in> set (map (\<lambda>w. string_of_bytes (hex_text w)) (set_reports d)). run_ok r" by simp
  have "line = log_line (map (\<lambda>w. string_of_bytes (hex_text w)) (set_reports d))"
    using tolog_text [OF assms(1)] assms(2) by simp
  then have "is_log_char c \<or> c = CHR '',''" if "c \<in> set line" for c
    using log_line_chars [OF runs, of c] that by simp
  then show "list_all printable line" by (intro printable_in) (auto simp: is_log_char_def)
qed

lemma saved_row:
  assumes "log_ok d" and "tolog d = Some line" and "bare cd" and "int32_ok i"
  shows "\<exists>pr. class2record definition_base (base_to (j, \<lparr>b_date = time2string tz t, b_data = line, b_code = cd\<rparr>)) [] = Some pr \<and>
    record2class base_fields (stored i definition_base pr) m = Some (i, \<lparr>b_date = time2string tz t, b_data = line, b_code = cd\<rparr>)"
  by (rule base_row_back) (use assms line_bare time_bare in simp_all)

lemma save_rows_back:
  assumes "sql_dates h" and "tb_wf (base_table s tn)" and "h_mem h = (\<lambda>_. True)" and "\<forall>k. length (h_junk h k) = 500"
    and "log_ok d" and "log_target d' d" and "length (set_reports d) < 16"
    and "0 \<le> tm_year (localtime (h_tz h) t) + 1900" and "tm_year (localtime (h_tz h) t) + 1900 < 2 ^ 31"
    and "devdata_db_save h tn cd t d s = Some s'" and "bare cd" and "int32_ok n"
  shows "\<exists>r pr d''. db_update (h_up h) (h_where_base h (date_query h t)) r (base_table s tn) = (0, base_table s' tn) \<and>
    class2record definition_base (base_to (j, r)) [] = Some pr \<and>
    record2class base_fields (stored n definition_base pr) m = Some (n, r) \<and>
    devdata_db_read_data h s' tn t d' = Some (d'', 1) \<and>
    (\<forall>i < length (dc_items d). get_place d'' (PItem i) =
      Some (if is_set_item (dc_items d ! i) then restore (dc_items d ! i) (dc_items d' ! i) else dc_items d' ! i))"
proof -
  let ?q = "h_where_base h (date_query h t)"
  obtain line where line: "tolog d = Some line" using tolog_text [OF assms(5)] by blast
  define r where "r = \<lparr>b_date = time2string (h_tz h) t, b_data = line, b_code = cd\<rparr>"
  have up: "h_up h" and q: "?q r" using assms(1) by (auto simp: sql_dates_def r_def)
  obtain k tab where u: "db_update (h_up h) ?q r (base_table s tn) = (k, tab)" by fastforce
  have "s' = put_base_table tn tab s" using assms(10) line u by (simp add: devdata_db_save_def Let_def r_def)
  moreover have "k = 0" using db_update_find [of "base_table s tn" ?q r k tab] assms(2) q u up by simp
  ultimately have "db_update (h_up h) ?q r (base_table s tn) = (0, base_table s' tn)" using u by simp
  moreover obtain pr where "class2record definition_base (base_to (j, r)) [] = Some pr"
    "record2class base_fields (stored n definition_base pr) m = Some (n, r)"
    using saved_row [OF assms(5) line assms(11,12)] unfolding r_def by blast
  moreover note save_read_data [OF assms(1-10)]
  ultimately show ?thesis by blast
qed


end
