(* ===== verification/Restart_Laws.thy ===== *)
theory Restart_Laws
  imports Json_Bind Center_Laws
begin

text \<open>
  A restart after a command of the centre: the settings that \<^verbatim>\<open>param_save\<close> leaves can be written to
  the file, and what the recovery makes of the loaded file.
\<close>

lemma to_hex_clean: "clean_text (tostring16 v)"
proof (rule ascii_clean)
  have "ascii_text hex_chars" by code_simp
  then show "ascii_text (tostring16 v)"
    using to_hex_chars [of _ "unat v"] by (auto simp: tostring16_def ascii_text_def list_all_iff)
qed

lemma save_center_ok:
  assumes "save_center d pr = Some pr'" and "rtu_ok pr"
  shows "rtu_ok pr'"
proof -
  have k: "int32_ok (int k)" if "k < 256" for k
    using that by (simp add: int32_ok_def)
  have b: "int32_ok (int (unat (b :: u8)))" for b by (rule k) (rule unat_byte_lt)
  have c: "rtu_ok (pr\<lparr>rtu_dirty := True, rtu_center := map (\<lambda>b. int (unat b)) (h4 :: bytes)\<rparr>)" for h4
    using assms(2) b by (simp add: rtu_ok_def list_all_iff)
  show ?thesis using assms c unfolding save_center_def by (auto split: bind_splits if_splits)
qed

lemma rtu_same: "\<exists>x rs. pr = pr\<lparr>rtu_dirty := x, rtu_remote := rs\<rparr>"
  by (intro exI [of _ "rtu_dirty pr"] exI [of _ "rtu_remote pr"]) simp

lemma rtu_changed: "\<exists>x rs. pr\<lparr>rtu_dirty := a, rtu_remote := b\<rparr> = pr\<lparr>rtu_dirty := x, rtu_remote := rs\<rparr>"
  by blast

lemma save_remote_others:
  "save_remote d i k pr = Some pr' \<Longrightarrow> \<exists>x rs. pr' = pr\<lparr>rtu_dirty := x, rtu_remote := rs\<rparr>"
proof (induction k arbitrary: i pr)
  case (Suc k)
  from Suc.prems show ?case
    by (auto split: bind_splits if_splits intro: rtu_same rtu_changed dest!: Suc.IH)
qed (simp add: rtu_same)

lemma param_save_ok:
  assumes "param_save d pr = Some pr'" and "rtu_ok pr" and "rtu_remote pr' = []"
  shows "rtu_ok pr'"
proof -
  obtain no pw where i: "get_place d (at_id d 0x02) = Some no" "get_place d (at_id d 0x03) = Some pw"
    using assms(1) by (auto simp: param_save_def split: bind_splits)
  define pr1 where "pr1 = (if strtoull16 (rtu_terminalNo pr) \<noteq> it_val no
    then pr\<lparr>rtu_terminalNo := to_text (it_val no), rtu_dirty := True\<rparr> else pr)"
  define pr2 where "pr2 = (if it_val pw \<noteq> strtoull16 (rtu_passwd pr1)
    then pr1\<lparr>rtu_passwd := tostring16 (it_val pw), rtu_dirty := True\<rparr> else pr1)"
  have "do {
       pr3 \<leftarrow> save_center d pr2;
       pr4 \<leftarrow> save_remote d 0 8 pr3;
       m \<leftarrow> get_hex d (at_id d 0x0C) 0;
       tt \<leftarrow> get_place d (at_name d ''terminalType'');
       Some ((if m = 0x02 then pr4\<lparr>rtu_model := ''normal''\<rparr> else pr4)\<lparr>rtu_terminalType := to_int32 (sint (it_val tt))\<rparr>) } = Some pr'"
    using assms(1) unfolding param_save_def Let_def pr1_def pr2_def by (simp only: i Option.bind.simps)
  then obtain pr3 pr4 m and tt :: DataClassItem where p: "save_center d pr2 = Some pr3" "save_remote d 0 8 pr3 = Some pr4"
    "(if m = (0x02 :: u8) then pr4\<lparr>rtu_model := ''normal''\<rparr> else pr4)\<lparr>rtu_terminalType := to_int32 (sint (it_val tt))\<rparr> = pr'"
    unfolding Option.bind_eq_Some_conv by (simp only: option.inject) blast
  have "rtu_ok pr1" using assms(2) to_text_clean by (simp add: rtu_ok_def pr1_def)
  then have "rtu_ok pr2" using to_hex_clean by (simp add: rtu_ok_def pr2_def)
  then have r3: "rtu_ok pr3" by (rule save_center_ok [OF p(1)])
  obtain x rs where r4: "pr4 = pr3\<lparr>rtu_dirty := x, rtu_remote := rs\<rparr>" using save_remote_others [OF p(2)] by blast
  have "rs = []" using assms(3) p(3) [symmetric] r4 by (simp split: if_splits)
  moreover have "ascii_text ''normal''" by code_simp
  then have "clean_text ''normal''" by (rule ascii_clean)
  moreover have "int32_ok (to_int32 v)" for v
    using sint_ge [of "word_of_int v :: u32"] sint_lt [of "word_of_int v :: u32"] by (simp add: int32_ok_def to_int32_def)
  ultimately show ?thesis using r3 r4 p(3) [symmetric] by (simp add: rtu_ok_def)
qed

lemma change_password_save:
  assumes "change_password e dt len c = Some (c', n)" and "n \<noteq> 0"
  shows "\<exists>p. param_save p (app_rtu (ce_app c)) = Some (app_rtu (ce_app c'))"
  using assms by (clarsimp simp: change_password_def answer_header_def Let_def split: bind_splits if_splits) blast+

text \<open>The recovery from the file of the settings that a change of the password leaves.\<close>

lemma password_restart:
  assumes "table_ok Type_Param (param (ce_app c))" and "change_password e dt len c = Some (c', n)" and "n \<noteq> 0"
    and "rtu_ok (app_rtu (ce_app c))" and "rtu_remote (app_rtu (ce_app c)) = []" and "sound Type_Param par"
    and "be16_at dt 14 = Some new"
  shows "\<exists>t s par'. rtu_save (app_rtu (ce_app c')) = Some t \<and> rtu_load mem t = Some s \<and>
    param_recovery stack s par = Some par' \<and> val_of par' 0x03 = Some (ucast new)"
proof -
  let ?r = "app_rtu (ce_app c')"
  obtain old new' where "be16_at dt 14 = Some new'" "strtoull16 (rtu_passwd ?r) = ucast new'"
    "length (rtu_remote ?r) = length (rtu_remote (app_rtu (ce_app c)))"
    by (rule change_password_done [OF assms(1-3)]) blast
  then have pw: "strtoull16 (rtu_passwd ?r) = ucast new" and re: "rtu_remote ?r = []" using assms(5,7) by simp_all
  obtain p where "param_save p (app_rtu (ce_app c)) = Some ?r" using change_password_save [OF assms(2,3)] by blast
  then have "rtu_ok ?r" by (rule param_save_ok [OF _ assms(4) re])
  then obtain t where t: "rtu_save ?r = Some t" "rtu_load mem t = Some (loaded (rtu_dirty mem) ?r)" by (rule settings_text)
  obtain par' where par': "param_recovery stack (loaded (rtu_dirty mem) ?r) par = Some par'"
    using param_recovery_total [OF assms(6), of "loaded (rtu_dirty mem) ?r"] re by (auto simp: loaded_def)
  with recovery_password [OF par' assms(6)] t pw show ?thesis by (auto simp: loaded_def)
qed

text \<open>The settings that saving the runtime values leaves can be written to the file as well.\<close>

lemma runtime_save_ok:
  assumes "runtime_save d pr = Some pr'" and "rtu_ok pr"
    and "\<forall>it\<in>set (dc_items d). clean_text (cfg_name (config it)) \<and> sint (it_val it) \<noteq> - (2 ^ 63)"
  shows "rtu_ok pr'"
proof -
  have put: "rtu_ok (q\<lparr>rtu_runtime := map_put n v (rtu_runtime q), rtu_dirty := True\<rparr>)"
    if "rtu_ok q" "clean_text n" "sint v \<noteq> - (2 ^ 63)" for q n v
  proof -
    have "set (map_put n v (rtu_runtime q)) \<subseteq> insert (n, v) (set (rtu_runtime q))" by (rule map_put_set)
    moreover have "sorted_wrt text_less (map fst (map_put n v (rtu_runtime q)))"
      using that(1) by (intro map_put_sorted) (simp add: rtu_ok_def names_ok_def)
    ultimately show ?thesis using that by (auto simp: rtu_ok_def names_ok_def list_all_iff)
  qed
  have "rtu_ok pr'" if "runtime_save_loop ps pr = Some pr'" "rtu_ok pr"
    "\<forall>it\<in>set ps. clean_text (cfg_name (config it)) \<and> sint (it_val it) \<noteq> - (2 ^ 63)" for ps pr
    using that
  proof (induction ps arbitrary: pr)
    case (Cons p ps)
    from Cons.prems(1) obtain z where z: "it_isZero p = Some z" by (auto split: bind_splits)
    define q where "q = (if \<not> z \<and> map_of (rtu_runtime pr) (cfg_name (config p)) \<noteq> Some (it_val p)
      then pr\<lparr>rtu_runtime := map_put (cfg_name (config p)) (it_val p) (rtu_runtime pr), rtu_dirty := True\<rparr> else pr)"
    have "runtime_save_loop ps q = Some pr'" using Cons.prems(1) z by (simp add: q_def Let_def)
    moreover have "rtu_ok q" unfolding q_def using put [OF Cons.prems(2)] Cons.prems(2,3) by simp
    ultimately show ?case using Cons.IH Cons.prems(3) by simp
  qed simp
  from this [OF _ assms(2,3)] assms(1) show ?thesis by (simp add: runtime_save_def)
qed

text \<open>Only the runtime part of the settings counts for the recovery of the runtime values.\<close>

lemma runtime_restart:
  assumes "rtu_ok pr"
  shows "\<exists>t s. rtu_save pr = Some t \<and> rtu_load mem t = Some s \<and> runtime_recovery s rt = runtime_recovery pr rt"
  by (rule settings_text [OF assms, of mem]) (auto simp: runtime_recovery_def loaded_def)

section \<open>The station number\<close>

text \<open>Only the step for the station number writes its text, in decimal, and only when the text read as
  hexadecimal is another number.\<close>

lemma save_center_number: "save_center d r = Some r' \<Longrightarrow> rtu_terminalNo r' = rtu_terminalNo r"
  by (auto simp: save_center_def split: bind_splits if_splits)

lemma save_remote_number: "save_remote d i k r = Some r' \<Longrightarrow> rtu_terminalNo r' = rtu_terminalNo r"
  using save_remote_others by fastforce

lemma param_save_number:
  assumes "param_save d r = Some r'" and "val_of d 0x02 = Some v"
  shows "rtu_terminalNo r' = (if strtoull16 (rtu_terminalNo r) \<noteq> v then to_text v else rtu_terminalNo r)"
    "length (rtu_remote r') = length (rtu_remote r)"
proof -
  obtain no pw where i: "get_place d (at_id d 0x02) = Some no" "get_place d (at_id d 0x03) = Some pw"
    using assms(1) by (auto simp: param_save_def split: bind_splits)
  have v: "it_val no = v" using i(1) assms(2) by (simp add: val_of_def at_id_u16)
  define r1 where "r1 = (if strtoull16 (rtu_terminalNo r) \<noteq> it_val no
    then r\<lparr>rtu_terminalNo := to_text (it_val no), rtu_dirty := True\<rparr> else r)"
  define r2 where "r2 = (if it_val pw \<noteq> strtoull16 (rtu_passwd r1)
    then r1\<lparr>rtu_passwd := tostring16 (it_val pw), rtu_dirty := True\<rparr> else r1)"
  obtain r3 r4 where r3: "save_center d r2 = Some r3" and r4: "save_remote d 0 8 r3 = Some r4"
    and r5: "rtu_terminalNo r' = rtu_terminalNo r4"
    using assms(1) i unfolding param_save_def Let_def r2_def [symmetric, unfolded r1_def]
    by (auto split: bind_splits if_splits simp: r1_def r2_def)
  then show "rtu_terminalNo r' = (if strtoull16 (rtu_terminalNo r) \<noteq> v then to_text v else rtu_terminalNo r)"
    using save_center_number [OF r3] save_remote_number [OF r4] v by (simp add: r1_def r2_def)
  show "length (rtu_remote r') = length (rtu_remote r)" by (rule param_save_passwd(2) [OF assms(1) i(2)])
qed

lemma recover_center_number:
  "recover_center cs i d = Some d' \<Longrightarrow> sound Type_Param d \<Longrightarrow> val_of d' 0x02 = val_of d 0x02"
proof (induction cs arbitrary: i d)
  case (Cons c cs)
  show ?case
  proof (cases "i < 4")
    case True
    then obtain d1 where d1: "recover_center cs (Suc i) d1 = Some d'"
      "modify_item d (at_id d 0x01) (set_hex i (word_of_int c)) = Some d1"
      using Cons.prems(1) by (auto split: bind_splits)
    have "at_u16 d 0x01 \<noteq> at_u16 d 0x02"
      using other_place [OF _ center_row, of d 2] Cons.prems(2) by (auto simp: sound_def)
    then have "val_of d1 0x02 = val_of d 0x02"
      using val_of_other [OF d1(2) keeps_set_hex, of 2] by (simp add: at_id_u16)
    then show ?thesis using Cons.IH [OF d1(1)] sound_modify [OF d1(2) keeps_set_hex Cons.prems(2)] by simp
  qed (use Cons.prems in simp)
qed simp

lemma number_row: "row_of Type_Param 0x02 = Some (cfg 0x02 ''terminalNo'' 10 0 DF_HEXNum)"
  by (simp add: row_of_def config_items_of_def param_config_items_def cfg_def)

lemma type_place_number:
  assumes "sound Type_Param d"
  shows "at_name d ''terminalType'' \<noteq> at_u16 d 0x02"
proof
  assume e: "at_name d ''terminalType'' = at_u16 d 0x02"
  have s: "table_ok Type_Param d" "names_wf d" using assms by (simp_all add: sound_def)
  obtain it where "get_place d (at_u16 d 0x02) = Some it" "config it = cfg 0x02 ''terminalNo'' 10 0 DF_HEXNum"
    using table_ok_id [OF s(1) number_row] by blast
  moreover obtain it' where "get_place d (at_name d ''terminalType'') = Some it'" "config it' = cfg 0xFF01 ''terminalType'' 2 0 DF_BCD"
    using table_ok_name [OF s type_row] by blast
  ultimately show False using e by (simp add: cfg_def)
qed

lemma recovery_number:
  assumes "param_recovery stack rtu d = Some d'" "sound Type_Param d"
  shows "val_of d' 0x02 = Some (strtoull16 (rtu_terminalNo rtu))"
proof -
  have r: "rtu_remote rtu = []"
    using param_recovery_overrun [of d rtu stack] assms by (auto simp: sound_def)
  from assms(1) r obtain p1 p2 p3 p5 where
    p: "modify_item d (at_id d 0x02) (set_val (strtoull16 (rtu_terminalNo rtu))) = Some p1"
      "modify_item p1 (at_id p1 0x03) (set_val (strtoull16 (rtu_passwd rtu))) = Some p2"
      "recover_center (rtu_center rtu) 0 p2 = Some p3"
      "(if rtu_model rtu = ''normal'' then modify_item p3 (at_id p3 0x0C) (set_hex 0 0x02) else Some p3) = Some p5"
      "modify_item p5 (at_name p5 ''terminalType'') (set_val (word_of_int (rtu_terminalType rtu))) = Some d'"
    unfolding param_recovery_def by (auto split: bind_splits)
  note s1 = sound_modify [OF p(1) keeps_set_val assms(2)]
  note s2 = sound_modify [OF p(2) keeps_set_val s1]
  note s3 = sound_recover_center [OF p(3) s2]
  have s5: "sound Type_Param p5" using p(4) s3 sound_modify keeps_set_hex by (cases "rtu_model rtu = ''normal''") auto
  have v1: "val_of p1 0x02 = Some (strtoull16 (rtu_terminalNo rtu))"
    using set_val_at [OF _ number_row, of d "strtoull16 (rtu_terminalNo rtu)"] assms(2) p(1) by (auto simp: sound_def at_id_u16)
  have o: "at_u16 p1 0x03 \<noteq> at_u16 p1 0x02" "at_u16 p3 0x0C \<noteq> at_u16 p3 0x02"
    using other_place [OF _ number_row, of p1 "0x03"] other_place [OF _ number_row, of p3 "0x0C"] s1 s3
    by (auto simp: sound_def)
  have "val_of p2 0x02 = val_of p1 0x02"
    using val_of_other [OF p(2) keeps_set_val] o(1) by (simp add: at_id_u16)
  moreover have "val_of p5 0x02 = val_of p3 0x02"
    using p(4) val_of_other [OF _ keeps_set_hex, of p3 _ 0 "0x02" p5 2] o(2)
    by (cases "rtu_model rtu = ''normal''") (auto simp: at_id_u16)
  moreover have "val_of d' 0x02 = val_of p5 0x02"
    by (rule val_of_other [OF p(5) keeps_set_val type_place_number [OF s5]])
  ultimately show ?thesis using recover_center_number [OF p(3) s2] v1 by simp
qed

text \<open>The way of the number through a restart: saved from its item to the settings, with them to the
  file, loaded and recovered into the item.\<close>

lemma number_restart:
  assumes "param_save p r = Some r'" and "val_of p 0x02 = Some v" and "rtu_ok r" and "rtu_remote r = []"
    and "sound Type_Param par"
  shows "\<exists>t s par'. rtu_save r' = Some t \<and> rtu_load mem t = Some s \<and> param_recovery stack s par = Some par' \<and>
    val_of par' 0x02 = Some (if strtoull16 (rtu_terminalNo r) = v then v else strtoull16 (to_text v))"
proof -
  note n = param_save_number [OF assms(1,2)]
  have re: "rtu_remote r' = []" using n(2) assms(4) by simp
  have "rtu_ok r'" by (rule param_save_ok [OF assms(1,3) re])
  then obtain t where t: "rtu_save r' = Some t" "rtu_load mem t = Some (loaded (rtu_dirty mem) r')" by (rule settings_text)
  obtain par' where par': "param_recovery stack (loaded (rtu_dirty mem) r') par = Some par'"
    using param_recovery_total [OF assms(5), of "loaded (rtu_dirty mem) r'"] re by (auto simp: loaded_def)
  with recovery_number [OF par' assms(5)] t n(1) show ?thesis by (auto simp: loaded_def)
qed

end
