(* ===== verification/Spec2Isabelle.thy ===== *)
theory Spec2Isabelle
  imports Report_Link Up_Laws Center_Laws Down_Laws Gauge Updata_Run Programs Row_Laws Restart_Laws
begin

text \<open>
  A model of the hydrology station program \<^verbatim>\<open>app-cjq\<close> and of its update daemon, with the
  properties that make them correct. Paths are relative to
  \<^verbatim>\<open>src/data-collection-master/Project-App/src/\<close>.

  \<^bold>\<open>The program.\<close> The station samples sensors on serial lines and a rain gauge, keeps the values in tables of
  data items, records them in a data base, and reports them to up to four centres over TCP or serial links; a centre
  can ask for values and change settings. One thread counts rain pulses
  (\<^verbatim>\<open>app/down/_sensor_yuliang.cpp\<close>, \<^verbatim>\<open>rain.cpp\<close>), one reads the sensors
  (\<^verbatim>\<open>_thread_down.cpp\<close> over \<^verbatim>\<open>dfsm.cpp\<close>, then \<^verbatim>\<open>waterlevel.cpp\<close> and
  \<^verbatim>\<open>flow.cpp\<close>), one saves (\<^verbatim>\<open>app/dataprocess/data_save.cpp\<close>), one reports and answers
  (\<^verbatim>\<open>app/up/thread_up.cpp\<close>); the links have threads of their own
  (\<^verbatim>\<open>dev/tcp_client.cpp\<close>, \<^verbatim>\<open>dev/serialport.cpp\<close>). They share the four tables
  \<^verbatim>\<open>devdata\<close>, \<^verbatim>\<open>param\<close>, \<^verbatim>\<open>runtime\<close> and \<^verbatim>\<open>A\<close>, the settings and the data base:
  the record \<open>App\<close>. A second process, the daemon, updates the program from an FTP server.

  \<^bold>\<open>Conventions.\<close> The target is a 32-bit little-endian ARM with unsigned \<^verbatim>\<open>char\<close>; integers
  whose width matters are words, the others \<open>int\<close>. \<open>None\<close> is undefined behaviour (an access outside an
  object, a null pointer, a variable never set), or in the loops marked as such a run that does not return; a C
  result is part of the value. What stands outside the repository is an argument: the
  time, the line and socket events of a turn, the rows SQLite selects (\<open>h_where_base\<close> and its like,
  with the laws \<open>sql_dates\<close> and \<open>sql_bu\<close> where a property needs them), \<^verbatim>\<open>regexec\<close>, the
  settings that were loaded, the contents of arrays that are not initialised; \<^verbatim>\<open>tm_isdst\<close>, which
  \<^verbatim>\<open>TimeSet\<close> does not set, is taken as 0. Log output is left out, with the block of
  \<^verbatim>\<open>upacket_encode\<close> that formats it and reads behind its array for 512 bytes of data or more.

  \<^bold>\<open>Foundations.\<close> \<open>Prelude\<close>: machine types, bounded copies. \<open>Lib_Checksum\<close>,
  \<open>Lib_Bytes\<close>, \<open>Lib_Text\<close>, \<open>Lib_Regex\<close>, \<open>Calendar\<close>:
  \<^verbatim>\<open>lib/lib.cpp\<close>. \<open>Lib_Float\<close>: the IEEE arithmetic the sensor code uses. The locales \<open>codec\<close>
  and \<open>checksum\<close> are their interfaces.

  \<^bold>\<open>Data.\<close> \<open>DataItem\<close>, \<open>DataClass\<close>: \<^verbatim>\<open>data/DataClass.hpp\<close>; a table
  is a list of items with maps from identifiers and names to places, and the locale \<open>store\<close>, interpreted for tables
  (\<open>items\<close>) and for data base rows (\<open>rows\<close>), gives the laws of an update. \<open>DataConfig\<close>: the rows of
  \<^verbatim>\<open>data/DataClassItemConfig.cpp\<close>. \<open>DataLog\<close>: what \<^verbatim>\<open>tolog\<close> writes and
  \<^verbatim>\<open>fromlog\<close> reads, for single items. \<open>Log_Laws\<close>: the same for the tables of \<^verbatim>\<open>Type_Dev\<close>, whose
  time \<^verbatim>\<open>DT\<close> is always set. \<open>Database\<close>: \<^verbatim>\<open>data/DB.hpp\<close> as a list of keyed rows.
  \<open>Settings\<close>: \<^verbatim>\<open>data/rtu_setting.hpp\<close> and its exchange with the tables.
  \<open>Table_Laws\<close>: what an update of one item leaves alone.

  \<^bold>\<open>Files and rows as JSON.\<close> \<open>Json\<close>: what the program uses of the bundled library
  \<^verbatim>\<open>lib/configor/\<close>, the reader (\<open>json_parse\<close>) and the writer (\<open>json_dump\<close>) on texts.
  \<open>Json_Laws\<close>: the writer emits the layout \<open>jt\<close> of a value, the reader takes this layout with any white
  space around it, so a value that is written is read back. \<open>Json_Bind\<close>: the \<^verbatim>\<open>JSON_BIND\<close> lists and the settings
  file, \<open>rtu_load\<close> and \<open>rtu_save\<close>; the rest of the model takes the record they give. \<open>Json_Record\<close>,
  \<open>Row_Laws\<close>: the rows of the data base on their way through JSON (\<open>record2class\<close>, \<open>class2record\<close>), which
  keeps the rows the program writes; \<open>Database\<close> takes them as they are. \<open>Restart_Laws\<close>: from a command
  through the file of the settings to the recovery at the next start.

  \<^bold>\<open>Links and protocol.\<close> \<open>Tcp_Client\<close>, \<open>Serial_Port\<close>, \<open>Mx_Device\<close>:
  \<^verbatim>\<open>dev/\<close>, with the locale \<open>frame_link\<close> interpreted for both devices. \<open>Packet\<close>,
  \<open>Header\<close>: \<^verbatim>\<open>app/up/packet/\<close>. \<open>Send_Mode\<close>: \<^verbatim>\<open>app/up/sendmode.cpp\<close>, the
  transmission of a report in packets with answers. \<open>Packet_Spec\<close>, \<open>Send_Laws\<close>, \<open>Link_Laws\<close>:
  frames as lists of bytes, what sending guarantees, the reachable states of the TCP client. \<open>Report_Link\<close>: the
  protocol on top of the client, with the bytes on the wire.

  \<^bold>\<open>Station.\<close> \<open>App_State\<close>, \<open>App_Laws\<close>: the shared record and its well-formedness
  \<open>app_wf\<close>. \<open>Rain\<close>, \<open>Gauge\<close>, \<open>Waterlevel\<close>, \<open>Flow\<close>, \<open>Dfsm\<close>, \<open>Thread_Down\<close>:
  \<^verbatim>\<open>app/down/\<close>. \<open>Bao\<close> (\<^verbatim>\<open>Ibao.hpp\<close>, \<^verbatim>\<open>zhudong_report.cpp\<close>),
  \<open>Data_Save\<close>, \<open>Center\<close> (\<^verbatim>\<open>app/up/center/\<close>), \<open>Thread_Up\<close>: reports, records,
  commands. \<open>Down_Laws\<close>, \<open>Up_Laws\<close>, \<open>Center_Laws\<close>, \<open>Sensor_Laws\<close>,
  \<open>Station_Laws\<close>: readings end and have the right value, due times, resending, access of the centre; every
  handler keeps the tables sound, and \<open>station_step\<close> interleaves the threads, one turn a step. Turns are taken as
  atomic: the program takes no locks, and races inside a turn are outside the model. The command 47H, which clears the
  tables, is not a step: it breaks the invariant (\<open>clear_dangles\<close>).

  \<^bold>\<open>Daemon.\<close> \<open>Daemon_Sys\<close>: system calls as a script of answers with the open descriptors and a log,
  and \<^verbatim>\<open>daemon/lib.cpp\<close>. \<open>Ftp\<close>: \<^verbatim>\<open>ftpclient.cpp\<close>. \<open>Updata\<close>:
  \<^verbatim>\<open>updata.cpp\<close>. \<open>Updata_Laws\<close>: what is logged, what arrives, what stays open, the order of
  versions, and \<open>newer_loaded\<close>, the steps a poll goes through before it may install. \<open>Updata_Run\<close>: a whole update, followed step by step. \<open>Programs\<close>: the two
  \<^verbatim>\<open>main\<close> functions, \<^verbatim>\<open>daemon.cpp\<close> with its loop of polls.

  \<^bold>\<open>Loops and bounds.\<close> Loops over data are structural or have a measure. A loop that waits takes the list of
  what happens in its turns, one element a sleep; \<open>sm_wait\<close> and \<open>read_a_data\<close> are proved to return, the
  first always, the second once the clock has passed the deadline. \<open>split_loop\<close> is a partial function: with an
  empty pattern it does not return. The receive and transfer loops of the daemon end with the script of answers, which
  stands for any finite behaviour of the peer.

  \<^bold>\<open>Properties.\<close> C1 to C10 frames and sending, C11 to C13 and C15 links, C17, C18, C20 items and tables,
  C23 to C26 time and report bodies, C16, C21, C27 to C30 settings, their file and the data base, C31 to C35 sensors and
  records, C36 to C39 reports and the centre, C40 the invariant of the whole station, C14, C19, C22 the updater. Several
  state that the code does not do what it means to (C4, C9, C10, C15, C20, C21, C22, C28, C29).

  \<^bold>\<open>Not modelled.\<close> The creation of threads, what a forked child does before it runs its command, log output, \<^verbatim>\<open>toString\<close>,
  SQL texts, what the JSON library has and the program does not use (the value of a number with a fraction, wide
  characters, streams), and the rest of the third-party code kept in the tree: easysqlite, Boost.PFR, the MQTT and TLS
  headers, googletest.
\<close>

section \<open>Concrete inputs for the witnesses\<close>

definition still_device :: "unit MxDevice" where
  "still_device = \<lparr>mx_send = (\<lambda>d b n a c. Some (d, [])), mx_is_send_end = (\<lambda>d. True)\<rparr>"

definition still_env :: "unit env" where
  "still_env = (\<lambda>n d. Some (d, []))"

definition good_event :: sys where
  "good_event = \<lparr>sys_now = 0, sys_socket = 3, sys_connect = True, sys_established = True,
     sys_send = 1024, sys_recv = []\<rparr>"

definition line_9600 :: termios where
  "line_9600 = \<lparr>c_speed = 9600, c_clocal = True, c_cread = True, c_crtscts = False, c_ixon = False, c_csize = 8,
     c_parenb = False, c_parodd = False, c_inpck = False, c_cstopb = False, c_opost = False, c_raw = True,
     c_vtime = 1, c_vmin = 1\<rparr>"

definition level_cfg :: DataClassItemConfig where
  "level_cfg = cfg 0x3C ''Z1'' 7 3 DF_BCD"

definition level_item :: "l64 \<Rightarrow> DataClassItem" where
  "level_item v = (blank_item level_cfg)\<lparr>it_val := v\<rparr>"

definition level_table :: "l64 \<Rightarrow> DataClass" where
  "level_table v = push_item empty_class (level_item v)"

definition esc_state :: "unit SendMode" where
  "esc_state = (new_SendMode ())\<lparr>sm_get_packet := True,
     sm_packet := empty_cache\<lparr>ud_p := (replicate 1073 0)[off_etx := 0x1B]\<rparr>\<rparr>"

text \<open>A new table of the station in which the numbers with the given identifiers are set.\<close>

definition dev_with :: "u16 set \<Rightarrow> l64 \<Rightarrow> DataClass" where
  "dev_with ids v =
     (let d = new_DataClass (\<lambda>_. 0) Type_Dev ''devdata''
      in d\<lparr>dc_items := map (\<lambda>it. if it_id it \<in> ids then it\<lparr>it_val := v\<rparr> else it) (dc_items d)\<rparr>)"

definition many_ids :: "u16 set" where
  "many_ids = {0x06, 0x07, 0x08, 0x09, 0x0A, 0x0B, 0x0C, 0x0D, 0x0E, 0x0F, 0x10, 0x11, 0x12, 0x13, 0x14, 0x15, 0x16, 0x17}"

definition header_2021 :: Header where
  "header_2021 = \<lparr>h_liushui = 7, h_sendtime = 1609459200, h_local = 12345, h_type = 0x48, h_observetime = 0\<rparr>"

definition no_settings :: rtu_setting where
  "no_settings = \<lparr>rtu_dirty = False, rtu_logsmax_5min = 0, rtu_terminalNo = ''1'', rtu_terminalType = 0,
     rtu_model = '''', rtu_passwd = ''1'', rtu_center = [], rtu_remote = [], rtu_bdSerialPort = [], rtu_bdBaud = 0,
     rtu_shishi = [], rtu_dingshi = [], rtu_xiaoshi = [], rtu_jiabao = [], rtu_rs485 = [],
     rtu_ftp_set = \<lparr>ftp_enable = 0, ftp_ip = [], ftp_user = [], ftp_password = [], ftp_downdir = [],
       ftp_serverdir = [], ftp_interval = 0\<rparr>,
     rtu_runtime = [], rtu_personalset = []\<rparr>"

lemma no_settings_ok: "rtu_ok no_settings"
proof -
  have "ascii_text ''1''" "ascii_text ''''" by code_simp+
  then have "clean_text ''1''" "clean_text ''''" by (simp_all only: ascii_clean)
  then show ?thesis by (simp add: rtu_ok_def no_settings_def int32_ok_def names_ok_def ftp_ok_def)
qed

text \<open>Settings of a station with \<open>n\<close> failed readings.\<close>

definition some_settings :: "int \<Rightarrow> rtu_setting" where
  "some_settings n = no_settings\<lparr>rtu_terminalNo := ''9900000001'', rtu_terminalType := 75, rtu_model := ''normal'',
     rtu_center := [1, 2, 3], rtu_remote := [''192.168.2.2:9090''], rtu_bdBaud := 115200, rtu_shishi := [''PJ'', ''PT''],
     rtu_jiabao := [(''rain'', [''PT'', ''P1'']), (''waterlevel'', [''Z1''])],
     rtu_rs485 := [blank_rs485\<lparr>rs_factorType := ''Q1'', rs_baud := 9600, rs_err_cnt := n\<rparr>],
     rtu_runtime := [(''RainAlarm'', 10), (''heartBreak'', 30)], rtu_personalset := [(''FL'', ''12345'')]\<rparr>"

lemma some_settings_ok: "rtu_ok (some_settings n)"
proof -
  have "list_all ascii_text [''9900000001'', ''normal'', '''', ''1'', ''192.168.2.2:9090'', ''PJ'', ''PT'', ''P1'', ''Z1'', ''rain'', ''waterlevel'',
      ''Q1'', ''RainAlarm'', ''heartBreak'', ''FL'', ''12345'']"
    by code_simp
  then have p: "list_all clean_text [''9900000001'', ''normal'', '''', ''1'', ''192.168.2.2:9090'', ''PJ'', ''PT'', ''P1'', ''Z1'', ''rain'',
      ''waterlevel'', ''Q1'', ''RainAlarm'', ''heartBreak'', ''FL'', ''12345'']"
    by (rule list.pred_mono_strong) (rule ascii_clean)
  have s: "text_less ''rain'' ''waterlevel''" "text_less ''RainAlarm'' ''heartBreak''" by code_simp+
  show ?thesis
    using p s by (simp add: rtu_ok_def some_settings_def no_settings_def blank_rs485_def int32_ok_def names_ok_def rs485_ok_def
        ftp_ok_def del: text_less.simps)
qed

text \<open>The same settings with the password given as a number.\<close>

lemma numeric_password:
  "json_ok (bind_to ((rtu_to (some_settings 0))[4 := (''passwd'', JInt 1234)]))"
  "json_at ''passwd'' (bind_to ((rtu_to (some_settings 0))[4 := (''passwd'', JInt 1234)])) = Some (JInt 1234)"
  "set rtu_keys \<subseteq> fst ` set (bind_entries ((rtu_to (some_settings 0))[4 := (''passwd'', JInt 1234)]))"
proof -
  let ?fs = "(rtu_to (some_settings 0))[4 := (''passwd'', JInt 1234)]"
  have len: "4 < length (rtu_to (some_settings 0))" by (simp add: rtu_to_def)
  have keys: "map fst ?fs = rtu_keys"
    using keys_fields(4) [of "some_settings 0"] by (simp add: map_update rtu_keys_def)
  have "list_all json_ok (map snd (rtu_to (some_settings 0)))"
    using json_ok_rtu_values [OF some_settings_ok] .
  then have "list_all json_ok (map snd ?fs)" using set_update_subset_insert by (fastforce simp: list_all_iff map_update)
  then show "json_ok (bind_to ?fs)" by (intro json_ok_fields) (simp_all add: keys keys_ascii)
  show "json_at ''passwd'' (bind_to ?fs) = Some (JInt 1234)"
    by (rule json_at_fields) (use keys keys_distinct len set_update_memI in \<open>simp_all\<close>)
  have "set rtu_keys = fst ` set ?fs" using keys by (metis list.set_map)
  then show "set rtu_keys \<subseteq> fst ` set (bind_entries ?fs)" by (simp only: bind_entries_keys order_refl)
qed

lemma still_total: "dev_total still_device still_env"
  by (simp add: dev_total_def still_device_def still_env_def)

lemma uu_wf_new: "uu_wf (sm_up (sm_init ty rem cm dat n p (new_SendMode d)))"
  by (simp add: uu_wf_def sm_init_def new_SendMode_def empty_packet_def Let_def)

lemma level_ok: "cfg_ok level_cfg"
  by (simp add: cfg_ok_def level_cfg_def cfg_def)

lemma level_item_simps [simp]:
  "config (level_item v) = level_cfg" "it_val (level_item v) = v" "cfg_format level_cfg = DF_BCD"
  "it_len (level_item v) = 4"
  by (simp_all add: level_item_def blank_item_def level_cfg_def cfg_def it_len_def)

lemma level_table_simps [simp]: "dc_items (level_table v) = [level_item v]"
  by (simp add: level_table_def push_item_def empty_class_def)

lemma level_table_wf: "dc_wf (level_table v)"
  unfolding level_table_def
  by (rule dc_wf_push) (simp_all add: dc_wf_def empty_class_def)

lemma Init_map: "dc_items (DataClassInit (\<lambda>_. a) cs d) = dc_items d @ map (init_item a) cs"
  by (induction cs arbitrary: d) (simp_all add: push_item_def)

definition dev_item_of :: "u16 set \<Rightarrow> l64 \<Rightarrow> DataClassItemConfig \<Rightarrow> DataClassItem" where
  "dev_item_of ids v c = (if cfg_id c \<in> ids then (init_item 0 c)\<lparr>it_val := v\<rparr> else init_item 0 c)"

lemma dev_item_config [simp]: "config (dev_item_of ids v c) = c"
  by (simp add: dev_item_of_def)

lemma dev_with_items: "dc_items (dev_with ids v) = map (dev_item_of ids v) devdata_config_items"
  by (simp add: dev_with_def new_DataClass_def Init_map config_items_of_def empty_class_def dev_item_of_def Let_def)

lemma dev_with_ok: "table_ok Type_Dev (dev_with ids v)"
proof -
  let ?d = "new_DataClass (\<lambda>_. 0) Type_Dev ''devdata''" and ?d' = "dev_with ids v"
  have ok: "table_ok Type_Dev ?d" by (rule table_ok_new)
  have wf: "wf_item (if it_id it \<in> ids then it\<lparr>it_val := v\<rparr> else it) = wf_item it"
    "config (if it_id it \<in> ids then it\<lparr>it_val := v\<rparr> else it) = config it" for it :: DataClassItem
    by (simp_all add: wf_item_def)
  have same: "dc_type ?d' = dc_type ?d" "int_items ?d' = int_items ?d" "map config (dc_items ?d') = map config (dc_items ?d)"
    "list_all wf_item (dc_items ?d') = list_all wf_item (dc_items ?d)"
    by (simp_all add: dev_with_def Let_def list.pred_map comp_def wf)
  then have l: "length (dc_items ?d') = length (dc_items ?d)" by (metis length_map)
  have "config (dc_items ?d' ! i) = config (dc_items ?d ! i)" if "i < length (dc_items ?d)" for i
    using that same(3) l by (metis nth_map)
  then have "dc_wf ?d'" using ok same(2) l by (simp add: table_ok_def dc_wf_def)
  with ok same show ?thesis by (simp add: table_ok_def)
qed

lemma dev_with_set:
  assumes "list_all (\<lambda>c. cfg_id c \<in> ids \<longrightarrow> cfg_format c = DF_BCD \<and> cfg_len c \<noteq> 0) devdata_config_items"
  shows "length (filter is_set_item (dc_items (dev_with ids v))) \<le>
      length (filter (\<lambda>c. cfg_id c \<in> ids \<or> cfg_format c = DF_HHmm) devdata_config_items)"
    "v \<noteq> DATA_INVALID_VALUE \<Longrightarrow> length (filter (\<lambda>c. cfg_id c \<in> ids) devdata_config_items) \<le>
      length (filter is_set_item (dc_items (dev_with ids v)))"
proof -
  let ?rows = devdata_config_items
  have mono: "length (filter P xs) \<le> length (filter Q xs)" if "\<forall>x\<in>set xs. P x \<longrightarrow> Q x" for P Q and xs :: "DataClassItemConfig list"
    using that by (induction xs) auto
  have n: "length (filter is_set_item (dc_items (dev_with ids v))) = length (filter (\<lambda>c. is_set_item (dev_item_of ids v c)) ?rows)"
    by (simp add: dev_with_items filter_map comp_def)
  have "cfg_id c \<in> ids \<or> cfg_format c = DF_HHmm" if c: "c \<in> set ?rows" "is_set_item (dev_item_of ids v c)" for c
  proof (rule ccontr)
    assume no: "\<not> (cfg_id c \<in> ids \<or> cfg_format c = DF_HHmm)"
    have row: "row_ok c" using devdata_rows c(1) by (simp add: list_all_iff)
    have "cfg_len c = 0 \<or> cfg_format c \<in> {DF_BCD, DF_HEX, DF_CHAR, DF_JPG}"
      using dev_row_formats c(1) no by (auto simp: list_all_iff)
    then have "\<not> is_set_item (init_item 0 c)"
      using init_item_unset [OF row] by (auto simp: is_set_item_def it_isZero_def it_len_def)
    with c(2) no show False by (simp add: dev_item_of_def)
  qed
  then show "length (filter is_set_item (dc_items (dev_with ids v))) \<le>
      length (filter (\<lambda>c. cfg_id c \<in> ids \<or> cfg_format c = DF_HHmm) ?rows)"
    unfolding n by (intro mono) blast
  assume v: "v \<noteq> DATA_INVALID_VALUE"
  have "is_set_item (dev_item_of ids v c)" if c: "c \<in> set ?rows" "cfg_id c \<in> ids" for c
  proof -
    have "cfg_format c = DF_BCD" "cfg_len c \<noteq> 0" "0 \<le> cfg_len c"
      using assms c devdata_rows by (auto simp: list_all_iff row_ok_def wf_cfg_def)
    then have "(cfg_len c + 1) sdiv 2 \<noteq> 0" by simp
    then show ?thesis using \<open>cfg_format c = DF_BCD\<close> v c(2)
      by (simp add: dev_item_of_def is_set_item_def it_isZero_def it_len_def)
  qed
  then show "length (filter (\<lambda>c. cfg_id c \<in> ids) ?rows) \<le> length (filter is_set_item (dc_items (dev_with ids v)))"
    unfolding n by (intro mono) blast
qed

lemma dev_with_vals:
  assumes "- (2 ^ 63) < sint v"
  shows "\<forall>it \<in> set (dc_items (dev_with ids v)). it_format it = DF_BCD \<longrightarrow> - (2 ^ 63) < sint (it_val it)"
proof -
  have "it_val (init_item 0 c) = DATA_INVALID_VALUE" if "cfg_format c = DF_BCD" for c
    using that by (simp add: init_item_def blank_item_def Let_def)
  then show ?thesis using assms by (auto simp: dev_with_items dev_item_of_def DATA_INVALID_VALUE_def)
qed

lemma level_rows:
  "list_all (\<lambda>c. cfg_id c \<in> {0x3C} \<longrightarrow> cfg_format c = DF_BCD \<and> cfg_len c \<noteq> 0) devdata_config_items"
  "list_all (\<lambda>c. cfg_id c \<in> many_ids \<longrightarrow> cfg_format c = DF_BCD \<and> cfg_len c \<noteq> 0) devdata_config_items"
  "length (filter (\<lambda>c. cfg_id c \<in> {0x3C} \<or> cfg_format c = DF_HHmm) devdata_config_items) = 2"
  "length (filter (\<lambda>c. cfg_id c \<in> many_ids \<or> cfg_format c = DF_HHmm) devdata_config_items) = 19"
  "length (filter (\<lambda>c. cfg_id c \<in> many_ids) devdata_config_items) = 18"
  "devdata_config_items ! 73 = level_cfg" "devdata_config_items ! 72 = cfg 0x3B ''ZU'' 7 3 DF_BCD" "length devdata_config_items = 139"
  by (simp_all add: devdata_config_items_def cfg_def many_ids_def level_cfg_def)

lemma level_few: "length (filter is_set_item (dc_items (dev_with {0x3C} v))) \<le> 2"
  using dev_with_set(1) [OF level_rows(1)] unfolding level_rows(3) .

lemma level_set:
  assumes "v \<noteq> DATA_INVALID_VALUE"
  shows "is_set_item (dc_items (dev_with {0x3C} v) ! 73)" "\<not> is_set_item (dc_items (dev_with {0x3C} v) ! 72)"
    "dc_items (dev_with ids v) ! 73 = dev_item_of ids v level_cfg"
    "dc_items (dev_with ids v) ! 72 = dev_item_of ids v (cfg 0x3B ''ZU'' 7 3 DF_BCD)"
  using assms
  by (simp_all add: dev_with_items level_rows dev_item_of_def init_item_def blank_item_def is_set_item_def it_isZero_def
      level_cfg_def cfg_def it_len_def Let_def)

lemma level_names: "names_wf (level_table v)"
  unfolding level_table_def
  by (rule push_names_wf) (simp_all add: names_wf_def empty_class_def)

section \<open>Frames\<close>

text \<open>C1. A frame of the centre is understood: whatever bytes follow it, the decoder started empty
  takes exactly this frame, and command, station address, centre address, password, start and end
  marks, length and data come out as the centre put them in.\<close>

theorem decode_down_frame:
  assumes "length loc = 5" and "length pw = 2" and "length d \<le> 1041" and "length q = ud_size"
  shows "\<exists>ud'. upacket_decode \<lparr>ud_state = 0, ud_len = 0, ud_p = q\<rparr>
      (down_frame loc remote pw cmd d stx etx @ rest) False = (ud', True) \<and>
    ud_cmd (ud_p ud') = cmd \<and> ud_local (ud_p ud') = rev loc \<and> ud_remote (ud_p ud') = remote \<and>
    ud_passwd (ud_p ud') = rev pw \<and> ud_stx (ud_p ud') = stx_code stx \<and> ud_etx (ud_p ud') = etx_code etx \<and>
    ud_packetlen (ud_p ud') = length d + 17 \<and> take (length d) (ud_data (ud_p ud')) = d"
proof -
  let ?a = "rev loc @ [remote] @ rev pw"
  have a: "length ?a = 8" using assms by simp
  obtain ud' where ud': "decode_bytes \<lparr>ud_state = 0, ud_len = 0, ud_p = q\<rparr> (block_frame ?a cmd d stx etx @ rest) = (ud', True)"
    "ud_cmd (ud_p ud') = cmd" "take 8 (drop 2 (ud_p ud')) = ?a" "ud_stx (ud_p ud') = stx_code stx"
    "take (length d) (ud_data (ud_p ud')) = d" "ud_etx (ud_p ud') = etx_code etx" "ud_packetlen (ud_p ud') = length d + 17"
    using decode_block_frame [OF a assms(3,4)] by blast
  have "take 5 (drop 2 (ud_p ud')) = take 5 (take 8 (drop 2 (ud_p ud')))" by (simp add: min_def)
  then have "ud_local (ud_p ud') = rev loc" unfolding ud'(3) using assms(1) by (simp add: ud_local_def)
  moreover have "take 2 (drop 8 (ud_p ud')) = drop 6 (take 8 (drop 2 (ud_p ud')))" by (simp add: drop_take)
  then have "ud_passwd (ud_p ud') = rev pw" unfolding ud'(3) using assms(1) by (simp add: ud_passwd_def)
  moreover have "7 < length (ud_p ud')"
    using arg_cong [OF ud'(3), of length] a by (simp split: if_splits)
  then have "ud_p ud' ! 7 = take 8 (drop 2 (ud_p ud')) ! 5" by simp
  then have "ud_remote (ud_p ud') = remote" unfolding ud'(3) using assms(1) by (simp add: ud_remote_def nth_append)
  ultimately show ?thesis using ud' by (auto simp: upacket_decode_def down_frame_def)
qed

theorem decode_down_frame_witness:
  "\<exists>ud'. upacket_decode \<lparr>ud_state = 0, ud_len = 0, ud_p = replicate 1073 0\<rparr>
      (down_frame [1, 2, 3, 4, 5] 9 [6, 7] 0x37 [0xAA, 0xBB] STX_STX ETX_ENQ @ [0x7E]) False = (ud', True) \<and>
    ud_cmd (ud_p ud') = 0x37 \<and> ud_local (ud_p ud') = [5, 4, 3, 2, 1] \<and> ud_remote (ud_p ud') = 9 \<and>
    ud_passwd (ud_p ud') = [7, 6] \<and> ud_stx (ud_p ud') = 0x02 \<and> ud_etx (ud_p ud') = 0x05 \<and>
    ud_packetlen (ud_p ud') = 19 \<and> take 2 (ud_data (ud_p ud')) = [0xAA, 0xBB]"
  using decode_down_frame [of "[1, 2, 3, 4, 5]" "[6, 7]" "[0xAA, 0xBB]" "replicate 1073 0" 9 "0x37" STX_STX ETX_ENQ "[0x7E]"]
  by (simp add: ud_size_def numeral_2_eq_2)

text \<open>C2. Whatever bytes arrive, the decoder stays inside its cache and in step with its state, and
  it reports a packet only for a frame whose start bytes, direction, length and checksum are in
  order.\<close>

theorem decode_invariant:
  assumes "dec_inv ud" and "upacket_decode ud bs reset = (ud', r)"
  shows "dec_inv ud' \<and> (r \<longrightarrow> (\<exists>q m. length q = ud_size \<and> frame_ok (take m q) \<and> m \<le> ud_size \<and>
    ud' = accept_frame \<lparr>ud_state = 8, ud_len = m, ud_p = q\<rparr>))"
  using assms decode_bytes_inv [OF assms(1), of bs ud' r] dec_inv_reset [of ud]
  by (auto simp: upacket_decode_def split: if_splits)

theorem decode_invariant_witness:
  "dec_inv (fst (upacket_decode (decode_reset empty_cache) [0x7E, 0x7E, 0x01, 0x7E] False))"
  using decode_invariant [OF dec_inv_reset [of empty_cache] prod.collapse [symmetric]] by blast

text \<open>C3. The frame checksum detects every corruption of two adjacent bytes of a message that is
  shorter than 256 bytes.\<close>

theorem crc_detects_pair:
  assumes "(b1, b2) \<noteq> (d1, d2)" and "length xs + 2 + length ys < 256"
  shows "crc_calculate (xs @ b1 # b2 # ys) (int (length xs + 2 + length ys)) \<noteq>
    crc_calculate (xs @ d1 # d2 # ys) (int (length xs + 2 + length ys))"
  using crc16_detects_pair [OF assms(1), of xs ys] assms(2)
  by (simp add: crc_calculate_short nat_add_distrib)

theorem crc_detects_pair_witness:
  "crc_calculate [0x7E, 0x7E, 0x01] 3 \<noteq> crc_calculate [0x7E, 0x7F, 0x02] 3"
  using crc_detects_pair [of "0x7E" "0x01" "0x7F" "0x02" "[0x7E]" "[]"] by simp

text \<open>C4. From 258 bytes on the checksum does not protect a frame: its length enters the routine as
  one byte, so only the first \<open>(n - 2) mod 256\<close> bytes are summed, and the decoder still takes the
  frame when the data behind them are replaced by any others.\<close>

theorem decode_unprotected:
  assumes "frame_ok (h @ d @ t)" and "258 \<le> length (h @ d @ t)" and "length t = 2"
    and "length d = length d'" and "13 \<le> length h" and "(length (h @ d @ t) - 2) mod 256 \<le> length h"
  shows "snd (upacket_decode (decode_reset ud) (h @ d' @ t) False)"
proof -
  have "frame_ok (h @ d' @ t)"
    using frame_ok_unprotected [OF assms(1-4), of "length h - 13"] assms(5,6) by simp
  from decode_accepts [OF this, of "decode_reset ud" "[]"] show ?thesis
    by (simp add: upacket_decode_def decode_reset_def)
qed

theorem decode_unprotected_witness:
  "let f = block_frame (replicate 8 1) 0x37 (replicate 300 0) STX_STX ETX_ENQ
   in snd (upacket_decode (decode_reset empty_cache) (take 59 f @ replicate 256 0xAA @ drop 315 f) False)"
proof -
  let ?f = "block_frame (replicate 8 1) 0x37 (replicate 300 0) STX_STX ETX_ENQ"
  have l: "length ?f = 317" by (subst length_block_frame) simp_all
  have e: "take 59 ?f @ take 256 (drop 59 ?f) @ drop 315 ?f = ?f"
    using append_take_drop_id [of 59 ?f] append_take_drop_id [of 256 "drop 59 ?f"] by simp
  have "frame_ok ?f" by (rule block_frame_ok) simp_all
  then have "snd (upacket_decode (decode_reset empty_cache) (take 59 ?f @ replicate 256 0xAA @ drop 315 ?f) False)"
    by (intro decode_unprotected [where d = "take 256 (drop 59 ?f)"]) (simp_all only: e l, simp_all add: l)
  then show ?thesis by (simp add: Let_def)
qed

section \<open>Sending reports\<close>

text \<open>C5. Splitting a report into packets loses and repeats nothing of its first 1008 bytes: the data of
  packets one to the last, put together, are the report up to that length. What is longer has been cut off
  by \<^verbatim>\<open>init\<close> before, \<^verbatim>\<open>sendmode.cpp\<close> lines 117 and 118.\<close>

theorem report_reassembled:
  assumes "0 < n" and "0 < p" and "s' = sm_init ty rem cm dat n p s"
  shows "concat (map (sm_piece s') [0..<nat (sm_packet_count s')]) = take (nat (min n 1008)) dat"
  using assms by (rule pieces_concat)

theorem report_reassembled_witness:
  "concat (map (sm_piece (sm_init M2 1 0x32 [1, 2, 3, 4, 5] 5 2 (new_SendMode ()))) [0..<3]) = [1, 2, 3, 4, 5]"
  using report_reassembled [OF _ _ refl, of 5 2 M2 1 "0x32" "[1, 2, 3, 4, 5]" "new_SendMode ()"]
  by (simp add: sm_init_def PDSIZE_def new_SendMode_def Let_def)

text \<open>C6. What a report in mode M2 or M4 hands to the device, and its result. The frames are those of the first
  packets in their order, each as often as it was tried, one to three times and always the same frame. The report
  succeeds with an answer that has its command: the answer to its last packet, or, before that, one whose end mark
  is \<^verbatim>\<open>EOT\<close> or \<^verbatim>\<open>ESC\<close>, and the packets behind are then never sent. It fails when a packet was sent three times
  without such an answer.\<close>

theorem m2_outcome:
  assumes "ty \<in> {M2, M4}" and "uu_wf (sm_up s0)" and "0 < n" and "0 < p" and "s = sm_init ty rem cm dat n p s0"
    and "sm_wait mx env loc pw ms s = Some (s', r)"
  shows "\<exists>tries. tries \<noteq> [] \<and> length tries \<le> nat (sm_packet_count s) \<and> set tries \<subseteq> {1..3} \<and>
    sm_sent s' = sm_sent s @ sent_from loc pw s 0 tries \<and>
    (r = 0 \<and> answered s' \<and> (length tries = nat (sm_packet_count s) \<or> end_mark s') \<or>
     r = -1 \<and> \<not> answered s' \<and> List.last tries = 3)"
proof -
  note f = sm_init_fields [OF assms(3-5) refl]
  have "sm_up s = sm_up s0" unfolding assms(5) by (simp add: sm_init_def Let_def)
  moreover have "cut_ok s" unfolding assms(5) by (rule cut_ok_init [OF assms(3,4)])
  moreover have "m2_loop mx env loc pw ms (nat (sm_packet_count s)) (int 0) s = Some (s', r)"
    using assms(1,6) f by (auto simp: sm_wait_def wait_m2_def)
  moreover have "0 < nat (sm_packet_count s)" using f by simp
  ultimately show ?thesis using m2_loop_result [of mx env loc pw ms "nat (sm_packet_count s)" 0 s s' r] assms(2) by simp
qed

theorem m2_outcome_witness:
  "\<exists>s' r tries. sm_wait still_device still_env 1 2 100 (sm_init M2 1 0x32 [1, 2, 3] 3 2 (new_SendMode ())) = Some (s', r) \<and>
    length tries \<le> 2 \<and> set tries \<subseteq> {1..3} \<and>
    sm_sent s' = sent_from 1 2 (sm_init M2 1 0x32 [1, 2, 3] 3 2 (new_SendMode ())) 0 tries \<and> r \<in> {0, -1}"
proof -
  let ?s = "sm_init M2 1 0x32 [1, 2, 3] 3 2 (new_SendMode ())"
  have f: "sm_type ?s = M2" "sm_len ?s = 3" "sm_packet_count ?s = 2" "sm_sent ?s = []"
    by (simp_all add: sm_init_def PDSIZE_def new_SendMode_def Let_def)
  have u: "uu_wf (sm_up (new_SendMode ()))" by (simp add: new_SendMode_def empty_packet_def uu_wf_def)
  have "sm_wait still_device still_env 1 2 100 ?s = wait_m2 still_device still_env 1 2 100 ?s"
    by (simp add: sm_wait_def f)
  moreover have "wait_m2 still_device still_env 1 2 100 ?s \<noteq> None"
    by (rule wait_m2_total [OF still_total u]) simp_all
  ultimately obtain s' r where w: "sm_wait still_device still_env 1 2 100 ?s = Some (s', r)" by auto
  from m2_outcome [OF _ u _ _ refl w] w show ?thesis by (auto simp: f)
qed

text \<open>C7. Waiting ends: over a device whose driver and threads stay inside their buffers, every
  report sent in mode M1, M2 or M4 comes back with a result, whatever the centre answers or does
  not answer.\<close>

theorem sm_wait_total:
  assumes "dev_total mx env" and "uu_wf (sm_up s)" and "0 < n" and "0 < p" and "n \<le> int (length dat)"
    and "ty \<noteq> M3"
  shows "\<exists>s' r. sm_wait mx env loc pw ms (sm_init ty rem cm dat n p s) = Some (s', r)"
proof -
  let ?s = "sm_init ty rem cm dat n p s"
  note f = sm_init_fields [where ty = ty and rem = rem and cm = cm and dat = dat and s = s, OF assms(3,4) refl refl]
  have up: "sm_up ?s = sm_up s" by (simp add: sm_init_def Let_def)
  have "wait_m2 mx env loc pw ms ?s \<noteq> None" by (rule wait_m2_total [OF assms(1-5)])
  moreover have "wait_m1 mx env loc pw ms ?s \<noteq> None"
    by (rule wait_m1_total [OF assms(1)]) (use f up assms in \<open>auto simp: min_def\<close>)
  ultimately show ?thesis
    using f assms(6) by (cases ty) (auto simp: sm_wait_def)
qed

theorem sm_wait_total_witness:
  "\<exists>s' r. sm_wait still_device still_env 1 2 100 (sm_init M1 1 0x2F [1, 2, 3] 3 3 (new_SendMode ())) = Some (s', r)"
  by (rule sm_wait_total [OF still_total]) (simp_all add: new_SendMode_def empty_packet_def uu_wf_def)

text \<open>C8. A report sent without an answer, mode M1, hands the device one frame and no other: the
  frame of the station's address and password around the whole report.\<close>

theorem m1_one_frame:
  assumes "uu_wf (sm_up s)" and "0 \<le> sm_len s" and "sm_len s \<le> 1008" and "sm_len s \<le> int (length (sm_data s))"
    and "wait_m1 mx env loc pw ms s = Some (s', r)"
  shows "sm_sent s' = sm_sent s @ [frame_of True (sm_remote s) loc (ucast pw) (word_of_int (sm_cmd s))
      (take (nat (sm_len s)) (sm_data s)) STX_STX ETX_ETX] \<and>
    (r = 0 \<and> mx_is_send_end mx (sm_dev s') \<or> r = -1)"
  using wait_m1_frame [OF assms] by auto

theorem m1_one_frame_witness:
  "\<exists>s' r. wait_m1 still_device still_env 1 2 100 (sm_init M1 9 0x2F [1, 2] 2 2 (new_SendMode ())) = Some (s', r) \<and>
    sm_sent s' = [frame_of True 9 1 2 0x2F [1, 2] STX_STX ETX_ETX]"
proof -
  let ?s = "sm_init M1 9 0x2F [1, 2] 2 2 (new_SendMode ())"
  have f: "sm_len ?s = 2" "sm_data ?s = [1, 2]" "sm_sent ?s = []" "sm_remote ?s = 9" "sm_cmd ?s = 0x2F"
    by (simp_all add: sm_init_def PDSIZE_def new_SendMode_def Let_def)
  have "wait_m1 still_device still_env 1 2 100 ?s \<noteq> None"
    by (rule wait_m1_total [OF still_total uu_wf_new]) (simp_all add: f)
  then obtain s' r where w: "wait_m1 still_device still_env 1 2 100 ?s = Some (s', r)" by auto
  have "ucast (2 :: l64) = (2 :: u16)" by simp
  with m1_one_frame [OF uu_wf_new _ _ _ w] w show ?thesis by (auto simp: f numeral_2_eq_2)
qed

text \<open>C9. The receive callback empties the decoder after every chunk, so an answer that the link
  delivers in chunks of less than seventeen bytes, the shortest frame, is never received, not even
  when the chunks together are a correct frame.\<close>

theorem split_answer_lost:
  assumes "sm_down s = empty_cache" and "\<forall>c \<in> set chunks. length c < 17" and "frame_ok (concat chunks)"
  shows "sm_get_packet (foldl up_packet_process s chunks) = sm_get_packet s \<and>
    sm_get_packet (up_packet_process s (concat chunks))"
  using short_chunks_lost [OF assms(1,2)] frame_chunk_taken(1) [OF assms(1,3), of "[]"] by simp

theorem split_answer_lost_witness:
  "let f = block_frame (replicate 8 1) 0x32 [] STX_STX ETX_ACK
   in \<not> sm_get_packet (foldl up_packet_process (new_SendMode ()) [take 10 f, drop 10 f]) \<and>
      sm_get_packet (up_packet_process (new_SendMode ()) f)"
proof -
  let ?f = "block_frame (replicate 8 1) 0x32 [] STX_STX ETX_ACK"
  have l: "length ?f = 17" by (subst length_block_frame) simp_all
  have "frame_ok ?f" by (rule block_frame_ok) simp_all
  then show ?thesis
    using split_answer_lost [of "new_SendMode ()" "[take 10 ?f, drop 10 ?f]"] l
    by (simp add: new_SendMode_def Let_def)
qed

text \<open>C10. A report in mode M3 succeeds only when the centre ends with the mark \<^verbatim>\<open>ESC\<close>: an answer
  with the mark \<^verbatim>\<open>EOT\<close> that closes the exchange is not recognised, because it is compared with
  \<^verbatim>\<open>EOF\<close>.\<close>

theorem m3_only_esc:
  assumes "wait_m3 mx env loc pw ms s = Some (s', r)"
  shows "r = -1 \<or> r = -2 \<or> r = 0 \<and> sm_get_packet s' \<and> ud_etx (ud_p (sm_packet s')) = etx_code ETX_ESC"
proof -
  obtain s1 ok where "(if ok then m3_await mx env loc pw ms 0 s1 else Some (s1, -1)) = Some (s', r)"
    using assms by (auto simp: wait_m3_def split: bind_splits)
  then show ?thesis using m3_await_result [of mx env loc pw ms 0 s1 "(s', r)"] by (auto split: if_splits)
qed

theorem m3_only_esc_witness:
  "\<exists>s' r. wait_m3 still_device still_env 1 2 3 esc_state = Some (s', r) \<and> r = 0"
proof -
  have "wait_m3 still_device still_env 1 2 3 esc_state = Some (esc_state\<lparr>sm_sleeps := 1\<rparr>, 0)"
    by (subst wait_m3_def)
      (simp add: esc_state_def new_SendMode_def m3_await.simps pause_def still_env_def Let_def ud_etx_def off_etx_def)
  with m3_only_esc [OF this] show ?thesis by blast
qed

section \<open>The links\<close>

text \<open>C11. In every state that the TCP client reaches by any interleaving of configuration, opening,
  closing, sending and the steps of its two threads, its buffers and counters are in bounds, and
  the state function is defined unless one read fills the receive buffer to the brim.\<close>

theorem tcp_reachable_safe:
  assumes "tcp_reach c"
  shows "tcp_inv c \<and> (case tcp_state_function e c of
      None \<Rightarrow> tc_step c = TCP_STEP_RECV_WAIT \<and> tc_sendlen c = 0 \<and> tc_recvlen c + int (length (sys_recv e)) \<ge> 1024
    | Some (c', out) \<Rightarrow> tcp_inv c')"
  using tcp_reach_inv [OF assms] tcp_state_function_ok [OF tcp_reach_inv [OF assms], of e]
  by (auto split: option.splits)

theorem tcp_reachable_safe_witness: "tcp_inv (fst (mxtcp_keepalive new_tcp_client False))"
  using tcp_reachable_safe [OF tcp_reach.keep [OF tcp_reach.start]] by blast

text \<open>A frame is sent at most once: after it is submitted, whatever the threads and the network
  do until the next one, the bytes that leave are a prefix of that frame, and none has left while
  the client says it has not finished.\<close>

theorem tcp_at_most_once:
  assumes "tcp_reach c" and "frame \<noteq> []" and "length frame \<le> 1024"
    and "mxtcp_send c frame (int (length frame)) sms rms = Some (c1, o1)"
    and "link_run tcp_work events c1 = Some (c2, o2)"
  shows "take (length (o1 @ o2)) frame = o1 @ o2 \<and> (tcp_is_send_end c2 \<or> o1 @ o2 = [])"
proof -
  have s: "mx_send mxtcp c frame (int (length frame)) sms rms = Some (c1, o1)"
    using assms(4) by (simp add: mxtcp_def)
  note r = tcp_link.submit_run [OF tcp_reach_inv [OF assms(1)] assms(2,3) s assms(5)]
  then show ?thesis by (auto simp: mxtcp_def)
qed

theorem tcp_at_most_once_witness:
  "\<exists>c1 o1 c2 o2. mxtcp_send new_tcp_client [1, 2, 3] 3 100 100 = Some (c1, o1) \<and>
    link_run tcp_work [Tick good_event] c1 = Some (c2, o2) \<and> take (length (o1 @ o2)) [1, 2, 3] = o1 @ o2"
proof -
  obtain c1 where c1: "mxtcp_send new_tcp_client [1, 2, 3] (int (length [1 :: u8, 2, 3])) 100 100 = Some (c1, [])"
    and i: "tcp_inv c1" and f: "tcp_frame c1 = [1, 2, 3]"
    using senddata_frame [OF tcp_inv_new, of "[1, 2, 3]" 100 100] by auto
  have "tc_sendlen c1 \<noteq> 0" using f by (auto simp: tcp_frame_def)
  then obtain c2 o2 where c2: "tcp_state_function good_event c1 = Some (c2, o2)"
    using tcp_state_function_ok [OF i, of good_event] by (auto split: option.splits)
  then have r: "link_run tcp_work [Tick good_event] c1 = Some (c2, o2)" by (simp add: tcp_work_def)
  from tcp_at_most_once [OF tcp_reach.start _ _ c1 r] c1 r show ?thesis by auto
qed

text \<open>C12. A report in mode M1 over TCP leaves at most once and in order, and the result says where it is. With any
  behaviour of the network while the protocol waits, what is on the wire has grown by a prefix of the
  frame of the report; \<open>-1\<close> means that none of it has left and that it still waits in the client, from where it
  leaves when the link is up; \<open>0\<close> means that the client is done with it, and with sockets that take all
  they are given the whole frame has left.\<close>

theorem report_over_link:
  assumes "uu_wf (sm_up s)" and "0 \<le> sm_len s" and "sm_len s \<le> 1007" and "sm_len s \<le> int (length (sm_data s))"
    and "sm_dev s = (c, w)" and "tcp_reach c"
    and "wait_m1 tcp_wire (tcp_env evs) loc pw ms s = Some (s', r)"
    and "f = frame_of True (sm_remote s) loc (ucast pw) (word_of_int (sm_cmd s)) (take (nat (sm_len s)) (sm_data s)) STX_STX ETX_ETX"
  shows "\<exists>out c'. sm_dev s' = (c', w @ out) \<and> take (length out) f = out \<and>
    (r = 0 \<and> tcp_frame c' = [] \<and> ((\<forall>n. \<forall>ev\<in>set (evs n). whole_send ev) \<longrightarrow> out = f) \<or>
     r = -1 \<and> out = [] \<and> tcp_frame c' = f \<and>
       (\<forall>n events. ticks_to_send (tc_step c') = Some n \<and> length events = n \<and> list_all good_sys events \<longrightarrow>
          (\<exists>c''. tcp_ticks events c' = Some (c'', f) \<and> tcp_is_send_end c'')))"
proof -
  note i = assms(1-5) tcp_reach_inv [OF assms(6)]
  from report_on_wire [OF i assms(7,8)] obtain out c' where
    p: "sm_dev s' = (c', w @ out)" "take (length out) f = out"
      "r = 0 \<and> tcp_frame c' = [] \<or> r = -1 \<and> out = [] \<and> tcp_frame c' = f \<and> tcp_inv c'" by blast
  have n: "f \<noteq> []" unfolding assms(8) by (simp add: frame_of_def Let_def)
  show ?thesis
  proof (cases "r = 0")
    case True
    have "out = f" if "\<forall>n. \<forall>ev\<in>set (evs n). whole_send ev"
      using report_whole [OF i assms(7) [unfolded True] assms(8) that] p(1) by simp
    with p True show ?thesis by auto
  next
    case False
    with p have q: "r = -1" "out = []" "tcp_frame c' = f" "tcp_inv c'" by auto
    with report_late [OF q(4)] n p show ?thesis by auto
  qed
qed

definition open_client :: tcp_client where
  "open_client = fst (mxtcp_open new_tcp_client (Some 1) (Some 2))"

theorem report_over_link_witness:
  "\<exists>s'. wait_m1 tcp_wire (tcp_env (\<lambda>n. replicate 4 (Tick good_event))) 1 2 100 (sm_init M1 9 0x2F [1, 2] 2 2 (new_SendMode (open_client, []))) = Some (s', 0) \<and>
    snd (sm_dev s') = frame_of True 9 1 2 0x2F [1, 2] STX_STX ETX_ETX"
proof -
  let ?s = "sm_init M1 9 0x2F [1, 2] 2 2 (new_SendMode (open_client, [] :: bytes))" and ?evs = "\<lambda>n :: nat. replicate 4 (Tick good_event)"
  have f: "sm_len ?s = 2" "sm_data ?s = [1, 2]" "sm_remote ?s = 9" "sm_cmd ?s = 0x2F" "sm_dev ?s = (open_client, [])"
    by (simp_all add: sm_init_def PDSIZE_def new_SendMode_def Let_def)
  have c: "tcp_reach open_client" "tc_step open_client = TCP_STEP_OPEN"
    using tcp_reach.open_ [OF tcp_reach.start, of "Some 1" "Some 2"]
    by (simp_all add: open_client_def mxtcp_open_def tcp_start_def Let_def)
  have g: "good_sys good_event" by (simp add: good_sys_def good_event_def)
  have "\<exists>s'. wait_m1 tcp_wire (tcp_env ?evs) 1 2 100 ?s = Some (s', 0)"
    by (rule report_sent [OF uu_wf_new, where es = "replicate 4 good_event" and c = open_client and w = "[]" and n = 4])
      (simp_all add: f c g tcp_reach_inv [OF c(1)] list_all_iff)
  then obtain s' where s': "wait_m1 tcp_wire (tcp_env ?evs) 1 2 100 ?s = Some (s', 0)" by blast
  have u: "ucast (2 :: l64) = (2 :: u16)" by simp
  from report_over_link [OF uu_wf_new _ _ _ f(5) c(1) s' refl] s' f
  show ?thesis unfolding u by (auto simp: whole_send_def good_event_def numeral_2_eq_2)
qed

text \<open>C13. When a waiting frame is sent: a client that holds a frame, in any step but \<^verbatim>\<open>TCP_STEP_NULL\<close>, sends
  the whole frame after the number of ticks its step is away from sending, at most five, if the system
  calls of these ticks succeed. In \<^verbatim>\<open>TCP_STEP_NULL\<close>, the step of a client that is not started or that lost its
  connection when it had nothing to send and was not to keep it, nothing leaves in whatever number of ticks.\<close>

theorem tcp_sends:
  assumes "tcp_inv c" and "0 < tc_sendlen c"
  shows "case ticks_to_send (tc_step c) of
      Some n \<Rightarrow> n \<le> 5 \<and> (\<forall>events. length events = n \<and> list_all good_sys events \<longrightarrow>
        (\<exists>c'. tcp_ticks events c = Some (c', tcp_frame c) \<and> tcp_is_send_end c'))
    | None \<Rightarrow> tc_step c = TCP_STEP_NULL \<and>
        (\<forall>events c' out. tcp_ticks events c = Some (c', out) \<longrightarrow> out = [])"
proof (cases "ticks_to_send (tc_step c)")
  case None
  then have "tc_step c = TCP_STEP_NULL"
    using assms(1) by (cases "tc_step c") (simp_all add: tcp_inv_def tcp_live_steps_def)
  then show ?thesis using None tcp_null_stuck [of c] by auto
next
  case (Some n)
  then have "n \<le> 5" by (cases "tc_step c") auto
  then show ?thesis using Some tcp_delivers [OF assms] by auto
qed

theorem tcp_sends_witness:
  "\<exists>c1 c2. mxtcp_send (new_tcp_client\<lparr>tc_step := TCP_STEP_OPEN\<rparr>) [1, 2, 3] 3 100 100 = Some (c1, []) \<and>
    tcp_ticks (replicate 4 good_event) c1 = Some (c2, [1, 2, 3])"
proof -
  let ?c = "new_tcp_client\<lparr>tc_step := TCP_STEP_OPEN\<rparr>"
  have i: "tcp_inv ?c" using tcp_inv_new by (simp add: tcp_inv_def tcp_live_steps_def)
  obtain c1 where c1: "mxtcp_send ?c [1, 2, 3] (int (length [1 :: u8, 2, 3])) 100 100 = Some (c1, [])"
    and i1: "tcp_inv c1" and f: "tcp_frame c1 = [1, 2, 3]"
    using senddata_frame [OF i, of "[1, 2, 3]" 100 100] by auto
  have l: "tc_sendlen c1 \<noteq> 0" using f by (auto simp: tcp_frame_def)
  then have l: "0 < tc_sendlen c1" using i1 by (simp add: tcp_inv_def)
  have st: "tc_step c1 = TCP_STEP_OPEN"
    using c1 by (auto simp: mxtcp_send_def senddata_def Let_def new_tcp_client_def split: bind_splits if_splits)
  have g: "good_sys good_event" by (simp add: good_sys_def good_event_def)
  have "ticks_to_send (tc_step c1) = Some 4" by (simp add: st)
  then have all: "\<forall>events. length events = 4 \<and> list_all good_sys events \<longrightarrow>
      (\<exists>c'. tcp_ticks events c1 = Some (c', tcp_frame c1) \<and> tcp_is_send_end c')"
    using tcp_sends [OF i1 l] by simp
  have "length (replicate 4 good_event) = 4 \<and> list_all good_sys (replicate 4 good_event)"
    using g by (simp add: list_all_iff)
  with all obtain c2 where "tcp_ticks (replicate 4 good_event) c1 = Some (c2, tcp_frame c1)" by blast
  then show ?thesis using f c1 by auto
qed

text \<open>A read that fills the receive buffer writes one byte behind it: the terminating zero of
  1024 bytes received at once does not fit.\<close>

theorem tcp_full_read:
  assumes "tcp_inv c" and "tc_step c = TCP_STEP_RECV_WAIT" and "tc_sendlen c = 0" and "tc_recvlen c = 0"
    and "tc_recvwannlen c = 1024" and "sys_established e" and "length (sys_recv e) \<ge> 1024"
  shows "tcp_state_function e c = None"
  using assms by (rule tcp_full_read_overruns)

theorem tcp_full_read_witness:
  "tcp_state_function (good_event\<lparr>sys_recv := replicate 1024 7\<rparr>)
     (new_tcp_client\<lparr>tc_step := TCP_STEP_RECV_WAIT, tc_recvwannlen := 1024\<rparr>) = None"
  by (rule tcp_full_read)
    (use tcp_inv_new in \<open>simp_all add: tcp_inv_def tcp_live_steps_def new_tcp_client_def good_event_def\<close>)

text \<open>C15. The longest report that is let through does not fit the link: its frame has 1025 bytes,
  the client keeps 1024, and the last byte of the checksum is never sent.\<close>

theorem long_report_loses_checksum:
  assumes "uu_wf p" and "1008 \<le> length d" and "length d \<le> 1021" and "tcp_inv c"
    and "f = frame_of up remote loc (ucast pw) cmd d stx etx"
  shows "\<exists>p' c'. upacket_encodehex loc pw p up remote cmd d stx etx = Some (p', int (length f)) \<and>
    mxtcp_send c (uu_bytes p') (up_packetlen p') sms rms = Some (c', []) \<and>
    tcp_frame c' = take 1024 f \<and> length (tcp_frame c') < length f"
  using assms by (rule long_report_cut)

theorem long_report_loses_checksum_witness:
  "\<exists>p' c'. mxtcp_send new_tcp_client (uu_bytes p') (up_packetlen p') 100 100 = Some (c', []) \<and>
    tcp_frame c' = take 1024 (frame_of True 1 2 3 0x32 (replicate 1008 0) STX_STX ETX_ETX)"
proof -
  have u: "ucast (3 :: l64) = (3 :: u16)" by simp
  have "uu_wf empty_packet" by (simp add: uu_wf_def empty_packet_def)
  from long_report_loses_checksum [OF this _ _ tcp_inv_new refl, of "replicate 1008 0" 2 3 True 1 "0x32" STX_STX ETX_ETX 100 100]
  show ?thesis unfolding u by (simp only: length_replicate) auto
qed

text \<open>Configuring a serial device leaves the rate of its line as it was: the text of the rate is
  passed on as a number, which is none of the table, and the loop over the table ends at its first
  entry.\<close>

theorem serial_config_keeps_rate:
  assumes "mxserial_config s arg set_ok line = Some (s', line', r)" and "0 \<notin> set (bytes_of arg)"
  shows "line' = line \<and> r = 0"
  using assms by (rule mxserial_config_rate)

theorem serial_config_keeps_rate_witness:
  "\<exists>s'. mxserial_config new_SerialPort ''115200'' True line_9600 = Some (s', line_9600, 0)"
proof -
  have "0 \<notin> set (bytes_of ''115200'')" by (simp add: bytes_of_def byte_of_def)
  moreover have "mxserial_config new_SerialPort ''115200'' True line_9600 \<noteq> None"
    by (auto simp: mxserial_config_def rd_range_def Let_def split: prod.splits)
  ultimately show ?thesis using serial_config_keeps_rate by fastforce
qed

section \<open>Data items and tables\<close>

text \<open>C17. Every table that a constructor makes is sound: each identifier and no other leads to its
  item, in its configured place, and every buffer of an item has the size its accesses assume.\<close>

theorem tables_sound: "table_ok t (new_DataClass addr t n)"
  by (rule table_ok_new)

text \<open>C18. A non-negative number survives the report: what \<^verbatim>\<open>toreport\<close> writes for a decimal item,
  \<^verbatim>\<open>fromreport\<close> reads back into an item of the same configuration, whatever that held.\<close>

theorem report_roundtrip:
  assumes "cfg_ok (config it)" and "it_format it = DF_BCD" and "0 \<le> sint (it_val it)"
    and "sint (it_val it) < 100 ^ nat (it_len it)" and "it_val it \<noteq> DATA_INVALID_VALUE" and "config it' = config it"
  shows "\<exists>w. toreport it = Some (w, int (length w)) \<and>
    fromreport it' (w @ rest) = Some (it'\<lparr>it_val := it_val it\<rparr>, it_len it)"
  using assms by (rule bcd_roundtrip)

theorem report_roundtrip_witness:
  "\<exists>w. toreport (level_item 1234) = Some (w, int (length w)) \<and>
    fromreport (level_item 77) (w @ [1, 2]) = Some (level_item 1234, 4)"
proof -
  have "(level_item 77)\<lparr>it_val := 1234\<rparr> = level_item 1234" by (simp add: level_item_def)
  then show ?thesis
    using report_roundtrip [of "level_item 1234" "level_item 77" "[1, 2]"] level_ok
    by (simp add: DATA_INVALID_VALUE_def)
qed

text \<open>A negative number loses its sign: the report marks it with a byte \<^verbatim>\<open>0xFF\<close>, the reader
  skips the mark and keeps the magnitude.\<close>

theorem report_sign_lost:
  assumes "cfg_ok (config it)" and "it_format it = DF_BCD" and "it_len it < 31"
    and "- (100 ^ nat (it_len it)) < sint (it_val it)" and "- (2 ^ 63) < sint (it_val it)"
    and "sint (it_val it) < 0" and "config it' = config it"
  shows "\<exists>w it''. toreport it = Some (w, int (length w)) \<and>
    fromreport it' (w @ rest) = Some (it'', it_len it + 1) \<and> sint (it_val it'') = - sint (it_val it)"
  using assms by (rule bcd_sign_lost)

theorem report_sign_lost_witness:
  "\<exists>w it''. toreport (level_item (- 5)) = Some (w, int (length w)) \<and>
    fromreport (level_item 0) (w @ []) = Some (it'', 5) \<and> sint (it_val it'') = 5"
  using report_sign_lost [of "level_item (- 5)" "level_item 0" "[]"] level_ok by simp

text \<open>C20. A table of the type \<^verbatim>\<open>Type_Dev\<close> and its log line: the line that \<^verbatim>\<open>tolog\<close> writes, read by \<^verbatim>\<open>fromlog\<close>
  into any table of the type, brings back every set item in its own place and leaves the others as they
  were, as long as fewer than sixteen items are set, the always set time \<^verbatim>\<open>DT\<close> among them. What comes back is what
  \<open>restore\<close> says: a hexadecimal buffer as it is, a number as its magnitude modulo \<open>100 ^ len\<close>, so exactly when it is not
  negative and fits the item, and hour and minute of \<^verbatim>\<open>DT\<close> in packed decimal. With sixteen set items or more
  nothing comes back, because the table of matches cannot grow. The line must fit its buffer of 2048 bytes, for which
  fewer than thirty set items are enough, and no number is the least \<^verbatim>\<open>long\<close>.\<close>

theorem log_roundtrip:
  assumes "table_ok Type_Dev d" and "table_ok Type_Dev d'" and "length (filter is_set_item (dc_items d)) < 30"
    and "\<forall>it \<in> set (dc_items d). it_format it = DF_BCD \<longrightarrow> - (2 ^ 63) < sint (it_val it)"
    and "\<forall>k. length (junk k) = 500"
  shows "\<exists>line d''. tolog d = Some line \<and> fromlog (\<lambda>_. True) junk line d' = Some d'' \<and>
    nitem d'' = nitem d' \<and>
    (\<forall>i < length (dc_items d). get_place d'' (PItem i) =
      Some (if is_set_item (dc_items d ! i) \<and> length (filter is_set_item (dc_items d)) < 16
            then restore (dc_items d ! i) (dc_items d' ! i) else dc_items d' ! i))"
proof -
  note ok = dev_log_ok [OF assms(1,3,4)] and target = dev_log_target [OF assms(1,2)]
  have n: "length (set_reports d) = length (filter is_set_item (dc_items d))" by (simp add: set_reports_def)
  show ?thesis
  proof (cases "length (set_reports d) < 16")
    case True
    then show ?thesis using fromlog_tolog [OF ok target True assms(5)] n by simp
  next
    case False
    then obtain line where "tolog d = Some line" "fromlog (\<lambda>_. True) junk line d' = Some d'"
      using fromlog_many [OF ok, of junk d'] by auto
    then show ?thesis using False n log_target_at(2) [OF target] by auto
  qed
qed

text \<open>A new table with the level \<^verbatim>\<open>Z1\<close> and its time comes back, one with the sixteen numbers 01H to 0FH and 14H does
  not.\<close>

theorem log_roundtrip_witness:
  "(\<exists>line d''. tolog (dev_with {0x3C} 1234) = Some line \<and>
      fromlog (\<lambda>_. True) (\<lambda>_. replicate 500 0) line (dev_with {} 0) = Some d'' \<and>
      map_option it_val (get_place d'' (PItem 73)) = Some 1234 \<and>
      map_option it_val (get_place d'' (PItem 72)) = Some DATA_INVALID_VALUE) \<and>
    (\<exists>line d''. tolog (dev_with many_ids 7) = Some line \<and>
      fromlog (\<lambda>_. True) (\<lambda>_. replicate 500 0) line (dev_with {} 0) = Some d'' \<and>
      map_option it_val (get_place d'' (PItem 73)) = Some DATA_INVALID_VALUE)"
proof -
  let ?j = "\<lambda>_. replicate 500 (0 :: u8)" and ?t = "dev_with {} 0"
  note at = level_set(3,4)
  have few: "length (filter is_set_item (dc_items (dev_with {0x3C} 1234))) < 16" using level_few [of 1234] by simp
  obtain line d'' where a: "tolog (dev_with {0x3C} 1234) = Some line" "fromlog (\<lambda>_. True) ?j line ?t = Some d''"
    "\<forall>i < length (dc_items (dev_with {0x3C} 1234)). get_place d'' (PItem i) =
      Some (if is_set_item (dc_items (dev_with {0x3C} 1234) ! i) \<and> length (filter is_set_item (dc_items (dev_with {0x3C} 1234))) < 16
            then restore (dc_items (dev_with {0x3C} 1234) ! i) (dc_items ?t ! i) else dc_items ?t ! i)"
    using log_roundtrip [OF dev_with_ok dev_with_ok _ dev_with_vals, of "{0x3C}" 1234 ?j "{}" 0] few by auto
  have x: "get_place d'' (PItem 73) = Some (restore (dc_items (dev_with {0x3C} 1234) ! 73) (dc_items ?t ! 73))"
    "get_place d'' (PItem 72) = Some (dc_items ?t ! 72)"
    using a(3) few level_set(1,2) [of 1234] by (simp_all add: dev_with_items level_rows DATA_INVALID_VALUE_def)
  have r: "restore (dev_item_of {0x3C} 1234 level_cfg) (dev_item_of {} 0 level_cfg) = (dev_item_of {} 0 level_cfg)\<lparr>it_val := 1234\<rparr>"
    by (subst restore_exact) (simp_all add: dev_item_of_def level_cfg_def cfg_def it_len_def)
  have one: "map_option it_val (get_place d'' (PItem 73)) = Some 1234"
    "map_option it_val (get_place d'' (PItem 72)) = Some DATA_INVALID_VALUE"
    unfolding x by (simp_all add: at DATA_INVALID_VALUE_def r)
      (simp_all add: dev_item_of_def init_item_def blank_item_def cfg_def DATA_INVALID_VALUE_def Let_def)
  have n: "18 \<le> length (filter is_set_item (dc_items (dev_with many_ids 7)))"
    "length (filter is_set_item (dc_items (dev_with many_ids 7))) \<le> 19"
    using dev_with_set [OF level_rows(2), of 7] unfolding level_rows by (simp_all add: DATA_INVALID_VALUE_def)
  obtain line2 d2 where b: "tolog (dev_with many_ids 7) = Some line2" "fromlog (\<lambda>_. True) ?j line2 ?t = Some d2"
    "\<forall>i < length (dc_items (dev_with many_ids 7)). get_place d2 (PItem i) =
      Some (if is_set_item (dc_items (dev_with many_ids 7) ! i) \<and> length (filter is_set_item (dc_items (dev_with many_ids 7))) < 16
            then restore (dc_items (dev_with many_ids 7) ! i) (dc_items ?t ! i) else dc_items ?t ! i)"
    using log_roundtrip [OF dev_with_ok dev_with_ok _ dev_with_vals, of many_ids 7 ?j "{}" 0] n by auto
  have "get_place d2 (PItem 73) = Some (dc_items ?t ! 73)"
    using b(3) n by (simp add: dev_with_items level_rows)
  then have "map_option it_val (get_place d2 (PItem 73)) = Some DATA_INVALID_VALUE"
    by (simp add: at DATA_INVALID_VALUE_def) (simp add: dev_item_of_def init_item_def blank_item_def level_cfg_def cfg_def DATA_INVALID_VALUE_def Let_def)
  with one a(1,2) b(1,2) show ?thesis by blast
qed

text \<open>Clearing a table, as the command to initialise the memory does, leaves its maps pointing
  at items that no longer exist: the next access to any of them is outside the table.\<close>

theorem clear_dangles:
  assumes "table_ok t d" and "i < length (config_items_of t)"
  shows "get_place (clearAll d) (at_u16 (clearAll d) (cfg_id (config_items_of t ! i))) = None"
proof -
  have m: "map config (dc_items d) = config_items_of t" and w: "dc_wf d" using assms(1) by (simp_all add: table_ok_def)
  then have n: "i < length (dc_items d)" using assms(2) by (metis length_map)
  have "it_id (dc_items d ! i) = cfg_id (config_items_of t ! i)"
    using table_ok_item(3) [OF assms] by simp
  with clearAll_dangles [OF w n] show ?thesis by simp
qed

theorem clear_dangles_witness:
  "get_place (clearAll (new_DataClass (\<lambda>_. 0) Type_Runtime ''runtime''))
     (at_u16 (clearAll (new_DataClass (\<lambda>_. 0) Type_Runtime ''runtime'')) 0x20) = None"
  using clear_dangles [OF table_ok_new, of 0 Type_Runtime "\<lambda>_. 0" "''runtime''"]
  by (simp add: config_items_of_def runtime_config_items_def cfg_def)

section \<open>Time\<close>

text \<open>C23. A time survives its text: \<^verbatim>\<open>string2time\<close> of \<^verbatim>\<open>time2string\<close> is the time itself, for every
  time zone without daylight saving and every year of up to nine digits.\<close>

theorem time_text_roundtrip:
  assumes "0 \<le> tm_year (localtime tz t) + 1900" and "tm_year (localtime tz t) + 1900 < 2 ^ 31"
  shows "string2time tz (time2string tz t) = Some t"
  using assms by (rule string2time_time2string)

theorem time_text_roundtrip_witness: "string2time 28800 (time2string 28800 1609459200) = Some 1609459200"
  by (rule time_text_roundtrip) code_simp+

text \<open>C24. A periodic check fires once a period: for a period that divides the day, every run of one
  period of seconds contains exactly one second at which it passes.\<close>

theorem cycle_once:
  assumes "0 < c" and "c dvd 86400"
  shows "\<exists>!t. t0 \<le> t \<and> t < t0 + c \<and> Cycle_Check tz t c delays"
  using assms by (rule Cycle_Check_once)

theorem cycle_once_witness: "\<exists>!t. 1000 \<le> t \<and> t < 1300 \<and> Cycle_Check 28800 t 300 4"
  using cycle_once [of 300 1000 28800 4] by simp

text \<open>C25. The header carries the send time: the six packed decimal bytes behind the serial number
  are its fields, and until the year 2099 they give back the time to the second.\<close>

theorem header_time:
  assumes "2000 \<le> tm_year (localtime tz (h_sendtime h)) + 1900" and "tm_year (localtime tz (h_sendtime h)) + 1900 < 2100"
    and "f = (\<lambda>i. int (map bcd_byte (take 6 (drop 2 (Header_to_array tz h))) ! i))"
  shows "TimeSet tz (2000 + f 0) (f 1) (f 2) (f 3) (f 4) (f 5) = h_sendtime h"
  using header_sendtime [of tz h] time_fields_time [OF assms(1,2)] assms by simp

theorem header_time_witness:
  "let f = (\<lambda>i. int (map bcd_byte (take 6 (drop 2 (Header_to_array 28800 header_2021))) ! i))
   in TimeSet 28800 (2000 + f 0) (f 1) (f 2) (f 3) (f 4) (f 5) = 1609459200"
proof -
  have y: "tm_year (localtime 28800 1609459200) = 121" by code_simp
  have s: "h_sendtime header_2021 = 1609459200" by (simp add: header_2021_def)
  show ?thesis using header_time [OF _ _ refl, of 28800 header_2021] by (simp add: s y Let_def)
qed

section \<open>The body of a report\<close>

text \<open>C26. The body of a report is its header and then the reports of the requested items, in the
  order of the request, when these fit the output.\<close>

theorem body_is_reports:
  assumes "zw_reports look pdata (zw_names z) = Some ws" and "length cache = 1024"
    and "23 + length (concat ws) \<le> length out" and "body = Header_to_array tz (zw_header z) @ concat ws"
  shows "zw_to_array tz look pdata z cache out 0 = Some (body @ drop (length body) out, int (length body))"
  using assms by (rule zw_to_array_reports)

theorem body_is_reports_witness:
  "\<exists>w. zw_to_array 28800 at_id (level_table 1234) \<lparr>zw_names = [0x3C, 0x3C], zw_header = header_2021\<rparr>
      (replicate 1024 0) (replicate 100 0) 0 =
    Some (Header_to_array 28800 header_2021 @ w @ w @ replicate 65 0, 35)"
proof -
  let ?z = "\<lparr>zw_names = [0x3C, 0x3C], zw_header = header_2021\<rparr> :: u32 ZhengWen"
  obtain w where w: "toreport (level_item 1234) = Some (w, int (length w))" "length w = 6"
    using toreport_bcd [of "level_item 1234"] level_ok by (auto simp: DATA_INVALID_VALUE_def rpt_prefix_def level_cfg_def cfg_def)
  have "get_place (level_table 1234) (at_id (level_table 1234) 0x3C) = Some (level_item 1234)"
    by (simp add: level_table_def push_item_def empty_class_def at_id_def get_place_def rd_def)
      (simp add: level_cfg_def cfg_def)
  then have r: "zw_reports at_id (level_table 1234) (zw_names ?z) = Some [w, w]" using w by simp
  from body_is_reports [OF r, of "replicate 1024 0" "replicate 100 0"] w(2) show ?thesis by auto
qed

section \<open>Settings and the data base\<close>

text \<open>C27. The runtime values survive a restart: saved into the settings, with these written to the file,
  loaded from its text and recovered into a fresh table, every set item has its value again.\<close>

theorem runtime_roundtrip:
  assumes "names_wf d" and "rtu_ok pr"
    and "\<forall>it\<in>set (dc_items d). clean_text (cfg_name (config it)) \<and> sint (it_val it) \<noteq> - (2 ^ 63)"
    and "runtime_save d pr = Some pr'" and "map config (dc_items rt) = map config (dc_items d)" and "names_wf rt"
    and "i < length (dc_items d)" and "it_isZero (dc_items d ! i) = Some False"
  shows "\<exists>t s rt'. rtu_save pr' = Some t \<and> rtu_load mem t = Some s \<and> runtime_recovery s rt = Some rt' \<and>
    it_val (dc_items rt' ! i) = it_val (dc_items d ! i)"
proof -
  have sorted: "sorted_wrt text_less (map fst (rtu_runtime pr))" using assms(2) by (simp add: rtu_ok_def names_ok_def)
  have s: "runtime_save_loop (dc_items d) pr = Some pr'" using assms(4) by (simp add: runtime_save_def)
  have d: "distinct (map (\<lambda>p. cfg_name (config p)) (dc_items d))" using assms(1) by (simp add: names_wf_def)
  have "sorted_wrt text_less (map fst (rtu_runtime pr'))" using runtime_save_loop_keys [OF s sorted] by simp
  note k = sorted_keys_distinct [OF this]
  have v: "map_of (rtu_runtime pr') (cfg_name (config (dc_items d ! i))) = Some (it_val (dc_items d ! i))"
    by (rule runtime_save_loop_vals [OF s sorted d nth_mem [OF assms(7)] assms(8)])
  have l: "length (dc_items rt) = length (dc_items d)" using assms(5) by (metis length_map)
  have c: "config (dc_items rt ! i) = config (dc_items d ! i)" using assms(5,7) l by (metis nth_map)
  from runtime_recover_vals [OF assms(6) k] obtain rt' where rt': "runtime_recovery pr' rt = Some rt'"
    "\<forall>i < length (dc_items rt). it_val (dc_items rt' ! i) =
      (case map_of (rtu_runtime pr') (cfg_name (config (dc_items rt ! i))) of Some v \<Rightarrow> v | None \<Rightarrow> it_val (dc_items rt ! i))"
    unfolding runtime_recovery_def by blast
  have "it_val (dc_items rt' ! i) = it_val (dc_items d ! i)" using rt'(2) v c l assms(7) by auto
  with rt'(1) runtime_restart [OF runtime_save_ok [OF assms(4,2,3)], of mem rt] show ?thesis by auto
qed

theorem runtime_roundtrip_witness:
  "\<exists>pr' t s rt'. runtime_save (level_table 1234) no_settings = Some pr' \<and> rtu_save pr' = Some t \<and>
    rtu_load no_settings t = Some s \<and> runtime_recovery s (level_table 0) = Some rt' \<and> it_val (dc_items rt' ! 0) = 1234"
proof -
  have z: "it_isZero (level_item 1234) = Some False" by (simp add: it_isZero_def DATA_INVALID_VALUE_def)
  then obtain pr' where pr': "runtime_save (level_table 1234) no_settings = Some pr'"
    by (simp add: runtime_save_def Let_def)
  have "ascii_text ''Z1''" by code_simp
  then have n: "\<forall>it\<in>set (dc_items (level_table 1234)). clean_text (cfg_name (config it)) \<and> sint (it_val it) \<noteq> - (2 ^ 63)"
    by (simp add: level_table_def push_item_def empty_class_def level_item_def level_cfg_def cfg_def blank_item_def ascii_clean)
  from runtime_roundtrip [OF level_names no_settings_ok n pr' _ level_names, of 0 0 no_settings] z pr' show ?thesis by simp
qed

text \<open>C16. The settings file: whatever settings with whole numbers of their width, texts without
  control characters that have no escape, and maps in order are saved, loading the text of the file gives
  them back, with the counters of failed readings at zero; only \<^verbatim>\<open>dirty\<close>, which the file does not hold, is what
  the memory of the new object held.\<close>

theorem settings_file_roundtrip:
  assumes "rtu_ok s"
  shows "\<exists>t. rtu_save s = Some t \<and>
    rtu_load mem t = Some (s\<lparr>rtu_dirty := rtu_dirty mem, rtu_rs485 := map (\<lambda>r. r\<lparr>rs_err_cnt := 0\<rparr>) (rtu_rs485 s)\<rparr>)"
  using settings_text [OF assms, of mem] unfolding loaded_def by blast

theorem settings_file_roundtrip_witness:
  "\<exists>t. rtu_save (some_settings 3) = Some t \<and> rtu_load no_settings t = Some (some_settings 0)"
proof -
  have "\<exists>t. rtu_save (some_settings 3) = Some t \<and> rtu_load no_settings t = Some ((some_settings 3)\<lparr>rtu_dirty := rtu_dirty no_settings,
      rtu_rs485 := map (\<lambda>r. r\<lparr>rs_err_cnt := 0\<rparr>) (rtu_rs485 (some_settings 3))\<rparr>)"
    by (rule settings_file_roundtrip [OF some_settings_ok])
  then show ?thesis by (simp add: some_settings_def no_settings_def blank_rs485_def)
qed

text \<open>C21. What \<^verbatim>\<open>load\<close> makes of a file that is JSON: it ends with an exception exactly when the value is not an
  object or one of the seventeen names is missing. Otherwise a wrong type is not an error, as \<open>fields_read\<close> says
  for its twelve fields: each of the four texts is the text of the file or empty; each of the three numbers
  is the number of the file, cut to 32 bits, or what the memory held; each of the five lists has the elements of the
  array of the file up to the first one of another type and from there on empty texts or zeros, and a value that
  is no array gives as many of those as it has entries, one for a text or number, none for \<^verbatim>\<open>null\<close>. Of the
  nested fields (\<^verbatim>\<open>jiabao\<close>, \<^verbatim>\<open>rs485\<close>, \<^verbatim>\<open>ftp\<close>, \<^verbatim>\<open>runtime\<close>, \<^verbatim>\<open>personalset\<close>) nothing is said.\<close>

theorem settings_load_checks:
  assumes "json_parse t = Some j"
  shows "case rtu_load mem t of
      None \<Rightarrow> \<not> (\<exists>es. j = JObj es \<and> set rtu_keys \<subseteq> fst ` set es)
    | Some s \<Rightarrow> (\<exists>es. j = JObj es \<and> set rtu_keys \<subseteq> fst ` set es) \<and> fields_read j mem s"
proof (cases "rtu_load mem t")
  case None
  then show ?thesis using load_accepts [of mem t] assms by simp
next
  case (Some s)
  then have "\<exists>es. j = JObj es \<and> set rtu_keys \<subseteq> fst ` set es" using load_accepts [of mem t] assms by auto
  then show ?thesis using Some load_fields [OF assms Some] by simp
qed

theorem settings_load_checks_witness:
  "\<exists>t j. json_parse t = Some j \<and> json_at ''passwd'' j = Some (JInt 1234) \<and>
    (\<exists>s. rtu_load no_settings t = Some s \<and> rtu_passwd s = '''')"
proof -
  let ?fs = "(rtu_to (some_settings 0))[4 := (''passwd'', JInt 1234)]"
  have fs: "json_ok (bind_to ?fs)" "json_at ''passwd'' (bind_to ?fs) = Some (JInt 1234)" "set rtu_keys \<subseteq> fst ` set (bind_entries ?fs)"
    by (rule numeric_password)+
  have "ws_code (ucast (byte_of (CHR '' '')))" by (simp add: ws_code_def byte_of_def)
  from json_roundtrip [OF fs(1) this, of 4 1] obtain t where t: "json_parse t = Some (bind_to ?fs)" by blast
  have ne: "?fs \<noteq> []" by (simp add: rtu_to_def)
  then have o: "bind_to ?fs = JObj (bind_entries ?fs)" by (simp add: bind_to_def)
  from settings_load_checks [OF t, of no_settings] fs(2,3) o
  have "\<exists>s. rtu_load no_settings t = Some s \<and> rtu_passwd s = ''''"
    by (cases "rtu_load no_settings t") (auto simp: fields_read_def read_as_def as_text_def)
  with t fs(2) show ?thesis by blast
qed

text \<open>C28. The station number through a restart: \<^verbatim>\<open>param_save\<close> puts the value of its item into the settings, they are
  written to the file, and \<^verbatim>\<open>param_recovery\<close> of the loaded file puts it into the item again. The number comes back
  exactly when it is below ten or \<^verbatim>\<open>param_save\<close> did not write it, because the settings, read in hexadecimal, had it
  already: what it writes is decimal. The settings name no centre (with one the recovery is undefined, C29) and the
  number fits the five bytes of its item.\<close>

theorem station_number_text:
  assumes "param_save p r = Some r'" and "val_of p 0x02 = Some v" and "unat v < 2 ^ 40"
    and "rtu_ok r" and "rtu_remote r = []" and "sound Type_Param par"
  shows "\<exists>t s par'. rtu_save r' = Some t \<and> rtu_load mem t = Some s \<and> param_recovery stack s par = Some par' \<and>
    (val_of par' 0x02 = Some v \<longleftrightarrow> unat v < 10 \<or> strtoull16 (rtu_terminalNo r) = v)"
proof -
  from number_restart [OF assms(1,2,4-6), of mem stack] obtain t s par' where
    "rtu_save r' = Some t" "rtu_load mem t = Some s" "param_recovery stack s par = Some par'"
    "val_of par' 0x02 = Some (if strtoull16 (rtu_terminalNo r) = v then v else strtoull16 (to_text v))" by blast
  then show ?thesis using terminalNo_text [OF assms(3)] by auto
qed

text \<open>The number 12345 of a new station is 74565 after the restart, 12345 read as hexadecimal.\<close>

definition numbered :: "l64 \<Rightarrow> DataClass" where
  "numbered v = the (modify_item (new_DataClass (\<lambda>_. 0) Type_Param ''param'')
     (at_u16 (new_DataClass (\<lambda>_. 0) Type_Param ''param'') 0x02) (set_val v))"

lemma numbered_val:
  "sound Type_Param (numbered v)" "val_of (numbered v) 0x02 = Some v" "hex_of (numbered v) 0x04 = Some (replicate 10 0xFF)"
proof -
  let ?d = "new_DataClass (\<lambda>_. 0) Type_Param ''param''"
  from set_val_at [OF table_ok_new number_row, of "\<lambda>_. 0" "''param''" v] obtain d' where
    d': "modify_item ?d (at_u16 ?d 0x02) (set_val v) = Some d'" "val_of d' 0x02 = Some v" "\<forall>j. hex_of d' j = hex_of ?d j" by blast
  have n: "numbered v = d'" using d'(1) by (simp add: numbered_def)
  obtain w where "get_place ?d (at_u16 ?d 0x04) = Some (init_item w (cfg 0x04 ''remote1'' 20 0 DF_HEX))"
    by (rule new_item [OF row_remote])
  then have "hex_of ?d 0x04 = Some (replicate 10 0xFF)"
    by (simp add: hex_of_def init_item_def blank_item_def cfg_def alloc_size_def)
  with n d' sound_modify [OF d'(1) keeps_set_val sound_new] show
    "sound Type_Param (numbered v)" "val_of (numbered v) 0x02 = Some v" "hex_of (numbered v) 0x04 = Some (replicate 10 0xFF)"
    by simp_all
qed

theorem station_number_text_witness:
  "\<exists>r' t s par'. param_save (numbered 12345) no_settings = Some r' \<and> rtu_save r' = Some t \<and> rtu_load no_settings t = Some s \<and>
    param_recovery (replicate 40 0) s (new_DataClass (\<lambda>_. 0) Type_Param ''param'') = Some par' \<and> val_of par' 0x02 \<noteq> Some 12345"
proof -
  have e: "rtu_remote no_settings = []" "rtu_center no_settings = []" by (simp_all add: no_settings_def)
  obtain r' where r': "param_save (numbered 12345) no_settings = Some r'"
    using param_save_total [OF numbered_val(1) _ numbered_val(3), of no_settings] e by (auto simp: rd_def)
  have "rtu_terminalNo no_settings = to_text 1"
    by (simp add: no_settings_def to_text_def to_dec.simps digit_char_def)
  then have "strtoull16 (rtu_terminalNo no_settings) = 1" using terminalNo_text [of 1] by simp
  then show ?thesis
    using station_number_text [OF r' numbered_val(2) _ no_settings_ok e(1) sound_new, of no_settings "replicate 40 0" "\<lambda>_. 0" "''param''"] r'
    by auto
qed

text \<open>C29. With any centre address in the settings the recovery of the parameters is undefined: the
  twenty bytes made of the address go to an item of ten.\<close>

theorem recovery_overruns:
  assumes "table_ok Type_Param par" and "rtu_remote rtu \<noteq> []"
  shows "param_recovery stack rtu par = None"
  using assms by (rule param_recovery_overrun)

theorem recovery_overruns_witness:
  "param_recovery (replicate 40 0) (no_settings\<lparr>rtu_remote := [''1.2.3.4:5000'']\<rparr>)
     (new_DataClass (\<lambda>_. 0) Type_Param ''param'') = None"
  by (rule recovery_overruns [OF table_ok_new]) simp

text \<open>C30. An update refines the abstract store of rows: every row its query selects becomes the
  message, every other row stays, no row moves, and the table stays sound.\<close>

theorem update_refines:
  assumes "tb_wf t" and "where_rows q t \<noteq> []"
  shows "\<exists>t'. db_update True q r t = (0, t') \<and> tb_wf t' \<and> map fst (tb_rows t') = map fst (tb_rows t) \<and>
    (\<forall>i. get_row t' i = (case get_row t i of None \<Rightarrow> None | Some s \<Rightarrow> Some (if q s then r else s)))"
  using assms by (rule db_update_rows)

theorem update_refines_witness:
  "\<exists>t'. db_update True (\<lambda>x. x = 5) (9 :: nat) \<lparr>tb_next = 3, tb_rows = [(1, 5), (2, 6)]\<rparr> = (0, t') \<and>
    get_row t' 1 = Some 9 \<and> get_row t' 2 = Some 6"
proof -
  let ?t = "\<lparr>tb_next = 3, tb_rows = [(1, 5 :: nat), (2, 6)]\<rparr>"
  have "tb_wf ?t" "where_rows (\<lambda>x. x = 5) ?t \<noteq> []" by (simp_all add: tb_wf_def where_rows_def)
  from update_refines [OF this, of 9] obtain t' where t': "db_update True (\<lambda>x. x = 5) 9 ?t = (0, t')"
    "\<And>i. get_row t' i = (case get_row ?t i of None \<Rightarrow> None | Some s \<Rightarrow> Some (if s = 5 then 9 else s))"
    by blast
  have "get_row ?t 1 = Some 5" "get_row ?t 2 = Some 6" by (simp_all add: get_row_def)
  with t'(2) [of 1] t'(2) [of 2] t'(1) show ?thesis by simp
qed


section \<open>Sensors\<close>

text \<open>A station at its start and a data base that answers its queries as SQLite does.\<close>

definition bench_host :: Host where
  "bench_host = \<lparr>h_tz = 28800, h_up = True,
     h_find_base = (\<lambda>q rows. filter (\<lambda>(i, r). q = ''date=\"'' @ b_date r @ ''\"'') rows),
     h_find_important = (\<lambda>q rows. rows),
     h_find_bu = (\<lambda>q rows. take 1 (filter (\<lambda>(i, r). u_valid r \<noteq> 0) rows)),
     h_where_base = (\<lambda>q r. q = ''date=\"'' @ b_date r @ ''\"''),
     h_where_important = (\<lambda>q r. True),
     h_where_bu = (\<lambda>q r. plain (u_name r) \<and> plain (u_cmd r) \<and> plain (u_tdate r) \<and> q = bu_query (u_name r) (u_cmd r) (u_tdate r)),
     h_addr = (\<lambda>_. 0), h_mem = (\<lambda>_. True), h_junk = (\<lambda>_. replicate 500 0)\<rparr>"

definition bench_app :: App where
  "bench_app = \<lparr>devdata = new_DataClass (\<lambda>_. 0) Type_Dev ''datadev'', devdata_now = 0,
     param = new_DataClass (\<lambda>_. 0) Type_Param ''param'', runtime = new_DataClass (\<lambda>_. 0) Type_Runtime ''runtime'',
     app_A = new_DataClass (\<lambda>_. 0) Type_AppData ''A'', app_rtu = no_settings, app_file = no_settings,
     app_db = new_Db, app_head = \<lparr>hs_remote = 1, hs_liushui = 0, hs_observetime = 0\<rparr>,
     rain_last = 0, water_last = 0, flow_last = 0, yanshichongqi = False\<rparr>"

definition level_sensor :: rtu_485 where
  "level_sensor = \<lparr>rs_factorType = ''Z1'', rs_port = ''COM1'', rs_baud = 9600, rs_brandName = [],
     rs_requestCmd = ''010300000001840A'', rs_resultDataFilter = ''010302'', rs_dataType = ''int/10'',
     rs_dataFormatter = ''AB'', rs_err_cnt = 0\<rparr>"

definition sensor_turn :: "int \<Rightarrow> bytes list \<Rightarrow> Turn" where
  "sensor_turn t rx = \<lparr>tu_check = t, tu_rx1 = [], tu_proc = t, tu_rx2 = rx\<rparr>"

lemma bench_wf: "app_wf bench_app"
  by (rule start_wf) (auto simp: start_tables_def bench_app_def)

lemma bench_sensor: "int_sensor level_sensor [1, 3, 0, 0, 0, 1, 0x84, 0x0A] [1, 3, 2] [65, 66]"
  unfolding int_sensor_def by code_simp

lemma bench_machine: "dfsm_inv (new_dfsm 0 0)" "df_step (new_dfsm 0 0) = DFSM_STATE_IDLE" "df_ms_timeout_max (new_dfsm 0 0) = 2000"
  by (simp_all add: dfsm_inv_def new_dfsm_def dfsm_steps df_size_def)

text \<open>A station whose gauge counts five for a pulse.\<close>

lemma bench_gauge: "\<exists>d. app_wf (bench_app\<lparr>runtime := d\<rparr>) \<and> runtime_val (bench_app\<lparr>runtime := d\<rparr>) 0x25 = Some 5 \<and>
    gauge_le 0 (bench_app\<lparr>runtime := d\<rparr>) \<and> total (devdata bench_app) 0x26 = 0"
proof -
  obtain r where row: "row_of Type_Runtime 0x25 = Some r"
    by (simp add: row_of_def config_items_of_def runtime_config_items_def cfg_def)
  have t: "table_ok Type_Runtime (runtime bench_app)" using bench_wf by (simp add: app_wf_def)
  from set_val_at [OF t row, of 5] obtain d where
    d: "modify_item (runtime bench_app) (at_u16 (runtime bench_app) 0x25) (set_val 5) = Some d" "val_of d 0x25 = Some 5" by blast
  let ?s = "bench_app\<lparr>runtime := d\<rparr>"
  have wf: "app_wf ?s" using bench_wf sound_modify [OF d(1) keeps_set_val] by (simp add: app_wf_sound)
  have u: "runtime_val ?s 0x25 = Some 5" using d(2) by (auto simp: runtime_val_def val_of_def at_id_u16)
  have z: "total (devdata bench_app) i = 0" if "i \<in> {0x1A, 0x20, 0x26}" for i
  proof -
    have "\<exists>c. row_of Type_Dev i = Some c \<and> cfg_format c = DF_BCD"
      using that rain_rows(2-4) by (auto simp: cfg_def)
    then show ?thesis using new_val [of Type_Dev i] by (auto simp: total_def bench_app_def)
  qed
  have "name_of Type_AppData ''rainAcc'' = Some (cfg 0x08 ''rainAcc'' 6 1 DF_BCD)"
    by (simp add: name_of_def config_items_of_def appdata_config_items_def cfg_def)
  then obtain v where "A_item bench_app ''rainAcc'' = Some (init_item v (cfg 0x08 ''rainAcc'' 6 1 DF_BCD))"
    by (rule new_item_name) (simp add: A_item_def bench_app_def)
  then have "acc_total bench_app = 0" by (simp add: acc_total_def init_item_def blank_item_def cfg_def)
  then have "gauge_le 0 ?s" using z by (simp add: gauge_le_def acc_total_def A_item_def)
  with wf u z show ?thesis by blast
qed

text \<open>Every pulse of the rain gauge counts once: after any number of pulses the rain of the hour,
  of the day and the accumulated rain have grown by the resolution times their number, no total has
  overflowed and the tables are sound.\<close>

theorem rain_counts:
  assumes "app_wf s" and "runtime_val s 0x25 = Some u" and "1 \<le> u" and "u < 2 ^ 16"
    and "gauge_le b s" and "b + int (length ts) * u < 2 ^ 63 - 1"
  shows "\<exists>s'. rain_pulses h ts s = Some s' \<and> app_wf s' \<and> gauge_le (b + int (length ts) * u) s' \<and>
    (\<forall>i \<in> {0x1A, 0x20, 0x26}. total (devdata s') i = total (devdata s) i + int (length ts) * u)"
  using assms by (rule rain_pulses_total)

text \<open>C31. The rain gauge counts the edges of its input: while the device answers, the loop of the gauge runs on, and
  the rain of the hour, of the day and the accumulated rain have grown by the resolution for every time the
  level fell to 0, also when an event is read twice or the level is repeated.\<close>

theorem gauge_counts:
  assumes "app_wf s" and "runtime_val s 0x25 = Some u" and "1 \<le> u" and "u < 2 ^ 16"
    and "gauge_le b s" and "b + int (length ts) * u < 2 ^ 63 - 1" and "\<forall>t\<in>set ts. di_good t"
  shows "\<exists>buf' old' s'. di_poll h ts buf old s = Some (None, buf', old', s') \<and> app_wf s' \<and>
    (\<forall>i \<in> {0x1A, 0x20, 0x26}. total (devdata s') i =
      total (devdata s) i + int (edges (snd old # levels buf ts)) * u)"
  using assms by (rule di_poll_total)

definition pulse_turn :: "nat \<Rightarrow> nat \<Rightarrow> DiTurn" where
  "pulse_turn t v = \<lparr>dt_select = 1, dt_isset = True, dt_read = 16, dt_event = (t, v), dt_now = 1000\<rparr>"

theorem gauge_counts_witness:
  "\<exists>s s' buf old. app_wf s \<and>
    di_poll bench_host [pulse_turn 5 1, pulse_turn 6 0, pulse_turn 7 0, pulse_turn 8 1, pulse_turn 9 0] (0, 0) (0, 0) s =
      Some (None, buf, old, s') \<and> total (devdata s') 0x26 = 10"
proof -
  obtain d where "app_wf (bench_app\<lparr>runtime := d\<rparr>)" "runtime_val (bench_app\<lparr>runtime := d\<rparr>) 0x25 = Some 5"
    "gauge_le 0 (bench_app\<lparr>runtime := d\<rparr>)" "total (devdata bench_app) 0x26 = 0" using bench_gauge by blast
  from gauge_counts [OF this(1,2) _ _ this(3), of "[pulse_turn 5 1, pulse_turn 6 0, pulse_turn 7 0, pulse_turn 8 1, pulse_turn 9 0]"
      bench_host "(0, 0)" "(0, 0)"] this
  show ?thesis by (simp add: di_good_def pulse_turn_def Let_def) blast
qed

text \<open>C32. The five-minute table of a water level is a store of twelve places for each of the eight
  sensors: what is set is read back modulo \<open>2 ^ 16\<close>, and every other place of every sensor keeps its
  value.\<close>

theorem level_slots:
  assumes "table_ok Type_Dev (devdata s)" and "index < 8" and "off < 12"
  shows "\<exists>s'. set_DRZ (0xF5 + word_of_nat index) v off s = Some (s', 0) \<and> table_ok Type_Dev (devdata s') \<and>
    get_DRZ (Some (devdata s')) index off = Some (word_of_int v) \<and>
    (\<forall>j o2. j < 8 \<and> o2 < 12 \<and> (j, o2) \<noteq> (index, off) \<longrightarrow>
      get_DRZ (Some (devdata s')) j o2 = get_DRZ (Some (devdata s)) j o2)"
  using assms by (rule DRZ_roundtrip)

theorem level_slots_witness:
  "\<exists>s'. set_DRZ 0xF7 1234 11 bench_app = Some (s', 0) \<and> get_DRZ (Some (devdata s')) 2 11 = Some 1234 \<and>
    get_DRZ (Some (devdata s')) 3 11 = get_DRZ (Some (devdata bench_app)) 3 11"
proof -
  have t: "table_ok Type_Dev (devdata bench_app)" using bench_wf by (simp add: app_wf_def)
  from level_slots [OF t, of 2 11 1234] show ?thesis by fastforce
qed

text \<open>C33. A record saved in the data base is read back at its time: the row that is written passes
  unchanged through the conversion to a record of the data base and back through the JSON text, and
  every set item of the table of type \<^verbatim>\<open>Type_Dev\<close>, at most fifteen of them with the always set time \<^verbatim>\<open>DT\<close>, comes
  back in any table of the type as \<open>restore\<close> says (C20): a hexadecimal buffer and a fitting number that is not
  negative as they are, a negative number as its magnitude, the time packed; every other item keeps what
  it held.\<close>

theorem record_roundtrip:
  assumes "sql_dates h" and "tb_wf (base_table s tn)" and "h_mem h = (\<lambda>_. True)" and "\<forall>k. length (h_junk h k) = 500"
    and "table_ok Type_Dev d" and "table_ok Type_Dev d'" and "length (filter is_set_item (dc_items d)) < 16"
    and "\<forall>it \<in> set (dc_items d). it_format it = DF_BCD \<longrightarrow> - (2 ^ 63) < sint (it_val it)"
    and "0 \<le> tm_year (localtime (h_tz h) t) + 1900" and "tm_year (localtime (h_tz h) t) + 1900 < 2 ^ 31"
    and "devdata_db_save h tn cd t d s = Some s'" and "bare cd" and "int32_ok n"
  shows "\<exists>r pr d''. db_update (h_up h) (h_where_base h (date_query h t)) r (base_table s tn) = (0, base_table s' tn) \<and>
    class2record definition_base (base_to (j, r)) [] = Some pr \<and>
    record2class base_fields (stored n definition_base pr) m = Some (n, r) \<and>
    devdata_db_read_data h s' tn t d' = Some (d'', 1) \<and>
    (\<forall>i < length (dc_items d). get_place d'' (PItem i) =
      Some (if is_set_item (dc_items d ! i) then restore (dc_items d ! i) (dc_items d' ! i) else dc_items d' ! i))"
proof -
  have "log_ok d" by (rule dev_log_ok [OF assms(5) _ assms(8)]) (use assms(7) in simp)
  moreover have "log_target d' d" by (rule dev_log_target [OF assms(5,6)])
  moreover have "length (set_reports d) < 16" using assms(7) by (simp add: set_reports_def)
  ultimately show ?thesis by (rule save_rows_back [OF assms(1-4) _ _ _ assms(9-13)])
qed

theorem record_roundtrip_witness:
  "\<exists>s' d''. devdata_db_save bench_host ''hour'' [] 1609459200 (dev_with {0x3C} 1234) bench_app = Some s' \<and>
    devdata_db_read_data bench_host s' ''hour'' 1609459200 (dev_with {} 0) = Some (d'', 1) \<and>
    map_option it_val (get_place d'' (PItem 73)) = Some 1234"
proof -
  let ?d = "dev_with {0x3C} 1234"
  have few: "length (filter is_set_item (dc_items ?d)) < 16" using level_few [of 1234] by simp
  have val: "- (2 ^ 63) < sint (1234 :: l64)" by simp
  have q: "sql_dates bench_host" by (auto simp: sql_dates_def bench_host_def date_query_def intro!: filter_cong)
  have y: "tm_year (localtime (h_tz bench_host) 1609459200) = 121" by code_simp
  have w: "tb_wf (base_table bench_app ''hour'')"
    by (simp add: base_table_def bench_app_def new_Db_def new_Table_wf)
  have h: "h_mem bench_host = (\<lambda>_. True)" "\<forall>k. length (h_junk bench_host k) = 500" by (simp_all add: bench_host_def)
  have "log_ok ?d" by (rule dev_log_ok [OF dev_with_ok _ dev_with_vals [OF val]]) (use few in simp)
  then obtain line where line: "tolog ?d = Some line" using tolog_text by blast
  then obtain s' where s': "devdata_db_save bench_host ''hour'' [] 1609459200 ?d bench_app = Some s'"
    by (cases "db_update (h_up bench_host) (h_where_base bench_host (date_query bench_host 1609459200))
        \<lparr>b_date = time2string (h_tz bench_host) 1609459200, b_data = line, b_code = []\<rparr> (base_table bench_app ''hour'')")
      (auto simp: devdata_db_save_def Let_def)
  from record_roundtrip [OF q w h dev_with_ok dev_with_ok few dev_with_vals [OF val] _ _ s', of 1 0 undefined "{}" 0] y
  obtain d'' where d: "devdata_db_read_data bench_host s' ''hour'' 1609459200 (dev_with {} 0) = Some (d'', 1)"
    "\<forall>i < length (dc_items ?d). get_place d'' (PItem i) =
      Some (if is_set_item (dc_items ?d ! i) then restore (dc_items ?d ! i) (dc_items (dev_with {} 0) ! i) else dc_items (dev_with {} 0) ! i)"
    by (auto simp: bare_ascii int32_ok_def)
  then have "get_place d'' (PItem 73) = Some (restore (dc_items ?d ! 73) (dc_items (dev_with {} 0) ! 73))"
    using level_set(1) [of 1234] by (simp add: dev_with_items level_rows DATA_INVALID_VALUE_def)
  moreover have "restore (dev_item_of {0x3C} 1234 level_cfg) (dev_item_of {} 0 level_cfg) = (dev_item_of {} 0 level_cfg)\<lparr>it_val := 1234\<rparr>"
    by (subst restore_exact) (simp_all add: dev_item_of_def level_cfg_def cfg_def it_len_def)
  ultimately show ?thesis using s' d(1) level_set(3) by (simp add: DATA_INVALID_VALUE_def)
qed


text \<open>C34. Reading a sensor returns: whatever the line delivers and whenever, as soon as the clock has
  passed the deadline in some turn, the reading ends, with at most three requests sent, each a front
  part of the configured one, and with all buffers in bounds.\<close>

theorem reading_ends:
  assumes "dfsm_inv f" and "df_step f = DFSM_STATE_IDLE \<or> df_step f = DFSM_STATE_WAIT" and "df_ms_timeout_max f = 2000"
    and "int_sensor item cmd pre order" and "0 \<le> clock + timeoutms" and "clock + timeoutms < 2 ^ 31"
    and "\<forall>t \<in> set turns. turn_ok t" and "\<exists>t \<in> set turns. tu_check t \<ge> clock + timeoutms"
  shows "\<exists>f' outs v r. read_a_data wrote clock turns item timeoutms f = Some (f', outs, v, r) \<and> length outs \<le> 3 \<and>
    (\<forall>o1 \<in> set outs. \<exists>n. o1 = take n cmd) \<and> dfsm_inv f' \<and> r \<in> {-1, 0, 1}"
  using assms by (rule read_returns)

theorem reading_ends_witness:
  "\<exists>f' outs v r. read_a_data (\<lambda>b. 8) 1000 [sensor_turn 1000 [[1, 2, 3]], sensor_turn 4000 [], sensor_turn 6000 []]
      level_sensor 4000 (new_dfsm 0 0) = Some (f', outs, v, r) \<and> length outs \<le> 3"
  using reading_ends [OF bench_machine(1) disjI1 [OF bench_machine(2)] bench_machine(3) bench_sensor, of 1000 4000
      "[sensor_turn 1000 [[1, 2, 3]], sensor_turn 4000 [], sensor_turn 6000 []]" "\<lambda>b. 8"]
  by (auto simp: turn_ok_def sensor_turn_def)

text \<open>C35. The value of a sensor: when the answer comes in while the thread sleeps after the request,
  the request is sent once and the reading gives a thousand times the number that the bytes named by
  the configuration form, most significant first, divided by the configured divisor.\<close>

theorem reading_value:
  assumes "dfsm_inv f" and "df_step f = DFSM_STATE_IDLE \<or> df_step f = DFSM_STATE_WAIT" and "df_ms_timeout_max f = 2000"
    and "int_sensor item cmd pre order" and "answers item pre order ans"
    and "0 \<le> clock + timeoutms" and "clock + timeoutms < 2 ^ 31"
    and "turn_ok t" and "tu_check t < clock + timeoutms" and "tu_rx1 t = []" and "tu_rx2 t = [ans]"
  shows "\<exists>f'. read_a_data wrote clock (t # u # ts) item timeoutms f =
      Some (f', [take (nat (wrote cmd)) cmd], answer_value item pre order ans, 1) \<and> dfsm_inv f' \<and> df_step f' = DFSM_STATE_IDLE"
  using assms by (rule read_answer)

theorem reading_value_witness:
  "\<exists>f'. read_a_data (\<lambda>b. 8) 1000 [sensor_turn 1000 [[1, 3, 2, 0x01, 0xF4, 0, 0]], sensor_turn 1020 []] level_sensor 4000 (new_dfsm 0 0) =
    Some (f', [[1, 3, 0, 0, 0, 1, 0x84, 0x0A]], 50000, 1)"
proof -
  have a: "answers level_sensor [1, 3, 2] [65, 66] [1, 3, 2, 0x01, 0xF4, 0, 0]"
    unfolding answers_def by code_simp
  have v: "answer_value level_sensor [1, 3, 2] [65, 66] [1, 3, 2, 0x01, 0xF4, 0, 0] = 50000"
    by code_simp
  show ?thesis
    using reading_value [OF bench_machine(1) disjI1 [OF bench_machine(2)] bench_machine(3) bench_sensor a, of 1000 4000
        "sensor_turn 1000 [[1, 3, 2, 0x01, 0xF4, 0, 0]]" "\<lambda>b. 8" "sensor_turn 1020 []" "[]"] v
    by (auto simp: turn_ok_def sensor_turn_def)
qed

section \<open>Reports and the centre\<close>

text \<open>C36. The test for due times agrees with a reference that looks at consecutive times alone: a
  report is due between two times exactly when a multiple of the cycle, moved by the delay, lies
  between them, and asking at any sequence of times neither loses nor repeats one.\<close>

theorem due_times_agree:
  assumes "0 < cycle" and "delays \<le> prev" and "sorted (prev # ts)"
  shows "check_run cycle delays prev ts = due_run cycle delays prev ts \<and>
    (\<forall>a b. due_between cycle delays a b = (\<exists>n. a < n * cycle + delays \<and> n * cycle + delays \<le> b))"
  using check_run_due [OF assms] due_between_moment [OF assms(1)] by blast

theorem due_times_agree_witness:
  "check_run 300 4 1000 [1100, 1203, 1204, 1300, 2500] = [False, False, True, False, True]"
  using due_times_agree [of 300 4 1000 "[1100, 1203, 1204, 1300, 2500]"] by (simp add: due_between_def)

text \<open>C37. A report that fails is sent again, when it is the only one: in a data base without another valid note,
  from which the query would take the first, it is noted, the next due resend takes exactly this report (its items,
  command, table and time), and when the resend is answered no valid note is left.\<close>

theorem failed_report_resent:
  assumes "sql_bu h" and "tb_wf (db_bu (app_db s))" and "\<forall>(i, x) \<in> set (bu_rows s). u_valid x = 0"
    and "bo_kind b \<in> {CycleBaoBase, JiaBaoBase}" and "plain (bo_name b)" and "0 \<le> bo_report_cmd b" and "bo_report_cmd b < 2 ^ 31"
    and "\<forall>w \<in> set (bo_ids b). CHR '' '' \<notin> set w \<and> w \<noteq> []"
    and "bo_kind r = BuBaoBase" and "60 \<le> bo_record_seconds r" and "\<not> bo_record_enable r"
    and "snd (Check_Time (bo_last_record r) t (bo_record_seconds r) (bo_record_delays r))"
  shows "\<exists>r1. record_check h t r (fst (report_fail h now b s)) = Some (r1, True) \<and> bo_ids r1 = bo_ids b \<and>
    bo_report_cmd r1 = bo_report_cmd b \<and> bo_report_tb r1 = bo_record_table b \<and>
    bo_report_date r1 = time2string (h_tz h) (bo_record_time b) \<and>
    (\<forall>(i, x) \<in> set (bu_rows (fst (report_ok h r1 (fst (report_fail h now b s))))). u_valid x = 0)"
proof -
  let ?m = "bu_note h now b"
  obtain i s' where s': "report_fail h now b s = (s', False)" "tb_wf (db_bu (app_db s'))" "(i, ?m) \<in> set (bu_rows s')"
    "\<forall>(j, x) \<in> set (bu_rows s'). u_valid x \<noteq> 0 \<longrightarrow> x = ?m"
    using failed_report_noted [OF assms(1,2,4,5,3)] by blast
  have "split_str (u_ids ?m) '' '' = Some (bo_ids b)" using split_merge [of "bo_ids b"] assms(8) by (simp add: bu_note_def)
  moreover have "u_valid ?m \<noteq> 0" by (simp add: bu_note_def)
  ultimately obtain r1 where r1: "record_check h t r s' = Some (r1, True)" "bo_kind r1 = BuBaoBase" "bo_m r1 = ?m"
    "bo_ids r1 = bo_ids b" "bo_report_cmd r1 = strtol10 (u_cmd ?m)" "bo_report_tb r1 = u_tb ?m" "bo_report_date r1 = u_tdate ?m"
    using resend_takes [OF assms(1,9-12) s'(3,4)] by blast
  have "\<forall>(i, x) \<in> set (bu_rows (fst (report_ok h r1 s'))). u_valid x = 0"
    using resend_clears [OF assms(1) s'(2) r1(2)] r1(3) bu_note_plain [OF assms(5), of h now] s'(4) by simp
  then show ?thesis using r1 s'(1) strtol10_show [OF assms(6,7)] by (simp add: bu_note_def show_cmd_def)
qed

definition hour_report :: Bao where
  "hour_report = set_report_ids [''Z1'', ''PT''] (set_interval 3600 4 25 (new_Bao CycleBaoBase ''hour'' 0x34 ''hour'' [] 0))"

definition resend_report :: Bao where
  "resend_report = set_interval 900 6 70 (new_Bao BuBaoBase ''bu'' 0 [] [] 1000)"

lemma bu_query_inj:
  assumes "plain n" "plain c" "plain d" "plain n'" "plain c'" "plain d'" "bu_query n c d = bu_query n' c' d'"
  shows "n = n' \<and> c = c' \<and> d = d'"
proof -
  let ?t = "takeWhile (\<lambda>x. x \<noteq> CHR 0x22)" and ?d = "dropWhile (\<lambda>x. x \<noteq> CHR 0x22)"
  have t: "?t (x @ CHR 0x22 # y) = x" "?d (x @ CHR 0x22 # y) = CHR 0x22 # y" if "plain x" for x y
    using that by (auto simp: plain_def takeWhile_append dropWhile_append)
  define q where "q n c d = n @ CHR 0x22 # ('' and cmd='' @ CHR 0x22 # (c @ CHR 0x22 # ('' and tdate='' @ CHR 0x22 # (d @ CHR 0x22 # []))))" for n c d
  have "q n c d = q n' c' d'" using assms(7) by (simp add: bu_query_def q_def)
  then have n: "n = n'" "c @ CHR 0x22 # ('' and tdate='' @ CHR 0x22 # (d @ CHR 0x22 # [])) = c' @ CHR 0x22 # ('' and tdate='' @ CHR 0x22 # (d' @ CHR 0x22 # []))"
    using arg_cong [of "q n c d" "q n' c' d'" ?t] arg_cong [of "q n c d" "q n' c' d'" ?d] t assms(1,4)
    unfolding q_def by simp_all
  then have "c = c'" using arg_cong [OF n(2), of ?t] t assms(2,5) by simp
  with n show ?thesis by simp
qed

lemma bench_bu: "sql_bu bench_host"
proof -
  have "h_where_bu bench_host (bu_query n c d) r = (u_name r = n \<and> u_cmd r = c \<and> u_tdate r = d)"
    if "plain n" "plain c" "plain d" for n c d r
  proof -
    have "h_where_bu bench_host q r = (plain (u_name r) \<and> plain (u_cmd r) \<and> plain (u_tdate r) \<and>
        q = bu_query (u_name r) (u_cmd r) (u_tdate r))" for q by (simp add: bench_host_def)
    then show ?thesis using bu_query_inj [OF that, of "u_name r" "u_cmd r" "u_tdate r"] that by blast
  qed
  then show ?thesis unfolding sql_bu_def by (simp add: bench_host_def)
qed

theorem failed_report_resent_witness:
  "\<exists>r1. record_check bench_host 1806 resend_report (fst (report_fail bench_host 900 hour_report bench_app)) = Some (r1, True) \<and>
    bo_ids r1 = [''Z1'', ''PT''] \<and> bo_report_cmd r1 = 0x34"
proof -
  have t: "tb_wf (db_bu (app_db bench_app))" "\<forall>(i, x) \<in> set (bu_rows bench_app). u_valid x = 0"
    by (simp_all add: bench_app_def new_Db_def new_Table_wf bu_rows_def) (simp add: new_Table_def)
  have b: "bo_kind hour_report = CycleBaoBase" "bo_name hour_report = ''hour''" "bo_report_cmd hour_report = 0x34"
    "bo_ids hour_report = [''Z1'', ''PT'']"
    by (simp_all add: hour_report_def set_report_ids_def set_interval_def new_Bao_def)
  have r: "bo_kind resend_report = BuBaoBase" "bo_record_seconds resend_report = 900" "\<not> bo_record_enable resend_report"
    "bo_last_record resend_report = 1000" "bo_record_delays resend_report = 6"
    by (simp_all add: resend_report_def set_interval_def new_Bao_def)
  have "snd (Check_Time 1000 1806 900 6)" by (simp add: Check_Time_def)
  with failed_report_resent [OF bench_bu t, of hour_report resend_report 1806 900] b r show ?thesis
    by (auto simp: plain_def)
qed


definition bench_center :: Center where
  "bench_center = \<lparr>ce_app = bench_app, ce_baos = [], ce_out = new_centerdata, ce_second = False, ce_clock = None\<rparr>"

definition bench_env :: CenterEnv where
  "bench_env = \<lparr>ce_host = bench_host, ce_default = no_settings, ce_stack = replicate 40 0, ce_now = 1609459200\<rparr>"



text \<open>C39. A change of the password takes effect at once and lasts, in a station whose settings name no centre (with
  one the recovery after the restart is undefined, C29): when the command is answered, the parameter has the new
  password, the number of every other parameter and the bytes of every parameter are what they were; the settings
  can be saved, and when a restart loads the text of the file and recovers the parameters from it, they have the new
  password.\<close>

theorem password_lasts:
  assumes "table_ok Type_Param (param (ce_app c))" and "change_password e dt len c = Some (c', n)" and "n \<noteq> 0"
    and "rtu_ok (app_rtu (ce_app c))" and "rtu_remote (app_rtu (ce_app c)) = []" and "sound Type_Param par"
  shows "\<exists>old new t s par'. be16_at dt 10 = Some old \<and> be16_at dt 14 = Some new \<and>
    old = ucast (the (val_of (param (ce_app c)) 0x03)) \<and> val_of (param (ce_app c')) 0x03 = Some (ucast new) \<and>
    (\<forall>i. i \<noteq> 0x03 \<longrightarrow> val_of (param (ce_app c')) i = val_of (param (ce_app c)) i) \<and>
    (\<forall>i. hex_of (param (ce_app c')) i = hex_of (param (ce_app c)) i) \<and>
    rtu_save (app_rtu (ce_app c')) = Some t \<and> rtu_load mem t = Some s \<and>
    param_recovery stack s par = Some par' \<and> val_of par' 0x03 = Some (ucast new)"
proof -
  obtain old new where d: "be16_at dt 10 = Some old" "be16_at dt 14 = Some new"
    "old = ucast (the (val_of (param (ce_app c)) 0x03))" "val_of (param (ce_app c')) 0x03 = Some (ucast new)"
    "\<forall>i. i \<noteq> 0x03 \<longrightarrow> val_of (param (ce_app c')) i = val_of (param (ce_app c)) i"
    "\<forall>i. hex_of (param (ce_app c')) i = hex_of (param (ce_app c)) i"
    by (rule change_password_done [OF assms(1-3)]) blast
  with password_restart [OF assms d(2), of mem stack] show ?thesis by blast
qed

definition password_request :: bytes where
  "password_request = replicate 8 0 @ [0x03, 0x10, 0xFF, 0xFF, 0x03, 0x10, 0x12, 0x34]"

theorem password_lasts_witness:
  "\<exists>c' n t s par'. change_password bench_env password_request 16 bench_center = Some (c', n) \<and> n \<noteq> 0 \<and>
    rtu_save (app_rtu (ce_app c')) = Some t \<and> rtu_load no_settings t = Some s \<and>
    param_recovery (replicate 40 0) s (new_DataClass (\<lambda>_. 0) Type_Param ''param'') = Some par' \<and>
    val_of par' 0x03 = Some 0x1234"
proof -
  let ?P = "param (ce_app bench_center)"
  have s: "sound Type_Param ?P" "table_ok Type_Param ?P" "rtu_center (app_rtu (ce_app bench_center)) = []"
    "rtu_remote (app_rtu (ce_app bench_center)) = []" "length (ce_out bench_center) = 4096"
    using bench_wf by (simp_all add: bench_center_def app_wf_sound sound_def bench_app_def no_settings_def new_centerdata_def)
  have v: "val_of ?P 0x03 = Some DATA_INVALID_VALUE"
    using new_val [OF password_row] by (simp add: bench_center_def bench_app_def)
  obtain w where "get_place ?P (at_u16 ?P 0x04) = Some (init_item w (cfg 0x04 ''remote1'' 20 0 DF_HEX))"
    unfolding bench_center_def bench_app_def by (rule new_item [OF row_remote]) simp
  then have h: "hex_of ?P 0x04 = Some (replicate 10 0xFF)"
    by (simp add: hex_of_def init_item_def blank_item_def cfg_def alloc_size_def)
  have d: "be16_at password_request 10 = Some 0xFFFF" "be16_at password_request 14 = Some 0x1234" "rd password_request 8 = Some 3"
    by code_simp+
  have o: "(0xFFFF :: u16) = ucast DATA_INVALID_VALUE" by code_simp
  from change_password_total [OF s(1,3) h _ s(5) d v o, of bench_env 16] obtain c' n where
    x: "change_password bench_env password_request 16 bench_center = Some (c', n)" "n \<noteq> 0"
    by (auto simp: rd_def)
  have "rtu_ok (app_rtu (ce_app bench_center))" by (simp add: bench_center_def bench_app_def no_settings_ok)
  from password_lasts [OF s(2) x this s(4) sound_new, of no_settings "replicate 40 0" "\<lambda>_. 0" "''param''"] x d(2) show ?thesis
    by auto
qed

text \<open>C40. The tables stay sound as long as the centre does not send the command 47H, which clears the history and
  after which the places are gone (\<open>clear_dangles\<close>): in every state that the threads of the station can reach from a
  start by the recovery, sweeps over the sensors, pulses, turns of the data thread, packets of the centre with any
  other command, and turns over the reports, every configured item of the four tables is in its place, with its
  buffers, under its number and its name.\<close>

theorem station_sound:
  assumes "station_reach h s"
  shows "app_wf s"
  using assms by (rule reach_wf)

theorem station_sound_witness:
  "\<exists>s'. di_get bench_host 1000 (1, 0) (0, 1) bench_app = Some (s', (1, 0)) \<and> app_wf s'"
proof -
  have "di_get bench_host 1000 (1, 0) (0, 1) bench_app \<noteq> None" by code_simp
  then obtain s' ev where s': "di_get bench_host 1000 (1, 0) (0, 1) bench_app = Some (s', ev)" by auto
  then have ev: "ev = (1, 0)" by (auto simp: di_get_def split: if_splits)
  have "start_tables bench_app" by (auto simp: start_tables_def bench_app_def)
  with s' have "station_reach bench_host s'" by (blast intro: station_reach.intros station_step.intros)
  then show ?thesis using station_sound s' ev by blast
qed
section \<open>The updater\<close>

text \<open>One poll: each call of the package manager that it logs comes after the steps of \<open>newer_loaded\<close>, taken from the
  state the poll begins in, and installs the file that was received in them.\<close>

theorem update_guarded:
  assumes "updata_poll mem junk ftp k t s = Some (r, t', s')"
    and "logs_at s s' n (Ran c)" and "take 4 c = ''dpkg''"
  shows "\<exists>L s2 f. newer_loaded mem junk ftp s L s2 \<and> logs_at s2 s' n (Ran c) \<and>
    c = ''dpkg -i '' @ ftp_downdir ftp @ ''/'' @ app @ ''_'' @ L @ ''.tar > '' @ f"
  using assms by (rule poll_installs)

theorem update_guarded_witness:
  "\<exists>s' n s2 L. updata_poll zeros (zeros 100) update_ftp 5 60 update_os = Some (0, 0, s') \<and>
    newer_loaded zeros (zeros 100) update_ftp update_os L s2 \<and>
    logs_at s2 s' n (Ran ''dpkg -i /app/app-cjq_V1.2.3_220901_10.00.00.tar > /tmp/-AbCdEf 2>&1'')"
proof -
  let ?c = "''dpkg -i /app/app-cjq_V1.2.3_220901_10.00.00.tar > /tmp/-AbCdEf 2>&1''"
  obtain s' where s': "updata_poll zeros (zeros 100) update_ftp 5 60 update_os = Some (0, 0, s')"
    "Ran ?c \<in> set (os_log s')" using update_run by blast
  then obtain n where n: "logs_at update_os s' n (Ran ?c)"
    using logs_at_ex [of "Ran ?c" update_os s'] by (auto simp: update_os_def)
  from update_guarded [OF s'(1) n] s'(1) show ?thesis by (simp add: update_ftp_def) blast
qed

text \<open>C14. The daemon installs a package only when it is newer and has arrived: in every run, of however many polls, the
  entry \<open>n\<close> of the log, if it is a call of the package manager, was written by one of the polls of the run, behind the
  steps of \<open>newer_loaded\<close> taken from the very state in which this poll began: the server listed a version \<open>L\<close>
  bigger than the one the installed program reported, and the file named after \<open>L\<close> was then downloaded with
  success. It is this file that is installed. With arguments the package manager is never called.\<close>

theorem daemon_guarded:
  assumes "daemon_main argv ds s = Some (out, res, s')"
    and "logs_at s s' n (Ran c)" and "take 4 c = ''dpkg''"
  shows "argv = [] \<and> (\<exists>pre d post t1 u1 r t2 u2 t' L s2 f. ds = pre @ d # post \<and>
    daemon_loop pre 0 s = Some (t1, u1) \<and> poll_turn d t1 u1 = Some (r, t2, u2) \<and> daemon_loop post t2 u2 = Some (t', s') \<and>
    newer_loaded (dn_mem d) (dn_junk d) (dn_ftp d) u1 L s2 \<and> logs_at s2 u2 n (Ran c) \<and>
    c = ''dpkg -i '' @ ftp_downdir (dn_ftp d) @ ''/'' @ app @ ''_'' @ L @ ''.tar > '' @ f)"
proof -
  from assms(1,2) obtain t where a: "argv = []" and l: "daemon_loop ds 0 s = Some (t, s')"
    by (auto simp: daemon_main_def logs_at_def split: list.splits)
  from loop_event [OF l assms(2)] obtain pre d post t1 u1 r t2 u2 where
    d: "ds = pre @ d # post" "daemon_loop pre 0 s = Some (t1, u1)" "daemon_loop post t2 u2 = Some (t, s')"
    and p: "poll_turn d t1 u1 = Some (r, t2, u2)" and e: "logs_at u1 u2 n (Ran c)" by blast
  from poll_installs [OF p [unfolded poll_turn_def] e assms(3)] a d p show ?thesis by blast
qed

theorem daemon_guarded_witness:
  "\<exists>s' n u1 u2 L s2. daemon_main [] (replicate 12 \<lparr>dn_ftp = update_ftp, dn_mem = zeros, dn_junk = zeros 100\<rparr>) update_os =
      Some ([], None, s') \<and>
    newer_loaded zeros (zeros 100) update_ftp u1 L s2 \<and>
    logs_at s2 u2 n (Ran ''dpkg -i /app/app-cjq_V1.2.3_220901_10.00.00.tar > /tmp/-AbCdEf 2>&1'')"
proof -
  let ?c = "''dpkg -i /app/app-cjq_V1.2.3_220901_10.00.00.tar > /tmp/-AbCdEf 2>&1''"
  let ?d = "\<lparr>dn_ftp = update_ftp, dn_mem = zeros, dn_junk = zeros 100\<rparr>"
  obtain s' where s': "updata_poll zeros (zeros 100) update_ftp 5 60 update_os = Some (0, 0, s')"
    "Ran ?c \<in> set (os_log s')" using update_run by blast
  have g: "ftp_get_setting update_ftp = 0" by (simp add: ftp_get_setting_def update_ftp_def cstr_def nul_def)
  have "updata_poll zeros (zeros 100) update_ftp 5 55 update_os = updata_poll zeros (zeros 100) update_ftp 5 60 update_os"
    by (rule poll_when_due) (simp_all add: g, simp_all add: update_ftp_def)
  with s'(1) have p: "poll_turn ?d 55 update_os = Some (0, 0, s')" by (simp add: poll_turn_def)
  have "daemon_loop (replicate 11 ?d) 0 update_os = Some (55, update_os)"
    using daemon_waits [of "replicate 11 ?d" 0 update_os] g by (simp add: update_ftp_def)
  then have "daemon_loop (replicate 11 ?d @ [?d]) 0 update_os = Some (0, s')"
    using p by (simp add: daemon_loop_append)
  moreover have "replicate 11 ?d @ [?d] = replicate 12 ?d" using replicate_append_same [of 11 ?d] by (simp flip: replicate_Suc)
  ultimately have m: "daemon_main [] (replicate 12 ?d) update_os = Some ([], None, s')" by (simp add: daemon_main_def)
  obtain n where n: "logs_at update_os s' n (Ran ?c)"
    using s'(2) logs_at_ex [of "Ran ?c" update_os s'] by (auto simp: update_os_def)
  from daemon_guarded [OF m n] obtain pre d post u1 u2 L s2 where x: "replicate 12 ?d = pre @ d # post"
    "newer_loaded (dn_mem d) (dn_junk d) (dn_ftp d) u1 L s2" "logs_at s2 u2 n (Ran ?c)" by auto
  have "d \<in> set (replicate 12 ?d)" unfolding x(1) by simp
  then have "newer_loaded zeros (zeros 100) update_ftp u1 L s2" using x(2) by simp
  with x(3) m show ?thesis by blast
qed

text \<open>C19. The comparison of versions is the lexicographic order of their seven numbers, as long as in both versions
  the first is below \<open>2 ^ 31\<close>, the second and the third are below 8, the date is below 1000000, and hour, minute
  and second are below 100: these are the bounds that \<open>small_version\<close> lists, beyond which the packed numbers run
  into each other.\<close>

theorem version_order:
  assumes "length xs = 7" and "\<forall>f\<in>set xs. digits f" and "length ys = 7" and "\<forall>f\<in>set ys. digits f"
    and "small_version (map dec_num xs)" and "small_version (map dec_num ys)"
    and "r = [] \<or> \<not> is_digit (hd r)" and "r' = [] \<or> \<not> is_digit (hd r')"
  shows "is_version_bigger (version_text xs @ r) (version_text ys @ r') = newer (map dec_num xs) (map dec_num ys)"
proof -
  have "\<forall>x\<in>set v. x < 2 ^ 31" if "small_version v" for v
    using that by (cases v rule: small_version.cases) auto
  then have b: "\<forall>f\<in>set xs. digits f \<and> dec_num f < 2 ^ 31" "\<forall>f\<in>set ys. digits f \<and> dec_num f < 2 ^ 31"
    using assms by (auto dest!: spec)
  have "version_fields (version_text xs @ r) = map int (map dec_num xs)"
    "version_fields (version_text ys @ r') = map int (map dec_num ys)"
    using version_fields_text [OF assms(1) b(1) assms(7)] version_fields_text [OF assms(3) b(2) assms(8)] by simp_all
  then show ?thesis using packed_newer [OF assms(5,6)] by (simp add: is_version_bigger_def Let_def)
qed

theorem version_order_witness:
  "is_version_bigger ''V1.1.05_220802_17.04.10'' ''V1.1.06_220801_09.00.00'' = 1"
  using version_order [of "[''1'', ''1'', ''05'', ''220802'', ''17'', ''04'', ''10'']" "[''1'', ''1'', ''06'', ''220801'', ''09'', ''00'', ''00'']" "[]" "[]"]
  by (simp add: digits_def is_digit_def dec_num_def version_text_def)



end
